(* ===== verification/JS_Prelude.thy ===== *)
theory JS_Prelude
  imports Main "HOL-Library.Multiset" "HOL-Library.AList"
begin

text \<open>
  What the components share of JavaScript strings: a string is the list of its UTF-16
  code units, with \<open>trim\<close>, \<open>split\<close>, \<open>join\<close>, \<open>includes\<close>, \<open>startsWith\<close> and decimal
  numerals. The collections and the sort are in \<open>JS_Collections\<close>, \<open>JSON.parse\<close> is in
  \<open>JS_Json\<close>.
\<close>

named_theorems js_simps \<open>evaluation of string literals and of the string operations\<close>

section \<open>Strings\<close>

type_synonym code_unit = nat
type_synonym jsstr = "code_unit list"

text \<open>A literal of the source: the code units of an ASCII text.\<close>

definition js :: "string \<Rightarrow> jsstr" where
  "js s = map of_char s"

lemma js_Nil [simp]: "js [] = []"
  by (simp add: js_def)

lemma js_Cons [js_simps]: "js (c # cs) = of_char c # js cs"
  by (simp add: js_def)

lemma js_append: "js (a @ b) = js a @ js b"
  by (simp add: js_def)

lemma js_eq_Nil [simp]: "js s = [] \<longleftrightarrow> s = []"
  by (simp add: js_def)

text \<open>The white space and line terminators that \<open>trim\<close> and \<open>\s\<close> recognise.\<close>

definition is_ws :: "code_unit \<Rightarrow> bool" where
  "is_ws c \<longleftrightarrow> (9 \<le> c \<and> c \<le> 13) \<or> c = 32 \<or> c = 160 \<or> c = 5760 \<or>
     (8192 \<le> c \<and> c \<le> 8202) \<or> c = 8232 \<or> c = 8233 \<or> c = 8239 \<or> c = 8287 \<or>
     c = 12288 \<or> c = 65279"

definition trim_left :: "jsstr \<Rightarrow> jsstr" where
  "trim_left s = dropWhile is_ws s"

definition trim :: "jsstr \<Rightarrow> jsstr" where
  "trim s = trim_left (rev (trim_left (rev s)))"

fun split_on :: "'a \<Rightarrow> 'a list \<Rightarrow> 'a list list" where
  "split_on c [] = [[]]"
| "split_on c (x # xs) =
     (if x = c then [] # split_on c xs
      else (case split_on c xs of [] \<Rightarrow> [[x]] | p # ps \<Rightarrow> (x # p) # ps))"

fun join :: "'a list \<Rightarrow> 'a list list \<Rightarrow> 'a list" where
  "join sep [] = []"
| "join sep [x] = x"
| "join sep (x # y # ys) = x @ sep @ join sep (y # ys)"

definition starts_with :: "'a list \<Rightarrow> 'a list \<Rightarrow> bool" where
  "starts_with s p \<longleftrightarrow> take (length p) s = p"

definition ends_with :: "'a list \<Rightarrow> 'a list \<Rightarrow> bool" where
  "ends_with s p \<longleftrightarrow> starts_with (rev s) (rev p)"

fun str_includes :: "'a list \<Rightarrow> 'a list \<Rightarrow> bool" where
  "str_includes [] p = (p = [])"
| "str_includes (x # xs) p = (starts_with (x # xs) p \<or> str_includes xs p)"

lemma starts_with_append [simp]: "starts_with (p @ s) p"
  by (simp add: starts_with_def)

lemma starts_with_iff: "starts_with s p \<longleftrightarrow> (\<exists>r. s = p @ r)"
  by (metis append_eq_conv_conj starts_with_def append_take_drop_id)

lemma starts_with_Cons [js_simps]:
  "starts_with (x # xs) (y # ys) \<longleftrightarrow> x = y \<and> starts_with xs ys"
  by (auto simp: starts_with_def)

lemma starts_with_Nil [simp]: "starts_with s []"
  by (simp add: starts_with_def)

lemma starts_with_empty [simp]: "starts_with [] p \<longleftrightarrow> p = []"
  by (auto simp: starts_with_def)

lemma str_includes_iff: "str_includes s p \<longleftrightarrow> (\<exists>a b. s = a @ p @ b)"
proof (induction s)
  case Nil
  then show ?case by auto
next
  case (Cons x xs)
  have "(\<exists>a b. x # xs = a @ p @ b) \<longleftrightarrow> (\<exists>b. x # xs = p @ b) \<or> (\<exists>a b. xs = a @ p @ b)"
    by (metis append_Cons append_Nil append_eq_Cons_conv)
  with Cons show ?case by (simp add: starts_with_iff)
qed

lemma str_includes_singleton: "str_includes s [c] \<longleftrightarrow> c \<in> set s"
  by (auto simp: str_includes_iff in_set_conv_decomp)

subsection \<open>Trimming\<close>

lemma trim_left_id: "s = [] \<or> \<not> is_ws (hd s) \<Longrightarrow> trim_left s = s"
  by (cases s) (auto simp: trim_left_def)

lemma trim_left_hd: "trim_left s = [] \<or> \<not> is_ws (hd (trim_left s))"
  using hd_dropWhile [of is_ws s] by (auto simp: trim_left_def)

lemma trim_left_suffix: "\<exists>w. s = w @ trim_left s \<and> (\<forall>c \<in> set w. is_ws c)"
  unfolding trim_left_def by (metis takeWhile_dropWhile_id set_takeWhileD)

lemma trim_left_Nil [simp]: "trim_left [] = []"
  by (simp add: trim_left_def)

lemma last_trim_left: "trim_left s \<noteq> [] \<Longrightarrow> last (trim_left s) = last s"
  using trim_left_suffix [of s] by (metis last_appendR)

lemma trim_Nil [simp]: "trim [] = []"
  by (simp add: trim_def)

lemma trim_hd: "trim s \<noteq> [] \<Longrightarrow> \<not> is_ws (hd (trim s))"
  using trim_left_hd unfolding trim_def by blast

lemma trim_last: "trim s \<noteq> [] \<Longrightarrow> \<not> is_ws (last (trim s))"
proof -
  assume ne: "trim s \<noteq> []"
  let ?r = "rev (trim_left (rev s))"
  have "last (trim s) = last ?r" using ne last_trim_left by (simp add: trim_def)
  moreover have "?r \<noteq> []" using ne by (auto simp: trim_def)
  moreover have "\<not> is_ws (last ?r)"
    using trim_left_hd [of "rev s"] \<open>?r \<noteq> []\<close> by (simp add: last_rev)
  ultimately show ?thesis by simp
qed

lemma trim_id: "s = [] \<or> (\<not> is_ws (hd s) \<and> \<not> is_ws (last s)) \<Longrightarrow> trim s = s"
  by (auto simp: trim_def trim_left_id hd_rev)

lemma trim_trim [simp]: "trim (trim s) = trim s"
  by (rule trim_id) (use trim_hd trim_last in blast)

lemma trim_decomp:
  "\<exists>a b. s = a @ trim s @ b \<and> (\<forall>c \<in> set a. is_ws c) \<and> (\<forall>c \<in> set b. is_ws c)"
proof -
  let ?r = "rev (trim_left (rev s))"
  obtain w where w: "rev s = w @ trim_left (rev s)" "\<forall>c \<in> set w. is_ws c"
    using trim_left_suffix by blast
  obtain v where v: "?r = v @ trim s" "\<forall>c \<in> set v. is_ws c"
    using trim_left_suffix [of ?r] unfolding trim_def by blast
  from w(1) have "s = ?r @ rev w" by (metis rev_append rev_rev_ident)
  with v w(2) have "s = v @ trim s @ rev w \<and> (\<forall>c \<in> set v. is_ws c) \<and> (\<forall>c \<in> set (rev w). is_ws c)"
    by (metis append.assoc set_rev)
  then show ?thesis by blast
qed

lemma set_trim: "set (trim s) \<subseteq> set s"
  using trim_decomp [of s] by (metis Un_iff set_append subsetI)

lemma length_trim: "length (trim s) \<le> length s"
  using trim_decomp [of s] by (metis append.assoc length_append le_add1 le_add2 le_trans)

lemma trim_eq_Nil: "trim s = [] \<longleftrightarrow> (\<forall>c \<in> set s. is_ws c)"
proof
  assume "trim s = []"
  then show "\<forall>c \<in> set s. is_ws c" using trim_decomp [of s] by auto
next
  assume "\<forall>c \<in> set s. is_ws c"
  with trim_hd [of s] set_trim [of s] show "trim s = []"
    by (metis hd_in_set subsetD)
qed


subsection \<open>Splitting and joining\<close>

lemma split_on_ne [simp]: "split_on c s \<noteq> []"
  by (cases s) (auto split: list.splits)

lemma split_on_no_sep: "p \<in> set (split_on c s) \<Longrightarrow> c \<notin> set p"
  by (induction s arbitrary: p) (auto split: if_splits list.splits)

lemma set_split_on: "p \<in> set (split_on c s) \<Longrightarrow> set p \<subseteq> set s"
  by (induction s arbitrary: p) (fastforce split: if_splits list.splits)+

lemma split_on_absent: "c \<notin> set s \<Longrightarrow> split_on c s = [s]"
  by (induction s) auto

lemma split_on_append_sep:
  "c \<notin> set p \<Longrightarrow> split_on c (p @ c # s) = p # split_on c s"
  by (induction p) auto

lemma join_Cons: "ps \<noteq> [] \<Longrightarrow> join sep (p # ps) = p @ sep @ join sep ps"
  by (cases ps) auto

lemma join_elems: "c \<in> set (join sep ps) \<Longrightarrow> c \<in> set sep \<or> (\<exists>p \<in> set ps. c \<in> set p)"
  by (induction sep ps rule: join.induct) auto

lemma join_single: "length ps = 1 \<Longrightarrow> join sep ps = hd ps"
  by (cases ps) auto

lemma split_on_join:
  "ps \<noteq> [] \<Longrightarrow> \<forall>p \<in> set ps. c \<notin> set p \<Longrightarrow> split_on c (join [c] ps) = ps"
proof (induction ps)
  case Nil
  then show ?case by simp
next
  case (Cons p ps)
  then show ?case
    by (cases "ps = []") (simp_all add: join_Cons split_on_absent split_on_append_sep)
qed

lemma join_split_on: "join [c] (split_on c s) = s"
proof (induction s)
  case Nil
  then show ?case by simp
next
  case (Cons x xs)
  obtain p ps where ps: "split_on c xs = p # ps" by (meson split_on_ne neq_Nil_conv)
  with Cons show ?case by (cases "ps = []") (auto simp: join_Cons)
qed

text \<open>The idiom \<open>s.split(c).map(trim).filter(Boolean)\<close>.\<close>

definition split_trim :: "code_unit \<Rightarrow> jsstr \<Rightarrow> jsstr list" where
  "split_trim c s = filter (\<lambda>p. p \<noteq> []) (map trim (split_on c s))"

lemma split_trim_elem:
  "p \<in> set (split_trim c s) \<Longrightarrow> p \<noteq> [] \<and> trim p = p \<and> c \<notin> set p"
  unfolding split_trim_def using set_trim split_on_no_sep by fastforce

lemma split_trim_join:
  assumes "\<forall>p \<in> set ps. p \<noteq> [] \<and> trim p = p \<and> c \<notin> set p"
  shows "split_trim c (join [c] ps) = ps"
proof (cases "ps = []")
  case True
  then show ?thesis by (simp add: split_trim_def)
next
  case False
  have "map trim ps = ps" "filter (\<lambda>p. p \<noteq> []) ps = ps"
    using assms by (auto intro: map_idI filter_True)
  with False assms show ?thesis by (simp add: split_trim_def split_on_join)
qed

section \<open>Decimal numerals\<close>

definition is_digit :: "code_unit \<Rightarrow> bool" where
  "is_digit c \<longleftrightarrow> 48 \<le> c \<and> c \<le> 57"

fun show_nat :: "nat \<Rightarrow> jsstr" where
  "show_nat n = (if n < 10 then [48 + n] else show_nat (n div 10) @ [48 + n mod 10])"

declare show_nat.simps [simp del]

definition show_int :: "int \<Rightarrow> jsstr" where
  "show_int i = (if i < 0 then 45 # show_nat (nat (- i)) else show_nat (nat i))"

text \<open>\<open>Number.parseInt(s, 10)\<close> on a text of decimal digits.\<close>

definition parse_digits :: "jsstr \<Rightarrow> nat" where
  "parse_digits s = foldl (\<lambda>n c. 10 * n + (c - 48)) 0 s"

lemma parse_digits_snoc: "parse_digits (s @ [c]) = 10 * parse_digits s + (c - 48)"
  by (simp add: parse_digits_def)

lemma show_nat_digits: "\<forall>c \<in> set (show_nat n). is_digit c"
proof (induction n rule: show_nat.induct)
  case (1 n)
  show ?case
  proof (cases "n < 10")
    case True
    then show ?thesis by (subst show_nat.simps) (simp add: is_digit_def)
  next
    case False
    moreover have "n mod 10 < 10" by simp
    ultimately show ?thesis using 1 by (subst show_nat.simps) (auto simp: is_digit_def)
  qed
qed

lemma show_nat_ne [simp]: "show_nat n \<noteq> []"
  by (subst show_nat.simps) simp

lemma parse_show_nat [simp]: "parse_digits (show_nat n) = n"
proof (induction n rule: show_nat.induct)
  case (1 n)
  show ?case
  proof (cases "n < 10")
    case True
    then show ?thesis by (subst show_nat.simps) (simp add: parse_digits_def)
  next
    case False
    with 1 have "parse_digits (show_nat (n div 10)) = n div 10" by simp
    with False show ?thesis by (subst show_nat.simps) (simp add: parse_digits_snoc)
  qed
qed

lemma show_nat_inj [simp]: "show_nat a = show_nat b \<longleftrightarrow> a = b"
  by (metis parse_show_nat)

lemma hd_show_nat: "is_digit (hd (show_nat n))"
  using show_nat_digits [of n] by simp

lemma show_int_ne [simp]: "show_int i \<noteq> []"
  by (simp add: show_int_def)

lemma show_int_inj [simp]: "show_int a = show_int b \<longleftrightarrow> a = b"
proof -
  have "hd (show_nat n) \<noteq> 45" for n
    using hd_show_nat [of n] by (auto simp: is_digit_def)
  then have "45 # s \<noteq> show_nat n" for s n by (metis list.sel(1))
  then show ?thesis by (auto simp: show_int_def dest: sym)
qed

lemma digit_not_ws: "is_digit c \<Longrightarrow> \<not> is_ws c"
  by (auto simp: is_digit_def is_ws_def)

lemma trim_show_nat [simp]: "trim (show_nat n) = show_nat n"
  by (rule trim_id) (meson digit_not_ws hd_in_set last_in_set show_nat_digits show_nat_ne)

section \<open>Optional text\<close>

text \<open>\<open>x || d\<close> on an optional string: the empty text counts as missing.\<close>

definition or_default :: "jsstr option \<Rightarrow> jsstr \<Rightarrow> jsstr" where
  "or_default x d = (case x of None \<Rightarrow> d | Some s \<Rightarrow> if s = [] then d else s)"

definition or_empty :: "jsstr option \<Rightarrow> jsstr" where
  "or_empty x = (case x of None \<Rightarrow> [] | Some s \<Rightarrow> s)"

lemma or_default_Nil: "or_default x [] = or_empty x"
  by (auto simp: or_default_def or_empty_def split: option.splits)

lemma or_empty_Some [simp]: "or_empty (Some s) = s"
  by (simp add: or_empty_def)

lemma or_default_ne: "d \<noteq> [] \<Longrightarrow> or_default x d \<noteq> []"
  by (auto simp: or_default_def split: option.splits)

lemma set_or_default: "set (or_default x d) \<subseteq> set (or_empty x) \<union> set d"
  by (auto simp: or_default_def or_empty_def split: option.splits)

end
