(* ===== verification/JS_Number.thy ===== *)
theory JS_Number
  imports Complex_Main JS_Prelude
begin

text \<open>
  JavaScript numbers that are not known to be integers: finite values as exact rationals,
  the two infinities and \<open>NaN\<close>; \<open>Number(s)\<close> of a string by the grammar of the language
  reference (decimal literals with fraction and exponent, the radix prefixes, the empty
  text, \<open>Infinity\<close>). A finite value is the exact rational the literal denotes; the
  rounding to a double is not modelled.
\<close>

datatype jsnum = NaN | Infinite bool | Fin rat

fun is_finite :: "jsnum \<Rightarrow> bool" where
  "is_finite (Fin q) = True"
| "is_finite _ = False"

text \<open>Strict equality of numbers: \<open>NaN\<close> differs from itself.\<close>

fun num_eq :: "jsnum \<Rightarrow> jsnum \<Rightarrow> bool" where
  "num_eq NaN _ = False"
| "num_eq _ NaN = False"
| "num_eq a b = (a = b)"

definition all_digits :: "jsstr \<Rightarrow> bool" where
  "all_digits s \<longleftrightarrow> s \<noteq> [] \<and> list_all is_digit s"

definition exponent_of :: "jsstr \<Rightarrow> rat option" where
  "exponent_of s = (case s of
       [] \<Rightarrow> None
     | c # r \<Rightarrow>
         if c = 45 then (if all_digits r then Some (1 / 10 ^ parse_digits r) else None)
         else if c = 43 then (if all_digits r then Some (10 ^ parse_digits r) else None)
         else if all_digits s then Some (10 ^ parse_digits s) else None)"

text \<open>\<open>digits [. digits] [e exponent]\<close> or \<open>. digits [e exponent]\<close>.\<close>

definition unsigned_decimal :: "jsstr \<Rightarrow> rat option" where
  "unsigned_decimal s =
     (let ip = takeWhile is_digit s; r1 = dropWhile is_digit s;
          dot = (r1 \<noteq> [] \<and> hd r1 = 46);
          fp = (if dot then takeWhile is_digit (tl r1) else []);
          r2 = (if dot then dropWhile is_digit (tl r1) else r1);
          mant = rat_of_nat (parse_digits (ip @ fp)) / 10 ^ length fp
      in if ip = [] \<and> fp = [] then None
         else case r2 of
           [] \<Rightarrow> Some mant
         | c # r \<Rightarrow> if c = 101 \<or> c = 69 then map_option ((*) mant) (exponent_of r) else None)"

definition radix_digit :: "nat \<Rightarrow> code_unit \<Rightarrow> nat option" where
  "radix_digit b c =
     (let v = (if is_digit c then c - 48
               else if 97 \<le> c \<and> c \<le> 102 then c - 87
               else if 65 \<le> c \<and> c \<le> 70 then c - 55 else 36)
      in if v < b then Some v else None)"

definition radix_value :: "nat \<Rightarrow> jsstr \<Rightarrow> jsnum" where
  "radix_value b s =
     (if s = [] \<or> (\<exists>c \<in> set s. radix_digit b c = None) then NaN
      else Fin (rat_of_nat (foldl (\<lambda>n c. b * n + the (radix_digit b c)) 0 s)))"

definition signed_decimal :: "bool \<Rightarrow> jsstr \<Rightarrow> jsnum" where
  "signed_decimal neg s =
     (if s = js ''Infinity'' then Infinite neg
      else case unsigned_decimal s of
        None \<Rightarrow> NaN
      | Some q \<Rightarrow> Fin (if neg then - q else q))"

definition number_of_string :: "jsstr \<Rightarrow> jsnum" where
  "number_of_string str =
     (let s = trim str in
      case s of
        [] \<Rightarrow> Fin 0
      | c # r \<Rightarrow>
          if c = 48 \<and> r \<noteq> [] \<and> hd r \<in> {120, 88} then radix_value 16 (tl r)
          else if c = 48 \<and> r \<noteq> [] \<and> hd r \<in> {111, 79} then radix_value 8 (tl r)
          else if c = 48 \<and> r \<noteq> [] \<and> hd r \<in> {98, 66} then radix_value 2 (tl r)
          else if c = 45 then signed_decimal True r
          else if c = 43 then signed_decimal False r
          else signed_decimal False s)"

text \<open>\<open>Number.parseFloat\<close>: the longest start of the text that is a decimal literal.\<close>

definition sign_split :: "jsstr \<Rightarrow> bool \<times> jsstr" where
  "sign_split s = (case s of c # r \<Rightarrow> if c = 45 then (True, r) else if c = 43 then (False, r) else (False, s) | [] \<Rightarrow> (False, s))"

definition parse_float :: "jsstr \<Rightarrow> jsnum" where
  "parse_float s =
     (let t = trim_left s;
          number = (\<lambda>p. case sign_split p of (neg, r) \<Rightarrow> signed_decimal neg r) in
      case List.find (\<lambda>p. number p \<noteq> NaN) (map (\<lambda>n. take n t) (rev [0..<Suc (length t)])) of
        None \<Rightarrow> NaN | Some p \<Rightarrow> number p)"

lemmas number_eval = number_of_string_def signed_decimal_def unsigned_decimal_def exponent_of_def
  all_digits_def is_digit_def parse_digits_def radix_value_def radix_digit_def Let_def js_simps
  trim_def trim_left_def is_ws_def

lemma number_examples:
  "number_of_string (js '' 0.25 '') = Fin (1 / 4)"
  "number_of_string (js ''-1.5e2'') = Fin (- 150)"
  "number_of_string (js ''0x1F'') = Fin 31"
  "number_of_string (js ''1.2.3'') = NaN"
  by (simp_all add: number_eval)

end
