(* ===== verification/JS_Collections.thy ===== *)
theory JS_Collections
  imports JS_Prelude
begin

text \<open>
  The containers of JavaScript: the insertion-ordered \<open>Set\<close> (a list without repetitions),
  the insertion-ordered \<open>Map\<close> (an association list, where \<open>AList.update\<close> overwrites in
  place and appends a new key at the end) and \<open>Array.prototype.sort\<close>, which is stable,
  with the comparator as an argument. The locale \<open>consistent_comparator\<close> is the contract
  the language reference puts on a comparator; under it the sorted array is unique, so
  that modelling the engine's algorithm by insertion loses nothing.
\<close>

section \<open>Insertion-ordered sets\<close>

definition set_add :: "'a list \<Rightarrow> 'a \<Rightarrow> 'a list" where
  "set_add s x = (if x \<in> set s then s else s @ [x])"

text \<open>\<open>new Set(xs)\<close>, and at the same time \<open>Array.from(new Set(xs))\<close>.\<close>

definition set_of :: "'a list \<Rightarrow> 'a list" where
  "set_of xs = foldl set_add [] xs"

lemma set_set_add [simp]: "set (set_add s x) = insert x (set s)"
  by (auto simp: set_add_def)

lemma distinct_set_add [simp]: "distinct (set_add s x) = distinct s"
  by (auto simp: set_add_def)

lemma set_foldl_set_add: "set (foldl set_add s xs) = set s \<union> set xs"
  by (induction xs arbitrary: s) auto

lemma distinct_foldl_set_add: "distinct (foldl set_add s xs) = distinct s"
  by (induction xs arbitrary: s) auto

lemma set_set_of [simp]: "set (set_of xs) = set xs"
  by (simp add: set_of_def set_foldl_set_add)

lemma distinct_set_of [simp]: "distinct (set_of xs)"
  by (simp add: set_of_def distinct_foldl_set_add)

lemma foldl_set_add_disjoint:
  "distinct (s @ xs) \<Longrightarrow> foldl set_add s xs = s @ xs"
proof (induction xs arbitrary: s)
  case Nil
  then show ?case by simp
next
  case (Cons x xs)
  then have "set_add s x = s @ [x]" by (simp add: set_add_def)
  with Cons show ?case by simp
qed

lemma set_of_distinct: "distinct xs \<Longrightarrow> set_of xs = xs"
  by (simp add: set_of_def foldl_set_add_disjoint)

lemma set_of_set_of [simp]: "set_of (set_of xs) = set_of xs"
  by (simp add: set_of_distinct)

lemma set_of_Nil [simp]: "set_of [] = []"
  by (simp add: set_of_def)

lemma set_of_Cons: "set_of (x # xs) = foldl set_add [x] xs"
  by (simp add: set_of_def set_add_def)

lemma set_of_eq_Nil [simp]: "set_of xs = [] \<longleftrightarrow> xs = []"
  by (metis set_set_of set_empty)

section \<open>Insertion-ordered maps\<close>

text \<open>The keys of a well-formed map are pairwise different.\<close>

abbreviation keys_of :: "('k \<times> 'v) list \<Rightarrow> 'k list" where
  "keys_of m \<equiv> map fst m"

abbreviation wf_map :: "('k \<times> 'v) list \<Rightarrow> bool" where
  "wf_map m \<equiv> distinct (keys_of m)"

lemma wf_map_update: "wf_map m \<Longrightarrow> wf_map (AList.update k v m)"
  by (rule distinct_update)

lemma keys_update: "set (keys_of (AList.update k v m)) = insert k (set (keys_of m))"
  by (simp add: dom_update)

lemma map_of_update: "map_of (AList.update k v m) = (map_of m)(k \<mapsto> v)"
  by (rule update_conv')

lemma map_of_delete: "map_of (AList.delete k m) = (map_of m)(k := None)"
  by (rule delete_conv')

lemma wf_map_delete: "wf_map m \<Longrightarrow> wf_map (AList.delete k m)"
  by (rule distinct_delete)

lemma keys_delete: "set (keys_of (AList.delete k m)) = set (keys_of m) - {k}"
  by (auto simp: AList.delete_eq)

lemma map_of_keys: "map_of m k \<noteq> None \<longleftrightarrow> k \<in> set (keys_of m)"
  by (simp add: map_of_eq_None_iff)

lemma map_of_filter_key: "map_of (filter (\<lambda>(k, v). P k) m) k = (if P k then map_of m k else None)"
  by (induction m) auto

lemma wf_map_filter: "wf_map m \<Longrightarrow> wf_map (filter P m)"
  by (simp add: distinct_map_filter)

text \<open>A fold that updates one key per step: what it stores under a key.\<close>

lemma map_of_foldl_update:
  "map_of (foldl (\<lambda>m x. AList.update (key x) (step x (getd m (key x))) m) init xs) k =
     (if filter (\<lambda>x. key x = k) xs = [] then map_of init k
      else Some (foldl (\<lambda>d x. step x d) (getd init k) (filter (\<lambda>x. key x = k) xs)))"
  if "\<And>m k v k'. getd (AList.update k v m) k' = (if k' = k then v else getd m k')"
proof (induction xs arbitrary: init)
  case Nil
  then show ?case by simp
next
  case (Cons x xs)
  show ?case
    by (cases "key x = k") (auto simp: Cons.IH that map_of_update)
qed

text \<open>
  \<open>const cur = m.get(k) ?? d\<close>, a change of \<open>cur\<close>, then \<open>m.set(k, cur)\<close>: the accumulation
  idiom of the source. A running total over the entries grows by the contribution of
  each step, and a key is present exactly when some step used it.
\<close>

definition upsert :: "'k \<Rightarrow> 'v \<Rightarrow> ('v \<Rightarrow> 'v) \<Rightarrow> ('k \<times> 'v) list \<Rightarrow> ('k \<times> 'v) list" where
  "upsert k d f m = AList.update k (f (case map_of m k of None \<Rightarrow> d | Some v \<Rightarrow> v)) m"

lemma keys_AList_update: "keys_of (AList.update k v m) = set_add (keys_of m) k"
  by (induction m) (auto simp: set_add_def)

lemma keys_upsert [simp]: "keys_of (upsert k d f m) = set_add (keys_of m) k"
  by (simp add: upsert_def keys_AList_update)

lemma wf_map_upsert [simp]: "wf_map (upsert k d f m) = wf_map m"
  by simp

lemma update_new: "k \<notin> set (keys_of m) \<Longrightarrow> AList.update k v m = m @ [(k, v)]"
  by (induction m) auto

lemma update_map: "AList.update k (F v) (map (\<lambda>(k, v). (k, F v)) m) = map (\<lambda>(k, v). (k, F v)) (AList.update k v m)"
  by (induction m) auto

lemma update_split:
  "m = a @ (k, v) # b \<Longrightarrow> k \<notin> set (keys_of a) \<Longrightarrow> AList.update k w m = a @ (k, w) # b"
proof -
  assume m: "m = a @ (k, v) # b" and k: "k \<notin> set (keys_of a)"
  have "AList.update k w (a @ (k, v) # b) = a @ (k, w) # b"
    using k by (induction a) auto
  with m show ?thesis by simp
qed

lemma upsert_cases:
  obtains (new) "k \<notin> set (keys_of m)" "upsert k d f m = m @ [(k, f d)]"
    | (old) a v b where "m = a @ (k, v) # b" "k \<notin> set (keys_of a)" "upsert k d f m = a @ (k, f v) # b"
proof (cases "k \<in> set (keys_of m)")
  case False
  then have "map_of m k = None" by (simp add: map_of_eq_None_iff)
  with False show ?thesis by (intro new) (simp_all add: upsert_def update_new)
next
  case True
  then obtain v where v: "map_of m k = Some v" by (metis map_of_keys not_None_eq)
  then obtain a b where ab: "m = a @ (k, v) # b" "k \<notin> set (keys_of a)"
  proof (induction m arbitrary: thesis)
    case (Cons e m)
    show ?case
    proof (cases "fst e = k")
      case True
      with Cons.prems show ?thesis by (intro Cons.prems(1) [of "[]" m]) (auto split: if_splits)
    next
      case False
      with Cons.prems have "map_of m k = Some v" by (auto split: if_splits)
      then obtain a b where "m = a @ (k, v) # b" "k \<notin> set (keys_of a)" using Cons.IH by blast
      with False show ?thesis by (intro Cons.prems(1) [of "e # a" b]) auto
    qed
  qed simp
  with v show ?thesis by (intro old [of a v b]) (simp_all add: upsert_def update_split)
qed

lemma upsert_sum:
  assumes "g d = (0 :: 'b :: comm_monoid_add)" and "\<And>v. g (f v) = g v + c"
  shows "(\<Sum>(k', v) \<leftarrow> upsert k d f m. if Q k' then g v else 0) =
    (\<Sum>(k', v) \<leftarrow> m. if Q k' then g v else 0) + (if Q k then c else 0)"
  by (cases rule: upsert_cases [of k m d f]) (auto simp: assms ac_simps)

lemma upsert_inv:
  assumes "\<forall>(k', v) \<in> set m. I k' v" and "I k (f d)" and "\<And>v. I k v \<Longrightarrow> I k (f v)"
  shows "\<forall>(k', v) \<in> set (upsert k d f m). I k' v"
  using assms by (cases rule: upsert_cases [of k m d f]) auto

text \<open>The same for a whole accumulation loop.\<close>

lemma upserts_sum:
  assumes "\<And>x. g (d x) = (0 :: 'b :: comm_monoid_add)" and "\<And>x v. g (f x v) = g v + c x"
  shows "(\<Sum>(k', v) \<leftarrow> foldl (\<lambda>m x. upsert (key x) (d x) (f x) m) m xs. if Q k' then g v else 0) =
    (\<Sum>(k', v) \<leftarrow> m. if Q k' then g v else 0) + (\<Sum>x \<leftarrow> xs. if Q (key x) then c x else 0)"
proof (induction xs arbitrary: m)
  case Nil
  then show ?case by simp
next
  case (Cons x xs)
  show ?case
    by (simp add: Cons.IH upsert_sum [of g "d x" "f x" "c x", OF assms] ac_simps)
qed

lemma upserts_inv:
  assumes "\<forall>(k', v) \<in> set m. I k' v" and "\<And>x. x \<in> set xs \<Longrightarrow> I (key x) (f x (d x))"
    and "\<And>x v. x \<in> set xs \<Longrightarrow> I (key x) v \<Longrightarrow> I (key x) (f x v)"
  shows "\<forall>(k', v) \<in> set (foldl (\<lambda>m x. upsert (key x) (d x) (f x) m) m xs). I k' v"
  using assms
proof (induction xs arbitrary: m)
  case Nil
  then show ?case by simp
next
  case (Cons x xs)
  have "\<forall>(k', v) \<in> set (upsert (key x) (d x) (f x) m). I k' v"
    by (rule upsert_inv) (use Cons.prems in auto)
  with Cons show ?case by simp
qed

lemma upserts_keys:
  "keys_of (foldl (\<lambda>m x. upsert (key x) (d x) (f x) m) m xs) = foldl set_add (keys_of m) (map key xs)"
  by (induction xs arbitrary: m) simp_all

lemma sum_entry:
  "wf_map m \<Longrightarrow> (k, v) \<in> set m \<Longrightarrow>
     (\<Sum>(k', v') \<leftarrow> m. if k' = k then g v' else (0 :: 'b :: comm_monoid_add)) = g v"
proof (induction m)
  case (Cons e m)
  have zero: "k \<notin> set (keys_of m) \<Longrightarrow> (\<Sum>(k', v') \<leftarrow> m. if k' = k then g v' else 0) = 0"
    by (induction m) auto
  from Cons zero show ?case by (cases e) force
qed simp

text \<open>The value accumulated in one entry is the sum of the contributions made under its key.\<close>

lemma upserts_entry:
  assumes "(k, v) \<in> set (foldl (\<lambda>m x. upsert (key x) (d x) (f x) m) [] xs)"
    and "\<And>x. g (d x) = (0 :: 'b :: comm_monoid_add)" and "\<And>x v. g (f x v) = g v + c x"
  shows "g v = (\<Sum>x \<leftarrow> xs. if key x = k then c x else 0)"
proof -
  let ?m = "foldl (\<lambda>m x. upsert (key x) (d x) (f x) m) [] xs"
  have "wf_map ?m" by (simp add: upserts_keys distinct_foldl_set_add)
  with assms(1) have "g v = (\<Sum>(k', v') \<leftarrow> ?m. if k' = k then g v' else 0)" by (simp only: sum_entry)
  also have "\<dots> = (\<Sum>x \<leftarrow> xs. if key x = k then c x else 0)"
    by (simp add: upserts_sum [of g d f c, OF assms(2,3)])
  finally show ?thesis .
qed

lemma map_of_upsert:
  "map_of (upsert k d f m) = (map_of m)(k \<mapsto> f (case map_of m k of None \<Rightarrow> d | Some v \<Rightarrow> v))"
  by (simp add: upsert_def map_of_update)

text \<open>Grouping: a map from keys to the sets of the values met under each.\<close>

lemma map_of_group:
  "map_of (foldl (\<lambda>m x. upsert (key x) [] (\<lambda>s. set_add s (val x)) m) [] xs) k =
     (let ys = filter (\<lambda>x. key x = k) xs in if ys = [] then None else Some (set_of (map val ys)))"
proof (induction xs rule: rev_induct)
  case (snoc x xs)
  then show ?case by (cases "key x = k") (simp_all add: Let_def map_of_upsert set_of_def split: if_splits)
qed simp

lemma foldl_guard: "foldl (\<lambda>a x. if P x then a else f a x) i xs = foldl f i (filter (\<lambda>x. \<not> P x) xs)"
  by (induction xs arbitrary: i) auto

section \<open>Sorting with a comparator\<close>

type_synonym 'a cmp = "'a \<Rightarrow> 'a \<Rightarrow> int"

fun sort_insert :: "'a cmp \<Rightarrow> 'a \<Rightarrow> 'a list \<Rightarrow> 'a list" where
  "sort_insert cmp x [] = [x]"
| "sort_insert cmp x (y # ys) =
     (if cmp x y \<le> 0 then x # y # ys else y # sort_insert cmp x ys)"

definition js_sort :: "'a cmp \<Rightarrow> 'a list \<Rightarrow> 'a list" where
  "js_sort cmp xs = foldr (sort_insert cmp) xs []"

lemma js_sort_simps [simp]:
  "js_sort cmp [] = []"
  "js_sort cmp (x # xs) = sort_insert cmp x (js_sort cmp xs)"
  by (simp_all add: js_sort_def)

lemma mset_sort_insert: "mset (sort_insert cmp x ys) = add_mset x (mset ys)"
  by (induction ys) auto

lemma mset_js_sort [simp]: "mset (js_sort cmp xs) = mset xs"
  by (induction xs) (simp_all add: mset_sort_insert)

lemma set_js_sort [simp]: "set (js_sort cmp xs) = set xs"
  by (metis mset_js_sort set_mset_mset)

lemma length_js_sort [simp]: "length (js_sort cmp xs) = length xs"
  by (metis mset_js_sort size_mset)

lemma distinct_js_sort [simp]: "distinct (js_sort cmp xs) = distinct xs"
  by (metis distinct_count_atmost_1 mset_js_sort set_js_sort)

lemma sum_js_sort: "(\<Sum>x \<leftarrow> js_sort cmp xs. (f x :: 'b :: comm_monoid_add)) = (\<Sum>x \<leftarrow> xs. f x)"
  by (metis mset_js_sort mset_map sum_mset_sum_list)

text \<open>
  The combinators of the source's comparators: \<open>f(a) - f(b)\<close>, a comparison of keys, the
  reversed order and the chain \<open>c(a, b) || d(a, b)\<close>.
\<close>

definition cmp_num :: "int cmp" where
  "cmp_num a b = a - b"

definition cmp_key :: "('a \<Rightarrow> 'b) \<Rightarrow> 'b cmp \<Rightarrow> 'a cmp" where
  "cmp_key f c a b = c (f a) (f b)"

definition cmp_desc :: "'a cmp \<Rightarrow> 'a cmp" where
  "cmp_desc c a b = c b a"

definition cmp_or :: "'a cmp \<Rightarrow> 'a cmp \<Rightarrow> 'a cmp" where
  "cmp_or c d a b = (if c a b \<noteq> 0 then c a b else d a b)"

locale consistent_comparator =
  fixes cmp :: "'a \<Rightarrow> 'a \<Rightarrow> int"
  assumes cmp_refl: "cmp a a = 0"
    and cmp_sym: "cmp a b < 0 \<longleftrightarrow> 0 < cmp b a"
    and cmp_trans: "cmp a b \<le> 0 \<Longrightarrow> cmp b c \<le> 0 \<Longrightarrow> cmp a c \<le> 0"
begin

lemma cmp_total: "cmp a b \<le> 0 \<or> cmp b a \<le> 0"
  using cmp_sym by (meson linorder_not_le order_less_imp_le)

lemma cmp_zero_iff: "cmp a b = 0 \<longleftrightarrow> cmp a b \<le> 0 \<and> cmp b a \<le> 0"
  using cmp_sym by (smt (verit))

lemma cmp_zero_sym: "cmp a b = 0 \<longleftrightarrow> cmp b a = 0"
  using cmp_zero_iff by blast

lemma cmp_zero_trans: "cmp a b = 0 \<Longrightarrow> cmp b c = 0 \<Longrightarrow> cmp a c = 0"
  using cmp_zero_iff cmp_trans by blast

lemma sorted_sort_insert:
  "sorted_wrt (\<lambda>a b. cmp a b \<le> 0) ys \<Longrightarrow> sorted_wrt (\<lambda>a b. cmp a b \<le> 0) (sort_insert cmp x ys)"
proof (induction ys)
  case Nil
  then show ?case by simp
next
  case (Cons y ys)
  show ?case
  proof (cases "cmp x y \<le> 0")
    case True
    with Cons.prems show ?thesis by (auto intro: cmp_trans)
  next
    case False
    then have yx: "cmp y x \<le> 0" using cmp_total by blast
    have "set (sort_insert cmp x ys) = insert x (set ys)"
      by (metis mset_sort_insert set_mset_add_mset_insert set_mset_mset)
    with False yx Cons show ?thesis by auto
  qed
qed

lemma sorted_js_sort: "sorted_wrt (\<lambda>a b. cmp a b \<le> 0) (js_sort cmp xs)"
  by (induction xs) (simp_all add: sorted_sort_insert)

lemma filter_sort_insert:
  "filter (\<lambda>y. cmp a y = 0) (sort_insert cmp x ys) = filter (\<lambda>y. cmp a y = 0) (x # ys)"
proof (induction ys)
  case Nil
  then show ?case by simp
next
  case (Cons y ys)
  have "\<not> (cmp a x = 0 \<and> cmp a y = 0)" if "\<not> cmp x y \<le> 0"
    using that cmp_zero_sym cmp_zero_trans by (metis order_refl)
  with Cons show ?case by auto
qed

text \<open>Stability: equal elements keep their order.\<close>

lemma js_sort_stable: "filter (\<lambda>y. cmp a y = 0) (js_sort cmp xs) = filter (\<lambda>y. cmp a y = 0) xs"
proof (induction xs)
  case Nil
  then show ?case by simp
next
  case (Cons x xs)
  then show ?case by (simp add: filter_sort_insert)
qed

lemma sorted_stable_unique:
  assumes "sorted_wrt (\<lambda>a b. cmp a b \<le> 0) ys" "sorted_wrt (\<lambda>a b. cmp a b \<le> 0) zs"
    and "mset ys = mset zs"
    and "\<And>a. filter (\<lambda>y. cmp a y = 0) ys = filter (\<lambda>y. cmp a y = 0) zs"
  shows "ys = zs"
  using assms
proof (induction ys arbitrary: zs)
  case Nil
  then show ?case by simp
next
  case (Cons y ys)
  then obtain z zs' where zs: "zs = z # zs'" by (cases zs) auto
  have "z \<in> set (y # ys)" "y \<in> set zs"
    using Cons.prems(3) zs by (metis list.set_intros(1) set_mset_mset)+
  with Cons.prems(1,2) zs have "cmp y z \<le> 0" "cmp z y \<le> 0"
    using cmp_refl by auto
  then have yz: "cmp y z = 0" using cmp_zero_iff by blast
  with Cons.prems(4) [of y] zs have eq: "y = z" by (simp add: cmp_refl)
  have "ys = zs'"
  proof (rule Cons.IH)
    show "filter (\<lambda>w. cmp a w = 0) ys = filter (\<lambda>w. cmp a w = 0) zs'" for a
      using Cons.prems(4) [of a] zs eq by (auto split: if_splits)
  qed (use Cons.prems zs eq in auto)
  with zs eq show ?case by simp
qed

text \<open>Whatever stable algorithm the engine uses, it computes \<open>js_sort\<close>.\<close>

theorem js_sort_unique:
  assumes "sorted_wrt (\<lambda>a b. cmp a b \<le> 0) ys" and "mset ys = mset xs"
    and "\<And>a. filter (\<lambda>y. cmp a y = 0) ys = filter (\<lambda>y. cmp a y = 0) xs"
  shows "ys = js_sort cmp xs"
proof (rule sorted_stable_unique [OF assms(1) sorted_js_sort])
  show "mset ys = mset (js_sort cmp xs)" by (simp add: assms(2))
  show "filter (\<lambda>y. cmp a y = 0) ys = filter (\<lambda>y. cmp a y = 0) (js_sort cmp xs)" for a
    by (simp only: assms(3) js_sort_stable)
qed

lemma js_sort_filter: "filter P (js_sort cmp xs) = js_sort cmp (filter P xs)"
proof (rule js_sort_unique)
  show "sorted_wrt (\<lambda>a b. cmp a b \<le> 0) (filter P (js_sort cmp xs))"
    by (simp add: sorted_wrt_filter sorted_js_sort)
  show "mset (filter P (js_sort cmp xs)) = mset (filter P xs)" by simp
  have comm: "filter (\<lambda>y. cmp a y = 0) (filter P ys) = filter P (filter (\<lambda>y. cmp a y = 0) ys)" for a ys
    by (induction ys) auto
  show "filter (\<lambda>y. cmp a y = 0) (filter P (js_sort cmp xs)) = filter (\<lambda>y. cmp a y = 0) (filter P xs)" for a
    by (simp only: comm js_sort_stable)
qed

end

lemma consistent_key:
  assumes "consistent_comparator c"
  shows "consistent_comparator (cmp_key f c)"
proof
  fix a b e
  show "cmp_key f c a a = 0" "cmp_key f c a b < 0 \<longleftrightarrow> 0 < cmp_key f c b a"
    using consistent_comparator.cmp_refl [OF assms] consistent_comparator.cmp_sym [OF assms]
    by (simp_all add: cmp_key_def)
  show "cmp_key f c a b \<le> 0 \<Longrightarrow> cmp_key f c b e \<le> 0 \<Longrightarrow> cmp_key f c a e \<le> 0"
    unfolding cmp_key_def by (rule consistent_comparator.cmp_trans [OF assms])
qed

lemma consistent_desc:
  assumes "consistent_comparator c"
  shows "consistent_comparator (cmp_desc c)"
proof
  fix a b e
  show "cmp_desc c a a = 0" "cmp_desc c a b < 0 \<longleftrightarrow> 0 < cmp_desc c b a"
    using consistent_comparator.cmp_refl [OF assms] consistent_comparator.cmp_sym [OF assms]
    by (simp_all add: cmp_desc_def)
  show "cmp_desc c a b \<le> 0 \<Longrightarrow> cmp_desc c b e \<le> 0 \<Longrightarrow> cmp_desc c a e \<le> 0"
    unfolding cmp_desc_def using consistent_comparator.cmp_trans [OF assms] by blast
qed

lemma consistent_or:
  assumes "consistent_comparator c" and "consistent_comparator d"
  shows "consistent_comparator (cmp_or c d)"
proof -
  have c: "\<And>a. c a a = 0" "\<And>a b. c a b < 0 \<longleftrightarrow> 0 < c b a"
    "\<And>a b e. c a b \<le> 0 \<Longrightarrow> c b e \<le> 0 \<Longrightarrow> c a e \<le> 0"
    and d: "\<And>a. d a a = 0" "\<And>a b. d a b < 0 \<longleftrightarrow> 0 < d b a"
    "\<And>a b e. d a b \<le> 0 \<Longrightarrow> d b e \<le> 0 \<Longrightarrow> d a e \<le> 0"
    using assms unfolding consistent_comparator_def by blast+
  have z: "c a b = 0 \<longleftrightarrow> c b a = 0" for a b
    using c(2) [of a b] c(2) [of b a] by linarith
  show ?thesis
  proof
    fix a b e
    show "cmp_or c d a a = 0" by (simp add: cmp_or_def c d)
    show "cmp_or c d a b < 0 \<longleftrightarrow> 0 < cmp_or c d b a"
      using c(2) d(2) z by (simp add: cmp_or_def)
    assume ab: "cmp_or c d a b \<le> 0" and be: "cmp_or c d b e \<le> 0"
    have cle: "c a b \<le> 0" "c b e \<le> 0" using ab be by (auto simp: cmp_or_def split: if_splits)
    then have ae: "c a e \<le> 0" by (rule c(3))
    show "cmp_or c d a e \<le> 0"
    proof (cases "c a e = 0")
      case True
      then have "c e a \<le> 0" using z by (metis order_refl)
      then have "c b a \<le> 0" "c e b \<le> 0" using cle c(3) by blast+
      then have "c a b = 0" "c b e = 0" using cle c(2) by (metis linorder_not_le order_le_less)+
      then show ?thesis using ab be d(3) True by (auto simp: cmp_or_def)
    qed (use ae in \<open>simp add: cmp_or_def\<close>)
  qed
qed

interpretation num_order: consistent_comparator cmp_num
  by unfold_locales (auto simp: cmp_num_def)

lemmas consistent_intros =
  consistent_key consistent_desc consistent_or num_order.consistent_comparator_axioms

text \<open>The order of strings by code units, which \<open><\<close> and the default \<open>sort()\<close> use.\<close>

fun cmp_str :: "jsstr cmp" where
  "cmp_str [] [] = 0"
| "cmp_str [] (b # bs) = - 1"
| "cmp_str (a # as) [] = 1"
| "cmp_str (a # as) (b # bs) = (if a < b then - 1 else if b < a then 1 else cmp_str as bs)"

lemma cmp_str_zero [simp]: "cmp_str a b = 0 \<longleftrightarrow> a = b"
  by (induction a b rule: cmp_str.induct) auto

lemma cmp_str_flip: "cmp_str a b + cmp_str b a = 0"
  by (induction a b rule: cmp_str.induct) auto

lemma cmp_str_trans: "cmp_str a b \<le> 0 \<Longrightarrow> cmp_str b c \<le> 0 \<Longrightarrow> cmp_str a c \<le> 0"
proof (induction a b arbitrary: c rule: cmp_str.induct)
  case (4 a as b bs)
  show ?case
  proof (cases c)
    case Nil
    with "4.prems" show ?thesis by simp
  next
    case (Cons x xs)
    have "a \<le> b" "b \<le> x"
      using "4.prems" Cons by (simp_all split: if_splits)
    moreover have "cmp_str as xs \<le> 0" if "a = b" "b = x"
      using "4.IH" [of xs] "4.prems" Cons that by simp
    ultimately show ?thesis using Cons by simp
  qed
next
  case (2 b bs)
  then show ?case by (cases c) auto
next
  case 1
  then show ?case by (cases c) auto
qed simp

interpretation code_unit_order: consistent_comparator cmp_str
proof
  show "cmp_str a b < 0 \<longleftrightarrow> 0 < cmp_str b a" for a b
    using cmp_str_flip [of a b] by linarith
qed (auto intro: cmp_str_trans)

section \<open>Finding an element\<close>

text \<open>\<open>xs.findIndex(P)\<close>; \<open>None\<close> is the index \<open>-1\<close>.\<close>

fun find_index :: "('a \<Rightarrow> bool) \<Rightarrow> 'a list \<Rightarrow> nat option" where
  "find_index P [] = None"
| "find_index P (x # xs) = (if P x then Some 0 else map_option Suc (find_index P xs))"

lemma find_index_Some: "find_index P xs = Some i \<Longrightarrow> i < length xs \<and> P (xs ! i)"
  by (induction xs arbitrary: i) (auto split: if_splits)

end
