(* ===== verification/JS_System.thy ===== *)
theory JS_System
  imports Main
begin

text \<open>
  The states a component can reach when its handlers run in any order, and the contract
  of an invariant: it holds at the start and every step keeps it. The screens with state
  interpret the locale with their own start, step and invariant. A second contract is that of
  a written form: what is written in it is read back.
\<close>

inductive reach :: "('s \<Rightarrow> bool) \<Rightarrow> ('s \<Rightarrow> 's \<Rightarrow> bool) \<Rightarrow> 's \<Rightarrow> bool"
  for init step where
  reach_init: "init s \<Longrightarrow> reach init step s"
| reach_step: "reach init step s \<Longrightarrow> step s t \<Longrightarrow> reach init step t"

locale invariant_system =
  fixes init :: "'s \<Rightarrow> bool"
    and step :: "'s \<Rightarrow> 's \<Rightarrow> bool"
    and inv :: "'s \<Rightarrow> bool"
  assumes inv_init: "init s \<Longrightarrow> inv s"
    and inv_step: "inv s \<Longrightarrow> step s t \<Longrightarrow> inv t"
begin

lemma reach_inv: "reach init step s \<Longrightarrow> inv s"
  by (induction rule: reach.induct) (blast intro: inv_init inv_step)+

end

locale text_format =
  fixes print :: "'a \<Rightarrow> 't"
    and scan :: "'t \<Rightarrow> 'r"
    and ok :: "'a \<Rightarrow> bool"
    and result :: "'a \<Rightarrow> 'r"
  assumes scan_print: "ok x \<Longrightarrow> scan (print x) = result x"
begin

lemma print_distinct: "ok x \<Longrightarrow> ok y \<Longrightarrow> result x \<noteq> result y \<Longrightarrow> print x \<noteq> print y"
  using scan_print by metis

end

end
