(* ===== verification/JS_Json.thy ===== *)
theory JS_Json
  imports JS_Number JS_Collections JS_System
begin

text \<open>
  \<open>JSON.parse\<close>, \<open>JSON.stringify\<close> and the enumeration of object keys, by the language
  reference: a lexer over code units and a stack machine over tokens that is structural in
  its input, so that the parser is total without fuel. A number keeps the text of its
  literal. In an object a repeated key keeps its first place and its last value.
\<close>

section \<open>Values\<close>

datatype json = JNull | JBool bool | JNum jsstr | JStr jsstr | JArr "json list" | JObj "(jsstr \<times> json) list"

text \<open>A key that is an array index: the decimal text of a number below \<open>2 ^ 32 - 1\<close>.\<close>

definition is_index :: "jsstr \<Rightarrow> bool" where
  "is_index k \<longleftrightarrow> k \<noteq> [] \<and> list_all is_digit k \<and> (k = [48] \<or> hd k \<noteq> 48) \<and> parse_digits k < 4294967295"

text \<open>\<open>Object.entries\<close>: array indices in ascending order, then the other keys as inserted.\<close>

definition js_entries :: "(jsstr \<times> 'a) list \<Rightarrow> (jsstr \<times> 'a) list" where
  "js_entries m = js_sort (cmp_key (\<lambda>e. int (parse_digits (fst e))) cmp_num) (filter (\<lambda>e. is_index (fst e)) m) @
     filter (\<lambda>e. \<not> is_index (fst e)) m"

lemma set_js_entries [simp]: "set (js_entries m) = set m"
  by (auto simp: js_entries_def)

lemma mset_js_entries: "mset (js_entries m) = mset m"
  by (simp add: js_entries_def)

text \<open>\<open>String(v)\<close> of a parsed value; \<open>nt\<close> is the text of the number a literal denotes.\<close>

fun js_String :: "(jsstr \<Rightarrow> jsstr) \<Rightarrow> json \<Rightarrow> jsstr" where
  "js_String nt JNull = js ''null''"
| "js_String nt (JBool b) = (if b then js ''true'' else js ''false'')"
| "js_String nt (JNum n) = nt n"
| "js_String nt (JStr s) = s"
| "js_String nt (JArr xs) = join (js '','') (map (\<lambda>v. if v = JNull then [] else js_String nt v) xs)"
| "js_String nt (JObj m) = js ''[object Object]''"

text \<open>\<open>Number(v)\<close> of a parsed value or of \<open>undefined\<close>.\<close>

definition js_Number :: "(jsstr \<Rightarrow> jsstr) \<Rightarrow> json option \<Rightarrow> jsnum" where
  "js_Number nt v =
     (case v of
        None \<Rightarrow> NaN
      | Some JNull \<Rightarrow> Fin 0
      | Some (JBool b) \<Rightarrow> Fin (if b then 1 else 0)
      | Some (JNum n) \<Rightarrow> number_of_string n
      | Some (JStr s) \<Rightarrow> number_of_string s
      | Some (JArr xs) \<Rightarrow> number_of_string (js_String nt (JArr xs))
      | Some (JObj m) \<Rightarrow> NaN)"

text \<open>Truth of a parsed value and property access on it (\<open>None\<close>: undefined).\<close>

fun truthy :: "json \<Rightarrow> bool" where
  "truthy JNull = False"
| "truthy (JBool b) = b"
| "truthy (JNum n) = (number_of_string n \<noteq> Fin 0)"
| "truthy (JStr s) = (s \<noteq> [])"
| "truthy _ = True"

definition get_prop :: "json \<Rightarrow> string \<Rightarrow> json option" where
  "get_prop v k = (case v of JObj m \<Rightarrow> map_of m (js k) | _ \<Rightarrow> None)"

definition is_truthy :: "json option \<Rightarrow> bool" where
  "is_truthy v = (case v of Some w \<Rightarrow> truthy w | None \<Rightarrow> False)"

text \<open>\<open>{...v}\<close> of a parsed value: its own properties, those of a text and of an array by index.\<close>

definition own_props :: "json \<Rightarrow> (jsstr \<times> json) list" where
  "own_props v =
     (case v of
        JObj m \<Rightarrow> m
      | JArr xs \<Rightarrow> zip (map show_nat [0..<length xs]) xs
      | JStr s \<Rightarrow> zip (map show_nat [0..<length s]) (map (\<lambda>c. JStr [c]) s)
      | _ \<Rightarrow> [])"

section \<open>The lexer\<close>

datatype token = TLBrace | TRBrace | TLBrack | TRBrack | TColon | TComma | TNull | TTrue | TFalse | TNum jsstr | TStr jsstr

definition json_ws :: "code_unit \<Rightarrow> bool" where
  "json_ws c \<longleftrightarrow> c = 32 \<or> c = 9 \<or> c = 10 \<or> c = 13"

definition hex4 :: "code_unit \<Rightarrow> code_unit \<Rightarrow> code_unit \<Rightarrow> code_unit \<Rightarrow> code_unit option" where
  "hex4 a b c d = (case (radix_digit 16 a, radix_digit 16 b, radix_digit 16 c, radix_digit 16 d) of
     (Some w, Some x, Some y, Some z) \<Rightarrow> Some (((w * 16 + x) * 16 + y) * 16 + z) | _ \<Rightarrow> None)"

definition escape_char :: "code_unit \<Rightarrow> code_unit option" where
  "escape_char c = (if c = 34 \<or> c = 92 \<or> c = 47 then Some c
     else if c = 98 then Some 8 else if c = 102 then Some 12 else if c = 110 then Some 10
     else if c = 114 then Some 13 else if c = 116 then Some 9 else None)"

text \<open>The rest of a string literal after its opening quote: its value and what follows.\<close>

fun lex_string :: "jsstr \<Rightarrow> jsstr \<Rightarrow> (jsstr \<times> jsstr) option" where
  "lex_string acc [] = None"
| "lex_string acc (c # r) =
     (if c = 34 then Some (rev acc, r)
      else if c < 32 then None
      else if c = 92 then
        (case r of
           [] \<Rightarrow> None
         | e # r1 \<Rightarrow>
             if e = 117 then
               (case r1 of
                  h1 # h2 # h3 # h4 # r2 \<Rightarrow> (case hex4 h1 h2 h3 h4 of Some u \<Rightarrow> lex_string (u # acc) r2 | None \<Rightarrow> None)
                | _ \<Rightarrow> None)
             else (case escape_char e of Some u \<Rightarrow> lex_string (u # acc) r1 | None \<Rightarrow> None))
      else lex_string (c # acc) r)"

lemma lex_string_length: "lex_string acc s = Some (v, r) \<Longrightarrow> length r < length s"
proof (induction "length s" arbitrary: acc s rule: less_induct)
  case less
  have rec: "length r < length s" if "lex_string acc' s' = Some (v, r)" "length s' < length s" for acc' s'
    using less.hyps [OF that(2,1)] that(2) by simp
  obtain c t where s: "s = c # t" using less.prems by (cases s) auto
  show ?case
  proof (cases "c = 92")
    case True
    then obtain e t1 where t: "t = e # t1" using less.prems s by (cases t) auto
    show ?thesis
    proof (cases "e = 117")
      case u: True
      then obtain h1 h2 h3 h4 t2 where "t1 = h1 # h2 # h3 # h4 # t2"
        using less.prems s True t by (auto split: list.splits)
      then show ?thesis using less.prems s True t u
        by (intro rec [of "the (hex4 h1 h2 h3 h4) # acc" t2]) (auto split: option.splits)
    next
      case False
      then show ?thesis using less.prems s True t
        by (intro rec [of "the (escape_char e) # acc" t1]) (auto split: option.splits)
    qed
  next
    case False
    then show ?thesis using less.prems s rec [of "c # acc" t] by (auto split: if_splits)
  qed
qed

definition num_char :: "code_unit \<Rightarrow> bool" where
  "num_char c \<longleftrightarrow> is_digit c \<or> c = 43 \<or> c = 45 \<or> c = 46 \<or> c = 69 \<or> c = 101"

text \<open>The number grammar of JSON: \<open>-? (0 | [1-9] digit*) (. digit+)? ([eE] [+-]? digit+)?\<close>.\<close>

definition json_number :: "jsstr \<Rightarrow> bool" where
  "json_number s =
     (let s1 = (if s \<noteq> [] \<and> hd s = 45 then tl s else s);
          ip = takeWhile is_digit s1; r1 = dropWhile is_digit s1;
          dot = (r1 \<noteq> [] \<and> hd r1 = 46);
          fp = (if dot then takeWhile is_digit (tl r1) else []);
          r2 = (if dot then dropWhile is_digit (tl r1) else r1)
      in ip \<noteq> [] \<and> (length ip = 1 \<or> hd ip \<noteq> 48) \<and> (\<not> dot \<or> fp \<noteq> []) \<and>
         (case r2 of [] \<Rightarrow> True
          | c # e \<Rightarrow> (c = 69 \<or> c = 101) \<and>
              all_digits (if e \<noteq> [] \<and> (hd e = 43 \<or> hd e = 45) then tl e else e)))"

definition lex_word :: "jsstr \<Rightarrow> (token \<times> jsstr) option" where
  "lex_word s = (if starts_with s (js ''null'') then Some (TNull, drop 4 s)
     else if starts_with s (js ''true'') then Some (TTrue, drop 4 s)
     else if starts_with s (js ''false'') then Some (TFalse, drop 5 s) else None)"

definition punctuation :: "code_unit \<Rightarrow> token option" where
  "punctuation c = (if c = 123 then Some TLBrace else if c = 125 then Some TRBrace
     else if c = 91 then Some TLBrack else if c = 93 then Some TRBrack
     else if c = 58 then Some TColon else if c = 44 then Some TComma else None)"

text \<open>One token from a text that is not empty and starts with no white space.\<close>

definition lex_token :: "code_unit \<Rightarrow> jsstr \<Rightarrow> (token \<times> jsstr) option" where
  "lex_token c r =
     (case punctuation c of
        Some t \<Rightarrow> Some (t, r)
      | None \<Rightarrow>
          if c = 34 then (case lex_string [] r of Some (v, r') \<Rightarrow> Some (TStr v, r') | None \<Rightarrow> None)
          else if num_char c then
            (let n = takeWhile num_char (c # r) in
             if json_number n then Some (TNum n, dropWhile num_char (c # r)) else None)
          else lex_word (c # r))"

lemma lex_token_length: "lex_token c r = Some (t, r') \<Longrightarrow> length r' \<le> length r"
proof -
  assume a: "lex_token c r = Some (t, r')"
  have "length (dropWhile num_char r) \<le> length r" by (rule length_dropWhile_le)
  with a show ?thesis
    by (auto simp: lex_token_def lex_word_def Let_def split: option.splits if_splits dest!: lex_string_length)
qed

function tokenize :: "jsstr \<Rightarrow> token list option" where
  "tokenize [] = Some []"
| "tokenize (c # r) =
     (if json_ws c then tokenize r
      else (case lex_token c r of
          None \<Rightarrow> None
        | Some (t, r') \<Rightarrow> (case tokenize r' of Some ts \<Rightarrow> Some (t # ts) | None \<Rightarrow> None)))"
  by pat_completeness auto
termination
  by (relation "measure length") (auto dest: lex_token_length)

section \<open>The parser\<close>

datatype frame = FArr "json list" | FObj "(jsstr \<times> json) list" jsstr

datatype parse_mode = PValue | PFirst | PKeyFirst | PKey "(jsstr \<times> json) list" | PColon "(jsstr \<times> json) list" jsstr | PDone json

fun parse_value :: "token \<Rightarrow> frame list \<Rightarrow> (frame list \<times> parse_mode) option" where
  "parse_value TNull st = Some (st, PDone JNull)"
| "parse_value TTrue st = Some (st, PDone (JBool True))"
| "parse_value TFalse st = Some (st, PDone (JBool False))"
| "parse_value (TNum n) st = Some (st, PDone (JNum n))"
| "parse_value (TStr s) st = Some (st, PDone (JStr s))"
| "parse_value TLBrack st = Some (FArr [] # st, PFirst)"
| "parse_value TLBrace st = Some (st, PKeyFirst)"
| "parse_value _ st = None"

fun parse_step :: "token \<Rightarrow> frame list \<Rightarrow> parse_mode \<Rightarrow> (frame list \<times> parse_mode) option" where
  "parse_step t st PValue = parse_value t st"
| "parse_step t st PFirst = (if t = TRBrack then Some (tl st, PDone (JArr [])) else parse_value t st)"
| "parse_step t st PKeyFirst =
     (case t of TRBrace \<Rightarrow> Some (st, PDone (JObj [])) | TStr k \<Rightarrow> Some (st, PColon [] k) | _ \<Rightarrow> None)"
| "parse_step t st (PKey m) = (case t of TStr k \<Rightarrow> Some (st, PColon m k) | _ \<Rightarrow> None)"
| "parse_step t st (PColon m k) = (if t = TColon then Some (FObj m k # st, PValue) else None)"
| "parse_step t [] (PDone v) = None"
| "parse_step t (FArr xs # st) (PDone v) =
     (if t = TComma then Some (FArr (xs @ [v]) # st, PValue)
      else if t = TRBrack then Some (st, PDone (JArr (xs @ [v]))) else None)"
| "parse_step t (FObj m k # st) (PDone v) =
     (if t = TComma then Some (st, PKey (AList.update k v m))
      else if t = TRBrace then Some (st, PDone (JObj (AList.update k v m))) else None)"

fun parse_tokens :: "token list \<Rightarrow> frame list \<Rightarrow> parse_mode \<Rightarrow> json option" where
  "parse_tokens [] st m = (case (st, m) of ([], PDone v) \<Rightarrow> Some v | _ \<Rightarrow> None)"
| "parse_tokens (t # ts) st m = (case parse_step t st m of Some (st', m') \<Rightarrow> parse_tokens ts st' m' | None \<Rightarrow> None)"

definition json_parse :: "jsstr \<Rightarrow> json option" where
  "json_parse s = (case tokenize s of Some ts \<Rightarrow> parse_tokens ts [] PValue | None \<Rightarrow> None)"

section \<open>Surrounding white space\<close>

text \<open>
  \<open>trim\<close> removes more characters than JSON allows around a value; a text that parses has
  only JSON's white space there, so that it parses to the same value when trimmed.
\<close>

lemma ws_not_lexed:
  assumes "is_ws c" and "\<not> json_ws c"
  shows "lex_token c r = None"
proof -
  have "c \<notin> {123, 125, 91, 93, 58, 44, 34, 43, 45, 46, 69, 101, 110, 116, 102}" "\<not> is_digit c"
    using assms by (auto simp: is_ws_def json_ws_def is_digit_def)
  then show ?thesis by (simp add: lex_token_def punctuation_def num_char_def lex_word_def js_simps)
qed

lemma tokenize_trim_left: "tokenize s = Some ts \<Longrightarrow> tokenize (trim_left s) = Some ts"
proof (induction s)
  case (Cons c s)
  then show ?case
    using ws_not_lexed [of c s] by (cases "json_ws c"; cases "is_ws c") (simp_all add: trim_left_def)
qed simp

lemma lex_string_snoc:
  assumes "w \<noteq> 34"
  shows "lex_string acc (s @ [w]) = Some (v, r) \<Longrightarrow> \<exists>r'. r = r' @ [w] \<and> lex_string acc s = Some (v, r')"
proof (induction "length s" arbitrary: acc s rule: less_induct)
  case less
  have rec: "\<exists>r'. r = r' @ [w] \<and> lex_string acc' s' = Some (v, r')"
    if "lex_string acc' (s' @ [w]) = Some (v, r)" "length s' < length s" for acc' s'
    using less.hyps [OF that(2,1)] .
  have nil: "lex_string acc [w] = None" for acc using assms by simp
  obtain c t where s: "s = c # t" using less.prems nil by (cases s) auto
  show ?case
  proof (cases "c = 92")
    case True
    show ?thesis
    proof (cases t)
      case Nil
      with less.prems s True nil show ?thesis by (auto split: if_splits option.splits)
    next
      case (Cons e t1)
      show ?thesis
      proof (cases "e = 117")
        case u: True
        obtain h1 h2 h3 h4 t2 where t1: "t1 @ [w] = h1 # h2 # h3 # h4 # t2"
          using less.prems s True Cons u by (auto split: list.splits)
        then obtain t3 where t3: "t1 = h1 # h2 # h3 # h4 # t3" "t2 = t3 @ [w]"
          using less.prems s True Cons u nil by (cases t2 rule: rev_cases) (auto split: option.splits)
        then show ?thesis using less.prems s True Cons u
          by (auto split: option.splits dest: rec)
      next
        case False
        then show ?thesis using less.prems s True Cons by (auto split: option.splits dest: rec)
      qed
    qed
  next
    case False
    then show ?thesis using less.prems s rec [of "c # acc" t] by (auto split: if_splits)
  qed
qed

lemma starts_with_snoc: "w \<notin> set p \<Longrightarrow> starts_with (s @ [w]) p \<longleftrightarrow> starts_with s p"
  by (auto simp: starts_with_iff append_eq_append_conv2 append_eq_Cons_conv Cons_eq_append_conv)

lemma drop_snoc: "starts_with s p \<Longrightarrow> drop (length p) (s @ [w]) = drop (length p) s @ [w]"
  by (auto simp: starts_with_iff)

lemma lex_word_snoc:
  assumes "w \<notin> set (js ''null'')" "w \<notin> set (js ''true'')" "w \<notin> set (js ''false'')"
    and "lex_word (s @ [w]) = Some (t, r)"
  shows "\<exists>r'. r = r' @ [w] \<and> lex_word s = Some (t, r')"
proof -
  have l: "length (js ''null'') = 4" "length (js ''true'') = 4" "length (js ''false'') = 5"
    by (simp_all add: js_def)
  note d = drop_snoc [of s "js ''null''" w, unfolded l] drop_snoc [of s "js ''true''" w, unfolded l]
    drop_snoc [of s "js ''false''" w, unfolded l]
  show ?thesis
    using assms(4) d unfolding lex_word_def starts_with_snoc [OF assms(1)] starts_with_snoc [OF assms(2)]
      starts_with_snoc [OF assms(3)]
    by (auto split: if_splits simp del: drop_append)
qed

lemma lex_token_snoc:
  assumes "is_ws w" and "lex_token c (s @ [w]) = Some (t, r)"
  shows "\<exists>r'. r = r' @ [w] \<and> lex_token c s = Some (t, r')"
proof -
  have w: "w \<noteq> 34" "\<not> num_char w" "w \<notin> set (js ''null'')" "w \<notin> set (js ''true'')" "w \<notin> set (js ''false'')"
    using assms(1) by (auto simp: is_ws_def num_char_def is_digit_def js_simps)
  show ?thesis
  proof (cases "punctuation c")
    case (Some p)
    with assms(2) show ?thesis by (simp add: lex_token_def)
  next
    case None
    consider "c = 34" | "c \<noteq> 34" "num_char c" | "c \<noteq> 34" "\<not> num_char c" by blast
    then show ?thesis
    proof cases
      case 1
      with None assms(2) show ?thesis
        using lex_string_snoc [OF w(1)] by (fastforce simp: lex_token_def split: option.splits)
    next
      case 2
      have "takeWhile num_char (s @ [w]) = takeWhile num_char s" "dropWhile num_char (s @ [w]) = dropWhile num_char s @ [w]"
        using w(2) by (induction s) auto
      with 2 None assms(2) show ?thesis by (auto simp: lex_token_def Let_def split: if_splits)
    next
      case 3
      from 3 None assms(2) lex_word_snoc [OF w(3-5), of "c # s"] show ?thesis by (simp add: lex_token_def)
    qed
  qed
qed

lemma tokenize_snoc:
  assumes "is_ws w"
  shows "tokenize (s @ [w]) = Some ts \<Longrightarrow> tokenize s = Some ts"
proof (induction "length s" arbitrary: s ts rule: less_induct)
  case less
  show ?case
  proof (cases s)
    case Nil
    with less.prems ws_not_lexed [OF assms, of "[]"] show ?thesis by (auto split: if_splits)
  next
    case (Cons c r)
    show ?thesis
    proof (cases "json_ws c")
      case True
      with less Cons show ?thesis by simp
    next
      case False
      then obtain t r1 ts1 where t: "lex_token c (r @ [w]) = Some (t, r1)" "tokenize r1 = Some ts1" "ts = t # ts1"
        using less.prems Cons by (auto split: option.splits)
      from lex_token_snoc [OF assms t(1)] obtain r2 where r2: "r1 = r2 @ [w]" "lex_token c r = Some (t, r2)" by blast
      have "length r2 < length s" using lex_token_length [OF r2(2)] Cons by simp
      from less.hyps [OF this] t(2) r2(1) have "tokenize r2 = Some ts1" by simp
      with False Cons r2(2) t(3) show ?thesis by simp
    qed
  qed
qed

lemma tokenize_append_ws: "\<forall>c \<in> set w. is_ws c \<Longrightarrow> tokenize (s @ w) = Some ts \<Longrightarrow> tokenize s = Some ts"
  by (induction w arbitrary: ts rule: rev_induct) (auto dest: tokenize_snoc simp flip: append_assoc)

lemma json_parse_trim: "json_parse s = Some v \<Longrightarrow> json_parse (trim s) = Some v"
proof -
  assume a: "json_parse s = Some v"
  then obtain ts where ts: "tokenize s = Some ts" "parse_tokens ts [] PValue = Some v"
    by (auto simp: json_parse_def split: option.splits)
  obtain w where w: "rev s = w @ trim_left (rev s)" "\<forall>c \<in> set w. is_ws c"
    using trim_left_suffix by blast
  have "s = rev (trim_left (rev s)) @ rev w" using arg_cong [OF w(1), of rev] by simp
  then have "tokenize (rev (trim_left (rev s))) = Some ts"
    using tokenize_append_ws [of "rev w" "rev (trim_left (rev s))" ts] w(2) ts(1) by simp
  from tokenize_trim_left [OF this] have "tokenize (trim s) = Some ts" by (simp add: trim_def)
  with ts(2) show ?thesis by (simp add: json_parse_def)
qed

section \<open>\<open>JSON.stringify\<close> of a string\<close>

definition hex_digit :: "nat \<Rightarrow> code_unit" where
  "hex_digit n = (if n < 10 then 48 + n else 87 + n)"

definition unicode_escape :: "code_unit \<Rightarrow> jsstr" where
  "unicode_escape c = [92, 117, hex_digit (c div 4096 mod 16), hex_digit (c div 256 mod 16),
     hex_digit (c div 16 mod 16), hex_digit (c mod 16)]"

definition escape_unit :: "code_unit \<Rightarrow> jsstr" where
  "escape_unit c = (if c = 34 \<or> c = 92 then [92, c]
     else if c = 8 then [92, 98] else if c = 9 then [92, 116] else if c = 10 then [92, 110]
     else if c = 12 then [92, 102] else if c = 13 then [92, 114]
     else if c < 32 then unicode_escape c else [c])"

definition high_surrogate :: "code_unit \<Rightarrow> bool" where
  "high_surrogate c \<longleftrightarrow> 55296 \<le> c \<and> c \<le> 56319"

definition low_surrogate :: "code_unit \<Rightarrow> bool" where
  "low_surrogate c \<longleftrightarrow> 56320 \<le> c \<and> c \<le> 57343"

text \<open>A surrogate that is not part of a pair is written as an escape.\<close>

fun quote_units :: "jsstr \<Rightarrow> jsstr" where
  "quote_units [] = []"
| "quote_units [c] = (if high_surrogate c \<or> low_surrogate c then unicode_escape c else escape_unit c)"
| "quote_units (c # d # r) =
     (if high_surrogate c then
        (if low_surrogate d then c # d # quote_units r else unicode_escape c @ quote_units (d # r))
      else if low_surrogate c then unicode_escape c @ quote_units (d # r)
      else escape_unit c @ quote_units (d # r))"

definition json_quote :: "jsstr \<Rightarrow> jsstr" where
  "json_quote s = 34 # quote_units s @ [34]"

lemma radix_hex_digit: "n < 16 \<Longrightarrow> radix_digit 16 (hex_digit n) = Some n"
  by (auto simp: radix_digit_def hex_digit_def is_digit_def Let_def)

lemma lex_unicode_escape:
  assumes "c < 65536"
  shows "lex_string acc (unicode_escape c @ r) = lex_string (c # acc) r"
proof -
  have "((c div 4096 mod 16 * 16 + c div 256 mod 16) * 16 + c div 16 mod 16) * 16 + c mod 16 = c"
  proof -
    have "c div 4096 < 16" using assms by (simp add: less_mult_imp_div_less)
    moreover have "c div 256 = c div 16 div 16" "c div 4096 = c div 16 div 16 div 16"
      by (simp_all add: div_mult2_eq [symmetric])
    ultimately show ?thesis by (simp add: mult.commute [of _ 16] mult_div_mod_eq)
  qed
  then have "hex4 (hex_digit (c div 4096 mod 16)) (hex_digit (c div 256 mod 16))
      (hex_digit (c div 16 mod 16)) (hex_digit (c mod 16)) = Some c"
    using assms by (simp add: hex4_def radix_hex_digit less_mult_imp_div_less)
  then show ?thesis by (simp add: unicode_escape_def)
qed

lemma lex_escape_unit: "lex_string acc (escape_unit c @ r) = lex_string (c # acc) r"
  by (simp add: escape_unit_def escape_char_def lex_unicode_escape)

lemma lex_surrogate:
  "high_surrogate c \<or> low_surrogate c \<Longrightarrow> lex_string acc (c # r) = lex_string (c # acc) r"
  "high_surrogate c \<or> low_surrogate c \<Longrightarrow> c < 65536"
  by (auto simp: high_surrogate_def low_surrogate_def)

lemma lex_quote_units: "lex_string acc (quote_units s @ 34 # r) = Some (rev acc @ s, r)"
proof (induction s arbitrary: acc rule: quote_units.induct)
  case 1
  then show ?case by simp
next
  case (2 c)
  then show ?case by (auto simp: lex_escape_unit lex_unicode_escape [OF lex_surrogate(2)])
next
  case (3 c d s)
  consider "high_surrogate c" "low_surrogate d" | "high_surrogate c" "\<not> low_surrogate d"
    | "\<not> high_surrogate c" "low_surrogate c" | "\<not> high_surrogate c" "\<not> low_surrogate c" by blast
  then show ?case
  proof cases
    case 1
    with 3 show ?thesis by (simp add: lex_surrogate(1) del: lex_string.simps)
  next
    case 2
    with 3 show ?thesis by (simp add: lex_unicode_escape lex_surrogate(2) del: lex_string.simps)
  next
    case low: 3
    with 3 show ?thesis by (simp add: lex_unicode_escape lex_surrogate(2) del: lex_string.simps)
  next
    case 4
    with 3 show ?thesis by (simp add: lex_escape_unit del: lex_string.simps)
  qed
qed

lemma json_parse_quote: "json_parse (json_quote s) = Some (JStr s)"
proof -
  have "lex_token 34 (quote_units s @ [34]) = Some (TStr s, [])"
    using lex_quote_units [of "[]" s "[]"] by (simp add: lex_token_def punctuation_def)
  then show ?thesis by (simp add: json_parse_def json_quote_def json_ws_def)
qed

interpretation json_strings: text_format json_quote json_parse "\<lambda>_. True" "\<lambda>s. Some (JStr s)"
  by unfold_locales (rule json_parse_quote)

lemma json_quote_inj: "json_quote s = json_quote t \<longleftrightarrow> s = t"
  using json_strings.print_distinct [of s t] by auto

lemma quote_units_plain:
  "list_all (\<lambda>c. 32 \<le> c \<and> c \<noteq> 34 \<and> c \<noteq> 92 \<and> \<not> high_surrogate c \<and> \<not> low_surrogate c) s \<Longrightarrow> quote_units s = s"
  by (induction s rule: quote_units.induct) (auto simp: escape_unit_def)

end
