(* ===== verification/JS_Regex.thy ===== *)
theory JS_Regex
  imports JS_Prelude
begin

text \<open>
  The part of JavaScript's regular expressions the sources use: a pattern maps a state (the
  captures so far and the text still to read) to the list of states it can end in, in the
  order in which the backtracking matcher tries them. The first one counts.
\<close>

section \<open>Patterns\<close>

type_synonym captures = "(nat \<times> jsstr) list"
type_synonym rx_state = "captures \<times> jsstr"
type_synonym rx = "rx_state \<Rightarrow> rx_state list"

fun rx_lit :: "jsstr \<Rightarrow> rx" where
  "rx_lit l (c, s) = (if starts_with s l then [(c, drop (length l) s)] else [])"

fun rx_one :: "(code_unit \<Rightarrow> bool) \<Rightarrow> rx" where
  "rx_one P (c, []) = []"
| "rx_one P (c, x # s) = (if P x then [(c, s)] else [])"

text \<open>A greedy repetition of a character class: the longest run first.\<close>

fun greedy :: "(code_unit \<Rightarrow> bool) \<Rightarrow> jsstr \<Rightarrow> jsstr list" where
  "greedy P [] = [[]]"
| "greedy P (x # s) = (if P x then greedy P s @ [x # s] else [x # s])"

fun rx_many :: "(code_unit \<Rightarrow> bool) \<Rightarrow> rx" where
  "rx_many P (c, s) = map (Pair c) (greedy P s)"

fun rx_some :: "(code_unit \<Rightarrow> bool) \<Rightarrow> rx" where
  "rx_some P (c, []) = []"
| "rx_some P (c, x # s) = (if P x then map (Pair c) (greedy P s) else [])"

fun rx_seq :: "rx list \<Rightarrow> rx" where
  "rx_seq [] st = [st]"
| "rx_seq (r # rs) st = concat (map (rx_seq rs) (r st))"

fun rx_alt :: "rx list \<Rightarrow> rx" where
  "rx_alt [] st = []"
| "rx_alt (r # rs) st = r st @ rx_alt rs st"

definition rx_opt :: "rx \<Rightarrow> rx" where
  "rx_opt r st = r st @ [st]"

text \<open>A repetition of a group: an iteration that reads nothing is given up.\<close>

fun rx_iter :: "nat \<Rightarrow> rx \<Rightarrow> rx" where
  "rx_iter 0 r st = [st]"
| "rx_iter (Suc n) r st =
     concat (map (rx_iter n r) (filter (\<lambda>st'. length (snd st') < length (snd st)) (r st))) @ [st]"

definition rx_star :: "rx \<Rightarrow> rx" where
  "rx_star r st = rx_iter (length (snd st)) r st"

definition rx_cap :: "nat \<Rightarrow> rx \<Rightarrow> rx" where
  "rx_cap n r st =
     map (\<lambda>(c, s). ((n, take (length (snd st) - length s) (snd st)) # c, s)) (r st)"

text \<open>A back reference; a group that took no part matches the empty text.\<close>

fun rx_back :: "nat \<Rightarrow> rx" where
  "rx_back n (c, s) = rx_lit (or_empty (map_of c n)) (c, s)"

fun rx_end :: rx where
  "rx_end (c, s) = (if s = [] then [(c, s)] else [])"

definition is_word :: "code_unit \<Rightarrow> bool" where
  "is_word c \<longleftrightarrow> is_digit c \<or> (65 \<le> c \<and> c \<le> 90) \<or> (97 \<le> c \<and> c \<le> 122) \<or> c = 95"

text \<open>\<open>\b\<close> after a word character.\<close>

fun rx_word_end :: rx where
  "rx_word_end (c, s) = (if s \<noteq> [] \<and> is_word (hd s) then [] else [(c, s)])"

definition capture :: "captures \<Rightarrow> nat \<Rightarrow> jsstr" where
  "capture c n = or_empty (map_of c n)"

lemma capture_Cons [simp]: "capture ((n, s) # c) m = (if m = n then s else capture c m)"
  by (simp add: capture_def)

section \<open>Matching\<close>

text \<open>\<open>s.match(/^...$/)\<close>: the captures of the first way to read the whole text.\<close>

definition rx_match :: "rx list \<Rightarrow> jsstr \<Rightarrow> captures option" where
  "rx_match rs s = (case rx_seq (rs @ [rx_end]) ([], s) of [] \<Rightarrow> None | (c, t) # _ \<Rightarrow> Some c)"

text \<open>
  The loop \<open>while ((m = re.exec(s)) !== null)\<close> of a global pattern that reads at least one
  character: at each place the guard sees the character before it and the text after it.
\<close>

definition rx_exec :: "rx \<Rightarrow> jsstr \<Rightarrow> rx_state option" where
  "rx_exec r s = (case filter (\<lambda>st. length (snd st) < length s) (r ([], s)) of
     [] \<Rightarrow> None | st # _ \<Rightarrow> Some st)"

lemma rx_exec_length: "rx_exec r s = Some (c, t) \<Longrightarrow> length t < length s"
proof -
  assume a: "rx_exec r s = Some (c, t)"
  then have "(c, t) \<in> set (filter (\<lambda>st. length (snd st) < length s) (r ([], s)))"
    unfolding rx_exec_def by (cases "filter (\<lambda>st. length (snd st) < length s) (r ([], s))") auto
  then show ?thesis by simp
qed

function rx_all :: "(code_unit option \<Rightarrow> bool) \<Rightarrow> rx \<Rightarrow> code_unit option \<Rightarrow> jsstr \<Rightarrow> captures list" where
  "rx_all g r prev [] = []"
| "rx_all g r prev (x # s) =
     (case (if g prev then rx_exec r (x # s) else None) of
        None \<Rightarrow> rx_all g r (Some x) s
      | Some (c, t) \<Rightarrow> c # rx_all g r (Some ((x # s) ! (length s - length t))) t)"
  by pat_completeness auto
termination
  by (relation "measure (\<lambda>(g, r, p, s). length s)")
    (auto split: if_splits dest: rx_exec_length)

text \<open>\<open>s.split(re)\<close> for a pattern without captures that reads at least one character.\<close>

function rx_split :: "rx \<Rightarrow> jsstr \<Rightarrow> jsstr \<Rightarrow> jsstr list" where
  "rx_split r cur [] = [rev cur]"
| "rx_split r cur (x # s) =
     (case rx_exec r (x # s) of
        None \<Rightarrow> rx_split r (x # cur) s
      | Some (c, t) \<Rightarrow> rev cur # rx_split r [] t)"
  by pat_completeness auto
termination
  by (relation "measure (\<lambda>(r, cur, s). length s)") (auto dest: rx_exec_length)

text \<open>\<open>s.replace(re, t)\<close> for such a pattern with the global flag.\<close>

definition rx_replace :: "rx \<Rightarrow> jsstr \<Rightarrow> jsstr \<Rightarrow> jsstr" where
  "rx_replace r t s = join t (rx_split r [] s)"

section \<open>What a pattern reads\<close>

text \<open>Every way to match reads a text over the class \<open>P\<close>.\<close>

definition reads :: "(code_unit \<Rightarrow> bool) \<Rightarrow> rx \<Rightarrow> bool" where
  "reads P r \<longleftrightarrow> (\<forall>c s c' t. (c', t) \<in> set (r (c, s)) \<longrightarrow> (\<exists>a. s = a @ t \<and> list_all P a))"

named_theorems reads_intros

lemma reads_lit [reads_intros]: "list_all P l \<Longrightarrow> reads P (rx_lit l)"
  by (auto simp: reads_def starts_with_iff)

lemma reads_one [reads_intros]: "(\<And>x. Q x \<Longrightarrow> P x) \<Longrightarrow> reads P (rx_one Q)"
  unfolding reads_def
proof (intro allI impI)
  fix c s c' t
  assume Q: "\<And>x. Q x \<Longrightarrow> P x" and "(c', t) \<in> set (rx_one Q (c, s))"
  then obtain x where "s = x # t" "Q x" by (cases s) (auto split: if_splits)
  with Q show "\<exists>a. s = a @ t \<and> list_all P a" by (intro exI [of _ "[x]"]) simp
qed

lemma greedy_reads: "t \<in> set (greedy Q s) \<Longrightarrow> \<exists>a. s = a @ t \<and> list_all Q a"
proof (induction s)
  case (Cons x s)
  then consider "t = x # s" | "Q x" "t \<in> set (greedy Q s)" by (auto split: if_splits)
  then show ?case
  proof cases
    case 2
    with Cons.IH obtain a where "s = a @ t" "list_all Q a" by blast
    with 2 show ?thesis by (intro exI [of _ "x # a"]) simp
  qed simp
qed simp

lemma list_all_mono: "list_all Q a \<Longrightarrow> (\<And>x. Q x \<Longrightarrow> P x) \<Longrightarrow> list_all P a"
  by (auto simp: list_all_iff)

lemma reads_many [reads_intros]: "(\<And>x. Q x \<Longrightarrow> P x) \<Longrightarrow> reads P (rx_many Q)"
  unfolding reads_def
proof (intro allI impI)
  fix c s c' t
  assume Q: "\<And>x. Q x \<Longrightarrow> P x" and "(c', t) \<in> set (rx_many Q (c, s))"
  then have "t \<in> set (greedy Q s)" by auto
  from greedy_reads [OF this] obtain a where a: "s = a @ t" "list_all Q a" by blast
  from list_all_mono [OF a(2) Q] a(1) show "\<exists>a. s = a @ t \<and> list_all P a" by simp
qed

lemma reads_some [reads_intros]: "(\<And>x. Q x \<Longrightarrow> P x) \<Longrightarrow> reads P (rx_some Q)"
  unfolding reads_def
proof (intro allI impI)
  fix c s c' t
  assume Q: "\<And>x. Q x \<Longrightarrow> P x" and m: "(c', t) \<in> set (rx_some Q (c, s))"
  from m obtain x s' where s: "s = x # s'" "Q x" "t \<in> set (greedy Q s')" by (cases s) (auto split: if_splits)
  from greedy_reads [OF s(3)] obtain a where a: "s' = a @ t" "list_all Q a" by blast
  from list_all_mono [OF a(2) Q] Q [OF s(2)] s(1) a(1) show "\<exists>a. s = a @ t \<and> list_all P a"
    by (intro exI [of _ "x # a"]) simp
qed

lemma reads_seq_Nil [reads_intros]: "reads P (rx_seq [])"
  by (simp add: reads_def)

lemma reads_seq_Cons [reads_intros]:
  assumes "reads P r" and "reads P (rx_seq rs)"
  shows "reads P (rx_seq (r # rs))"
  unfolding reads_def
proof (intro allI impI)
  fix c s c' t
  assume "(c', t) \<in> set (rx_seq (r # rs) (c, s))"
  then obtain d u where du: "(d, u) \<in> set (r (c, s))" "(c', t) \<in> set (rx_seq rs (d, u))" by auto
  from du(1) assms(1) obtain a where a: "s = a @ u" "list_all P a" unfolding reads_def by blast
  from du(2) assms(2) obtain b where b: "u = b @ t" "list_all P b" unfolding reads_def by blast
  from a b show "\<exists>a. s = a @ t \<and> list_all P a" by (intro exI [of _ "a @ b"]) simp
qed

lemma reads_alt_Nil [reads_intros]: "reads P (rx_alt [])"
  by (simp add: reads_def)

lemma reads_alt_Cons [reads_intros]: "reads P r \<Longrightarrow> reads P (rx_alt rs) \<Longrightarrow> reads P (rx_alt (r # rs))"
  unfolding reads_def by auto

lemma reads_opt [reads_intros]: "reads P r \<Longrightarrow> reads P (rx_opt r)"
  unfolding reads_def rx_opt_def by auto

lemma reads_end [reads_intros]: "reads P rx_end"
  by (simp add: reads_def)

lemma reads_cap [reads_intros]: "reads P r \<Longrightarrow> reads P (rx_cap n r)"
  unfolding reads_def rx_cap_def by fastforce

lemma rx_seq_append: "rx_seq (as @ bs) st = concat (map (rx_seq bs) (rx_seq as st))"
proof (induction as arbitrary: st)
  case (Cons a as)
  have "concat (map (\<lambda>x. concat (map (rx_seq bs) (rx_seq as x))) xs) =
      concat (map (rx_seq bs) (concat (map (rx_seq as) xs)))" for xs
    by (induction xs) simp_all
  moreover have "rx_seq (as @ bs) = (\<lambda>x. concat (map (rx_seq bs) (rx_seq as x)))"
    by (rule ext) (rule Cons.IH)
  ultimately show ?case by simp
qed simp

text \<open>So a text that matches as a whole is over the class.\<close>

lemma rx_match_reads:
  assumes "rx_match rs s \<noteq> None" and "reads P (rx_seq rs)"
  shows "list_all P s"
proof -
  from assms(1) obtain c t where "(c, t) \<in> set (rx_seq (rs @ [rx_end]) ([], s))"
    unfolding rx_match_def by (cases "rx_seq (rs @ [rx_end]) ([], s)") auto
  then obtain d where "(d, []) \<in> set (rx_seq rs ([], s))"
    by (auto simp: rx_seq_append split: if_splits)
  with assms(2) obtain a where "s = a @ []" "list_all P a" unfolding reads_def by blast
  then show ?thesis by simp
qed

section \<open>Patterns that match in one way\<close>

named_theorems rx_simps

lemma rx_seq_lit: "rx_seq (rx_lit l # rs) (c, l @ s) = rx_seq rs (c, s)"
  by simp

lemma rx_seq_lit_fail: "\<not> starts_with s l \<Longrightarrow> rx_seq (rx_lit l # rs) (c, s) = []"
  by simp

lemma greedy_stop: "s = [] \<or> \<not> P (hd s) \<Longrightarrow> greedy P s = [s]"
  by (cases s) auto

lemma greedy_skip:
  assumes "list_all P a" and "\<And>y ys. P y \<Longrightarrow> f (y # ys) = []"
  shows "concat (map f (greedy P (a @ s))) = concat (map f (greedy P s))"
  using assms(1) by (induction a) (auto simp: assms(2))

text \<open>A run of a class before a continuation that starts outside the class ends only there.\<close>

definition starts_outside :: "(code_unit \<Rightarrow> bool) \<Rightarrow> rx list \<Rightarrow> bool" where
  "starts_outside P rs \<longleftrightarrow> (\<forall>c y ys. P y \<longrightarrow> rx_seq rs (c, y # ys) = [])"

lemma starts_outside_lit [rx_simps]: "\<not> P q \<Longrightarrow> starts_outside P (rx_lit (q # l) # rs)"
  by (auto simp: starts_outside_def starts_with_Cons)

lemma starts_outside_end [rx_simps]: "starts_outside P [rx_end]"
  by (simp add: starts_outside_def)

lemma rx_many_skip:
  assumes "list_all P a" and "starts_outside P rs" and "s = [] \<or> \<not> P (hd s)"
  shows "rx_seq (rx_many P # rs) (c, a @ s) = rx_seq rs (c, s)"
proof -
  have "concat (map (\<lambda>t. rx_seq rs (c, t)) (greedy P (a @ s))) = concat (map (\<lambda>t. rx_seq rs (c, t)) (greedy P s))"
    using assms(2) by (intro greedy_skip [OF assms(1)]) (simp add: starts_outside_def)
  with greedy_stop [of s P, OF assms(3)] show ?thesis by (simp add: comp_def)
qed

lemma rx_cap_some_skip:
  assumes "list_all P a" and "a \<noteq> []" and "starts_outside P rs" and "s = [] \<or> \<not> P (hd s)"
  shows "rx_seq (rx_cap n (rx_some P) # rs) (c, a @ s) = rx_seq rs ((n, a) # c, s)"
proof -
  obtain x b where a: "a = x # b" using assms(2) by (meson neq_Nil_conv)
  define f where "f t = rx_seq rs ((n, take (Suc (length (b @ s)) - length t) (x # b @ s)) # c, t)" for t
  have "concat (map f (greedy P (b @ s))) = concat (map f (greedy P s))"
    using assms(1,3) a by (intro greedy_skip) (simp_all add: starts_outside_def f_def)
  also have "\<dots> = rx_seq rs ((n, a) # c, s)"
    using greedy_stop [of s P, OF assms(4)] by (simp add: f_def a)
  finally show ?thesis using assms(1) a by (simp add: rx_cap_def comp_def f_def [abs_def])
qed

lemma rx_cap_some_fail: "s = [] \<or> \<not> P (hd s) \<Longrightarrow> rx_seq (rx_cap n (rx_some P) # rs) (c, s) = []"
  by (cases s) (simp_all add: rx_cap_def)

text \<open>The longest run wins when the continuation fits no shorter rest.\<close>

lemma greedy_last:
  assumes "list_all P s" and "\<And>u v. s = u @ v \<Longrightarrow> u \<noteq> [] \<Longrightarrow> f v = []"
  shows "concat (map f (greedy P s)) = f s"
  using assms
proof (induction s)
  case (Cons x s)
  have "f v = []" if "s = u @ v" for u v
    using Cons.prems(2) [of "x # u" v] that by simp
  with Cons.IH Cons.prems(1) have "concat (map f (greedy P s)) = f s" "f s = []" by auto
  with Cons.prems(1) show ?case by simp
qed simp

lemma greedy_prefix: "list_all P a \<Longrightarrow> \<exists>r. greedy P (a @ s) = greedy P s @ r"
  by (induction a) auto

lemma rx_cap_some_last:
  assumes "list_all P a" "a \<noteq> []" and "list_all P s"
    and "\<And>u v c. s = u @ v \<Longrightarrow> u \<noteq> [] \<Longrightarrow> rx_seq rs (c, v) = []"
  shows "\<exists>r. rx_seq (rx_cap n (rx_some P) # rs) (c, a @ s) = rx_seq rs ((n, a) # c, s) @ r"
proof -
  obtain x b where a: "a = x # b" using assms(2) by (meson neq_Nil_conv)
  define f where "f t = rx_seq rs ((n, take (Suc (length (b @ s)) - length t) (x # b @ s)) # c, t)" for t
  obtain r where r: "greedy P (b @ s) = greedy P s @ r"
    using greedy_prefix [of P b s] assms(1) a by auto
  have "concat (map f (greedy P s)) = f s"
    by (rule greedy_last [OF assms(3)]) (simp add: f_def assms(4))
  then have "concat (map f (greedy P (b @ s))) = rx_seq rs ((n, a) # c, s) @ concat (map f r)"
    by (simp add: r f_def a)
  moreover have "rx_seq (rx_cap n (rx_some P) # rs) (c, a @ s) = concat (map f (greedy P (b @ s)))"
    using assms(1) a by (simp add: rx_cap_def comp_def f_def [abs_def])
  ultimately show ?thesis by metis
qed

section \<open>Evaluation\<close>

text \<open>Rules that run a pattern on a text whose parts are known, with the definitions switched off.\<close>

lemma rx_step_lit [rx_simps]:
  "rx_seq (rx_lit l # rs) (c, s) = (if starts_with s l then rx_seq rs (c, drop (length l) s) else [])"
  by simp

lemma rx_step_end [rx_simps]: "rx_seq [rx_end] (c, s) = (if s = [] then [(c, [])] else [])"
  by simp

lemma rx_step_back [rx_simps]:
  "rx_seq (rx_back n # rs) (c, s) = rx_seq (rx_lit (or_empty (map_of c n)) # rs) (c, s)"
  by simp

lemma rx_step_alt_Nil [rx_simps]: "rx_seq (rx_cap n (rx_alt []) # rs) st = []"
  by (simp add: rx_cap_def)

lemma rx_step_alt_Cons [rx_simps]:
  "rx_seq (rx_cap n (rx_alt (rx_lit l # as)) # rs) (c, s) =
     (if starts_with s l then rx_seq rs ((n, l) # c, drop (length l) s) else []) @
     rx_seq (rx_cap n (rx_alt as) # rs) (c, s)"
  by (auto simp: rx_cap_def starts_with_iff)

lemma rx_step_some_end:
  "list_all P a \<Longrightarrow> a \<noteq> [] \<Longrightarrow> rx_seq [rx_cap n (rx_some P), rx_end] (c, a) = [((n, a) # c, [])]"
  using rx_cap_some_skip [of P a "[rx_end]" "[]" n c] by (simp add: starts_outside_end)

declare rx_seq.simps(2) [simp del]

section \<open>The first way to match\<close>

definition rx_first :: "rx \<Rightarrow> rx_state \<Rightarrow> rx_state \<Rightarrow> bool" where
  "rx_first r st st' \<longleftrightarrow> (\<exists>rest. r st = st' # rest)"

lemma first_seq_Nil: "rx_first (rx_seq []) st st"
  by (simp add: rx_first_def)

lemma first_seq_Cons: "rx_first r st st1 \<Longrightarrow> rx_first (rx_seq rs) st1 st2 \<Longrightarrow> rx_first (rx_seq (r # rs)) st st2"
  by (auto simp: rx_first_def rx_seq.simps(2))

lemma first_lit: "rx_first (rx_lit l) (c, l @ s) (c, s)"
  by (simp add: rx_first_def)

lemma greedy_first: "list_all P a \<Longrightarrow> s = [] \<or> \<not> P (hd s) \<Longrightarrow> \<exists>r. greedy P (a @ s) = s # r"
  using greedy_prefix [of P a s] greedy_stop [of s P] by auto

lemma first_many: "list_all P a \<Longrightarrow> s = [] \<or> \<not> P (hd s) \<Longrightarrow> rx_first (rx_many P) (c, a @ s) (c, s)"
  using greedy_first [of P a s] by (auto simp: rx_first_def)

lemma first_some: "list_all P a \<Longrightarrow> a \<noteq> [] \<Longrightarrow> s = [] \<or> \<not> P (hd s) \<Longrightarrow> rx_first (rx_some P) (c, a @ s) (c, s)"
  using greedy_first [of P "tl a" s] by (cases a) (auto simp: rx_first_def)

lemma first_cap: "rx_first r (c, a @ s) (c', s) \<Longrightarrow> rx_first (rx_cap n r) (c, a @ s) ((n, a) # c', s)"
  by (auto simp: rx_first_def rx_cap_def)

lemma first_opt: "rx_first r st st' \<Longrightarrow> rx_first (rx_opt r) st st'"
  by (auto simp: rx_first_def rx_opt_def)

lemma first_opt_skip: "r st = [] \<Longrightarrow> rx_first (rx_opt r) st st"
  by (simp add: rx_first_def rx_opt_def)

lemma first_iter_stop: "r st = [] \<Longrightarrow> rx_first (rx_iter n r) st st"
  by (cases n) (simp_all add: rx_first_def)

lemma first_iter_step:
  "rx_first r st st1 \<Longrightarrow> length (snd st1) < length (snd st) \<Longrightarrow> rx_first (rx_iter n r) st1 st2 \<Longrightarrow>
    rx_first (rx_iter (Suc n) r) st st2"
  by (auto simp: rx_first_def)

lemma rx_exec_first: "rx_first r ([], s) (c, t) \<Longrightarrow> length t < length s \<Longrightarrow> rx_exec r s = Some (c, t)"
  by (auto simp: rx_first_def rx_exec_def)

lemma rx_exec_none: "r ([], s) = [] \<Longrightarrow> rx_exec r s = None"
  by (simp add: rx_exec_def)

text \<open>One match of a global pattern, and a place where it does not match.\<close>

lemma rx_all_match:
  assumes "g prev" and "rx_first r ([], a @ s) (c, s)" and "a \<noteq> []"
  shows "rx_all g r prev (a @ s) = c # rx_all g r (Some (last a)) s"
proof -
  obtain x b where a: "a = x # b" using assms(3) by (meson neq_Nil_conv)
  have e: "rx_exec r (x # b @ s) = Some (c, s)"
    using rx_exec_first [OF assms(2)] a by simp
  have "(x # b @ s) ! length b = last a" by (simp add: a last_conv_nth nth_Cons' nth_append)
  with e assms(1) show ?thesis by (simp add: a)
qed

lemma rx_all_skip: "r ([], x # s) = [] \<Longrightarrow> rx_all g r prev (x # s) = rx_all g r (Some x) s"
  by (simp add: rx_exec_none)


end
