(* ===== verification/Request_Rules.thy ===== *)
theory Request_Rules
  imports JS_Json JS_Regex
begin

text \<open>
  The request rules of \<open>features/pricing/lib/billing-expr.ts\<close>: multipliers on a price that
  apply when a parameter, a header or the time of the request satisfies conditions. The
  editor builds an expression text from rule groups and reads it back; the text is combined
  with the tier expression into one billing expression and split off again. A thrown
  \<open>SyntaxError\<close> is a left value.
\<close>

section \<open>Conditions and rule groups\<close>

definition SOURCE_PARAM :: jsstr where "SOURCE_PARAM = js ''param''"
definition SOURCE_HEADER :: jsstr where "SOURCE_HEADER = js ''header''"
definition SOURCE_TIME :: jsstr where "SOURCE_TIME = js ''time''"

definition MATCH_EQ :: jsstr where "MATCH_EQ = js ''eq''"
definition MATCH_CONTAINS :: jsstr where "MATCH_CONTAINS = js ''contains''"
definition MATCH_GT :: jsstr where "MATCH_GT = js ''gt''"
definition MATCH_GTE :: jsstr where "MATCH_GTE = js ''gte''"
definition MATCH_LT :: jsstr where "MATCH_LT = js ''lt''"
definition MATCH_LTE :: jsstr where "MATCH_LTE = js ''lte''"
definition MATCH_EXISTS :: jsstr where "MATCH_EXISTS = js ''exists''"
definition MATCH_RANGE :: jsstr where "MATCH_RANGE = js ''range''"

lemmas match_defs = MATCH_EQ_def MATCH_CONTAINS_def MATCH_GT_def MATCH_GTE_def MATCH_LT_def
  MATCH_LTE_def MATCH_EXISTS_def MATCH_RANGE_def

lemmas source_defs = SOURCE_PARAM_def SOURCE_HEADER_def SOURCE_TIME_def

definition TIME_FUNCS :: "jsstr list" where
  "TIME_FUNCS = [js ''hour'', js ''minute'', js ''weekday'', js ''month'', js ''day'']"

record ParamHeaderCondition =
  ph_source :: jsstr
  ph_path :: jsstr
  ph_mode :: jsstr
  ph_value :: jsstr

record TimeCondition =
  tm_timeFunc :: jsstr
  tm_timezone :: jsstr
  tm_mode :: jsstr
  tm_value :: jsstr
  tm_rangeStart :: jsstr
  tm_rangeEnd :: jsstr

datatype RequestCondition = Time TimeCondition | ParamHeader ParamHeaderCondition

record RequestRuleGroup =
  rg_conditions :: "RequestCondition list"
  rg_multiplier :: jsstr

datatype rule_error = SyntaxError

section \<open>Literals\<close>

text \<open>\<open>NUMERIC_LITERAL_REGEX\<close>: an optional minus, digits with a fraction, an exponent.\<close>

definition numeric_literal_rx :: "rx list" where
  "numeric_literal_rx =
     [rx_opt (rx_lit (js ''-'')),
      rx_alt [rx_seq [rx_some is_digit, rx_opt (rx_lit (js ''.'')), rx_many is_digit],
              rx_seq [rx_lit (js ''.''), rx_some is_digit]],
      rx_opt (rx_seq [rx_one (\<lambda>c. c = 101 \<or> c = 69), rx_opt (rx_one (\<lambda>c. c = 43 \<or> c = 45)), rx_some is_digit])]"

definition NUMERIC_LITERAL_REGEX :: "jsstr \<Rightarrow> bool" where
  "NUMERIC_LITERAL_REGEX s \<longleftrightarrow> rx_match numeric_literal_rx s \<noteq> None"

definition parseExprLiteral :: "jsstr \<Rightarrow> json option" where
  "parseExprLiteral raw =
     (let text = trim raw in
      if text = js ''true'' \<or> text = js ''false'' then Some (JStr text)
      else if NUMERIC_LITERAL_REGEX text then Some (JStr text)
      else case json_parse text of
          None \<Rightarrow> None
        | Some v \<Rightarrow> if v = JNull then None else Some v)"

section \<open>Splitting at the top level\<close>

definition paren_depth :: "int \<Rightarrow> code_unit \<Rightarrow> int" where
  "paren_depth d c = (let d1 = (if c = 40 then d + 1 else d) in if c = 41 then d1 - 1 else d1)"

text \<open>
  The scan of \<open>splitTopLevelMultiply\<close> and \<open>splitTopLevelAnd\<close>: \<open>cur\<close> is the text since
  \<open>start\<close>, in reverse.
\<close>

function splitLoop :: "jsstr \<Rightarrow> int \<Rightarrow> jsstr \<Rightarrow> jsstr \<Rightarrow> jsstr list" where
  "splitLoop sep depth cur [] = [trim (rev cur)]"
| "splitLoop sep depth cur (c # r) =
     (let d = paren_depth depth c in
      if d = 0 \<and> starts_with (c # r) sep
      then trim (rev cur) # splitLoop sep d [] (drop (length sep - 1) r)
      else splitLoop sep d (c # cur) r)"
  by pat_completeness auto
termination by (relation "measure (\<lambda>(sep, d, cur, s). length s)") auto

definition splitTopLevelMultiply :: "jsstr \<Rightarrow> jsstr list" where
  "splitTopLevelMultiply expr = filter (\<lambda>p. p \<noteq> []) (splitLoop (js '' * '') 0 [] expr)"

definition splitTopLevelAnd :: "jsstr \<Rightarrow> jsstr list" where
  "splitTopLevelAnd expr = filter (\<lambda>p. p \<noteq> []) (splitLoop (js '' && '') 0 [] expr)"

section \<open>Reading conditions\<close>

definition not_quote :: "code_unit \<Rightarrow> bool" where "not_quote c \<longleftrightarrow> c \<noteq> 34"

definition not_newline :: "code_unit \<Rightarrow> bool" where
  "not_newline c \<longleftrightarrow> c \<noteq> 10 \<and> c \<noteq> 13 \<and> c \<noteq> 8232 \<and> c \<noteq> 8233"

definition time_func_rx :: rx where
  "time_func_rx = rx_alt (map rx_lit TIME_FUNCS)"

definition time_range_rx :: "rx list" where
  \<open>time_range_rx =
     [rx_cap 1 time_func_rx, rx_lit (js ''("''), rx_cap 2 (rx_some not_quote), rx_lit (js ''") >= ''),
      rx_cap 3 (rx_some num_char), rx_lit (js '' || ''), rx_back 1, rx_lit (js ''("''), rx_back 2,
      rx_lit (js ''") < ''), rx_cap 4 (rx_some num_char)]\<close>

definition time_compare_rx :: "rx list" where
  \<open>time_compare_rx =
     [rx_cap 1 time_func_rx, rx_lit (js ''("''), rx_cap 2 (rx_some not_quote), rx_lit (js ''") ''),
      rx_cap 3 (rx_alt [rx_lit (js ''==''), rx_lit (js ''>=''), rx_lit (js ''<'')]), rx_lit (js '' ''),
      rx_cap 4 (rx_some num_char)]\<close>

definition rangeOf :: "captures \<Rightarrow> RequestCondition" where
  "rangeOf m = Time \<lparr>tm_timeFunc = capture m 1, tm_timezone = capture m 2, tm_mode = MATCH_RANGE,
     tm_value = [], tm_rangeStart = capture m 3, tm_rangeEnd = capture m 4\<rparr>"

definition timeOp :: "jsstr \<Rightarrow> jsstr" where
  "timeOp s = (if s = js ''=='' then MATCH_EQ else if s = js ''>='' then MATCH_GTE
     else if s = js ''<'' then MATCH_LT else MATCH_EQ)"

definition tryParseTimeCondition :: "jsstr \<Rightarrow> RequestCondition option" where
  "tryParseTimeCondition expr =
     (case rx_match time_range_rx expr of
        Some m \<Rightarrow> Some (rangeOf m)
      | None \<Rightarrow>
     (case rx_match (rx_lit (js ''('') # time_range_rx @ [rx_lit (js '')'')]) expr of
        Some m \<Rightarrow> Some (rangeOf m)
      | None \<Rightarrow>
     (case rx_match time_compare_rx expr of
        Some m \<Rightarrow> Some (Time \<lparr>tm_timeFunc = capture m 1, tm_timezone = capture m 2,
          tm_mode = timeOp (capture m 3), tm_value = capture m 4, tm_rangeStart = [], tm_rangeEnd = []\<rparr>)
      | None \<Rightarrow> None)))"

definition header_exists_rx :: "rx list" where
  \<open>header_exists_rx = [rx_lit (js ''header("''), rx_cap 1 (rx_some not_quote), rx_lit (js ''") != ""'')]\<close>

definition param_exists_rx :: "rx list" where
  \<open>param_exists_rx = [rx_lit (js ''param("''), rx_cap 1 (rx_some not_quote), rx_lit (js ''") != nil'')]\<close>

text \<open>\<open>"(?:[^"\\]|\\.)*"\<close>.\<close>

definition string_rx :: rx where
  "string_rx = rx_seq [rx_lit [34],
     rx_star (rx_alt [rx_one (\<lambda>c. c \<noteq> 34 \<and> c \<noteq> 92), rx_seq [rx_lit [92], rx_one not_newline]]),
     rx_lit [34]]"

definition header_contains_rx :: "rx list" where
  \<open>header_contains_rx = [rx_lit (js ''has(header("''), rx_cap 1 (rx_some not_quote), rx_lit (js ''"), ''),
     rx_cap 2 string_rx, rx_lit (js '')'')]\<close>

definition param_contains_rx :: "rx list" where
  \<open>param_contains_rx = [rx_lit (js ''param("''), rx_cap 1 (rx_some not_quote),
     rx_lit (js ''") != nil && has(param("''), rx_cap 2 (rx_some not_quote), rx_lit (js ''"), ''),
     rx_cap 3 string_rx, rx_lit (js '')'')]\<close>

definition param_compare_rx :: "rx list" where
  \<open>param_compare_rx = [rx_lit (js ''param("''), rx_cap 1 (rx_some not_quote),
     rx_lit (js ''") != nil && param("''), rx_cap 2 (rx_some not_quote), rx_lit (js ''") ''),
     rx_cap 3 (rx_alt [rx_lit (js ''>''), rx_lit (js ''>=''), rx_lit (js ''<''), rx_lit (js ''<='')]),
     rx_lit (js '' ''), rx_cap 4 (rx_some num_char)]\<close>

definition equals_rx :: "rx list" where
  \<open>equals_rx = [rx_cap 1 (rx_alt [rx_lit (js ''param''), rx_lit (js ''header'')]), rx_lit (js ''("''),
     rx_cap 2 (rx_some not_quote), rx_lit (js ''") == ''), rx_cap 3 (rx_some not_newline)]\<close>

definition compareOp :: "jsstr \<Rightarrow> jsstr" where
  "compareOp s = (if s = js ''>'' then MATCH_GT else if s = js ''>='' then MATCH_GTE
     else if s = js ''<'' then MATCH_LT else MATCH_LTE)"

definition mkCondition :: "jsstr \<Rightarrow> jsstr \<Rightarrow> jsstr \<Rightarrow> jsstr \<Rightarrow> RequestCondition" where
  "mkCondition source path mode value =
     ParamHeader \<lparr>ph_source = source, ph_path = path, ph_mode = mode, ph_value = value\<rparr>"

text \<open>
  The value of a \<open>has\<close> call: \<open>JSON.parse\<close> is not guarded there. The literal starts with a
  quote, so that its value is a string.
\<close>

definition containsCondition :: "jsstr \<Rightarrow> jsstr \<Rightarrow> jsstr \<Rightarrow> rule_error + RequestCondition option" where
  "containsCondition source path lit =
     (case json_parse lit of
        Some (JStr s) \<Rightarrow> Inr (Some (mkCondition source path MATCH_CONTAINS s))
      | _ \<Rightarrow> Inl SyntaxError)"

definition equalsCondition :: "(jsstr \<Rightarrow> jsstr) \<Rightarrow> jsstr \<Rightarrow> RequestCondition option" where
  "equalsCondition nt expr =
     (case rx_match equals_rx expr of
        None \<Rightarrow> None
      | Some m \<Rightarrow>
          (case parseExprLiteral (capture m 3) of
             None \<Rightarrow> None
           | Some v \<Rightarrow> Some (mkCondition (capture m 1) (capture m 2) MATCH_EQ (js_String nt v))))"

text \<open>The guard \<open>m && m[1] === m[2]\<close>.\<close>

definition sameParam :: "captures option \<Rightarrow> captures option" where
  "sameParam mo = (case mo of Some m \<Rightarrow> if capture m 1 = capture m 2 then Some m else None | None \<Rightarrow> None)"

definition tryParseRequestCondition :: "(jsstr \<Rightarrow> jsstr) \<Rightarrow> jsstr \<Rightarrow> rule_error + RequestCondition option" where
  "tryParseRequestCondition nt expr =
     (case tryParseTimeCondition expr of Some tc \<Rightarrow> Inr (Some tc) | None \<Rightarrow>
     (case rx_match header_exists_rx expr of
        Some m \<Rightarrow> Inr (Some (mkCondition SOURCE_HEADER (capture m 1) MATCH_EXISTS [])) | None \<Rightarrow>
     (case rx_match param_exists_rx expr of
        Some m \<Rightarrow> Inr (Some (mkCondition SOURCE_PARAM (capture m 1) MATCH_EXISTS [])) | None \<Rightarrow>
     (case rx_match header_contains_rx expr of
        Some m \<Rightarrow> containsCondition SOURCE_HEADER (capture m 1) (capture m 2) | None \<Rightarrow>
     (case sameParam (rx_match param_contains_rx expr) of
        Some m \<Rightarrow> containsCondition SOURCE_PARAM (capture m 1) (capture m 3) | None \<Rightarrow>
     (case sameParam (rx_match param_compare_rx expr) of
        Some m \<Rightarrow> Inr (Some (mkCondition SOURCE_PARAM (capture m 1) (compareOp (capture m 3)) (capture m 4)))
      | None \<Rightarrow> Inr (equalsCondition nt expr)))))))"

section \<open>Reading rule groups\<close>

definition factor_rx :: "rx list" where
  "factor_rx = [rx_lit (js ''(''), rx_cap 1 (rx_some (\<lambda>_. True)), rx_lit (js '' ? ''),
     rx_cap 2 (rx_some num_char), rx_lit (js '' : 1)'')]"

text \<open>The loop over the parts of a conjunction: the first part that is no condition ends it.\<close>

fun parseConditions :: "(jsstr \<Rightarrow> jsstr) \<Rightarrow> jsstr list \<Rightarrow> rule_error + RequestCondition list option" where
  "parseConditions nt [] = Inr (Some [])"
| "parseConditions nt (ap # aps) =
     (case tryParseRequestCondition nt (trim ap) of
        Inl e \<Rightarrow> Inl e
      | Inr None \<Rightarrow> Inr None
      | Inr (Some cond) \<Rightarrow>
          (case parseConditions nt aps of
             Inr (Some conds) \<Rightarrow> Inr (Some (cond # conds)) | other \<Rightarrow> other))"

definition tryParseRuleGroupFactor :: "(jsstr \<Rightarrow> jsstr) \<Rightarrow> jsstr \<Rightarrow> rule_error + RequestRuleGroup option" where
  "tryParseRuleGroupFactor nt part =
     (case rx_match factor_rx part of
        None \<Rightarrow> Inr None
      | Some m \<Rightarrow>
          (case parseConditions nt (splitTopLevelAnd (capture m 1)) of
             Inl e \<Rightarrow> Inl e
           | Inr None \<Rightarrow> Inr None
           | Inr (Some conditions) \<Rightarrow>
               if conditions = [] then Inr None
               else Inr (Some \<lparr>rg_conditions = conditions, rg_multiplier = capture m 2\<rparr>)))"

fun parseFactors :: "(jsstr \<Rightarrow> jsstr) \<Rightarrow> jsstr list \<Rightarrow> rule_error + RequestRuleGroup list option" where
  "parseFactors nt [] = Inr (Some [])"
| "parseFactors nt (part # parts) =
     (case tryParseRuleGroupFactor nt part of
        Inl e \<Rightarrow> Inl e
      | Inr None \<Rightarrow> Inr None
      | Inr (Some g) \<Rightarrow>
          (case parseFactors nt parts of Inr (Some gs) \<Rightarrow> Inr (Some (g # gs)) | other \<Rightarrow> other))"

definition tryParseRequestRuleExpr :: "(jsstr \<Rightarrow> jsstr) \<Rightarrow> jsstr \<Rightarrow> rule_error + RequestRuleGroup list option" where
  "tryParseRequestRuleExpr nt expr =
     (let trimmed = trim expr in
      if trimmed = [] then Inr (Some []) else parseFactors nt (splitTopLevelMultiply trimmed))"

section \<open>Combining and splitting\<close>

fun outerLoop :: "int \<Rightarrow> jsstr \<Rightarrow> bool" where
  "outerLoop depth [] = (depth = 0)"
| "outerLoop depth (c # r) =
     (let d = paren_depth depth c in if d = 0 \<and> r \<noteq> [] then False else outerLoop d r)"

definition hasFullOuterParens :: "jsstr \<Rightarrow> bool" where
  "hasFullOuterParens expr =
     (if \<not> starts_with expr (js ''('') \<or> \<not> ends_with expr (js '')'') then False else outerLoop 0 expr)"

text \<open>The body of the loop: \<open>current.slice(1, -1).trim()\<close>.\<close>

definition peel :: "jsstr \<Rightarrow> jsstr" where
  "peel s = trim (butlast (tl s))"

lemma peel_length: "hasFullOuterParens s \<Longrightarrow> length (peel s) < length s"
proof -
  assume "hasFullOuterParens s"
  then have "s \<noteq> []" by (auto simp: hasFullOuterParens_def js_simps)
  then have "length (butlast (tl s)) < length s" by (cases s) auto
  then show ?thesis using length_trim [of "butlast (tl s)"] by (simp add: peel_def)
qed

function unwrapLoop :: "jsstr \<Rightarrow> jsstr" where
  "unwrapLoop current = (if hasFullOuterParens current then unwrapLoop (peel current) else current)"
  by pat_completeness auto
termination by (relation "measure length") (auto dest: peel_length)

declare unwrapLoop.simps [simp del]

definition unwrapOuterParens :: "jsstr \<Rightarrow> jsstr" where
  "unwrapOuterParens expr = unwrapLoop (trim expr)"

record SplitExpr =
  billingExpr :: jsstr
  requestRuleExpr :: jsstr

text \<open>The loop that sorts the parts: the rule parts and the base parts, in order.\<close>

fun sortParts :: "(jsstr \<Rightarrow> jsstr) \<Rightarrow> jsstr list \<Rightarrow> rule_error + (jsstr list \<times> jsstr list)" where
  "sortParts nt [] = Inr ([], [])"
| "sortParts nt (part # parts) =
     (case tryParseRequestRuleExpr nt part of
        Inl e \<Rightarrow> Inl e
      | Inr parsed \<Rightarrow>
          (case sortParts nt parts of
             Inl e \<Rightarrow> Inl e
           | Inr (rules, bases) \<Rightarrow>
               if parsed \<noteq> None \<and> parsed \<noteq> Some [] then Inr (part # rules, bases)
               else Inr (rules, part # bases)))"

definition splitBillingExprAndRequestRules :: "(jsstr \<Rightarrow> jsstr) \<Rightarrow> jsstr \<Rightarrow> rule_error + SplitExpr" where
  "splitBillingExprAndRequestRules nt expr =
     (let trimmed = trim expr in
      if trimmed = [] then Inr \<lparr>billingExpr = [], requestRuleExpr = []\<rparr>
      else let parts = splitTopLevelMultiply trimmed in
      if length parts \<le> 1 then Inr \<lparr>billingExpr = trimmed, requestRuleExpr = []\<rparr>
      else case sortParts nt parts of
          Inl e \<Rightarrow> Inl e
        | Inr (ruleParts, baseParts) \<Rightarrow>
            if ruleParts = [] \<or> length baseParts \<noteq> 1
            then Inr \<lparr>billingExpr = trimmed, requestRuleExpr = []\<rparr>
            else Inr \<lparr>billingExpr = unwrapOuterParens (hd baseParts),
                      requestRuleExpr = join (js '' * '') ruleParts\<rparr>)"

definition combineBillingExpr :: "jsstr \<Rightarrow> jsstr \<Rightarrow> jsstr" where
  "combineBillingExpr baseExpr ruleExpr =
     (let base = trim baseExpr; rules = trim ruleExpr in
      if base = [] then [] else if rules = [] then base
      else js ''('' @ base @ js '') * '' @ rules)"

section \<open>The editor\<close>

definition createEmptyCondition :: ParamHeaderCondition where
  "createEmptyCondition = \<lparr>ph_source = SOURCE_PARAM, ph_path = [], ph_mode = MATCH_EQ, ph_value = []\<rparr>"

definition createEmptyTimeCondition :: TimeCondition where
  "createEmptyTimeCondition = \<lparr>tm_timeFunc = js ''hour'', tm_timezone = js ''Asia/Shanghai'',
     tm_mode = MATCH_GTE, tm_value = [], tm_rangeStart = [], tm_rangeEnd = []\<rparr>"

definition createEmptyRuleGroup :: RequestRuleGroup where
  "createEmptyRuleGroup = \<lparr>rg_conditions = [ParamHeader createEmptyCondition], rg_multiplier = []\<rparr>"

definition createEmptyTimeRuleGroup :: RequestRuleGroup where
  "createEmptyTimeRuleGroup = \<lparr>rg_conditions = [Time createEmptyTimeCondition], rg_multiplier = []\<rparr>"

record MatchOption =
  mo_value :: jsstr
  mo_labelKey :: jsstr

definition mkOption :: "jsstr \<Rightarrow> string \<Rightarrow> MatchOption" where
  "mkOption v l = \<lparr>mo_value = v, mo_labelKey = js l\<rparr>"

definition getRequestRuleMatchOptions :: "jsstr \<Rightarrow> MatchOption list" where
  "getRequestRuleMatchOptions source =
     (if source = SOURCE_TIME then
        [mkOption MATCH_EQ ''Equals'', mkOption MATCH_GTE ''Greater than or equal'',
         mkOption MATCH_LT ''Less than'', mkOption MATCH_RANGE ''Overnight range'']
      else let base = [mkOption MATCH_EQ ''Equals'', mkOption MATCH_CONTAINS ''Contains'',
         mkOption MATCH_EXISTS ''Exists''] in
      if source = SOURCE_HEADER then base
      else base @ [mkOption MATCH_GT ''Greater than'', mkOption MATCH_GTE ''Greater than or equal'',
         mkOption MATCH_LT ''Less than'', mkOption MATCH_LTE ''Less than or equal''])"

definition isTimeFunc :: "jsstr option \<Rightarrow> bool" where
  "isTimeFunc value = (case value of Some v \<Rightarrow> v \<in> set TIME_FUNCS | None \<Rightarrow> False)"

text \<open>A condition some of whose fields may be missing.\<close>

record PartialCondition =
  pc_source :: "jsstr option"
  pc_path :: "jsstr option"
  pc_timeFunc :: "jsstr option"
  pc_timezone :: "jsstr option"
  pc_mode :: "jsstr option"
  pc_value :: "jsstr option"
  pc_rangeStart :: "jsstr option"
  pc_rangeEnd :: "jsstr option"

definition pc_empty :: PartialCondition where
  "pc_empty = \<lparr>pc_source = None, pc_path = None, pc_timeFunc = None, pc_timezone = None, pc_mode = None,
     pc_value = None, pc_rangeStart = None, pc_rangeEnd = None\<rparr>"

fun partialOf :: "RequestCondition \<Rightarrow> PartialCondition" where
  "partialOf (Time t) = pc_empty\<lparr>pc_source := Some SOURCE_TIME, pc_timeFunc := Some (tm_timeFunc t),
     pc_timezone := Some (tm_timezone t), pc_mode := Some (tm_mode t), pc_value := Some (tm_value t),
     pc_rangeStart := Some (tm_rangeStart t), pc_rangeEnd := Some (tm_rangeEnd t)\<rparr>"
| "partialOf (ParamHeader p) = pc_empty\<lparr>pc_source := Some (ph_source p), pc_path := Some (ph_path p),
     pc_mode := Some (ph_mode p), pc_value := Some (ph_value p)\<rparr>"

definition normalizeMode :: "jsstr \<Rightarrow> jsstr option \<Rightarrow> jsstr \<Rightarrow> jsstr" where
  "normalizeMode source mode fallback =
     (case mode of
        Some m \<Rightarrow> if list_ex (\<lambda>item. mo_value item = m) (getRequestRuleMatchOptions source) then m else fallback
      | None \<Rightarrow> fallback)"

definition normalizeCondition :: "PartialCondition option \<Rightarrow> RequestCondition" where
  "normalizeCondition cond =
     (let c = (case cond of Some c \<Rightarrow> c | None \<Rightarrow> pc_empty);
          source = (if pc_source c = Some SOURCE_TIME then SOURCE_TIME
                    else if pc_source c = Some SOURCE_HEADER then SOURCE_HEADER else SOURCE_PARAM) in
      if source = SOURCE_TIME then
        Time \<lparr>tm_timeFunc = (if isTimeFunc (pc_timeFunc c) then the (pc_timeFunc c) else js ''hour''),
          tm_timezone = or_default (pc_timezone c) (js ''Asia/Shanghai''),
          tm_mode = normalizeMode SOURCE_TIME (pc_mode c) MATCH_GTE,
          tm_value = or_empty (pc_value c), tm_rangeStart = or_empty (pc_rangeStart c),
          tm_rangeEnd = or_empty (pc_rangeEnd c)\<rparr>
      else ParamHeader \<lparr>ph_source = source, ph_path = or_empty (pc_path c),
          ph_mode = normalizeMode source (pc_mode c) MATCH_EQ, ph_value = or_empty (pc_value c)\<rparr>)"

section \<open>Building expressions\<close>

definition buildExprLiteral :: "jsstr \<Rightarrow> jsstr \<Rightarrow> jsstr" where
  "buildExprLiteral mode value =
     (let text = trim value in
      if mode = MATCH_CONTAINS then json_quote text
      else if text = js ''true'' \<or> text = js ''false'' then text
      else if NUMERIC_LITERAL_REGEX text then text else json_quote text)"

definition buildTimeExpr :: "TimeCondition \<Rightarrow> jsstr" where
  "buildTimeExpr n =
     (let fnn = tm_timeFunc n @ js ''('' @ json_quote (tm_timezone n) @ js '')'' in
      if tm_mode n = MATCH_RANGE then
        (let s = trim (tm_rangeStart n); e = trim (tm_rangeEnd n) in
         if \<not> NUMERIC_LITERAL_REGEX s \<or> \<not> NUMERIC_LITERAL_REGEX e then []
         else fnn @ js '' >= '' @ s @ js '' || '' @ fnn @ js '' < '' @ e)
      else
        (let v = trim (tm_value n) in
         if \<not> NUMERIC_LITERAL_REGEX v then []
         else fnn @ js '' '' @
           (if tm_mode n = MATCH_EQ then js ''=='' else if tm_mode n = MATCH_GTE then js ''>=''
            else if tm_mode n = MATCH_LT then js ''<'' else js ''=='') @ js '' '' @ v))"

text \<open>The cast after \<open>normalizeCondition\<close>: a time condition stays a time condition.\<close>

definition buildTimeConditionExpr :: "TimeCondition \<Rightarrow> jsstr" where
  "buildTimeConditionExpr cond =
     (case normalizeCondition (Some (partialOf (Time cond))) of Time n \<Rightarrow> buildTimeExpr n | ParamHeader _ \<Rightarrow> [])"

definition buildParamHeaderExpr :: "ParamHeaderCondition \<Rightarrow> jsstr" where
  "buildParamHeaderExpr n =
     (let path = trim (ph_path n);
          header = (ph_source n = SOURCE_HEADER);
          sourceExpr = (if header then js ''header('' else js ''param('') @ json_quote path @ js '')'' in
      if path = [] then []
      else if ph_mode n = MATCH_EXISTS then
        sourceExpr @ (if header then js '' != \"\"'' else js '' != nil'')
      else if ph_mode n = MATCH_CONTAINS then
        (let has_call = js ''has('' @ sourceExpr @ js '', '' @ buildExprLiteral (ph_mode n) (ph_value n) @ js '')'' in
         if header then has_call else sourceExpr @ js '' != nil && '' @ has_call)
      else if ph_mode n \<in> {MATCH_GT, MATCH_GTE, MATCH_LT, MATCH_LTE} then
        (let numText = trim (ph_value n) in
         if \<not> NUMERIC_LITERAL_REGEX numText then []
         else sourceExpr @ js '' != nil && '' @ sourceExpr @ js '' '' @
           (if ph_mode n = MATCH_GT then js ''>'' else if ph_mode n = MATCH_GTE then js ''>=''
            else if ph_mode n = MATCH_LT then js ''<'' else js ''<='') @ js '' '' @ numText)
      else sourceExpr @ js '' == '' @ buildExprLiteral (ph_mode n) (ph_value n))"

fun buildRequestConditionExpr :: "RequestCondition \<Rightarrow> jsstr" where
  "buildRequestConditionExpr (Time t) = buildTimeConditionExpr t"
| "buildRequestConditionExpr (ParamHeader p) =
     (case normalizeCondition (Some (partialOf (ParamHeader p))) of ParamHeader n \<Rightarrow> buildParamHeaderExpr n
      | Time _ \<Rightarrow> [])"

definition buildRuleGroupFactor :: "RequestRuleGroup \<Rightarrow> jsstr" where
  "buildRuleGroupFactor g =
     (let multiplier = trim (rg_multiplier g) in
      if \<not> NUMERIC_LITERAL_REGEX multiplier then []
      else let condExprs = filter (\<lambda>e. e \<noteq> []) (map buildRequestConditionExpr (rg_conditions g)) in
      if condExprs = [] then []
      else let combined = (if length condExprs = 1 then hd condExprs
             else join (js '' && '') (map (\<lambda>e. if str_includes e (js '' || '') then js ''('' @ e @ js '')'' else e) condExprs)) in
      js ''('' @ combined @ js '' ? '' @ multiplier @ js '' : 1)'')"

definition buildRequestRuleExpr :: "RequestRuleGroup list \<Rightarrow> jsstr" where
  "buildRequestRuleExpr groups = join (js '' * '') (filter (\<lambda>f. f \<noteq> []) (map buildRuleGroupFactor groups))"

end
