(* ===== verification/Rule_Texts.thy ===== *)
theory Rule_Texts
  imports Request_Rules
begin

text \<open>
  The texts of single conditions: where a joined text splits again, what each pattern of
  \<open>tryParseRequestCondition\<close> makes of the text of each kind of condition, and which
  characters such a text is made of.
\<close>

section \<open>Splitting and joining\<close>

lemma splitLoop_part:
  assumes "k \<notin> set p" and "k \<noteq> 32" and "s = [] \<or> hd s = 32"
  shows "splitLoop (32 # k # l) d cur (p @ s) = splitLoop (32 # k # l) (foldl paren_depth d p) (rev p @ cur) s"
  using assms(1)
proof (induction p arbitrary: d cur)
  case (Cons c p)
  have "\<not> starts_with (c # p @ s) (32 # k # l)"
    using Cons.prems assms(2,3) by (cases p; cases s) (auto simp: starts_with_Cons)
  with Cons show ?case by (simp add: Let_def)
qed simp

lemma splitLoop_sep:
  "splitLoop (32 # k # l) 0 cur ((32 # k # l) @ s) = trim (rev cur) # splitLoop (32 # k # l) 0 [] s"
  by (simp add: Let_def paren_depth_def starts_with_Cons)

text \<open>A part of a product or conjunction: no separator character, parentheses in balance.\<close>

definition closed_part :: "code_unit \<Rightarrow> jsstr \<Rightarrow> bool" where
  "closed_part k p \<longleftrightarrow> k \<notin> set p \<and> foldl paren_depth 0 p = 0 \<and> p \<noteq> [] \<and> trim p = p"

lemma splitLoop_join:
  assumes "\<forall>p \<in> set ps. closed_part k p" and "ps \<noteq> []" and "k \<noteq> 32"
  shows "splitLoop (32 # k # l) 0 [] (join (32 # k # l) ps) = ps"
  using assms(1,2)
proof (induction ps)
  case (Cons p ps)
  have p: "k \<notin> set p" "foldl paren_depth 0 p = 0" "trim p = p"
    using Cons.prems by (auto simp: closed_part_def)
  show ?case
  proof (cases "ps = []")
    case True
    with splitLoop_part [OF p(1) assms(3), of "[]" l 0 "[]"] p show ?thesis by simp
  next
    case False
    with Cons have "splitLoop (32 # k # l) 0 [] (join (32 # k # l) ps) = ps" by simp
    with False splitLoop_part [OF p(1) assms(3), of "(32 # k # l) @ join (32 # k # l) ps" l 0 "[]"] p
    show ?thesis by (simp add: join_Cons splitLoop_sep del: append_Cons splitLoop.simps)
  qed
qed simp

lemma closed_parts_filter: "\<forall>p \<in> set ps. closed_part k p \<Longrightarrow> filter (\<lambda>p. p \<noteq> []) ps = ps"
  by (rule filter_True) (auto simp: closed_part_def)

lemma sep_literals: "js '' * '' = [32, 42, 32]" "js '' && '' = [32, 38, 38, 32]"
  by (simp_all add: js_simps)

lemma splitTopLevelMultiply_join:
  "\<forall>p \<in> set ps. closed_part 42 p \<Longrightarrow> ps \<noteq> [] \<Longrightarrow> splitTopLevelMultiply (join (js '' * '') ps) = ps"
  by (simp add: splitTopLevelMultiply_def sep_literals splitLoop_join closed_parts_filter)

lemma splitTopLevelAnd_join:
  "\<forall>p \<in> set ps. closed_part 38 p \<Longrightarrow> ps \<noteq> [] \<Longrightarrow> splitTopLevelAnd (join (js '' && '') ps) = ps"
  by (simp add: splitTopLevelAnd_def sep_literals splitLoop_join closed_parts_filter)

section \<open>Numeric literals\<close>

lemma numeric_reads: "reads num_char (rx_seq numeric_literal_rx)"
  unfolding numeric_literal_rx_def
  by (intro reads_intros) (auto simp: num_char_def js_simps)

lemma numeric_chars: "NUMERIC_LITERAL_REGEX s \<Longrightarrow> list_all num_char s"
  unfolding NUMERIC_LITERAL_REGEX_def by (rule rx_match_reads [OF _ numeric_reads])

lemma num_char_not: "num_char c \<Longrightarrow> c \<noteq> 34 \<and> c \<noteq> 92 \<and> c \<noteq> 40 \<and> c \<noteq> 41 \<and> c \<noteq> 38 \<and> c \<noteq> 42 \<and> c \<noteq> 124 \<and> c \<noteq> 63 \<and> c \<noteq> 32 \<and> \<not> is_ws c \<and> not_newline c"
  by (auto simp: num_char_def is_digit_def is_ws_def not_newline_def)

lemma not_numeric_Nil: "\<not> NUMERIC_LITERAL_REGEX []"
  by (simp add: NUMERIC_LITERAL_REGEX_def rx_match_def numeric_literal_rx_def rx_opt_def js_simps rx_seq.simps(2))

lemma numeric_ne: "NUMERIC_LITERAL_REGEX s \<Longrightarrow> s \<noteq> []"
  using not_numeric_Nil by auto

lemma numeric_trim: "NUMERIC_LITERAL_REGEX s \<Longrightarrow> trim s = s"
proof (rule trim_id)
  assume n: "NUMERIC_LITERAL_REGEX s"
  from numeric_chars [OF n] numeric_ne [OF n] show "s = [] \<or> (\<not> is_ws (hd s) \<and> \<not> is_ws (last s))"
    by (auto simp: list_all_iff num_char_not)
qed

section \<open>The factor of a rule group\<close>

lemma factor_parse:
  assumes "list_all num_char m" and "m \<noteq> []" and "e \<noteq> []"
  shows "\<exists>c. rx_match factor_rx (js ''('' @ e @ js '' ? '' @ m @ js '' : 1)'') = Some c \<and> capture c 1 = e \<and> capture c 2 = m"
proof -
  let ?s = "js '' ? '' @ m @ js '' : 1)''"
  let ?rs = "[rx_lit (js '' ? ''), rx_cap 2 (rx_some num_char), rx_lit (js '' : 1)''), rx_end]"
  have q: "63 \<notin> set (drop 2 ?s)"
    using assms(1) by (auto simp: js_simps list_all_iff dest: num_char_not)
  have "rx_seq ?rs (c, v) = []" if uv: "?s = u @ v" "u \<noteq> []" for u v c
  proof -
    have "\<not> starts_with v (js '' ? '')"
    proof
      assume "starts_with v (js '' ? '')"
      then obtain w where "v = js '' ? '' @ w" by (auto simp: starts_with_iff)
      then have "?s = (u @ [32]) @ 63 # 32 # w" using uv(1) by (simp add: js_simps)
      moreover have "2 \<le> length (u @ [32])" using uv(2) by (cases u) auto
      ultimately have "63 \<in> set (drop 2 ?s)" by (simp only: drop_append) simp
      with q show False by simp
    qed
    then show ?thesis by (simp add: rx_step_lit)
  qed
  then obtain r where "rx_seq (rx_cap 1 (rx_some (\<lambda>_. True)) # ?rs) ([], e @ ?s) = rx_seq ?rs ([(1, e)], ?s) @ r"
    using rx_cap_some_last [of "\<lambda>_. True" e ?s ?rs 1 "[]"] assms(3) by (auto simp: list_all_iff)
  moreover have "rx_seq ?rs ([(1, e)], ?s) = [([(2, m), (1, e)], [])]"
    using assms by (simp add: js_simps rx_simps rx_cap_some_skip num_char_def is_digit_def)
  ultimately show ?thesis
    by (simp add: rx_match_def factor_rx_def rx_step_lit)
qed

section \<open>Conditions that can be read back\<close>

text \<open>
  Characters that neither the quoting nor the splitting treats specially: no control
  characters, no quote or backslash, no parenthesis, ampersand, star or bar.
\<close>

definition plain :: "code_unit \<Rightarrow> bool" where
  "plain c \<longleftrightarrow> 32 \<le> c \<and> c \<notin> {34, 92, 40, 41, 38, 42, 124, 8232, 8233}"

definition plain_text :: "jsstr \<Rightarrow> bool" where
  "plain_text s \<longleftrightarrow> list_all plain s \<and> quote_units s = s \<and> trim s = s"

fun readable_condition :: "RequestCondition \<Rightarrow> bool" where
  "readable_condition (Time t) \<longleftrightarrow>
     tm_timeFunc t \<in> set TIME_FUNCS \<and> tm_timezone t \<noteq> [] \<and> plain_text (tm_timezone t) \<and>
     (if tm_mode t = MATCH_RANGE
      then tm_value t = [] \<and> NUMERIC_LITERAL_REGEX (tm_rangeStart t) \<and> NUMERIC_LITERAL_REGEX (tm_rangeEnd t)
      else tm_mode t \<in> {MATCH_EQ, MATCH_GTE, MATCH_LT} \<and> NUMERIC_LITERAL_REGEX (tm_value t) \<and>
        tm_rangeStart t = [] \<and> tm_rangeEnd t = [])"
| "readable_condition (ParamHeader p) \<longleftrightarrow>
     ph_source p \<in> {SOURCE_PARAM, SOURCE_HEADER} \<and> ph_path p \<noteq> [] \<and> plain_text (ph_path p) \<and>
     (ph_mode p = MATCH_EXISTS \<and> ph_value p = [] \<or>
      ph_mode p = MATCH_EQ \<and> plain_text (ph_value p) \<or>
      ph_mode p = MATCH_CONTAINS \<and> ph_source p = SOURCE_HEADER \<and> plain_text (ph_value p))"

lemma plain_text_quote: "plain_text s \<Longrightarrow> json_quote s = 34 # s @ [34]"
  by (simp add: plain_text_def json_quote_def)

lemma plain_not_quote: "plain_text s \<Longrightarrow> list_all not_quote s"
  by (auto simp: plain_text_def list_all_iff plain_def not_quote_def)

lemma not_quote_34 [simp]: "\<not> not_quote 34"
  by (simp add: not_quote_def)

text \<open>The patterns on a quoted path and on a number.\<close>

lemma rx_path [rx_simps]:
  assumes "plain_text a" and "a \<noteq> []"
  shows "rx_seq (rx_cap n (rx_some not_quote) # rx_lit (34 # l) # rs) (c, a @ 34 # s) =
    rx_seq (rx_lit (34 # l) # rs) ((n, a) # c, 34 # s)"
  using assms by (intro rx_cap_some_skip) (simp_all add: plain_not_quote rx_simps)

lemma rx_number [rx_simps]:
  assumes "NUMERIC_LITERAL_REGEX a"
  shows "rx_seq (rx_cap n (rx_some num_char) # rx_lit (32 # l) # rs) (c, a @ 32 # s) =
      rx_seq (rx_lit (32 # l) # rs) ((n, a) # c, 32 # s)"
    and "rx_seq (rx_cap n (rx_some num_char) # rx_lit (32 # l) # rs) (c, a) = []"
    and "rx_seq (rx_cap n (rx_some num_char) # rx_lit (41 # l) # rs) (c, a @ 41 # s) =
      rx_seq (rx_lit (41 # l) # rs) ((n, a) # c, 41 # s)"
    and "rx_seq [rx_cap n (rx_some num_char), rx_end] (c, a) = [((n, a) # c, [])]"
proof -
  note a = numeric_chars [OF assms] numeric_ne [OF assms]
  have no: "\<not> num_char 32" "\<not> num_char 41" by (simp_all add: num_char_def is_digit_def)
  show "rx_seq (rx_cap n (rx_some num_char) # rx_lit (32 # l) # rs) (c, a @ 32 # s) =
      rx_seq (rx_lit (32 # l) # rs) ((n, a) # c, 32 # s)"
    using a no by (intro rx_cap_some_skip) (simp_all add: rx_simps)
  show "rx_seq (rx_cap n (rx_some num_char) # rx_lit (41 # l) # rs) (c, a @ 41 # s) =
      rx_seq (rx_lit (41 # l) # rs) ((n, a) # c, 41 # s)"
    using a no by (intro rx_cap_some_skip) (simp_all add: rx_simps)
  show "rx_seq (rx_cap n (rx_some num_char) # rx_lit (32 # l) # rs) (c, a) = []"
    using rx_cap_some_skip [OF a, of "rx_lit (32 # l) # rs" "[]" n c] no by (simp add: rx_simps)
  show "rx_seq [rx_cap n (rx_some num_char), rx_end] (c, a) = [((n, a) # c, [])]"
    by (rule rx_step_some_end [OF a])
qed

lemmas rx_eval = rx_match_def rx_simps js_simps

lemma rx_time_func [rx_simps]:
  assumes "f \<in> set TIME_FUNCS"
  shows "rx_seq (rx_cap n time_func_rx # rx_lit (40 # l) # rs) (c, f @ 40 # s) =
    rx_seq (rx_lit (40 # l) # rs) ((n, f) # c, 40 # s)"
proof -
  consider "f = js ''hour''" | "f = js ''minute''" | "f = js ''weekday''" | "f = js ''month''" | "f = js ''day''"
    using assms by (auto simp: TIME_FUNCS_def)
  then show ?thesis
    by cases (simp_all add: time_func_rx_def TIME_FUNCS_def rx_step_alt_Cons rx_step_alt_Nil js_simps)
qed

lemma time_range_parse:
  assumes "f \<in> set TIME_FUNCS" "plain_text z" "z \<noteq> []" "NUMERIC_LITERAL_REGEX s" "NUMERIC_LITERAL_REGEX e"
  shows "rx_seq (time_range_rx @ [rx_end])
      ([], f @ [40, 34] @ z @ [34, 41] @ js '' >= '' @ s @ js '' || '' @ f @ [40, 34] @ z @ [34, 41] @ js '' < '' @ e) =
      [([(4, e), (3, s), (2, z), (1, f)], [])]"
  using assms by (simp add: time_range_rx_def rx_simps js_simps)

lemma time_range_paren_parse:
  assumes "f \<in> set TIME_FUNCS" "plain_text z" "z \<noteq> []" "NUMERIC_LITERAL_REGEX s" "NUMERIC_LITERAL_REGEX e"
  shows "rx_seq ((rx_lit (js ''('') # time_range_rx @ [rx_lit (js '')'')]) @ [rx_end])
      ([], js ''('' @ f @ [40, 34] @ z @ [34, 41] @ js '' >= '' @ s @ js '' || '' @ f @ [40, 34] @ z @ [34, 41] @ js '' < '' @ e @ js '')'') =
      [([(4, e), (3, s), (2, z), (1, f)], [])]"
  using assms by (simp add: time_range_rx_def rx_simps js_simps)

lemma time_range_compare_fail:
  assumes "f \<in> set TIME_FUNCS" "plain_text z" "z \<noteq> []" "NUMERIC_LITERAL_REGEX v"
  and "opr \<in> {js ''=='', js ''>='', js ''<''}"
  shows "rx_seq (time_range_rx @ [rx_end]) ([], f @ [40, 34] @ z @ [34, 41, 32] @ opr @ 32 # v) = []"
  using assms(5)
  by (elim insertE emptyE) (use assms(1-4) in \<open>simp add: time_range_rx_def rx_simps js_simps\<close>)+

lemma time_func_paren_fail:
  assumes "f \<in> set TIME_FUNCS"
  shows "rx_seq ((rx_lit (js ''('') # rs) @ [rx_end]) (c, f @ s) = []"
proof -
  have "\<not> starts_with (f @ s) (js ''('')" 
    using assms by (auto simp: TIME_FUNCS_def js_simps)
  then show ?thesis by (simp add: rx_step_lit)
qed

lemma time_compare_parse:
  assumes "f \<in> set TIME_FUNCS" "plain_text z" "z \<noteq> []" "NUMERIC_LITERAL_REGEX v"
  and "opr \<in> {js ''=='', js ''>='', js ''<''}"
  shows "rx_seq (time_compare_rx @ [rx_end]) ([], f @ [40, 34] @ z @ [34, 41, 32] @ opr @ 32 # v) =
    [([(4, v), (3, opr), (2, z), (1, f)], [])]"
  using assms(5)
  by (elim insertE emptyE) (use assms(1-4) in \<open>simp add: time_compare_rx_def rx_simps js_simps\<close>)+

lemma tryParseTime_none:
  "tryParseTimeCondition (js ''header'' @ s) = None"
  "tryParseTimeCondition (js ''param'' @ s) = None"
  "tryParseTimeCondition (js ''has('' @ s) = None"
  by (simp_all add: tryParseTimeCondition_def rx_match_def time_range_rx_def time_compare_rx_def
      time_func_rx_def TIME_FUNCS_def rx_simps js_simps)

definition exists_text :: "bool \<Rightarrow> jsstr \<Rightarrow> jsstr" where
  "exists_text h p = (if h then js ''header'' else js ''param'') @ [40, 34] @ p @ [34, 41] @ (if h then js '' != \"\"'' else js '' != nil'')"

definition equals_text :: "bool \<Rightarrow> jsstr \<Rightarrow> jsstr \<Rightarrow> jsstr" where
  "equals_text h p l = (if h then js ''header'' else js ''param'') @ [40, 34] @ p @ [34, 41] @ js '' == '' @ l"

definition contains_text :: "jsstr \<Rightarrow> jsstr \<Rightarrow> jsstr" where
  "contains_text p v = js ''has('' @ js ''header'' @ [40, 34] @ p @ [34, 41] @ js '', '' @ [34] @ v @ [34, 41]"

definition source_of :: "bool \<Rightarrow> jsstr" where
  "source_of h = (if h then SOURCE_HEADER else SOURCE_PARAM)"

lemma exists_parse:
  assumes "plain_text p" "p \<noteq> []"
  shows "tryParseRequestCondition nt (exists_text h p) = Inr (Some (mkCondition (source_of h) p MATCH_EXISTS []))"
proof (cases h)
  case True
  then show ?thesis using assms
    by (simp add: tryParseRequestCondition_def exists_text_def tryParseTime_none source_of_def)
      (simp add: header_exists_rx_def rx_match_def rx_simps js_simps)
next
  case False
  have "rx_match header_exists_rx (exists_text False p) = None"
    by (simp add: exists_text_def header_exists_rx_def rx_match_def rx_simps js_simps)
  with False assms show ?thesis
    by (simp add: tryParseRequestCondition_def exists_text_def tryParseTime_none source_of_def)
      (simp add: param_exists_rx_def rx_match_def rx_simps js_simps)
qed

lemma equals_others_fail:
  assumes "plain_text p" "p \<noteq> []"
  shows "rx_match header_exists_rx (equals_text h p l) = None"
    "rx_match param_exists_rx (equals_text h p l) = None"
    "rx_match header_contains_rx (equals_text h p l) = None"
    "rx_match param_contains_rx (equals_text h p l) = None"
    "rx_match param_compare_rx (equals_text h p l) = None"
  using assms by (cases h; simp add: rx_match_def equals_text_def header_exists_rx_def param_exists_rx_def
      header_contains_rx_def param_contains_rx_def param_compare_rx_def rx_simps js_simps)+

lemma equals_match:
  assumes "plain_text p" "p \<noteq> []" "list_all not_newline l" "l \<noteq> []"
  shows "rx_match equals_rx (equals_text h p l) = Some [(3, l), (2, p), (1, if h then js ''header'' else js ''param'')]"
  using assms by (cases h; simp add: rx_match_def equals_text_def equals_rx_def rx_simps rx_step_some_end js_simps)

lemma equals_parse:
  assumes "plain_text p" "p \<noteq> []" "list_all not_newline l" "l \<noteq> []" "parseExprLiteral l = Some (JStr v)"
  shows "tryParseRequestCondition nt (equals_text h p l) = Inr (Some (mkCondition (source_of h) p MATCH_EQ v))"
proof -
  have "tryParseTimeCondition (equals_text h p l) = None"
    by (cases h) (simp_all add: equals_text_def tryParseTime_none)
  with assms show ?thesis
    by (simp add: tryParseRequestCondition_def equals_others_fail sameParam_def equalsCondition_def equals_match
        source_of_def source_defs)
qed

lemma equals_literal:
  assumes "plain_text v"
  defines "l \<equiv> buildExprLiteral MATCH_EQ v"
  shows "parseExprLiteral l = Some (JStr v) \<and> l \<noteq> [] \<and> list_all not_newline l \<and>
    list_all (\<lambda>c. c \<notin> {40, 41, 38, 42, 124}) l \<and> \<not> is_ws (last l)"
proof -
  have v: "trim v = v" "list_all plain v" using assms by (simp_all add: plain_text_def)
  have mode: "MATCH_EQ \<noteq> MATCH_CONTAINS" by (simp add: match_defs js_simps)
  consider "v = js ''true'' \<or> v = js ''false''" | "v \<noteq> js ''true''" "v \<noteq> js ''false''" "NUMERIC_LITERAL_REGEX v"
    | "v \<noteq> js ''true''" "v \<noteq> js ''false''" "\<not> NUMERIC_LITERAL_REGEX v" by blast
  then show ?thesis
  proof cases
    case 1
    then have "l = v" "v \<noteq> []" using v mode by (auto simp: l_def buildExprLiteral_def js_simps)
    moreover from 1 have "parseExprLiteral v = Some (JStr v)" using v by (simp add: parseExprLiteral_def)
    ultimately show ?thesis using 1 by (auto simp: js_simps not_newline_def is_ws_def)
  next
    case 2
    then have "l = v" using v mode by (simp add: l_def buildExprLiteral_def)
    moreover from 2 have "parseExprLiteral v = Some (JStr v)" using v by (simp add: parseExprLiteral_def)
    ultimately show ?thesis using numeric_chars [OF 2(3)] numeric_ne [OF 2(3)]
      by (auto simp: list_all_iff dest: num_char_not)
  next
    case 3
    then have l: "l = json_quote v" using v mode by (simp add: l_def buildExprLiteral_def)
    have q: "json_quote v = 34 # v @ [34]" by (rule plain_text_quote [OF assms(1)])
    have "\<not> NUMERIC_LITERAL_REGEX (json_quote v)"
      using numeric_chars [of "json_quote v"] q by (auto simp: num_char_def is_digit_def)
    moreover have "trim (json_quote v) = json_quote v" by (rule trim_id) (simp add: q is_ws_def)
    moreover have "json_quote v \<noteq> js ''true''" "json_quote v \<noteq> js ''false''" by (simp_all add: q js_simps)
    ultimately have "parseExprLiteral l = Some (JStr v)"
      by (simp add: l parseExprLiteral_def json_parse_quote)
    moreover have "list_all not_newline v" "list_all (\<lambda>c. c \<notin> {40, 41, 38, 42, 124}) v"
      using v(2) by (rule list_all_mono; simp add: plain_def not_newline_def)+
    ultimately show ?thesis by (simp add: l q not_newline_def is_ws_def)
  qed
qed

section \<open>The quoted value of a containment\<close>

definition string_unit_rx :: rx where
  "string_unit_rx = rx_alt [rx_one (\<lambda>c. c \<noteq> 34 \<and> c \<noteq> 92), rx_seq [rx_lit [92], rx_one not_newline]]"

lemma string_unit_step:
  "92 \<notin> set s \<Longrightarrow> string_unit_rx (c, s) = (case s of [] \<Rightarrow> [] | x # r \<Rightarrow> if x \<noteq> 34 then [(c, r)] else [])"
  by (cases s) (auto simp: string_unit_rx_def rx_simps starts_with_Cons)

lemma string_units_greedy:
  "92 \<notin> set s \<Longrightarrow> length s \<le> n \<Longrightarrow> rx_iter n string_unit_rx (c, s) = map (Pair c) (greedy (\<lambda>x. x \<noteq> 34) s)"
proof (induction s arbitrary: n)
  case Nil
  then show ?case by (cases n) (simp_all add: string_unit_step)
next
  case (Cons x s)
  then obtain k where "n = Suc k" by (cases n) auto
  with Cons show ?case by (simp add: string_unit_step)
qed

lemma string_rx_step:
  "string_rx (c, 34 # s) = concat (map (rx_seq [rx_lit [34]]) (rx_star string_unit_rx (c, s)))"
proof -
  have "string_rx (c, 34 # s) = rx_seq [rx_star string_unit_rx, rx_lit [34]] (c, s)"
    by (simp add: string_rx_def string_unit_rx_def rx_step_lit starts_with_Cons)
  then show ?thesis by (simp only: rx_seq.simps(2) [of "rx_star string_unit_rx"])
qed

lemma contains_match:
  assumes "plain_text p" "p \<noteq> []" "plain_text v"
  shows "rx_match header_contains_rx (contains_text p v) = Some [(2, 34 # v @ [34]), (1, p)]"
proof -
  have v: "92 \<notin> set v" "list_all (\<lambda>x. x \<noteq> 34) v" using assms(3) by (auto simp: plain_text_def plain_def list_all_iff)
  define f where "f t = rx_seq [rx_lit [34]] ([(1, p)], t)" for t :: jsstr
  have "concat (map f (greedy (\<lambda>x. x \<noteq> 34) (v @ [34, 41]))) = concat (map f (greedy (\<lambda>x. x \<noteq> 34) [34, 41]))"
    by (rule greedy_skip [OF v(2)]) (simp add: f_def rx_simps starts_with_Cons)
  then have "concat (map (rx_seq [rx_lit [34]]) (map (Pair [(1, p)]) (greedy (\<lambda>x. x \<noteq> 34) (v @ [34, 41])))) = [([(1, p)], [41])]"
    by (simp add: f_def [abs_def] comp_def rx_simps starts_with_Cons)
  moreover have "rx_star string_unit_rx ([(1, p)], v @ [34, 41]) = map (Pair [(1, p)]) (greedy (\<lambda>x. x \<noteq> 34) (v @ [34, 41]))"
    using v(1) by (simp add: rx_star_def string_units_greedy del: rx_iter.simps)
  ultimately have "string_rx ([(1, p)], 34 # v @ [34, 41]) = [([(1, p)], [41])]"
    by (simp only: string_rx_step)
  then have "rx_seq [rx_cap 2 string_rx, rx_lit [41], rx_end] ([(1, p)], 34 # v @ [34, 41]) = [([(2, 34 # v @ [34]), (1, p)], [])]"
    by (simp add: rx_seq.simps(2) rx_cap_def starts_with_Cons)
  with assms show ?thesis
    by (simp add: rx_match_def header_contains_rx_def contains_text_def rx_simps js_simps)
qed

lemma contains_parse:
  assumes "plain_text p" "p \<noteq> []" "plain_text v"
  shows "tryParseRequestCondition nt (contains_text p v) = Inr (Some (mkCondition SOURCE_HEADER p MATCH_CONTAINS v))"
proof -
  have "tryParseTimeCondition (contains_text p v) = None"
    by (simp add: contains_text_def tryParseTime_none)
  moreover have "rx_match header_exists_rx (contains_text p v) = None" "rx_match param_exists_rx (contains_text p v) = None"
    by (simp_all add: rx_match_def header_exists_rx_def param_exists_rx_def contains_text_def rx_simps js_simps)
  moreover have "json_parse (34 # v @ [34]) = Some (JStr v)"
    using json_parse_quote [of v] plain_text_quote [OF assms(3)] by simp
  ultimately show ?thesis
    by (simp add: tryParseRequestCondition_def contains_match [OF assms] containsCondition_def)
qed

section \<open>From conditions to texts\<close>

lemma foldl_depth_plain: "40 \<notin> set s \<Longrightarrow> 41 \<notin> set s \<Longrightarrow> foldl paren_depth d s = d"
  by (induction s) (auto simp: paren_depth_def)

lemma depth_step [simp]: "paren_depth d 40 = d + 1" "paren_depth d 41 = d - 1"
  by (simp_all add: paren_depth_def)

lemma depth_other: "c \<noteq> 40 \<Longrightarrow> c \<noteq> 41 \<Longrightarrow> paren_depth d c = d"
  by (simp add: paren_depth_def)

text \<open>A text that is a part of a conjunction and of a product, and that trimming keeps.\<close>

definition condition_text :: "jsstr \<Rightarrow> bool" where
  "condition_text e \<longleftrightarrow> e \<noteq> [] \<and> \<not> is_ws (hd e) \<and> \<not> is_ws (last e) \<and> 38 \<notin> set e \<and> 42 \<notin> set e \<and> foldl paren_depth 0 e = 0"

lemma condition_text_closed: "condition_text e \<Longrightarrow> closed_part 38 e \<and> closed_part 42 e"
  by (simp add: condition_text_def closed_part_def trim_id)

lemma foldl_depth_shift: "foldl paren_depth (d + n) e = foldl paren_depth d e + n"
proof (induction e arbitrary: d)
  case (Cons c e)
  have "paren_depth (d + n) c = paren_depth d c + n" by (simp add: paren_depth_def)
  with Cons show ?case by simp
qed simp

lemma condition_text_paren: "condition_text e \<Longrightarrow> condition_text (js ''('' @ e @ js '')'')"
  using foldl_depth_shift [of 0 1 e] by (simp add: condition_text_def js_simps is_ws_def)

lemma plain_text_chars: "plain_text s \<Longrightarrow> 40 \<notin> set s \<and> 41 \<notin> set s \<and> 38 \<notin> set s \<and> 42 \<notin> set s \<and> 124 \<notin> set s"
  by (auto simp: plain_text_def list_all_iff plain_def)

lemma numeric_text_chars:
  "NUMERIC_LITERAL_REGEX s \<Longrightarrow> 40 \<notin> set s \<and> 41 \<notin> set s \<and> 38 \<notin> set s \<and> 42 \<notin> set s \<and> 124 \<notin> set s \<and> s \<noteq> [] \<and> \<not> is_ws (last s)"
  using numeric_chars [of s] numeric_ne [of s] by (auto simp: list_all_iff dest: num_char_not)

lemma time_func_chars:
  assumes "f \<in> set TIME_FUNCS"
  shows "40 \<notin> set f \<and> 41 \<notin> set f \<and> 38 \<notin> set f \<and> 42 \<notin> set f \<and> 124 \<notin> set f \<and> f \<noteq> [] \<and> \<not> is_ws (hd f)"
proof -
  consider "f = js ''hour''" | "f = js ''minute''" | "f = js ''weekday''" | "f = js ''month''" | "f = js ''day''"
    using assms by (auto simp: TIME_FUNCS_def)
  then show ?thesis by cases (simp_all add: js_simps is_ws_def)
qed

lemma literal_chars:
  assumes "plain_text v"
  shows "40 \<notin> set (buildExprLiteral MATCH_EQ v) \<and> 41 \<notin> set (buildExprLiteral MATCH_EQ v) \<and>
    38 \<notin> set (buildExprLiteral MATCH_EQ v) \<and> 42 \<notin> set (buildExprLiteral MATCH_EQ v) \<and>
    124 \<notin> set (buildExprLiteral MATCH_EQ v) \<and> buildExprLiteral MATCH_EQ v \<noteq> [] \<and> \<not> is_ws (last (buildExprLiteral MATCH_EQ v))"
  using equals_literal [OF assms] by (auto simp: list_all_iff)

lemmas text_chars = plain_text_chars numeric_text_chars time_func_chars literal_chars

subsection \<open>The texts of the kinds of conditions\<close>

definition range_text :: "jsstr \<Rightarrow> jsstr \<Rightarrow> jsstr \<Rightarrow> jsstr \<Rightarrow> jsstr" where
  "range_text f z s e = f @ [40, 34] @ z @ [34, 41] @ js '' >= '' @ s @ js '' || '' @ f @ [40, 34] @ z @ [34, 41] @ js '' < '' @ e"

definition compare_text :: "jsstr \<Rightarrow> jsstr \<Rightarrow> jsstr \<Rightarrow> jsstr \<Rightarrow> jsstr" where
  "compare_text f z opr v = f @ [40, 34] @ z @ [34, 41, 32] @ opr @ 32 # v"

lemma range_condition_text:
  assumes "f \<in> set TIME_FUNCS" "plain_text z" "NUMERIC_LITERAL_REGEX s" "NUMERIC_LITERAL_REGEX e"
  shows "condition_text (range_text f z s e)"
  using time_func_chars [OF assms(1)] plain_text_chars [OF assms(2)] numeric_text_chars [OF assms(3)] numeric_text_chars [OF assms(4)]
  by (simp add: condition_text_def range_text_def js_simps foldl_depth_plain depth_other)

lemma compare_condition_text:
  assumes "f \<in> set TIME_FUNCS" "plain_text z" "NUMERIC_LITERAL_REGEX v" "opr \<in> {js ''=='', js ''>='', js ''<''}"
  shows "condition_text (compare_text f z opr v) \<and> 124 \<notin> set (compare_text f z opr v)"
proof -
  have o: "40 \<notin> set opr" "41 \<notin> set opr" "38 \<notin> set opr" "42 \<notin> set opr" "124 \<notin> set opr"
    using assms(4) by (auto simp: js_simps)
  show ?thesis
    using time_func_chars [OF assms(1)] plain_text_chars [OF assms(2)] numeric_text_chars [OF assms(3)] o
    by (simp add: condition_text_def compare_text_def js_simps foldl_depth_plain depth_other)
qed

lemma exists_condition_text:
  "plain_text p \<Longrightarrow> condition_text (exists_text h p) \<and> 124 \<notin> set (exists_text h p)"
  using plain_text_chars [of p]
  by (cases h) (simp_all add: condition_text_def exists_text_def js_simps foldl_depth_plain depth_other is_ws_def)

lemma equals_condition_text:
  "plain_text p \<Longrightarrow> plain_text v \<Longrightarrow> condition_text (equals_text h p (buildExprLiteral MATCH_EQ v)) \<and>
     124 \<notin> set (equals_text h p (buildExprLiteral MATCH_EQ v))"
  using plain_text_chars [of p] literal_chars [of v]
  by (cases h) (simp_all add: condition_text_def equals_text_def js_simps foldl_depth_plain depth_other is_ws_def)

lemma contains_condition_text:
  "plain_text p \<Longrightarrow> plain_text v \<Longrightarrow> condition_text (contains_text p v) \<and> 124 \<notin> set (contains_text p v)"
  using plain_text_chars [of p] plain_text_chars [of v]
  by (simp add: condition_text_def contains_text_def js_simps foldl_depth_plain depth_other is_ws_def)

lemma range_parse:
  assumes "f \<in> set TIME_FUNCS" "plain_text z" "z \<noteq> []" "NUMERIC_LITERAL_REGEX s" "NUMERIC_LITERAL_REGEX e"
  defines "c \<equiv> Time \<lparr>tm_timeFunc = f, tm_timezone = z, tm_mode = MATCH_RANGE, tm_value = [], tm_rangeStart = s, tm_rangeEnd = e\<rparr>"
  shows "tryParseRequestCondition nt (range_text f z s e) = Inr (Some c)"
    and "tryParseRequestCondition nt (js ''('' @ range_text f z s e @ js '')'') = Inr (Some c)"
proof -
  have "rx_match time_range_rx (range_text f z s e) = Some [(4, e), (3, s), (2, z), (1, f)]"
    using time_range_parse [OF assms(1-5)] by (simp add: rx_match_def range_text_def)
  then show "tryParseRequestCondition nt (range_text f z s e) = Inr (Some c)"
    by (simp add: tryParseRequestCondition_def tryParseTimeCondition_def rangeOf_def c_def)
  have "rx_match time_range_rx (js ''('' @ x) = None" for x
    by (simp add: rx_match_def time_range_rx_def time_func_rx_def TIME_FUNCS_def rx_simps js_simps)
  moreover have "rx_match (rx_lit (js ''('') # time_range_rx @ [rx_lit (js '')'')]) (js ''('' @ range_text f z s e @ js '')'') =
      Some [(4, e), (3, s), (2, z), (1, f)]"
    using time_range_paren_parse [OF assms(1-5)] by (simp add: rx_match_def range_text_def)
  ultimately show "tryParseRequestCondition nt (js ''('' @ range_text f z s e @ js '')'') = Inr (Some c)"
    by (simp add: tryParseRequestCondition_def tryParseTimeCondition_def rangeOf_def c_def)
qed

lemma compare_parse:
  assumes "f \<in> set TIME_FUNCS" "plain_text z" "z \<noteq> []" "NUMERIC_LITERAL_REGEX v" "opr \<in> {js ''=='', js ''>='', js ''<''}"
  shows "tryParseRequestCondition nt (compare_text f z opr v) =
    Inr (Some (Time \<lparr>tm_timeFunc = f, tm_timezone = z, tm_mode = timeOp opr, tm_value = v, tm_rangeStart = [], tm_rangeEnd = []\<rparr>))"
proof -
  have "rx_match time_range_rx (compare_text f z opr v) = None"
    using time_range_compare_fail [OF assms] by (simp add: rx_match_def compare_text_def)
  moreover have "rx_match (rx_lit (js ''('') # rs) (compare_text f z opr v) = None" for rs
    using time_func_paren_fail [OF assms(1)] by (simp add: rx_match_def compare_text_def)
  moreover have "rx_match time_compare_rx (compare_text f z opr v) = Some [(4, v), (3, opr), (2, z), (1, f)]"
    using time_compare_parse [OF assms] by (simp add: rx_match_def compare_text_def)
  ultimately show ?thesis
    by (simp add: tryParseRequestCondition_def tryParseTimeCondition_def)
qed

end
