(* ===== verification/Rule_Roundtrip.thy ===== *)
theory Rule_Roundtrip
  imports Rule_Texts
begin

text \<open>
  The request rules as a whole: normal conditions, the round trip of rule groups through
  their text, the guarded conditions that do not survive it, outer parentheses, and the
  combination with the tier expression.
\<close>

section \<open>Normal conditions\<close>

definition modes_of :: "jsstr \<Rightarrow> jsstr set" where
  "modes_of source = mo_value ` set (getRequestRuleMatchOptions source)"

fun normal_condition :: "RequestCondition \<Rightarrow> bool" where
  "normal_condition (Time t) \<longleftrightarrow>
     tm_timeFunc t \<in> set TIME_FUNCS \<and> tm_timezone t \<noteq> [] \<and> tm_mode t \<in> modes_of SOURCE_TIME"
| "normal_condition (ParamHeader p) \<longleftrightarrow>
     ph_source p \<in> {SOURCE_PARAM, SOURCE_HEADER} \<and> ph_mode p \<in> modes_of (ph_source p)"

lemma source_distinct [simp]:
  "SOURCE_PARAM \<noteq> SOURCE_TIME" "SOURCE_HEADER \<noteq> SOURCE_TIME" "SOURCE_PARAM \<noteq> SOURCE_HEADER"
  "SOURCE_TIME \<noteq> SOURCE_PARAM" "SOURCE_TIME \<noteq> SOURCE_HEADER" "SOURCE_HEADER \<noteq> SOURCE_PARAM"
  by (simp_all add: source_defs js_simps)

lemma modes_of_eval:
  "modes_of SOURCE_TIME = {MATCH_EQ, MATCH_GTE, MATCH_LT, MATCH_RANGE}"
  "modes_of SOURCE_HEADER = {MATCH_EQ, MATCH_CONTAINS, MATCH_EXISTS}"
  "modes_of SOURCE_PARAM = {MATCH_EQ, MATCH_CONTAINS, MATCH_EXISTS, MATCH_GT, MATCH_GTE, MATCH_LT, MATCH_LTE}"
  by (simp_all add: modes_of_def getRequestRuleMatchOptions_def mkOption_def Let_def insert_commute)

lemma normalizeMode_in:
  "fallback \<in> modes_of source \<Longrightarrow> normalizeMode source m fallback \<in> modes_of source"
  by (auto simp: normalizeMode_def modes_of_def list_ex_iff split: option.splits)

lemma normalizeMode_id: "m \<in> modes_of source \<Longrightarrow> normalizeMode source (Some m) fallback = m"
  by (auto simp: normalizeMode_def modes_of_def list_ex_iff)

lemma normalizeCondition_normal: "normal_condition (normalizeCondition c)"
proof -
  have "js ''hour'' \<in> set TIME_FUNCS" by (simp add: TIME_FUNCS_def)
  moreover have "isTimeFunc x \<Longrightarrow> the x \<in> set TIME_FUNCS" for x
    by (auto simp: isTimeFunc_def split: option.splits)
  moreover have "normalizeMode SOURCE_TIME m MATCH_GTE \<in> modes_of SOURCE_TIME"
    "normalizeMode SOURCE_HEADER m MATCH_EQ \<in> modes_of SOURCE_HEADER"
    "normalizeMode SOURCE_PARAM m MATCH_EQ \<in> modes_of SOURCE_PARAM" for m
    by (rule normalizeMode_in; simp add: modes_of_eval)+
  ultimately show ?thesis
    by (simp add: normalizeCondition_def Let_def or_default_ne)
qed

lemma normalizeCondition_id: "normal_condition c \<Longrightarrow> normalizeCondition (Some (partialOf c)) = c"
  by (cases c) (auto simp: normalizeCondition_def Let_def pc_empty_def isTimeFunc_def normalizeMode_id or_default_def)

lemma match_distinct [simp]:
  "MATCH_EXISTS \<noteq> MATCH_CONTAINS" "MATCH_EXISTS \<noteq> MATCH_EQ" "MATCH_CONTAINS \<noteq> MATCH_EXISTS" "MATCH_CONTAINS \<noteq> MATCH_EQ"
  "MATCH_EQ \<noteq> MATCH_EXISTS" "MATCH_EQ \<noteq> MATCH_CONTAINS" "MATCH_EQ \<noteq> MATCH_GT" "MATCH_EQ \<noteq> MATCH_GTE" "MATCH_EQ \<noteq> MATCH_LT"
  "MATCH_EQ \<noteq> MATCH_LTE" "MATCH_RANGE \<noteq> MATCH_EQ" "MATCH_RANGE \<noteq> MATCH_GTE" "MATCH_RANGE \<noteq> MATCH_LT" "MATCH_EQ \<noteq> MATCH_RANGE"
  "MATCH_GTE \<noteq> MATCH_EQ" "MATCH_GTE \<noteq> MATCH_RANGE" "MATCH_LT \<noteq> MATCH_EQ" "MATCH_LT \<noteq> MATCH_GTE" "MATCH_LT \<noteq> MATCH_RANGE"
  by (simp_all add: match_defs js_simps)

section \<open>Readable conditions are read back\<close>

text \<open>What the group level needs of the text of a condition.\<close>

definition reads_back :: "RequestCondition \<Rightarrow> bool" where
  "reads_back c \<longleftrightarrow> condition_text (buildRequestConditionExpr c) \<and>
     (\<forall>nt. tryParseRequestCondition nt (buildRequestConditionExpr c) = Inr (Some c)) \<and>
     (124 \<notin> set (buildRequestConditionExpr c) \<or>
      (\<forall>nt. tryParseRequestCondition nt (js ''('' @ buildRequestConditionExpr c @ js '')'') = Inr (Some c)))"

lemma time_reads_back:
  assumes r: "readable_condition (Time t)"
  shows "reads_back (Time t)"
proof -
  have a: "tm_timeFunc t \<in> set TIME_FUNCS" "tm_timezone t \<noteq> []" "plain_text (tm_timezone t)"
    using r by simp_all
  note q = plain_text_quote [OF a(3)]
  show ?thesis
  proof (cases "tm_mode t = MATCH_RANGE")
    case True
    with r have b: "tm_value t = []" "NUMERIC_LITERAL_REGEX (tm_rangeStart t)" "NUMERIC_LITERAL_REGEX (tm_rangeEnd t)"
      by simp_all
    have "buildRequestConditionExpr (Time t) = range_text (tm_timeFunc t) (tm_timezone t) (tm_rangeStart t) (tm_rangeEnd t)"
      using True a b q
      by (simp add: buildTimeConditionExpr_def normalizeCondition_id [of "Time t"] modes_of_eval buildTimeExpr_def numeric_trim
          range_text_def js_simps del: partialOf.simps)
    moreover have "t = \<lparr>tm_timeFunc = tm_timeFunc t, tm_timezone = tm_timezone t, tm_mode = MATCH_RANGE, tm_value = [],
        tm_rangeStart = tm_rangeStart t, tm_rangeEnd = tm_rangeEnd t\<rparr>"
      using True b(1) by simp
    ultimately show ?thesis
      using range_parse [OF a(1,3,2) b(2,3)] range_condition_text [OF a(1,3) b(2,3)] by (simp add: reads_back_def)
  next
    case False
    with r have b: "tm_mode t \<in> {MATCH_EQ, MATCH_GTE, MATCH_LT}" "NUMERIC_LITERAL_REGEX (tm_value t)"
      "tm_rangeStart t = []" "tm_rangeEnd t = []" by simp_all
    define opr where "opr = (if tm_mode t = MATCH_EQ then js ''=='' else if tm_mode t = MATCH_GTE then js ''>='' else js ''<'')"
    have o: "opr \<in> {js ''=='', js ''>='', js ''<''}" by (simp add: opr_def)
    have m: "timeOp opr = tm_mode t" using b(1) by (auto simp: opr_def timeOp_def js_simps)
    have "buildRequestConditionExpr (Time t) = compare_text (tm_timeFunc t) (tm_timezone t) opr (tm_value t)"
      using False a b q
      by (auto simp: buildTimeConditionExpr_def normalizeCondition_id [of "Time t"] modes_of_eval buildTimeExpr_def numeric_trim
          compare_text_def opr_def js_simps simp del: partialOf.simps)
    moreover have "t = \<lparr>tm_timeFunc = tm_timeFunc t, tm_timezone = tm_timezone t, tm_mode = tm_mode t, tm_value = tm_value t,
        tm_rangeStart = [], tm_rangeEnd = []\<rparr>"
      using b(3,4) by simp
    ultimately show ?thesis
      using compare_parse [OF a(1,3,2) b(2) o] compare_condition_text [OF a(1,3) b(2) o] m by (simp add: reads_back_def)
  qed
qed

lemma param_header_reads_back:
  assumes r: "readable_condition (ParamHeader p)"
  shows "reads_back (ParamHeader p)"
proof -
  define h where "h = (ph_source p = SOURCE_HEADER)"
  have a: "ph_source p = source_of h" "ph_path p \<noteq> []" "plain_text (ph_path p)"
    using r by (auto simp: h_def source_of_def)
  have n: "normal_condition (ParamHeader p)" using r by (auto simp: modes_of_eval)
  note q = plain_text_quote [OF a(3)]
  have t: "trim (ph_path p) = ph_path p" using a(3) by (simp add: plain_text_def)
  have b: "buildRequestConditionExpr (ParamHeader p) = buildParamHeaderExpr p"
    using normalizeCondition_id [OF n] by (simp del: partialOf.simps)
  have c: "ParamHeader p = mkCondition (source_of h) (ph_path p) (ph_mode p) (ph_value p)"
    using a(1) by (simp add: mkCondition_def)
  from r consider "ph_mode p = MATCH_EXISTS" "ph_value p = []" | "ph_mode p = MATCH_EQ" "plain_text (ph_value p)"
    | "ph_mode p = MATCH_CONTAINS" "h" "plain_text (ph_value p)" by (auto simp: h_def)
  then show ?thesis
  proof cases
    case 1
    then have "buildParamHeaderExpr p = exists_text h (ph_path p)"
      using a t q by (simp add: buildParamHeaderExpr_def exists_text_def h_def [symmetric] source_of_def Let_def js_simps)
    with 1 b c exists_parse [OF a(3,2)] exists_condition_text [OF a(3)] show ?thesis by (simp add: reads_back_def)
  next
    case 2
    then have "buildParamHeaderExpr p = equals_text h (ph_path p) (buildExprLiteral MATCH_EQ (ph_value p))"
      using a t q by (simp add: buildParamHeaderExpr_def equals_text_def h_def [symmetric] source_of_def Let_def js_simps)
    moreover note equals_literal [OF 2(2)]
    ultimately show ?thesis
      using 2 b c equals_parse [OF a(3,2)] equals_condition_text [OF a(3) 2(2)] by (simp add: reads_back_def)
  next
    case 3
    have l: "buildExprLiteral MATCH_CONTAINS (ph_value p) = 34 # ph_value p @ [34]"
      using 3(3) plain_text_quote [OF 3(3)] by (simp add: buildExprLiteral_def plain_text_def)
    from 3 have "buildParamHeaderExpr p = contains_text (ph_path p) (ph_value p)"
      using a t q l by (simp add: buildParamHeaderExpr_def contains_text_def h_def [symmetric] source_of_def Let_def js_simps)
    with 3 b c contains_parse [OF a(3,2) 3(3)] contains_condition_text [OF a(3) 3(3)] show ?thesis
      by (simp add: reads_back_def source_of_def)
  qed
qed

lemma readable_reads_back: "readable_condition c \<Longrightarrow> reads_back c"
  using time_reads_back param_header_reads_back by (cases c) blast+

section \<open>Rule groups\<close>

definition readable_group :: "RequestRuleGroup \<Rightarrow> bool" where
  "readable_group g \<longleftrightarrow> rg_conditions g \<noteq> [] \<and> list_all readable_condition (rg_conditions g) \<and>
     NUMERIC_LITERAL_REGEX (rg_multiplier g)"

text \<open>The text of a condition inside a conjunction: a disjunction is put in parentheses.\<close>

definition conjunct_text :: "RequestCondition \<Rightarrow> jsstr" where
  "conjunct_text c = (let e = buildRequestConditionExpr c in
     if str_includes e (js '' || '') then js ''('' @ e @ js '')'' else e)"

lemma conjunct_reads_back:
  assumes "reads_back c"
  shows "condition_text (conjunct_text c) \<and> tryParseRequestCondition nt (conjunct_text c) = Inr (Some c)"
proof (cases "str_includes (buildRequestConditionExpr c) (js '' || '')")
  case True
  then have "124 \<in> set (buildRequestConditionExpr c)" by (auto simp: str_includes_iff js_simps)
  with True assms show ?thesis
    by (simp add: conjunct_text_def Let_def reads_back_def condition_text_paren)
next
  case False
  with assms show ?thesis by (simp add: conjunct_text_def reads_back_def)
qed

lemma parseConditions_map:
  "\<forall>c \<in> set cs. condition_text (f c) \<and> tryParseRequestCondition nt (f c) = Inr (Some c) \<Longrightarrow>
    parseConditions nt (map f cs) = Inr (Some cs)"
  by (induction cs) (simp_all add: condition_text_def trim_id)

lemma foldl_depth_join:
  "\<forall>p \<in> set ps. foldl paren_depth 0 p = 0 \<Longrightarrow> foldl paren_depth 0 (join (js '' && '') ps) = 0"
proof (induction ps)
  case (Cons p ps)
  then show ?case by (cases "ps = []") (simp_all add: join_Cons js_simps depth_other)
qed simp

lemma factor_closed:
  assumes "42 \<notin> set e" "foldl paren_depth 0 e = 0" "NUMERIC_LITERAL_REGEX m"
  shows "closed_part 42 (js ''('' @ e @ js '' ? '' @ m @ js '' : 1)'')"
  using foldl_depth_shift [of 0 1 e] assms numeric_text_chars [OF assms(3)]
  by (simp add: closed_part_def js_simps foldl_depth_plain depth_other trim_id is_ws_def)

text \<open>The reader takes a factor apart into the texts between the conjunctions of its conditions.\<close>

definition groupOf :: "jsstr \<Rightarrow> rule_error + RequestCondition list option \<Rightarrow> rule_error + RequestRuleGroup option" where
  "groupOf m parsed =
     (case parsed of
        Inl e \<Rightarrow> Inl e
      | Inr None \<Rightarrow> Inr None
      | Inr (Some conditions) \<Rightarrow>
          if conditions = [] then Inr None else Inr (Some \<lparr>rg_conditions = conditions, rg_multiplier = m\<rparr>))"

lemma join_concat: "[] \<notin> set pss \<Longrightarrow> join sep (map (join sep) pss) = join sep (concat pss)"
proof (induction pss)
  case (Cons ps pss)
  show ?case
  proof (cases "pss = []")
    case False
    then have ne: "concat pss \<noteq> []" using Cons.prems by (cases pss) auto
    have j: "ps \<noteq> [] \<Longrightarrow> qs \<noteq> [] \<Longrightarrow> join sep ps @ sep @ join sep qs = join sep (ps @ qs)" for ps qs
      by (induction sep ps rule: join.induct) (simp_all add: join_Cons)
    have "ps \<noteq> []" using Cons.prems by auto
    from j [OF this ne] Cons False show ?thesis by (simp add: join_Cons del: concat_eq_Nil_conv)
  qed simp
qed simp

lemma group_text:
  assumes "rg_conditions g \<noteq> []" "NUMERIC_LITERAL_REGEX (rg_multiplier g)"
    and "\<And>c. c \<in> set (rg_conditions g) \<Longrightarrow> buildRequestConditionExpr c \<noteq> [] \<and> parts c \<noteq> [] \<and> list_all condition_text (parts c) \<and>
      join (js '' && '') (parts c) = (if length (rg_conditions g) = 1 then buildRequestConditionExpr c else conjunct_text c)"
  shows "closed_part 42 (buildRuleGroupFactor g) \<and>
    tryParseRuleGroupFactor nt (buildRuleGroupFactor g) =
      groupOf (rg_multiplier g) (parseConditions nt (concat (map parts (rg_conditions g))))"
proof -
  let ?cs = "rg_conditions g" and ?m = "rg_multiplier g"
  define f where "f = (if length ?cs = 1 then buildRequestConditionExpr else conjunct_text)"
  define e where "e = join (js '' && '') (map f ?cs)"
  let ?ps = "concat (map parts ?cs)"
  have filter: "filter (\<lambda>e. e \<noteq> []) (map buildRequestConditionExpr ?cs) = map buildRequestConditionExpr ?cs"
    using assms(3) by (intro filter_True) auto
  have b: "buildRuleGroupFactor g = js ''('' @ e @ js '' ? '' @ ?m @ js '' : 1)''"
  proof (cases "length ?cs = 1")
    case True
    then show ?thesis
      using assms(1,2) filter by (simp add: buildRuleGroupFactor_def Let_def numeric_trim e_def f_def join_single)
  next
    case False
    then show ?thesis
      using assms(1,2) filter
      by (simp add: buildRuleGroupFactor_def Let_def numeric_trim e_def f_def conjunct_text_def [abs_def] comp_def)
  qed
  have "map f ?cs = map (join (js '' && '')) (map parts ?cs)" using assms(3) by (auto simp: f_def)
  moreover have "[] \<notin> set (map parts ?cs)" using assms(3) by force
  ultimately have parts: "e = join (js '' && '') ?ps" unfolding e_def by (metis join_concat)
  have texts: "condition_text p" if "p \<in> set ?ps" for p using that assms(3) by (force simp: list_all_iff)
  have ne: "?ps \<noteq> []" using assms(1,3) by (cases ?cs) auto
  have split: "splitTopLevelAnd e = ?ps"
    unfolding parts using texts ne condition_text_closed by (intro splitTopLevelAnd_join) blast+
  have e: "e \<noteq> []" using split ne by (auto simp: splitTopLevelAnd_def)
  have depth: "foldl paren_depth 0 e = 0" unfolding parts using texts by (intro foldl_depth_join) (auto simp: condition_text_def)
  have star: "42 \<notin> set e" unfolding parts using texts by (auto simp: condition_text_def js_simps dest!: join_elems)
  from factor_parse [OF numeric_chars [OF assms(2)] numeric_ne [OF assms(2)] e] obtain c
    where "rx_match factor_rx (buildRuleGroupFactor g) = Some c" "capture c 1 = e" "capture c 2 = ?m" by (auto simp: b)
  moreover have "closed_part 42 (buildRuleGroupFactor g)" unfolding b by (rule factor_closed [OF star depth assms(2)])
  ultimately show ?thesis by (simp add: tryParseRuleGroupFactor_def split groupOf_def split: sum.split option.split)
qed

lemma group_reads_back:
  assumes "readable_group g"
  shows "closed_part 42 (buildRuleGroupFactor g) \<and> tryParseRuleGroupFactor nt (buildRuleGroupFactor g) = Inr (Some g)"
proof -
  let ?cs = "rg_conditions g"
  define f where "f = (if length ?cs = 1 then buildRequestConditionExpr else conjunct_text)"
  have rb: "reads_back c" if "c \<in> set ?cs" for c
    using assms that readable_reads_back by (auto simp: readable_group_def list_all_iff)
  have ne: "?cs \<noteq> []" and num: "NUMERIC_LITERAL_REGEX (rg_multiplier g)" using assms by (simp_all add: readable_group_def)
  have f: "condition_text (f c) \<and> tryParseRequestCondition nt (f c) = Inr (Some c)" if "c \<in> set ?cs" for c
    using rb [OF that] conjunct_reads_back [OF rb [OF that]] by (simp add: f_def reads_back_def)
  have "buildRequestConditionExpr c \<noteq> [] \<and> [f c] \<noteq> [] \<and> list_all condition_text [f c] \<and>
      join (js '' && '') [f c] = (if length ?cs = 1 then buildRequestConditionExpr c else conjunct_text c)" if "c \<in> set ?cs" for c
    using f [OF that] rb [OF that] by (simp add: f_def reads_back_def condition_text_def)
  from group_text [OF ne num this] have t: "closed_part 42 (buildRuleGroupFactor g) \<and>
      tryParseRuleGroupFactor nt (buildRuleGroupFactor g) = groupOf (rg_multiplier g) (parseConditions nt (concat (map (\<lambda>c. [f c]) ?cs)))"
    by blast
  have "concat (map (\<lambda>c. [f c]) ?cs) = map f ?cs" by (induction ?cs) simp_all
  moreover have "parseConditions nt (map f ?cs) = Inr (Some ?cs)" using f by (intro parseConditions_map) simp
  ultimately show ?thesis using t ne by (simp add: groupOf_def)
qed

lemma parseFactors_map:
  "list_all readable_group gs \<Longrightarrow> parseFactors nt (map buildRuleGroupFactor gs) = Inr (Some gs)"
  by (induction gs) (simp_all add: group_reads_back)

lemma factors_closed: "list_all readable_group gs \<Longrightarrow> \<forall>p \<in> set (map buildRuleGroupFactor gs). closed_part 42 p"
  using group_reads_back by (auto simp: list_all_iff)

lemma buildRequestRuleExpr_join:
  "list_all readable_group gs \<Longrightarrow> buildRequestRuleExpr gs = join (js '' * '') (map buildRuleGroupFactor gs)"
  by (simp add: buildRequestRuleExpr_def closed_parts_filter [OF factors_closed])

lemma trim_join:
  assumes "ps \<noteq> []" "\<forall>p \<in> set ps. closed_part k p"
  shows "join sep ps \<noteq> [] \<and> trim (join sep ps) = join sep ps"
proof -
  have ends: "join sep ps \<noteq> [] \<and> hd (join sep ps) = hd (hd ps) \<and> last (join sep ps) = last (last ps)"
    using assms
  proof (induction ps)
    case (Cons p ps)
    then show ?case by (cases "ps = []") (auto simp: join_Cons closed_part_def)
  qed simp
  have "\<not> is_ws (hd p) \<and> \<not> is_ws (last p)" if "p \<in> set ps" for p
    using that assms(2) trim_hd [of p] trim_last [of p] by (auto simp: closed_part_def)
  with ends assms(1) show ?thesis by (simp add: trim_id)
qed

lemma rules_read_back:
  assumes "list_all readable_group gs"
  shows "tryParseRequestRuleExpr nt (buildRequestRuleExpr gs) = Inr (Some gs)"
proof (cases "gs = []")
  case True
  then show ?thesis by (simp add: buildRequestRuleExpr_def tryParseRequestRuleExpr_def)
next
  case False
  let ?ps = "map buildRuleGroupFactor gs"
  note closed = factors_closed [OF assms]
  have "splitTopLevelMultiply (buildRequestRuleExpr gs) = ?ps"
    unfolding buildRequestRuleExpr_join [OF assms] using False by (intro splitTopLevelMultiply_join [OF closed]) simp
  with trim_join [of ?ps 42 "js '' * ''"] False closed show ?thesis
    by (simp add: tryParseRequestRuleExpr_def Let_def buildRequestRuleExpr_join [OF assms] parseFactors_map [OF assms])
qed

lemma one_factor: "closed_part 42 f \<Longrightarrow> tryParseRequestRuleExpr nt f = parseFactors nt [f]"
  using splitTopLevelMultiply_join [of "[f]"]
  by (simp add: tryParseRequestRuleExpr_def Let_def closed_part_def)

section \<open>Guards on a parameter\<close>

text \<open>The second half of a guarded comparison, read on its own, is no condition.\<close>

lemma lone_comparison:
  assumes "plain_text p" "p \<noteq> []" "opr \<in> {js ''>'', js ''>='', js ''<'', js ''<=''}"
  shows "tryParseRequestCondition nt (js ''param'' @ [40, 34] @ p @ [34, 41, 32] @ opr @ 32 # v) = Inr None"
proof -
  let ?t = "js ''param'' @ [40, 34] @ p @ [34, 41, 32] @ opr @ 32 # v"
  have "rx_match header_exists_rx ?t = None" "rx_match param_exists_rx ?t = None" "rx_match header_contains_rx ?t = None"
    "rx_match param_contains_rx ?t = None" "rx_match param_compare_rx ?t = None" "rx_match equals_rx ?t = None"
    using assms(3)
    by (elim insertE emptyE; use assms(1,2) in \<open>simp add: rx_match_def header_exists_rx_def param_exists_rx_def
      header_contains_rx_def param_contains_rx_def param_compare_rx_def equals_rx_def rx_simps js_simps\<close>)+
  then show ?thesis
    using tryParseTime_none(2) by (simp add: tryParseRequestCondition_def sameParam_def equalsCondition_def)
qed

lemma lone_containment: "tryParseRequestCondition nt (js ''has('' @ js ''param'' @ s) = Inr None"
proof -
  let ?t = "js ''has('' @ js ''param'' @ s"
  have "rx_match header_exists_rx ?t = None" "rx_match param_exists_rx ?t = None" "rx_match header_contains_rx ?t = None"
    "rx_match param_contains_rx ?t = None" "rx_match param_compare_rx ?t = None" "rx_match equals_rx ?t = None"
    by (simp_all add: rx_match_def header_exists_rx_def param_exists_rx_def
      header_contains_rx_def param_contains_rx_def param_compare_rx_def equals_rx_def rx_simps js_simps)
  then show ?thesis
    using tryParseTime_none(3) by (simp add: tryParseRequestCondition_def sameParam_def equalsCondition_def)
qed

definition guarded_condition :: "RequestCondition \<Rightarrow> bool" where
  "guarded_condition c = (case c of Time _ \<Rightarrow> False | ParamHeader p \<Rightarrow>
     ph_source p = SOURCE_PARAM \<and> ph_path p \<noteq> [] \<and> plain_text (ph_path p) \<and>
     (ph_mode p = MATCH_CONTAINS \<and> plain_text (ph_value p) \<or>
      ph_mode p \<in> {MATCH_GT, MATCH_GTE, MATCH_LT, MATCH_LTE} \<and> NUMERIC_LITERAL_REGEX (ph_value p)))"

lemma no_bar: "plain_text s \<Longrightarrow> 124 \<notin> set s" "NUMERIC_LITERAL_REGEX s \<Longrightarrow> 124 \<notin> set s"
proof -
  show "plain_text s \<Longrightarrow> 124 \<notin> set s" by (auto simp: plain_text_def plain_def list_all_iff)
  show "NUMERIC_LITERAL_REGEX s \<Longrightarrow> 124 \<notin> set s"
    using numeric_chars [of s] by (auto simp: list_all_iff num_char_def is_digit_def)
qed

lemma guarded_text:
  assumes "guarded_condition c"
  shows "\<exists>p t. buildRequestConditionExpr c = join (js '' && '') [exists_text False p, t] \<and>
    condition_text (exists_text False p) \<and> plain_text p \<and> p \<noteq> [] \<and> condition_text t \<and> 124 \<notin> set t \<and>
    (\<forall>nt. tryParseRequestCondition nt t = Inr None)"
proof -
  obtain p where c: "c = ParamHeader p" using assms by (cases c) (auto simp: guarded_condition_def)
  have a: "ph_source p = SOURCE_PARAM" "ph_path p \<noteq> []" "plain_text (ph_path p)"
    using assms by (simp_all add: guarded_condition_def c)
  have n: "normal_condition (ParamHeader p)" using assms by (auto simp: guarded_condition_def c modes_of_eval)
  note q = plain_text_quote [OF a(3)]
  have tr: "trim (ph_path p) = ph_path p" using a(3) by (simp add: plain_text_def)
  have b: "buildRequestConditionExpr c = buildParamHeaderExpr p"
    using normalizeCondition_id [OF n] c by (simp del: partialOf.simps)
  note ex = exists_condition_text [OF a(3), of False]
  note pc = plain_text_chars [OF a(3)] and bar = no_bar(1) [OF a(3)]
  from assms consider "ph_mode p = MATCH_CONTAINS" "plain_text (ph_value p)"
    | "ph_mode p \<in> {MATCH_GT, MATCH_GTE, MATCH_LT, MATCH_LTE}" "NUMERIC_LITERAL_REGEX (ph_value p)"
    by (auto simp: guarded_condition_def c)
  then show ?thesis
  proof cases
    case 1
    let ?t = "js ''has('' @ js ''param'' @ [40, 34] @ ph_path p @ [34, 41] @ js '', '' @ [34] @ ph_value p @ [34, 41]"
    have "buildExprLiteral MATCH_CONTAINS (ph_value p) = 34 # ph_value p @ [34]"
      using plain_text_quote [OF 1(2)] 1(2) by (simp add: buildExprLiteral_def plain_text_def)
    then have "buildParamHeaderExpr p = join (js '' && '') [exists_text False (ph_path p), ?t]"
      using 1 a q tr by (simp add: buildParamHeaderExpr_def exists_text_def Let_def js_simps)
    moreover have "condition_text ?t"
      using pc plain_text_chars [OF 1(2)] by (simp add: condition_text_def js_simps foldl_depth_plain depth_other is_ws_def)
    moreover have "124 \<notin> set ?t" using bar no_bar(1) [OF 1(2)] by (simp add: js_simps)
    ultimately show ?thesis using b ex a lone_containment by metis
  next
    case 2
    define opr where "opr = (if ph_mode p = MATCH_GT then js ''>'' else if ph_mode p = MATCH_GTE then js ''>=''
      else if ph_mode p = MATCH_LT then js ''<'' else js ''<='')"
    have o: "opr \<in> {js ''>'', js ''>='', js ''<'', js ''<=''}" by (simp add: opr_def)
    have oc: "40 \<notin> set opr" "41 \<notin> set opr" "38 \<notin> set opr" "42 \<notin> set opr" "124 \<notin> set opr" using o by (auto simp: js_simps)
    have m: "ph_mode p \<noteq> MATCH_EXISTS" "ph_mode p \<noteq> MATCH_CONTAINS" using 2(1) by (auto simp: match_defs js_simps)
    let ?t = "js ''param'' @ [40, 34] @ ph_path p @ [34, 41, 32] @ opr @ 32 # ph_value p"
    have "buildParamHeaderExpr p = join (js '' && '') [exists_text False (ph_path p), ?t]"
      using 2 a q tr m
      by (simp add: buildParamHeaderExpr_def exists_text_def Let_def numeric_trim opr_def [symmetric] js_Cons)
    moreover have "condition_text ?t"
      using pc oc numeric_text_chars [OF 2(2)]
      by (simp add: condition_text_def js_simps foldl_depth_plain depth_other is_ws_def)
    moreover have "124 \<notin> set ?t" using bar oc(5) no_bar(2) [OF 2(2)] by (simp add: js_simps)
    ultimately show ?thesis using b ex a lone_comparison [OF a(3,2) o] by metis
  qed
qed

text \<open>
  What the reader makes of the parts of a group: readable conditions are read, the second half of
  a guarded one is not, and nothing throws.
\<close>

definition writable_group :: "RequestRuleGroup \<Rightarrow> bool" where
  "writable_group g \<longleftrightarrow> rg_conditions g \<noteq> [] \<and>
     list_all (\<lambda>c. readable_condition c \<or> guarded_condition c) (rg_conditions g) \<and> NUMERIC_LITERAL_REGEX (rg_multiplier g)"

definition guarded_group :: "RequestRuleGroup \<Rightarrow> bool" where
  "guarded_group g \<longleftrightarrow> list_ex guarded_condition (rg_conditions g)"

lemma parseConditions_none:
  "\<forall>p \<in> set ps. trim p = p \<and> \<not> isl (tryParseRequestCondition nt p) \<Longrightarrow>
    \<exists>r. parseConditions nt ps = Inr r \<and> ((\<exists>p \<in> set ps. tryParseRequestCondition nt p = Inr None) \<longrightarrow> r = None)"
proof (induction ps)
  case (Cons p ps)
  then obtain r where r: "parseConditions nt ps = Inr r" "(\<exists>p \<in> set ps. tryParseRequestCondition nt p = Inr None) \<longrightarrow> r = None" by auto
  obtain x where x: "tryParseRequestCondition nt p = Inr x" using Cons.prems by (cases "tryParseRequestCondition nt p") auto
  show ?case
  proof (cases x)
    case None
    with x Cons.prems show ?thesis by simp
  next
    case (Some c)
    with x r Cons.prems show ?thesis by (cases r) auto
  qed
qed simp

lemma condition_parts:
  assumes "readable_condition c \<or> guarded_condition c"
  shows "\<exists>ps. buildRequestConditionExpr c \<noteq> [] \<and> ps \<noteq> [] \<and> list_all condition_text ps \<and>
    join (js '' && '') ps = (if single then buildRequestConditionExpr c else conjunct_text c) \<and>
    (\<forall>p \<in> set ps. \<not> isl (tryParseRequestCondition nt p)) \<and>
    (guarded_condition c \<longrightarrow> (\<exists>p \<in> set ps. tryParseRequestCondition nt p = Inr None))"
proof (cases "guarded_condition c")
  case True
  from guarded_text [OF this] obtain p t where e: "buildRequestConditionExpr c = join (js '' && '') [exists_text False p, t]"
    and t: "condition_text (exists_text False p)" "plain_text p" "p \<noteq> []" "condition_text t" "124 \<notin> set t"
      "\<forall>nt. tryParseRequestCondition nt t = Inr None" by blast
  have "124 \<notin> set (buildRequestConditionExpr c)" unfolding e using no_bar(1) [OF t(2)] t(5) by (simp add: exists_text_def js_simps)
  then have "\<not> str_includes (buildRequestConditionExpr c) (js '' || '')" by (auto simp: str_includes_iff js_simps)
  then have "conjunct_text c = buildRequestConditionExpr c" by (simp add: conjunct_text_def)
  moreover have "buildRequestConditionExpr c \<noteq> []" unfolding e using t(1) by (simp add: condition_text_def)
  ultimately show ?thesis using e t exists_parse [OF t(2,3)] by (intro exI [of _ "[exists_text False p, t]"]) auto
next
  case False
  with assms have rb: "reads_back c" using readable_reads_back by blast
  then have "buildRequestConditionExpr c \<noteq> []" by (simp add: reads_back_def condition_text_def)
  with False rb conjunct_reads_back [OF rb] show ?thesis
    by (intro exI [of _ "[if single then buildRequestConditionExpr c else conjunct_text c]"]) (simp add: reads_back_def)
qed

lemma guarded_factor:
  assumes "writable_group g"
  shows "closed_part 42 (buildRuleGroupFactor g) \<and>
    (\<exists>r. tryParseRuleGroupFactor nt (buildRuleGroupFactor g) = Inr r \<and> (guarded_group g \<longrightarrow> r = None))"
proof -
  let ?cs = "rg_conditions g"
  have "\<forall>c \<in> set ?cs. \<exists>ps. buildRequestConditionExpr c \<noteq> [] \<and> ps \<noteq> [] \<and> list_all condition_text ps \<and>
      join (js '' && '') ps = (if length ?cs = 1 then buildRequestConditionExpr c else conjunct_text c) \<and>
      (\<forall>p \<in> set ps. \<not> isl (tryParseRequestCondition nt p)) \<and>
      (guarded_condition c \<longrightarrow> (\<exists>p \<in> set ps. tryParseRequestCondition nt p = Inr None))"
    using assms condition_parts by (auto simp: writable_group_def list_all_iff)
  from bchoice [OF this] obtain parts where parts: "\<And>c. c \<in> set ?cs \<Longrightarrow> buildRequestConditionExpr c \<noteq> [] \<and> parts c \<noteq> [] \<and>
      list_all condition_text (parts c) \<and>
      join (js '' && '') (parts c) = (if length ?cs = 1 then buildRequestConditionExpr c else conjunct_text c) \<and>
      (\<forall>p \<in> set (parts c). \<not> isl (tryParseRequestCondition nt p)) \<and>
      (guarded_condition c \<longrightarrow> (\<exists>p \<in> set (parts c). tryParseRequestCondition nt p = Inr None))" by blast
  let ?ps = "concat (map parts ?cs)"
  have "trim p = p \<and> \<not> isl (tryParseRequestCondition nt p)" if "p \<in> set ?ps" for p
    using that parts by (force simp: list_all_iff condition_text_def trim_id)
  then obtain r where r: "parseConditions nt ?ps = Inr r" "(\<exists>p \<in> set ?ps. tryParseRequestCondition nt p = Inr None) \<longrightarrow> r = None"
    using parseConditions_none by blast
  have "guarded_group g \<Longrightarrow> r = None" using r(2) parts by (fastforce simp: guarded_group_def list_ex_iff)
  moreover have "closed_part 42 (buildRuleGroupFactor g) \<and>
      tryParseRuleGroupFactor nt (buildRuleGroupFactor g) = groupOf (rg_multiplier g) (parseConditions nt ?ps)"
    using assms parts by (intro group_text) (auto simp: writable_group_def)
  ultimately show ?thesis using r(1) by (auto simp: groupOf_def split: option.split)
qed

lemma parseFactors_none:
  "list_all writable_group gs \<Longrightarrow>
    \<exists>r. parseFactors nt (map buildRuleGroupFactor gs) = Inr r \<and> (list_ex guarded_group gs \<longrightarrow> r = None)"
proof (induction gs)
  case (Cons g gs)
  then obtain r where "parseFactors nt (map buildRuleGroupFactor gs) = Inr r" "list_ex guarded_group gs \<longrightarrow> r = None" by auto
  moreover obtain x where "tryParseRuleGroupFactor nt (buildRuleGroupFactor g) = Inr x" "guarded_group g \<longrightarrow> x = None"
    using guarded_factor [of g nt] Cons.prems by auto
  ultimately show ?case by (cases x; cases r) auto
qed simp

lemma guarded_unreadable:
  assumes "list_all writable_group gs" "list_ex guarded_group gs"
  shows "tryParseRequestRuleExpr nt (buildRequestRuleExpr gs) = Inr None"
proof -
  let ?ps = "map buildRuleGroupFactor gs"
  have ne: "?ps \<noteq> []" using assms(2) by (cases gs) auto
  have closed: "\<forall>p \<in> set ?ps. closed_part 42 p" using guarded_factor assms(1) by (auto simp: list_all_iff)
  have b: "buildRequestRuleExpr gs = join (js '' * '') ?ps" by (simp add: buildRequestRuleExpr_def closed_parts_filter [OF closed])
  have "splitTopLevelMultiply (buildRequestRuleExpr gs) = ?ps" unfolding b by (rule splitTopLevelMultiply_join [OF closed ne])
  moreover have "parseFactors nt ?ps = Inr None" using parseFactors_none [OF assms(1)] assms(2) by auto
  ultimately show ?thesis using trim_join [OF ne closed, of "js '' * ''"] by (simp add: tryParseRequestRuleExpr_def Let_def b)
qed

section \<open>Outer parentheses\<close>

text \<open>Parentheses that match: the depth is never negative and ends at zero.\<close>

fun nested_from :: "int \<Rightarrow> jsstr \<Rightarrow> bool" where
  "nested_from d [] \<longleftrightarrow> d = 0"
| "nested_from d (c # s) \<longleftrightarrow> 0 \<le> paren_depth d c \<and> nested_from (paren_depth d c) s"

lemma paren_depth_shift: "paren_depth (d + n) c = paren_depth d c + n"
  by (simp add: paren_depth_def)

lemma nested_final: "nested_from d s \<Longrightarrow> foldl paren_depth d s = 0"
  by (induction s arbitrary: d) auto

lemma outerLoop_nested: "nested_from d s \<Longrightarrow> 0 \<le> d \<Longrightarrow> outerLoop (d + 1) (s @ [41])"
proof (induction s arbitrary: d)
  case (Cons c s)
  then show ?case using paren_depth_shift [of d 1 c] by (simp add: Let_def)
qed (simp add: Let_def)

lemma full_outer: "nested_from 0 s \<Longrightarrow> hasFullOuterParens (js ''('' @ s @ js '')'')"
  using outerLoop_nested [of 0 s]
  by (simp add: hasFullOuterParens_def ends_with_def js_simps Let_def)

lemma unwrap_wrapped:
  assumes "nested_from 0 s"
  shows "unwrapOuterParens (js ''('' @ s @ js '')'') = unwrapOuterParens s"
proof -
  have "trim (js ''('' @ s @ js '')'') = js ''('' @ s @ js '')''" by (rule trim_id) (simp add: js_simps is_ws_def)
  moreover have "peel (js ''('' @ s @ js '')'') = trim s" by (simp add: peel_def js_simps butlast_append)
  ultimately show ?thesis
    using full_outer [OF assms] by (simp add: unwrapOuterParens_def unwrapLoop.simps [of "js ''('' @ s @ js '')''"])
qed

lemma unwrapLoop_iterates:
  "\<exists>n. n \<le> length s \<and> unwrapLoop s = (peel ^^ n) s \<and> (\<forall>k < n. hasFullOuterParens ((peel ^^ k) s)) \<and>
    \<not> hasFullOuterParens ((peel ^^ n) s)"
proof (induction s rule: unwrapLoop.induct)
  case (1 s)
  show ?case
  proof (cases "hasFullOuterParens s")
    case True
    from 1 [OF True] obtain n where n: "n \<le> length (peel s)" "unwrapLoop (peel s) = (peel ^^ n) (peel s)"
      "\<forall>k < n. hasFullOuterParens ((peel ^^ k) (peel s))" "\<not> hasFullOuterParens ((peel ^^ n) (peel s))" by blast
    have "hasFullOuterParens ((peel ^^ k) s)" if "k < Suc n" for k
      using that n(3) True by (cases k) (simp_all add: funpow_swap1 [symmetric] funpow_Suc_right del: funpow.simps(2))
    moreover have "unwrapLoop s = (peel ^^ Suc n) s"
      using n(2) True by (subst unwrapLoop.simps) (simp add: funpow_Suc_right del: funpow.simps(2))
    moreover have "\<not> hasFullOuterParens ((peel ^^ Suc n) s)"
      using n(4) by (simp add: funpow_Suc_right del: funpow.simps(2))
    moreover have "Suc n \<le> length s" using n(1) peel_length [OF True] by simp
    ultimately show ?thesis by blast
  next
    case False
    then show ?thesis by (intro exI [of _ 0]) (subst unwrapLoop.simps, simp)
  qed
qed

section \<open>Combining and splitting\<close>

lemma splitLoop_nested:
  "nested_from d s \<Longrightarrow> 0 \<le> d \<Longrightarrow> splitLoop sep (d + 1) cur (s @ r) = splitLoop sep 1 (rev s @ cur) r"
proof (induction s arbitrary: d cur)
  case (Cons c s)
  then show ?case using paren_depth_shift [of d 1 c] by (simp add: Let_def)
qed simp

lemma splitLoop_parenthesised:
  assumes "nested_from 0 s"
  shows "splitLoop (js '' * '') 0 [] (js ''('' @ s @ js '')'' @ r) = splitLoop (js '' * '') 0 (rev (js ''('' @ s @ js '')'')) r"
  using splitLoop_nested [OF assms, of "js '' * ''" "[40]" "41 # r"]
  by (simp add: js_simps Let_def)

lemma nested_trim:
  assumes "nested_from 0 s"
  shows "nested_from 0 (trim s)"
proof -
  have skip: "nested_from d (w @ t) \<longleftrightarrow> nested_from d t" if "\<forall>c \<in> set w. is_ws c" "0 \<le> d" for w t d
    using that by (induction w) (auto simp: paren_depth_def is_ws_def)
  have tail: "nested_from d (t @ w) \<Longrightarrow> nested_from d t" if "\<forall>c \<in> set w. is_ws c" for w t d
    by (induction t arbitrary: d) (use that in \<open>induction w; auto simp: paren_depth_def is_ws_def\<close>, simp)
  obtain a b where ab: "s = a @ trim s @ b" "\<forall>c \<in> set a. is_ws c" "\<forall>c \<in> set b. is_ws c"
    using trim_decomp by blast
  from assms have "nested_from 0 (a @ trim s @ b)" by (subst (asm) ab(1))
  with skip [OF ab(2)] have "nested_from 0 (trim s @ b)" by simp
  from tail [OF ab(3) this] show ?thesis .
qed

lemma single_factor:
  "readable_group g \<Longrightarrow> tryParseRequestRuleExpr nt (buildRuleGroupFactor g) = Inr (Some [g])"
  using rules_read_back [of "[g]" nt] group_reads_back [of g nt]
  by (simp add: buildRequestRuleExpr_def closed_part_def)

lemma sortParts_factors:
  "list_all readable_group gs \<Longrightarrow> sortParts nt (map buildRuleGroupFactor gs) = Inr (map buildRuleGroupFactor gs, [])"
  by (induction gs) (simp_all add: single_factor)

lemma combined_parts:
  assumes "nested_from 0 base" "trim base = base" "base \<noteq> []" "list_all readable_group gs" "gs \<noteq> []"
  defines "t \<equiv> combineBillingExpr base (buildRequestRuleExpr gs)"
  shows "trim t = t \<and> splitTopLevelMultiply t = (js ''('' @ base @ js '')'') # map buildRuleGroupFactor gs"
proof -
  let ?p = "js ''('' @ base @ js '')''" and ?ps = "map buildRuleGroupFactor gs"
  note closed = factors_closed [OF assms(4)]
  have j: "join (js '' * '') ?ps \<noteq> []" "trim (join (js '' * '') ?ps) = join (js '' * '') ?ps"
    using trim_join [OF _ closed] assms(5) by auto
  have t: "t = ?p @ js '' * '' @ join (js '' * '') ?ps"
    using assms(2,3) j by (simp add: t_def combineBillingExpr_def Let_def buildRequestRuleExpr_join [OF assms(4)] js_simps)
  have "trim t = t"
    unfolding t using j trim_last [of "join (js '' * '') ?ps"] by (intro trim_id) (simp add: js_simps is_ws_def)
  moreover have "trim ?p = ?p" by (rule trim_id) (simp add: js_simps is_ws_def)
  moreover have "splitLoop (js '' * '') 0 [] (join (js '' * '') ?ps) = ?ps"
    using splitLoop_join [OF closed] assms(5) by (simp add: sep_literals)
  moreover have "splitLoop (js '' * '') 0 [] t = trim (rev (rev ?p)) # splitLoop (js '' * '') 0 [] (join (js '' * '') ?ps)"
    unfolding t using splitLoop_sep [of 42 "[32]" "rev ?p" "join (js '' * '') ?ps"]
    by (simp only: splitLoop_parenthesised [OF assms(1)] append_assoc) (simp add: sep_literals)
  ultimately show ?thesis
    using closed_parts_filter [OF closed] by (simp add: splitTopLevelMultiply_def js_simps)
qed

lemma split_combine:
  assumes "nested_from 0 base" "trim base \<noteq> []" "list_all readable_group gs" "gs \<noteq> []"
    and "tryParseRequestRuleExpr nt (js ''('' @ trim base @ js '')'') = Inr None"
  shows "splitBillingExprAndRequestRules nt (combineBillingExpr base (buildRequestRuleExpr gs)) =
    Inr \<lparr>billingExpr = unwrapOuterParens base, requestRuleExpr = buildRequestRuleExpr gs\<rparr>"
proof -
  let ?t = "combineBillingExpr (trim base) (buildRequestRuleExpr gs)" and ?ps = "map buildRuleGroupFactor gs"
  note n = nested_trim [OF assms(1)]
  have tb: "combineBillingExpr base r = combineBillingExpr (trim base) r" for r by (simp add: combineBillingExpr_def)
  note parts = combined_parts [OF n trim_trim assms(2,3,4)]
  have "?t \<noteq> []" using parts by (auto simp: splitTopLevelMultiply_def)
  moreover have "unwrapOuterParens (js ''('' @ trim base @ js '')'') = unwrapOuterParens base"
    using unwrap_wrapped [OF n] by (simp add: unwrapOuterParens_def)
  ultimately show ?thesis
    using parts assms(4) sortParts_factors [OF assms(3), of nt]
    by (simp add: tb splitBillingExprAndRequestRules_def Let_def assms(5) buildRequestRuleExpr_join [OF assms(3)])
qed


section \<open>A literal that \<open>JSON.parse\<close> refuses\<close>

definition badHas :: jsstr where
  "badHas = js ''has(header(\"x\"), \"'' @ [92, 113] @ js ''\")''"

lemma badHas_throws: "tryParseRequestCondition nt badHas = Inl SyntaxError"
proof -
  have "tryParseTimeCondition badHas = None" using tryParseTime_none(3) [of "drop 4 badHas"] by (simp add: badHas_def js_simps)
  moreover have "rx_match header_exists_rx badHas = None" "rx_match param_exists_rx badHas = None"
    by (simp_all add: badHas_def rx_match_def header_exists_rx_def param_exists_rx_def rx_simps js_simps)
  moreover have "rx_match header_contains_rx badHas = Some [(2, [34, 92, 113, 34]), (1, [120])]"
    by (simp add: badHas_def rx_match_def header_contains_rx_def string_rx_def rx_star_def rx_cap_def rx_seq.simps(2)
       not_quote_def not_newline_def js_simps)
  moreover have "json_parse [34, 92, 113, 34] = None"
    by (simp add: json_parse_def lex_token_def punctuation_def json_ws_def escape_char_def)
  ultimately show ?thesis by (simp add: tryParseRequestCondition_def containsCondition_def)
qed

interpretation rule_texts: text_format buildRequestRuleExpr "tryParseRequestRuleExpr nt" "list_all readable_group" "\<lambda>gs. Inr (Some gs)" for nt
  by unfold_locales (rule rules_read_back)

text \<open>Different rules are written as different expressions.\<close>

lemma rule_texts_distinct:
  "list_all readable_group gs \<Longrightarrow> list_all readable_group hs \<Longrightarrow> gs \<noteq> hs \<Longrightarrow> buildRequestRuleExpr gs \<noteq> buildRequestRuleExpr hs"
  by (rule rule_texts.print_distinct) simp_all

section \<open>Properties\<close>

text \<open>
  C10: the rule groups the editor writes are the ones it reads back. For all groups of
  readable conditions (time comparisons and overnight ranges, existence and equality of
  parameters and headers, containment in headers, over plain texts) with a numeric
  multiplier, parsing the built expression gives the groups again, in order.
\<close>

theorem request_rules_roundtrip:
  assumes "list_all readable_group gs"
  shows "tryParseRequestRuleExpr nt (buildRequestRuleExpr gs) = Inr (Some gs)"
  by (rule rules_read_back [OF assms])

text \<open>Two groups: a header and an overnight range, and a flag.\<close>

lemmas rule_eval = readable_group_def plain_text_def plain_def TIME_FUNCS_def source_defs match_defs
  NUMERIC_LITERAL_REGEX_def rx_match_def numeric_literal_rx_def rx_opt_def rx_seq.simps(2) is_digit_def
  trim_def trim_left_def is_ws_def escape_unit_def high_surrogate_def low_surrogate_def js_simps

definition sampleGroups :: "RequestRuleGroup list" where
  "sampleGroups =
     [\<lparr>rg_conditions = [mkCondition SOURCE_HEADER (js ''X-Tier'') MATCH_CONTAINS (js ''pro''),
         Time \<lparr>tm_timeFunc = js ''hour'', tm_timezone = js ''UTC'', tm_mode = MATCH_RANGE, tm_value = [],
           tm_rangeStart = js ''22'', tm_rangeEnd = js ''6''\<rparr>], rg_multiplier = js ''0.5''\<rparr>,
      \<lparr>rg_conditions = [mkCondition SOURCE_PARAM (js ''stream'') MATCH_EQ (js ''true'')], rg_multiplier = js ''2''\<rparr>]"

lemma sampleGroups_readable: "list_all readable_group sampleGroups"
  by (simp add: sampleGroups_def mkCondition_def rule_eval)

theorem request_rules_roundtrip_witness:
  "list_all readable_group sampleGroups \<and>
   tryParseRequestRuleExpr id (buildRequestRuleExpr sampleGroups) = Inr (Some sampleGroups)"
  using request_rules_roundtrip [OF sampleGroups_readable, of id] sampleGroups_readable by simp

text \<open>
  C14: a billing expression that was combined from a tier expression and rule groups with readable
  conditions (no guarded ones) splits into both again. The tier expression may hold products and conditionals of its own as long as
  its parentheses match and it is not itself a rule; it comes back without the outer
  parentheses that combining put around it.
\<close>

theorem billing_expr_split_combine:
  assumes "nested_from 0 base" and "trim base \<noteq> []" and "list_all readable_group gs" and "gs \<noteq> []"
    and "tryParseRequestRuleExpr nt (js ''('' @ trim base @ js '')'') = Inr None"
  shows "splitBillingExprAndRequestRules nt (combineBillingExpr base (buildRequestRuleExpr gs)) =
    Inr \<lparr>billingExpr = unwrapOuterParens base, requestRuleExpr = buildRequestRuleExpr gs\<rparr>"
  by (rule split_combine [OF assms])

definition sampleBase :: jsstr where
  "sampleBase = js ''(p * 2)''"

lemma sampleBase_facts:
  "nested_from 0 sampleBase" "trim sampleBase \<noteq> []" "unwrapOuterParens sampleBase = js ''p * 2''"
  "tryParseRequestRuleExpr nt (js ''('' @ trim sampleBase @ js '')'') = Inr None"
proof -
  show "nested_from 0 sampleBase" "trim sampleBase \<noteq> []" "unwrapOuterParens sampleBase = js ''p * 2''"
    by (simp_all add: sampleBase_def unwrapOuterParens_def unwrapLoop.simps hasFullOuterParens_def Let_def peel_def
        ends_with_def rule_eval paren_depth_def)
  have t: "js ''('' @ trim sampleBase @ js '')'' = js ''((p * 2))''"
    by (simp add: sampleBase_def rule_eval)
  show "tryParseRequestRuleExpr nt (js ''('' @ trim sampleBase @ js '')'') = Inr None"
    unfolding t
    by (simp add: tryParseRequestRuleExpr_def splitTopLevelMultiply_def Let_def paren_depth_def rule_eval)
      (simp add: tryParseRuleGroupFactor_def rx_match_def factor_rx_def rx_seq.simps(2) rx_cap_def js_simps)
qed

theorem billing_expr_split_combine_witness:
  "splitBillingExprAndRequestRules id (combineBillingExpr sampleBase (buildRequestRuleExpr sampleGroups)) =
    Inr \<lparr>billingExpr = js ''p * 2'', requestRuleExpr = buildRequestRuleExpr sampleGroups\<rparr>"
  using billing_expr_split_combine [OF sampleBase_facts(1,2) sampleGroups_readable _ sampleBase_facts(4), of id]
    sampleBase_facts(3) by (simp add: sampleGroups_def)

text \<open>
  C28: rules with a comparison or a containment on a request parameter are not read back. Take rule
  groups whose multipliers are numbers and whose conditions are readable ones and guarded ones,
  comparisons of a parameter with a number or a containment in it, with plain texts as path and
  value. When one condition in one group is guarded, the reader answers that the whole expression
  is no list of rules: the editor writes \<open>param(p) != nil && ...\<close>; the reader splits the
  conjunction first, and the second half alone is no condition, so the patterns that know the
  guarded form never see it.
\<close>

theorem guarded_rules_unreadable:
  assumes "list_all writable_group gs" and "list_ex guarded_group gs"
  shows "tryParseRequestRuleExpr nt (buildRequestRuleExpr gs) = Inr None"
  by (rule guarded_unreadable [OF assms])

definition sampleGuarded :: RequestCondition where
  "sampleGuarded = mkCondition SOURCE_PARAM (js ''max_tokens'') MATCH_GT (js ''4096'')"

theorem guarded_rules_unreadable_witness:
  "tryParseRequestRuleExpr id (buildRequestRuleExpr (sampleGroups @
     [\<lparr>rg_conditions = [mkCondition SOURCE_HEADER (js ''X-Tier'') MATCH_CONTAINS (js ''pro''), sampleGuarded], rg_multiplier = js ''2''\<rparr>])) =
   Inr None"
proof (rule guarded_rules_unreadable)
  have g: "guarded_condition sampleGuarded"
    by (simp add: guarded_condition_def sampleGuarded_def mkCondition_def rule_eval)
  have "NUMERIC_LITERAL_REGEX (js ''2'')" "readable_condition (mkCondition SOURCE_HEADER (js ''X-Tier'') MATCH_CONTAINS (js ''pro''))"
    by (simp_all add: mkCondition_def rule_eval)
  moreover have "list_all writable_group sampleGroups"
    using sampleGroups_readable by (auto simp: list_all_iff readable_group_def writable_group_def)
  ultimately show "list_all writable_group (sampleGroups @
     [\<lparr>rg_conditions = [mkCondition SOURCE_HEADER (js ''X-Tier'') MATCH_CONTAINS (js ''pro''), sampleGuarded], rg_multiplier = js ''2''\<rparr>])"
    using g by (simp add: writable_group_def)
  show "list_ex guarded_group (sampleGroups @
     [\<lparr>rg_conditions = [mkCondition SOURCE_HEADER (js ''X-Tier'') MATCH_CONTAINS (js ''pro''), sampleGuarded], rg_multiplier = js ''2''\<rparr>])"
    using g by (simp add: guarded_group_def)
qed

text \<open>
  \<open>unwrapOuterParens\<close> ends. It peels at most as many layers as the trimmed text has
  characters, peels only while the parentheses enclose the whole text, and leaves a text
  that they do not enclose.
\<close>

lemma unwrap_terminates:
  "\<exists>n \<le> length (trim expr). unwrapOuterParens expr = (peel ^^ n) (trim expr) \<and>
     list_all (\<lambda>k. hasFullOuterParens ((peel ^^ k) (trim expr))) [0..<n] \<and>
     \<not> hasFullOuterParens (unwrapOuterParens expr)"
  using unwrapLoop_iterates [of "trim expr"] by (auto simp: unwrapOuterParens_def list_all_iff)

text \<open>
  \<open>normalizeCondition\<close> always gives a well-typed condition, whatever fields are
  missing or wrong: a known source, a known time function, a time zone, and a match mode the
  editor offers for that source. Normalising again changes nothing.
\<close>

lemma normalize_condition_normal:
  "normal_condition (normalizeCondition cond) \<and>
   normalizeCondition (Some (partialOf (normalizeCondition cond))) = normalizeCondition cond"
  using normalizeCondition_normal normalizeCondition_id by blast

text \<open>
  A rule whose \<open>has\<close> literal has an unknown escape makes the parser throw a
  \<open>SyntaxError\<close> instead of answering that the text is no rule: the pattern accepts every
  escaped character, \<open>JSON.parse\<close> does not, and the call is not guarded.
\<close>

lemma has_literal_throws:
  "tryParseRequestRuleExpr nt (js ''(has(header(\"x\"), \"'' @ [92, 113] @ js ''\") ? 2 : 1)'') = Inl SyntaxError"
proof -
  have c: "condition_text badHas" by (simp add: badHas_def condition_text_def js_simps is_ws_def paren_depth_def)
  then have s: "splitTopLevelAnd badHas = [badHas]"
    using splitTopLevelAnd_join [of "[badHas]"] condition_text_closed by simp
  have n: "NUMERIC_LITERAL_REGEX (js ''2'')" by (simp add: rule_eval)
  have ne: "badHas \<noteq> []" using c by (simp add: condition_text_def)
  obtain k where "rx_match factor_rx (js ''('' @ badHas @ js '' ? '' @ js ''2'' @ js '' : 1)'') = Some k" "capture k 1 = badHas"
    using factor_parse [OF numeric_chars [OF n] numeric_ne [OF n] ne] by blast
  moreover have "trim badHas = badHas" using c by (simp add: condition_text_def trim_id)
  ultimately have "tryParseRuleGroupFactor nt (js ''('' @ badHas @ js '' ? '' @ js ''2'' @ js '' : 1)'') = Inl SyntaxError"
    by (simp add: tryParseRuleGroupFactor_def s badHas_throws)
  moreover have "closed_part 42 (js ''('' @ badHas @ js '' ? '' @ js ''2'' @ js '' : 1)'')"
    using c n by (intro factor_closed) (simp_all add: condition_text_def)
  ultimately have "tryParseRequestRuleExpr nt (js ''('' @ badHas @ js '' ? '' @ js ''2'' @ js '' : 1)'') = Inl SyntaxError"
    using one_factor by simp
  then show ?thesis by (simp add: badHas_def js_simps)
qed

end
