(* ===== verification/Billing_Tiers.thy ===== *)
theory Billing_Tiers
  imports JS_Json JS_Regex
begin

text \<open>
  The price tiers of \<open>features/pricing/lib/billing-expr.ts\<close>: the registry of billing
  variables and the parser that reads tiers, their conditions and their prices out of a
  billing expression by global regular expressions.
\<close>

section \<open>The registry of variables\<close>

record BillingVar =
  bv_key :: jsstr
  bv_field :: "jsstr option"
  bv_tierField :: "jsstr option"
  bv_label :: jsstr
  bv_shortLabel :: jsstr
  bv_side :: jsstr
  bv_isBase :: bool
  bv_isConditionOnly :: bool
  bv_group :: "jsstr option"

definition priced :: "string \<Rightarrow> string \<Rightarrow> string \<Rightarrow> string \<Rightarrow> string \<Rightarrow> string \<Rightarrow> bool \<Rightarrow> string option \<Rightarrow> BillingVar" where
  "priced key field tierField label short side base grp =
     \<lparr>bv_key = js key, bv_field = Some (js field), bv_tierField = Some (js tierField), bv_label = js label,
      bv_shortLabel = js short, bv_side = js side, bv_isBase = base, bv_isConditionOnly = False,
      bv_group = map_option js grp\<rparr>"

definition BILLING_VARS :: "BillingVar list" where
  "BILLING_VARS =
     [priced ''p'' ''inputPrice'' ''input_unit_cost'' ''Input price'' ''Input'' ''input'' True None,
      priced ''c'' ''outputPrice'' ''output_unit_cost'' ''Completion price'' ''Output'' ''output'' True None,
      \<lparr>bv_key = js ''len'', bv_field = None, bv_tierField = None, bv_label = js ''Input length'',
       bv_shortLabel = js ''Length'', bv_side = js ''condition'', bv_isBase = False, bv_isConditionOnly = True,
       bv_group = None\<rparr>,
      priced ''cr'' ''cacheReadPrice'' ''cache_read_unit_cost'' ''Cache read price'' ''Cache Read'' ''input'' False (Some ''cache''),
      priced ''cc'' ''cacheCreatePrice'' ''cache_create_unit_cost'' ''Cache create price'' ''Cache Write'' ''input'' False (Some ''cache''),
      priced ''cc1h'' ''cacheCreate1hPrice'' ''cache_create_1h_unit_cost'' ''Cache create (1h) price'' ''Cache Write (1h)'' ''input'' False (Some ''cache''),
      priced ''img'' ''imagePrice'' ''image_unit_cost'' ''Image input price'' ''Image In'' ''input'' False (Some ''media''),
      priced ''img_o'' ''imageOutputPrice'' ''image_output_unit_cost'' ''Image output price'' ''Image Out'' ''output'' False (Some ''media''),
      priced ''ai'' ''audioInputPrice'' ''audio_input_unit_cost'' ''Audio input price'' ''Audio In'' ''input'' False (Some ''media''),
      priced ''ao'' ''audioOutputPrice'' ''audio_output_unit_cost'' ''Audio output price'' ''Audio Out'' ''output'' False (Some ''media'')]"

definition BILLING_PRICING_VARS :: "BillingVar list" where
  "BILLING_PRICING_VARS = filter (\<lambda>v. \<not> bv_isConditionOnly v) BILLING_VARS"

definition BILLING_CONDITION_VARS :: "jsstr list" where
  "BILLING_CONDITION_VARS = map bv_key (filter (\<lambda>v. bv_isBase v \<or> bv_isConditionOnly v) BILLING_VARS)"

definition BILLING_VAR_KEY_TO_FIELD :: "(jsstr \<times> jsstr) list" where
  "BILLING_VAR_KEY_TO_FIELD = map (\<lambda>v. (bv_key v, or_empty (bv_field v))) BILLING_PRICING_VARS"

definition BILLING_EXTRA_VARS :: "BillingVar list" where
  "BILLING_EXTRA_VARS = filter (\<lambda>v. \<not> bv_isBase v \<and> \<not> bv_isConditionOnly v) BILLING_VARS"

definition BILLING_CACHE_VAR_MAP :: "(jsstr \<times> jsstr) list" where
  "BILLING_CACHE_VAR_MAP = map (\<lambda>v. (or_empty (bv_tierField v), bv_key v)) BILLING_EXTRA_VARS"

definition BILLING_VAR_REGEX :: rx where
  "BILLING_VAR_REGEX = rx_seq [rx_cap 1 (rx_alt (map (rx_lit \<circ> bv_key) BILLING_PRICING_VARS)),
     rx_many is_ws, rx_lit (js ''*''), rx_many is_ws, rx_cap 2 (rx_some num_char)]"

text \<open>\<open>\b\<close> before a word character.\<close>

definition word_start :: "code_unit option \<Rightarrow> bool" where
  "word_start prev = (case prev of None \<Rightarrow> True | Some c \<Rightarrow> \<not> is_word c)"

section \<open>Tiers\<close>

record TierCondition =
  tc_var :: jsstr
  tc_op :: jsstr
  tc_value :: jsnum

record ParsedTier =
  pt_label :: jsstr
  pt_conditions :: "TierCondition list"
  pt_prices :: "(jsstr \<times> jsnum) list"

definition version_rx :: "rx list" where
  "version_rx = [rx_lit (js ''v''), rx_cap 1 (rx_some is_digit), rx_lit (js '':''), rx_cap 2 (rx_many (\<lambda>_. True))]"

record StrippedExpr =
  se_version :: jsnum
  se_body :: jsstr

definition stripExprVersion :: "jsstr \<Rightarrow> StrippedExpr" where
  "stripExprVersion exprStr =
     (if exprStr = [] then \<lparr>se_version = Fin 1, se_body = []\<rparr>
      else case rx_match version_rx exprStr of
          Some m \<Rightarrow> \<lparr>se_version = number_of_string (capture m 1), se_body = capture m 2\<rparr>
        | None \<Rightarrow> \<lparr>se_version = Fin 1, se_body = exprStr\<rparr>)"

text \<open>The first coefficient of a variable counts.\<close>

definition addCoefficient :: "(jsstr \<times> jsnum) list \<Rightarrow> captures \<Rightarrow> (jsstr \<times> jsnum) list" where
  "addCoefficient coeffs m =
     (if map_of coeffs (capture m 1) = None
      then coeffs @ [(capture m 1, number_of_string (capture m 2))] else coeffs)"

text \<open>\<open>x || 0\<close> on a number that may be missing.\<close>

definition num_or_zero :: "jsnum option \<Rightarrow> jsnum" where
  "num_or_zero x = (case x of Some (Fin q) \<Rightarrow> Fin q | Some (Infinite b) \<Rightarrow> Infinite b | _ \<Rightarrow> Fin 0)"

definition parseTierBody :: "jsstr \<Rightarrow> (jsstr \<times> jsnum) list" where
  "parseTierBody bodyStr =
     (let coeffs = foldl addCoefficient [] (rx_all word_start BILLING_VAR_REGEX None bodyStr) in
      map (\<lambda>(varName, field). (field, num_or_zero (map_of coeffs varName))) BILLING_VAR_KEY_TO_FIELD)"

definition cond_num_char :: "code_unit \<Rightarrow> bool" where
  "cond_num_char c \<longleftrightarrow> is_digit c \<or> c = 46 \<or> c = 101 \<or> c = 69 \<or> c = 43"

definition cond_var_rx :: rx where
  "cond_var_rx = rx_alt [rx_lit (js ''p''), rx_lit (js ''c''), rx_lit (js ''len'')]"

definition cond_op_rx :: rx where
  "cond_op_rx = rx_alt [rx_lit (js ''<''), rx_lit (js ''<=''), rx_lit (js ''>''), rx_lit (js ''>='')]"

definition cond_rx :: rx where
  "cond_rx = rx_seq [cond_var_rx, rx_many is_ws, cond_op_rx, rx_many is_ws, rx_some cond_num_char]"

definition and_rx :: rx where
  "and_rx = rx_seq [rx_many is_ws, rx_lit (js ''&&''), rx_many is_ws]"

definition cond_group_rx :: rx where
  "cond_group_rx = rx_cap 1 (rx_seq [cond_rx, rx_star (rx_seq [and_rx, cond_rx])])"

definition tier_rx :: rx where
  \<open>tier_rx = rx_seq
     [rx_opt (rx_seq [cond_group_rx, rx_many is_ws, rx_lit (js ''?''), rx_many is_ws]),
      rx_lit (js ''tier("''), rx_cap 2 (rx_many (\<lambda>c. c \<noteq> 34)), rx_lit (js ''",''), rx_many is_ws,
      rx_cap 3 (rx_some (\<lambda>c. c \<noteq> 41)), rx_lit (js '')'')]\<close>

definition parseTierCondition :: "jsstr \<Rightarrow> TierCondition option" where
  "parseTierCondition cp =
     (case rx_match [rx_cap 1 cond_var_rx, rx_many is_ws, rx_cap 2 cond_op_rx, rx_many is_ws,
        rx_cap 3 (rx_some cond_num_char)] (trim cp) of
        Some cm \<Rightarrow> Some \<lparr>tc_var = capture cm 1, tc_op = capture cm 2, tc_value = number_of_string (capture cm 3)\<rparr>
      | None \<Rightarrow> None)"

definition parseTierMatch :: "captures \<Rightarrow> ParsedTier" where
  "parseTierMatch m =
     (let condStr = capture m 1 in
      \<lparr>pt_label = capture m 2,
       pt_conditions = (if condStr = [] then [] else List.map_filter parseTierCondition (rx_split and_rx [] condStr)),
       pt_prices = parseTierBody (capture m 3)\<rparr>)"

definition parseTiersFromExpr :: "jsstr \<Rightarrow> ParsedTier list" where
  "parseTiersFromExpr exprStr =
     (if exprStr = [] then []
      else map parseTierMatch (rx_all (\<lambda>_. True) tier_rx None (se_body (stripExprVersion exprStr))))"

text \<open>The three replacements of a label; \<open>lower\<close> is the lower-casing of the language.\<close>

definition less_rx :: rx where
  "less_rx = rx_alt [rx_seq [rx_lit [60], rx_opt (rx_one (\<lambda>c. c = 61 \<or> c = 65309))], rx_lit [8804],
     rx_seq [rx_lit [65308], rx_opt (rx_one (\<lambda>c. c = 61 \<or> c = 65309))]]"

definition greater_rx :: rx where
  "greater_rx = rx_alt [rx_seq [rx_lit [62], rx_opt (rx_one (\<lambda>c. c = 61 \<or> c = 65309))], rx_lit [8805],
     rx_seq [rx_lit [65310], rx_opt (rx_one (\<lambda>c. c = 61 \<or> c = 65309))]]"

definition normalizeTierLabel :: "(jsstr \<Rightarrow> jsstr) \<Rightarrow> jsstr option \<Rightarrow> jsstr" where
  "normalizeTierLabel lower label =
     (if or_empty label = [] then []
      else lower (rx_replace (rx_some is_ws) []
        (rx_replace greater_rx [62] (rx_replace less_rx [60] (or_empty label)))))"

end
