(* ===== verification/Tier_Editor.thy ===== *)
theory Tier_Editor
  imports Billing_Tiers
begin

text \<open>
  The visual tier editor of \<open>features/pricing/lib/tier-expr.ts\<close>: tiers with conditions and
  unit costs, the expression generated from them and the parser that tries to read such an
  expression back into the editor. The text of a number in a template literal is the
  parameter \<open>nt\<close>.
\<close>

section \<open>Tiers of the editor\<close>

definition CACHE_MODE_TIMED :: jsstr where "CACHE_MODE_TIMED = js ''timed''"
definition CACHE_MODE_GENERIC :: jsstr where "CACHE_MODE_GENERIC = js ''generic''"

datatype ConditionValue = CNum jsnum | CStr jsstr

record TierConditionInput =
  ti_var :: jsstr
  ti_op :: jsstr
  ti_value :: "ConditionValue option"

text \<open>The extra unit costs by their field name; a missing field has no entry.\<close>

record PartialTier =
  pv_label :: "jsstr option"
  pv_conditions :: "TierConditionInput list option"
  pv_input_unit_cost :: "jsnum option"
  pv_output_unit_cost :: "jsnum option"
  pv_cache_mode :: "jsstr option"
  pv_costs :: "(jsstr \<times> jsnum) list"

record VisualTier =
  vt_label :: jsstr
  vt_conditions :: "TierConditionInput list"
  vt_input_unit_cost :: jsnum
  vt_output_unit_cost :: jsnum
  vt_cache_mode :: jsstr
  vt_costs :: "(jsstr \<times> jsnum) list"

type_synonym VisualConfig = "VisualTier list"

definition extra_cost_fields :: "jsstr list" where
  "extra_cost_fields = [js ''cache_read_unit_cost'', js ''cache_create_unit_cost'', js ''cache_create_1h_unit_cost'',
     js ''image_unit_cost'', js ''image_output_unit_cost'', js ''audio_input_unit_cost'', js ''audio_output_unit_cost'']"

fun positive :: "jsnum option \<Rightarrow> bool" where
  "positive (Some (Fin q)) \<longleftrightarrow> 0 < q"
| "positive (Some (Infinite neg)) \<longleftrightarrow> \<not> neg"
| "positive _ \<longleftrightarrow> False"

definition getTierCacheMode :: "PartialTier \<Rightarrow> jsstr" where
  "getTierCacheMode tier =
     (if pv_cache_mode tier = Some CACHE_MODE_TIMED then CACHE_MODE_TIMED
      else if pv_cache_mode tier = Some CACHE_MODE_GENERIC then CACHE_MODE_GENERIC
      else if positive (map_of (pv_costs tier) (js ''cache_create_1h_unit_cost'')) then CACHE_MODE_TIMED
      else CACHE_MODE_GENERIC)"

text \<open>A field of the argument overrides the default before it, the extra costs override it back.\<close>

definition normalizeVisualTier :: "PartialTier \<Rightarrow> VisualTier" where
  "normalizeVisualTier tier =
     \<lparr>vt_label = or_empty (pv_label tier),
      vt_conditions = (case pv_conditions tier of Some cs \<Rightarrow> cs | None \<Rightarrow> []),
      vt_input_unit_cost = (case pv_input_unit_cost tier of Some x \<Rightarrow> x | None \<Rightarrow> Fin 0),
      vt_output_unit_cost = (case pv_output_unit_cost tier of Some x \<Rightarrow> x | None \<Rightarrow> Fin 0),
      vt_cache_mode = (case pv_cache_mode tier of Some m \<Rightarrow> m | None \<Rightarrow> getTierCacheMode tier),
      vt_costs = map (\<lambda>f. (f, num_or_zero (map_of (pv_costs tier) f))) extra_cost_fields\<rparr>"

definition partialTier :: "VisualTier \<Rightarrow> PartialTier" where
  "partialTier t = \<lparr>pv_label = Some (vt_label t), pv_conditions = Some (vt_conditions t),
     pv_input_unit_cost = Some (vt_input_unit_cost t), pv_output_unit_cost = Some (vt_output_unit_cost t),
     pv_cache_mode = Some (vt_cache_mode t), pv_costs = vt_costs t\<rparr>"

definition createDefaultVisualConfig :: VisualConfig where
  "createDefaultVisualConfig =
     [normalizeVisualTier \<lparr>pv_label = Some (js ''base''), pv_conditions = Some [], pv_input_unit_cost = Some (Fin 0),
        pv_output_unit_cost = Some (Fin 0), pv_cache_mode = Some CACHE_MODE_GENERIC, pv_costs = []\<rparr>]"

definition normalizeVisualConfig :: "VisualConfig option \<Rightarrow> VisualConfig" where
  "normalizeVisualConfig config =
     (case config of
        None \<Rightarrow> createDefaultVisualConfig
      | Some tiers \<Rightarrow> if tiers = [] then createDefaultVisualConfig
          else map (normalizeVisualTier \<circ> partialTier) tiers)"

section \<open>Generating the expression\<close>

fun valueText :: "(jsnum \<Rightarrow> jsstr) \<Rightarrow> ConditionValue \<Rightarrow> jsstr" where
  "valueText nt (CNum x) = nt x"
| "valueText nt (CStr s) = s"

definition conditionFilled :: "TierConditionInput \<Rightarrow> bool" where
  "conditionFilled c \<longleftrightarrow> ti_var c \<noteq> [] \<and> ti_op c \<noteq> [] \<and> ti_value c \<noteq> None \<and> ti_value c \<noteq> Some (CStr [])"

definition buildConditionStr :: "(jsnum \<Rightarrow> jsstr) \<Rightarrow> TierConditionInput list \<Rightarrow> jsstr" where
  "buildConditionStr nt conditions =
     join (js '' && '') (map (\<lambda>c. ti_var c @ js '' '' @ ti_op c @ js '' '' @ valueText nt (the (ti_value c)))
       (filter conditionFilled conditions))"

definition buildTierBodyExpr :: "(jsnum \<Rightarrow> jsstr) \<Rightarrow> VisualTier \<Rightarrow> jsstr" where
  "buildTierBodyExpr nt tier =
     (let ic = num_or_zero (Some (vt_input_unit_cost tier));
          oc = num_or_zero (Some (vt_output_unit_cost tier));
          extra = List.map_filter (\<lambda>(field, exprVar).
            let v = num_or_zero (map_of (vt_costs tier) field) in
            if v \<noteq> Fin 0 then Some (exprVar @ js '' * '' @ nt v) else None) BILLING_CACHE_VAR_MAP in
      join (js '' + '') ((js ''p * '' @ nt ic) # (js ''c * '' @ nt oc) # extra))"

definition tierCall :: "(jsnum \<Rightarrow> jsstr) \<Rightarrow> jsstr \<Rightarrow> VisualTier \<Rightarrow> jsstr" where
  "tierCall nt label tier = js ''tier(\"'' @ label @ js ''\", '' @ buildTierBodyExpr nt tier @ js '')''"

text \<open>The parts of a configuration with several tiers; \<open>i\<close> is the index of the first one.\<close>

fun tierParts :: "(jsnum \<Rightarrow> jsstr) \<Rightarrow> nat \<Rightarrow> VisualTier list \<Rightarrow> jsstr list" where
  "tierParts nt i [] = []"
| "tierParts nt i (tier # tiers) =
     (let label = or_default (Some (vt_label tier)) (js ''tier_'' @ show_nat (i + 1));
          body = tierCall nt label tier;
          cond = buildConditionStr nt (vt_conditions tier) in
      (if tiers \<noteq> [] \<and> cond \<noteq> [] then cond @ js '' ? '' @ body else body) # tierParts nt (i + 1) tiers)"

definition generateExprFromVisualConfig :: "(jsnum \<Rightarrow> jsstr) \<Rightarrow> VisualConfig option \<Rightarrow> jsstr" where
  "generateExprFromVisualConfig nt config =
     (case config of
        None \<Rightarrow> js ''p * 0 + c * 0''
      | Some [] \<Rightarrow> js ''p * 0 + c * 0''
      | Some [tier] \<Rightarrow>
          (let label = or_default (Some (vt_label tier)) (js ''default'');
               body = tierCall nt label tier;
               cond = buildConditionStr nt (vt_conditions tier) in
           if cond \<noteq> [] then cond @ js '' ? '' @ body @ js '' : p * 0 + c * 0'' else body)
      | Some tiers \<Rightarrow> join (js '' : '') (tierParts nt 0 tiers))"

section \<open>Reading the expression\<close>

text \<open>The product of a variable and a number, the number captured.\<close>

definition product_rx :: "jsstr \<Rightarrow> nat \<Rightarrow> rx list" where
  "product_rx v n = [rx_lit v, rx_many is_ws, rx_lit (js ''*''), rx_many is_ws, rx_cap n (rx_some num_char)]"

definition plus_rx :: "rx list" where
  "plus_rx = [rx_many is_ws, rx_lit (js ''+''), rx_many is_ws]"

text \<open>\<open>bodyPat\<close>, with its first capture numbered \<open>n\<close>.\<close>

definition body_rx :: "nat \<Rightarrow> rx list" where
  "body_rx n = product_rx (js ''p'') n @ plus_rx @ product_rx (js ''c'') (n + 1) @
     map (\<lambda>(i, v). rx_opt (rx_seq (plus_rx @ product_rx v (n + 2 + i)))) (enumerate 0 (map snd BILLING_CACHE_VAR_MAP))"

definition single_rx :: "rx list" where
  \<open>single_rx = [rx_lit (js ''tier("''), rx_cap 1 (rx_many (\<lambda>c. c \<noteq> 34)), rx_lit (js ''",''), rx_many is_ws] @
     body_rx 2 @ [rx_lit (js '')'')]\<close>

definition visual_tier_rx :: rx where
  \<open>visual_tier_rx = rx_seq (
     [rx_opt (rx_seq [cond_group_rx, rx_many is_ws, rx_lit (js ''?''), rx_many is_ws]),
      rx_lit (js ''tier("''), rx_cap 2 (rx_many (\<lambda>c. c \<noteq> 34)), rx_lit (js ''",''), rx_many is_ws] @
     body_rx 3 @ [rx_lit (js '')'')])\<close>

text \<open>The costs that took part in the match, from the capture numbered \<open>n\<close> on.\<close>

definition capturedCosts :: "captures \<Rightarrow> nat \<Rightarrow> (jsstr \<times> jsnum) list" where
  "capturedCosts m n = List.map_filter (\<lambda>(i, field, exprVar).
     case map_of m (n + i) of Some val \<Rightarrow> Some (field, number_of_string val) | None \<Rightarrow> None)
     (enumerate 0 BILLING_CACHE_VAR_MAP)"

definition inputCondition :: "TierCondition \<Rightarrow> TierConditionInput" where
  "inputCondition c = \<lparr>ti_var = tc_var c, ti_op = tc_op c, ti_value = Some (CNum (tc_value c))\<rparr>"

definition capturedTier :: "jsstr \<Rightarrow> TierConditionInput list \<Rightarrow> captures \<Rightarrow> nat \<Rightarrow> VisualTier" where
  "capturedTier label conditions m n = normalizeVisualTier
     \<lparr>pv_label = Some label, pv_conditions = Some conditions,
      pv_input_unit_cost = Some (number_of_string (capture m n)),
      pv_output_unit_cost = Some (number_of_string (capture m (n + 1))), pv_cache_mode = None,
      pv_costs = capturedCosts m (n + 2)\<rparr>"

definition visualTierMatch :: "captures \<Rightarrow> VisualTier" where
  "visualTierMatch m =
     (let condStr = capture m 1;
          conditions = (if condStr = [] then []
            else map inputCondition (List.map_filter parseTierCondition (rx_split and_rx [] condStr))) in
      capturedTier (capture m 2) conditions m 3)"

definition strip_ws :: "jsstr \<Rightarrow> jsstr" where
  "strip_ws s = rx_replace (rx_some is_ws) [] s"

definition visual_version_rx :: "rx list" where
  "visual_version_rx = [rx_lit (js ''v''), rx_some is_digit, rx_lit (js '':''), rx_cap 1 (rx_many (\<lambda>_. True))]"

definition tryParseVisualConfig :: "(jsnum \<Rightarrow> jsstr) \<Rightarrow> jsstr option \<Rightarrow> VisualConfig option" where
  "tryParseVisualConfig nt exprStr =
     (if or_empty exprStr = [] then None
      else let body = (case rx_match visual_version_rx (or_empty exprStr) of
             Some m \<Rightarrow> capture m 1 | None \<Rightarrow> or_empty exprStr) in
      case rx_match single_rx body of
        Some m \<Rightarrow> Some (normalizeVisualConfig (Some [capturedTier (capture m 1) [] m 2]))
      | None \<Rightarrow>
          (let tiers = map visualTierMatch (rx_all (\<lambda>_. True) visual_tier_rx None body) in
           if tiers = [] then None
           else let cfg = normalizeVisualConfig (Some tiers) in
           if strip_ws (generateExprFromVisualConfig nt (Some cfg)) \<noteq> strip_ws body then None
           else Some cfg))"

section \<open>The estimator\<close>

definition ESTIMATOR_VARS :: "(jsstr \<times> jsstr) list" where
  "ESTIMATOR_VARS = [(js ''cr'', js ''cacheReadTokens''), (js ''cc'', js ''cacheCreateTokens''),
     (js ''cc1h'', js ''cacheCreate1hTokens''), (js ''img'', js ''imageTokens''), (js ''img_o'', js ''imageOutputTokens''),
     (js ''ai'', js ''audioInputTokens''), (js ''ao'', js ''audioOutputTokens'')]"

definition exprUsesExtraVars :: "jsstr \<Rightarrow> bool" where
  "exprUsesExtraVars exprStr \<longleftrightarrow> exprStr \<noteq> [] \<and>
     rx_all word_start (rx_seq [rx_alt (map (rx_lit \<circ> fst) ESTIMATOR_VARS), rx_word_end]) None exprStr \<noteq> []"

end
