(* ===== verification/Tier_Texts.thy ===== *)
theory Tier_Texts
  imports Tier_Editor
begin

text \<open>
  The texts of tier expressions: how the patterns of the tier parser read the text of
  prices, of conditions and of a sequence of tiers.
\<close>

section \<open>Prices\<close>

definition num_text :: "jsstr \<Rightarrow> bool" where
  "num_text n \<longleftrightarrow> n \<noteq> [] \<and> list_all num_char n"

definition pricing_keys :: "jsstr list" where
  "pricing_keys = [js ''p'', js ''c'', js ''cr'', js ''cc'', js ''cc1h'', js ''img'', js ''img_o'', js ''ai'', js ''ao'']"

lemma pricing_keys: "map bv_key BILLING_PRICING_VARS = pricing_keys"
  by (simp add: pricing_keys_def BILLING_PRICING_VARS_def BILLING_VARS_def priced_def)

lemma var_regex: "BILLING_VAR_REGEX = rx_seq [rx_cap 1 (rx_alt (map rx_lit pricing_keys)),
     rx_many is_ws, rx_lit (js ''*''), rx_many is_ws, rx_cap 2 (rx_some num_char)]"
  by (simp add: BILLING_VAR_REGEX_def flip: pricing_keys)

definition product_text :: "jsstr \<times> jsstr \<Rightarrow> jsstr" where
  "product_text vn = fst vn @ js '' * '' @ snd vn"

lemma product_tail:
  assumes "num_text n" "s = [] \<or> \<not> num_char (hd s)"
  shows "rx_first (rx_seq [rx_many is_ws, rx_lit (js ''*''), rx_many is_ws, rx_cap 2 (rx_some num_char)])
    (c, js '' * '' @ n @ s) ((2, n) # c, s)"
proof -
  obtain x n' where n: "n = x # n'" "num_char x" using assms(1) by (cases n) (auto simp: num_text_def)
  have x: "\<not> is_ws x" using n(2) by (auto simp: num_char_def is_digit_def is_ws_def)
  have "rx_first (rx_many is_ws) (c, [32] @ (js ''* '' @ n @ s)) (c, js ''* '' @ n @ s)"
    by (rule first_many) (simp_all add: js_simps is_ws_def)
  moreover have "rx_first (rx_lit (js ''*'')) (c, js ''*'' @ ([32] @ n @ s)) (c, [32] @ n @ s)" by (rule first_lit)
  moreover have "rx_first (rx_many is_ws) (c, [32] @ (n @ s)) (c, n @ s)"
    using x n by (intro first_many) (simp_all add: is_ws_def)
  moreover have "rx_first (rx_cap 2 (rx_some num_char)) (c, n @ s) ((2, n) # c, s)"
    using assms by (intro first_cap first_some) (simp_all add: num_text_def)
  ultimately show ?thesis
    using first_seq_Cons first_seq_Nil by (simp add: js_simps)
qed

lemma product_first:
  assumes "v \<in> set pricing_keys" "num_text n" "s = [] \<or> \<not> num_char (hd s)"
  shows "rx_first BILLING_VAR_REGEX ([], product_text (v, n) @ s) ([(2, n), (1, v)], s)"
proof -
  let ?rs = "[rx_many is_ws, rx_lit (js ''*''), rx_many is_ws, rx_cap 2 (rx_some num_char)]"
  obtain rest where t: "rx_seq ?rs ([(1, v)], js '' * '' @ n @ s) = ([(2, n), (1, v)], s) # rest"
    using product_tail [OF assms(2,3), of "[(1, v)]"] by (auto simp: rx_first_def)
  have f: "rx_seq ?rs (c, x # y) = []" if "x \<noteq> 42" "\<not> is_ws x" for c x y
    using that by (simp add: rx_seq.simps(2) js_simps)
  have "v \<in> set pricing_keys" by (rule assms(1))
  then consider "v = js ''p''" | "v = js ''c''" | "v = js ''cr''" | "v = js ''cc''" | "v = js ''cc1h''" | "v = js ''img''"
    | "v = js ''img_o''" | "v = js ''ai''" | "v = js ''ao''" by (auto simp: pricing_keys_def)
  then show ?thesis
    by cases (use t f in \<open>simp_all add: rx_first_def var_regex pricing_keys_def product_text_def rx_step_alt_Cons rx_step_alt_Nil js_simps is_ws_def\<close>)
qed

lemma var_regex_none: "x \<notin> {112, 99, 105, 97} \<Longrightarrow> BILLING_VAR_REGEX ([], x # s) = []"
  by (simp add: var_regex pricing_keys_def rx_step_alt_Cons rx_step_alt_Nil js_simps)

definition product_ok :: "jsstr \<times> jsstr \<Rightarrow> bool" where
  "product_ok vn \<longleftrightarrow> fst vn \<in> set pricing_keys \<and> num_text (snd vn)"

lemma body_matches:
  assumes "list_all product_ok ps" and "word_start prev"
  shows "rx_all word_start BILLING_VAR_REGEX prev (join (js '' + '') (map product_text ps)) = map (\<lambda>(v, n). [(2, n), (1, v)]) ps"
  using assms
proof (induction ps arbitrary: prev)
  case (Cons vn ps)
  obtain v n where vn: "vn = (v, n)" by force
  have ok: "v \<in> set pricing_keys" "num_text n" using Cons.prems vn by (simp_all add: product_ok_def)
  have ne: "product_text (v, n) \<noteq> []" by (simp add: product_text_def)
  have m: "rx_all word_start BILLING_VAR_REGEX prev (product_text (v, n) @ s) =
      [(2, n), (1, v)] # rx_all word_start BILLING_VAR_REGEX (Some (last (product_text (v, n)))) s"
    if "s = [] \<or> \<not> num_char (hd s)" for s
    by (rule rx_all_match [of word_start, OF Cons.prems(2) product_first [OF ok that] ne])
  show ?case
  proof (cases "ps = []")
    case True
    with m [of "[]"] vn show ?thesis by simp
  next
    case False
    let ?r = "join (js '' + '') (map product_text ps)"
    have "rx_all word_start BILLING_VAR_REGEX p (js '' + '' @ ?r) = rx_all word_start BILLING_VAR_REGEX (Some 32) ?r" for p
      by (simp add: js_simps rx_all_skip var_regex_none del: rx_all.simps)
    moreover have "word_start (Some 32)" by (simp add: word_start_def is_word_def is_digit_def)
    moreover have "\<not> num_char (hd (js '' + '' @ ?r))" by (simp add: js_simps num_char_def is_digit_def)
    ultimately show ?thesis
      using m [of "js '' + '' @ ?r"] False Cons vn by (simp add: join_Cons)
  qed
qed simp

lemma foldl_coefficients:
  "distinct (map fst acc @ map fst ps) \<Longrightarrow>
    foldl addCoefficient acc (map (\<lambda>(v, n). [(2, n), (1, v)]) ps) = acc @ map (\<lambda>(v, n). (v, number_of_string n)) ps"
proof (induction ps arbitrary: acc)
  case (Cons vn ps)
  obtain v n where vn: "vn = (v, n)" by force
  have "map_of acc v = None" using Cons.prems vn by (auto simp: map_of_eq_None_iff)
  with Cons vn show ?case by (simp add: addCoefficient_def)
qed simp

lemma map_of_map_snd: "map_of (map (\<lambda>(v, n). (v, f n)) ps) k = map_option f (map_of ps k)"
  by (induction ps) auto

lemma parse_products:
  assumes "list_all product_ok ps" and "distinct (map fst ps)"
  shows "parseTierBody (join (js '' + '') (map product_text ps)) =
    map (\<lambda>(v, field). (field, num_or_zero (map_option number_of_string (map_of ps v)))) BILLING_VAR_KEY_TO_FIELD"
proof -
  have "word_start None" by (simp add: word_start_def)
  from body_matches [OF assms(1) this] show ?thesis
    using foldl_coefficients [of "[]" ps] assms(2) by (simp add: parseTierBody_def map_of_map_snd)
qed

section \<open>Conditions\<close>

text \<open>Variable, operator and number text of a condition.\<close>

type_synonym cond_parts = "jsstr \<times> jsstr \<times> jsstr"

definition cond_ops :: "jsstr list" where
  "cond_ops = [js ''<'', js ''<='', js ''>'', js ''>='']"

definition cond_vars :: "jsstr list" where
  "cond_vars = [js ''p'', js ''c'', js ''len'']"

fun cond_ok :: "cond_parts \<Rightarrow> bool" where
  "cond_ok (v, opr, n) \<longleftrightarrow> v \<in> set cond_vars \<and> opr \<in> set cond_ops \<and> n \<noteq> [] \<and> list_all cond_num_char n"

fun cond_text :: "cond_parts \<Rightarrow> jsstr" where
  "cond_text (v, opr, n) = v @ js '' '' @ opr @ js '' '' @ n"

lemma cond_num_not_ws: "cond_num_char x \<Longrightarrow> \<not> is_ws x \<and> x \<noteq> 61 \<and> x \<noteq> 38 \<and> x \<noteq> 63 \<and> x \<noteq> 32"
  by (auto simp: cond_num_char_def is_digit_def is_ws_def)

text \<open>The rest of the pattern after the variable, with what follows the operator.\<close>

lemma cond_number_first:
  assumes "n \<noteq> []" "list_all cond_num_char n" "s = [] \<or> \<not> cond_num_char (hd s)"
  shows "rx_first (rx_seq [rx_many is_ws, rx_some cond_num_char]) (c, 32 # n @ s) (c, s)"
    and "rx_first (rx_seq [rx_many is_ws, rx_cap k (rx_some cond_num_char)]) (c, 32 # n @ s) ((k, n) # c, s)"
proof -
  obtain x n' where n: "n = x # n'" "cond_num_char x" using assms(1,2) by (cases n) auto
  have w: "rx_first (rx_many is_ws) (c, [32] @ (n @ s)) (c, n @ s)"
    using cond_num_not_ws [OF n(2)] n(1) by (intro first_many) (simp_all add: is_ws_def)
  have "rx_first (rx_some cond_num_char) (c, n @ s) (c, s)" by (rule first_some [OF assms(2,1,3)])
  with w show "rx_first (rx_seq [rx_many is_ws, rx_some cond_num_char]) (c, 32 # n @ s) (c, s)"
    and "rx_first (rx_seq [rx_many is_ws, rx_cap k (rx_some cond_num_char)]) (c, 32 # n @ s) ((k, n) # c, s)"
    by (auto intro!: first_seq_Cons first_seq_Nil first_cap)
qed

lemma equals_sign_none:
  "rx_seq [rx_many is_ws, rx_some cond_num_char] (c, 61 # s) = []"
  "rx_seq (rx_many is_ws # rx_cap k (rx_some cond_num_char) # rs) (c, 61 # s) = []"
  by (simp_all add: rx_seq.simps(2) is_ws_def cond_num_char_def is_digit_def rx_cap_def)

lemma cond_op_first:
  assumes "opr \<in> set cond_ops" "n \<noteq> []" "list_all cond_num_char n" "s = [] \<or> \<not> cond_num_char (hd s)"
  shows "rx_first (rx_seq [cond_op_rx, rx_many is_ws, rx_some cond_num_char]) (c, opr @ 32 # n @ s) (c, s)"
proof -
  obtain rest where t: "rx_seq [rx_many is_ws, rx_some cond_num_char] (c, 32 # n @ s) = (c, s) # rest"
    using cond_number_first(1) [OF assms(2-4), of c] by (auto simp: rx_first_def)
  have alt: "rx_seq (rx_alt (rx_lit l # as) # rs) (c, y) =
      (if starts_with y l then rx_seq rs (c, drop (length l) y) else []) @ rx_seq (rx_alt as # rs) (c, y)"
    "rx_seq (rx_alt [] # rs) (c, y) = []" for l as rs y
    by (simp_all add: rx_seq.simps(2))
  consider "opr = js ''<''" | "opr = js ''<=''" | "opr = js ''>''" | "opr = js ''>=''" using assms(1) by (auto simp: cond_ops_def)
  then show ?thesis
    by cases (simp_all add: rx_first_def cond_op_rx_def alt t equals_sign_none js_simps)
qed

lemma cond_first:
  assumes "cond_ok k" "s = [] \<or> \<not> cond_num_char (hd s)"
  shows "rx_first cond_rx (c, cond_text k @ s) (c, s)"
proof -
  obtain v opr n where k: "k = (v, opr, n)" by (cases k)
  have ok: "v \<in> set cond_vars" "opr \<in> set cond_ops" "n \<noteq> []" "list_all cond_num_char n" using assms(1) k by auto
  have o: "opr \<noteq> [] \<and> \<not> is_ws (hd opr)" using ok(2) by (auto simp: cond_ops_def js_simps is_ws_def)
  have v: "rx_first cond_var_rx (c, v @ 32 # z) (c, 32 # z)" for z
    using ok(1) by (auto simp: cond_vars_def cond_var_rx_def rx_first_def js_simps)
  have w: "rx_first (rx_many is_ws) (c, 32 # opr @ 32 # n @ s) (c, opr @ 32 # n @ s)"
    using o first_many [of is_ws "[32]" "opr @ 32 # n @ s" c] by (simp add: is_ws_def)
  from first_seq_Cons [OF v first_seq_Cons [OF w cond_op_first [OF ok(2-4) assms(2), of c]]]
  show ?thesis by (simp add: k cond_rx_def js_simps)
qed

text \<open>The separator of a conjunction of conditions.\<close>

lemma and_first:
  assumes "s \<noteq> []" "\<not> is_ws (hd s)"
  shows "rx_first and_rx (c, js '' && '' @ s) (c, s)"
proof -
  have a: "rx_first (rx_many is_ws) (c, 32 # 38 # 38 # 32 # s) (c, 38 # 38 # 32 # s)"
    using first_many [of is_ws "[32]" "38 # 38 # 32 # s" c] by (simp add: is_ws_def)
  have b: "rx_first (rx_lit (js ''&&'')) (c, 38 # 38 # 32 # s) (c, 32 # s)"
    using first_lit [of "js ''&&''" c "32 # s"] by (simp add: js_simps)
  have w: "rx_first (rx_many is_ws) (c, 32 # s) (c, s)"
    using first_many [of is_ws "[32]" s c] assms by (simp add: is_ws_def)
  from first_seq_Cons [OF a first_seq_Cons [OF b first_seq_Cons [OF w first_seq_Nil]]]
  show ?thesis by (simp add: and_rx_def js_simps)
qed

lemma and_none:
  "\<not> is_ws x \<Longrightarrow> x \<noteq> 38 \<Longrightarrow> and_rx (c, x # s) = []"
  "\<not> is_ws y \<Longrightarrow> y \<noteq> 38 \<Longrightarrow> and_rx (c, 32 # y # s) = []"
proof -
  have "is_ws 32" by (simp add: is_ws_def)
  then show "\<not> is_ws x \<Longrightarrow> x \<noteq> 38 \<Longrightarrow> and_rx (c, x # s) = []"
    "\<not> is_ws y \<Longrightarrow> y \<noteq> 38 \<Longrightarrow> and_rx (c, 32 # y # s) = []"
    by (simp_all add: and_rx_def rx_seq.simps(2) js_simps)
qed

lemma cond_text_hd: "cond_ok k \<Longrightarrow> cond_text k \<noteq> [] \<and> \<not> is_ws (hd (cond_text k)) \<and> hd (cond_text k) \<noteq> 118"
  by (cases k) (auto simp: cond_vars_def js_simps is_ws_def)

lemma conds_iter:
  assumes "list_all cond_ok ks" and "s = 32 # 63 # s'"
    and "length (concat (map (\<lambda>k. js '' && '' @ cond_text k) ks) @ s) \<le> m"
  shows "rx_first (rx_iter m (rx_seq [and_rx, cond_rx])) (c, concat (map (\<lambda>k. js '' && '' @ cond_text k) ks) @ s) (c, s)"
  using assms(1,3)
proof (induction ks arbitrary: m)
  case Nil
  have "and_rx (c, s) = []" using assms(2) and_none(2) [of 63] by (simp add: is_ws_def)
  then have "rx_seq [and_rx, cond_rx] (c, s) = []" by (simp add: rx_seq.simps(2))
  then show ?case by (simp add: first_iter_stop)
next
  case (Cons k ks)
  let ?r = "concat (map (\<lambda>k. js '' && '' @ cond_text k) ks) @ s"
  obtain i where m: "m = Suc i" using Cons.prems(2) by (cases m) (auto simp: js_simps)
  have k: "cond_ok k" using Cons.prems by simp
  have "rx_first and_rx (c, js '' && '' @ cond_text k @ ?r) (c, cond_text k @ ?r)"
    using cond_text_hd [OF k] by (intro and_first) simp_all
  moreover have "?r = [] \<or> \<not> cond_num_char (hd ?r)"
    using assms(2) by (cases ks) (simp_all add: js_simps cond_num_char_def is_digit_def)
  ultimately have "rx_first (rx_seq [and_rx, cond_rx]) (c, js '' && '' @ cond_text k @ ?r) (c, ?r)"
    using cond_first [OF k, of ?r c] first_seq_Cons first_seq_Nil by blast
  moreover have "rx_first (rx_iter i (rx_seq [and_rx, cond_rx])) (c, ?r) (c, s)"
    using Cons.prems m by (intro Cons.IH) (simp_all add: js_simps)
  ultimately have "rx_first (rx_iter (Suc i) (rx_seq [and_rx, cond_rx])) (c, js '' && '' @ cond_text k @ ?r) (c, s)"
    by (intro first_iter_step [of _ _ "(c, ?r)"]) (simp_all add: js_simps)
  then show ?case by (simp add: m del: rx_iter.simps)
qed

lemma join_and: "ks \<noteq> [] \<Longrightarrow> join sep (map f ks) = f (hd ks) @ concat (map (\<lambda>k. sep @ f k) (tl ks))"
proof (induction ks)
  case (Cons k ks)
  then show ?case by (cases ks) simp_all
qed simp

lemma cond_group_first:
  assumes "list_all cond_ok ks" "ks \<noteq> []" "s = 32 # 63 # s'"
  defines "t \<equiv> join (js '' && '') (map cond_text ks)"
  shows "rx_first cond_group_rx ([], t @ s) ([(1, t)], s)"
proof -
  obtain k ks' where ks: "ks = k # ks'" using assms(2) by (meson neq_Nil_conv)
  let ?r = "concat (map (\<lambda>k. js '' && '' @ cond_text k) ks') @ s"
  have t: "t @ s = cond_text k @ ?r" using join_and [OF assms(2), of "js '' && ''" cond_text] by (simp add: t_def ks)
  have "?r = [] \<or> \<not> cond_num_char (hd ?r)"
    using assms(3) by (cases ks') (simp_all add: js_simps cond_num_char_def is_digit_def)
  then have "rx_first cond_rx ([], cond_text k @ ?r) ([], ?r)" using assms(1) ks by (intro cond_first) simp_all
  moreover have "rx_first (rx_star (rx_seq [and_rx, cond_rx])) ([], ?r) ([], s)"
    using conds_iter [OF _ assms(3) order_refl, of ks' "[]"] assms(1) ks by (simp add: rx_first_def rx_star_def)
  ultimately have "rx_first (rx_seq [cond_rx, rx_star (rx_seq [and_rx, cond_rx])]) ([], t @ s) ([], s)"
    unfolding t using first_seq_Cons first_seq_Nil by blast
  then show ?thesis unfolding cond_group_rx_def by (rule first_cap)
qed

section \<open>Tiers\<close>

lemma tier_call_first:
  assumes "34 \<notin> set label" "body \<noteq> []" "41 \<notin> set body" "\<not> is_ws (hd body)"
  shows "rx_first (rx_seq [rx_lit (js ''tier(\"''), rx_cap 2 (rx_many (\<lambda>c. c \<noteq> 34)), rx_lit (js ''\",''), rx_many is_ws,
      rx_cap 3 (rx_some (\<lambda>c. c \<noteq> 41)), rx_lit (js '')'')])
    (c, js ''tier(\"'' @ label @ js ''\", '' @ body @ js '')'' @ s) ((3, body) # (2, label) # c, s)"
proof -
  let ?c = "(2, label) # c"
  have a: "rx_first (rx_lit (js ''tier(\"'')) (c, js ''tier(\"'' @ label @ js ''\", '' @ body @ js '')'' @ s)
      (c, label @ js ''\", '' @ body @ js '')'' @ s)" by (rule first_lit)
  have b: "rx_first (rx_cap 2 (rx_many (\<lambda>c. c \<noteq> 34))) (c, label @ js ''\", '' @ body @ js '')'' @ s)
      (?c, js ''\", '' @ body @ js '')'' @ s)"
    using assms(1) by (intro first_cap first_many) (auto simp: list_all_iff js_simps)
  have d: "rx_first (rx_lit (js ''\",'')) (?c, js ''\", '' @ body @ js '')'' @ s) (?c, 32 # body @ js '')'' @ s)"
    using first_lit [of "js ''\",''" ?c "32 # body @ js '')'' @ s"] by (simp add: js_simps)
  have e: "rx_first (rx_many is_ws) (?c, 32 # body @ js '')'' @ s) (?c, body @ js '')'' @ s)"
    using first_many [of is_ws "[32]" "body @ js '')'' @ s" ?c] assms(2,4) by (simp add: is_ws_def)
  have f: "rx_first (rx_cap 3 (rx_some (\<lambda>c. c \<noteq> 41))) (?c, body @ js '')'' @ s) ((3, body) # ?c, js '')'' @ s)"
    using assms(2,3) by (intro first_cap first_some) (auto simp: list_all_iff js_simps)
  have g: "rx_first (rx_lit (js '')'')) ((3, body) # ?c, js '')'' @ s) ((3, body) # ?c, s)" by (rule first_lit)
  from first_seq_Cons [OF a first_seq_Cons [OF b first_seq_Cons [OF d first_seq_Cons [OF e first_seq_Cons [OF f
    first_seq_Cons [OF g first_seq_Nil]]]]]] show ?thesis .
qed

definition tier_text :: "jsstr \<Rightarrow> jsstr \<Rightarrow> jsstr" where
  "tier_text label body = js ''tier(\"'' @ label @ js ''\", '' @ body @ js '')''"

lemma cond_var_none: "x \<notin> {112, 99, 108} \<Longrightarrow> cond_group_rx (c, x # s) = []"
  by (simp add: cond_group_rx_def rx_cap_def cond_rx_def cond_var_rx_def rx_seq.simps(2) js_simps)

lemma tier_none: "x \<notin> {112, 99, 108, 116} \<Longrightarrow> tier_rx ([], x # s) = []"
  by (simp add: tier_rx_def rx_seq.simps(2) [of "rx_opt _"] rx_opt_def cond_var_none rx_step_lit
    rx_seq.simps(2) [of cond_group_rx] js_simps)

lemma tier_first_plain:
  assumes "34 \<notin> set label" "body \<noteq> []" "41 \<notin> set body" "\<not> is_ws (hd body)"
  shows "rx_first tier_rx ([], tier_text label body @ s) ([(3, body), (2, label)], s)"
proof -
  let ?t = "js ''tier(\"'' @ label @ js ''\", '' @ body @ js '')'' @ s"
  have "rx_first (rx_opt (rx_seq [cond_group_rx, rx_many is_ws, rx_lit (js ''?''), rx_many is_ws])) ([], ?t) ([], ?t)"
    by (rule first_opt_skip) (simp add: js_simps rx_seq.simps(2) [of cond_group_rx] cond_var_none)
  from first_seq_Cons [OF this tier_call_first [OF assms]] show ?thesis by (simp add: tier_rx_def tier_text_def)
qed

lemma tier_first_cond:
  assumes "34 \<notin> set label" "body \<noteq> []" "41 \<notin> set body" "\<not> is_ws (hd body)" "list_all cond_ok ks" "ks \<noteq> []"
  defines "t \<equiv> join (js '' && '') (map cond_text ks)"
  shows "rx_first tier_rx ([], (t @ js '' ? '' @ tier_text label body) @ s) ([(3, body), (2, label), (1, t)], s)"
proof -
  let ?u = "js ''tier(\"'' @ label @ js ''\", '' @ body @ js '')'' @ s" and ?c = "[(1, t)]"
  have a: "rx_first cond_group_rx ([], t @ 32 # 63 # 32 # ?u) (?c, 32 # 63 # 32 # ?u)"
    unfolding t_def by (rule cond_group_first [OF assms(5,6) refl])
  have b: "rx_first (rx_many is_ws) (?c, 32 # 63 # 32 # ?u) (?c, 63 # 32 # ?u)"
    using first_many [of is_ws "[32]" "63 # 32 # ?u" ?c] by (simp add: is_ws_def)
  have d: "rx_first (rx_lit (js ''?'')) (?c, 63 # 32 # ?u) (?c, 32 # ?u)"
    using first_lit [of "js ''?''" ?c "32 # ?u"] by (simp add: js_simps)
  have e: "rx_first (rx_many is_ws) (?c, 32 # ?u) (?c, ?u)"
    using first_many [of is_ws "[32]" ?u ?c] by (simp add: is_ws_def js_simps)
  have "rx_first (rx_opt (rx_seq [cond_group_rx, rx_many is_ws, rx_lit (js ''?''), rx_many is_ws])) ([], t @ 32 # 63 # 32 # ?u) (?c, ?u)"
    by (rule first_opt [OF first_seq_Cons [OF a first_seq_Cons [OF b first_seq_Cons [OF d first_seq_Cons [OF e first_seq_Nil]]]]])
  from first_seq_Cons [OF this tier_call_first [OF assms(1-4)]] show ?thesis
    by (simp add: tier_rx_def tier_text_def js_simps)
qed

section \<open>Reading the conditions of a tier\<close>

lemma split_char: "and_rx ([], x # s) = [] \<Longrightarrow> rx_split and_rx cur (x # s) = rx_split and_rx (x # cur) s"
  by (simp add: rx_exec_none)

lemma split_run:
  assumes "list_all (\<lambda>x. \<not> is_ws x \<and> x \<noteq> 38) a"
  shows "rx_split and_rx cur (a @ s) = rx_split and_rx (rev a @ cur) s"
  using assms
proof (induction a arbitrary: cur)
  case (Cons x a)
  then show ?case using split_char [of x "a @ s" cur] and_none(1) [of x "[]" "a @ s"] by (simp del: rx_split.simps)
qed simp

lemma split_space:
  "\<not> is_ws y \<Longrightarrow> y \<noteq> 38 \<Longrightarrow> rx_split and_rx cur (32 # y # s) = rx_split and_rx (32 # cur) (y # s)"
  using split_char [of 32 "y # s" cur] and_none(2) [of y "[]" s] by (simp del: rx_split.simps)

lemma split_cond:
  assumes "cond_ok k"
  shows "rx_split and_rx [] (cond_text k @ s) = rx_split and_rx (rev (cond_text k)) s"
proof -
  obtain v opr n where k: "k = (v, opr, n)" by (cases k)
  have ok: "v \<in> set cond_vars" "opr \<in> set cond_ops" "n \<noteq> []" "list_all cond_num_char n" using assms k by auto
  have v: "list_all (\<lambda>x. \<not> is_ws x \<and> x \<noteq> 38) v" using ok(1) by (auto simp: cond_vars_def js_simps is_ws_def)
  have o: "list_all (\<lambda>x. \<not> is_ws x \<and> x \<noteq> 38) opr" "opr \<noteq> []" using ok(2) by (auto simp: cond_ops_def js_simps is_ws_def)
  have n: "list_all (\<lambda>x. \<not> is_ws x \<and> x \<noteq> 38) n" using ok(4) by (rule list_all_mono) (simp add: cond_num_not_ws)
  obtain y opr' where y: "opr = y # opr'" using o(2) by (meson neq_Nil_conv)
  obtain z n' where z: "n = z # n'" using ok(3) by (meson neq_Nil_conv)
  have "rx_split and_rx [] (cond_text k @ s) = rx_split and_rx (rev v) (32 # opr @ 32 # n @ s)"
    using split_run [OF v] by (simp add: k js_simps)
  also have "\<dots> = rx_split and_rx (32 # rev v) (opr @ 32 # n @ s)"
    using split_space [of y] o(1) y by simp
  also have "\<dots> = rx_split and_rx (rev opr @ 32 # rev v) (32 # n @ s)" by (rule split_run [OF o(1)])
  also have "\<dots> = rx_split and_rx (32 # rev opr @ 32 # rev v) (n @ s)"
    using split_space [of z] n z by simp
  also have "\<dots> = rx_split and_rx (rev n @ 32 # rev opr @ 32 # rev v) s" by (rule split_run [OF n])
  finally show ?thesis by (simp add: k js_simps)
qed

lemma split_conds:
  "list_all cond_ok ks \<Longrightarrow> ks \<noteq> [] \<Longrightarrow> rx_split and_rx [] (join (js '' && '') (map cond_text ks)) = map cond_text ks"
proof (induction ks)
  case (Cons k ks)
  have k: "cond_ok k" using Cons.prems by simp
  show ?case
  proof (cases "ks = []")
    case True
    with split_cond [OF k, of "[]"] show ?thesis by simp
  next
    case False
    let ?r = "join (js '' && '') (map cond_text ks)"
    have "?r \<noteq> [] \<and> \<not> is_ws (hd ?r)"
      using False Cons.prems join_and [OF False, of "js '' && ''" cond_text] cond_text_hd [of "hd ks"]
      by (cases ks) auto
    then have "rx_exec and_rx (js '' && '' @ ?r) = Some ([], ?r)"
      by (intro rx_exec_first and_first) (simp_all add: js_simps)
    then have "rx_split and_rx cur (js '' && '' @ ?r) = rev cur # rx_split and_rx [] ?r" for cur
      by (simp add: js_simps)
    with False Cons split_cond [OF k, of "js '' && '' @ ?r"] show ?thesis
      by (simp add: join_Cons del: rx_split.simps)
  qed
qed simp

fun parsed_cond :: "cond_parts \<Rightarrow> TierCondition" where
  "parsed_cond (v, opr, n) = \<lparr>tc_var = v, tc_op = opr, tc_value = number_of_string n\<rparr>"

lemma parse_cond:
  assumes "cond_ok k"
  shows "parseTierCondition (cond_text k) = Some (parsed_cond k)"
proof -
  obtain v opr n where k: "k = (v, opr, n)" by (cases k)
  have ok: "v \<in> set cond_vars" "opr \<in> set cond_ops" "n \<noteq> []" "list_all cond_num_char n" using assms k by auto
  have l: "\<not> is_ws (last n)" using ok(3,4) cond_num_not_ws by (auto simp: list_all_iff)
  then have trim: "trim (cond_text k) = cond_text k"
    using cond_text_hd [OF assms] ok(3) by (intro trim_id) (simp add: k)
  let ?c = "[(1, v)]" and ?c2 = "[(2, opr), (1, v)]"
  have num: "rx_first (rx_seq [rx_many is_ws, rx_cap 3 (rx_some cond_num_char), rx_end]) (?c2, 32 # n) ((3, n) # ?c2, [])"
  proof -
    have a: "rx_first (rx_many is_ws) (?c2, 32 # n) (?c2, n)"
      using first_many [of is_ws "[32]" n ?c2] ok(3,4) cond_num_not_ws by (cases n) (auto simp: is_ws_def)
    have b: "rx_first (rx_cap 3 (rx_some cond_num_char)) (?c2, n) ((3, n) # ?c2, [])"
      using first_cap [OF first_some [OF ok(4,3), of "[]"]] by simp
    have e: "rx_first rx_end ((3, n) # ?c2, []) ((3, n) # ?c2, [])" by (simp add: rx_first_def)
    from first_seq_Cons [OF a first_seq_Cons [OF b first_seq_Cons [OF e first_seq_Nil]]] show ?thesis .
  qed
  then obtain rest where t: "rx_seq [rx_many is_ws, rx_cap 3 (rx_some cond_num_char), rx_end] (?c2, 32 # n) = ((3, n) # ?c2, []) # rest"
    by (auto simp: rx_first_def)
  have op: "rx_first (rx_seq [rx_cap 2 cond_op_rx, rx_many is_ws, rx_cap 3 (rx_some cond_num_char), rx_end])
      (?c, opr @ 32 # n) ((3, n) # ?c2, [])"
  proof -
    consider "opr = js ''<''" | "opr = js ''<=''" | "opr = js ''>''" | "opr = js ''>=''" using ok(2) by (auto simp: cond_ops_def)
    then show ?thesis
      by cases (use t in \<open>simp_all add: rx_first_def cond_op_rx_def rx_step_alt_Cons rx_step_alt_Nil equals_sign_none js_simps\<close>)
  qed
  have w: "rx_first (rx_many is_ws) (?c, 32 # opr @ 32 # n) (?c, opr @ 32 # n)"
    using first_many [of is_ws "[32]" "opr @ 32 # n" ?c] ok(2) by (auto simp: cond_ops_def js_simps is_ws_def)
  have v: "rx_first (rx_cap 1 cond_var_rx) ([], v @ 32 # opr @ 32 # n) (?c, 32 # opr @ 32 # n)"
    using ok(1) by (intro first_cap) (auto simp: cond_vars_def cond_var_rx_def rx_first_def js_simps)
  from first_seq_Cons [OF v first_seq_Cons [OF w op]]
  have "rx_match [rx_cap 1 cond_var_rx, rx_many is_ws, rx_cap 2 cond_op_rx, rx_many is_ws, rx_cap 3 (rx_some cond_num_char)]
      (cond_text k) = Some ((3, n) # ?c2)"
    by (auto simp: rx_match_def rx_first_def k js_simps)
  then show ?thesis using trim by (simp add: parseTierCondition_def k del: cond_text.simps)
qed

lemma parse_conds: "list_all cond_ok ks \<Longrightarrow> List.map_filter parseTierCondition (map cond_text ks) = map parsed_cond ks"
  by (induction ks) (simp_all add: parse_cond List.map_filter_simps)

section \<open>Reading a sequence of tiers\<close>

text \<open>A tier of the expression: its conditions, its label and the text of its prices.\<close>

type_synonym tier_parts = "cond_parts list \<times> jsstr \<times> jsstr"

fun part_ok :: "tier_parts \<Rightarrow> bool" where
  "part_ok (ks, label, body) \<longleftrightarrow> list_all cond_ok ks \<and> 34 \<notin> set label \<and> body \<noteq> [] \<and> 41 \<notin> set body \<and> \<not> is_ws (hd body)"

fun part_text :: "tier_parts \<Rightarrow> jsstr" where
  "part_text (ks, label, body) =
     (if ks = [] then [] else join (js '' && '') (map cond_text ks) @ js '' ? '') @ tier_text label body"

fun parsed_part :: "tier_parts \<Rightarrow> ParsedTier" where
  "parsed_part (ks, label, body) = \<lparr>pt_label = label, pt_conditions = map parsed_cond ks, pt_prices = parseTierBody body\<rparr>"

lemma part_match:
  assumes "part_ok p"
  shows "\<exists>c. rx_first tier_rx ([], part_text p @ s) (c, s) \<and> parseTierMatch c = parsed_part p"
proof -
  obtain ks label body where p: "p = (ks, label, body)" by (cases p)
  have ok: "34 \<notin> set label" "body \<noteq> []" "41 \<notin> set body" "\<not> is_ws (hd body)" "list_all cond_ok ks" using assms p by auto
  show ?thesis
  proof (cases "ks = []")
    case True
    with tier_first_plain [OF ok(1-4), of s] show ?thesis
      by (intro exI [of _ "[(3, body), (2, label)]"]) (simp add: p parseTierMatch_def capture_def Let_def or_empty_def)
  next
    case False
    let ?t = "join (js '' && '') (map cond_text ks)"
    have ne: "?t \<noteq> []"
      using join_and [OF False, of "js '' && ''" cond_text] cond_text_hd [of "hd ks"] ok(5) False by (cases ks) auto
    show ?thesis
      using tier_first_cond [OF ok(1-5) False, of s] False ne
      by (intro exI [of _ "[(3, body), (2, label), (1, ?t)]"])
        (simp add: p parseTierMatch_def split_conds [OF ok(5)] parse_conds [OF ok(5)])
  qed
qed

lemma part_ne: "part_text p \<noteq> []"
  by (cases p) (simp add: tier_text_def)

lemma tiers_scan:
  assumes "list_all part_ok ps" "ps \<noteq> []"
    and "\<And>prev. rx_all (\<lambda>_. True) tier_rx prev end_text = []"
  shows "map parseTierMatch (rx_all (\<lambda>_. True) tier_rx prev (join (js '' : '') (map part_text ps) @ end_text)) = map parsed_part ps"
  using assms(1,2)
proof (induction ps arbitrary: prev)
  case (Cons p ps)
  have p: "part_ok p" using Cons.prems by simp
  define s where "s = (if ps = [] then end_text else js '' : '' @ join (js '' : '') (map part_text ps) @ end_text)"
  from part_match [OF p] obtain c where c: "rx_first tier_rx ([], part_text p @ s) (c, s)" "parseTierMatch c = parsed_part p" by blast
  have m: "rx_all (\<lambda>_. True) tier_rx prev (part_text p @ s) = c # rx_all (\<lambda>_. True) tier_rx (Some (last (part_text p))) s"
    by (rule rx_all_match [OF _ c(1) part_ne]) simp
  show ?case
  proof (cases "ps = []")
    case True
    with m c(2) assms(3) show ?thesis by (simp add: s_def del: parsed_part.simps part_text.simps)
  next
    case False
    have "rx_all (\<lambda>_. True) tier_rx q (js '' : '' @ r) = rx_all (\<lambda>_. True) tier_rx (Some 32) r" for q r
      by (simp add: js_simps rx_all_skip tier_none del: rx_all.simps)
    with False m c(2) Cons show ?thesis by (simp add: s_def join_Cons del: parsed_part.simps part_text.simps)
  qed
qed simp

end
