(* ===== verification/Tier_Roundtrip.thy ===== *)
theory Tier_Roundtrip
  imports Tier_Texts
begin

text \<open>
  The tier editor and the price page together: every expression generated from a tier
  configuration is read by the tier parser as that configuration.
\<close>

section \<open>From the editor to the parts\<close>

definition conds_of :: "(jsnum \<Rightarrow> jsstr) \<Rightarrow> VisualTier \<Rightarrow> cond_parts list" where
  "conds_of nt tier = map (\<lambda>c. (ti_var c, ti_op c, valueText nt (the (ti_value c)))) (filter conditionFilled (vt_conditions tier))"

text \<open>The unit cost behind a billing variable.\<close>

definition unitCost :: "VisualTier \<Rightarrow> jsstr \<Rightarrow> jsnum" where
  "unitCost tier v =
     (if v = js ''p'' then num_or_zero (Some (vt_input_unit_cost tier))
      else if v = js ''c'' then num_or_zero (Some (vt_output_unit_cost tier))
      else num_or_zero (map_of (vt_costs tier) (or_empty (map_of (map (\<lambda>(f, x). (x, f)) BILLING_CACHE_VAR_MAP) v))))"

definition products_of :: "(jsnum \<Rightarrow> jsstr) \<Rightarrow> VisualTier \<Rightarrow> (jsstr \<times> jsstr) list" where
  "products_of nt tier = (js ''p'', nt (unitCost tier (js ''p''))) # (js ''c'', nt (unitCost tier (js ''c''))) #
     List.map_filter (\<lambda>(field, v). if num_or_zero (map_of (vt_costs tier) field) \<noteq> Fin 0
       then Some (v, nt (num_or_zero (map_of (vt_costs tier) field))) else None) BILLING_CACHE_VAR_MAP"

text \<open>
  A tier that its text represents: the label has no quote, the texts of the filled
  conditions are numbers the condition pattern reads, and the text of each unit cost denotes
  that cost.
\<close>

definition tier_ok :: "(jsnum \<Rightarrow> jsstr) \<Rightarrow> VisualTier \<Rightarrow> bool" where
  "tier_ok nt tier \<longleftrightarrow> 34 \<notin> set (vt_label tier) \<and> list_all cond_ok (conds_of nt tier) \<and>
     list_all (\<lambda>v. num_text (nt (unitCost tier v)) \<and> number_of_string (nt (unitCost tier v)) = unitCost tier v) pricing_keys"

lemma buildConditionStr_text: "buildConditionStr nt (vt_conditions tier) = join (js '' && '') (map cond_text (conds_of nt tier))"
  by (simp add: buildConditionStr_def conds_of_def comp_def)

lemma map_filter_map: "map f (List.map_filter g xs) = List.map_filter (\<lambda>x. map_option f (g x)) xs"
  by (induction xs) (simp_all add: List.map_filter_simps split: option.splits)

lemma buildTierBodyExpr_text: "buildTierBodyExpr nt tier = join (js '' + '') (map product_text (products_of nt tier))"
proof -
  have "(\<lambda>x. map_option product_text ((\<lambda>(field, v). if num_or_zero (map_of (vt_costs tier) field) \<noteq> Fin 0
       then Some (v, nt (num_or_zero (map_of (vt_costs tier) field))) else None) x)) =
     (\<lambda>(field, exprVar). let v = num_or_zero (map_of (vt_costs tier) field) in
        if v \<noteq> Fin 0 then Some (exprVar @ js '' * '' @ nt v) else None)"
    by (auto simp: product_text_def Let_def fun_eq_iff)
  then show ?thesis
    by (simp add: buildTierBodyExpr_def products_of_def map_filter_map Let_def unitCost_def product_text_def js_simps)
qed

lemma cache_keys: "map snd BILLING_CACHE_VAR_MAP = drop 2 pricing_keys"
  by (simp add: BILLING_CACHE_VAR_MAP_def BILLING_EXTRA_VARS_def BILLING_VARS_def priced_def pricing_keys_def)

lemma keys_distinct: "distinct pricing_keys"
  by (simp add: pricing_keys_def js_simps)

lemma keys_split: "pricing_keys = js ''p'' # js ''c'' # map snd BILLING_CACHE_VAR_MAP"
  by (simp add: cache_keys) (simp add: pricing_keys_def)

lemma cache_distinct: "distinct (map snd BILLING_CACHE_VAR_MAP)" "js ''p'' \<notin> snd ` set BILLING_CACHE_VAR_MAP"
  "js ''c'' \<notin> snd ` set BILLING_CACHE_VAR_MAP"
  using keys_distinct unfolding keys_split by auto

lemma map_filter_keys: "set (map fst (List.map_filter (\<lambda>(f, v). if P f then Some (v, h f) else None) m)) \<subseteq> snd ` set m"
  by (force simp: List.map_filter_def split: if_splits)

lemma map_filter_distinct:
  "distinct (map snd m) \<Longrightarrow> distinct (map fst (List.map_filter (\<lambda>(f, v). if P f then Some (v, h f) else None) m))"
proof (induction m)
  case (Cons e m)
  then show ?case using map_filter_keys [of P h m] by (cases e) (auto simp: List.map_filter_simps)
qed (simp add: List.map_filter_simps)

lemma map_filter_lookup:
  "distinct (map snd m) \<Longrightarrow> (f, v) \<in> set m \<Longrightarrow>
    map_of (List.map_filter (\<lambda>(f, v). if P f then Some (v, h f) else None) m) v = (if P f then Some (h f) else None)"
proof (induction m)
  case (Cons e m)
  obtain f' v' where e: "e = (f', v')" by force
  have k: "v \<notin> fst ` set (List.map_filter (\<lambda>(f, v). if P f then Some (v, h f) else None) m)" if "v \<notin> snd ` set m" for v
    using map_filter_keys [of P h m] that by auto
  show ?case
  proof (cases "v = v'")
    case True
    then have "f = f'" "v \<notin> snd ` set m" using Cons.prems e by (auto simp: image_iff)
    with True e k [of v] show ?thesis by (auto simp: List.map_filter_simps map_of_eq_None_iff)
  next
    case False
    with Cons e show ?thesis by (auto simp: List.map_filter_simps)
  qed
qed simp

lemma unitCost_extra:
  assumes "(f, v) \<in> set BILLING_CACHE_VAR_MAP"
  shows "unitCost tier v = num_or_zero (map_of (vt_costs tier) f)"
proof -
  have "v \<noteq> js ''p''" "v \<noteq> js ''c''" using assms cache_distinct(2,3) by force+
  moreover have "map_of (map (\<lambda>(f, x). (x, f)) BILLING_CACHE_VAR_MAP) v = Some f"
    using assms cache_distinct(1) by (intro map_of_is_SomeI) (force simp: comp_def case_prod_unfold)+
  ultimately show ?thesis by (simp add: unitCost_def)
qed

lemma num_or_zero_idem [simp]: "num_or_zero (Some (num_or_zero x)) = num_or_zero x"
  by (auto simp: num_or_zero_def split: option.splits jsnum.splits)

lemma unitCost_num: "num_or_zero (Some (unitCost tier v)) = unitCost tier v"
  by (simp add: unitCost_def)

lemma js_pc: "js ''p'' \<noteq> js ''c''" "js ''c'' \<noteq> js ''p''"
  by (simp_all add: js_simps)

lemma products_ok:
  assumes "tier_ok nt tier"
  shows "list_all product_ok (products_of nt tier) \<and> distinct (map fst (products_of nt tier))"
proof -
  let ?m = BILLING_CACHE_VAR_MAP and ?P = "\<lambda>f. num_or_zero (map_of (vt_costs tier) f) \<noteq> Fin 0"
    and ?h = "\<lambda>f. nt (num_or_zero (map_of (vt_costs tier) f))"
  let ?xs = "List.map_filter (\<lambda>(f, v). if ?P f then Some (v, ?h f) else None) ?m"
  have n: "num_text (nt (unitCost tier v))" if "v \<in> set pricing_keys" for v
    using assms that by (auto simp: tier_ok_def list_all_iff)
  have pc: "js ''p'' \<in> set pricing_keys" "js ''c'' \<in> set pricing_keys" by (simp_all add: keys_split)
  have "product_ok x" if x: "x \<in> set ?xs" for x
  proof -
    obtain f v where fv: "(f, v) \<in> set ?m" "x = (v, ?h f)"
      using x by (auto simp: List.map_filter_def split: if_splits)
    then have "v \<in> set pricing_keys" by (force simp: keys_split)
    with n [of v] unitCost_extra [OF fv(1), of tier] fv(2) show ?thesis by (simp add: product_ok_def)
  qed
  moreover have "distinct (map fst ?xs)" "js ''p'' \<notin> fst ` set ?xs" "js ''c'' \<notin> fst ` set ?xs"
    using map_filter_distinct [OF cache_distinct(1)] map_filter_keys [of ?P ?h ?m] cache_distinct(2,3) by auto
  ultimately show ?thesis
    using n pc by (auto simp: products_of_def product_ok_def list_all_iff js_pc)
qed

lemma products_lookup:
  assumes "tier_ok nt tier" "v \<in> set pricing_keys"
  shows "num_or_zero (map_option number_of_string (map_of (products_of nt tier) v)) = unitCost tier v"
proof -
  have n: "number_of_string (nt (unitCost tier v)) = unitCost tier v" using assms by (auto simp: tier_ok_def list_all_iff)
  consider "v = js ''p''" | "v = js ''c''" | f where "(f, v) \<in> set BILLING_CACHE_VAR_MAP"
    using assms(2) unfolding keys_split by auto
  then show ?thesis
  proof cases
    case 1
    with n show ?thesis by (simp add: products_of_def unitCost_num)
  next
    case 2
    with n show ?thesis by (simp add: products_of_def unitCost_num js_pc)
  next
    case 3
    have v: "v \<noteq> js ''p''" "v \<noteq> js ''c''" using 3 cache_distinct(2,3) by force+
    note u = unitCost_extra [OF 3, of tier]
    from map_filter_lookup [OF cache_distinct(1) 3, of "\<lambda>f. num_or_zero (map_of (vt_costs tier) f) \<noteq> Fin 0"
        "\<lambda>f. nt (num_or_zero (map_of (vt_costs tier) f))"]
    have "map_of (products_of nt tier) v = (if unitCost tier v \<noteq> Fin 0 then Some (nt (unitCost tier v)) else None)"
      using v by (simp add: products_of_def u)
    with n show ?thesis by (simp add: unitCost_num) (simp add: num_or_zero_def)
  qed
qed

lemma key_fields: "set (map fst BILLING_VAR_KEY_TO_FIELD) = set pricing_keys"
  by (simp add: BILLING_VAR_KEY_TO_FIELD_def comp_def flip: pricing_keys)

definition shownPrices :: "VisualTier \<Rightarrow> (jsstr \<times> jsnum) list" where
  "shownPrices tier = map (\<lambda>(v, field). (field, unitCost tier v)) BILLING_VAR_KEY_TO_FIELD"

lemma body_parsed:
  assumes "tier_ok nt tier"
  shows "parseTierBody (buildTierBodyExpr nt tier) = shownPrices tier"
proof -
  have "v \<in> set pricing_keys" if "(v, f) \<in> set BILLING_VAR_KEY_TO_FIELD" for v f
    using that key_fields by force
  then show ?thesis
    unfolding buildTierBodyExpr_text shownPrices_def
    using products_ok [OF assms] products_lookup [OF assms] by (auto simp: parse_products)
qed

lemma body_chars:
  assumes "tier_ok nt tier"
  shows "buildTierBodyExpr nt tier \<noteq> [] \<and> 41 \<notin> set (buildTierBodyExpr nt tier) \<and> \<not> is_ws (hd (buildTierBodyExpr nt tier))"
proof -
  have k: "41 \<notin> set v" if "v \<in> set pricing_keys" for v using that by (auto simp: pricing_keys_def js_simps)
  have c: "\<not> num_char 41" by (simp add: num_char_def is_digit_def)
  have "41 \<notin> set (product_text x)" if "x \<in> set (products_of nt tier)" for x
  proof -
    have "product_ok x" using products_ok [OF assms] that by (auto simp: list_all_iff)
    with c k [of "fst x"] show ?thesis
      by (auto simp: product_ok_def product_text_def num_text_def list_all_iff js_simps)
  qed
  then have "41 \<notin> set (join (js '' + '') (map product_text (products_of nt tier)))"
    by (auto simp: js_simps dest!: join_elems)
  moreover have "\<exists>s. join (js '' + '') (map product_text (products_of nt tier)) = 112 # s"
    by (simp add: products_of_def join_Cons product_text_def js_simps)
  ultimately show ?thesis unfolding buildTierBodyExpr_text by (auto simp: is_ws_def)
qed

section \<open>What the price page shows\<close>

definition shownTier :: "jsstr \<Rightarrow> cond_parts list \<Rightarrow> VisualTier \<Rightarrow> ParsedTier" where
  "shownTier label ks tier = \<lparr>pt_label = label, pt_conditions = map parsed_cond ks, pt_prices = shownPrices tier\<rparr>"

text \<open>The tiers as configured, with all their filled conditions; a tier without a label gets a numbered one.\<close>

definition configuredTiers :: "(jsnum \<Rightarrow> jsstr) \<Rightarrow> VisualConfig \<Rightarrow> ParsedTier list" where
  "configuredTiers nt cfg =
     map (\<lambda>(i, t). shownTier (or_default (Some (vt_label t)) (if length cfg = 1 then js ''default'' else js ''tier_'' @ show_nat (i + 1)))
       (conds_of nt t) t) (enumerate 0 cfg)"

definition withoutLastConditions :: "ParsedTier list \<Rightarrow> ParsedTier list" where
  "withoutLastConditions ts = (if length ts \<le> 1 then ts else butlast ts @ [(last ts)\<lparr>pt_conditions := []\<rparr>])"

text \<open>What the generated expression says: of several tiers the last one is written without its conditions.\<close>

fun shownFrom :: "(jsnum \<Rightarrow> jsstr) \<Rightarrow> nat \<Rightarrow> VisualTier list \<Rightarrow> ParsedTier list" where
  "shownFrom nt i [] = []"
| "shownFrom nt i (t # ts) =
     shownTier (or_default (Some (vt_label t)) (js ''tier_'' @ show_nat (i + 1))) (if ts = [] then [] else conds_of nt t) t #
     shownFrom nt (i + 1) ts"

definition shownTiers :: "(jsnum \<Rightarrow> jsstr) \<Rightarrow> VisualConfig \<Rightarrow> ParsedTier list" where
  "shownTiers nt cfg = (case cfg of
       [t] \<Rightarrow> [shownTier (or_default (Some (vt_label t)) (js ''default'')) (conds_of nt t) t]
     | _ \<Rightarrow> shownFrom nt 0 cfg)"

definition part_of :: "(jsnum \<Rightarrow> jsstr) \<Rightarrow> jsstr \<Rightarrow> cond_parts list \<Rightarrow> VisualTier \<Rightarrow> tier_parts" where
  "part_of nt label ks tier = (ks, label, buildTierBodyExpr nt tier)"

lemma part_of_ok:
  assumes "tier_ok nt tier" "34 \<notin> set label" "ks = [] \<or> ks = conds_of nt tier"
  shows "part_ok (part_of nt label ks tier)" "parsed_part (part_of nt label ks tier) = shownTier label ks tier"
  using assms body_chars [OF assms(1)] body_parsed [OF assms(1)]
  by (auto simp: part_of_def shownTier_def tier_ok_def)

fun parts_from :: "(jsnum \<Rightarrow> jsstr) \<Rightarrow> nat \<Rightarrow> VisualTier list \<Rightarrow> tier_parts list" where
  "parts_from nt i [] = []"
| "parts_from nt i (t # ts) =
     part_of nt (or_default (Some (vt_label t)) (js ''tier_'' @ show_nat (i + 1))) (if ts = [] then [] else conds_of nt t) t #
     parts_from nt (i + 1) ts"

lemma label_quote: "34 \<notin> set l \<Longrightarrow> 34 \<notin> set d \<Longrightarrow> 34 \<notin> set (or_default (Some l) d)"
  by (simp add: or_default_def)

lemma numbered_quote: "34 \<notin> set (js ''tier_'' @ show_nat i)"
  using show_nat_digits [of i] by (auto simp: js_simps is_digit_def)

lemma parts_from_ok:
  "list_all (tier_ok nt) ts \<Longrightarrow> list_all part_ok (parts_from nt i ts) \<and> map parsed_part (parts_from nt i ts) = shownFrom nt i ts"
proof (induction ts arbitrary: i)
  case (Cons t ts)
  have t: "tier_ok nt t" "34 \<notin> set (vt_label t)" using Cons.prems by (simp_all add: tier_ok_def)
  note l = label_quote [OF t(2) numbered_quote [of "i + 1"]]
  from Cons part_of_ok [OF t(1) l, of "if ts = [] then [] else conds_of nt t"] show ?case
    by (simp del: part_ok.simps parsed_part.simps)
qed simp

lemma conds_join_Nil:
  assumes "list_all cond_ok ks"
  shows "join (js '' && '') (map cond_text ks) = [] \<longleftrightarrow> ks = []"
  using assms join_and [of ks "js '' && ''" cond_text] cond_text_hd [of "hd ks"] by (cases ks) auto

lemma tierParts_text:
  "list_all (tier_ok nt) ts \<Longrightarrow> tierParts nt i ts = map part_text (parts_from nt i ts)"
proof (induction ts arbitrary: i)
  case (Cons t ts)
  have "list_all cond_ok (conds_of nt t)" using Cons.prems by (simp add: tier_ok_def)
  from conds_join_Nil [OF this] Cons show ?case
    by (simp add: Let_def buildConditionStr_text tierCall_def tier_text_def part_of_def)
qed simp

lemma parts_from_Nil: "parts_from nt i ts = [] \<longleftrightarrow> ts = []"
  by (cases ts) simp_all

lemma no_version: "s \<noteq> [] \<Longrightarrow> hd s \<noteq> 118 \<Longrightarrow> se_body (stripExprVersion s) = s"
  by (cases s) (simp_all add: stripExprVersion_def rx_match_def version_rx_def rx_simps js_simps)

lemma part_hd:
  assumes "part_ok p"
  shows "hd (part_text p) \<noteq> 118"
proof -
  obtain ks l b where p: "p = (ks, l, b)" by (cases p)
  show ?thesis
  proof (cases ks)
    case Nil
    then show ?thesis by (simp add: p tier_text_def js_simps)
  next
    case (Cons k ks')
    then have "cond_ok k" using assms p by simp
    with Cons join_and [of ks "js '' && ''" cond_text] cond_text_hd [of k] show ?thesis by (simp add: p)
  qed
qed

lemma scan_none: "rx_all (\<lambda>_. True) tier_rx prev [] = []"
  "rx_all (\<lambda>_. True) tier_rx prev (js '' : p * 0 + c * 0'') = []"
proof -
  have v: "tier_rx ([], 112 # 32 # 42 # s) = []" "tier_rx ([], 99 # 32 # 42 # s) = []" for s
    by (simp_all add: tier_rx_def rx_seq.simps(2) rx_opt_def cond_group_rx_def rx_cap_def cond_rx_def cond_var_rx_def
        cond_op_rx_def js_simps is_ws_def)
  show "rx_all (\<lambda>_. True) tier_rx prev (js '' : p * 0 + c * 0'') = []"
    by (simp add: js_simps rx_all_skip tier_none v del: rx_all.simps(2))
qed simp

lemma parse_parts:
  assumes "list_all part_ok ps" "ps \<noteq> []" "t \<in> {[], js '' : p * 0 + c * 0''}"
  shows "parseTiersFromExpr (join (js '' : '') (map part_text ps) @ t) = map parsed_part ps"
proof -
  let ?e = "join (js '' : '') (map part_text ps) @ t"
  obtain p ps' where ps: "ps = p # ps'" using assms(2) by (meson neq_Nil_conv)
  have e: "?e \<noteq> [] \<and> hd ?e \<noteq> 118"
    using part_ne [of p] part_hd [of p] assms(1) join_and [OF assms(2), of "js '' : ''" part_text] by (simp add: ps del: part_text.simps)
  have "rx_all (\<lambda>_. True) tier_rx prev t = []" for prev using assms(3) scan_none by auto
  from tiers_scan [OF assms(1,2) this] no_version [of ?e] e assms(2) show ?thesis by (simp add: parseTiersFromExpr_def)
qed

lemma single_parsed:
  assumes "tier_ok nt t"
  shows "parseTiersFromExpr (generateExprFromVisualConfig nt (Some [t])) = shownTiers nt [t]"
proof -
  let ?l = "or_default (Some (vt_label t)) (js ''default'')" and ?ks = "conds_of nt t"
  have l: "34 \<notin> set ?l" using assms by (intro label_quote) (simp_all add: tier_ok_def js_simps)
  note p = part_of_ok [OF assms l, of ?ks]
  have ks: "list_all cond_ok ?ks" using assms by (simp add: tier_ok_def)
  have "generateExprFromVisualConfig nt (Some [t]) = join (js '' : '') (map part_text [part_of nt ?l ?ks t]) @
      (if ?ks = [] then [] else js '' : p * 0 + c * 0'')"
    using conds_join_Nil [OF ks]
    by (simp add: generateExprFromVisualConfig_def Let_def buildConditionStr_text tierCall_def tier_text_def part_of_def)
  with parse_parts [of "[part_of nt ?l ?ks t]" "if ?ks = [] then [] else js '' : p * 0 + c * 0''"] p show ?thesis
    by (simp add: shownTiers_def del: part_ok.simps parsed_part.simps)
qed

lemma several_parsed:
  assumes "list_all (tier_ok nt) cfg" "2 \<le> length cfg"
  shows "parseTiersFromExpr (generateExprFromVisualConfig nt (Some cfg)) = shownTiers nt cfg"
proof -
  obtain t u ts where c: "cfg = t # u # ts" using assms(2) by (metis Suc_le_length_iff numeral_2_eq_2)
  have "generateExprFromVisualConfig nt (Some cfg) = join (js '' : '') (map part_text (parts_from nt 0 cfg)) @ []"
    using tierParts_text [OF assms(1), of 0] by (simp add: generateExprFromVisualConfig_def c del: tierParts.simps parts_from.simps)
  with parse_parts [of "parts_from nt 0 cfg" "[]"] parts_from_ok [OF assms(1), of 0] parts_from_Nil [of nt 0 cfg]
  show ?thesis by (simp add: shownTiers_def c del: parts_from.simps shownFrom.simps)
qed


lemma parsed_configuration:
  assumes "list_all (tier_ok nt) cfg" "cfg \<noteq> []"
  shows "parseTiersFromExpr (generateExprFromVisualConfig nt (Some cfg)) = shownTiers nt cfg"
proof (cases "length cfg = 1")
  case True
  then obtain t where "cfg = [t]" by (cases cfg) auto
  with assms(1) single_parsed show ?thesis by simp
next
  case False
  then have "2 \<le> length cfg" using assms(2) by (cases cfg) (auto simp: Suc_le_eq)
  with several_parsed [OF assms(1)] show ?thesis by simp
qed

section \<open>Properties\<close>

lemma enumerate_Nil_iff [simp]: "enumerate i xs = [] \<longleftrightarrow> xs = []"
  by (cases xs) simp_all

lemma shownFrom_configured:
  "ts \<noteq> [] \<Longrightarrow> shownFrom nt i ts =
    (let cs = map (\<lambda>(i, t). shownTier (or_default (Some (vt_label t)) (js ''tier_'' @ show_nat (i + 1))) (conds_of nt t) t) (enumerate i ts)
     in butlast cs @ [(last cs)\<lparr>pt_conditions := []\<rparr>])"
proof (induction ts arbitrary: i)
  case (Cons t ts)
  then show ?case by (cases "ts = []") (simp_all add: Let_def shownTier_def)
qed simp

lemma shownTiers_configured:
  assumes "cfg \<noteq> []"
  shows "shownTiers nt cfg = withoutLastConditions (configuredTiers nt cfg)"
proof (cases "length cfg = 1")
  case True
  then obtain t where "cfg = [t]" by (cases cfg) auto
  then show ?thesis by (simp add: shownTiers_def withoutLastConditions_def configuredTiers_def)
next
  case False
  with assms have "shownTiers nt cfg = shownFrom nt 0 cfg" "\<not> length cfg \<le> 1" by (cases cfg; auto simp: shownTiers_def split: list.split)+
  with False show ?thesis
    by (simp add: shownFrom_configured [OF assms] withoutLastConditions_def configuredTiers_def Let_def)
qed

lemma fallback_tier_kept:
  assumes "cfg \<noteq> []" "conds_of nt (last cfg) = []"
  shows "withoutLastConditions (configuredTiers nt cfg) = configuredTiers nt cfg"
proof -
  have ne: "configuredTiers nt cfg \<noteq> []" using assms(1) by (auto simp: configuredTiers_def)
  have "snd (last (enumerate 0 cfg)) = last cfg" using last_map [of "enumerate 0 cfg" snd] assms(1) by auto
  then have "pt_conditions (last (configuredTiers nt cfg)) = []"
    using assms by (simp add: configuredTiers_def last_map case_prod_unfold shownTier_def)
  then have "(last (configuredTiers nt cfg))\<lparr>pt_conditions := []\<rparr> = last (configuredTiers nt cfg)" by simp
  then show ?thesis using append_butlast_last_id [OF ne] by (simp add: withoutLastConditions_def)
qed

text \<open>
  C11: the price page shows the tiers as the editor has them, but for the conditions of the last.
  For every configuration whose labels have no quote and whose condition values and unit costs are
  represented by their texts, parsing the generated expression gives one tier per configured tier,
  in order, with its label (or the numbered default), its filled conditions and its nine unit costs;
  of several tiers the last one comes without its conditions, which the generator does not write.
  When the last tier is the fallback without conditions, the tiers are exactly the configured ones.
\<close>

theorem tiers_shown_as_configured:
  assumes "list_all (tier_ok nt) cfg" and "cfg \<noteq> []"
  shows "parseTiersFromExpr (generateExprFromVisualConfig nt (Some cfg)) = withoutLastConditions (configuredTiers nt cfg) \<and>
    (conds_of nt (last cfg) = [] \<longrightarrow> parseTiersFromExpr (generateExprFromVisualConfig nt (Some cfg)) = configuredTiers nt cfg)"
  using parsed_configuration [OF assms] shownTiers_configured [OF assms(2)] fallback_tier_kept [OF assms(2)] by simp

definition sampleText :: "jsnum \<Rightarrow> jsstr" where
  "sampleText x = (if x = Fin 2 then js ''2'' else if x = Fin (1 / 2) then js ''0.5''
     else if x = Fin 128 then js ''128'' else js ''0'')"

definition sampleTier :: "string \<Rightarrow> rat \<Rightarrow> TierConditionInput list \<Rightarrow> VisualTier" where
  "sampleTier label cost conds = \<lparr>vt_label = js label, vt_conditions = conds, vt_input_unit_cost = Fin cost,
     vt_output_unit_cost = Fin 2, vt_cache_mode = CACHE_MODE_GENERIC, vt_costs = [(js ''cache_read_unit_cost'', Fin (1 / 2))]\<rparr>"

definition sampleCondition :: TierConditionInput where
  "sampleCondition = \<lparr>ti_var = js ''len'', ti_op = js ''<='', ti_value = Some (CNum (Fin 128))\<rparr>"

definition sampleConfig :: VisualConfig where
  "sampleConfig = [sampleTier ''short'' (1 / 2) [sampleCondition], sampleTier [] 2 []]"

lemma sample_numbers:
  "number_of_string (js ''2'') = Fin 2" "number_of_string (js ''0.5'') = Fin (1 / 2)" "number_of_string (js ''0'') = Fin 0"
  by (simp_all add: number_eval)

lemma sampleTier_ok:
  assumes "cost = 2 \<or> cost = 1 / 2" "34 \<notin> set (js label)" "list_all cond_ok (conds_of sampleText (sampleTier label cost conds))"
  shows "tier_ok sampleText (sampleTier label cost conds)"
proof -
  have u: "unitCost (sampleTier label cost conds) v \<in> {Fin 2, Fin (1 / 2), Fin 0}" for v
    using assms(1) by (auto simp: unitCost_def sampleTier_def num_or_zero_def)
  have n: "number_of_string (sampleText x) = x" if "x \<in> {Fin 2, Fin (1 / 2), Fin 0}" for x
    using that by (auto simp: sampleText_def sample_numbers)
  have t: "num_text (sampleText x)" for x
    by (simp add: sampleText_def num_text_def num_char_def is_digit_def js_simps)
  from n [OF u] t assms(2,3) show ?thesis by (simp add: tier_ok_def list_all_iff sampleTier_def)
qed

lemma sampleConfig_ok: "list_all (tier_ok sampleText) sampleConfig"
proof -
  have "tier_ok sampleText (sampleTier ''short'' (1 / 2) [sampleCondition])"
    by (rule sampleTier_ok) (simp_all add: conds_of_def sampleTier_def sampleCondition_def conditionFilled_def sampleText_def
        cond_vars_def cond_ops_def cond_num_char_def is_digit_def js_simps)
  moreover have "tier_ok sampleText (sampleTier [] 2 [])"
    by (rule sampleTier_ok) (simp_all add: conds_of_def sampleTier_def)
  ultimately show ?thesis by (simp add: sampleConfig_def)
qed

theorem tiers_shown_as_configured_witness:
  "parseTiersFromExpr (generateExprFromVisualConfig sampleText (Some sampleConfig)) = configuredTiers sampleText sampleConfig \<and>
   map pt_label (configuredTiers sampleText sampleConfig) = [js ''short'', js ''tier_2'']"
proof -
  have "conds_of sampleText (last sampleConfig) = []" by (simp add: sampleConfig_def conds_of_def sampleTier_def)
  moreover have "sampleConfig \<noteq> []" by (simp add: sampleConfig_def)
  ultimately have "parseTiersFromExpr (generateExprFromVisualConfig sampleText (Some sampleConfig)) = configuredTiers sampleText sampleConfig"
    using tiers_shown_as_configured [OF sampleConfig_ok] by blast
  moreover have "map pt_label (configuredTiers sampleText sampleConfig) = [js ''short'', js ''tier_2'']"
    by (simp add: sampleConfig_def configuredTiers_def shownTier_def sampleTier_def or_default_def show_nat.simps js_simps)
  ultimately show ?thesis by simp
qed

section \<open>Sums without spaces\<close>

text \<open>The first coefficient of a variable stays.\<close>

lemma coefficient_kept:
  "map_of acc k = Some x \<Longrightarrow> map_of (foldl addCoefficient acc ms) k = Some x"
  by (induction ms arbitrary: acc) (auto simp: addCoefficient_def split: option.splits)

text \<open>
  A sum written without spaces is misread: the class of the coefficient takes the plus sign
  along, \<open>Number\<close> of that text is \<open>NaN\<close>, and the input price is shown as zero.
\<close>

lemma compact_sum_misread:
  "map_of (parseTierBody (js ''p * 2+c * 3'')) (js ''inputPrice'') = Some (Fin 0)"
proof -
  have "rx_exec BILLING_VAR_REGEX (js ''p * 2+c * 3'') = Some ([(2, js ''2+''), (1, js ''p'')], js ''c * 3'')"
    by (simp add: rx_exec_def var_regex pricing_keys_def rx_step_alt_Cons rx_step_alt_Nil rx_seq.simps(2) rx_cap_def
        is_ws_def num_char_def is_digit_def js_simps)
  then have "rx_all word_start BILLING_VAR_REGEX None (js ''p * 2+c * 3'') =
      [(2, js ''2+''), (1, js ''p'')] # rx_all word_start BILLING_VAR_REGEX (Some 43) (js ''c * 3'')"
    by (simp add: js_simps word_start_def)
  moreover have "number_of_string (js ''2+'') = NaN" by (simp add: number_eval)
  ultimately have "map_of (foldl addCoefficient [] (rx_all word_start BILLING_VAR_REGEX None (js ''p * 2+c * 3''))) (js ''p'') = Some NaN"
    using coefficient_kept [of "[(js ''p'', NaN)]" "js ''p''" NaN] by (simp add: addCoefficient_def)
  then show ?thesis
    by (simp add: parseTierBody_def Let_def BILLING_VAR_KEY_TO_FIELD_def BILLING_PRICING_VARS_def BILLING_VARS_def priced_def num_or_zero_def)
qed

end
