(* ===== verification/Status_Codes.thy ===== *)
theory Status_Codes
  imports JS_Collections
begin

text \<open>
  The HTTP status code rules of \<open>lib/http-status-code-rules.ts\<close>: a text such as
  \<open>429, 500-503\<close> is split into segments, each segment is a code or a range of codes
  between 100 and 599, and the ranges are sorted and merged into a canonical text.
  The lemmas show that merging keeps exactly the codes that were written, that the
  merged ranges are separated, and that the canonical text is a fixed point and is
  determined by the set of codes.
\<close>

section \<open>Model\<close>

record StatusCodeRange =
  sc_start :: nat
  sc_end :: nat

record ParsedHttpStatusCodeRules =
  sc_ok :: bool
  sc_ranges :: "StatusCodeRange list"
  sc_tokens :: "jsstr list"
  sc_normalized :: jsstr
  sc_invalidTokens :: "jsstr list"

definition isNumber :: "jsstr \<Rightarrow> bool" where
  "isNumber s \<longleftrightarrow> s \<noteq> [] \<and> (\<forall>c \<in> set s. is_digit c)"

definition isValidCode :: "nat \<Rightarrow> bool" where
  "isValidCode code \<longleftrightarrow> 100 \<le> code \<and> code \<le> 599"

text \<open>
  Destructuring \<open>[a, b]\<close> of the split token reads its first two parts and ignores the
  others. The token contains \<open>-\<close>, so there are at least two.
\<close>

definition parseToken :: "jsstr \<Rightarrow> StatusCodeRange option" where
  "parseToken token =
     (let cleaned = filter (\<lambda>c. \<not> is_ws c) (trim token) in
      if cleaned = [] then None
      else if str_includes cleaned (js ''-'') then
        (case split_on 45 cleaned of
           a # b # _ \<Rightarrow>
             (if \<not> isNumber a \<or> \<not> isNumber b then None
              else let start = parse_digits a; end' = parse_digits b in
                if \<not> isValidCode start \<or> \<not> isValidCode end' \<or> start > end' then None
                else Some \<lparr>sc_start = start, sc_end = end'\<rparr>)
         | _ \<Rightarrow> None)
      else if \<not> isNumber cleaned then None
      else let code = parse_digits cleaned in
        if \<not> isValidCode code then None
        else Some \<lparr>sc_start = code, sc_end = code\<rparr>)"

definition compareRanges :: "StatusCodeRange cmp" where
  "compareRanges a b =
     (if sc_start a \<noteq> sc_start b then int (sc_start a) - int (sc_start b)
      else int (sc_end a) - int (sc_end b))"

definition mergeStep :: "StatusCodeRange list \<Rightarrow> StatusCodeRange \<Rightarrow> StatusCodeRange list" where
  "mergeStep merged current =
     (if merged = [] then merged @ [current]
      else let l = last merged in
        if sc_start current > sc_end l + 1 then merged @ [current]
        else butlast merged @ [l\<lparr>sc_end := max (sc_end l) (sc_end current)\<rparr>])"

definition mergeRanges :: "StatusCodeRange list \<Rightarrow> StatusCodeRange list" where
  "mergeRanges ranges =
     (if ranges = [] then [] else foldl mergeStep [] (js_sort compareRanges ranges))"

definition rangeToken :: "StatusCodeRange \<Rightarrow> jsstr" where
  "rangeToken r =
     (if sc_start r = sc_end r then show_nat (sc_start r)
      else show_nat (sc_start r) @ js ''-'' @ show_nat (sc_end r))"

text \<open>
  The loop over the segments: the parsed ranges and the invalid segments, both in order.
\<close>

fun parseSegments :: "jsstr list \<Rightarrow> StatusCodeRange list \<times> jsstr list" where
  "parseSegments [] = ([], [])"
| "parseSegments (segment # segments) =
     (let (ranges, invalid) = parseSegments segments in
      case parseToken segment of
        None \<Rightarrow> (ranges, segment # invalid)
      | Some r \<Rightarrow> (r # ranges, invalid))"

text \<open>The input \<open>null\<close> or \<open>undefined\<close> is \<open>None\<close>. Code unit 65292 is the full-width comma.\<close>

definition statusSegments :: "jsstr \<Rightarrow> jsstr list" where
  "statusSegments raw = split_trim 44 (map (\<lambda>c. if c = 65292 then 44 else c) raw)"

definition parseHttpStatusCodeRules :: "jsstr option \<Rightarrow> ParsedHttpStatusCodeRules" where
  "parseHttpStatusCodeRules input =
     (let raw = trim (case input of None \<Rightarrow> [] | Some s \<Rightarrow> s) in
      if raw = [] then
        \<lparr>sc_ok = True, sc_ranges = [], sc_tokens = [], sc_normalized = [], sc_invalidTokens = []\<rparr>
      else let (ranges, invalidTokens) = parseSegments (statusSegments raw) in
        if invalidTokens \<noteq> [] then
          \<lparr>sc_ok = False, sc_ranges = [], sc_tokens = [], sc_normalized = raw,
           sc_invalidTokens = invalidTokens\<rparr>
        else
          let merged = mergeRanges ranges; tokens = map rangeToken merged in
          \<lparr>sc_ok = True, sc_ranges = merged, sc_tokens = tokens,
           sc_normalized = join (js '','') tokens, sc_invalidTokens = []\<rparr>)"

section \<open>What the ranges mean\<close>

definition codes :: "StatusCodeRange \<Rightarrow> nat set" where
  "codes r = {sc_start r..sc_end r}"

definition covers :: "StatusCodeRange list \<Rightarrow> nat set" where
  "covers rs = (\<Union>r \<in> set rs. codes r)"

definition validRange :: "StatusCodeRange \<Rightarrow> bool" where
  "validRange r \<longleftrightarrow> 100 \<le> sc_start r \<and> sc_start r \<le> sc_end r \<and> sc_end r \<le> 599"

text \<open>Canonical ranges: in order, with at least one uncovered code between neighbours.\<close>

definition separated :: "StatusCodeRange list \<Rightarrow> bool" where
  "separated rs \<longleftrightarrow> sorted_wrt (\<lambda>a b. sc_end a + 1 < sc_start b) rs"

lemma covers_simps [simp]:
  "covers [] = {}" "covers (r # rs) = codes r \<union> covers rs"
  "covers (xs @ ys) = covers xs \<union> covers ys"
  by (auto simp: covers_def)

interpretation range_order: consistent_comparator compareRanges
  by unfold_locales (auto simp: compareRanges_def split: if_splits)

lemma sorted_starts: "sorted (map sc_start (js_sort compareRanges rs))"
proof -
  have "sorted_wrt (\<lambda>a b. sc_start a \<le> sc_start b) (js_sort compareRanges rs)"
    by (rule sorted_wrt_mono_rel [OF _ range_order.sorted_js_sort])
      (auto simp: compareRanges_def split: if_splits)
  then show ?thesis by (simp add: sorted_map)
qed

lemma parseToken_valid: "parseToken t = Some r \<Longrightarrow> validRange r"
  by (auto simp: parseToken_def Let_def validRange_def isValidCode_def
      split: if_splits list.splits)

lemma mergeStep_single: "separated acc \<Longrightarrow> validRange x \<Longrightarrow> \<forall>a \<in> set acc. validRange a \<Longrightarrow>
    \<forall>a \<in> set acc. sc_start a \<le> sc_start x \<Longrightarrow>
    separated (mergeStep acc x) \<and> (\<forall>a \<in> set (mergeStep acc x). validRange a) \<and>
    covers (mergeStep acc x) = covers acc \<union> codes x \<and>
    (\<forall>a \<in> set (mergeStep acc x). sc_start a \<le> sc_start x)"
proof (cases acc rule: rev_cases)
  case Nil
  then show "validRange x \<Longrightarrow> ?thesis" by (simp add: mergeStep_def separated_def)
next
  case (snoc as l)
  assume sep: "separated acc" and vx: "validRange x" and va: "\<forall>a \<in> set acc. validRange a"
    and st: "\<forall>a \<in> set acc. sc_start a \<le> sc_start x"
  have sl: "sc_start l \<le> sc_start x" "validRange l" using st va snoc by auto
  show ?thesis
  proof (cases "sc_start x > sc_end l + 1")
    case True
    with sep vx va st snoc sl show ?thesis
      by (auto simp: mergeStep_def separated_def sorted_wrt_append validRange_def)
  next
    case False
    let ?l = "l\<lparr>sc_end := max (sc_end l) (sc_end x)\<rparr>"
    have "codes ?l = codes l \<union> codes x"
      using False sl vx by (auto simp: codes_def validRange_def)
    moreover have "validRange ?l" using sl vx by (auto simp: validRange_def)
    ultimately show ?thesis using False sep va st snoc
      by (auto simp: mergeStep_def separated_def sorted_wrt_append)
  qed
qed

lemma foldl_mergeStep:
  "separated acc \<Longrightarrow> \<forall>a \<in> set acc. validRange a \<Longrightarrow> \<forall>x \<in> set xs. validRange x \<Longrightarrow>
   sorted (map sc_start xs) \<Longrightarrow> \<forall>a \<in> set acc. \<forall>x \<in> set xs. sc_start a \<le> sc_start x \<Longrightarrow>
   separated (foldl mergeStep acc xs) \<and> (\<forall>a \<in> set (foldl mergeStep acc xs). validRange a) \<and>
   covers (foldl mergeStep acc xs) = covers acc \<union> covers xs"
proof (induction xs arbitrary: acc)
  case Nil
  then show ?case by simp
next
  case (Cons x xs)
  from Cons.prems have step: "separated (mergeStep acc x)"
    "\<forall>a \<in> set (mergeStep acc x). validRange a"
    "covers (mergeStep acc x) = covers acc \<union> codes x"
    "\<forall>a \<in> set (mergeStep acc x). sc_start a \<le> sc_start x"
    using mergeStep_single [of acc x] by auto
  have "\<forall>a \<in> set (mergeStep acc x). \<forall>y \<in> set xs. sc_start a \<le> sc_start y"
    using step(4) Cons.prems(4) by fastforce
  with Cons.IH [OF step(1,2)] Cons.prems(3,4) step(3) show ?case by (simp add: Un_assoc)
qed

lemma mergeRanges_spec:
  assumes "\<forall>r \<in> set rs. validRange r"
  shows "separated (mergeRanges rs)" "\<forall>r \<in> set (mergeRanges rs). validRange r"
    "covers (mergeRanges rs) = covers rs"
proof -
  have "covers (js_sort compareRanges rs) = covers rs" by (simp add: covers_def)
  with assms foldl_mergeStep [of "[]" "js_sort compareRanges rs"] sorted_starts [of rs]
  show "separated (mergeRanges rs)" "\<forall>r \<in> set (mergeRanges rs). validRange r"
    "covers (mergeRanges rs) = covers rs"
    by (auto simp: mergeRanges_def separated_def)
qed

text \<open>Separated ranges are determined by the codes they cover.\<close>

lemma separated_Cons_above:
  "separated (r # rs) \<Longrightarrow> \<forall>x \<in> set (r # rs). validRange x \<Longrightarrow> c \<in> covers rs \<Longrightarrow> sc_end r + 1 < c"
  by (fastforce simp: separated_def covers_def codes_def validRange_def)

lemma covers_start: "validRange r \<Longrightarrow> sc_start r \<in> codes r"
  by (simp add: codes_def validRange_def)

lemma separated_lower:
  assumes "separated (q # qs)" "\<forall>x \<in> set (q # qs). validRange x" "c \<in> covers (q # qs)"
  shows "sc_start q \<le> c"
proof (cases "c \<in> codes q")
  case False
  with assms separated_Cons_above [OF assms(1,2)] have "sc_end q + 1 < c" by auto
  with assms(2) show ?thesis by (auto simp: validRange_def)
qed (simp add: codes_def)

lemma separated_head_eq:
  assumes "separated (r # rs)" "separated (q # qs)"
    and "\<forall>x \<in> set (r # rs). validRange x" "\<forall>x \<in> set (q # qs). validRange x"
    and "covers (r # rs) = covers (q # qs)"
  shows "sc_start q \<le> sc_start r \<and> sc_end r \<le> sc_end q"
proof -
  have r: "sc_start r \<in> covers (q # qs)" "sc_start r \<le> sc_end r"
    using assms(3,5) covers_start by (auto simp: validRange_def)
  have q: "sc_start q \<in> covers (r # rs)" "sc_start q \<le> sc_end q"
    using assms(4,5) covers_start by (auto simp: validRange_def)
  have 1: "sc_start q \<le> sc_start r"
    using separated_lower [OF assms(2,4) r(1)] .
  have 2: "sc_start r \<le> sc_start q"
    using separated_lower [OF assms(1,3) q(1)] .
  have "sc_end r \<le> sc_end q"
  proof (rule ccontr)
    assume "\<not> sc_end r \<le> sc_end q"
    then have "sc_end q + 1 \<in> codes r" using 1 2 q by (auto simp: codes_def)
    then have "sc_end q + 1 \<in> covers (q # qs)" using assms(5) by auto
    then show False using separated_Cons_above [OF assms(2,4)] by (auto simp: codes_def)
  qed
  with 1 show ?thesis by simp
qed

lemma separated_unique:
  "separated rs \<Longrightarrow> separated qs \<Longrightarrow> \<forall>x \<in> set rs. validRange x \<Longrightarrow> \<forall>x \<in> set qs. validRange x \<Longrightarrow>
   covers rs = covers qs \<Longrightarrow> rs = qs"
proof (induction rs arbitrary: qs)
  case Nil
  then show ?case by (cases qs) (auto dest: covers_start)
next
  case (Cons r rs)
  then obtain q qs' where qs: "qs = q # qs'" by (cases qs) (auto dest: covers_start)
  have rq: "r = q"
    using separated_head_eq [of r rs q qs'] separated_head_eq [of q qs' r rs] Cons.prems qs
    by (intro StatusCodeRange.equality) auto
  have "c \<in> covers rs \<longleftrightarrow> c \<in> covers qs'" for c
  proof -
    have "c \<in> codes r \<union> covers rs \<longleftrightarrow> c \<in> codes r \<union> covers qs'" using Cons.prems(5) qs rq by auto
    moreover have "c \<in> covers rs \<Longrightarrow> c \<notin> codes r" "c \<in> covers qs' \<Longrightarrow> c \<notin> codes r"
      using separated_Cons_above [of r rs c] separated_Cons_above [of q qs' c] Cons.prems qs rq
      by (auto simp: codes_def)
    ultimately show ?thesis by blast
  qed
  then have "rs = qs'" using Cons.IH [of qs'] Cons.prems qs by (auto simp: separated_def)
  with qs rq show ?case by simp
qed


section \<open>The canonical text\<close>

lemma rangeToken_chars:
  "c \<in> set (rangeToken r) \<Longrightarrow> is_digit c \<or> c = 45"
  using show_nat_digits [of "sc_start r"] show_nat_digits [of "sc_end r"]
  by (auto simp: rangeToken_def js_simps split: if_splits)

lemma rangeToken_ne: "rangeToken r \<noteq> []"
  by (simp add: rangeToken_def)

lemma rangeToken_not_ws: "c \<in> set (rangeToken r) \<Longrightarrow> \<not> is_ws c"
  using rangeToken_chars [of c r] digit_not_ws [of c] by (auto simp: is_ws_def)

lemma rangeToken_hd_last:
  "\<not> is_ws (hd (rangeToken r)) \<and> \<not> is_ws (last (rangeToken r))"
  by (meson hd_in_set last_in_set rangeToken_ne rangeToken_not_ws)

lemma trim_rangeToken [simp]: "trim (rangeToken r) = rangeToken r"
  by (rule trim_id) (use rangeToken_hd_last in blast)

lemma isNumber_show_nat [simp]: "isNumber (show_nat n)"
  using show_nat_digits [of n] by (auto simp: isNumber_def)

lemma dash_not_in_show_nat: "45 \<notin> set (show_nat n)"
  using show_nat_digits [of n] by (auto simp: is_digit_def)

lemma parseToken_rangeToken:
  assumes "validRange r"
  shows "parseToken (rangeToken r) = Some r"
proof -
  have clean: "filter (\<lambda>c. \<not> is_ws c) (rangeToken r) = rangeToken r"
    by (simp add: rangeToken_not_ws)
  have v: "isValidCode (sc_start r)" "isValidCode (sc_end r)" "sc_start r \<le> sc_end r"
    using assms by (auto simp: validRange_def isValidCode_def)
  show ?thesis
  proof (cases "sc_start r = sc_end r")
    case True
    then have "rangeToken r = show_nat (sc_start r)" by (simp add: rangeToken_def)
    with True v clean show ?thesis
      by (simp add: parseToken_def Let_def dash_not_in_show_nat str_includes_singleton js_simps)
  next
    case False
    then have tok: "rangeToken r = show_nat (sc_start r) @ 45 # show_nat (sc_end r)"
      by (simp add: rangeToken_def js_simps)
    have "split_on 45 (rangeToken r) = [show_nat (sc_start r), show_nat (sc_end r)]"
      unfolding tok by (simp add: split_on_append_sep split_on_absent dash_not_in_show_nat)
    moreover have "str_includes (rangeToken r) (js ''-'')"
      unfolding tok by (simp add: str_includes_singleton js_simps)
    ultimately show ?thesis using v clean
      by (simp add: parseToken_def Let_def rangeToken_ne)
  qed
qed

lemma parseSegments_tokens:
  "\<forall>r \<in> set rs. validRange r \<Longrightarrow> parseSegments (map rangeToken rs) = (rs, [])"
  by (induction rs) (auto simp: parseToken_rangeToken)

lemma parseSegments_valid: "r \<in> set (fst (parseSegments segs)) \<Longrightarrow> validRange r"
  by (induction segs arbitrary: r)
    (auto simp: split_beta split: option.splits dest: parseToken_valid)

lemma parseSegments_fst: "fst (parseSegments segs) = List.map_filter parseToken segs"
  by (induction segs) (auto simp: split_beta List.map_filter_def split: option.splits)

lemma parseSegments_snd: "snd (parseSegments segs) = filter (\<lambda>s. parseToken s = None) segs"
  by (induction segs) (auto simp: split_beta split: option.splits)

lemma join_chars: "c \<in> set (join [x] ps) \<Longrightarrow> c = x \<or> (\<exists>p \<in> set ps. c \<in> set p)"
  by (induction "[x]" ps rule: join.induct) auto

lemma join_hd_last:
  assumes "ps \<noteq> []" "\<forall>p \<in> set ps. p \<noteq> []"
  shows "hd (join sep ps) = hd (hd ps) \<and> last (join sep ps) = last (last ps) \<and> join sep ps \<noteq> []"
  using assms
proof (induction ps)
  case Nil
  then show ?case by simp
next
  case (Cons p ps)
  then show ?case by (cases "ps = []") (auto simp: join_Cons)
qed

lemma statusSegments_join:
  "statusSegments (join (js '','') (map rangeToken rs)) = map rangeToken rs"
proof -
  let ?s = "join [44] (map rangeToken rs)"
  have "map (\<lambda>c. if c = 65292 then 44 else c) ?s = ?s"
    by (rule map_idI) (use join_chars rangeToken_chars in \<open>fastforce simp: is_digit_def\<close>)
  moreover have "split_trim 44 ?s = map rangeToken rs"
    by (rule split_trim_join)
      (use rangeToken_chars rangeToken_ne in \<open>force simp: is_digit_def\<close>)
  ultimately show ?thesis by (simp add: statusSegments_def js_simps)
qed

lemma trim_join_tokens:
  "trim (join (js '','') (map rangeToken rs)) = join (js '','') (map rangeToken rs)"
proof (cases "rs = []")
  case False
  then show ?thesis
    using join_hd_last [of "map rangeToken rs" "js '',''"] rangeToken_hd_last rangeToken_ne
    by (intro trim_id) (auto simp: list.map_sel last_map)
qed simp

text \<open>The result for an input with no invalid segment, as the canonical ranges \<open>rs\<close>.\<close>

definition canonicalResult :: "StatusCodeRange list \<Rightarrow> ParsedHttpStatusCodeRules" where
  "canonicalResult rs =
     \<lparr>sc_ok = True, sc_ranges = rs, sc_tokens = map rangeToken rs,
      sc_normalized = join (js '','') (map rangeToken rs), sc_invalidTokens = []\<rparr>"

lemma statusSegments_Nil [simp]: "statusSegments [] = []"
  by (simp add: statusSegments_def split_trim_def)

lemma parse_ok_canonical:
  assumes "sc_ok (parseHttpStatusCodeRules input)"
  shows "parseHttpStatusCodeRules input =
    canonicalResult (mergeRanges (List.map_filter parseToken
      (statusSegments (trim (case input of None \<Rightarrow> [] | Some s \<Rightarrow> s)))))"
  using assms
  by (auto simp: parseHttpStatusCodeRules_def Let_def canonicalResult_def mergeRanges_def
      List.map_filter_def split_beta parseSegments_fst split: if_splits option.splits)

lemma parse_canonical:
  assumes "separated rs" "\<forall>r \<in> set rs. validRange r"
  shows "parseHttpStatusCodeRules (Some (join (js '','') (map rangeToken rs))) = canonicalResult rs"
proof (cases "rs = []")
  case True
  then show ?thesis by (simp add: parseHttpStatusCodeRules_def canonicalResult_def)
next
  case False
  have "join (js '','') (map rangeToken rs) \<noteq> []"
    using False join_hd_last [of "map rangeToken rs" "js '',''"] rangeToken_ne by auto
  moreover have "mergeRanges rs = rs"
    using separated_unique mergeRanges_spec [OF assms(2)] assms by metis
  ultimately show ?thesis using assms(2)
    by (simp add: parseHttpStatusCodeRules_def Let_def trim_join_tokens statusSegments_join
        parseSegments_tokens canonicalResult_def)
qed

lemma parse_ok_ranges:
  assumes "sc_ok (parseHttpStatusCodeRules input)"
  defines "rs \<equiv> sc_ranges (parseHttpStatusCodeRules input)"
  shows "separated rs" "\<forall>r \<in> set rs. validRange r"
    "parseHttpStatusCodeRules input = canonicalResult rs"
    "covers rs = covers (List.map_filter parseToken
      (statusSegments (trim (case input of None \<Rightarrow> [] | Some s \<Rightarrow> s))))"
proof -
  let ?segs = "statusSegments (trim (case input of None \<Rightarrow> [] | Some s \<Rightarrow> s))"
  let ?rs = "List.map_filter parseToken ?segs"
  have v: "\<forall>r \<in> set ?rs. validRange r"
    using parseSegments_valid [of _ ?segs] by (simp add: parseSegments_fst)
  have eq: "parseHttpStatusCodeRules input = canonicalResult (mergeRanges ?rs)"
    by (rule parse_ok_canonical [OF assms(1)])
  then have "rs = mergeRanges ?rs" by (simp add: rs_def canonicalResult_def)
  with eq mergeRanges_spec [OF v] show "separated rs" "\<forall>r \<in> set rs. validRange r"
    "parseHttpStatusCodeRules input = canonicalResult rs" "covers rs = covers ?rs"
    by simp_all
qed


section \<open>Properties\<close>

text \<open>The equations that evaluate the parser on a concrete input.\<close>

lemmas status_eval = parseHttpStatusCodeRules_def statusSegments_def split_trim_def trim_def
  trim_left_def is_ws_def parseToken_def isNumber_def is_digit_def isValidCode_def
  parse_digits_def mergeRanges_def mergeStep_def compareRanges_def rangeToken_def
  show_nat.simps js_simps Let_def starts_with_def

text \<open>
  C18: when the rules are accepted, the ranges returned are sorted and separated by at
  least one code, each lies within 100 to 599 with its start not above its end, and
  together they cover exactly the codes of the segments that were written.
\<close>

theorem status_rules_merge_exact:
  assumes "sc_ok (parseHttpStatusCodeRules (Some s))"
  defines "rs \<equiv> sc_ranges (parseHttpStatusCodeRules (Some s))"
  shows "separated rs \<and> (\<forall>r \<in> set rs. validRange r) \<and>
    covers rs = {c. \<exists>seg \<in> set (statusSegments (trim s)). \<exists>r. parseToken seg = Some r \<and> c \<in> codes r}"
proof -
  have "covers rs = covers (List.map_filter parseToken (statusSegments (trim s)))"
    using parse_ok_ranges(4) [OF assms(1)] by (simp add: rs_def)
  also have "\<dots> = {c. \<exists>seg \<in> set (statusSegments (trim s)). \<exists>r. parseToken seg = Some r \<and> c \<in> codes r}"
    by (force simp: covers_def List.map_filter_def)
  finally show ?thesis using parse_ok_ranges(1,2) [OF assms(1)] by (simp add: rs_def)
qed

theorem status_rules_merge_exact_witness:
  "sc_ranges (parseHttpStatusCodeRules (Some (js ''500-502, 429,503''))) =
     [\<lparr>sc_start = 429, sc_end = 429\<rparr>, \<lparr>sc_start = 500, sc_end = 503\<rparr>] \<and>
   separated (sc_ranges (parseHttpStatusCodeRules (Some (js ''500-502, 429,503''))))"
proof -
  have v: "sc_ranges (parseHttpStatusCodeRules (Some (js ''500-502, 429,503''))) =
     [\<lparr>sc_start = 429, sc_end = 429\<rparr>, \<lparr>sc_start = 500, sc_end = 503\<rparr>]"
    by (simp add: status_eval)
  have ok: "sc_ok (parseHttpStatusCodeRules (Some (js ''500-502, 429,503'')))"
    by (simp add: status_eval)
  show ?thesis using v status_rules_merge_exact [OF ok] by simp
qed

text \<open>
  The canonical text is a fixed point: parsing the normalized text of accepted rules
  gives back the same ranges, tokens and normalized text.
\<close>

lemma status_rules_normalized_roundtrip:
  assumes "sc_ok (parseHttpStatusCodeRules input)"
  shows "parseHttpStatusCodeRules (Some (sc_normalized (parseHttpStatusCodeRules input))) =
    parseHttpStatusCodeRules input"
proof -
  let ?rs = "sc_ranges (parseHttpStatusCodeRules input)"
  have eq: "parseHttpStatusCodeRules input = canonicalResult ?rs"
    by (rule parse_ok_ranges(3) [OF assms])
  have "sc_normalized (parseHttpStatusCodeRules input) = join (js '','') (map rangeToken ?rs)"
    by (subst eq) (simp add: canonicalResult_def)
  then show ?thesis
    using parse_canonical [OF parse_ok_ranges(1,2) [OF assms]] eq by simp
qed

lemma status_rules_normalized_roundtrip_witness:
  "sc_normalized (parseHttpStatusCodeRules (Some (js '' 404 ,400-403''))) = js ''400-404'' \<and>
   parseHttpStatusCodeRules (Some (js ''400-404'')) = parseHttpStatusCodeRules (Some (js '' 404 ,400-403''))"
proof -
  have ok: "sc_ok (parseHttpStatusCodeRules (Some (js '' 404 ,400-403'')))"
    by (simp add: status_eval)
  have n: "sc_normalized (parseHttpStatusCodeRules (Some (js '' 404 ,400-403''))) = js ''400-404''"
    by (simp add: status_eval)
  show ?thesis using status_rules_normalized_roundtrip [OF ok] n by simp
qed

text \<open>
  The canonical form is unique: two accepted inputs whose ranges cover the same codes
  have the same result, normalized text included, however they were written.
\<close>

lemma status_rules_canonical:
  assumes "sc_ok (parseHttpStatusCodeRules a)" "sc_ok (parseHttpStatusCodeRules b)"
    and "covers (sc_ranges (parseHttpStatusCodeRules a)) = covers (sc_ranges (parseHttpStatusCodeRules b))"
  shows "parseHttpStatusCodeRules a = parseHttpStatusCodeRules b"
proof -
  have "sc_ranges (parseHttpStatusCodeRules a) = sc_ranges (parseHttpStatusCodeRules b)"
    using separated_unique parse_ok_ranges(1,2) [OF assms(1)] parse_ok_ranges(1,2) [OF assms(2)] assms(3)
    by blast
  with parse_ok_ranges(3) [OF assms(1)] parse_ok_ranges(3) [OF assms(2)] show ?thesis by simp
qed

lemma status_rules_canonical_witness:
  "parseHttpStatusCodeRules (Some (js ''500-502,503'')) = parseHttpStatusCodeRules (Some (js ''503,502,500-501''))"
proof -
  have "sc_ok (parseHttpStatusCodeRules (Some (js ''500-502,503'')))"
    and "sc_ok (parseHttpStatusCodeRules (Some (js ''503,502,500-501'')))"
    and "covers (sc_ranges (parseHttpStatusCodeRules (Some (js ''500-502,503'')))) =
         covers (sc_ranges (parseHttpStatusCodeRules (Some (js ''503,502,500-501''))))"
    by (simp_all add: status_eval)
  then show ?thesis by (rule status_rules_canonical)
qed

text \<open>
  The error path: the rules are rejected exactly when some segment is not a code or a
  range, the invalid segments are reported in order, and then no range is returned and
  the text is kept as it was typed (trimmed).
\<close>

lemma status_rules_errors:
  fixes s :: jsstr
  defines "p \<equiv> parseHttpStatusCodeRules (Some s)"
  shows "sc_invalidTokens p = filter (\<lambda>seg. parseToken seg = None) (statusSegments (trim s)) \<and>
    sc_ok p = (sc_invalidTokens p = []) \<and>
    (if sc_ok p then sc_normalized p = join (js '','') (sc_tokens p)
     else sc_ranges p = [] \<and> sc_tokens p = [] \<and> sc_normalized p = trim s)"
  by (auto simp: p_def parseHttpStatusCodeRules_def Let_def split_beta parseSegments_snd)

text \<open>
  A range token with more than one dash is accepted: the parts after the second are
  ignored, so \<open>a-b-rest\<close> reads as \<open>a-b\<close> whatever \<open>rest\<close> is.
\<close>

lemma status_token_ignores_rest:
  assumes "validRange \<lparr>sc_start = a, sc_end = b\<rparr>" and "\<forall>c \<in> set rest. \<not> is_ws c"
  shows "parseToken (show_nat a @ js ''-'' @ show_nat b @ js ''-'' @ rest) =
    Some \<lparr>sc_start = a, sc_end = b\<rparr>"
proof -
  let ?t = "show_nat a @ 45 # show_nat b @ 45 # rest"
  have nows: "\<forall>c \<in> set ?t. \<not> is_ws c"
    using assms(2) show_nat_digits [of a] show_nat_digits [of b] digit_not_ws
    by (auto simp: is_ws_def [of 45])
  then have "trim ?t = ?t" by (intro trim_id) (metis hd_in_set last_in_set)
  moreover have "filter (\<lambda>c. \<not> is_ws c) ?t = ?t" using nows by (simp only: filter_True)
  moreover have "split_on 45 ?t = show_nat a # show_nat b # split_on 45 rest"
    by (simp add: split_on_append_sep dash_not_in_show_nat)
  ultimately show ?thesis using assms(1)
    by (simp add: parseToken_def Let_def js_simps str_includes_singleton validRange_def isValidCode_def)
qed

lemma status_token_ignores_rest_witness:
  "parseToken (show_nat 100 @ js ''-'' @ show_nat 200 @ js ''-'' @ js ''999-x'') =
    Some \<lparr>sc_start = 100, sc_end = 200\<rparr>"
proof -
  have "validRange \<lparr>sc_start = 100, sc_end = 200\<rparr>" and "\<forall>c \<in> set (js ''999-x''). \<not> is_ws c"
    by (simp_all add: validRange_def js_simps is_ws_def)
  then show ?thesis by (rule status_token_ignores_rest)
qed

end
