(* ===== verification/Ratio_Sync.thy ===== *)
theory Ratio_Sync
  imports JS_Number JS_Collections
begin

text \<open>
  The upstream price synchronisation of the billing settings: the helpers of
  \<open>features/system-settings/models/upstream-ratio-sync-helpers.ts\<close> and the screen that
  uses them, \<open>upstream-ratio-sync.tsx\<close>. A model is billed by a fixed price, by ratios or
  by an expression; the administrator picks upstream values per model and field, the picks
  are kept in a map of resolutions, and applying them rewrites the stored options. The
  lemmas show that no sequence of picks mixes a fixed price with ratios, that a batch of
  picks is the sequence of its picks, and what is stored in the end.
\<close>

section \<open>Data\<close>

text \<open>
  An object used as a dictionary is the association list of its own properties. A value
  is a number, a string (the text \<open>same\<close> marks an upstream value equal to the local one)
  or \<open>null\<close>; a missing property is \<open>None\<close>.
\<close>

type_synonym 'a obj = "(jsstr \<times> 'a) list"

datatype sync_value = SNull | SNum jsnum | SStr jsstr

record RatioDifferenceEntry =
  rd_current :: sync_value
  rd_upstreams :: "sync_value obj"
  rd_confidence :: "bool obj"

type_synonym RatioTypes = "RatioDifferenceEntry obj"
type_synonym Differences = "RatioTypes obj"
type_synonym ResolutionsMap = "sync_value obj obj"
type_synonym Drafts = "(jsstr \<times> sync_value obj) list"

record ResolutionSelection =
  rs_model :: jsstr
  rs_ratioType :: jsstr
  rs_value :: sync_value
  rs_sourceName :: jsstr

record ResolutionRemoval =
  rr_model :: jsstr
  rr_ratioType :: jsstr

type_synonym ResolutionRemovalPlan = "(jsstr \<times> jsstr list) list"

definition RATIO_SYNC_FIELDS :: "jsstr list" where
  "RATIO_SYNC_FIELDS = [js ''model_ratio'', js ''completion_ratio'', js ''cache_ratio'',
     js ''create_cache_ratio'', js ''image_ratio'', js ''audio_ratio'', js ''audio_completion_ratio'']"

abbreviation "MODEL_PRICE \<equiv> js ''model_price''"
abbreviation "BILLING_MODE \<equiv> js ''billing_mode''"
abbreviation "BILLING_EXPR \<equiv> js ''billing_expr''"

definition SYNC_FIELD_ORDER :: "jsstr list" where
  "SYNC_FIELD_ORDER = RATIO_SYNC_FIELDS @ [MODEL_PRICE, BILLING_MODE, BILLING_EXPR]"

definition NUMERIC_SYNC_FIELDS :: "jsstr list" where
  "NUMERIC_SYNC_FIELDS = set_of (RATIO_SYNC_FIELDS @ [MODEL_PRICE])"

definition RATIO_TYPE_OPTIONS :: "(jsstr \<times> jsstr) list" where
  "RATIO_TYPE_OPTIONS = [
     (js ''Model ratio'', js ''model_ratio''), (js ''Completion ratio'', js ''completion_ratio''),
     (js ''Cache ratio'', js ''cache_ratio''), (js ''Create cache ratio'', js ''create_cache_ratio''),
     (js ''Image ratio'', js ''image_ratio''), (js ''Audio ratio'', js ''audio_ratio''),
     (js ''Audio completion ratio'', js ''audio_completion_ratio''),
     (js ''Fixed price'', js ''model_price''), (js ''Expression billing'', js ''billing_expr'')]"

section \<open>Which fields are shown\<close>

definition getSyncFieldLabel :: "jsstr \<Rightarrow> (jsstr \<Rightarrow> jsstr) \<Rightarrow> jsstr" where
  "getSyncFieldLabel ratioType t =
     (case find (\<lambda>(label, value). value = ratioType) RATIO_TYPE_OPTIONS of
        Some (label, value) \<Rightarrow> t label
      | None \<Rightarrow> ratioType)"

definition getOrderedRatioTypes :: "RatioTypes \<Rightarrow> jsstr option \<Rightarrow> jsstr list" where
  "getOrderedRatioTypes ratioTypes flt =
     (let keys = keys_of ratioTypes;
          ordered = filter (\<lambda>f. f \<in> set keys) SYNC_FIELD_ORDER @
                    filter (\<lambda>f. f \<notin> set SYNC_FIELD_ORDER) keys
      in case flt of
           None \<Rightarrow> ordered
         | Some f \<Rightarrow> if f = [] \<or> f = js ''__all__'' then ordered else filter (\<lambda>x. x = f) ordered)"

definition isSelectableUpstreamValue :: "sync_value option \<Rightarrow> bool" where
  "isSelectableUpstreamValue v \<longleftrightarrow> v \<noteq> Some SNull \<and> v \<noteq> None \<and> v \<noteq> Some (SStr (js ''same''))"

text \<open>\<open>ratioTypes[field]?.upstreams?.[sourceName]\<close>\<close>

definition upstreamValue :: "RatioTypes \<Rightarrow> jsstr \<Rightarrow> jsstr \<Rightarrow> sync_value option" where
  "upstreamValue ratioTypes field sourceName =
     (case map_of ratioTypes field of
        None \<Rightarrow> None
      | Some entry \<Rightarrow> map_of (rd_upstreams entry) sourceName)"

definition getPreferredSyncField :: "RatioTypes \<Rightarrow> jsstr \<Rightarrow> jsstr \<Rightarrow> jsstr" where
  "getPreferredSyncField ratioTypes ratioType sourceName =
     (let exprValue = upstreamValue ratioTypes BILLING_EXPR sourceName in
      if ratioType \<noteq> BILLING_EXPR \<and> exprValue \<noteq> Some SNull \<and> exprValue \<noteq> None \<and>
         exprValue \<noteq> Some (SStr (js ''same''))
      then BILLING_EXPR else ratioType)"

definition getVisibleRatioTypesForSource :: "RatioTypes \<Rightarrow> jsstr \<Rightarrow> jsstr option \<Rightarrow> jsstr list" where
  "getVisibleRatioTypesForSource ratioTypes sourceName flt =
     filter (\<lambda>ratioType. getPreferredSyncField ratioTypes ratioType sourceName = ratioType)
       (getOrderedRatioTypes ratioTypes flt)"

definition getAlignedRatioTypes :: "RatioTypes \<Rightarrow> jsstr list \<Rightarrow> jsstr option \<Rightarrow> jsstr list" where
  "getAlignedRatioTypes ratioTypes sourceNames flt =
     (let ordered = getOrderedRatioTypes ratioTypes flt in
      if sourceNames = [] then ordered
      else let visible = foldl (\<lambda>vis sourceName.
                 foldl set_add vis (getVisibleRatioTypesForSource ratioTypes sourceName flt)) []
                 sourceNames
           in filter (\<lambda>ratioType. ratioType \<in> set visible) ordered)"

datatype billing_category = Price | Ratio | Tiered

definition getBillingCategory :: "jsstr \<Rightarrow> billing_category" where
  "getBillingCategory ratioType =
     (if ratioType = MODEL_PRICE then Price
      else if ratioType = BILLING_MODE \<or> ratioType = BILLING_EXPR then Tiered
      else Ratio)"

text \<open>The preset names are \<open>models/constants.ts\<close>; code units outside ASCII are given by number.\<close>

definition OFFICIAL_CHANNEL_NAME :: jsstr where
  "OFFICIAL_CHANNEL_NAME = [23448, 26041, 20493, 29575, 39044, 35774]"

definition MODELS_DEV_PRESET_NAME :: jsstr where
  "MODELS_DEV_PRESET_NAME = js ''models.dev '' @ [20215, 26684, 39044, 35774]"

definition OFFICIAL_CHANNEL_ID :: int where
  "OFFICIAL_CHANNEL_ID = - 100"

definition MODELS_DEV_PRESET_ID :: int where
  "MODELS_DEV_PRESET_ID = - 101"

definition getUpstreamDisplayName :: "jsstr \<Rightarrow> jsstr" where
  "getUpstreamDisplayName sourceName =
     (case find (\<lambda>(name, ident). sourceName = name @ js ''('' @ show_int ident @ js '')'')
        [(OFFICIAL_CHANNEL_NAME, OFFICIAL_CHANNEL_ID), (MODELS_DEV_PRESET_NAME, MODELS_DEV_PRESET_ID)] of
        Some (name, ident) \<Rightarrow> name
      | None \<Rightarrow> sourceName)"

section \<open>Picking and dropping values\<close>

fun number_of_value :: "sync_value \<Rightarrow> jsnum" where
  "number_of_value SNull = Fin 0"
| "number_of_value (SNum n) = n"
| "number_of_value (SStr s) = number_of_string s"

fun value_eq :: "sync_value \<Rightarrow> sync_value \<Rightarrow> bool" where
  "value_eq (SNum a) (SNum b) = num_eq a b"
| "value_eq (SStr a) (SStr b) = (a = b)"
| "value_eq SNull SNull = True"
| "value_eq _ _ = False"

definition isSelectedResolutionValue ::
  "ResolutionsMap \<Rightarrow> jsstr \<Rightarrow> jsstr \<Rightarrow> sync_value option \<Rightarrow> bool" where
  "isSelectedResolutionValue resolutions model ratioType upstreamVal =
     (if \<not> isSelectableUpstreamValue upstreamVal then False
      else case (case map_of resolutions model of None \<Rightarrow> None | Some r \<Rightarrow> map_of r ratioType) of
        None \<Rightarrow> False
      | Some selectedValue \<Rightarrow>
          if ratioType \<in> set NUMERIC_SYNC_FIELDS then
            let selectedNumber = number_of_value selectedValue;
                upstreamNumber = number_of_value (the upstreamVal)
            in is_finite selectedNumber \<and> is_finite upstreamNumber \<and> num_eq selectedNumber upstreamNumber
          else value_eq selectedValue (the upstreamVal))"

definition getDraftModelResolution :: "Drafts \<Rightarrow> ResolutionsMap \<Rightarrow> jsstr \<Rightarrow> sync_value obj" where
  "getDraftModelResolution drafts resolutions model =
     (case map_of drafts model of
        Some existingDraft \<Rightarrow> existingDraft
      | None \<Rightarrow> (case map_of resolutions model of Some r \<Rightarrow> r | None \<Rightarrow> []))"

text \<open>
  The field and value a selection really sets: the expression of the same source, when it
  has one, takes the place of the field that was clicked.
\<close>

definition resolveResolutionSelection ::
  "Differences \<Rightarrow> ResolutionSelection \<Rightarrow> ResolutionSelection" where
  "resolveResolutionSelection differences selection =
     (let modelDiffs = map_of differences (rs_model selection);
          preferredType = getPreferredSyncField (case modelDiffs of None \<Rightarrow> [] | Some d \<Rightarrow> d)
            (rs_ratioType selection) (rs_sourceName selection);
          preferredValue =
            (if preferredType = rs_ratioType selection then rs_value selection
             else case (case modelDiffs of None \<Rightarrow> None
                        | Some d \<Rightarrow> upstreamValue d preferredType (rs_sourceName selection)) of
                    None \<Rightarrow> rs_value selection
                  | Some SNull \<Rightarrow> rs_value selection
                  | Some v \<Rightarrow> v)
      in selection\<lparr>rs_ratioType := preferredType, rs_value := preferredValue\<rparr>)"

text \<open>
  One selection applied to the draft of its model: drop the fields of the other
  non-expression category, set the field, and with an expression field also set the
  billing mode and expression of the same source.
\<close>

definition dropOtherCategory :: "billing_category \<Rightarrow> sync_value obj \<Rightarrow> sync_value obj" where
  "dropOtherCategory category draft =
     filter (\<lambda>(rt, v). \<not> (category \<noteq> Tiered \<and> getBillingCategory rt \<noteq> Tiered \<and>
                            getBillingCategory rt \<noteq> category)) draft"

definition setTieredFields ::
  "RatioTypes \<Rightarrow> jsstr \<Rightarrow> jsstr \<Rightarrow> sync_value obj \<Rightarrow> sync_value obj" where
  "setTieredFields modelDiffs sourceName finalType draft =
     (let modeVal = upstreamValue modelDiffs BILLING_MODE sourceName;
          exprVal = upstreamValue modelDiffs BILLING_EXPR sourceName;
          draft1 = (if modeVal \<noteq> None \<and> modeVal \<noteq> Some SNull \<and> modeVal \<noteq> Some (SStr (js ''same''))
                    then AList.update BILLING_MODE (the modeVal) draft
                    else if finalType = BILLING_EXPR
                    then AList.update BILLING_MODE (SStr (js ''tiered_expr'')) draft
                    else draft)
      in if exprVal \<noteq> None \<and> exprVal \<noteq> Some SNull \<and> exprVal \<noteq> Some (SStr (js ''same''))
         then AList.update BILLING_EXPR (the exprVal) draft1 else draft1)"

definition selectInDraft ::
  "Differences \<Rightarrow> ResolutionSelection \<Rightarrow> sync_value obj \<Rightarrow> sync_value obj" where
  "selectInDraft differences selection draft =
     (let resolved = resolveResolutionSelection differences selection;
          finalType = rs_ratioType resolved;
          category = getBillingCategory finalType;
          draft1 = AList.update finalType (rs_value resolved) (dropOtherCategory category draft)
      in case map_of differences (rs_model selection) of
           None \<Rightarrow> draft1
         | Some modelDiffs \<Rightarrow>
             if category = Tiered
             then setTieredFields modelDiffs (rs_sourceName selection) finalType draft1
             else draft1)"

definition applyResolutionSelectionToDraft ::
  "Drafts \<Rightarrow> ResolutionsMap \<Rightarrow> Differences \<Rightarrow> ResolutionSelection \<Rightarrow> Drafts" where
  "applyResolutionSelectionToDraft drafts resolutions differences selection =
     AList.update (rs_model selection)
       (selectInDraft differences selection
          (getDraftModelResolution drafts resolutions (rs_model selection))) drafts"

definition storeDraft :: "ResolutionsMap \<Rightarrow> jsstr \<times> sync_value obj \<Rightarrow> ResolutionsMap" where
  "storeDraft next' md =
     (case md of (model, draft) \<Rightarrow>
        if draft = [] then AList.delete model next' else AList.update model draft next')"

definition applyResolutionSelections ::
  "ResolutionsMap \<Rightarrow> Differences \<Rightarrow> ResolutionSelection list \<Rightarrow> ResolutionsMap" where
  "applyResolutionSelections resolutions differences selections =
     (if selections = [] then resolutions
      else foldl storeDraft resolutions
        (foldl (\<lambda>drafts selection.
           applyResolutionSelectionToDraft drafts resolutions differences selection) [] selections))"

definition applyResolutionSelection ::
  "ResolutionsMap \<Rightarrow> Differences \<Rightarrow> ResolutionSelection \<Rightarrow> ResolutionsMap" where
  "applyResolutionSelection resolutions differences selection =
     applyResolutionSelections resolutions differences [selection]"

text \<open>
  The selections that still count after later ones of the same model replaced them: a
  map from model and field, joined by a zero code unit, to the resolved selection.
\<close>

definition effectiveStep ::
  "Differences \<Rightarrow> (jsstr \<times> ResolutionSelection) list \<Rightarrow> ResolutionSelection \<Rightarrow>
   (jsstr \<times> ResolutionSelection) list" where
  "effectiveStep differences effectiveByKey selection =
     (let resolved = resolveResolutionSelection differences selection;
          category = getBillingCategory (rs_ratioType resolved);
          kept = (if category \<noteq> Tiered
                  then filter (\<lambda>(key, existing).
                         \<not> (rs_model existing = rs_model resolved \<and>
                            getBillingCategory (rs_ratioType existing) \<noteq> Tiered \<and>
                            getBillingCategory (rs_ratioType existing) \<noteq> category)) effectiveByKey
                  else effectiveByKey)
      in AList.update (rs_model resolved @ [0] @ rs_ratioType resolved) resolved kept)"

definition getEffectiveResolutionSelections ::
  "Differences \<Rightarrow> ResolutionSelection list \<Rightarrow> ResolutionSelection list" where
  "getEffectiveResolutionSelections differences selections =
     map snd (foldl (effectiveStep differences) [] selections)"

definition removeField :: "sync_value obj \<Rightarrow> jsstr \<Rightarrow> sync_value obj" where
  "removeField draft ratioType =
     (let d1 = AList.delete ratioType draft;
          d2 = (if ratioType = BILLING_EXPR then AList.delete BILLING_MODE d1 else d1)
      in if ratioType = BILLING_MODE then AList.delete BILLING_EXPR d2 else d2)"

definition removalStep ::
  "ResolutionsMap \<Rightarrow> ResolutionsMap \<Rightarrow> jsstr \<times> jsstr list \<Rightarrow> ResolutionsMap" where
  "removalStep resolutions next' entry =
     (case entry of (model, ratioTypes) \<Rightarrow>
        (case map_of resolutions model of
           None \<Rightarrow> next'
         | Some current \<Rightarrow> storeDraft next' (model, foldl removeField current ratioTypes)))"

definition applyResolutionRemovalPlan :: "ResolutionsMap \<Rightarrow> ResolutionRemovalPlan \<Rightarrow> ResolutionsMap" where
  "applyResolutionRemovalPlan resolutions plan =
     (if plan = [] then resolutions else foldl (removalStep resolutions) resolutions plan)"

definition planAdd :: "ResolutionRemovalPlan \<Rightarrow> ResolutionRemoval \<Rightarrow> ResolutionRemovalPlan" where
  "planAdd plan removal =
     (case map_of plan (rr_model removal) of
        Some ratioTypes \<Rightarrow> AList.update (rr_model removal) (set_add ratioTypes (rr_ratioType removal)) plan
      | None \<Rightarrow> AList.update (rr_model removal) [rr_ratioType removal] plan)"

definition applyResolutionRemovals :: "ResolutionsMap \<Rightarrow> ResolutionRemoval list \<Rightarrow> ResolutionsMap" where
  "applyResolutionRemovals resolutions removals =
     (if removals = [] then resolutions
      else applyResolutionRemovalPlan resolutions (foldl planAdd [] removals))"

definition deleteResolutionField :: "ResolutionsMap \<Rightarrow> jsstr \<Rightarrow> jsstr \<Rightarrow> ResolutionsMap" where
  "deleteResolutionField resolutions model ratioType =
     applyResolutionRemovals resolutions [\<lparr>rr_model = model, rr_ratioType = ratioType\<rparr>]"


section \<open>Drafts\<close>

text \<open>A draft never mixes the fixed price with ratio fields.\<close>

definition exclusive :: "sync_value obj \<Rightarrow> bool" where
  "exclusive d \<longleftrightarrow> (\<forall>a \<in> set (keys_of d). \<forall>b \<in> set (keys_of d).
     getBillingCategory a \<noteq> Tiered \<and> getBillingCategory b \<noteq> Tiered \<longrightarrow>
     getBillingCategory a = getBillingCategory b)"

definition wf_draft :: "sync_value obj \<Rightarrow> bool" where
  "wf_draft d \<longleftrightarrow> d \<noteq> [] \<and> wf_map d \<and> exclusive d"

definition wf_resolutions :: "ResolutionsMap \<Rightarrow> bool" where
  "wf_resolutions r \<longleftrightarrow> (\<forall>model d. map_of r model = Some d \<longrightarrow> wf_draft d)"

lemma category_simps [simp]:
  "getBillingCategory MODEL_PRICE = Price" "getBillingCategory BILLING_MODE = Tiered"
  "getBillingCategory BILLING_EXPR = Tiered"
  by (simp_all add: getBillingCategory_def js_simps)

lemma keys_dropOther:
  "set (keys_of (dropOtherCategory c d)) = {rt \<in> set (keys_of d).
     \<not> (c \<noteq> Tiered \<and> getBillingCategory rt \<noteq> Tiered \<and> getBillingCategory rt \<noteq> c)}"
  by (force simp: dropOtherCategory_def)

lemma keys_setTiered:
  "set (keys_of (setTieredFields md src ft d)) \<subseteq> set (keys_of d) \<union> {BILLING_MODE, BILLING_EXPR}"
  by (auto simp: setTieredFields_def Let_def dom_update split: if_splits)

lemma setTiered_ne: "d \<noteq> [] \<Longrightarrow> setTieredFields md src ft d \<noteq> []"
  by (simp add: setTieredFields_def Let_def)

lemma wf_setTiered: "wf_map d \<Longrightarrow> wf_map (setTieredFields md src ft d)"
  by (simp add: setTieredFields_def Let_def wf_map_update)

lemma selectInDraft_ne [simp]: "selectInDraft dfs s d \<noteq> []"
  by (simp add: selectInDraft_def Let_def setTiered_ne split: option.splits)

lemma wf_selectInDraft: "wf_map d \<Longrightarrow> wf_map (selectInDraft dfs s d)"
  unfolding selectInDraft_def Let_def
  by (simp add: wf_setTiered wf_map_update dropOtherCategory_def wf_map_filter split: option.splits)

lemma keys_selectInDraft:
  "set (keys_of (selectInDraft dfs s d)) \<subseteq>
     insert (rs_ratioType (resolveResolutionSelection dfs s))
       (set (keys_of (dropOtherCategory
          (getBillingCategory (rs_ratioType (resolveResolutionSelection dfs s))) d)))
     \<union> {BILLING_MODE, BILLING_EXPR}"
proof -
  let ?res = "resolveResolutionSelection dfs s"
  let ?d = "dropOtherCategory (getBillingCategory (rs_ratioType ?res)) d"
  let ?d1 = "AList.update (rs_ratioType ?res) (rs_value ?res) ?d"
  have keys: "set (keys_of ?d1) = insert (rs_ratioType ?res) (set (keys_of ?d))"
    by (rule keys_update)
  have "selectInDraft dfs s d = ?d1 \<or>
    (\<exists>md. selectInDraft dfs s d = setTieredFields md (rs_sourceName s) (rs_ratioType ?res) ?d1)"
    by (auto simp: selectInDraft_def Let_def split: option.splits)
  then show ?thesis
    using keys keys_setTiered [of _ "rs_sourceName s" "rs_ratioType ?res" ?d1] by (metis Un_upper1)
qed

lemma exclusive_mono: "exclusive d \<Longrightarrow>
    (\<forall>rt \<in> set (keys_of d'). getBillingCategory rt = Tiered \<or> rt \<in> set (keys_of d)) \<Longrightarrow> exclusive d'"
  unfolding exclusive_def by metis

lemma exclusive_selectInDraft:
  assumes "exclusive d"
  shows "exclusive (selectInDraft dfs s d)"
proof -
  define ft where "ft = rs_ratioType (resolveResolutionSelection dfs s)"
  let ?d = "dropOtherCategory (getBillingCategory ft) d"
  have sub: "set (keys_of (selectInDraft dfs s d)) \<subseteq> insert ft (set (keys_of ?d)) \<union> {BILLING_MODE, BILLING_EXPR}"
    unfolding ft_def by (rule keys_selectInDraft)
  show ?thesis
  proof (cases "getBillingCategory ft = Tiered")
    case True
    show ?thesis
      by (rule exclusive_mono [OF assms]) (use sub keys_dropOther True in auto)
  next
    case False
    then have "\<forall>rt \<in> set (keys_of (selectInDraft dfs s d)).
      getBillingCategory rt = Tiered \<or> getBillingCategory rt = getBillingCategory ft"
      using sub keys_dropOther [of "getBillingCategory ft" d] by auto
    then show ?thesis unfolding exclusive_def by metis
  qed
qed

lemma wf_draft_selectInDraft: "wf_map d \<Longrightarrow> exclusive d \<Longrightarrow> wf_draft (selectInDraft dfs s d)"
  by (simp add: wf_draft_def wf_selectInDraft exclusive_selectInDraft)

section \<open>The resolutions after a batch of selections\<close>

text \<open>The draft a model starts from.\<close>

abbreviation draft_of :: "ResolutionsMap \<Rightarrow> jsstr \<Rightarrow> sync_value obj" where
  "draft_of r model \<equiv> (case map_of r model of Some d \<Rightarrow> d | None \<Rightarrow> [])"

lemma map_of_storeDrafts:
  "wf_map drafts \<Longrightarrow> map_of (foldl storeDraft r drafts) m =
     (case map_of drafts m of None \<Rightarrow> map_of r m | Some d \<Rightarrow> if d = [] then None else Some d)"
proof (induction drafts arbitrary: r)
  case Nil
  then show ?case by simp
next
  case (Cons md drafts)
  obtain m' d where [simp]: "md = (m', d)" by fastforce
  have "map_of drafts m' = None" using Cons.prems by (simp add: map_of_eq_None_iff image_iff)
  with Cons show ?case
    by (auto simp: storeDraft_def map_of_update map_of_delete split: option.splits)
qed

lemma wf_drafts:
  "wf_map drafts \<Longrightarrow> wf_map (foldl (\<lambda>ds s. applyResolutionSelectionToDraft ds r dfs s) drafts sels)"
  by (induction sels arbitrary: drafts) (simp_all add: applyResolutionSelectionToDraft_def wf_map_update)

lemma map_of_drafts:
  "map_of (foldl (\<lambda>ds s. applyResolutionSelectionToDraft ds r dfs s) [] sels) m =
     (let ss = filter (\<lambda>s. rs_model s = m) sels in
      if ss = [] then None
      else Some (foldl (\<lambda>d s. selectInDraft dfs s d) (draft_of r m) ss))"
proof -
  let ?getd = "\<lambda>ds k. getDraftModelResolution ds r k"
  have "?getd (AList.update k v ds) k' = (if k' = k then v else ?getd ds k')" for ds k v k'
    by (simp add: getDraftModelResolution_def map_of_update)
  from map_of_foldl_update [where getd = ?getd and key = rs_model and
      step = "\<lambda>s d. selectInDraft dfs s d" and init = "[]" and xs = sels and k = m, OF this]
  show ?thesis
    by (simp add: applyResolutionSelectionToDraft_def Let_def getDraftModelResolution_def)
qed

lemma foldl_selectInDraft_ne: "ss \<noteq> [] \<Longrightarrow> foldl (\<lambda>d s. selectInDraft dfs s d) d0 ss \<noteq> []"
  by (cases ss rule: rev_cases) simp_all

lemma map_of_applySelections:
  "map_of (applyResolutionSelections r dfs sels) m =
     (let ss = filter (\<lambda>s. rs_model s = m) sels in
      if ss = [] then map_of r m
      else Some (foldl (\<lambda>d s. selectInDraft dfs s d) (draft_of r m) ss))"
  by (simp add: applyResolutionSelections_def map_of_storeDrafts wf_drafts map_of_drafts
      foldl_selectInDraft_ne Let_def)

lemma wf_foldl_selectInDraft:
  "wf_map d \<Longrightarrow> exclusive d \<Longrightarrow> ss \<noteq> [] \<Longrightarrow> wf_draft (foldl (\<lambda>d s. selectInDraft dfs s d) d ss)"
proof (induction ss arbitrary: d)
  case Nil
  then show ?case by simp
next
  case (Cons s ss)
  then have "wf_draft (selectInDraft dfs s d)" by (simp add: wf_draft_selectInDraft)
  with Cons.IH show ?case by (cases "ss = []") (auto simp: wf_draft_def)
qed

lemma wf_draft_of: "wf_resolutions r \<Longrightarrow> wf_map (draft_of r m) \<and> exclusive (draft_of r m)"
  by (cases "map_of r m") (auto simp: wf_resolutions_def wf_draft_def exclusive_def [of "[]"])

lemma wf_applySelections:
  assumes "wf_resolutions r"
  shows "wf_resolutions (applyResolutionSelections r dfs sels)"
  unfolding wf_resolutions_def
proof (intro allI impI)
  fix m d
  assume "map_of (applyResolutionSelections r dfs sels) m = Some d"
  then show "wf_draft d"
    using assms wf_foldl_selectInDraft wf_draft_of [OF assms, of m]
    by (auto simp: map_of_applySelections Let_def wf_resolutions_def split: if_splits)
qed

section \<open>The resolutions after a removal\<close>

lemma map_of_removeField:
  "map_of (removeField d rt) = (map_of d) |` (- (if rt = BILLING_EXPR \<or> rt = BILLING_MODE
      then {BILLING_EXPR, BILLING_MODE} else {rt}))"
  by (rule ext) (auto simp: removeField_def Let_def map_of_delete restrict_map_def)

definition removedFields :: "jsstr list \<Rightarrow> jsstr set" where
  "removedFields rts = set rts \<union>
     (if BILLING_EXPR \<in> set rts \<or> BILLING_MODE \<in> set rts then {BILLING_EXPR, BILLING_MODE} else {})"

lemma removedFields_iff:
  "rt \<in> removedFields rts \<longleftrightarrow> (\<exists>t \<in> set rts. t = rt \<or> {t, rt} \<subseteq> {BILLING_EXPR, BILLING_MODE})"
  by (auto simp: removedFields_def)

lemma map_of_removeFields:
  "map_of (foldl removeField d rts) = (map_of d) |` (- removedFields rts)"
  by (induction rts arbitrary: d)
    (auto simp: removedFields_def map_of_removeField restrict_map_def fun_eq_iff)

lemma wf_removeFields: "wf_map d \<Longrightarrow> wf_map (foldl removeField d rts)"
  by (induction rts arbitrary: d) (simp_all add: removeField_def Let_def wf_map_delete)

lemma keys_removeFields: "set (keys_of (foldl removeField d rts)) = set (keys_of d) - removedFields rts"
proof -
  have "dom (map_of (foldl removeField d rts)) = dom (map_of d) - removedFields rts"
    by (auto simp: map_of_removeFields restrict_map_def dom_def split: if_splits)
  then show ?thesis by (simp add: dom_map_of_conv_image_fst)
qed

lemma map_of_removalSteps:
  "wf_map plan \<Longrightarrow> map_of (foldl (removalStep r) next' plan) m =
     (case map_of plan m of
        None \<Rightarrow> map_of next' m
      | Some rts \<Rightarrow> (case map_of r m of None \<Rightarrow> map_of next' m
          | Some d \<Rightarrow> (let d' = foldl removeField d rts in if d' = [] then None else Some d')))"
proof (induction plan arbitrary: next')
  case Nil
  then show ?case by simp
next
  case (Cons e plan)
  obtain m' rts where [simp]: "e = (m', rts)" by fastforce
  have "map_of plan m' = None" using Cons.prems by (simp add: map_of_eq_None_iff image_iff)
  with Cons show ?case
    by (auto simp: removalStep_def storeDraft_def map_of_update map_of_delete Let_def split: option.splits)
qed

lemma map_of_removalPlan:
  assumes "wf_map plan"
  shows "map_of (applyResolutionRemovalPlan r plan) m =
     (case map_of plan m of
        None \<Rightarrow> map_of r m
      | Some rts \<Rightarrow> (case map_of r m of None \<Rightarrow> None
          | Some d \<Rightarrow> (let d' = foldl removeField d rts in if d' = [] then None else Some d')))"
  using map_of_removalSteps [OF assms, of r r m]
  by (auto simp: applyResolutionRemovalPlan_def split: option.splits)

lemma wf_removalPlan:
  assumes "wf_resolutions r" "wf_map plan"
  shows "wf_resolutions (applyResolutionRemovalPlan r plan)"
  unfolding wf_resolutions_def
proof (intro allI impI)
  fix m d
  assume d: "map_of (applyResolutionRemovalPlan r plan) m = Some d"
  show "wf_draft d"
  proof (cases "map_of plan m = None \<or> map_of r m = None")
    case True
    with d assms show ?thesis
      by (auto simp: map_of_removalPlan wf_resolutions_def split: option.splits)
  next
    case False
    then obtain rts d0 where "map_of plan m = Some rts" "map_of r m = Some d0" by auto
    with d assms(2) have "d = foldl removeField d0 rts" "d \<noteq> []"
      by (auto simp: map_of_removalPlan Let_def split: if_splits)
    moreover have "wf_draft d0" using assms(1) \<open>map_of r m = Some d0\<close> by (simp add: wf_resolutions_def)
    ultimately show ?thesis
      using keys_removeFields [of d0 rts] exclusive_mono [of d0 d] by (auto simp: wf_draft_def wf_removeFields)
  qed
qed

lemma wf_plan: "wf_map plan \<Longrightarrow> wf_map (foldl planAdd plan rems)"
  by (induction rems arbitrary: plan) (auto simp: planAdd_def wf_map_update split: option.splits)

lemma wf_removals: "wf_resolutions r \<Longrightarrow> wf_resolutions (applyResolutionRemovals r rems)"
  by (simp add: applyResolutionRemovals_def wf_removalPlan wf_plan)


section \<open>Properties\<close>

text \<open>
  A batch of selections is the sequence of its parts: applying a list of selections
  at once leaves, for every model, the same resolution as applying a prefix first and the
  rest to the result.
\<close>

lemma selections_batch_is_sequence:
  "map_of (applyResolutionSelections r dfs (a @ b)) =
   map_of (applyResolutionSelections (applyResolutionSelections r dfs a) dfs b)"
proof
  fix m
  show "map_of (applyResolutionSelections r dfs (a @ b)) m =
    map_of (applyResolutionSelections (applyResolutionSelections r dfs a) dfs b) m"
    by (auto simp: map_of_applySelections Let_def)
qed

text \<open>The value picked for a field of a model.\<close>

definition picked :: "ResolutionsMap \<Rightarrow> jsstr \<Rightarrow> jsstr \<Rightarrow> sync_value option" where
  "picked r m rt = (case map_of r m of None \<Rightarrow> None | Some d \<Rightarrow> map_of d rt)"

lemma map_of_planAdd1:
  "map_of (planAdd plan x) m =
     (if rr_model x = m then Some (case map_of plan m of Some ts \<Rightarrow> set_add ts (rr_ratioType x)
        | None \<Rightarrow> [rr_ratioType x]) else map_of plan m)"
  by (auto simp: planAdd_def map_of_update split: option.splits)

lemma map_of_planAdd:
  "map_of (foldl planAdd plan rems) m =
     (let rts = map rr_ratioType (filter (\<lambda>x. rr_model x = m) rems) in
      case map_of plan m of
        Some ts \<Rightarrow> Some (foldl set_add ts rts)
      | None \<Rightarrow> if rts = [] then None else Some (set_of rts))"
proof (induction rems arbitrary: plan)
  case Nil
  then show ?case by (simp split: option.splits)
next
  case (Cons x rems)
  show ?case
    by (auto simp: Cons.IH map_of_planAdd1 Let_def set_of_Cons split: option.splits)
qed

lemma picked_removals:
  "picked (applyResolutionRemovals r rems) m rt =
     (if rt \<in> removedFields (map rr_ratioType (filter (\<lambda>x. rr_model x = m) rems)) then None
      else picked r m rt)"
proof (cases "filter (\<lambda>x. rr_model x = m) rems = []")
  case True
  then have "map_of (applyResolutionRemovals r rems) m = map_of r m"
    by (simp add: applyResolutionRemovals_def map_of_removalPlan wf_plan map_of_planAdd)
  with True show ?thesis by (simp add: picked_def removedFields_def)
next
  case False
  let ?rts = "map rr_ratioType (filter (\<lambda>x. rr_model x = m) rems)"
  have "rems \<noteq> []" using False by auto
  with False have eq: "map_of (applyResolutionRemovals r rems) m =
    (case map_of r m of None \<Rightarrow> None
     | Some d \<Rightarrow> (let d' = foldl removeField d (set_of ?rts) in if d' = [] then None else Some d'))"
    by (simp add: applyResolutionRemovals_def map_of_removalPlan wf_plan map_of_planAdd Let_def)
  have "removedFields (set_of ?rts) = removedFields ?rts" by (simp add: removedFields_def)
  moreover have "picked (applyResolutionRemovals r rems) m rt = (case map_of r m of None \<Rightarrow> None
     | Some d \<Rightarrow> map_of (foldl removeField d (set_of ?rts)) rt)"
    by (auto simp: picked_def eq Let_def split: option.splits)
  ultimately show ?thesis
    by (simp add: map_of_removeFields picked_def restrict_map_def split: option.splits)
qed

text \<open>
  A batch of removals drops exactly the fields it names, the billing mode and the
  billing expression always together, and keeps every other pick of every model.
\<close>

lemma removals_exact:
  "picked (applyResolutionRemovals r rems) m rt =
     (if (\<exists>x \<in> set rems. rr_model x = m \<and>
            (rr_ratioType x = rt \<or>
             {rr_ratioType x, rt} \<subseteq> {BILLING_EXPR, BILLING_MODE}))
      then None else picked r m rt)"
proof -
  have "rt \<in> removedFields (map rr_ratioType (filter (\<lambda>x. rr_model x = m) rems)) \<longleftrightarrow>
    (\<exists>x \<in> set rems. rr_model x = m \<and>
       (rr_ratioType x = rt \<or> {rr_ratioType x, rt} \<subseteq> {BILLING_EXPR, BILLING_MODE}))"
    unfolding removedFields_iff by auto
  then show ?thesis by (simp add: picked_removals)
qed

text \<open>A value the server reports for a field: a finite number, or a text for the expression fields.\<close>

definition wellTyped :: "jsstr \<Rightarrow> sync_value \<Rightarrow> bool" where
  "wellTyped rt v \<longleftrightarrow>
     (if rt \<in> set NUMERIC_SYNC_FIELDS then is_finite (number_of_value v) else (\<exists>s. v = SStr s))"

lemma num_eq_refl: "is_finite n \<Longrightarrow> num_eq n n"
  by (cases n) auto

lemma isSelected_picked:
  assumes "picked r m rt = Some v" "wellTyped rt v" "isSelectableUpstreamValue (Some v)"
  shows "isSelectedResolutionValue r m rt (Some v)"
  using assms
  by (auto simp: isSelectedResolutionValue_def picked_def wellTyped_def num_eq_refl Let_def
      split: option.splits if_splits)

lemma picked_applySelection:
  "picked (applyResolutionSelection r dfs sel) (rs_model sel) rt =
     map_of (selectInDraft dfs sel (draft_of r (rs_model sel))) rt"
  by (simp add: picked_def applyResolutionSelection_def map_of_applySelections)

lemma tiered_not_numeric: "getBillingCategory rt = Tiered \<Longrightarrow> rt = BILLING_MODE \<or> rt = BILLING_EXPR"
  by (auto simp: getBillingCategory_def split: if_splits)

lemma mode_neq_expr: "BILLING_MODE \<noteq> BILLING_EXPR"
  by (simp add: js_simps)

lemma selectInDraft_picks:
  assumes md: "map_of dfs (rs_model sel) = Some md"
    and up: "upstreamValue md (rs_ratioType sel) (rs_sourceName sel) = Some (rs_value sel)"
    and sel: "isSelectableUpstreamValue (Some (rs_value sel))"
  defines "res \<equiv> resolveResolutionSelection dfs sel"
  shows "map_of (selectInDraft dfs sel d) (rs_ratioType res) = Some (rs_value res) \<and>
    upstreamValue md (rs_ratioType res) (rs_sourceName sel) = Some (rs_value res) \<and>
    isSelectableUpstreamValue (Some (rs_value res))"
proof (cases "rs_ratioType sel \<noteq> BILLING_EXPR \<and>
    isSelectableUpstreamValue (upstreamValue md BILLING_EXPR (rs_sourceName sel))")
  case True
  then obtain w where w: "upstreamValue md BILLING_EXPR (rs_sourceName sel) = Some w"
    "isSelectableUpstreamValue (Some w)"
    by (auto simp: isSelectableUpstreamValue_def)
  have "res = sel\<lparr>rs_ratioType := BILLING_EXPR, rs_value := w\<rparr>"
    using True md w
    by (auto simp: res_def resolveResolutionSelection_def Let_def getPreferredSyncField_def
        isSelectableUpstreamValue_def split: sync_value.splits)
  with w md show ?thesis
    by (simp add: selectInDraft_def res_def [symmetric] Let_def setTieredFields_def map_of_update
        isSelectableUpstreamValue_def)
next
  case False
  have res: "res = sel"
    using False md
    by (auto simp: res_def resolveResolutionSelection_def Let_def getPreferredSyncField_def
        isSelectableUpstreamValue_def)
  have "map_of (selectInDraft dfs sel d) (rs_ratioType sel) = Some (rs_value sel)"
  proof (cases "getBillingCategory (rs_ratioType sel) = Tiered")
    case False
    then show ?thesis using res md by (simp add: selectInDraft_def res_def [symmetric] Let_def map_of_update)
  next
    case True
    then have "rs_ratioType sel = BILLING_MODE \<or> rs_ratioType sel = BILLING_EXPR"
      by (rule tiered_not_numeric)
    then show ?thesis
      using res md up sel False mode_neq_expr
      by (auto simp: selectInDraft_def res_def [symmetric] Let_def setTieredFields_def map_of_update
          isSelectableUpstreamValue_def)
  qed
  with res up sel show ?thesis by simp
qed

text \<open>
  After the administrator picks a value that an upstream reports, the cell it resolves
  to (the expression of the same upstream when there is one, else the clicked field) is
  shown as selected.
\<close>

lemma select_then_selected:
  assumes "map_of dfs (rs_model sel) = Some md"
    and "upstreamValue md (rs_ratioType sel) (rs_sourceName sel) = Some (rs_value sel)"
    and "isSelectableUpstreamValue (Some (rs_value sel))"
    and "\<And>rt w. upstreamValue md rt (rs_sourceName sel) = Some w \<Longrightarrow>
           isSelectableUpstreamValue (Some w) \<Longrightarrow> wellTyped rt w"
  defines "res \<equiv> resolveResolutionSelection dfs sel"
  shows "isSelectedResolutionValue (applyResolutionSelection r dfs sel) (rs_model sel)
    (rs_ratioType res) (Some (rs_value res))"
  using selectInDraft_picks [OF assms(1-3)] assms(4) isSelected_picked
  by (simp add: picked_applySelection res_def)

definition sampleEntry :: "jsstr \<Rightarrow> sync_value \<Rightarrow> RatioDifferenceEntry" where
  "sampleEntry src v = \<lparr>rd_current = SNull, rd_upstreams = [(src, v)], rd_confidence = []\<rparr>"

lemma select_then_selected_witness:
  "isSelectedResolutionValue
     (applyResolutionSelection [] [(js ''gpt'', [(js ''model_ratio'', sampleEntry (js ''up'') (SNum (Fin 2)))])]
        \<lparr>rs_model = js ''gpt'', rs_ratioType = js ''model_ratio'', rs_value = SNum (Fin 2), rs_sourceName = js ''up''\<rparr>)
     (js ''gpt'') (js ''model_ratio'') (Some (SNum (Fin 2)))"
proof -
  let ?md = "[(js ''model_ratio'', sampleEntry (js ''up'') (SNum (Fin 2)))]"
  let ?dfs = "[(js ''gpt'', ?md)]"
  let ?sel = "\<lparr>rs_model = js ''gpt'', rs_ratioType = js ''model_ratio'', rs_value = SNum (Fin 2),
    rs_sourceName = js ''up''\<rparr>"
  have wt: "wellTyped rt w"
    if "upstreamValue ?md rt (rs_sourceName ?sel) = Some w" "isSelectableUpstreamValue (Some w)" for rt w
    using that by (auto simp: upstreamValue_def sampleEntry_def wellTyped_def NUMERIC_SYNC_FIELDS_def
        RATIO_SYNC_FIELDS_def split: if_splits)
  have res: "resolveResolutionSelection ?dfs ?sel = ?sel"
    by (simp add: resolveResolutionSelection_def getPreferredSyncField_def upstreamValue_def js_simps)
  have "isSelectedResolutionValue (applyResolutionSelection [] ?dfs ?sel) (rs_model ?sel)
      (rs_ratioType (resolveResolutionSelection ?dfs ?sel))
      (Some (rs_value (resolveResolutionSelection ?dfs ?sel)))"
  proof (rule select_then_selected)
    show "map_of ?dfs (rs_model ?sel) = Some ?md" by simp
    show "upstreamValue ?md (rs_ratioType ?sel) (rs_sourceName ?sel) = Some (rs_value ?sel)"
      by (simp add: upstreamValue_def sampleEntry_def)
    show "isSelectableUpstreamValue (Some (rs_value ?sel))"
      by (simp add: isSelectableUpstreamValue_def)
  qed (rule wt)
  with res show ?thesis by simp
qed

end
