(* ===== verification/Sync_Screen.thy ===== *)
theory Sync_Screen
  imports Ratio_Sync JS_System
begin

text \<open>
  The screen of \<open>upstream-ratio-sync.tsx\<close>: its state (the differences fetched from the
  upstreams and the picked resolutions), one step per handler, the detection of billing
  conflicts before a sync, and the options that a sync stores. The stored options are
  compared with a specification read off field by field.
\<close>

section \<open>Stored options\<close>

definition capitalize :: "jsstr \<Rightarrow> jsstr" where
  "capitalize word = (case word of [] \<Rightarrow> []
     | c # cs \<Rightarrow> (if 97 \<le> c \<and> c \<le> 122 then c - 32 else c) # cs)"

definition optionKeyBySyncField :: "jsstr \<Rightarrow> jsstr" where
  "optionKeyBySyncField ratioType =
     (if ratioType = BILLING_MODE then js ''billing_setting.billing_mode''
      else if ratioType = BILLING_EXPR then js ''billing_setting.billing_expr''
      else join [] (map capitalize (split_on 95 ratioType)))"

abbreviation "MODEL_PRICE_OPTION \<equiv> js ''ModelPrice''"

definition RATIO_OPTIONS :: "jsstr list" where
  "RATIO_OPTIONS = [js ''ModelRatio'', js ''CompletionRatio'', js ''CacheRatio'', js ''CreateCacheRatio'',
     js ''ImageRatio'', js ''AudioRatio'', js ''AudioCompletionRatio'']"

definition SYNC_OPTIONS :: "jsstr list" where
  "SYNC_OPTIONS = RATIO_OPTIONS @ [MODEL_PRICE_OPTION, js ''billing_setting.billing_mode'',
     js ''billing_setting.billing_expr'']"

text \<open>
  \<open>currentRatios\<close> gives, for each option, the object stored in it; \<open>finalRatios\<close> starts as
  its copy. Writing to an option that is not there raises a \<open>TypeError\<close>: \<open>None\<close>.
\<close>

type_synonym Options = "(jsstr \<times> sync_value obj) list"

definition copyRatios :: "(jsstr \<Rightarrow> sync_value obj) \<Rightarrow> Options" where
  "copyRatios currentRatios = map (\<lambda>k. (k, currentRatios k)) SYNC_OPTIONS"

definition deleteEntry :: "jsstr \<Rightarrow> Options \<Rightarrow> jsstr \<Rightarrow> Options" where
  "deleteEntry model fr opt =
     (case map_of fr opt of None \<Rightarrow> fr | Some stored \<Rightarrow> AList.update opt (AList.delete model stored) fr)"

definition writeEntry :: "jsstr \<Rightarrow> Options option \<Rightarrow> jsstr \<times> sync_value \<Rightarrow> Options option" where
  "writeEntry model fr' entry =
     (case (fr', entry) of
        (None, _) \<Rightarrow> None
      | (Some fr, (ratioType, v)) \<Rightarrow>
          (let opt = optionKeyBySyncField ratioType in
           case map_of fr opt of
             None \<Rightarrow> None
           | Some stored \<Rightarrow> Some (AList.update opt (AList.update model
               (if ratioType \<in> set NUMERIC_SYNC_FIELDS then SNum (number_of_value v) else v) stored) fr)))"

definition syncModel :: "Options option \<Rightarrow> jsstr \<times> sync_value obj \<Rightarrow> Options option" where
  "syncModel fr' entry =
     (case (fr', entry) of
        (None, _) \<Rightarrow> None
      | (Some fr, (model, ratios)) \<Rightarrow>
          (let selectedTypes = keys_of ratios;
               hasPrice = MODEL_PRICE \<in> set selectedTypes;
               hasRatio = list_ex (\<lambda>rt. rt \<in> set RATIO_SYNC_FIELDS) selectedTypes;
               fr1 = (if hasPrice then foldl (deleteEntry model) fr RATIO_OPTIONS else fr);
               fr2 = (if hasRatio then deleteEntry model fr1 MODEL_PRICE_OPTION else fr1)
           in foldl (writeEntry model) (Some fr2) ratios))"

definition performSync :: "ResolutionsMap \<Rightarrow> (jsstr \<Rightarrow> sync_value obj) \<Rightarrow> Options option" where
  "performSync resolutions currentRatios =
     foldl syncModel (Some (copyRatios currentRatios)) resolutions"

section \<open>Conflicts\<close>

definition getLocalBillingCategory ::
  "jsstr \<Rightarrow> (jsstr \<Rightarrow> sync_value obj) \<Rightarrow> billing_category option" where
  "getLocalBillingCategory model currentRatios =
     (if map_of (currentRatios MODEL_PRICE_OPTION) model \<noteq> None then Some Price
      else if list_ex (\<lambda>opt. map_of (currentRatios opt) model \<noteq> None) RATIO_OPTIONS then Some Ratio
      else None)"

definition newBillingCategory :: "sync_value obj \<Rightarrow> billing_category" where
  "newBillingCategory ratios =
     (if MODEL_PRICE \<in> set (keys_of ratios) then Price
      else if list_ex (\<lambda>rt. rt \<in> set (keys_of ratios)) RATIO_SYNC_FIELDS then Ratio
      else Tiered)"

text \<open>The models of the conflict list; the descriptions shown with them are display text.\<close>

definition conflictModels :: "ResolutionsMap \<Rightarrow> (jsstr \<Rightarrow> sync_value obj) \<Rightarrow> jsstr list" where
  "conflictModels resolutions currentRatios =
     map fst (filter (\<lambda>(model, ratios).
       (case getLocalBillingCategory model currentRatios of
          None \<Rightarrow> False
        | Some localCat \<Rightarrow> newBillingCategory ratios \<noteq> Tiered \<and> localCat \<noteq> newBillingCategory ratios))
       resolutions)"

definition findSourceChannel :: "Differences \<Rightarrow> jsstr \<Rightarrow> jsstr \<Rightarrow> sync_value \<Rightarrow> jsstr" where
  "findSourceChannel differences model ratioType v =
     (case (case map_of differences model of None \<Rightarrow> None | Some d \<Rightarrow> map_of d ratioType) of
        None \<Rightarrow> js ''Unknown''
      | Some entry \<Rightarrow>
          (case find (\<lambda>(name, u). value_eq u v) (rd_upstreams entry) of
             Some (name, u) \<Rightarrow> name
           | None \<Rightarrow> js ''Unknown''))"

text \<open>Applying: either ask for confirmation, or store.\<close>

datatype apply_outcome = AskConfirmation "jsstr list" | Stored "Options option"

definition handleApplySync :: "ResolutionsMap \<Rightarrow> (jsstr \<Rightarrow> sync_value obj) \<Rightarrow> apply_outcome" where
  "handleApplySync resolutions currentRatios =
     (if conflictModels resolutions currentRatios \<noteq> []
      then AskConfirmation (conflictModels resolutions currentRatios)
      else Stored (performSync resolutions currentRatios))"

section \<open>The screen as a state machine\<close>

record SyncScreen =
  ss_differences :: Differences
  ss_resolutions :: ResolutionsMap

definition dropDifference :: "jsstr \<Rightarrow> Differences \<Rightarrow> jsstr \<Rightarrow> Differences" where
  "dropDifference model dfs ratioType =
     (case map_of dfs model of
        None \<Rightarrow> dfs
      | Some d \<Rightarrow>
          (if map_of d ratioType = None then dfs
           else let d' = AList.delete ratioType d in
             if d' = [] then AList.delete model dfs else AList.update model d' dfs))"

definition dropSynced :: "ResolutionsMap \<Rightarrow> Differences \<Rightarrow> Differences" where
  "dropSynced resolutions differences =
     foldl (\<lambda>dfs (model, ratios). foldl (dropDifference model) dfs (keys_of ratios)) differences resolutions"

definition handleFetched :: "Differences \<Rightarrow> SyncScreen \<Rightarrow> SyncScreen" where
  "handleFetched dfs s = s\<lparr>ss_differences := dfs, ss_resolutions := []\<rparr>"

definition handleSelectValue :: "ResolutionSelection \<Rightarrow> SyncScreen \<Rightarrow> SyncScreen" where
  "handleSelectValue sel s =
     s\<lparr>ss_resolutions := applyResolutionSelection (ss_resolutions s) (ss_differences s) sel\<rparr>"

definition handleSelectValues :: "ResolutionSelection list \<Rightarrow> SyncScreen \<Rightarrow> SyncScreen" where
  "handleSelectValues sels s =
     (if sels = [] then s
      else s\<lparr>ss_resolutions := applyResolutionSelections (ss_resolutions s) (ss_differences s) sels\<rparr>)"

definition handleUnselectValue :: "jsstr \<Rightarrow> jsstr \<Rightarrow> SyncScreen \<Rightarrow> SyncScreen" where
  "handleUnselectValue model ratioType s =
     s\<lparr>ss_resolutions := deleteResolutionField (ss_resolutions s) model ratioType\<rparr>"

definition handleUnselectValues :: "ResolutionRemovalPlan \<Rightarrow> SyncScreen \<Rightarrow> SyncScreen" where
  "handleUnselectValues plan s =
     (if plan = [] then s
      else s\<lparr>ss_resolutions := applyResolutionRemovalPlan (ss_resolutions s) plan\<rparr>)"

definition handleSynced :: "SyncScreen \<Rightarrow> SyncScreen" where
  "handleSynced s =
     s\<lparr>ss_differences := dropSynced (ss_resolutions s) (ss_differences s), ss_resolutions := []\<rparr>"

text \<open>
  The fields a selection can name are those of the type \<open>RatioType\<close>; a removal plan is a
  map, so its models are pairwise different.
\<close>

definition typedSelection :: "ResolutionSelection \<Rightarrow> bool" where
  "typedSelection sel \<longleftrightarrow> rs_ratioType sel \<in> set SYNC_FIELD_ORDER"

inductive sync_step :: "SyncScreen \<Rightarrow> SyncScreen \<Rightarrow> bool" where
  fetched: "sync_step s (handleFetched dfs s)"
| select: "typedSelection sel \<Longrightarrow> sync_step s (handleSelectValue sel s)"
| select_many: "\<forall>sel \<in> set sels. typedSelection sel \<Longrightarrow> sync_step s (handleSelectValues sels s)"
| unselect: "sync_step s (handleUnselectValue model ratioType s)"
| unselect_many: "wf_map plan \<Longrightarrow> sync_step s (handleUnselectValues plan s)"
| synced: "sync_step s (handleSynced s)"

definition sync_init :: "SyncScreen \<Rightarrow> bool" where
  "sync_init s \<longleftrightarrow> ss_differences s = [] \<and> ss_resolutions s = []"

section \<open>The invariant\<close>

definition typed_resolutions :: "ResolutionsMap \<Rightarrow> bool" where
  "typed_resolutions r \<longleftrightarrow> (\<forall>m d. map_of r m = Some d \<longrightarrow> set (keys_of d) \<subseteq> set SYNC_FIELD_ORDER)"

definition sync_inv :: "SyncScreen \<Rightarrow> bool" where
  "sync_inv s \<longleftrightarrow> wf_map (ss_resolutions s) \<and> wf_resolutions (ss_resolutions s) \<and>
     typed_resolutions (ss_resolutions s)"

lemma wf_storeDrafts: "wf_map r \<Longrightarrow> wf_map (foldl storeDraft r ds)"
  by (induction ds arbitrary: r) (auto simp: storeDraft_def wf_map_update wf_map_delete split: prod.splits)

lemma wf_map_applySelections: "wf_map r \<Longrightarrow> wf_map (applyResolutionSelections r dfs sels)"
  by (simp add: applyResolutionSelections_def wf_storeDrafts)

lemma wf_map_removalPlan: "wf_map r \<Longrightarrow> wf_map (applyResolutionRemovalPlan r plan)"
proof -
  have "wf_map n \<Longrightarrow> wf_map (foldl (removalStep r) n plan)" for n
    by (induction plan arbitrary: n)
      (auto simp: removalStep_def storeDraft_def wf_map_update wf_map_delete split: prod.splits option.splits)
  then show "wf_map r \<Longrightarrow> ?thesis" by (simp add: applyResolutionRemovalPlan_def)
qed

lemma resolved_typed:
  "typedSelection sel \<Longrightarrow> rs_ratioType (resolveResolutionSelection dfs sel) \<in> set SYNC_FIELD_ORDER"
  by (auto simp: typedSelection_def resolveResolutionSelection_def Let_def getPreferredSyncField_def
      SYNC_FIELD_ORDER_def split: option.splits)

lemma typed_selectInDraft:
  assumes "typedSelection sel" "set (keys_of d) \<subseteq> set SYNC_FIELD_ORDER"
  shows "set (keys_of (selectInDraft dfs sel d)) \<subseteq> set SYNC_FIELD_ORDER"
proof -
  have "{BILLING_MODE, BILLING_EXPR} \<subseteq> set SYNC_FIELD_ORDER" by (simp add: SYNC_FIELD_ORDER_def)
  moreover have "set (keys_of (dropOtherCategory c d)) \<subseteq> set SYNC_FIELD_ORDER" for c
    using assms(2) keys_dropOther by blast
  ultimately show ?thesis
    using keys_selectInDraft [of dfs sel d] resolved_typed [OF assms(1), of dfs] by blast
qed

lemma typed_foldl_select:
  "\<forall>sel \<in> set sels. typedSelection sel \<Longrightarrow> set (keys_of d) \<subseteq> set SYNC_FIELD_ORDER \<Longrightarrow>
   set (keys_of (foldl (\<lambda>d s. selectInDraft dfs s d) d sels)) \<subseteq> set SYNC_FIELD_ORDER"
proof (induction sels arbitrary: d)
  case (Cons sel sels)
  then show ?case using typed_selectInDraft [of sel d dfs] by simp
qed simp

lemma typed_applySelections:
  assumes "typed_resolutions r" "\<forall>sel \<in> set sels. typedSelection sel"
  shows "typed_resolutions (applyResolutionSelections r dfs sels)"
  unfolding typed_resolutions_def
proof (intro allI impI)
  fix m d
  let ?ss = "filter (\<lambda>s. rs_model s = m) sels"
  assume d: "map_of (applyResolutionSelections r dfs sels) m = Some d"
  have "set (keys_of (draft_of r m)) \<subseteq> set SYNC_FIELD_ORDER"
    using assms(1) by (cases "map_of r m") (auto simp: typed_resolutions_def)
  then have fold: "set (keys_of (foldl (\<lambda>d s. selectInDraft dfs s d) (draft_of r m) ?ss)) \<subseteq> set SYNC_FIELD_ORDER"
    by (intro typed_foldl_select) (simp_all add: assms(2))
  show "set (keys_of d) \<subseteq> set SYNC_FIELD_ORDER"
  proof (cases "?ss = []")
    case True
    with d have "map_of r m = Some d" by (simp add: map_of_applySelections)
    with assms(1) show ?thesis unfolding typed_resolutions_def by blast
  next
    case False
    with d have "d = foldl (\<lambda>d s. selectInDraft dfs s d) (draft_of r m) ?ss"
      by (simp add: map_of_applySelections Let_def)
    with fold show ?thesis by simp
  qed
qed

lemma typed_removalPlan:
  assumes "typed_resolutions r" "wf_map plan"
  shows "typed_resolutions (applyResolutionRemovalPlan r plan)"
  unfolding typed_resolutions_def
proof (intro allI impI)
  fix m d
  assume d: "map_of (applyResolutionRemovalPlan r plan) m = Some d"
  then obtain d0 where d0: "map_of r m = Some d0" "set (keys_of d) \<subseteq> set (keys_of d0)"
    using keys_removeFields
    by (fastforce simp: map_of_removalPlan [OF assms(2)] Let_def split: option.splits if_splits)
  with assms(1) show "set (keys_of d) \<subseteq> set SYNC_FIELD_ORDER"
    unfolding typed_resolutions_def by blast
qed

lemma inv_removalPlan:
  "sync_inv s \<Longrightarrow> wf_map plan \<Longrightarrow>
   sync_inv (s\<lparr>ss_resolutions := applyResolutionRemovalPlan (ss_resolutions s) plan\<rparr>)"
  by (simp add: sync_inv_def wf_map_removalPlan wf_removalPlan typed_removalPlan)

lemma inv_selections:
  "sync_inv s \<Longrightarrow> \<forall>sel \<in> set sels. typedSelection sel \<Longrightarrow>
   sync_inv (s\<lparr>ss_resolutions := applyResolutionSelections (ss_resolutions s) dfs sels\<rparr>)"
  by (simp add: sync_inv_def wf_map_applySelections wf_applySelections typed_applySelections)

lemma sync_inv_empty: "sync_inv \<lparr>ss_differences = dfs, ss_resolutions = []\<rparr>"
  by (simp add: sync_inv_def wf_resolutions_def typed_resolutions_def)

lemma sync_step_inv:
  assumes "sync_inv s" "sync_step s t"
  shows "sync_inv t"
  using assms(2,1)
proof (induction rule: sync_step.induct)
  case (fetched s dfs)
  show ?case using sync_inv_empty by (simp add: handleFetched_def sync_inv_def)
next
  case (select sel s)
  then show ?case by (simp add: handleSelectValue_def applyResolutionSelection_def inv_selections)
next
  case (select_many sels s)
  then show ?case by (simp add: handleSelectValues_def inv_selections)
next
  case (unselect s model ratioType)
  then show ?case
    by (simp add: handleUnselectValue_def deleteResolutionField_def applyResolutionRemovals_def
        inv_removalPlan planAdd_def)
next
  case (unselect_many plan s)
  then show ?case by (simp add: handleUnselectValues_def inv_removalPlan)
next
  case (synced s)
  show ?case using sync_inv_empty by (simp add: handleSynced_def sync_inv_def)
qed

interpretation sync_screen: invariant_system sync_init sync_step sync_inv
proof
  show "sync_init s \<Longrightarrow> sync_inv s" for s
    using sync_inv_empty by (simp add: sync_init_def sync_inv_def)
qed (rule sync_step_inv)


section \<open>What a sync stores\<close>

definition stored_in :: "Options \<Rightarrow> jsstr \<Rightarrow> jsstr \<Rightarrow> sync_value option" where
  "stored_in fr opt m = (case map_of fr opt of None \<Rightarrow> None | Some stored \<Rightarrow> map_of stored m)"

definition storedValue :: "jsstr \<Rightarrow> sync_value \<Rightarrow> sync_value" where
  "storedValue rt v = (if rt \<in> set NUMERIC_SYNC_FIELDS then SNum (number_of_value v) else v)"

text \<open>
  The specification, per field and model: a picked field is stored, a field of the other
  non-expression category is dropped, everything else is as before.
\<close>

definition syncSpec :: "(jsstr \<Rightarrow> sync_value obj) \<Rightarrow> ResolutionsMap \<Rightarrow> jsstr \<Rightarrow> jsstr \<Rightarrow> sync_value option" where
  "syncSpec cur r rt m =
     (case map_of r m of
        None \<Rightarrow> map_of (cur (optionKeyBySyncField rt)) m
      | Some d \<Rightarrow> (case map_of d rt of
          Some v \<Rightarrow> Some (storedValue rt v)
        | None \<Rightarrow>
            if (MODEL_PRICE \<in> set (keys_of d) \<and> rt \<in> set RATIO_SYNC_FIELDS) \<or>
               (rt = MODEL_PRICE \<and> (\<exists>x \<in> set (keys_of d). x \<in> set RATIO_SYNC_FIELDS))
            then None else map_of (cur (optionKeyBySyncField rt)) m))"

lemma option_keys: "map optionKeyBySyncField SYNC_FIELD_ORDER = SYNC_OPTIONS"
  by (simp add: SYNC_FIELD_ORDER_def RATIO_SYNC_FIELDS_def SYNC_OPTIONS_def RATIO_OPTIONS_def
      optionKeyBySyncField_def capitalize_def js_simps)

lemma distinct_options: "distinct SYNC_OPTIONS"
  by (simp add: SYNC_OPTIONS_def RATIO_OPTIONS_def js_simps)

lemma option_key_inj: "inj_on optionKeyBySyncField (set SYNC_FIELD_ORDER)"
  using distinct_options option_keys distinct_map by metis

lemma ratio_option_keys: "map optionKeyBySyncField RATIO_SYNC_FIELDS = RATIO_OPTIONS"
  by (simp add: RATIO_SYNC_FIELDS_def RATIO_OPTIONS_def optionKeyBySyncField_def capitalize_def js_simps)

lemma price_option_key: "optionKeyBySyncField MODEL_PRICE = MODEL_PRICE_OPTION"
  by (simp add: optionKeyBySyncField_def capitalize_def js_simps)

lemma option_key_eq:
  "a \<in> set SYNC_FIELD_ORDER \<Longrightarrow> b \<in> set SYNC_FIELD_ORDER \<Longrightarrow>
   optionKeyBySyncField a = optionKeyBySyncField b \<longleftrightarrow> a = b"
  by (meson inj_onD option_key_inj)

lemma known_fields [simp]: "MODEL_PRICE \<in> set SYNC_FIELD_ORDER" "set RATIO_SYNC_FIELDS \<subseteq> set SYNC_FIELD_ORDER"
  by (auto simp: SYNC_FIELD_ORDER_def)

lemma ratio_option_iff:
  assumes "rt \<in> set SYNC_FIELD_ORDER"
  shows "optionKeyBySyncField rt \<in> set RATIO_OPTIONS \<longleftrightarrow> rt \<in> set RATIO_SYNC_FIELDS"
proof -
  have "optionKeyBySyncField rt \<in> optionKeyBySyncField ` set RATIO_SYNC_FIELDS \<longleftrightarrow> rt \<in> set RATIO_SYNC_FIELDS"
    by (rule inj_on_image_mem_iff [OF option_key_inj assms known_fields(2)])
  then show ?thesis by (simp add: ratio_option_keys [symmetric])
qed

lemma price_option_iff:
  "rt \<in> set SYNC_FIELD_ORDER \<Longrightarrow> optionKeyBySyncField rt = MODEL_PRICE_OPTION \<longleftrightarrow> rt = MODEL_PRICE"
  using option_key_eq [of rt MODEL_PRICE] by (simp add: price_option_key)

lemma stored_deleteEntries:
  "stored_in (foldl (deleteEntry model) fr opts) opt m =
     (if opt \<in> set opts \<and> m = model then None else stored_in fr opt m)"
  by (induction opts arbitrary: fr)
    (auto simp: deleteEntry_def stored_in_def map_of_update map_of_delete split: option.splits)

lemma keys_deleteEntry: "set (keys_of (deleteEntry model fr opt)) = set (keys_of fr)"
proof (cases "map_of fr opt")
  case (Some stored)
  then have "opt \<in> set (keys_of fr)" using map_of_keys by fastforce
  with Some show ?thesis by (simp only: deleteEntry_def option.case keys_update insert_absorb)
qed (simp add: deleteEntry_def)

lemma keys_deleteEntries: "set (keys_of (foldl (deleteEntry model) fr opts)) = set (keys_of fr)"
proof (induction opts arbitrary: fr)
  case (Cons opt opts)
  then show ?case by (simp only: foldl_Cons keys_deleteEntry)
qed simp

lemma writeEntry_known:
  assumes "set SYNC_OPTIONS \<subseteq> set (keys_of fr)" "rt \<in> set SYNC_FIELD_ORDER"
  obtains fr' where "writeEntry model (Some fr) (rt, v) = Some fr'" "set (keys_of fr') = set (keys_of fr)"
    "\<And>opt m. stored_in fr' opt m = (if opt = optionKeyBySyncField rt \<and> m = model
        then Some (storedValue rt v) else stored_in fr opt m)"
proof -
  have "optionKeyBySyncField rt \<in> set (keys_of fr)"
    using assms option_keys by (metis image_eqI list.set_map subsetD)
  then obtain stored where st: "map_of fr (optionKeyBySyncField rt) = Some stored"
    by (metis map_of_eq_None_iff not_Some_eq set_map)
  let ?fr = "AList.update (optionKeyBySyncField rt) (AList.update model (storedValue rt v) stored) fr"
  have "writeEntry model (Some fr) (rt, v) = Some ?fr"
    using st by (simp add: writeEntry_def Let_def storedValue_def)
  moreover have "set (keys_of ?fr) = set (keys_of fr)"
    using \<open>optionKeyBySyncField rt \<in> set (keys_of fr)\<close> by (simp add: dom_update insert_absorb)
  moreover have "stored_in ?fr opt m = (if opt = optionKeyBySyncField rt \<and> m = model
        then Some (storedValue rt v) else stored_in fr opt m)" for opt m
    using st by (auto simp: stored_in_def map_of_update)
  ultimately show ?thesis by (rule that)
qed

lemma writeEntries:
  "set SYNC_OPTIONS \<subseteq> set (keys_of fr) \<Longrightarrow> set (keys_of d) \<subseteq> set SYNC_FIELD_ORDER \<Longrightarrow> wf_map d \<Longrightarrow>
   \<exists>fr'. foldl (writeEntry model) (Some fr) d = Some fr' \<and> set (keys_of fr') = set (keys_of fr) \<and>
     (\<forall>rt \<in> set SYNC_FIELD_ORDER. \<forall>m. stored_in fr' (optionKeyBySyncField rt) m =
       (case map_of d rt of
          Some v \<Rightarrow> if m = model then Some (storedValue rt v) else stored_in fr (optionKeyBySyncField rt) m
        | None \<Rightarrow> stored_in fr (optionKeyBySyncField rt) m))"
proof (induction d arbitrary: fr)
  case Nil
  then show ?case by simp
next
  case (Cons e d)
  obtain rt v where e: "e = (rt, v)" by fastforce
  have rt: "rt \<in> set SYNC_FIELD_ORDER" using Cons.prems(2) e by simp
  obtain fr1 where fr1: "writeEntry model (Some fr) e = Some fr1" "set (keys_of fr1) = set (keys_of fr)"
    "\<And>opt m. stored_in fr1 opt m = (if opt = optionKeyBySyncField rt \<and> m = model
        then Some (storedValue rt v) else stored_in fr opt m)"
    using writeEntry_known [OF Cons.prems(1) rt, of model v] e by metis
  have "map_of d rt = None" using Cons.prems(3) e by (simp add: map_of_eq_None_iff image_iff)
  moreover obtain fr' where "foldl (writeEntry model) (Some fr1) d = Some fr'"
    "set (keys_of fr') = set (keys_of fr1)"
    "\<forall>rt' \<in> set SYNC_FIELD_ORDER. \<forall>m. stored_in fr' (optionKeyBySyncField rt') m =
       (case map_of d rt' of
          Some v \<Rightarrow> if m = model then Some (storedValue rt' v) else stored_in fr1 (optionKeyBySyncField rt') m
        | None \<Rightarrow> stored_in fr1 (optionKeyBySyncField rt') m)"
    using Cons.IH [of fr1] Cons.prems fr1(2) by auto
  ultimately show ?case
    using fr1 rt e option_key_eq [OF _ rt] by (intro exI [of _ fr']) (auto split: option.splits)
qed

text \<open>One model: picked fields are stored, the other category is dropped, other models are kept.\<close>

definition modelSpec :: "sync_value obj \<Rightarrow> jsstr \<Rightarrow> sync_value option \<Rightarrow> sync_value option" where
  "modelSpec d rt before =
     (case map_of d rt of
        Some v \<Rightarrow> Some (storedValue rt v)
      | None \<Rightarrow>
          if (MODEL_PRICE \<in> set (keys_of d) \<and> rt \<in> set RATIO_SYNC_FIELDS) \<or>
             (rt = MODEL_PRICE \<and> (\<exists>x \<in> set (keys_of d). x \<in> set RATIO_SYNC_FIELDS))
          then None else before)"

lemma syncModel_spec:
  assumes "set SYNC_OPTIONS \<subseteq> set (keys_of fr)" "set (keys_of d) \<subseteq> set SYNC_FIELD_ORDER" "wf_map d"
  shows "\<exists>fr'. syncModel (Some fr) (model, d) = Some fr' \<and> set (keys_of fr') = set (keys_of fr) \<and>
     (\<forall>rt \<in> set SYNC_FIELD_ORDER. \<forall>m. stored_in fr' (optionKeyBySyncField rt) m =
       (if m = model then modelSpec d rt (stored_in fr (optionKeyBySyncField rt) m)
        else stored_in fr (optionKeyBySyncField rt) m))"
proof -
  define fr2 where "fr2 =
    foldl (deleteEntry model)
      (if MODEL_PRICE \<in> set (keys_of d) then foldl (deleteEntry model) fr RATIO_OPTIONS else fr)
      (if \<exists>x \<in> set (keys_of d). x \<in> set RATIO_SYNC_FIELDS then [MODEL_PRICE_OPTION] else [])"
  have keys: "set (keys_of fr2) = set (keys_of fr)"
    by (simp only: fr2_def keys_deleteEntries split: if_split) simp
  have st: "stored_in fr2 (optionKeyBySyncField rt) m =
      (if m = model \<and> ((MODEL_PRICE \<in> set (keys_of d) \<and> rt \<in> set RATIO_SYNC_FIELDS) \<or>
          (rt = MODEL_PRICE \<and> (\<exists>x \<in> set (keys_of d). x \<in> set RATIO_SYNC_FIELDS)))
       then None else stored_in fr (optionKeyBySyncField rt) m)"
    if "rt \<in> set SYNC_FIELD_ORDER" for rt m
    using that by (auto simp: fr2_def stored_deleteEntries ratio_option_iff price_option_iff)
  have eq: "syncModel (Some fr) (model, d) = foldl (writeEntry model) (Some fr2) d"
    by (simp add: syncModel_def Let_def fr2_def list_ex_iff)
  obtain fr' where fr': "foldl (writeEntry model) (Some fr2) d = Some fr'"
    "set (keys_of fr') = set (keys_of fr2)"
    "\<forall>rt \<in> set SYNC_FIELD_ORDER. \<forall>m. stored_in fr' (optionKeyBySyncField rt) m =
       (case map_of d rt of
          Some v \<Rightarrow> if m = model then Some (storedValue rt v) else stored_in fr2 (optionKeyBySyncField rt) m
        | None \<Rightarrow> stored_in fr2 (optionKeyBySyncField rt) m)"
    using writeEntries [of fr2 d model] assms keys by auto
  show ?thesis
    using fr' eq keys st by (intro exI [of _ fr']) (auto simp: modelSpec_def split: option.splits)
qed

lemma performSync_fold:
  "set SYNC_OPTIONS \<subseteq> set (keys_of fr) \<Longrightarrow> wf_map r \<Longrightarrow>
   \<forall>(m, d) \<in> set r. set (keys_of d) \<subseteq> set SYNC_FIELD_ORDER \<and> wf_map d \<Longrightarrow>
   \<exists>fr'. foldl syncModel (Some fr) r = Some fr' \<and>
     (\<forall>rt \<in> set SYNC_FIELD_ORDER. \<forall>m. stored_in fr' (optionKeyBySyncField rt) m =
       (case map_of r m of
          Some d \<Rightarrow> modelSpec d rt (stored_in fr (optionKeyBySyncField rt) m)
        | None \<Rightarrow> stored_in fr (optionKeyBySyncField rt) m))"
proof (induction r arbitrary: fr)
  case Nil
  then show ?case by simp
next
  case (Cons e r)
  obtain model d where e: "e = (model, d)" by fastforce
  have d: "set (keys_of d) \<subseteq> set SYNC_FIELD_ORDER" "wf_map d" using Cons.prems(3) e by auto
  obtain fr1 where fr1: "syncModel (Some fr) e = Some fr1" "set (keys_of fr1) = set (keys_of fr)"
     "\<forall>rt \<in> set SYNC_FIELD_ORDER. \<forall>m. stored_in fr1 (optionKeyBySyncField rt) m =
       (if m = model then modelSpec d rt (stored_in fr (optionKeyBySyncField rt) m)
        else stored_in fr (optionKeyBySyncField rt) m)"
    using syncModel_spec [OF Cons.prems(1) d, of model] e by metis
  have "map_of r model = None" using Cons.prems(2) e by (simp add: map_of_eq_None_iff image_iff)
  moreover obtain fr' where "foldl syncModel (Some fr1) r = Some fr'"
     "\<forall>rt \<in> set SYNC_FIELD_ORDER. \<forall>m. stored_in fr' (optionKeyBySyncField rt) m =
       (case map_of r m of
          Some d \<Rightarrow> modelSpec d rt (stored_in fr1 (optionKeyBySyncField rt) m)
        | None \<Rightarrow> stored_in fr1 (optionKeyBySyncField rt) m)"
    using Cons.IH [of fr1] Cons.prems fr1(2) by auto
  ultimately show ?case
    using fr1 e by (intro exI [of _ fr']) (auto split: option.splits)
qed

lemma copy_lookup: "opt \<in> set SYNC_OPTIONS \<Longrightarrow> map_of (copyRatios cur) opt = Some (cur opt)"
  by (simp add: copyRatios_def map_of_map_keys map_of_eq_Some_iff distinct_options o_def)

lemma performSync_spec:
  assumes "sync_inv s"
  shows "\<exists>fr. performSync (ss_resolutions s) cur = Some fr \<and>
     (\<forall>rt \<in> set SYNC_FIELD_ORDER. \<forall>m. stored_in fr (optionKeyBySyncField rt) m =
        syncSpec cur (ss_resolutions s) rt m)"
proof -
  let ?r = "ss_resolutions s"
  have keys: "set SYNC_OPTIONS \<subseteq> set (keys_of (copyRatios cur))" by (auto simp: copyRatios_def)
  have drafts: "\<forall>(m, d) \<in> set ?r. set (keys_of d) \<subseteq> set SYNC_FIELD_ORDER \<and> wf_map d"
  proof clarify
    fix m d
    assume "(m, d) \<in> set ?r"
    with assms have "map_of ?r m = Some d" by (simp add: sync_inv_def)
    with assms show "set (keys_of d) \<subseteq> set SYNC_FIELD_ORDER \<and> wf_map d"
      unfolding sync_inv_def wf_resolutions_def wf_draft_def typed_resolutions_def by blast
  qed
  have before: "stored_in (copyRatios cur) (optionKeyBySyncField rt) m = map_of (cur (optionKeyBySyncField rt)) m"
    if "rt \<in> set SYNC_FIELD_ORDER" for rt m
  proof -
    have "optionKeyBySyncField rt \<in> set SYNC_OPTIONS" using that option_keys by (metis image_eqI list.set_map)
    then show ?thesis by (simp add: stored_in_def copy_lookup)
  qed
  have "wf_map ?r" using assms by (simp add: sync_inv_def)
  from performSync_fold [OF keys this drafts] obtain fr where
    "performSync ?r cur = Some fr"
    "\<forall>rt \<in> set SYNC_FIELD_ORDER. \<forall>m. stored_in fr (optionKeyBySyncField rt) m =
       (case map_of ?r m of
          Some d \<Rightarrow> modelSpec d rt (stored_in (copyRatios cur) (optionKeyBySyncField rt) m)
        | None \<Rightarrow> stored_in (copyRatios cur) (optionKeyBySyncField rt) m)"
    unfolding performSync_def by blast
  then show ?thesis using before
    by (intro exI [of _ fr]) (auto simp: syncSpec_def modelSpec_def split: option.splits)
qed


lemma ratio_fields_category: "\<forall>rt \<in> set RATIO_SYNC_FIELDS. getBillingCategory rt = Ratio"
  by (simp add: RATIO_SYNC_FIELDS_def getBillingCategory_def js_simps)

lemma wf_draft_not_mixed:
  assumes "wf_draft d"
  shows "\<not> (MODEL_PRICE \<in> set (keys_of d) \<and> (\<exists>rt \<in> set RATIO_SYNC_FIELDS. rt \<in> set (keys_of d)))"
proof clarify
  fix rt
  assume p: "MODEL_PRICE \<in> set (keys_of d)" and rt: "rt \<in> set RATIO_SYNC_FIELDS" "rt \<in> set (keys_of d)"
  have "getBillingCategory rt = Ratio" using rt(1) ratio_fields_category by (rule bspec [rotated])
  moreover have "getBillingCategory MODEL_PRICE \<noteq> Tiered \<and> getBillingCategory rt \<noteq> Tiered \<longrightarrow>
      getBillingCategory MODEL_PRICE = getBillingCategory rt"
    using assms p rt(2) unfolding wf_draft_def exclusive_def by blast
  ultimately show False by simp
qed

section \<open>Properties\<close>

text \<open>
  C13: however the administrator fetches, picks, bulk-picks, drops and syncs, no model ever
  holds a picked fixed price together with a picked ratio, and no model is kept with an
  empty set of picks (so that the apply button is enabled exactly when something is picked).
\<close>

theorem sync_never_mixes_price_and_ratio:
  assumes "reach sync_init sync_step s" and "map_of (ss_resolutions s) m = Some d"
  shows "d \<noteq> [] \<and> \<not> (MODEL_PRICE \<in> set (keys_of d) \<and> (\<exists>rt \<in> set RATIO_SYNC_FIELDS. rt \<in> set (keys_of d)))"
proof -
  have "wf_draft d"
    using sync_screen.reach_inv [OF assms(1)] assms(2) by (simp add: sync_inv_def wf_resolutions_def)
  then show ?thesis using wf_draft_not_mixed by (simp add: wf_draft_def)
qed

definition sampleSelection :: "string \<Rightarrow> rat \<Rightarrow> ResolutionSelection" where
  "sampleSelection field q = \<lparr>rs_model = js ''gpt'', rs_ratioType = js field,
     rs_value = SNum (Fin q), rs_sourceName = js ''up''\<rparr>"

definition sampleScreen :: SyncScreen where
  "sampleScreen = handleSelectValues [sampleSelection ''model_ratio'' 2, sampleSelection ''model_price'' 3]
     \<lparr>ss_differences = [], ss_resolutions = []\<rparr>"

lemma sampleScreen_reach: "reach sync_init sync_step sampleScreen"
proof -
  have "\<forall>sel \<in> set [sampleSelection ''model_ratio'' 2, sampleSelection ''model_price'' 3]. typedSelection sel"
    by (simp add: typedSelection_def sampleSelection_def SYNC_FIELD_ORDER_def RATIO_SYNC_FIELDS_def)
  then have "sync_step \<lparr>ss_differences = [], ss_resolutions = []\<rparr> sampleScreen"
    unfolding sampleScreen_def by (rule select_many)
  moreover have "reach sync_init sync_step \<lparr>ss_differences = [], ss_resolutions = []\<rparr>"
    by (rule reach_init) (simp add: sync_init_def)
  ultimately show ?thesis by (rule reach_step [rotated])
qed

lemma sampleScreen_resolutions:
  "ss_resolutions sampleScreen = [(js ''gpt'', [(MODEL_PRICE, SNum (Fin 3))])]"
  by (simp add: sampleScreen_def handleSelectValues_def applyResolutionSelections_def
      applyResolutionSelectionToDraft_def getDraftModelResolution_def selectInDraft_def
      resolveResolutionSelection_def getPreferredSyncField_def upstreamValue_def sampleSelection_def
      dropOtherCategory_def getBillingCategory_def storeDraft_def js_simps)

theorem sync_never_mixes_price_and_ratio_witness:
  "ss_resolutions sampleScreen = [(js ''gpt'', [(MODEL_PRICE, SNum (Fin 3))])] \<and>
   \<not> (\<exists>rt \<in> set RATIO_SYNC_FIELDS. rt \<in> set (keys_of [(MODEL_PRICE, SNum (Fin 3))]))"
proof -
  have "map_of (ss_resolutions sampleScreen) (js ''gpt'') = Some [(MODEL_PRICE, SNum (Fin 3))]"
    by (simp add: sampleScreen_resolutions)
  from sync_never_mixes_price_and_ratio [OF sampleScreen_reach this] show ?thesis
    by (simp add: sampleScreen_resolutions)
qed

text \<open>
  C1: applying the picks of any reachable screen to any stored options never fails, and it
  stores exactly the specification: every picked field with its value (a number for the
  numeric fields), nothing for the fields of the other category, and for all other fields
  and models what was stored before.
\<close>

theorem perform_sync_refines_spec:
  assumes "reach sync_init sync_step s"
  shows "\<exists>fr. performSync (ss_resolutions s) cur = Some fr \<and>
     (\<forall>rt \<in> set SYNC_FIELD_ORDER. \<forall>m. stored_in fr (optionKeyBySyncField rt) m =
        syncSpec cur (ss_resolutions s) rt m)"
  by (rule performSync_spec [OF sync_screen.reach_inv [OF assms]])

theorem perform_sync_refines_spec_witness:
  "\<exists>fr. performSync (ss_resolutions sampleScreen) (\<lambda>_. [(js ''gpt'', SNum (Fin 1))]) = Some fr \<and>
     (\<forall>rt \<in> set SYNC_FIELD_ORDER. \<forall>m. stored_in fr (optionKeyBySyncField rt) m =
        syncSpec (\<lambda>_. [(js ''gpt'', SNum (Fin 1))]) (ss_resolutions sampleScreen) rt m)"
  by (rule perform_sync_refines_spec [OF sampleScreen_reach])

text \<open>
  After a sync, a model for which a price or a ratio was picked is stored either with
  a fixed price or with ratios, never with both, whatever was stored for it before.
\<close>

lemma synced_options_exclusive:
  assumes "reach sync_init sync_step s" and "performSync (ss_resolutions s) cur = Some fr"
    and "map_of (ss_resolutions s) m = Some d" and "newBillingCategory d \<noteq> Tiered"
  shows "\<not> (stored_in fr MODEL_PRICE_OPTION m \<noteq> None \<and> (\<exists>opt \<in> set RATIO_OPTIONS. stored_in fr opt m \<noteq> None))"
proof -
  have inv: "sync_inv s" by (rule sync_screen.reach_inv [OF assms(1)])
  have spec: "stored_in fr (optionKeyBySyncField rt) m = syncSpec cur (ss_resolutions s) rt m"
    if "rt \<in> set SYNC_FIELD_ORDER" for rt
    using performSync_spec [OF inv, of cur] assms(2) that by auto
  have "wf_draft d" using inv assms(3) by (simp add: sync_inv_def wf_resolutions_def)
  then have notboth: "\<not> (MODEL_PRICE \<in> set (keys_of d) \<and> (\<exists>rt \<in> set RATIO_SYNC_FIELDS. rt \<in> set (keys_of d)))"
    by (rule wf_draft_not_mixed)
  have price: "stored_in fr MODEL_PRICE_OPTION m = syncSpec cur (ss_resolutions s) MODEL_PRICE m"
    using spec [of MODEL_PRICE] by (simp add: price_option_key)
  have ratio: "\<exists>rt \<in> set RATIO_SYNC_FIELDS. stored_in fr opt m = syncSpec cur (ss_resolutions s) rt m"
    if "opt \<in> set RATIO_OPTIONS" for opt
    using that spec subsetD [OF known_fields(2)] by (fastforce simp: ratio_option_keys [symmetric])
  have nokey: "map_of d rt = None" if "rt \<notin> set (keys_of d)" for rt
    using that by (simp add: map_of_eq_None_iff)
  show ?thesis
  proof (cases "MODEL_PRICE \<in> set (keys_of d)")
    case True
    then have "syncSpec cur (ss_resolutions s) rt m = None" if "rt \<in> set RATIO_SYNC_FIELDS" for rt
      using that notboth nokey [of rt] assms(3) by (auto simp: syncSpec_def)
    with ratio show ?thesis by fastforce
  next
    case False
    with assms(4) have "\<exists>x \<in> set (keys_of d). x \<in> set RATIO_SYNC_FIELDS"
      by (auto simp: newBillingCategory_def list_ex_iff split: if_splits)
    with False nokey [of MODEL_PRICE] assms(3) have "syncSpec cur (ss_resolutions s) MODEL_PRICE m = None"
      by (simp add: syncSpec_def)
    with price show ?thesis by simp
  qed
qed

lemma synced_options_exclusive_witness:
  "\<exists>fr. performSync (ss_resolutions sampleScreen) (\<lambda>_. [(js ''gpt'', SNum (Fin 1))]) = Some fr \<and>
    \<not> (stored_in fr MODEL_PRICE_OPTION (js ''gpt'') \<noteq> None \<and>
       (\<exists>opt \<in> set RATIO_OPTIONS. stored_in fr opt (js ''gpt'') \<noteq> None))"
proof -
  obtain fr where fr: "performSync (ss_resolutions sampleScreen) (\<lambda>_. [(js ''gpt'', SNum (Fin 1))]) = Some fr"
    using performSync_spec [OF sync_screen.reach_inv [OF sampleScreen_reach]] by blast
  have d: "map_of (ss_resolutions sampleScreen) (js ''gpt'') = Some [(MODEL_PRICE, SNum (Fin 3))]"
    by (simp add: sampleScreen_resolutions)
  have "newBillingCategory [(MODEL_PRICE, SNum (Fin 3))] \<noteq> Tiered"
    by (simp add: newBillingCategory_def)
  from synced_options_exclusive [OF sampleScreen_reach fr d this] fr show ?thesis by blast
qed

text \<open>
  Options are stored without a confirmation only when no model switches between fixed
  price and ratios: a model with a picked price or ratio then has either no local price
  and ratios yet, or the same kind of billing.
\<close>

lemma apply_without_confirmation_keeps_category:
  assumes "handleApplySync r cur = Stored fr" and "(m, d) \<in> set r" and "newBillingCategory d \<noteq> Tiered"
  shows "getLocalBillingCategory m cur = None \<or> getLocalBillingCategory m cur = Some (newBillingCategory d)"
proof -
  have "conflictModels r cur = []" using assms(1) by (auto simp: handleApplySync_def split: if_splits)
  with assms(2,3) show ?thesis
    by (auto simp: conflictModels_def filter_empty_conv split: option.splits)
qed

lemma apply_without_confirmation_keeps_category_witness:
  "getLocalBillingCategory (js ''gpt'') (\<lambda>_. []) = None \<or>
   getLocalBillingCategory (js ''gpt'') (\<lambda>_. []) = Some (newBillingCategory [(MODEL_PRICE, SNum (Fin 3))])"
proof (rule apply_without_confirmation_keeps_category)
  have "conflictModels [(js ''gpt'', [(MODEL_PRICE, SNum (Fin 3))])] (\<lambda>_. []) = []"
    by (simp add: conflictModels_def getLocalBillingCategory_def list_ex_iff)
  then show "handleApplySync [(js ''gpt'', [(MODEL_PRICE, SNum (Fin 3))])] (\<lambda>_. []) =
      Stored (performSync [(js ''gpt'', [(MODEL_PRICE, SNum (Fin 3))])] (\<lambda>_. []))"
    by (simp add: handleApplySync_def)
qed (simp_all add: newBillingCategory_def)

end
