(* ===== verification/Advanced_Custom.thy ===== *)
theory Advanced_Custom
  imports JS_Collections
begin

text \<open>
  The routing table of an advanced custom channel,
  \<open>features/channels/lib/advanced-custom.ts\<close>: its converters, incoming paths and
  templates, the normalisation of a configuration and the validation that runs before it
  is saved. The validation loop, with its map of the models already claimed per path, is
  compared with a declarative statement of a sound routing table.
  Parsing an absolute URL is the browser's \<open>URL\<close>: the parameter \<open>url\<close>, which gives the
  host and the protocol, or nothing when the constructor throws.
\<close>

section \<open>Data\<close>

record AdvancedCustomRouteAuth =
  au_type :: "jsstr option"
  au_name :: "jsstr option"
  au_value :: "jsstr option"

record AdvancedCustomRoute =
  ar_incoming_path :: "jsstr option"
  ar_upstream_path :: "jsstr option"
  ar_converter :: "jsstr option"
  ar_models :: "jsstr list option"
  ar_auth :: "AdvancedCustomRouteAuth option"

record AdvancedCustomConfig =
  advanced_routes :: "AdvancedCustomRoute list option"

record AdvancedCustomValidationError =
  ve_message :: jsstr
  ve_routeIndex :: "nat option"

definition ADVANCED_CUSTOM_CONVERTER_OPTIONS :: "(jsstr \<times> jsstr \<times> jsstr) list" where
  "ADVANCED_CUSTOM_CONVERTER_OPTIONS = [
     (js ''none'', js ''Native forwarding'', js ''Native forwarding''),
     (js ''anthropic_messages_to_openai_chat_completions'', js ''Anthropic Messages to OpenAI Chat'', js ''To OpenAI Chat''),
     (js ''openai_chat_completions_to_anthropic_messages'', js ''OpenAI Chat to Anthropic Messages'', js ''To Anthropic Messages''),
     (js ''openai_chat_completions_to_openai_responses'', js ''OpenAI Chat to OpenAI Responses'', js ''To OpenAI Responses''),
     (js ''openai_responses_to_openai_chat_completions'', js ''OpenAI Responses to OpenAI Chat'', js ''To OpenAI Chat''),
     (js ''openai_responses_to_gemini_generate_content'', js ''OpenAI Responses to Gemini Generate Content'', js ''To Gemini Generate Content''),
     (js ''gemini_generate_content_to_openai_chat_completions'', js ''Gemini Generate Content to OpenAI Chat'', js ''To OpenAI Chat''),
     (js ''openai_chat_completions_to_gemini_generate_content'', js ''OpenAI Chat to Gemini Generate Content'', js ''To Gemini Generate Content'')]"

definition ADVANCED_CUSTOM_AUTH_MODE_OPTIONS :: "(jsstr \<times> jsstr) list" where
  "ADVANCED_CUSTOM_AUTH_MODE_OPTIONS = [(js ''default'', js ''Default Bearer''), (js ''none'', js ''No Auth''),
     (js ''header'', js ''Header''), (js ''query'', js ''Query'')]"

definition ADVANCED_CUSTOM_INCOMING_PATH_OPTIONS :: "(jsstr \<times> jsstr) list" where
  "ADVANCED_CUSTOM_INCOMING_PATH_OPTIONS = [
     (js ''/v1/chat/completions'', js ''OpenAI Chat''),
     (js ''/v1/responses'', js ''OpenAI Responses''),
     (js ''/v1/responses/compact'', js ''OpenAI Responses Compact''),
     (js ''/v1/embeddings'', js ''OpenAI Embeddings''),
     (js ''/v1/images/generations'', js ''OpenAI Image Generations''),
     (js ''/v1/images/edits'', js ''OpenAI Image Edits''),
     (js ''/v1/completions'', js ''OpenAI Completions''),
     (js ''/v1/audio/speech'', js ''OpenAI Audio Speech''),
     (js ''/v1/audio/transcriptions'', js ''OpenAI Audio Transcriptions''),
     (js ''/v1/audio/translations'', js ''OpenAI Audio Translations''),
     (js ''/v1/rerank'', js ''OpenAI Rerank''),
     (js ''/v1/realtime'', js ''OpenAI Realtime''),
     (js ''/v1/messages'', js ''Claude Messages''),
     (js ''/v1beta/models/{model}:generateContent'', js ''Gemini Generate Content''),
     (js ''/v1beta/models/{model}:embedContent'', js ''Gemini Embed Content''),
     (js ''/v1beta/models/{model}:batchEmbedContents'', js ''Gemini Batch Embed Contents'')]"

definition ADVANCED_CUSTOM_ROUTE_SUMMARY_LABELS :: "(jsstr \<times> jsstr) list" where
  "ADVANCED_CUSTOM_ROUTE_SUMMARY_LABELS = [(js ''/v1/chat/completions'', js ''OpenAI Chat'')]"

definition ADVANCED_CUSTOM_MODEL_REGEX_PREFIX :: jsstr where
  "ADVANCED_CUSTOM_MODEL_REGEX_PREFIX = js ''re:''"

abbreviation "openAIChatPath \<equiv> js ''/v1/chat/completions''"
abbreviation "openAIResponsesPath \<equiv> js ''/v1/responses''"
abbreviation "claudeMessagesPath \<equiv> js ''/v1/messages''"
abbreviation "geminiGenerateContentPath \<equiv> js ''/v1beta/models/{model}:generateContent''"

definition bearerHeaderAuth :: AdvancedCustomRouteAuth where
  "bearerHeaderAuth = \<lparr>au_type = Some (js ''header''), au_name = Some (js ''Authorization''),
     au_value = Some (js ''Bearer {api_key}'')\<rparr>"

definition apiKeyHeaderAuth :: AdvancedCustomRouteAuth where
  "apiKeyHeaderAuth = \<lparr>au_type = Some (js ''header''), au_name = Some (js ''x-api-key''),
     au_value = Some (js ''{api_key}'')\<rparr>"

definition geminiQueryAuth :: AdvancedCustomRouteAuth where
  "geminiQueryAuth = \<lparr>au_type = Some (js ''query''), au_name = Some (js ''key''),
     au_value = Some (js ''{api_key}'')\<rparr>"

text \<open>A route of a template: incoming path, upstream path, converter and authentication.\<close>

definition templateRoute :: "jsstr \<Rightarrow> jsstr \<Rightarrow> jsstr \<Rightarrow> AdvancedCustomRouteAuth \<Rightarrow> AdvancedCustomRoute" where
  "templateRoute inc up conv auth = \<lparr>ar_incoming_path = Some inc, ar_upstream_path = Some up,
     ar_converter = Some conv, ar_models = None, ar_auth = Some auth\<rparr>"

definition nativeRoute :: "jsstr \<Rightarrow> AdvancedCustomRouteAuth \<Rightarrow> AdvancedCustomRoute" where
  "nativeRoute path auth = templateRoute path path (js ''none'') auth"

definition ADVANCED_CUSTOM_TEMPLATE_OPTIONS :: "(jsstr \<times> jsstr \<times> AdvancedCustomConfig) list" where
  "ADVANCED_CUSTOM_TEMPLATE_OPTIONS = [
     (js ''official_openai_chat'', js ''Official OpenAI Chat'',
        \<lparr>advanced_routes = Some [nativeRoute (js ''/v1/chat/completions'') bearerHeaderAuth]\<rparr>),
     (js ''official_openai_responses'', js ''Official OpenAI Responses'',
        \<lparr>advanced_routes = Some [nativeRoute (js ''/v1/responses'') bearerHeaderAuth]\<rparr>),
     (js ''official_openai_embeddings'', js ''Official OpenAI Embeddings'',
        \<lparr>advanced_routes = Some [nativeRoute (js ''/v1/embeddings'') bearerHeaderAuth]\<rparr>),
     (js ''official_openai_images'', js ''Official OpenAI Images'',
        \<lparr>advanced_routes = Some [nativeRoute (js ''/v1/images/generations'') bearerHeaderAuth,
          nativeRoute (js ''/v1/images/edits'') bearerHeaderAuth]\<rparr>),
     (js ''official_claude_messages'', js ''Official Claude Messages'',
        \<lparr>advanced_routes = Some [nativeRoute (js ''/v1/messages'') apiKeyHeaderAuth]\<rparr>),
     (js ''official_gemini_native'', js ''Official Gemini Native'',
        \<lparr>advanced_routes = Some [nativeRoute (js ''/v1beta/models/{model}:generateContent'') geminiQueryAuth,
          nativeRoute (js ''/v1beta/models/{model}:embedContent'') geminiQueryAuth,
          nativeRoute (js ''/v1beta/models/{model}:batchEmbedContents'') geminiQueryAuth]\<rparr>),
     (js ''official_gemini_from_openai_chat'', js ''Official Gemini from OpenAI Chat'',
        \<lparr>advanced_routes = Some [templateRoute (js ''/v1/chat/completions'')
          (js ''/v1beta/models/{model}:generateContent'')
          (js ''openai_chat_completions_to_gemini_generate_content'') geminiQueryAuth]\<rparr>)]"

text \<open>The clone through JSON text of a configuration: the same fields in a fresh object.\<close>

definition cloneAdvancedCustomConfig :: "AdvancedCustomConfig \<Rightarrow> AdvancedCustomConfig" where
  "cloneAdvancedCustomConfig config = config"

definition getAdvancedCustomTemplateConfig :: "jsstr \<Rightarrow> AdvancedCustomConfig" where
  "getAdvancedCustomTemplateConfig templateKey =
     (let template = (case find (\<lambda>(v, l, c). v = templateKey) ADVANCED_CUSTOM_TEMPLATE_OPTIONS of
          Some t \<Rightarrow> t | None \<Rightarrow> ADVANCED_CUSTOM_TEMPLATE_OPTIONS ! 0)
      in cloneAdvancedCustomConfig (snd (snd template)))"

definition createAdvancedCustomRoute :: AdvancedCustomRoute where
  "createAdvancedCustomRoute = \<lparr>ar_incoming_path = Some openAIChatPath, ar_upstream_path = Some openAIChatPath,
     ar_converter = Some (js ''none''), ar_models = None, ar_auth = None\<rparr>"

definition createAdvancedCustomConfig :: AdvancedCustomConfig where
  "createAdvancedCustomConfig = \<lparr>advanced_routes = Some [createAdvancedCustomRoute]\<rparr>"

section \<open>Converters, paths and authentication\<close>

definition isConverterPathAllowed :: "jsstr \<Rightarrow> jsstr \<Rightarrow> bool" where
  "isConverterPathAllowed incomingPath converter =
     (if converter = js ''none'' then True
      else if converter = js ''anthropic_messages_to_openai_chat_completions''
      then incomingPath = js ''/v1/messages''
      else if converter = js ''openai_chat_completions_to_anthropic_messages'' \<or>
              converter = js ''openai_chat_completions_to_openai_responses'' \<or>
              converter = js ''openai_chat_completions_to_gemini_generate_content''
      then incomingPath = js ''/v1/chat/completions''
      else if converter = js ''openai_responses_to_openai_chat_completions''
      then incomingPath = js ''/v1/responses''
      else if converter = js ''openai_responses_to_gemini_generate_content''
      then incomingPath = js ''/v1/responses''
      else str_includes incomingPath (js '':generateContent'') \<or>
           str_includes incomingPath (js '':streamGenerateContent''))"

definition isAdvancedCustomIncomingPathAllowed :: "jsstr \<Rightarrow> jsstr \<Rightarrow> bool" where
  "isAdvancedCustomIncomingPathAllowed incomingPath converter = isConverterPathAllowed incomingPath converter"

definition getAdvancedCustomIncomingPathOptions :: "jsstr \<Rightarrow> (jsstr \<times> jsstr) list" where
  "getAdvancedCustomIncomingPathOptions converter =
     filter (\<lambda>(value, label). isConverterPathAllowed value converter) ADVANCED_CUSTOM_INCOMING_PATH_OPTIONS"

definition getDefaultAdvancedCustomIncomingPath :: "jsstr \<Rightarrow> jsstr" where
  "getDefaultAdvancedCustomIncomingPath converter =
     (case getAdvancedCustomIncomingPathOptions converter of
        (value, label) # _ \<Rightarrow> if value = [] then js ''/v1/chat/completions'' else value
      | [] \<Rightarrow> js ''/v1/chat/completions'')"

definition getAdvancedCustomNativeAuth :: "jsstr \<Rightarrow> AdvancedCustomRouteAuth" where
  "getAdvancedCustomNativeAuth incomingPath =
     (if incomingPath = claudeMessagesPath then apiKeyHeaderAuth
      else if str_includes incomingPath (js '':generateContent'') \<or>
              str_includes incomingPath (js '':streamGenerateContent'') \<or>
              str_includes incomingPath (js '':embedContent'') \<or>
              str_includes incomingPath (js '':batchEmbedContents'')
      then geminiQueryAuth
      else bearerHeaderAuth)"

definition getAdvancedCustomConverterDefaults :: "jsstr \<Rightarrow> jsstr \<Rightarrow> jsstr \<times> AdvancedCustomRouteAuth" where
  "getAdvancedCustomConverterDefaults converter incomingPath =
     (let normalizedIncomingPath = (if trim incomingPath \<noteq> [] then trim incomingPath
            else getDefaultAdvancedCustomIncomingPath converter)
      in if converter = js ''none''
         then (normalizedIncomingPath, getAdvancedCustomNativeAuth normalizedIncomingPath)
         else if converter = js ''anthropic_messages_to_openai_chat_completions'' \<or>
                 converter = js ''gemini_generate_content_to_openai_chat_completions'' \<or>
                 converter = js ''openai_responses_to_openai_chat_completions''
         then (openAIChatPath, bearerHeaderAuth)
         else if converter = js ''openai_chat_completions_to_openai_responses''
         then (openAIResponsesPath, bearerHeaderAuth)
         else if converter = js ''openai_chat_completions_to_anthropic_messages''
         then (claudeMessagesPath, apiKeyHeaderAuth)
         else if converter = js ''openai_chat_completions_to_gemini_generate_content'' \<or>
                 converter = js ''openai_responses_to_gemini_generate_content''
         then (geminiGenerateContentPath, geminiQueryAuth)
         else ((if normalizedIncomingPath \<noteq> [] then normalizedIncomingPath else openAIChatPath),
               getAdvancedCustomNativeAuth normalizedIncomingPath))"

definition getAdvancedCustomUpstreamPathPlaceholder :: "jsstr \<Rightarrow> jsstr option \<Rightarrow> jsstr" where
  "getAdvancedCustomUpstreamPathPlaceholder converter incomingPath =
     fst (getAdvancedCustomConverterDefaults converter
       (case incomingPath of None \<Rightarrow> getDefaultAdvancedCustomIncomingPath converter | Some p \<Rightarrow> p))"

definition getAdvancedCustomConverterOptions :: "jsstr \<Rightarrow> (jsstr \<times> jsstr \<times> jsstr) list" where
  "getAdvancedCustomConverterOptions incomingPath =
     filter (\<lambda>(value, label, trigger). value = js ''none'' \<or> isConverterPathAllowed (trim incomingPath) value)
       ADVANCED_CUSTOM_CONVERTER_OPTIONS"

definition getAdvancedCustomIncomingPathLabel :: "jsstr \<Rightarrow> jsstr" where
  "getAdvancedCustomIncomingPathLabel value' =
     (case find (\<lambda>(value, label). value = value') ADVANCED_CUSTOM_INCOMING_PATH_OPTIONS of
        Some (value, label) \<Rightarrow> if label = [] then value' else label
      | None \<Rightarrow> value')"

definition isAdvancedCustomConverter :: "jsstr \<Rightarrow> bool" where
  "isAdvancedCustomConverter value' \<longleftrightarrow>
     list_ex (\<lambda>(value, label, trigger). value = value') ADVANCED_CUSTOM_CONVERTER_OPTIONS"

definition getAdvancedCustomAuthMode :: "AdvancedCustomRoute \<Rightarrow> jsstr" where
  "getAdvancedCustomAuthMode route =
     (case ar_auth route of None \<Rightarrow> js ''default'' | Some auth \<Rightarrow> or_default (au_type auth) (js ''default''))"

definition buildAdvancedCustomAuth ::
  "jsstr \<Rightarrow> AdvancedCustomRouteAuth option \<Rightarrow> AdvancedCustomRouteAuth option" where
  "buildAdvancedCustomAuth mode previousAuth =
     (let name = (case previousAuth of None \<Rightarrow> None | Some a \<Rightarrow> au_name a);
          val = (case previousAuth of None \<Rightarrow> None | Some a \<Rightarrow> au_value a)
      in if mode = js ''default'' then None
         else if mode = js ''none'' then Some \<lparr>au_type = Some (js ''none''), au_name = None, au_value = None\<rparr>
         else if mode = js ''header'' then
           Some \<lparr>au_type = Some (js ''header''), au_name = Some (or_default name (js ''Authorization'')),
                 au_value = Some (or_default val (js ''Bearer {api_key}''))\<rparr>
         else Some \<lparr>au_type = Some (js ''query''), au_name = Some (or_default name (js ''api_key'')),
                    au_value = Some (or_default val (js ''{api_key}''))\<rparr>)"

section \<open>Normalisation\<close>

definition getAdvancedCustomRouteUpstreamPath :: "AdvancedCustomRoute \<Rightarrow> jsstr" where
  "getAdvancedCustomRouteUpstreamPath route = trim (or_empty (ar_upstream_path route))"

definition normalizeAdvancedCustomRouteModels :: "jsstr list option \<Rightarrow> jsstr list" where
  "normalizeAdvancedCustomRouteModels models =
     (case models of None \<Rightarrow> [] | Some ms \<Rightarrow> filter (\<lambda>m. m \<noteq> []) (map trim ms))"

definition normalizeAdvancedCustomRoute :: "AdvancedCustomRoute \<Rightarrow> AdvancedCustomRoute" where
  "normalizeAdvancedCustomRoute route =
     \<lparr>ar_incoming_path = Some (or_empty (ar_incoming_path route)),
      ar_upstream_path = Some (getAdvancedCustomRouteUpstreamPath route),
      ar_converter = Some (or_default (ar_converter route) (js ''none'')),
      ar_models = (let models = normalizeAdvancedCustomRouteModels (ar_models route) in
         if models = [] then None else Some models),
      ar_auth = (case ar_auth route of None \<Rightarrow> None
         | Some auth \<Rightarrow> Some \<lparr>au_type = au_type auth, au_name = Some (or_empty (au_name auth)),
             au_value = Some (or_empty (au_value auth))\<rparr>)\<rparr>"

definition normalizeAdvancedCustomConfig :: "AdvancedCustomConfig \<Rightarrow> AdvancedCustomConfig" where
  "normalizeAdvancedCustomConfig config =
     \<lparr>advanced_routes = Some (case advanced_routes config of None \<Rightarrow> []
        | Some routes \<Rightarrow> map normalizeAdvancedCustomRoute routes)\<rparr>"

definition parseAdvancedCustomRouteModels :: "jsstr \<Rightarrow> jsstr list" where
  "parseAdvancedCustomRouteModels value' = set_of (split_trim 44 value')"

datatype AdvancedCustomModelRuleKind = ExactRule | RegexRule

definition getAdvancedCustomModelRuleKind :: "jsstr \<Rightarrow> AdvancedCustomModelRuleKind" where
  "getAdvancedCustomModelRuleKind modelRule =
     (if starts_with modelRule ADVANCED_CUSTOM_MODEL_REGEX_PREFIX then RegexRule else ExactRule)"

definition getAdvancedCustomRegexModelPattern :: "jsstr \<Rightarrow> jsstr" where
  "getAdvancedCustomRegexModelPattern modelRule = drop (length ADVANCED_CUSTOM_MODEL_REGEX_PREFIX) modelRule"

definition advancedCustomConfigUsesRelativeUpstreamPath :: "AdvancedCustomConfig option \<Rightarrow> bool" where
  "advancedCustomConfigUsesRelativeUpstreamPath config =
     (case config of None \<Rightarrow> False
      | Some c \<Rightarrow> list_ex (\<lambda>route. starts_with (getAdvancedCustomRouteUpstreamPath route) (js ''/''))
          (the (advanced_routes (normalizeAdvancedCustomConfig c))))"

definition getAdvancedCustomRouteSummaryLabel :: "AdvancedCustomRoute \<Rightarrow> jsstr option" where
  "getAdvancedCustomRouteSummaryLabel route =
     (let incomingPath = trim (or_empty (ar_incoming_path route)) in
      if incomingPath = [] then None
      else Some (or_default (map_of ADVANCED_CUSTOM_ROUTE_SUMMARY_LABELS incomingPath)
        (getAdvancedCustomIncomingPathLabel incomingPath)))"

section \<open>Validation\<close>

text \<open>The models a path has already: the index of its catch-all route and each model's route.\<close>

record PathState =
  ps_catchAll :: "nat option"
  ps_models :: "(jsstr \<times> nat) list"

definition routeError :: "nat \<Rightarrow> string \<Rightarrow> AdvancedCustomValidationError" where
  "routeError index msg = \<lparr>ve_message = js msg, ve_routeIndex = Some index\<rparr>"

fun claimModels :: "nat \<Rightarrow> jsstr list \<Rightarrow> jsstr list \<Rightarrow> (jsstr \<times> nat) list \<Rightarrow>
    AdvancedCustomValidationError + (jsstr \<times> nat) list" where
  "claimModels routeIndex seenInRoute [] claimed = Inr claimed"
| "claimModels routeIndex seenInRoute (model # models) claimed =
     (if getAdvancedCustomModelRuleKind model = RegexRule \<and> getAdvancedCustomRegexModelPattern model = []
      then Inl (routeError routeIndex ''Model regex cannot be empty'')
      else if model \<in> set seenInRoute
      then Inl (routeError routeIndex ''Duplicate model in route models'')
      else if map_of claimed model \<noteq> None
      then Inl (routeError routeIndex ''Route models must be unique for the same incoming path'')
      else claimModels routeIndex (set_add seenInRoute model) models (AList.update model routeIndex claimed))"

definition validateAdvancedCustomRouteModels ::
  "nat \<Rightarrow> jsstr \<Rightarrow> jsstr list \<Rightarrow> (jsstr \<times> PathState) list \<Rightarrow>
   AdvancedCustomValidationError + (jsstr \<times> PathState) list" where
  "validateAdvancedCustomRouteModels routeIndex incomingPath models byPath =
     (let state = (case map_of byPath incomingPath of Some s \<Rightarrow> s
            | None \<Rightarrow> \<lparr>ps_catchAll = None, ps_models = []\<rparr>)
      in if models = [] then
           (if ps_catchAll state \<noteq> None
            then Inl (routeError routeIndex ''Only one catch-all route is allowed for the same incoming path'')
            else Inr (AList.update incomingPath (state\<lparr>ps_catchAll := Some routeIndex\<rparr>) byPath))
         else if ps_catchAll state \<noteq> None
         then Inl (routeError routeIndex ''Catch-all route must be last for the same incoming path'')
         else (case claimModels routeIndex [] models (ps_models state) of
             Inl err \<Rightarrow> Inl err
           | Inr claimed \<Rightarrow> Inr (AList.update incomingPath (state\<lparr>ps_models := claimed\<rparr>) byPath)))"

definition isFullHttpURLOrAbsolutePath :: "(jsstr \<Rightarrow> (jsstr \<times> jsstr) option) \<Rightarrow> jsstr \<Rightarrow> bool" where
  "isFullHttpURLOrAbsolutePath url value' =
     (if starts_with value' (js ''/'') then \<not> starts_with value' (js ''//'')
      else (case url value' of
          None \<Rightarrow> False
        | Some (host, protocol) \<Rightarrow> host \<noteq> [] \<and> (protocol = js ''http:'' \<or> protocol = js ''https:'')))"

definition validateRouteAuth :: "AdvancedCustomRouteAuth option \<Rightarrow> string option" where
  "validateRouteAuth auth' =
     (case auth' of
        None \<Rightarrow> None
      | Some auth \<Rightarrow>
          if au_type auth = Some (js ''none'') then None
          else if au_type auth \<noteq> Some (js ''header'') \<and> au_type auth \<noteq> Some (js ''query'')
          then Some ''Auth type is invalid''
          else if trim (or_empty (au_name auth)) = [] then Some ''Auth name is required''
          else if trim (or_empty (au_value auth)) = [] then Some ''Auth value is required''
          else None)"

fun validateRoutes :: "(jsstr \<Rightarrow> (jsstr \<times> jsstr) option) \<Rightarrow> nat \<Rightarrow> AdvancedCustomRoute list \<Rightarrow>
    (jsstr \<times> PathState) list \<Rightarrow> AdvancedCustomValidationError option" where
  "validateRoutes url index [] byPath = None"
| "validateRoutes url index (route # routes) byPath =
     (let incomingPath = trim (or_empty (ar_incoming_path route));
          upstreamPath = getAdvancedCustomRouteUpstreamPath route;
          converter = or_default (ar_converter route) (js ''none'');
          routeModels = normalizeAdvancedCustomRouteModels (ar_models route)
      in if incomingPath = [] then Some (routeError index ''Incoming path is required'')
         else if \<not> starts_with incomingPath (js ''/'')
         then Some (routeError index ''Incoming path must start with /'')
         else if str_includes incomingPath (js ''?'')
         then Some (routeError index ''Incoming path must not include query'')
         else (case validateAdvancedCustomRouteModels index incomingPath routeModels byPath of
             Inl err \<Rightarrow> Some err
           | Inr byPath' \<Rightarrow>
               if upstreamPath = [] then Some (routeError index ''Upstream path is required'')
               else if \<not> isFullHttpURLOrAbsolutePath url upstreamPath
               then Some (routeError index ''Upstream path must be a full URL or a path starting with /'')
               else if \<not> isAdvancedCustomConverter converter
               then Some (routeError index ''Converter is not registered'')
               else if \<not> isConverterPathAllowed incomingPath converter
               then Some (routeError index ''Converter does not match incoming path'')
               else (case validateRouteAuth (ar_auth route) of
                   Some authError \<Rightarrow> Some (routeError index authError)
                 | None \<Rightarrow> validateRoutes url (Suc index) routes byPath')))"

definition validateAdvancedCustomConfig ::
  "(jsstr \<Rightarrow> (jsstr \<times> jsstr) option) \<Rightarrow> AdvancedCustomConfig option \<Rightarrow>
   AdvancedCustomValidationError option" where
  "validateAdvancedCustomConfig url config =
     (case config of
        None \<Rightarrow> Some \<lparr>ve_message = js ''Advanced custom configuration is required'', ve_routeIndex = None\<rparr>
      | Some c \<Rightarrow>
          (let routes = the (advanced_routes (normalizeAdvancedCustomConfig c)) in
           if routes = []
           then Some \<lparr>ve_message = js ''Advanced custom configuration requires at least one route'',
                      ve_routeIndex = None\<rparr>
           else validateRoutes url 0 routes []))"


section \<open>A sound routing table\<close>

abbreviation route_path :: "AdvancedCustomRoute \<Rightarrow> jsstr" where
  "route_path r \<equiv> trim (or_empty (ar_incoming_path r))"

abbreviation route_models :: "AdvancedCustomRoute \<Rightarrow> jsstr list" where
  "route_models r \<equiv> normalizeAdvancedCustomRouteModels (ar_models r)"

definition emptyRegexRule :: "jsstr \<Rightarrow> bool" where
  "emptyRegexRule m \<longleftrightarrow> getAdvancedCustomModelRuleKind m = RegexRule \<and> getAdvancedCustomRegexModelPattern m = []"

text \<open>What a route must satisfy on its own: paths, converter and authentication, and its model rules.\<close>

definition routeChecks :: "(jsstr \<Rightarrow> (jsstr \<times> jsstr) option) \<Rightarrow> AdvancedCustomRoute \<Rightarrow> bool" where
  "routeChecks url r \<longleftrightarrow>
     starts_with (route_path r) (js ''/'') \<and> \<not> str_includes (route_path r) (js ''?'') \<and>
     getAdvancedCustomRouteUpstreamPath r \<noteq> [] \<and>
     isFullHttpURLOrAbsolutePath url (getAdvancedCustomRouteUpstreamPath r) \<and>
     isAdvancedCustomConverter (or_default (ar_converter r) (js ''none'')) \<and>
     isConverterPathAllowed (route_path r) (or_default (ar_converter r) (js ''none'')) \<and>
     validateRouteAuth (ar_auth r) = None"

definition routeOk :: "(jsstr \<Rightarrow> (jsstr \<times> jsstr) option) \<Rightarrow> AdvancedCustomRoute \<Rightarrow> bool" where
  "routeOk url r \<longleftrightarrow> routeChecks url r \<and>
     distinct (route_models r) \<and> (\<forall>m \<in> set (route_models r). \<not> emptyRegexRule m)"

text \<open>
  What an earlier route demands of a later one with the same path: it is not a catch-all,
  and they share no model rule.
\<close>

definition routeBefore :: "AdvancedCustomRoute \<Rightarrow> AdvancedCustomRoute \<Rightarrow> bool" where
  "routeBefore a b \<longleftrightarrow> (route_path a = route_path b \<longrightarrow>
     route_models a \<noteq> [] \<and> set (route_models a) \<inter> set (route_models b) = {})"

definition soundTable :: "(jsstr \<Rightarrow> (jsstr \<times> jsstr) option) \<Rightarrow> AdvancedCustomRoute list \<Rightarrow> bool" where
  "soundTable url rs \<longleftrightarrow> (\<forall>r \<in> set rs. routeOk url r) \<and> sorted_wrt routeBefore rs"

lemma claimModels_ok:
  "(\<exists>c. claimModels i seen ms claimed = Inr c) \<longleftrightarrow>
     distinct ms \<and> (\<forall>m \<in> set ms. \<not> emptyRegexRule m \<and> m \<notin> set seen \<and> map_of claimed m = None)"
  by (induction ms arbitrary: seen claimed) (auto simp: map_of_update emptyRegexRule_def)

lemma claimModels_dom:
  "claimModels i seen ms claimed = Inr c \<Longrightarrow> map_of c m \<noteq> None \<longleftrightarrow> map_of claimed m \<noteq> None \<or> m \<in> set ms"
  by (induction ms arbitrary: seen claimed) (auto simp: map_of_update split: if_splits)

lemma claimModels_error: "claimModels i seen ms claimed = Inl e \<Longrightarrow> ve_routeIndex e = Some i"
  by (induction ms arbitrary: seen claimed) (auto simp: routeError_def split: if_splits)

text \<open>The state kept per path describes the routes already seen.\<close>

definition path_state :: "(jsstr \<times> PathState) list \<Rightarrow> jsstr \<Rightarrow> PathState" where
  "path_state byPath p = (case map_of byPath p of Some s \<Rightarrow> s | None \<Rightarrow> \<lparr>ps_catchAll = None, ps_models = []\<rparr>)"

definition describes :: "(jsstr \<times> PathState) list \<Rightarrow> AdvancedCustomRoute list \<Rightarrow> bool" where
  "describes byPath done' \<longleftrightarrow>
     (\<forall>p. ps_catchAll (path_state byPath p) \<noteq> None \<longleftrightarrow>
       (\<exists>r \<in> set done'. route_path r = p \<and> route_models r = [])) \<and>
     (\<forall>p m. map_of (ps_models (path_state byPath p)) m \<noteq> None \<longleftrightarrow>
       (\<exists>r \<in> set done'. route_path r = p \<and> m \<in> set (route_models r)))"

lemma path_state_update [simp]:
  "path_state (AList.update p s byPath) q = (if q = p then s else path_state byPath q)"
  by (simp add: path_state_def map_of_update)

lemma validateModels_step:
  assumes "describes byPath done'"
  shows "(\<exists>b. validateAdvancedCustomRouteModels i (route_path r) (route_models r) byPath = Inr b) \<longleftrightarrow>
    distinct (route_models r) \<and> (\<forall>m \<in> set (route_models r). \<not> emptyRegexRule m) \<and> (\<forall>a \<in> set done'. routeBefore a r)"
proof -
  let ?s = "path_state byPath (route_path r)"
  have c: "ps_catchAll ?s \<noteq> None \<longleftrightarrow> (\<exists>a \<in> set done'. route_path a = route_path r \<and> route_models a = [])"
    and d: "map_of (ps_models ?s) m \<noteq> None \<longleftrightarrow> (\<exists>a \<in> set done'. route_path a = route_path r \<and> m \<in> set (route_models a))" for m
    using assms unfolding describes_def by blast+
  have before: "(\<forall>a \<in> set done'. routeBefore a r) \<longleftrightarrow> ps_catchAll ?s = None \<and>
      (\<forall>m \<in> set (route_models r). map_of (ps_models ?s) m = None)"
    unfolding routeBefore_def using c d by blast
  have "(\<exists>b. validateAdvancedCustomRouteModels i (route_path r) (route_models r) byPath = Inr b) \<longleftrightarrow>
    ps_catchAll ?s = None \<and> (\<exists>c. claimModels i [] (route_models r) (ps_models ?s) = Inr c)"
    by (auto simp: validateAdvancedCustomRouteModels_def Let_def path_state_def [symmetric] split: sum.splits)
  then show ?thesis unfolding before claimModels_ok by auto
qed

lemma validateModels_cases:
  assumes "validateAdvancedCustomRouteModels i p ms byPath = Inr b"
  obtains (catchall) "ms = []" "b = AList.update p ((path_state byPath p)\<lparr>ps_catchAll := Some i\<rparr>) byPath"
    | (models) c where "ms \<noteq> []" "claimModels i [] ms (ps_models (path_state byPath p)) = Inr c"
        "b = AList.update p ((path_state byPath p)\<lparr>ps_models := c\<rparr>) byPath"
  using assms
  by (auto simp: validateAdvancedCustomRouteModels_def Let_def path_state_def [symmetric]
      split: if_splits sum.splits)

lemma validateModels_describes:
  assumes "describes byPath done'"
    and "validateAdvancedCustomRouteModels i (route_path r) (route_models r) byPath = Inr b"
  shows "describes b (done' @ [r])"
  using assms(2)
proof (cases rule: validateModels_cases)
  case catchall
  with assms(1) show ?thesis unfolding describes_def by simp
next
  case (models c)
  have catch: "ps_catchAll (path_state byPath p) \<noteq> None \<longleftrightarrow>
       (\<exists>r \<in> set done'. route_path r = p \<and> route_models r = [])"
    and mods: "map_of (ps_models (path_state byPath p)) m \<noteq> None \<longleftrightarrow>
       (\<exists>r \<in> set done'. route_path r = p \<and> m \<in> set (route_models r))" for p m
    using assms(1) unfolding describes_def by blast+
  show ?thesis unfolding describes_def
  proof (intro conjI allI)
    fix p
    show "ps_catchAll (path_state b p) \<noteq> None \<longleftrightarrow>
        (\<exists>x \<in> set (done' @ [r]). route_path x = p \<and> route_models x = [])"
      using catch [of p] models(1,3) by auto
    fix m
    show "map_of (ps_models (path_state b p)) m \<noteq> None \<longleftrightarrow>
        (\<exists>x \<in> set (done' @ [r]). route_path x = p \<and> m \<in> set (route_models x))"
      using mods [of p m] claimModels_dom [OF models(2), of m] models(3)
      by (cases "p = route_path r") auto
  qed
qed

lemma validateModels_error:
  "validateAdvancedCustomRouteModels i p ms byPath = Inl e \<Longrightarrow> ve_routeIndex e = Some i"
  by (auto simp: validateAdvancedCustomRouteModels_def Let_def routeError_def
      split: if_splits sum.splits dest: claimModels_error)

lemma slash_ne: "starts_with p (js ''/'') \<Longrightarrow> p \<noteq> []"
  by (cases p) (simp_all add: js_simps)

lemma validateRoutes_Cons:
  "validateRoutes url i (r # rs) byPath = None \<longleftrightarrow> routeChecks url r \<and>
     (\<exists>b. validateAdvancedCustomRouteModels i (route_path r) (route_models r) byPath = Inr b \<and>
        validateRoutes url (Suc i) rs b = None)"
proof (cases "validateAdvancedCustomRouteModels i (route_path r) (route_models r) byPath")
  case (Inl e)
  then show ?thesis by (simp add: Let_def)
next
  case (Inr b)
  then show ?thesis
    by (simp add: Let_def routeChecks_def slash_ne split: option.split)
qed

lemma validateRoutes_sound:
  "describes byPath done' \<Longrightarrow> validateRoutes url i rs byPath = None \<longleftrightarrow>
     soundTable url rs \<and> (\<forall>a \<in> set done'. \<forall>r \<in> set rs. routeBefore a r)"
proof (induction rs arbitrary: i byPath done')
  case Nil
  then show ?case by (simp add: soundTable_def)
next
  case (Cons r rs)
  show ?case
  proof (cases "\<exists>b. validateAdvancedCustomRouteModels i (route_path r) (route_models r) byPath = Inr b")
    case True
    then obtain b where b: "validateAdvancedCustomRouteModels i (route_path r) (route_models r) byPath = Inr b"
      by blast
    have "validateRoutes url (Suc i) rs b = None \<longleftrightarrow>
      soundTable url rs \<and> (\<forall>a \<in> set (done' @ [r]). \<forall>r' \<in> set rs. routeBefore a r')"
      by (rule Cons.IH [OF validateModels_describes [OF Cons.prems b]])
    moreover have "distinct (route_models r)" "\<forall>m \<in> set (route_models r). \<not> emptyRegexRule m"
      "\<forall>a \<in> set done'. routeBefore a r"
      using True validateModels_step [OF Cons.prems, of i r] by blast+
    ultimately show ?thesis unfolding validateRoutes_Cons using b by (auto simp: soundTable_def routeOk_def)
  next
    case False
    then have "\<not> (routeOk url r \<and> (\<forall>a \<in> set done'. routeBefore a r))"
      using validateModels_step [OF Cons.prems, of i r] by (auto simp: routeOk_def)
    then show ?thesis unfolding validateRoutes_Cons using False by (auto simp: soundTable_def)
  qed
qed

text \<open>The error names the first route that cannot be accepted.\<close>

lemma validateRoutes_error:
  "validateRoutes url i rs byPath = Some e \<Longrightarrow>
     \<exists>k < length rs. ve_routeIndex e = Some (i + k) \<and> validateRoutes url i (take k rs) byPath = None \<and>
       validateRoutes url i (take (Suc k) rs) byPath \<noteq> None"
proof (induction rs arbitrary: i byPath)
  case Nil
  then show ?case by simp
next
  case (Cons r rs)
  show ?case
  proof (cases "validateRoutes url i [r] byPath = None")
    case True
    then obtain b where b: "validateAdvancedCustomRouteModels i (route_path r) (route_models r) byPath = Inr b"
      "routeChecks url r"
      unfolding validateRoutes_Cons by blast
    have step: "validateRoutes url i (r # rs') byPath = validateRoutes url (Suc i) rs' b" for rs'
      using b by (simp add: Let_def routeChecks_def slash_ne)
    from Cons.prems have "validateRoutes url (Suc i) rs b = Some e" by (simp only: step)
    then obtain k where "k < length rs" "ve_routeIndex e = Some (Suc i + k)"
      "validateRoutes url (Suc i) (take k rs) b = None" "validateRoutes url (Suc i) (take (Suc k) rs) b \<noteq> None"
      using Cons.IH by blast
    then show ?thesis by (intro exI [of _ "Suc k"]) (simp add: step del: validateRoutes.simps)
  next
    case False
    have "ve_routeIndex e = Some i"
      using Cons.prems False
      by (auto simp: Let_def routeError_def validateModels_error split: if_splits option.splits sum.splits)
    with False show ?thesis by (intro exI [of _ 0]) simp
  qed
qed

lemma normalizeModels_idem [simp]:
  "normalizeAdvancedCustomRouteModels (Some (normalizeAdvancedCustomRouteModels ms)) =
   normalizeAdvancedCustomRouteModels ms"
proof (cases ms)
  case (Some xs)
  have "map trim (filter (\<lambda>m. m \<noteq> []) (map trim xs)) = filter (\<lambda>m. m \<noteq> []) (map trim xs)"
    by (rule map_idI) auto
  with Some show ?thesis by (simp add: normalizeAdvancedCustomRouteModels_def)
qed (simp add: normalizeAdvancedCustomRouteModels_def)

lemma normalizeRoute_idem [simp]:
  "normalizeAdvancedCustomRoute (normalizeAdvancedCustomRoute r) = normalizeAdvancedCustomRoute r"
proof -
  have "normalizeAdvancedCustomRouteModels
      (let models = route_models r in if models = [] then None else Some models) = route_models r"
    using normalizeModels_idem [of "ar_models r"]
    by (simp add: Let_def normalizeAdvancedCustomRouteModels_def [of None])
  then show ?thesis
    by (auto simp: normalizeAdvancedCustomRoute_def getAdvancedCustomRouteUpstreamPath_def
        or_default_def js_simps split: option.splits)
qed

definition config_routes :: "AdvancedCustomConfig \<Rightarrow> AdvancedCustomRoute list" where
  "config_routes c = (case advanced_routes c of None \<Rightarrow> [] | Some routes \<Rightarrow> routes)"

lemma config_routes_normalize [simp]:
  "advanced_routes (normalizeAdvancedCustomConfig c) = Some (map normalizeAdvancedCustomRoute (config_routes c))"
  by (auto simp: normalizeAdvancedCustomConfig_def config_routes_def split: option.splits)

lemma normalizeRoute_fields [simp]:
  "or_empty (ar_incoming_path (normalizeAdvancedCustomRoute r)) = or_empty (ar_incoming_path r)"
  "getAdvancedCustomRouteUpstreamPath (normalizeAdvancedCustomRoute r) = getAdvancedCustomRouteUpstreamPath r"
  "or_default (ar_converter (normalizeAdvancedCustomRoute r)) (js ''none'') = or_default (ar_converter r) (js ''none'')"
  "route_models (normalizeAdvancedCustomRoute r) = route_models r"
  "validateRouteAuth (ar_auth (normalizeAdvancedCustomRoute r)) = validateRouteAuth (ar_auth r)"
  by (auto simp: normalizeAdvancedCustomRoute_def getAdvancedCustomRouteUpstreamPath_def
      or_default_def js_simps Let_def validateRouteAuth_def normalizeAdvancedCustomRouteModels_def [of None]
      split: option.splits)

lemma soundTable_normalize [simp]:
  "soundTable url (map normalizeAdvancedCustomRoute rs) = soundTable url rs"
  by (simp add: soundTable_def routeOk_def routeChecks_def routeBefore_def [abs_def] sorted_wrt_map)

lemma describes_Nil: "describes [] []"
  by (simp add: describes_def path_state_def)

lemma validateConfig_Some:
  "validateAdvancedCustomConfig url (Some c) =
     (if config_routes c = []
      then Some \<lparr>ve_message = js ''Advanced custom configuration requires at least one route'', ve_routeIndex = None\<rparr>
      else validateRoutes url 0 (map normalizeAdvancedCustomRoute (config_routes c)) [])"
  by (simp add: validateAdvancedCustomConfig_def Let_def)

lemma validateRoutes_Nil:
  "validateRoutes url 0 rs [] = None \<longleftrightarrow> soundTable url rs"
  using validateRoutes_sound [OF describes_Nil] by simp

lemma validateConfig_ok:
  "validateAdvancedCustomConfig url (Some c) = None \<longleftrightarrow> config_routes c \<noteq> [] \<and> soundTable url (config_routes c)"
  by (simp add: validateConfig_Some validateRoutes_Nil)

section \<open>Properties\<close>

text \<open>
  C12: The validation of an advanced custom configuration passes exactly for a configuration with
  at least one route whose routing table is sound: every route has a path without a query, an
  upstream that is an absolute path or an http URL, a registered converter that fits the path,
  complete authentication, model rules without repetition and without an empty regex; and for
  two routes of one path the earlier is not a catch-all and shares no model rule with the later.
\<close>

theorem advanced_custom_validation_exact:
  "validateAdvancedCustomConfig url (Some c) = None \<longleftrightarrow> config_routes c \<noteq> [] \<and> soundTable url (config_routes c)"
  by (rule validateConfig_ok)

text \<open>
  When the validation rejects a route, the reported index is the first place where the table
  stops being sound: the routes before it form a sound table, and with the route it does not.
\<close>

lemma advanced_custom_error_is_first:
  assumes "validateAdvancedCustomConfig url (Some c) = Some e" and "config_routes c \<noteq> []"
  shows "\<exists>k < length (config_routes c). ve_routeIndex e = Some k \<and>
    soundTable url (take k (config_routes c)) \<and> \<not> soundTable url (take (Suc k) (config_routes c))"
proof -
  let ?rs = "map normalizeAdvancedCustomRoute (config_routes c)"
  have "validateRoutes url 0 ?rs [] = Some e"
    using assms by (simp add: validateConfig_Some)
  from validateRoutes_error [OF this] show ?thesis
    by (auto simp: validateRoutes_Nil take_map simp del: not_None_eq)
qed

lemmas route_eval = soundTable_def routeOk_def routeChecks_def config_routes_def or_empty_def or_default_def
  getAdvancedCustomRouteUpstreamPath_def isFullHttpURLOrAbsolutePath_def isAdvancedCustomConverter_def
  ADVANCED_CUSTOM_CONVERTER_OPTIONS_def isConverterPathAllowed_def validateRouteAuth_def
  normalizeAdvancedCustomRouteModels_def routeBefore_def emptyRegexRule_def
  getAdvancedCustomModelRuleKind_def getAdvancedCustomRegexModelPattern_def
  ADVANCED_CUSTOM_MODEL_REGEX_PREFIX_def nativeRoute_def templateRoute_def createAdvancedCustomRoute_def
  bearerHeaderAuth_def apiKeyHeaderAuth_def geminiQueryAuth_def js_simps trim_def trim_left_def is_ws_def

lemma advanced_custom_error_is_first_witness:
  "\<exists>e. validateAdvancedCustomConfig (\<lambda>_. None)
      (Some \<lparr>advanced_routes = Some [createAdvancedCustomRoute, createAdvancedCustomRoute]\<rparr>) = Some e \<and>
    ve_routeIndex e = Some 1"
proof -
  let ?c = "\<lparr>advanced_routes = Some [createAdvancedCustomRoute, createAdvancedCustomRoute]\<rparr>"
  have routes: "config_routes ?c = [createAdvancedCustomRoute, createAdvancedCustomRoute]"
    by (simp add: config_routes_def)
  have one: "soundTable (\<lambda>_. None) [createAdvancedCustomRoute]"
    by (simp add: route_eval)
  have two: "\<not> soundTable (\<lambda>_. None) [createAdvancedCustomRoute, createAdvancedCustomRoute]"
    by (simp add: soundTable_def routeBefore_def createAdvancedCustomRoute_def normalizeAdvancedCustomRouteModels_def)
  then obtain e where e: "validateAdvancedCustomConfig (\<lambda>_. None) (Some ?c) = Some e"
    using validateConfig_ok [of "\<lambda>_. None" ?c] unfolding routes by auto
  from advanced_custom_error_is_first [OF e] obtain k where
    k: "k < 2" "ve_routeIndex e = Some k" "\<not> soundTable (\<lambda>_. None) (take (Suc k) [createAdvancedCustomRoute, createAdvancedCustomRoute])"
    unfolding routes by auto
  with one have "k = 1" by (cases k) auto
  with e k show ?thesis by blast
qed

text \<open>
  Normalisation is idempotent, and it neither hides nor introduces an error: the normalised
  configuration, which is what is stored, validates with the same result as the edited one.
\<close>

lemma advanced_custom_normalize_stable:
  "normalizeAdvancedCustomConfig (normalizeAdvancedCustomConfig c) = normalizeAdvancedCustomConfig c \<and>
   validateAdvancedCustomConfig url (Some (normalizeAdvancedCustomConfig c)) = validateAdvancedCustomConfig url (Some c)"
proof -
  have idem: "normalizeAdvancedCustomConfig (normalizeAdvancedCustomConfig c) = normalizeAdvancedCustomConfig c"
    by (auto simp: normalizeAdvancedCustomConfig_def split: option.splits)
  then show ?thesis by (simp add: validateAdvancedCustomConfig_def)
qed

lemma find_SomeD: "find P xs = Some x \<Longrightarrow> x \<in> set xs \<and> P x"
  by (auto simp: find_Some_iff)

lemma templates_sound:
  "list_all (\<lambda>(v, l, c). config_routes c \<noteq> [] \<and> soundTable url (config_routes c)) ADVANCED_CUSTOM_TEMPLATE_OPTIONS"
  unfolding ADVANCED_CUSTOM_TEMPLATE_OPTIONS_def by (simp add: route_eval)

text \<open>
  Every configuration the editor can start from is accepted by the validation, whatever the
  environment's URL parser does: the template of any key, known or unknown, and the fresh
  configuration with one route.
\<close>

lemma advanced_custom_templates_valid:
  "validateAdvancedCustomConfig url (Some (getAdvancedCustomTemplateConfig key)) = None \<and>
   validateAdvancedCustomConfig url (Some createAdvancedCustomConfig) = None"
proof -
  have ne: "ADVANCED_CUSTOM_TEMPLATE_OPTIONS ! 0 \<in> set ADVANCED_CUSTOM_TEMPLATE_OPTIONS"
    by (simp add: ADVANCED_CUSTOM_TEMPLATE_OPTIONS_def)
  have "config_routes (getAdvancedCustomTemplateConfig key) \<noteq> [] \<and>
    soundTable url (config_routes (getAdvancedCustomTemplateConfig key))"
    using templates_sound [of url] ne
    by (fastforce simp: getAdvancedCustomTemplateConfig_def cloneAdvancedCustomConfig_def Let_def list_all_iff
        dest: find_SomeD split: option.splits)
  moreover have "config_routes createAdvancedCustomConfig \<noteq> [] \<and> soundTable url (config_routes createAdvancedCustomConfig)"
    by (simp add: createAdvancedCustomConfig_def route_eval)
  ultimately show ?thesis by (simp add: validateConfig_ok)
qed

text \<open>The route the editor builds for a converter: default path, default upstream and authentication.\<close>

definition converterRoute :: "jsstr \<Rightarrow> AdvancedCustomRoute" where
  "converterRoute conv = (let path = getDefaultAdvancedCustomIncomingPath conv;
       (upstream, auth) = getAdvancedCustomConverterDefaults conv path
     in templateRoute path upstream conv auth)"

lemmas path_eval = getDefaultAdvancedCustomIncomingPath_def
  getAdvancedCustomIncomingPathOptions_def ADVANCED_CUSTOM_INCOMING_PATH_OPTIONS_def
  isConverterPathAllowed_def js_simps

lemma default_paths:
  "getDefaultAdvancedCustomIncomingPath (js ''none'') = openAIChatPath"
  "getDefaultAdvancedCustomIncomingPath (js ''anthropic_messages_to_openai_chat_completions'') = claudeMessagesPath"
  "getDefaultAdvancedCustomIncomingPath (js ''openai_chat_completions_to_anthropic_messages'') = openAIChatPath"
  "getDefaultAdvancedCustomIncomingPath (js ''openai_chat_completions_to_openai_responses'') = openAIChatPath"
  "getDefaultAdvancedCustomIncomingPath (js ''openai_responses_to_openai_chat_completions'') = openAIResponsesPath"
  "getDefaultAdvancedCustomIncomingPath (js ''openai_responses_to_gemini_generate_content'') = openAIResponsesPath"
  "getDefaultAdvancedCustomIncomingPath (js ''gemini_generate_content_to_openai_chat_completions'') = geminiGenerateContentPath"
  "getDefaultAdvancedCustomIncomingPath (js ''openai_chat_completions_to_gemini_generate_content'') = openAIChatPath"
  by (simp_all add: path_eval)

lemma default_paths_trim:
  "trim openAIChatPath = openAIChatPath" "trim claudeMessagesPath = claudeMessagesPath"
  "trim openAIResponsesPath = openAIResponsesPath" "trim geminiGenerateContentPath = geminiGenerateContentPath"
  by (simp_all add: trim_id js_simps is_ws_def)

lemma converterRoute_fields:
  "converterRoute (js ''none'') = nativeRoute openAIChatPath bearerHeaderAuth"
  "converterRoute (js ''anthropic_messages_to_openai_chat_completions'') =
     templateRoute claudeMessagesPath openAIChatPath (js ''anthropic_messages_to_openai_chat_completions'') bearerHeaderAuth"
  "converterRoute (js ''openai_chat_completions_to_anthropic_messages'') =
     templateRoute openAIChatPath claudeMessagesPath (js ''openai_chat_completions_to_anthropic_messages'') apiKeyHeaderAuth"
  "converterRoute (js ''openai_chat_completions_to_openai_responses'') =
     templateRoute openAIChatPath openAIResponsesPath (js ''openai_chat_completions_to_openai_responses'') bearerHeaderAuth"
  "converterRoute (js ''openai_responses_to_openai_chat_completions'') =
     templateRoute openAIResponsesPath openAIChatPath (js ''openai_responses_to_openai_chat_completions'') bearerHeaderAuth"
  "converterRoute (js ''openai_responses_to_gemini_generate_content'') =
     templateRoute openAIResponsesPath geminiGenerateContentPath (js ''openai_responses_to_gemini_generate_content'') geminiQueryAuth"
  "converterRoute (js ''gemini_generate_content_to_openai_chat_completions'') =
     templateRoute geminiGenerateContentPath openAIChatPath (js ''gemini_generate_content_to_openai_chat_completions'') bearerHeaderAuth"
  "converterRoute (js ''openai_chat_completions_to_gemini_generate_content'') =
     templateRoute openAIChatPath geminiGenerateContentPath (js ''openai_chat_completions_to_gemini_generate_content'') geminiQueryAuth"
  by (simp_all only: converterRoute_def default_paths getAdvancedCustomConverterDefaults_def default_paths_trim
      nativeRoute_def Let_def getAdvancedCustomNativeAuth_def) (simp_all add: js_simps)

lemma standard_auths [simp]:
  "validateRouteAuth (Some bearerHeaderAuth) = None" "validateRouteAuth (Some apiKeyHeaderAuth) = None"
  "validateRouteAuth (Some geminiQueryAuth) = None"
  by (simp_all add: validateRouteAuth_def bearerHeaderAuth_def apiKeyHeaderAuth_def geminiQueryAuth_def
      js_simps trim_eq_Nil is_ws_def)

lemma templateRoute_sound:
  assumes "trim path = path" "starts_with path (js ''/'')" "\<not> str_includes path (js ''?'')"
    and "trim up = up" "starts_with up (js ''/'')" "\<not> starts_with up (js ''//'')"
    and "isAdvancedCustomConverter conv" "conv \<noteq> []" "isConverterPathAllowed path conv"
    and "validateRouteAuth (Some auth) = None"
  shows "soundTable url [templateRoute path up conv auth]"
  using assms
  by (simp add: soundTable_def routeOk_def routeChecks_def templateRoute_def getAdvancedCustomRouteUpstreamPath_def
      isFullHttpURLOrAbsolutePath_def or_default_def normalizeAdvancedCustomRouteModels_def slash_ne)

lemma default_path_ok:
  "starts_with openAIChatPath (js ''/'')" "\<not> str_includes openAIChatPath (js ''?'')" "\<not> starts_with openAIChatPath (js ''//'')"
  "starts_with claudeMessagesPath (js ''/'')" "\<not> str_includes claudeMessagesPath (js ''?'')" "\<not> starts_with claudeMessagesPath (js ''//'')"
  "starts_with openAIResponsesPath (js ''/'')" "\<not> str_includes openAIResponsesPath (js ''?'')" "\<not> starts_with openAIResponsesPath (js ''//'')"
  "starts_with geminiGenerateContentPath (js ''/'')" "\<not> str_includes geminiGenerateContentPath (js ''?'')"
  "\<not> starts_with geminiGenerateContentPath (js ''//'')"
  by (simp_all add: js_simps)

lemma default_path_allowed:
  "list_all (\<lambda>(v, l, t). isConverterPathAllowed (getDefaultAdvancedCustomIncomingPath v) v) ADVANCED_CUSTOM_CONVERTER_OPTIONS"
  unfolding ADVANCED_CUSTOM_CONVERTER_OPTIONS_def list.pred_inject prod.case default_paths
  by (intro conjI) (simp_all add: isConverterPathAllowed_def js_simps)

lemma converterRoutes_sound:
  "list_all (\<lambda>(v, l, t). soundTable url [converterRoute v]) ADVANCED_CUSTOM_CONVERTER_OPTIONS"
proof -
  have reg: "list_all (\<lambda>(v, l, t). isAdvancedCustomConverter v) ADVANCED_CUSTOM_CONVERTER_OPTIONS"
    by (auto simp: list_all_iff isAdvancedCustomConverter_def list_ex_iff)
  show ?thesis
    using reg default_path_allowed
    unfolding ADVANCED_CUSTOM_CONVERTER_OPTIONS_def list.pred_inject prod.case converterRoute_fields default_paths
      nativeRoute_def
    by (intro conjI templateRoute_sound default_paths_trim default_path_ok standard_auths) simp_all
qed

text \<open>
  The defaults of the editor fit together: for every registered converter, the route with the
  converter's default incoming path, upstream path and authentication passes the validation.
\<close>

lemma advanced_custom_converter_defaults_valid:
  assumes "isAdvancedCustomConverter conv"
  shows "validateAdvancedCustomConfig url (Some \<lparr>advanced_routes = Some [converterRoute conv]\<rparr>) = None"
  using assms converterRoutes_sound [of url]
  by (auto simp: validateConfig_ok config_routes_def isAdvancedCustomConverter_def list_ex_iff list_all_iff)

lemma advanced_custom_converter_defaults_valid_witness:
  "validateAdvancedCustomConfig (\<lambda>_. None) (Some \<lparr>advanced_routes =
     Some [converterRoute (js ''gemini_generate_content_to_openai_chat_completions'')]\<rparr>) = None"
  by (rule advanced_custom_converter_defaults_valid)
    (simp add: isAdvancedCustomConverter_def ADVANCED_CUSTOM_CONVERTER_OPTIONS_def js_simps)

end
