(* ===== verification/Flow_Data.thy ===== *)
theory Flow_Data
  imports JS_Number JS_Collections
begin

text \<open>
  The data of the consumption flow chart, \<open>features/dashboard/lib/flow.ts\<close>: the rows of
  the API, the six kinds of nodes with the builder of each, the stages of a role, and the
  colours. Identifiers are integers and metrics are exact rationals. What the browser and
  the chart package provide is a record of parameters: the collation \<open>localeCompare\<close>, the
  number format \<open>Intl.NumberFormat\<close> and the colour schemes of \<open>@visactor/vchart\<close>.
\<close>

section \<open>Types\<close>

record FlowQuotaDataItem =
  fq_user_id :: "int option"
  fq_username :: "jsstr option"
  fq_node_name :: "jsstr option"
  fq_use_group :: "jsstr option"
  fq_token_id :: "int option"
  fq_token_name :: "jsstr option"
  fq_channel_id :: "int option"
  fq_channel_name :: "jsstr option"
  fq_model_name :: "jsstr option"
  fq_token_used :: "jsnum option"
  fq_count :: "jsnum option"
  fq_quota :: "jsnum option"

datatype FlowMetric = MQuota | MTokens | MRequests

datatype FlowOverflowMode = Aggregate | Hide

datatype FlowRole = RoleUser | RoleAdmin | RoleRoot

datatype FlowNodeKind = KUser | KNode | KToken | KGroup | KModel | KChannel

record FlowNodeFilter =
  nf_kind :: FlowNodeKind
  nf_id :: jsstr

record FlowLinkSelection =
  ls_source :: jsstr
  ls_target :: jsstr

record FlowMetrics =
  fm_quota :: rat
  fm_tokens :: rat
  fm_requests :: rat

record FlowPathNode =
  pn_id :: jsstr
  pn_label :: jsstr
  pn_kind :: FlowNodeKind

type_synonym FlowPathContext = "(int \<Rightarrow> jsstr) option"

record DataScheme =
  ds_maxDomainLength :: nat
  ds_scheme :: "jsstr option list"

record FlowEnv =
  env_localeCompare :: "jsstr cmp"
  env_formatNumber :: "rat \<Rightarrow> jsstr"
  env_dataScheme :: "DataScheme list"

section \<open>Constants\<close>

definition FLOW_NODE_KINDS :: "FlowNodeKind list" where
  "FLOW_NODE_KINDS = [KUser, KNode, KToken, KGroup, KModel, KChannel]"

fun kind_name :: "FlowNodeKind \<Rightarrow> jsstr" where
  "kind_name KUser = js ''user''"
| "kind_name KNode = js ''node''"
| "kind_name KToken = js ''token''"
| "kind_name KGroup = js ''group''"
| "kind_name KModel = js ''model''"
| "kind_name KChannel = js ''channel''"

fun OTHER_FLOW_NODE_IDS :: "FlowNodeKind \<Rightarrow> jsstr" where
  "OTHER_FLOW_NODE_IDS KUser = js ''user:__other__''"
| "OTHER_FLOW_NODE_IDS KNode = js ''node:__other__''"
| "OTHER_FLOW_NODE_IDS KToken = js ''token:__other__''"
| "OTHER_FLOW_NODE_IDS KGroup = js ''group:__other__''"
| "OTHER_FLOW_NODE_IDS KModel = js ''model:__other__''"
| "OTHER_FLOW_NODE_IDS KChannel = js ''channel:__other__''"

fun DEFAULT_OTHER_FLOW_NODE_LABELS :: "FlowNodeKind \<Rightarrow> jsstr" where
  "DEFAULT_OTHER_FLOW_NODE_LABELS KUser = js ''Other users''"
| "DEFAULT_OTHER_FLOW_NODE_LABELS KNode = js ''Other nodes''"
| "DEFAULT_OTHER_FLOW_NODE_LABELS KToken = js ''Other tokens''"
| "DEFAULT_OTHER_FLOW_NODE_LABELS KGroup = js ''Other groups''"
| "DEFAULT_OTHER_FLOW_NODE_LABELS KModel = js ''Other models''"
| "DEFAULT_OTHER_FLOW_NODE_LABELS KChannel = js ''Other channels''"

definition SENSITIVE_FLOW_KINDS :: "FlowNodeKind list" where
  "SENSITIVE_FLOW_KINDS = [KUser, KNode, KToken, KGroup, KChannel]"

definition OTHER_FLOW_NODE_ID_SET :: "jsstr list" where
  "OTHER_FLOW_NODE_ID_SET = map OTHER_FLOW_NODE_IDS FLOW_NODE_KINDS"

definition DEFAULT_FLOW_CHART_COLOR :: jsstr where
  "DEFAULT_FLOW_CHART_COLOR = js ''#1664FF''"

definition MIN_FLOW_STAGES :: nat where
  "MIN_FLOW_STAGES = 2"

section \<open>Rows\<close>

definition numberValue :: "jsnum option \<Rightarrow> rat" where
  "numberValue v = (case v of Some (Fin q) \<Rightarrow> q | _ \<Rightarrow> 0)"

definition idValue :: "int option \<Rightarrow> int" where
  "idValue v = (case v of Some i \<Rightarrow> i | None \<Rightarrow> 0)"

definition rowMetrics :: "FlowQuotaDataItem \<Rightarrow> FlowMetrics" where
  "rowMetrics row = \<lparr>fm_quota = numberValue (fq_quota row), fm_tokens = numberValue (fq_token_used row),
     fm_requests = numberValue (fq_count row)\<rparr>"

fun metricValue :: "FlowMetrics \<Rightarrow> FlowMetric \<Rightarrow> rat" where
  "metricValue metrics MRequests = fm_requests metrics"
| "metricValue metrics MTokens = fm_tokens metrics"
| "metricValue metrics MQuota = fm_quota metrics"

definition userNode :: "FlowQuotaDataItem \<Rightarrow> FlowPathNode" where
  "userNode row = (let userID = idValue (fq_user_id row) in
     \<lparr>pn_id = (if userID > 0 then js ''user:'' @ show_int userID
        else js ''user:'' @ or_default (fq_username row) (js ''unknown'')),
      pn_label = or_default (fq_username row)
        (if userID > 0 then js ''user-'' @ show_int userID else js ''Unknown User''),
      pn_kind = KUser\<rparr>)"

definition nodeNameNode :: "FlowQuotaDataItem \<Rightarrow> FlowPathNode" where
  "nodeNameNode row = (let nodeName = or_default (fq_node_name row) (js ''default-node'') in
     \<lparr>pn_id = js ''node:'' @ nodeName, pn_label = nodeName, pn_kind = KNode\<rparr>)"

definition deletedTokenLabel :: "int \<Rightarrow> FlowPathContext \<Rightarrow> jsstr" where
  "deletedTokenLabel tokenID ctx =
     (if tokenID \<le> 0 then js ''Unknown Token''
      else case ctx of Some f \<Rightarrow> f tokenID | None \<Rightarrow> js ''token-'' @ show_int tokenID)"

definition tokenNode :: "FlowQuotaDataItem \<Rightarrow> FlowPathContext \<Rightarrow> FlowPathNode" where
  "tokenNode row ctx = (let tokenID = idValue (fq_token_id row) in
     \<lparr>pn_id = (if tokenID > 0 then js ''token:'' @ show_int tokenID
        else js ''token:'' @ or_default (fq_token_name row) (js ''unknown'')),
      pn_label = or_default (fq_token_name row) (deletedTokenLabel tokenID ctx),
      pn_kind = KToken\<rparr>)"

definition groupNode :: "FlowQuotaDataItem \<Rightarrow> FlowPathNode" where
  "groupNode row = (let useGroup = or_default (fq_use_group row) (js ''unknown'') in
     \<lparr>pn_id = js ''group:'' @ useGroup, pn_label = useGroup, pn_kind = KGroup\<rparr>)"

definition modelNode :: "FlowQuotaDataItem \<Rightarrow> FlowPathNode" where
  "modelNode row = (let model = or_default (fq_model_name row) (js ''unknown'') in
     \<lparr>pn_id = js ''model:'' @ model, pn_label = or_default (fq_model_name row) (js ''Unknown Model''),
      pn_kind = KModel\<rparr>)"

definition channelNode :: "FlowQuotaDataItem \<Rightarrow> FlowPathNode" where
  "channelNode row = (let channelID = idValue (fq_channel_id row) in
     \<lparr>pn_id = (if channelID > 0 then js ''channel:'' @ show_int channelID
        else js ''channel:'' @ or_default (fq_channel_name row) (js ''unknown'')),
      pn_label = or_default (fq_channel_name row)
        (if channelID > 0 then js ''channel-'' @ show_int channelID else js ''Unknown''),
      pn_kind = KChannel\<rparr>)"

fun NODE_BUILDERS :: "FlowNodeKind \<Rightarrow> FlowQuotaDataItem \<Rightarrow> FlowPathContext \<Rightarrow> FlowPathNode" where
  "NODE_BUILDERS KUser row ctx = userNode row"
| "NODE_BUILDERS KNode row ctx = nodeNameNode row"
| "NODE_BUILDERS KToken row ctx = tokenNode row ctx"
| "NODE_BUILDERS KGroup row ctx = groupNode row"
| "NODE_BUILDERS KModel row ctx = modelNode row"
| "NODE_BUILDERS KChannel row ctx = channelNode row"

fun ROLE_FLOW_STAGES :: "FlowRole \<Rightarrow> FlowNodeKind list" where
  "ROLE_FLOW_STAGES RoleRoot = [KUser, KNode, KToken, KGroup, KModel, KChannel]"
| "ROLE_FLOW_STAGES RoleAdmin = [KUser, KGroup, KModel, KChannel]"
| "ROLE_FLOW_STAGES RoleUser = [KToken, KGroup, KModel]"

definition getFlowStages :: "FlowRole \<Rightarrow> FlowNodeKind list" where
  "getFlowStages role = ROLE_FLOW_STAGES role"

definition resolveVisibleStages :: "FlowRole \<Rightarrow> FlowNodeKind list option \<Rightarrow> FlowNodeKind list" where
  "resolveVisibleStages role visibleStages =
     (let stages = getFlowStages role in
      case visibleStages of None \<Rightarrow> stages
      | Some vs \<Rightarrow> (let visible = set_of vs; filtered = filter (\<lambda>stage. stage \<in> set visible) stages
          in if length filtered \<ge> MIN_FLOW_STAGES then filtered else stages))"

definition flowPathForStages :: "FlowQuotaDataItem \<Rightarrow> FlowNodeKind list \<Rightarrow> FlowPathContext \<Rightarrow> FlowPathNode list" where
  "flowPathForStages row stages ctx = map (\<lambda>stage. NODE_BUILDERS stage row ctx) stages"

section \<open>Colours\<close>

text \<open>The package exports a list of schemes that is not empty, so the last one exists.\<close>

definition getDashboardChartColors :: "FlowEnv \<Rightarrow> nat \<Rightarrow> jsstr list" where
  "getDashboardChartColors env domainLength =
     (let schemes = env_dataScheme env;
          scheme = (case find (\<lambda>item. ds_maxDomainLength item = 0 \<or> domainLength \<le> ds_maxDomainLength item) schemes of
              Some item \<Rightarrow> item | None \<Rightarrow> last schemes)
      in if schemes = [] then [] else List.map_filter id (ds_scheme scheme))"

definition colorAt :: "FlowEnv \<Rightarrow> nat \<Rightarrow> jsstr list option \<Rightarrow> jsstr" where
  "colorAt env index palette =
     (let colors = (case palette of Some p \<Rightarrow> if p \<noteq> [] then p else getDashboardChartColors env (index + 1)
            | None \<Rightarrow> getDashboardChartColors env (index + 1))
      in if colors = [] then DEFAULT_FLOW_CHART_COLOR else colors ! (index mod length colors))"

definition colorPalette :: "FlowEnv \<Rightarrow> nat \<Rightarrow> jsstr list option \<Rightarrow> jsstr list" where
  "colorPalette env colorCount palette =
     (let colors = getDashboardChartColors env colorCount;
          scheme = (if colors \<noteq> [] then colors else [DEFAULT_FLOW_CHART_COLOR])
      in case palette of Some p \<Rightarrow> if p \<noteq> [] then p else scheme | None \<Rightarrow> scheme)"

text \<open>\<open>toFixed(2)\<close> of a number that is not negative: the nearest multiple of one hundredth.\<close>

definition to_fixed_2 :: "rat \<Rightarrow> jsstr" where
  "to_fixed_2 q = (let n = nat (floor (q * 100 + 1 / 2)) in
     show_nat (n div 100) @ js ''.'' @ show_nat (n mod 100 div 10) @ show_nat (n mod 10))"

definition alphaColor :: "jsstr \<Rightarrow> rat \<Rightarrow> jsstr \<times> rat" where
  "alphaColor color alpha =
     (let normalized = trim color;
          hex = (if starts_with normalized (js ''#'') then drop 1 normalized else normalized)
      in if \<not> (length hex = 6 \<and> list_all (\<lambda>c. radix_digit 16 c \<noteq> None) hex)
         then (normalized, alpha)
         else (let v = foldl (\<lambda>a c. 16 * a + the (radix_digit 16 c)) 0 hex in
           (js ''rgba('' @ show_nat (v div 65536 mod 256) @ js '', '' @ show_nat (v div 256 mod 256) @ js '', '' @
              show_nat (v mod 256) @ js '', '' @ to_fixed_2 alpha @ js '')'', 1)))"

definition stableColorMap :: "FlowEnv \<Rightarrow> jsstr list \<Rightarrow> jsstr list option \<Rightarrow> (jsstr \<times> jsstr) list" where
  "stableColorMap env keys palette =
     (let uniqueKeys = set_of keys; colors = colorPalette env (length uniqueKeys) palette
      in map (\<lambda>(index, key). (key, colorAt env index (Some colors))) (enumerate 0 uniqueKeys))"

section \<open>Identifiers and stages\<close>

text \<open>An identifier starts with its kind and a colon, which determines the kind.\<close>

definition kind_prefix :: "FlowNodeKind \<Rightarrow> jsstr" where
  "kind_prefix k = kind_name k @ js '':''"

definition wf_node :: "FlowPathNode \<Rightarrow> bool" where
  "wf_node n \<longleftrightarrow> starts_with (pn_id n) (kind_prefix (pn_kind n))"

lemma kind_prefix_inj: "starts_with s (kind_prefix a) \<Longrightarrow> starts_with s (kind_prefix b) \<Longrightarrow> a = b"
  by (cases a; cases b) (auto simp: kind_prefix_def starts_with_iff js_simps)

lemma wf_node_kind: "wf_node a \<Longrightarrow> wf_node b \<Longrightarrow> pn_id a = pn_id b \<Longrightarrow> pn_kind a = pn_kind b"
  unfolding wf_node_def by (metis kind_prefix_inj)

lemma builder_kind [simp]: "pn_kind (NODE_BUILDERS k row ctx) = k"
  by (cases k) (simp_all add: userNode_def nodeNameNode_def tokenNode_def groupNode_def modelNode_def
      channelNode_def Let_def)

lemma other_prefix: "starts_with (OTHER_FLOW_NODE_IDS k) (kind_prefix k)"
  by (cases k) (simp_all add: kind_prefix_def js_simps)

lemma builder_wf [simp]: "wf_node (NODE_BUILDERS k row ctx)"
  by (cases k) (simp_all add: wf_node_def kind_prefix_def userNode_def nodeNameNode_def tokenNode_def
      groupNode_def modelNode_def channelNode_def Let_def js_simps)

lemma id_nonempty: "wf_node n \<Longrightarrow> pn_id n \<noteq> []"
  unfolding wf_node_def kind_prefix_def by (cases "pn_id n"; cases "pn_kind n") (auto simp: js_simps)

text \<open>A row without the character U+0000, which separates the two ends in the key of a link.\<close>

definition nul_free :: "FlowQuotaDataItem \<Rightarrow> bool" where
  "nul_free row \<longleftrightarrow> list_all (\<lambda>f. 0 \<notin> set (or_empty (f row)))
     [fq_username, fq_node_name, fq_use_group, fq_token_name, fq_channel_name, fq_model_name]"

lemma digit_not_nul: "\<not> is_digit 0"
  by (simp add: is_digit_def)

lemma nul_show_int: "0 \<notin> set (show_int i)"
proof -
  have "0 \<notin> set (show_nat n)" for n
    using show_nat_digits [of n] by (metis digit_not_nul)
  then show ?thesis by (simp add: show_int_def)
qed

lemma nul_or_default: "0 \<notin> set (or_empty x) \<Longrightarrow> 0 \<notin> set d \<Longrightarrow> 0 \<notin> set (or_default x d)"
  using set_or_default by blast

lemma builder_nul: "nul_free row \<Longrightarrow> 0 \<notin> set (pn_id (NODE_BUILDERS k row ctx))"
  by (cases k) (simp_all add: nul_free_def userNode_def nodeNameNode_def tokenNode_def groupNode_def
      modelNode_def channelNode_def Let_def js_simps nul_show_int nul_or_default)

lemma other_nul: "0 \<notin> set (OTHER_FLOW_NODE_IDS k)"
  by (cases k) (simp_all add: js_simps)

lemma stages_role: "distinct (getFlowStages role)" "2 \<le> length (getFlowStages role)"
  by (cases role; simp add: getFlowStages_def)+

lemma resolve_stages:
  "distinct (resolveVisibleStages role vs)" "2 \<le> length (resolveVisibleStages role vs)"
  "set (resolveVisibleStages role vs) \<subseteq> set (getFlowStages role)"
  using stages_role [of role]
  by (auto simp: resolveVisibleStages_def Let_def MIN_FLOW_STAGES_def split: option.splits)

lemma path_kinds [simp]: "map pn_kind (flowPathForStages row stages ctx) = stages"
  by (simp add: flowPathForStages_def comp_def)

lemma path_wf: "n \<in> set (flowPathForStages row stages ctx) \<Longrightarrow> wf_node n"
  by (auto simp: flowPathForStages_def)

text \<open>A path with one well-formed node per stage meets every identifier at most once.\<close>

definition wf_path :: "FlowNodeKind list \<Rightarrow> FlowPathNode list \<Rightarrow> bool" where
  "wf_path stages path \<longleftrightarrow> map pn_kind path = stages \<and> list_all wf_node path"

lemma wf_path_flow: "wf_path stages (flowPathForStages row stages ctx)"
  by (auto simp: wf_path_def list_all_iff path_wf)

lemma wf_path_distinct:
  assumes "wf_path stages path" and "distinct stages"
  shows "distinct (map pn_id path)"
proof -
  have "inj_on pn_id (set path)"
  proof (rule inj_onI)
    fix a b assume ab: "a \<in> set path" "b \<in> set path" "pn_id a = pn_id b"
    then have "pn_kind a = pn_kind b"
      using assms(1) by (auto simp: wf_path_def list_all_iff intro: wf_node_kind)
    moreover have "inj_on pn_kind (set path)"
      using assms by (auto simp: wf_path_def distinct_map)
    ultimately show "a = b" using ab by (meson inj_onD)
  qed
  moreover have "distinct path"
    using assms by (auto simp: wf_path_def distinct_map)
  ultimately show ?thesis by (simp add: distinct_map)
qed

text \<open>The order of numbers by \<open>a - b\<close>, of which only the sign matters.\<close>

definition cmp_rat :: "rat cmp" where
  "cmp_rat a b = (if a < b then - 1 else if a = b then 0 else 1)"

interpretation rat_order: consistent_comparator cmp_rat
  by unfold_locales (auto simp: cmp_rat_def split: if_splits)

lemma consistent_zero: "consistent_comparator (\<lambda>_ _. 0)"
  by unfold_locales auto

section \<open>Sample data\<close>

definition sampleEnv :: FlowEnv where
  "sampleEnv = \<lparr>env_localeCompare = cmp_str, env_formatNumber = (\<lambda>q. show_int \<lfloor>q\<rfloor>),
     env_dataScheme = [\<lparr>ds_maxDomainLength = 0, ds_scheme = [Some (js ''#1664FF''), Some (js ''#1AC6FF'')]\<rparr>]\<rparr>"

definition sampleRow :: "string \<Rightarrow> string \<Rightarrow> string \<Rightarrow> rat \<Rightarrow> FlowQuotaDataItem" where
  "sampleRow user grp model quota = \<lparr>fq_user_id = None, fq_username = Some (js user), fq_node_name = None,
     fq_use_group = Some (js grp), fq_token_id = None, fq_token_name = Some (js user), fq_channel_id = None,
     fq_channel_name = None, fq_model_name = Some (js model), fq_token_used = None, fq_count = None,
     fq_quota = Some (Fin quota)\<rparr>"

lemma sampleEnv_consistent: "consistent_comparator (env_localeCompare sampleEnv)"
  by (simp add: sampleEnv_def code_unit_order.consistent_comparator_axioms)

lemmas flow_eval = sampleRow_def flowPathForStages_def getFlowStages_def resolveVisibleStages_def
  userNode_def nodeNameNode_def tokenNode_def groupNode_def modelNode_def channelNode_def
  idValue_def numberValue_def rowMetrics_def or_default_def or_empty_def Let_def js_simps

end
