(* ===== verification/Flow_Filter.thy ===== *)
theory Flow_Filter
  imports Flow_Data
begin

text \<open>
  The filters of the flow chart: the user filter, the node filters (alternatives within a
  column, conjunction across columns) with the maps of sets the source builds for them,
  and the facetted options offered for the filters. The filter is shown to select what a
  declarative statement of it says, and the options of a column not to depend on the
  selection made in that column.
\<close>

section \<open>Filtering rows\<close>

definition filterRows :: "FlowQuotaDataItem list \<Rightarrow> jsstr list option \<Rightarrow> FlowQuotaDataItem list" where
  "filterRows rows selected =
     (let selectedUsers = set_of (case selected of None \<Rightarrow> [] | Some us \<Rightarrow> us) in
      if selectedUsers = [] then rows
      else filter (\<lambda>row. pn_id (userNode row) \<in> set selectedUsers) rows)"

definition nodeFilterKey :: "FlowNodeFilter \<Rightarrow> jsstr" where
  "nodeFilterKey f = kind_name (nf_kind f) @ [0] @ nf_id f"

type_synonym KindSets = "(FlowNodeKind \<times> jsstr list) list"

definition normalizeSelectedNodeFilters :: "FlowNodeFilter list option \<Rightarrow> FlowNodeKind list \<Rightarrow> KindSets" where
  "normalizeSelectedNodeFilters selectedNodes stages =
     (let visibleKinds = set_of stages in
      foldl (\<lambda>filters f.
          if nf_kind f \<notin> set visibleKinds then filters
          else upsert (nf_kind f) [] (\<lambda>selected. set_add selected (nf_id f)) filters)
        [] (case selectedNodes of None \<Rightarrow> [] | Some fs \<Rightarrow> fs))"

definition pathNodesByKind :: "FlowPathNode list \<Rightarrow> KindSets" where
  "pathNodesByKind path =
     foldl (\<lambda>m node. upsert (pn_kind node) [] (\<lambda>ids. set_add ids (pn_id node)) m) [] path"

definition pathMatchesNodeFilters :: "FlowPathNode list \<Rightarrow> KindSets \<Rightarrow> bool" where
  "pathMatchesNodeFilters path filters =
     (if filters = [] then True
      else list_all (\<lambda>(kind, selectedIds).
        case map_of (pathNodesByKind path) kind of
          None \<Rightarrow> False
        | Some pathIds \<Rightarrow> list_ex (\<lambda>i. i \<in> set pathIds) selectedIds) filters)"

definition filterRowsByNodes :: "FlowQuotaDataItem list \<Rightarrow> FlowNodeFilter list option \<Rightarrow>
    FlowNodeKind list \<Rightarrow> FlowPathContext \<Rightarrow> FlowQuotaDataItem list" where
  "filterRowsByNodes rows selectedNodes stages ctx =
     (let filters = normalizeSelectedNodeFilters selectedNodes stages in
      if filters = [] then rows
      else filter (\<lambda>row. pathMatchesNodeFilters (flowPathForStages row stages ctx) filters) rows)"

definition selectedNodeFiltersExceptKind ::
  "FlowNodeFilter list option \<Rightarrow> FlowNodeKind \<Rightarrow> FlowNodeFilter list option" where
  "selectedNodeFiltersExceptKind selectedNodes kind =
     (let filtered = filter (\<lambda>f. nf_kind f \<noteq> kind) (case selectedNodes of None \<Rightarrow> [] | Some fs \<Rightarrow> fs)
      in if filtered \<noteq> [] then Some filtered else None)"

section \<open>Filter options\<close>

record FlowUserFilterOption =
  uo_value :: jsstr
  uo_label :: jsstr
  uo_valueLabel :: jsstr
  uo_valueRaw :: rat
  uo_color :: jsstr

record FlowNodeFilterOption =
  no_kind :: FlowNodeKind
  no_value :: jsstr
  no_label :: jsstr
  no_valueLabel :: jsstr
  no_valueRaw :: rat
  no_color :: jsstr

record FlowFilterOptions =
  fo_users :: "FlowUserFilterOption list"
  fo_nodes :: "FlowNodeFilterOption list"

record UserTotal =
  ut_label :: jsstr
  ut_value :: rat
  ut_color :: jsstr

text \<open>\<open>!row.user_id && !row.username\<close>: no identifier, or zero, and no name.\<close>

definition anonymousRow :: "FlowQuotaDataItem \<Rightarrow> bool" where
  "anonymousRow row \<longleftrightarrow> idValue (fq_user_id row) = 0 \<and> or_empty (fq_username row) = []"

definition userTotals :: "FlowEnv \<Rightarrow> FlowQuotaDataItem list \<Rightarrow> FlowMetric \<Rightarrow> jsstr list option \<Rightarrow>
    (jsstr \<times> UserTotal) list" where
  "userTotals env rows metric palette =
     (let colors = stableColorMap env (js_sort (env_localeCompare env) (map (\<lambda>row. pn_id (userNode row)) rows)) palette in
      foldl (\<lambda>users row.
          if anonymousRow row then users
          else upsert (pn_id (userNode row))
            \<lparr>ut_label = pn_label (userNode row), ut_value = 0,
             ut_color = (case map_of colors (pn_id (userNode row)) of Some c \<Rightarrow> c | None \<Rightarrow> colorAt env 0 palette)\<rparr>
            (\<lambda>current. current\<lparr>ut_value := ut_value current + metricValue (rowMetrics row) metric\<rparr>) users)
        [] rows)"

definition buildUserFilterOptions :: "FlowEnv \<Rightarrow> FlowQuotaDataItem list \<Rightarrow> FlowMetric \<Rightarrow> jsstr list option \<Rightarrow>
    FlowUserFilterOption list" where
  "buildUserFilterOptions env rows metric palette =
     js_sort (cmp_or (cmp_desc (cmp_key uo_valueRaw cmp_rat)) (cmp_key uo_label (env_localeCompare env)))
       (map (\<lambda>(v, user). \<lparr>uo_value = v, uo_label = ut_label user,
           uo_valueLabel = env_formatNumber env (ut_value user), uo_valueRaw = ut_value user, uo_color = ut_color user\<rparr>)
         (userTotals env rows metric palette))"

record FlowNodeRank =
  nr_node :: FlowPathNode
  nr_value :: rat

text \<open>The totals of one column over its candidate rows, keyed by kind and identifier.\<close>

definition stageTotals :: "FlowQuotaDataItem list \<Rightarrow> FlowMetric \<Rightarrow> FlowNodeKind \<Rightarrow> FlowPathContext \<Rightarrow>
    (jsstr \<times> FlowNodeRank) list" where
  "stageTotals candidateRows metric stage ctx =
     foldl (\<lambda>totals row. upsert
         (nodeFilterKey \<lparr>nf_kind = pn_kind (NODE_BUILDERS stage row ctx), nf_id = pn_id (NODE_BUILDERS stage row ctx)\<rparr>)
         \<lparr>nr_node = NODE_BUILDERS stage row ctx, nr_value = 0\<rparr>
         (\<lambda>current. current\<lparr>nr_value := nr_value current + metricValue (rowMetrics row) metric\<rparr>) totals)
       [] candidateRows"

definition rankOption :: "FlowEnv \<Rightarrow> (jsstr \<times> jsstr) list \<Rightarrow> jsstr list option \<Rightarrow> FlowNodeRank \<Rightarrow>
    FlowNodeFilterOption" where
  "rankOption env colors palette rank = \<lparr>no_kind = pn_kind (nr_node rank), no_value = pn_id (nr_node rank),
     no_label = pn_label (nr_node rank), no_valueLabel = env_formatNumber env (nr_value rank),
     no_valueRaw = nr_value rank,
     no_color = (case map_of colors (pn_id (nr_node rank)) of Some c \<Rightarrow> c | None \<Rightarrow> colorAt env 0 palette)\<rparr>"

definition stageOptions :: "FlowEnv \<Rightarrow> FlowQuotaDataItem list \<Rightarrow> FlowMetric \<Rightarrow> FlowNodeKind list \<Rightarrow>
    (jsstr \<times> jsstr) list \<Rightarrow> jsstr list option \<Rightarrow> FlowPathContext \<Rightarrow> FlowNodeFilter list option \<Rightarrow>
    FlowNodeKind \<Rightarrow> FlowNodeFilterOption list" where
  "stageOptions env rows metric stages colors palette ctx selectedNodes stage =
     map (\<lambda>(key, rank). rankOption env colors palette rank)
       (stageTotals (filterRowsByNodes rows (selectedNodeFiltersExceptKind selectedNodes stage) stages ctx)
         metric stage ctx)"

definition stageIndex :: "FlowNodeKind list \<Rightarrow> FlowNodeKind \<Rightarrow> int" where
  "stageIndex stages kind =
     (case map_of (map (\<lambda>(index, stage). (stage, index)) (enumerate 0 stages)) kind of
        Some i \<Rightarrow> int i | None \<Rightarrow> 0)"

definition optionOrder :: "FlowEnv \<Rightarrow> FlowNodeKind list \<Rightarrow> FlowNodeFilterOption cmp" where
  "optionOrder env stages =
     cmp_or (cmp_key (\<lambda>a. stageIndex stages (no_kind a)) cmp_num)
       (cmp_or (cmp_desc (cmp_key no_valueRaw cmp_rat))
         (cmp_or (cmp_key no_label (env_localeCompare env)) (cmp_key no_value (env_localeCompare env))))"

definition buildNodeFilterOptions :: "FlowEnv \<Rightarrow> FlowQuotaDataItem list \<Rightarrow> FlowMetric \<Rightarrow> FlowRole \<Rightarrow>
    FlowNodeKind list option \<Rightarrow> jsstr list option \<Rightarrow> FlowPathContext \<Rightarrow> FlowNodeFilter list option \<Rightarrow>
    FlowNodeFilterOption list" where
  "buildNodeFilterOptions env rows metric role visibleStages palette ctx selectedNodes =
     (let stages = resolveVisibleStages role visibleStages;
          colorIds = set_of (concat (map (\<lambda>row. map pn_id (flowPathForStages row stages ctx)) rows));
          colors = stableColorMap env (js_sort (env_localeCompare env) colorIds) palette
      in js_sort (optionOrder env stages)
           (concat (map (stageOptions env rows metric stages colors palette ctx selectedNodes) stages)))"

definition buildFlowFilterOptions :: "FlowEnv \<Rightarrow> FlowQuotaDataItem list \<Rightarrow> FlowMetric \<Rightarrow> jsstr list option \<Rightarrow>
    FlowRole \<Rightarrow> FlowNodeKind list option \<Rightarrow> FlowNodeFilter list option \<Rightarrow> FlowFilterOptions" where
  "buildFlowFilterOptions env rows metric palette role visibleStages selectedNodes =
     \<lparr>fo_users = buildUserFilterOptions env rows metric palette,
      fo_nodes = buildNodeFilterOptions env rows metric role visibleStages palette None selectedNodes\<rparr>"

section \<open>What the filters select\<close>

abbreviation filters_of :: "FlowNodeFilter list option \<Rightarrow> FlowNodeFilter list" where
  "filters_of sel \<equiv> (case sel of None \<Rightarrow> [] | Some fs \<Rightarrow> fs)"

text \<open>
  A row is selected when every visible column with a selection has one of its selected
  nodes on the path of the row.
\<close>

definition rowSelected :: "FlowNodeFilter list \<Rightarrow> FlowNodeKind list \<Rightarrow> FlowPathContext \<Rightarrow> FlowQuotaDataItem \<Rightarrow> bool" where
  "rowSelected fs stages ctx row \<longleftrightarrow>
     (\<forall>k \<in> set stages. k \<in> set (map nf_kind fs) \<longrightarrow> \<lparr>nf_kind = k, nf_id = pn_id (NODE_BUILDERS k row ctx)\<rparr> \<in> set fs)"

lemma normalizeFilters_lookup:
  "map_of (normalizeSelectedNodeFilters sel stages) k =
     (if k \<in> set stages \<and> k \<in> set (map nf_kind (filters_of sel))
      then Some (set_of (map nf_id (filter (\<lambda>f. nf_kind f = k) (filters_of sel)))) else None)"
proof -
  have "filter (\<lambda>f. nf_kind f = k) (filter (\<lambda>f. nf_kind f \<in> set stages) fs) =
    (if k \<in> set stages then filter (\<lambda>f. nf_kind f = k) fs else [])" for fs :: "FlowNodeFilter list"
    by (induction fs) auto
  then show ?thesis
    by (auto simp: normalizeSelectedNodeFilters_def Let_def foldl_guard map_of_group filter_empty_conv)
qed

lemma normalizeFilters_wf: "wf_map (normalizeSelectedNodeFilters sel stages)"
  by (simp add: normalizeSelectedNodeFilters_def Let_def foldl_guard upserts_keys distinct_foldl_set_add)

lemma pathNodes_lookup:
  "map_of (pathNodesByKind (flowPathForStages row stages ctx)) k =
     (if k \<in> set stages then Some [pn_id (NODE_BUILDERS k row ctx)] else None)"
proof -
  have "filter (\<lambda>n. pn_kind n = k) (flowPathForStages row stages ctx) =
      map (\<lambda>_. NODE_BUILDERS k row ctx) (filter (\<lambda>s. s = k) stages)"
    unfolding flowPathForStages_def by (induction stages) auto
  moreover have "set_of (map (\<lambda>_. i) xs) = (if xs = [] then [] else [i])" for i :: jsstr and xs :: "FlowNodeKind list"
    by (induction xs rule: rev_induct) (auto simp: set_of_def set_add_def)
  ultimately show ?thesis
    unfolding pathNodesByKind_def map_of_group by (auto simp add: Let_def comp_def filter_empty_conv)
qed

lemma filter_member:
  "i \<in> set (map nf_id (filter (\<lambda>f. nf_kind f = k) fs)) \<longleftrightarrow> \<lparr>nf_kind = k, nf_id = i\<rparr> \<in> set fs"
proof
  assume "i \<in> set (map nf_id (filter (\<lambda>f. nf_kind f = k) fs))"
  then obtain f where "f \<in> set fs" "nf_kind f = k" "nf_id f = i" by auto
  moreover from this have "f = \<lparr>nf_kind = k, nf_id = i\<rparr>" by simp
  ultimately show "\<lparr>nf_kind = k, nf_id = i\<rparr> \<in> set fs" by simp
qed force

lemma matches_iff:
  "pathMatchesNodeFilters (flowPathForStages row stages ctx) (normalizeSelectedNodeFilters sel stages) \<longleftrightarrow>
     rowSelected (filters_of sel) stages ctx row"
proof -
  let ?F = "normalizeSelectedNodeFilters sel stages"
  have "pathMatchesNodeFilters (flowPathForStages row stages ctx) ?F \<longleftrightarrow>
    (\<forall>k ids. map_of ?F k = Some ids \<longrightarrow> k \<in> set stages \<and> pn_id (NODE_BUILDERS k row ctx) \<in> set ids)"
    using normalizeFilters_wf [of sel stages]
    by (auto simp: pathMatchesNodeFilters_def list_all_iff list_ex_iff pathNodes_lookup split: if_splits)
  also have "\<dots> \<longleftrightarrow> rowSelected (filters_of sel) stages ctx row"
    unfolding rowSelected_def normalizeFilters_lookup filter_member [symmetric] by auto
  finally show ?thesis .
qed

lemma filterRowsByNodes_eq:
  "filterRowsByNodes rows sel stages ctx = filter (rowSelected (filters_of sel) stages ctx) rows"
proof (cases "normalizeSelectedNodeFilters sel stages = []")
  case True
  then have "rowSelected (filters_of sel) stages ctx row" for row
    using matches_iff [of row stages ctx sel] by (simp add: pathMatchesNodeFilters_def)
  with True show ?thesis by (simp add: filterRowsByNodes_def)
next
  case False
  then show ?thesis by (simp add: filterRowsByNodes_def matches_iff)
qed

lemma filters_except: "filters_of (selectedNodeFiltersExceptKind sel k) = filter (\<lambda>f. nf_kind f \<noteq> k) (filters_of sel)"
  by (simp add: selectedNodeFiltersExceptKind_def Let_def)

section \<open>Facetted options\<close>

lemma nodeFilterKey_inj: "nodeFilterKey \<lparr>nf_kind = k, nf_id = a\<rparr> = nodeFilterKey \<lparr>nf_kind = k, nf_id = b\<rparr> \<longleftrightarrow> a = b"
  by (simp add: nodeFilterKey_def)

lemma stageTotals_entry:
  assumes "(key, rank) \<in> set (stageTotals rows metric k ctx)"
  shows "key = nodeFilterKey \<lparr>nf_kind = k, nf_id = pn_id (nr_node rank)\<rparr>"
    and "\<exists>row \<in> set rows. nr_node rank = NODE_BUILDERS k row ctx"
proof -
  have "\<forall>(key, rank) \<in> set (stageTotals rows metric k ctx).
      key = nodeFilterKey \<lparr>nf_kind = k, nf_id = pn_id (nr_node rank)\<rparr> \<and>
      (\<exists>row \<in> set rows. nr_node rank = NODE_BUILDERS k row ctx)"
    unfolding stageTotals_def by (rule upserts_inv) auto
  with assms show "key = nodeFilterKey \<lparr>nf_kind = k, nf_id = pn_id (nr_node rank)\<rparr>"
    "\<exists>row \<in> set rows. nr_node rank = NODE_BUILDERS k row ctx" by auto
qed

lemma stageTotals_value:
  assumes "(key, rank) \<in> set (stageTotals rows metric k ctx)"
  shows "nr_value rank =
    (\<Sum>row \<leftarrow> rows. if pn_id (NODE_BUILDERS k row ctx) = pn_id (nr_node rank) then metricValue (rowMetrics row) metric else 0)"
proof -
  note key = stageTotals_entry(1) [OF assms]
  have "nr_value rank = (\<Sum>row \<leftarrow> rows. if nodeFilterKey \<lparr>nf_kind = pn_kind (NODE_BUILDERS k row ctx),
      nf_id = pn_id (NODE_BUILDERS k row ctx)\<rparr> = key then metricValue (rowMetrics row) metric else 0)"
    by (rule upserts_entry [OF assms [unfolded stageTotals_def]]) auto
  then show ?thesis by (simp add: key nodeFilterKey_inj)
qed

lemma stageTotals_complete:
  assumes "row \<in> set rows"
  shows "\<exists>key rank. (key, rank) \<in> set (stageTotals rows metric k ctx) \<and> pn_id (nr_node rank) = pn_id (NODE_BUILDERS k row ctx)"
proof -
  let ?key = "nodeFilterKey \<lparr>nf_kind = k, nf_id = pn_id (NODE_BUILDERS k row ctx)\<rparr>"
  have "?key \<in> set (keys_of (stageTotals rows metric k ctx))"
    using assms by (simp add: stageTotals_def upserts_keys set_foldl_set_add)
  then obtain rank where e: "(?key, rank) \<in> set (stageTotals rows metric k ctx)" by auto
  with stageTotals_entry(1) [OF e] show ?thesis by (metis nodeFilterKey_inj)
qed

lemma stageTotals_ids:
  "(\<lambda>(key, rank). pn_id (nr_node rank)) ` set (stageTotals rows metric k ctx) =
     (\<lambda>row. pn_id (NODE_BUILDERS k row ctx)) ` set rows"
proof (intro equalityI subsetI)
  fix i assume "i \<in> (\<lambda>(key, rank). pn_id (nr_node rank)) ` set (stageTotals rows metric k ctx)"
  then obtain key rank where "(key, rank) \<in> set (stageTotals rows metric k ctx)" "i = pn_id (nr_node rank)" by auto
  then show "i \<in> (\<lambda>row. pn_id (NODE_BUILDERS k row ctx)) ` set rows"
    using stageTotals_entry(2) by force
next
  fix i assume "i \<in> (\<lambda>row. pn_id (NODE_BUILDERS k row ctx)) ` set rows"
  then obtain row where "row \<in> set rows" "i = pn_id (NODE_BUILDERS k row ctx)" by auto
  with stageTotals_complete [of row rows metric k ctx] obtain key rank where
    "(key, rank) \<in> set (stageTotals rows metric k ctx)" "pn_id (nr_node rank) = i" by auto
  then show "i \<in> (\<lambda>(key, rank). pn_id (nr_node rank)) ` set (stageTotals rows metric k ctx)"
    by (auto intro: rev_image_eqI)
qed

lemma stageOptions_kind:
  "o' \<in> set (stageOptions env rows metric stages colors palette ctx sel k) \<Longrightarrow> no_kind o' = k"
  using stageTotals_entry(2) by (fastforce simp: stageOptions_def rankOption_def)

lemma stageOptions_filter:
  "distinct stages \<Longrightarrow> k \<in> set stages \<Longrightarrow>
     filter (\<lambda>o'. no_kind o' = k) (concat (map (stageOptions env rows metric sts colors palette ctx sel) stages)) =
     stageOptions env rows metric sts colors palette ctx sel k"
proof (induction stages)
  case (Cons s stages)
  have own: "filter (\<lambda>o'. no_kind o' = k) (stageOptions env rows metric sts colors palette ctx sel s) =
      (if s = k then stageOptions env rows metric sts colors palette ctx sel k else [])"
    using stageOptions_kind [of _ env rows metric sts colors palette ctx sel s]
    by (auto simp: filter_id_conv filter_empty_conv)
  have none: "k \<notin> set stages \<Longrightarrow>
      filter (\<lambda>o'. no_kind o' = k) (concat (map (stageOptions env rows metric sts colors palette ctx sel) stages)) = []"
    using stageOptions_kind by (fastforce simp: filter_empty_conv)
  from Cons own none show ?case by auto
qed simp

lemma optionOrder_consistent:
  "consistent_comparator (env_localeCompare env) \<Longrightarrow> consistent_comparator (optionOrder env stages)"
  unfolding optionOrder_def
  by (intro consistent_intros rat_order.consistent_comparator_axioms)

lemma options_of_kind:
  assumes "consistent_comparator (env_localeCompare env)"
    and "k \<in> set stages" and "stages = resolveVisibleStages role visibleStages"
  shows "filter (\<lambda>o'. no_kind o' = k) (buildNodeFilterOptions env rows metric role visibleStages palette ctx sel) =
    js_sort (optionOrder env stages)
      (stageOptions env rows metric stages
        (stableColorMap env (js_sort (env_localeCompare env)
          (set_of (concat (map (\<lambda>row. map pn_id (flowPathForStages row stages ctx)) rows)))) palette)
        palette ctx sel k)"
  using assms resolve_stages(1) [of role visibleStages]
  by (simp add: buildNodeFilterOptions_def Let_def stageOptions_filter
      consistent_comparator.js_sort_filter [OF optionOrder_consistent])

section \<open>Properties\<close>

text \<open>
  C19: The node filter of the flow chart keeps exactly the rows that a declarative reading
  selects, in their order: alternatives within a column, conjunction across the visible
  columns, and no effect of a selection made for a hidden column.
\<close>

theorem flow_filter_exact:
  "filterRowsByNodes rows sel stages ctx = filter (rowSelected (filters_of sel) stages ctx) rows"
  by (rule filterRowsByNodes_eq)

text \<open>
  The options offered for a column do not depend on what is selected in that column, so
  that a selected column still offers its alternatives: two selections that agree on the
  other columns give the same options, in the same order, for any consistent collation.
\<close>

lemma flow_options_facetted:
  assumes "consistent_comparator (env_localeCompare env)"
    and "k \<in> set (resolveVisibleStages role visibleStages)"
    and "filter (\<lambda>f. nf_kind f \<noteq> k) (filters_of sel) = filter (\<lambda>f. nf_kind f \<noteq> k) (filters_of sel')"
  shows "filter (\<lambda>o'. no_kind o' = k) (buildNodeFilterOptions env rows metric role visibleStages palette ctx sel) =
    filter (\<lambda>o'. no_kind o' = k) (buildNodeFilterOptions env rows metric role visibleStages palette ctx sel')"
  using assms by (simp add: options_of_kind stageOptions_def filterRowsByNodes_eq filters_except)

lemma flow_options_facetted_witness:
  "filter (\<lambda>o'. no_kind o' = KModel) (buildNodeFilterOptions sampleEnv
     [sampleRow ''ann'' ''vip'' ''m1'' 3, sampleRow ''bob'' ''vip'' ''m2'' 4] MQuota RoleUser None None None
     (Some [\<lparr>nf_kind = KModel, nf_id = js ''model:m1''\<rparr>])) =
   filter (\<lambda>o'. no_kind o' = KModel) (buildNodeFilterOptions sampleEnv
     [sampleRow ''ann'' ''vip'' ''m1'' 3, sampleRow ''bob'' ''vip'' ''m2'' 4] MQuota RoleUser None None None None)"
  by (rule flow_options_facetted [OF sampleEnv_consistent])
    (simp_all add: resolveVisibleStages_def getFlowStages_def)

text \<open>
  Each option of a column carries the exact total of the metric over the rows that the
  selections of the other columns keep and that pass through its node, and every such row
  has its node among the options.
\<close>

lemma flow_options_totals:
  fixes rows :: "FlowQuotaDataItem list" and metric :: FlowMetric and palette :: "jsstr list option"
    and ctx :: FlowPathContext and sel :: "FlowNodeFilter list option"
  assumes "consistent_comparator (env_localeCompare env)"
    and "k \<in> set (resolveVisibleStages role visibleStages)"
  defines "opts \<equiv> filter (\<lambda>o'. no_kind o' = k) (buildNodeFilterOptions env rows metric role visibleStages palette ctx sel)"
    and "cand \<equiv> filter (rowSelected (filter (\<lambda>f. nf_kind f \<noteq> k) (filters_of sel))
      (resolveVisibleStages role visibleStages) ctx) rows"
  shows "(\<forall>o' \<in> set opts. no_valueRaw o' = (\<Sum>row \<leftarrow> cand.
      if pn_id (NODE_BUILDERS k row ctx) = no_value o' then metricValue (rowMetrics row) metric else 0)) \<and>
    no_value ` set opts = (\<lambda>row. pn_id (NODE_BUILDERS k row ctx)) ` set cand"
proof -
  let ?cs = "stableColorMap env (js_sort (env_localeCompare env) (set_of (concat (map (\<lambda>row.
      map pn_id (flowPathForStages row (resolveVisibleStages role visibleStages) ctx)) rows)))) palette"
  have "set opts = set (stageOptions env rows metric (resolveVisibleStages role visibleStages) ?cs palette ctx sel k)"
    unfolding opts_def options_of_kind [OF assms(1,2) refl] by simp
  then have opts: "set opts = set (map (\<lambda>(key, rank). rankOption env ?cs palette rank) (stageTotals cand metric k ctx))"
    by (simp only: stageOptions_def filterRowsByNodes_eq filters_except cand_def)
  have "\<forall>o' \<in> set opts. no_valueRaw o' = (\<Sum>row \<leftarrow> cand.
      if pn_id (NODE_BUILDERS k row ctx) = no_value o' then metricValue (rowMetrics row) metric else 0)"
    unfolding opts by (auto simp: rankOption_def dest: stageTotals_value)
  moreover have "no_value ` set opts = (\<lambda>row. pn_id (NODE_BUILDERS k row ctx)) ` set cand"
    unfolding opts stageTotals_ids [of cand metric, symmetric]
    by (simp add: image_image rankOption_def case_prod_unfold)
  ultimately show ?thesis by blast
qed

lemma flow_options_totals_witness:
  "no_value ` set (filter (\<lambda>o'. no_kind o' = KModel) (buildNodeFilterOptions sampleEnv
     [sampleRow ''ann'' ''vip'' ''m1'' 3, sampleRow ''bob'' ''vip'' ''m2'' 4] MQuota RoleUser None None None
     (Some [\<lparr>nf_kind = KToken, nf_id = js ''token:bob''\<rparr>]))) = {js ''model:m2''}"
  using flow_options_totals [OF sampleEnv_consistent, of KModel RoleUser None
      "[sampleRow ''ann'' ''vip'' ''m1'' 3, sampleRow ''bob'' ''vip'' ''m2'' 4]" MQuota None None
      "Some [\<lparr>nf_kind = KToken, nf_id = js ''token:bob''\<rparr>]"]
  by (simp add: rowSelected_def flow_eval)

end
