(* ===== verification/Flow_Graph.thy ===== *)
theory Flow_Graph
  imports Flow_Filter
begin

text \<open>
  The flow graph: nodes and links accumulated over the paths of the rows, the limit to the
  largest nodes per column with its two overflow modes, masking of labels, highlighting of
  an active node or link, shares and display colours. The graph of \<open>flow.ts\<close> mutates the
  objects it keeps in its maps; the objects are identified here by the keys under which
  the maps hold them.
\<close>

section \<open>Nodes and links\<close>

record DashboardFlowNode =
  dn_id :: jsstr
  dn_label :: jsstr
  dn_kind :: FlowNodeKind
  dn_value :: rat
  dn_requests :: rat
  dn_quota :: rat
  dn_tokens :: rat
  dn_color :: jsstr
  dn_colorKey :: jsstr
  dn_highlighted :: "bool option"
  dn_dimmed :: "bool option"

record DashboardFlowLink =
  dl_source :: jsstr
  dl_target :: jsstr
  dl_value :: rat
  dl_requests :: rat
  dl_quota :: rat
  dl_tokens :: rat
  dl_sourceLabel :: jsstr
  dl_targetLabel :: jsstr
  dl_color :: jsstr
  dl_linkColor :: jsstr
  dl_linkAlpha :: rat
  dl_hoverColor :: jsstr
  dl_colorKey :: jsstr
  dl_share :: rat
  dl_highlighted :: "bool option"
  dl_dimmed :: "bool option"

record DashboardFlowGraph =
  fg_nodes :: "DashboardFlowNode list"
  fg_links :: "DashboardFlowLink list"

record PreparedFlowPath =
  pp_path :: "FlowPathNode list"
  pp_metrics :: FlowMetrics

record FlowGraphOptions =
  go_topNodeLimit :: "jsnum option"
  go_overflowMode :: "FlowOverflowMode option"
  go_otherNodeLabel :: "(FlowNodeKind \<Rightarrow> jsstr) option"
  go_activeNode :: "FlowNodeFilter option"
  go_activeLink :: "FlowLinkSelection option"
  go_maskSensitive :: "bool option"

record FlowSummary =
  su_quota :: rat
  su_tokens :: rat
  su_requests :: rat

definition DEFAULT_FLOW_OVERFLOW_MODE :: FlowOverflowMode where
  "DEFAULT_FLOW_OVERFLOW_MODE = Aggregate"

definition DEFAULT_FLOW_ROLE :: FlowRole where
  "DEFAULT_FLOW_ROLE = RoleUser"

definition pathLinkKey :: "FlowPathNode \<Rightarrow> FlowPathNode \<Rightarrow> jsstr" where
  "pathLinkKey source target = pn_id source @ [0] @ pn_id target"

definition linkStableKey :: "DashboardFlowLink \<Rightarrow> jsstr" where
  "linkStableKey link = dl_source link @ [0] @ dl_target link"

definition addNode :: "(jsstr \<times> DashboardFlowNode) list \<Rightarrow> FlowPathNode \<Rightarrow> FlowMetrics \<Rightarrow> FlowMetric \<Rightarrow> jsstr \<Rightarrow>
    jsstr \<Rightarrow> (jsstr \<times> DashboardFlowNode) list" where
  "addNode m pathNode metrics metric color colorKey =
     upsert (pn_id pathNode)
       \<lparr>dn_id = pn_id pathNode, dn_label = pn_label pathNode, dn_kind = pn_kind pathNode, dn_value = 0,
        dn_requests = 0, dn_quota = 0, dn_tokens = 0, dn_color = color, dn_colorKey = colorKey,
        dn_highlighted = None, dn_dimmed = None\<rparr>
       (\<lambda>previous. previous\<lparr>dn_value := dn_value previous + metricValue metrics metric,
          dn_requests := dn_requests previous + fm_requests metrics,
          dn_quota := dn_quota previous + fm_quota metrics,
          dn_tokens := dn_tokens previous + fm_tokens metrics\<rparr>) m"

definition addLink :: "(jsstr \<times> DashboardFlowLink) list \<Rightarrow> FlowPathNode \<Rightarrow> FlowPathNode \<Rightarrow> FlowMetrics \<Rightarrow>
    FlowMetric \<Rightarrow> jsstr \<Rightarrow> jsstr \<Rightarrow> (jsstr \<times> DashboardFlowLink) list" where
  "addLink m source target metrics metric color colorKey =
     upsert (pathLinkKey source target)
       \<lparr>dl_source = pn_id source, dl_target = pn_id target, dl_value = 0, dl_requests = 0, dl_quota = 0,
        dl_tokens = 0, dl_sourceLabel = pn_label source, dl_targetLabel = pn_label target, dl_color = color,
        dl_linkColor = color, dl_linkAlpha = 1, dl_hoverColor = color, dl_colorKey = colorKey, dl_share = 0,
        dl_highlighted = None, dl_dimmed = None\<rparr>
       (\<lambda>previous. previous\<lparr>dl_value := dl_value previous + metricValue metrics metric,
          dl_requests := dl_requests previous + fm_requests metrics,
          dl_quota := dl_quota previous + fm_quota metrics,
          dl_tokens := dl_tokens previous + fm_tokens metrics\<rparr>) m"

text \<open>The display colour of each link by its place among the links of its source.\<close>

definition linksBySource :: "DashboardFlowLink list \<Rightarrow> (jsstr \<times> DashboardFlowLink list) list" where
  "linksBySource links = foldl (\<lambda>m link. upsert (dl_source link) [] (\<lambda>ls. ls @ [link]) m) [] links"

definition linkDisplayColors :: "FlowEnv \<Rightarrow> DashboardFlowLink list \<Rightarrow> (jsstr \<times> (jsstr \<times> rat)) list" where
  "linkDisplayColors env sourceLinks =
     (let sortedLinks = js_sort (cmp_or (cmp_desc (cmp_key dl_value cmp_rat))
            (cmp_key linkStableKey (env_localeCompare env))) sourceLinks;
          denominator = max (length sortedLinks - 1) 1
      in map (\<lambda>(index, link).
           (linkStableKey link, alphaColor (dl_color link)
             (if length sortedLinks = 1 then 34 / 100
              else 24 / 100 + (of_nat index / of_nat denominator) * (20 / 100))))
         (enumerate 0 sortedLinks))"

definition assignLinkDisplayColors :: "FlowEnv \<Rightarrow> DashboardFlowLink list \<Rightarrow> DashboardFlowLink list" where
  "assignLinkDisplayColors env links =
     (let display = concat (map (\<lambda>(source, sourceLinks). linkDisplayColors env sourceLinks) (linksBySource links)) in
      map (\<lambda>link. case map_of display (linkStableKey link) of
           Some (color, alpha) \<Rightarrow> link\<lparr>dl_linkColor := color, dl_linkAlpha := alpha, dl_hoverColor := dl_color link\<rparr>
         | None \<Rightarrow> link) links)"

definition byValueThenLabel :: "FlowEnv \<Rightarrow> DashboardFlowNode cmp" where
  "byValueThenLabel env =
     cmp_or (cmp_desc (cmp_key dn_value cmp_rat)) (cmp_key dn_label (env_localeCompare env))"

definition buildSummary :: "FlowQuotaDataItem list \<Rightarrow> FlowSummary" where
  "buildSummary rows = foldl (\<lambda>summary row.
       (let metrics = rowMetrics row in
        \<lparr>su_quota = su_quota summary + fm_quota metrics, su_tokens = su_tokens summary + fm_tokens metrics,
         su_requests = su_requests summary + fm_requests metrics\<rparr>))
     \<lparr>su_quota = 0, su_tokens = 0, su_requests = 0\<rparr> rows"

section \<open>The largest nodes of a column\<close>

definition normalizeTopNodeLimit :: "jsnum option \<Rightarrow> nat option" where
  "normalizeTopNodeLimit limit =
     (case limit of Some (Fin q) \<Rightarrow> if \<lfloor>q\<rfloor> > 0 then Some (nat \<lfloor>q\<rfloor>) else None | _ \<Rightarrow> None)"

definition otherFlowNode :: "FlowNodeKind \<Rightarrow> (FlowNodeKind \<Rightarrow> jsstr) option \<Rightarrow> FlowPathNode" where
  "otherFlowNode kind labeler =
     \<lparr>pn_id = OTHER_FLOW_NODE_IDS kind,
      pn_label = (case labeler of Some f \<Rightarrow> f kind | None \<Rightarrow> DEFAULT_OTHER_FLOW_NODE_LABELS kind),
      pn_kind = kind\<rparr>"

type_synonym KindTotals = "(FlowNodeKind \<times> (jsstr \<times> FlowNodeRank) list) list"

definition addRank :: "rat \<Rightarrow> KindTotals \<Rightarrow> FlowPathNode \<Rightarrow> KindTotals" where
  "addRank v totals node =
     (case map_of totals (pn_kind node) of
        None \<Rightarrow> totals
      | Some perNode \<Rightarrow> AList.update (pn_kind node)
          (upsert (pn_id node) \<lparr>nr_node = node, nr_value = 0\<rparr>
            (\<lambda>current. current\<lparr>nr_value := nr_value current + v\<rparr>) perNode) totals)"

definition rankTotals :: "FlowQuotaDataItem list \<Rightarrow> FlowMetric \<Rightarrow> FlowNodeKind list \<Rightarrow> FlowPathContext \<Rightarrow> KindTotals" where
  "rankTotals rows metric stages ctx =
     foldl (\<lambda>totals row. foldl (addRank (metricValue (rowMetrics row) metric)) totals (flowPathForStages row stages ctx))
       (foldl (\<lambda>m stage. AList.update stage [] m) [] stages) rows"

definition rankOrder :: "FlowEnv \<Rightarrow> FlowNodeRank cmp" where
  "rankOrder env = cmp_or (cmp_desc (cmp_key nr_value cmp_rat))
     (cmp_or (cmp_key (\<lambda>r. pn_label (nr_node r)) (env_localeCompare env))
       (cmp_key (\<lambda>r. pn_id (nr_node r)) (env_localeCompare env)))"

definition buildTopNodeSets :: "FlowEnv \<Rightarrow> FlowQuotaDataItem list \<Rightarrow> FlowMetric \<Rightarrow> FlowNodeKind list \<Rightarrow> nat option \<Rightarrow>
    FlowPathContext \<Rightarrow> KindSets option" where
  "buildTopNodeSets env rows metric stages limit ctx =
     (case limit of None \<Rightarrow> None
      | Some n \<Rightarrow> if n = 0 then None else
          Some (map (\<lambda>(kind, perNode).
              (kind, set_of (map (\<lambda>rank. pn_id (nr_node rank)) (take n (js_sort (rankOrder env) (map snd perNode))))))
            (rankTotals rows metric stages ctx)))"

definition isTopFlowNode :: "FlowPathNode \<Rightarrow> KindSets option \<Rightarrow> bool" where
  "isTopFlowNode node topNodeSets =
     (case topNodeSets of None \<Rightarrow> True
      | Some sets \<Rightarrow> (case map_of sets (pn_kind node) of None \<Rightarrow> True | Some topNodes \<Rightarrow> pn_id node \<in> set topNodes))"

definition applyTopNodeLimit :: "FlowPathNode list \<Rightarrow> KindSets option \<Rightarrow> FlowOverflowMode \<Rightarrow>
    (FlowNodeKind \<Rightarrow> jsstr) option \<Rightarrow> FlowPathNode list option" where
  "applyTopNodeLimit path topNodeSets mode labeler =
     (if topNodeSets = None then Some path
      else if \<not> list_ex (\<lambda>node. \<not> isTopFlowNode node topNodeSets) path then Some path
      else if mode = Hide then None
      else Some (map (\<lambda>node. if isTopFlowNode node topNodeSets then node else otherFlowNode (pn_kind node) labeler) path))"

section \<open>Highlighting and masking\<close>

text \<open>The consecutive pairs of a path: \<open>path[i]\<close> and \<open>path[i + 1]\<close>.\<close>

abbreviation path_pairs :: "FlowPathNode list \<Rightarrow> (FlowPathNode \<times> FlowPathNode) list" where
  "path_pairs path \<equiv> zip path (tl path)"

definition pathContainsFlowNode :: "FlowPathNode list \<Rightarrow> FlowNodeFilter \<Rightarrow> bool" where
  "pathContainsFlowNode path f \<longleftrightarrow> list_ex (\<lambda>node. pn_kind node = nf_kind f \<and> pn_id node = nf_id f) path"

definition pathContainsFlowLink :: "FlowPathNode list \<Rightarrow> FlowLinkSelection \<Rightarrow> bool" where
  "pathContainsFlowLink path link \<longleftrightarrow>
     list_ex (\<lambda>(a, b). pn_id a = ls_source link \<and> pn_id b = ls_target link) (path_pairs path)"

record FlowHighlightSets =
  hs_nodes :: "jsstr list"
  hs_links :: "jsstr list"

definition matchesPath :: "FlowNodeFilter option \<Rightarrow> FlowLinkSelection option \<Rightarrow> FlowPathNode list \<Rightarrow> bool" where
  "matchesPath activeNode activeLink path =
     (case activeLink of
        Some link \<Rightarrow> pathContainsFlowLink path link
      | None \<Rightarrow> (case activeNode of Some node \<Rightarrow> pathContainsFlowNode path node | None \<Rightarrow> False))"

definition buildFlowHighlightSets :: "PreparedFlowPath list \<Rightarrow> FlowNodeFilter option \<Rightarrow> FlowLinkSelection option \<Rightarrow>
    FlowNodeKind list \<Rightarrow> FlowHighlightSets option" where
  "buildFlowHighlightSets preparedPaths activeNode activeLink stages =
     (let nodeActive = (case activeNode of Some node \<Rightarrow> nf_kind node \<in> set stages | None \<Rightarrow> False) in
      if \<not> nodeActive \<and> activeLink = None then None
      else (let matched = filter (\<lambda>p. matchesPath activeNode activeLink (pp_path p)) preparedPaths;
                highlightedNodes = set_of (concat (map (\<lambda>p. map pn_id (pp_path p)) matched));
                highlightedLinks = set_of (concat (map (\<lambda>p. map (\<lambda>(a, b). pathLinkKey a b) (path_pairs (pp_path p))) matched))
            in if highlightedNodes = [] then None
               else Some \<lparr>hs_nodes = highlightedNodes, hs_links = highlightedLinks\<rparr>))"

definition FLOW_MASK_TEXT :: jsstr where
  "FLOW_MASK_TEXT = [8226, 8226, 8226, 8226]"

definition maskFlowLabel :: "jsstr \<Rightarrow> jsstr" where
  "maskFlowLabel label = (if label = [] then label else FLOW_MASK_TEXT)"

definition maskedNode :: "DashboardFlowNode \<Rightarrow> bool" where
  "maskedNode node \<longleftrightarrow> dn_kind node \<in> set SENSITIVE_FLOW_KINDS \<and> dn_id node \<notin> set OTHER_FLOW_NODE_ID_SET"

definition maskLinkLabels :: "(jsstr \<times> jsstr) list \<Rightarrow> DashboardFlowLink \<Rightarrow> DashboardFlowLink" where
  "maskLinkLabels maskedById link =
     link\<lparr>dl_sourceLabel := (case map_of maskedById (dl_source link) of Some l \<Rightarrow> l | None \<Rightarrow> dl_sourceLabel link),
          dl_targetLabel := (case map_of maskedById (dl_target link) of Some l \<Rightarrow> l | None \<Rightarrow> dl_targetLabel link)\<rparr>"

definition maskFlowGraphLabels :: "(jsstr \<times> DashboardFlowNode) list \<Rightarrow> (jsstr \<times> DashboardFlowLink) list \<Rightarrow>
    (jsstr \<times> DashboardFlowNode) list \<times> (jsstr \<times> DashboardFlowLink) list" where
  "maskFlowGraphLabels nodes links =
     (let maskedById = map (\<lambda>(k, node). (dn_id node, maskFlowLabel (dn_label node)))
            (filter (\<lambda>(k, node). maskedNode node) nodes)
      in (map (\<lambda>(k, node). (k, if maskedNode node then node\<lparr>dn_label := maskFlowLabel (dn_label node)\<rparr> else node)) nodes,
          map (\<lambda>(k, link). (k, maskLinkLabels maskedById link)) links))"

definition highlightNode :: "FlowHighlightSets \<Rightarrow> DashboardFlowNode \<Rightarrow> DashboardFlowNode" where
  "highlightNode sets node =
     (let highlighted = dn_id node \<in> set (hs_nodes sets)
      in node\<lparr>dn_highlighted := Some highlighted, dn_dimmed := Some (\<not> highlighted)\<rparr>)"

definition highlightLink :: "FlowHighlightSets \<Rightarrow> DashboardFlowLink \<Rightarrow> DashboardFlowLink" where
  "highlightLink sets link =
     (let highlighted = linkStableKey link \<in> set (hs_links sets)
      in link\<lparr>dl_highlighted := Some highlighted, dl_dimmed := Some (\<not> highlighted)\<rparr>)"

definition applyFlowHighlights :: "(jsstr \<times> DashboardFlowNode) list \<Rightarrow> (jsstr \<times> DashboardFlowLink) list \<Rightarrow>
    FlowHighlightSets option \<Rightarrow> (jsstr \<times> DashboardFlowNode) list \<times> (jsstr \<times> DashboardFlowLink) list" where
  "applyFlowHighlights nodes links highlightSets =
     (case highlightSets of None \<Rightarrow> (nodes, links)
      | Some sets \<Rightarrow> (map (\<lambda>(k, node). (k, highlightNode sets node)) nodes,
                      map (\<lambda>(k, link). (k, highlightLink sets link)) links))"

section \<open>The graph\<close>

definition preparePaths :: "FlowEnv \<Rightarrow> FlowQuotaDataItem list \<Rightarrow> FlowMetric \<Rightarrow> FlowNodeKind list \<Rightarrow> FlowPathContext \<Rightarrow>
    FlowGraphOptions \<Rightarrow> PreparedFlowPath list" where
  "preparePaths env rows metric stages ctx options =
     (let topNodeSets = buildTopNodeSets env rows metric stages (normalizeTopNodeLimit (go_topNodeLimit options)) ctx;
          overflowMode = (case go_overflowMode options of Some m \<Rightarrow> m | None \<Rightarrow> DEFAULT_FLOW_OVERFLOW_MODE)
      in List.map_filter (\<lambda>row.
           case applyTopNodeLimit (flowPathForStages row stages ctx) topNodeSets overflowMode (go_otherNodeLabel options) of
             None \<Rightarrow> None
           | Some path \<Rightarrow> Some \<lparr>pp_path = path, pp_metrics = rowMetrics row\<rparr>) rows)"

definition rootIds :: "PreparedFlowPath list \<Rightarrow> jsstr list" where
  "rootIds preparedPaths = filter (\<lambda>i. i \<noteq> [])
     (List.map_filter (\<lambda>p. case pp_path p of [] \<Rightarrow> None | rt # _ \<Rightarrow> Some (pn_id rt)) preparedPaths)"

definition rootColor :: "FlowEnv \<Rightarrow> (jsstr \<times> jsstr) list \<Rightarrow> jsstr list option \<Rightarrow> jsstr \<Rightarrow> jsstr" where
  "rootColor env colors palette rootId =
     (case map_of colors rootId of Some c \<Rightarrow> c | None \<Rightarrow> colorAt env 0 palette)"

definition addPath :: "FlowEnv \<Rightarrow> (jsstr \<times> jsstr) list \<Rightarrow> jsstr list option \<Rightarrow> FlowMetric \<Rightarrow>
    (jsstr \<times> DashboardFlowNode) list \<times> (jsstr \<times> DashboardFlowLink) list \<Rightarrow> PreparedFlowPath \<Rightarrow>
    (jsstr \<times> DashboardFlowNode) list \<times> (jsstr \<times> DashboardFlowLink) list" where
  "addPath env colors palette metric maps p =
     (case pp_path p of [] \<Rightarrow> maps
      | rt # _ \<Rightarrow>
          (let color = rootColor env colors palette (pn_id rt) in
           (foldl (\<lambda>nodes node. addNode nodes node (pp_metrics p) metric color (pn_id rt)) (fst maps) (pp_path p),
            foldl (\<lambda>links (source, target). addLink links source target (pp_metrics p) metric color (pn_id rt))
              (snd maps) (path_pairs (pp_path p)))))"

definition buildFlowGraph :: "FlowEnv \<Rightarrow> FlowQuotaDataItem list \<Rightarrow> FlowMetric \<Rightarrow> FlowRole \<Rightarrow> jsstr list option \<Rightarrow>
    FlowNodeKind list option \<Rightarrow> FlowPathContext \<Rightarrow> FlowGraphOptions \<Rightarrow> DashboardFlowGraph" where
  "buildFlowGraph env rows metric role palette visibleStages ctx options =
     (let stages = resolveVisibleStages role visibleStages;
          preparedPaths = preparePaths env rows metric stages ctx options;
          colors = stableColorMap env (js_sort (env_localeCompare env) (rootIds preparedPaths)) palette;
          added = foldl (addPath env colors palette metric) ([], []) preparedPaths;
          masked = (if go_maskSensitive options = Some True then maskFlowGraphLabels (fst added) (snd added) else added);
          marked = applyFlowHighlights (fst masked) (snd masked)
            (buildFlowHighlightSets preparedPaths (go_activeNode options) (go_activeLink options) stages);
          flowLinks = js_sort (cmp_or (cmp_key dl_source (env_localeCompare env)) (cmp_key dl_target (env_localeCompare env)))
            (map snd (snd marked));
          firstStepSources = set_of (rootIds preparedPaths);
          total = (\<Sum>link \<leftarrow> filter (\<lambda>link. dl_source link \<in> set firstStepSources) flowLinks. dl_value link);
          shared = map (\<lambda>link. link\<lparr>dl_share := (if total > 0 then dl_value link / total else 0)\<rparr>) flowLinks
      in \<lparr>fg_nodes = js_sort (byValueThenLabel env) (map snd (fst marked)),
          fg_links = assignLinkDisplayColors env shared\<rparr>)"

record FlowBuildOptions =
  bo_role :: "FlowRole option"
  bo_selectedUsers :: "jsstr list option"
  bo_selectedNodes :: "FlowNodeFilter list option"
  bo_activeNode :: "FlowNodeFilter option"
  bo_activeLink :: "FlowLinkSelection option"
  bo_colorPalette :: "jsstr list option"
  bo_visibleStages :: "FlowNodeKind list option"
  bo_topNodeLimit :: "jsnum option"
  bo_overflowMode :: "FlowOverflowMode option"
  bo_maskSensitive :: "bool option"
  bo_deletedTokenLabel :: "(int \<Rightarrow> jsstr) option"
  bo_otherNodeLabel :: "(FlowNodeKind \<Rightarrow> jsstr) option"

record ProcessedFlowData =
  pf_summary :: FlowSummary
  pf_flow :: DashboardFlowGraph
  pf_filterOptions :: FlowFilterOptions

definition buildDashboardFlowData :: "FlowEnv \<Rightarrow> FlowQuotaDataItem list \<Rightarrow> FlowMetric \<Rightarrow> FlowBuildOptions \<Rightarrow>
    ProcessedFlowData" where
  "buildDashboardFlowData env rows metric options =
     (let role = (case bo_role options of Some r \<Rightarrow> r | None \<Rightarrow> DEFAULT_FLOW_ROLE);
          palette = bo_colorPalette options;
          ctx = bo_deletedTokenLabel options;
          stages = resolveVisibleStages role (bo_visibleStages options);
          userFilteredRows = filterRows rows (bo_selectedUsers options);
          filteredRows = filterRowsByNodes userFilteredRows (bo_selectedNodes options) stages ctx
      in \<lparr>pf_summary = buildSummary filteredRows,
          pf_flow = buildFlowGraph env filteredRows metric role palette (bo_visibleStages options) ctx
            \<lparr>go_topNodeLimit = bo_topNodeLimit options, go_overflowMode = bo_overflowMode options,
             go_otherNodeLabel = bo_otherNodeLabel options, go_activeNode = bo_activeNode options,
             go_activeLink = bo_activeLink options, go_maskSensitive = bo_maskSensitive options\<rparr>,
          pf_filterOptions =
            \<lparr>fo_users = buildUserFilterOptions env rows metric palette,
             fo_nodes = buildNodeFilterOptions env userFilteredRows metric role (bo_visibleStages options)
               palette ctx (bo_selectedNodes options)\<rparr>\<rparr>)"

end
