(* ===== verification/Flow_Balance.thy ===== *)
theory Flow_Balance
  imports Flow_Graph
begin

text \<open>
  What the flow graph adds up to: every column carries the whole of the selected metric,
  what enters a node leaves it again, and shares are fractions of the whole. The proofs
  reduce the graph to the two accumulation loops over the steps of the prepared paths.
\<close>

section \<open>Prepared paths\<close>

definition limitNode :: "KindSets option \<Rightarrow> (FlowNodeKind \<Rightarrow> jsstr) option \<Rightarrow> FlowPathNode \<Rightarrow> FlowPathNode" where
  "limitNode sets labeler n = (if isTopFlowNode n sets then n else otherFlowNode (pn_kind n) labeler)"

lemma other_fields [simp]: "pn_kind (otherFlowNode k labeler) = k" "pn_id (otherFlowNode k labeler) = OTHER_FLOW_NODE_IDS k"
  by (simp_all add: otherFlowNode_def)

lemma limitNode_kind [simp]: "pn_kind (limitNode sets labeler n) = pn_kind n"
  by (simp add: limitNode_def)

lemma limitNode_wf: "wf_node n \<Longrightarrow> wf_node (limitNode sets labeler n)"
  by (simp add: limitNode_def wf_node_def other_prefix)

lemma applyTopNodeLimit_eq:
  "applyTopNodeLimit path sets mode labeler =
     (if mode = Hide \<and> \<not> list_all (\<lambda>n. isTopFlowNode n sets) path then None
      else Some (map (limitNode sets labeler) path))"
proof -
  have all: "map (limitNode sets labeler) path = path" if "list_all (\<lambda>n. isTopFlowNode n sets) path"
    using that by (simp add: list_all_iff limitNode_def map_idI)
  show ?thesis
  proof (cases "list_all (\<lambda>n. isTopFlowNode n sets) path")
    case True
    then have "\<not> list_ex (\<lambda>n. \<not> isTopFlowNode n sets) path" by (simp add: list_all_iff list_ex_iff)
    with True all show ?thesis by (simp add: applyTopNodeLimit_def)
  next
    case False
    then have "list_ex (\<lambda>n. \<not> isTopFlowNode n sets) path" by (auto simp: list_all_iff list_ex_iff)
    moreover from False have "sets \<noteq> None" by (auto simp: list_all_iff isTopFlowNode_def split: option.splits)
    ultimately show ?thesis using False by (auto simp: applyTopNodeLimit_def limitNode_def [abs_def])
  qed
qed

abbreviation overflow_mode :: "FlowGraphOptions \<Rightarrow> FlowOverflowMode" where
  "overflow_mode options \<equiv> (case go_overflowMode options of Some m \<Rightarrow> m | None \<Rightarrow> DEFAULT_FLOW_OVERFLOW_MODE)"

definition topSets :: "FlowEnv \<Rightarrow> FlowQuotaDataItem list \<Rightarrow> FlowMetric \<Rightarrow> FlowNodeKind list \<Rightarrow> FlowPathContext \<Rightarrow>
    FlowGraphOptions \<Rightarrow> KindSets option" where
  "topSets env rows metric stages ctx options =
     buildTopNodeSets env rows metric stages (normalizeTopNodeLimit (go_topNodeLimit options)) ctx"

definition keptRow :: "FlowEnv \<Rightarrow> FlowQuotaDataItem list \<Rightarrow> FlowMetric \<Rightarrow> FlowNodeKind list \<Rightarrow> FlowPathContext \<Rightarrow>
    FlowGraphOptions \<Rightarrow> FlowQuotaDataItem \<Rightarrow> bool" where
  "keptRow env rows metric stages ctx options row \<longleftrightarrow> overflow_mode options \<noteq> Hide \<or>
     list_all (\<lambda>n. isTopFlowNode n (topSets env rows metric stages ctx options)) (flowPathForStages row stages ctx)"

definition preparedPath :: "FlowEnv \<Rightarrow> FlowQuotaDataItem list \<Rightarrow> FlowMetric \<Rightarrow> FlowNodeKind list \<Rightarrow> FlowPathContext \<Rightarrow>
    FlowGraphOptions \<Rightarrow> FlowQuotaDataItem \<Rightarrow> PreparedFlowPath" where
  "preparedPath env rows metric stages ctx options row =
     \<lparr>pp_path = map (limitNode (topSets env rows metric stages ctx options) (go_otherNodeLabel options))
        (flowPathForStages row stages ctx), pp_metrics = rowMetrics row\<rparr>"

lemma map_filter_if: "List.map_filter (\<lambda>x. if P x then None else Some (f x)) xs = map f (filter (\<lambda>x. \<not> P x) xs)"
  by (induction xs) simp_all

lemma preparePaths_eq:
  "preparePaths env rows metric stages ctx options =
     map (preparedPath env rows metric stages ctx options) (filter (keptRow env rows metric stages ctx options) rows)"
proof -
  have "(case applyTopNodeLimit (flowPathForStages row stages ctx) (topSets env rows metric stages ctx options)
        (overflow_mode options) (go_otherNodeLabel options) of
          None \<Rightarrow> None | Some path \<Rightarrow> Some \<lparr>pp_path = path, pp_metrics = rowMetrics row\<rparr>) =
      (if \<not> keptRow env rows metric stages ctx options row then None
       else Some (preparedPath env rows metric stages ctx options row))" for row
    by (simp add: applyTopNodeLimit_eq keptRow_def preparedPath_def)
  then show ?thesis
    unfolding preparePaths_def Let_def topSets_def [symmetric] by (simp only: map_filter_if not_not)
qed

text \<open>What the rest relies on: every prepared path has one well-formed node per stage.\<close>

definition wf_prepared :: "FlowNodeKind list \<Rightarrow> PreparedFlowPath list \<Rightarrow> bool" where
  "wf_prepared stages ps \<longleftrightarrow> distinct stages \<and> 2 \<le> length stages \<and> (\<forall>p \<in> set ps. wf_path stages (pp_path p))"

lemma preparePaths_wf:
  "wf_prepared (resolveVisibleStages role vs) (preparePaths env rows metric (resolveVisibleStages role vs) ctx options)"
proof -
  have "wf_path stages (map (limitNode sets labeler) (flowPathForStages row stages ctx))" for stages sets labeler row
    using wf_path_flow [of stages row ctx] by (auto simp: wf_path_def list_all_iff comp_def intro: limitNode_wf)
  then show ?thesis
    by (auto simp: wf_prepared_def resolve_stages preparePaths_eq preparedPath_def)
qed

lemma wf_prepared_path:
  assumes "wf_prepared stages ps" and "p \<in> set ps"
  shows "distinct (map pn_id (pp_path p))" "map pn_kind (pp_path p) = stages" "length (pp_path p) = length stages"
    "pp_path p \<noteq> []" "\<And>n. n \<in> set (pp_path p) \<Longrightarrow> wf_node n"
proof -
  have w: "wf_path stages (pp_path p)" "distinct stages" "2 \<le> length stages"
    using assms by (auto simp: wf_prepared_def)
  show "distinct (map pn_id (pp_path p))" by (rule wf_path_distinct [OF w(1,2)])
  show k: "map pn_kind (pp_path p) = stages" and "\<And>n. n \<in> set (pp_path p) \<Longrightarrow> wf_node n"
    using w(1) by (auto simp: wf_path_def list_all_iff)
  show "length (pp_path p) = length stages" using k by (metis length_map)
  with w(3) show "pp_path p \<noteq> []" by auto
qed

section \<open>The accumulation loops\<close>

lemma foldl_nested: "foldl (\<lambda>a p. foldl (f p) a (h p)) a ps = foldl (\<lambda>a (p, x). f p a x) a (concat (map (\<lambda>p. map (Pair p) (h p)) ps))"
  by (induction ps arbitrary: a) (simp_all add: foldl_map)

definition nodeSteps :: "PreparedFlowPath list \<Rightarrow> (PreparedFlowPath \<times> FlowPathNode) list" where
  "nodeSteps ps = concat (map (\<lambda>p. map (Pair p) (pp_path p)) ps)"

definition linkSteps :: "PreparedFlowPath list \<Rightarrow> (PreparedFlowPath \<times> FlowPathNode \<times> FlowPathNode) list" where
  "linkSteps ps = concat (map (\<lambda>p. map (Pair p) (path_pairs (pp_path p))) ps)"

abbreviation root_id :: "PreparedFlowPath \<Rightarrow> jsstr" where
  "root_id p \<equiv> pn_id (hd (pp_path p))"

definition nodeMap :: "(jsstr \<Rightarrow> jsstr) \<Rightarrow> FlowMetric \<Rightarrow> PreparedFlowPath list \<Rightarrow> (jsstr \<times> DashboardFlowNode) list" where
  "nodeMap color metric ps =
     foldl (\<lambda>m (p, n). addNode m n (pp_metrics p) metric (color (root_id p)) (root_id p)) [] (nodeSteps ps)"

definition linkMap :: "(jsstr \<Rightarrow> jsstr) \<Rightarrow> FlowMetric \<Rightarrow> PreparedFlowPath list \<Rightarrow> (jsstr \<times> DashboardFlowLink) list" where
  "linkMap color metric ps =
     foldl (\<lambda>m (p, a, b). addLink m a b (pp_metrics p) metric (color (root_id p)) (root_id p)) [] (linkSteps ps)"

lemma addPath_fold:
  assumes "\<forall>p \<in> set ps. pp_path p \<noteq> []"
  shows "foldl (addPath env colors palette metric) (m, l) ps =
    (foldl (\<lambda>m p. foldl (\<lambda>m n. addNode m n (pp_metrics p) metric (rootColor env colors palette (root_id p)) (root_id p)) m (pp_path p)) m ps,
     foldl (\<lambda>l p. foldl (\<lambda>l (a, b). addLink l a b (pp_metrics p) metric (rootColor env colors palette (root_id p)) (root_id p)) l
       (path_pairs (pp_path p))) l ps)"
  using assms
proof (induction ps arbitrary: m l)
  case (Cons p ps)
  then obtain r rs where "pp_path p = r # rs" by (cases "pp_path p") auto
  with Cons show ?case by (simp add: addPath_def Let_def)
qed simp

lemma added_maps:
  assumes "\<forall>p \<in> set ps. pp_path p \<noteq> []"
  shows "foldl (addPath env colors palette metric) ([], []) ps =
    (nodeMap (rootColor env colors palette) metric ps, linkMap (rootColor env colors palette) metric ps)"
  unfolding addPath_fold [OF assms] nodeMap_def linkMap_def nodeSteps_def linkSteps_def foldl_nested
  by (simp add: case_prod_unfold)

text \<open>A step contributes its metric; the entries are keyed by identifier and by link key.\<close>

abbreviation step_value :: "FlowMetric \<Rightarrow> PreparedFlowPath \<Rightarrow> rat" where
  "step_value metric p \<equiv> metricValue (pp_metrics p) metric"

definition newNode :: "(jsstr \<Rightarrow> jsstr) \<Rightarrow> PreparedFlowPath \<times> FlowPathNode \<Rightarrow> DashboardFlowNode" where
  "newNode color x = \<lparr>dn_id = pn_id (snd x), dn_label = pn_label (snd x), dn_kind = pn_kind (snd x), dn_value = 0,
        dn_requests = 0, dn_quota = 0, dn_tokens = 0, dn_color = color (root_id (fst x)), dn_colorKey = root_id (fst x),
        dn_highlighted = None, dn_dimmed = None\<rparr>"

definition bumpNode :: "FlowMetric \<Rightarrow> PreparedFlowPath \<Rightarrow> DashboardFlowNode \<Rightarrow> DashboardFlowNode" where
  "bumpNode metric p n = n\<lparr>dn_value := dn_value n + step_value metric p,
          dn_requests := dn_requests n + fm_requests (pp_metrics p),
          dn_quota := dn_quota n + fm_quota (pp_metrics p),
          dn_tokens := dn_tokens n + fm_tokens (pp_metrics p)\<rparr>"

abbreviation step_key :: "PreparedFlowPath \<times> FlowPathNode \<times> FlowPathNode \<Rightarrow> jsstr" where
  "step_key x \<equiv> pathLinkKey (fst (snd x)) (snd (snd x))"

definition newLink :: "(jsstr \<Rightarrow> jsstr) \<Rightarrow> PreparedFlowPath \<times> FlowPathNode \<times> FlowPathNode \<Rightarrow> DashboardFlowLink" where
  "newLink color x = (let c = color (root_id (fst x)); a = fst (snd x); b = snd (snd x) in
       \<lparr>dl_source = pn_id a, dl_target = pn_id b, dl_value = 0, dl_requests = 0, dl_quota = 0,
        dl_tokens = 0, dl_sourceLabel = pn_label a, dl_targetLabel = pn_label b, dl_color = c,
        dl_linkColor = c, dl_linkAlpha = 1, dl_hoverColor = c, dl_colorKey = root_id (fst x), dl_share = 0,
        dl_highlighted = None, dl_dimmed = None\<rparr>)"

definition bumpLink :: "FlowMetric \<Rightarrow> PreparedFlowPath \<Rightarrow> DashboardFlowLink \<Rightarrow> DashboardFlowLink" where
  "bumpLink metric p l = l\<lparr>dl_value := dl_value l + step_value metric p,
          dl_requests := dl_requests l + fm_requests (pp_metrics p),
          dl_quota := dl_quota l + fm_quota (pp_metrics p),
          dl_tokens := dl_tokens l + fm_tokens (pp_metrics p)\<rparr>"

lemma nodeMap_upserts:
  "nodeMap color metric ps =
     foldl (\<lambda>m x. upsert (pn_id (snd x)) (newNode color x) (bumpNode metric (fst x)) m) [] (nodeSteps ps)"
  unfolding nodeMap_def addNode_def newNode_def bumpNode_def [abs_def] case_prod_unfold ..

lemma linkMap_upserts:
  "linkMap color metric ps =
     foldl (\<lambda>m x. upsert (step_key x) (newLink color x) (bumpLink metric (fst x)) m) [] (linkSteps ps)"
  unfolding linkMap_def addLink_def newLink_def bumpLink_def [abs_def] case_prod_unfold Let_def ..

lemma nodeMap_sum:
  "(\<Sum>(i, n) \<leftarrow> nodeMap color metric ps. if Q i then dn_value n else 0) =
   (\<Sum>x \<leftarrow> nodeSteps ps. if Q (pn_id (snd x)) then step_value metric (fst x) else 0)"
  unfolding nodeMap_upserts
  by (subst upserts_sum [where c = "\<lambda>x. step_value metric (fst x)"]) (simp_all add: newNode_def bumpNode_def)

lemma linkMap_sum:
  "(\<Sum>(i, l) \<leftarrow> linkMap color metric ps. if Q i then dl_value l else 0) =
   (\<Sum>x \<leftarrow> linkSteps ps. if Q (step_key x) then step_value metric (fst x) else 0)"
  unfolding linkMap_upserts
  by (subst upserts_sum [where c = "\<lambda>x. step_value metric (fst x)"]) (simp_all add: newLink_def bumpLink_def Let_def)

lemma nodeMap_wf: "wf_map (nodeMap color metric ps)"
  by (simp add: nodeMap_upserts upserts_keys distinct_foldl_set_add)

lemma linkMap_wf: "wf_map (linkMap color metric ps)"
  by (simp add: linkMap_upserts upserts_keys distinct_foldl_set_add)

lemma nodeMap_keys: "set (keys_of (nodeMap color metric ps)) = (\<Union>p \<in> set ps. pn_id ` set (pp_path p))"
  by (simp add: nodeMap_upserts upserts_keys set_foldl_set_add nodeSteps_def image_UN image_image)

lemma linkMap_keys:
  "set (keys_of (linkMap color metric ps)) = (\<Union>p \<in> set ps. (\<lambda>(a, b). pathLinkKey a b) ` set (path_pairs (pp_path p)))"
  by (simp add: linkMap_upserts upserts_keys set_foldl_set_add linkSteps_def image_UN image_image case_prod_unfold)

lemma nodeMap_entry:
  assumes "wf_prepared stages ps" "(i, n) \<in> set (nodeMap color metric ps)"
  shows "dn_id n = i" "starts_with i (kind_prefix (dn_kind n))" "dn_kind n \<in> set stages"
proof -
  have kind: "pn_kind x \<in> set stages" if "p \<in> set ps" "x \<in> set (pp_path p)" for p x
    using wf_prepared_path(2) [OF assms(1) that(1)] that(2) by auto
  have "\<forall>(i, n) \<in> set (nodeMap color metric ps). dn_id n = i \<and> starts_with i (kind_prefix (dn_kind n)) \<and> dn_kind n \<in> set stages"
    unfolding nodeMap_upserts
    by (rule upserts_inv)
      (use wf_prepared_path(5) [OF assms(1)] kind in \<open>auto simp: nodeSteps_def wf_node_def newNode_def bumpNode_def\<close>)
  with assms(2) show "dn_id n = i" "starts_with i (kind_prefix (dn_kind n))" "dn_kind n \<in> set stages" by auto
qed

text \<open>Without U+0000 in the identifiers the key of a link determines its two ends.\<close>

definition nul_prepared :: "PreparedFlowPath list \<Rightarrow> bool" where
  "nul_prepared ps \<longleftrightarrow> (\<forall>p \<in> set ps. \<forall>n \<in> set (pp_path p). 0 \<notin> set (pn_id n))"

definition key_source :: "jsstr \<Rightarrow> jsstr" where
  "key_source k = takeWhile (\<lambda>c. c \<noteq> 0) k"

definition key_target :: "jsstr \<Rightarrow> jsstr" where
  "key_target k = drop 1 (dropWhile (\<lambda>c. c \<noteq> 0) k)"

lemma key_ends:
  assumes "0 \<notin> set a"
  shows "key_source (a @ [0] @ b) = a" "key_target (a @ [0] @ b) = b"
proof -
  have "takeWhile (\<lambda>c. c \<noteq> 0) (a @ 0 # b) = a" "dropWhile (\<lambda>c. c \<noteq> 0) (a @ 0 # b) = 0 # b"
    using assms by (induction a) auto
  then show "key_source (a @ [0] @ b) = a" "key_target (a @ [0] @ b) = b"
    by (simp_all add: key_source_def key_target_def)
qed

lemma linkMap_entry:
  assumes "(k, l) \<in> set (linkMap color metric ps)"
  shows "linkStableKey l = k"
    and "nul_prepared ps \<Longrightarrow> dl_source l = key_source k \<and> dl_target l = key_target k"
proof -
  have "\<forall>(k, l) \<in> set (linkMap color metric ps). linkStableKey l = k \<and>
      dl_source l \<in> (\<Union>p \<in> set ps. pn_id ` set (pp_path p))"
    unfolding linkMap_upserts
    by (rule upserts_inv) (auto simp: linkSteps_def newLink_def bumpLink_def linkStableKey_def pathLinkKey_def Let_def
        dest!: set_zip_leftD intro!: bexI imageI)
  with assms have l: "linkStableKey l = k" "dl_source l \<in> (\<Union>p \<in> set ps. pn_id ` set (pp_path p))" by auto
  then show "linkStableKey l = k" by simp
  assume "nul_prepared ps"
  with l(2) have "0 \<notin> set (dl_source l)" by (auto simp: nul_prepared_def)
  with l(1) show "dl_source l = key_source k \<and> dl_target l = key_target k"
    by (auto simp: linkStableKey_def key_ends simp del: append_Cons)
qed

section \<open>Sums over the columns\<close>

lemma sum_concat: "(\<Sum>x \<leftarrow> concat (map h ps). f x) = (\<Sum>p \<leftarrow> ps. \<Sum>x \<leftarrow> h p. (f x :: 'b :: comm_monoid_add))"
  by (induction ps) simp_all

lemma sum_distinct_hit:
  "distinct (map f xs) \<Longrightarrow>
     (\<Sum>x \<leftarrow> xs. if f x = k then c else (0 :: 'b :: comm_monoid_add)) = (if k \<in> f ` set xs then c else 0)"
proof (induction xs)
  case (Cons x xs)
  then show ?case by (cases "f x = k") auto
qed simp

lemma sum_steps_nodes:
  "(\<Sum>x \<leftarrow> nodeSteps ps. g (fst x) (snd x)) = (\<Sum>p \<leftarrow> ps. \<Sum>n \<leftarrow> pp_path p. (g p n :: 'b :: comm_monoid_add))"
  by (simp add: nodeSteps_def sum_concat comp_def)

lemma sum_steps_links:
  "(\<Sum>x \<leftarrow> linkSteps ps. g (fst x) (fst (snd x)) (snd (snd x))) =
     (\<Sum>p \<leftarrow> ps. \<Sum>(a, b) \<leftarrow> path_pairs (pp_path p). (g p a b :: 'b :: comm_monoid_add))"
  by (simp add: linkSteps_def sum_concat comp_def case_prod_unfold)

lemma pairs_sources: "map fst (path_pairs path) = butlast path"
  by (simp add: map_fst_zip_take butlast_conv_take)

lemma pairs_targets: "map snd (path_pairs path) = tl path"
  by (cases path) (simp_all add: map_snd_zip_take)

lemma sum_pairs_source: "(\<Sum>(a, b) \<leftarrow> path_pairs path. h a) = (\<Sum>a \<leftarrow> butlast path. (h a :: 'b :: comm_monoid_add))"
proof -
  have "(\<Sum>a \<leftarrow> butlast path. h a) = (\<Sum>a \<leftarrow> map fst (path_pairs path). h a)" by (simp only: pairs_sources)
  then show ?thesis by (simp add: case_prod_unfold comp_def)
qed

lemma sum_pairs_target: "(\<Sum>(a, b) \<leftarrow> path_pairs path. h b) = (\<Sum>a \<leftarrow> tl path. (h a :: 'b :: comm_monoid_add))"
proof -
  have "(\<Sum>a \<leftarrow> tl path. h a) = (\<Sum>a \<leftarrow> map snd (path_pairs path). h a)" by (simp only: pairs_targets)
  then show ?thesis by (simp add: case_prod_unfold comp_def)
qed

text \<open>The whole of the metric over the prepared paths.\<close>

definition grandTotal :: "FlowMetric \<Rightarrow> PreparedFlowPath list \<Rightarrow> rat" where
  "grandTotal metric ps = (\<Sum>p \<leftarrow> ps. step_value metric p)"

lemma hit_kind:
  assumes "map pn_kind path = stages" "distinct stages" "\<forall>n \<in> set path. wf_node n"
  shows "(\<Sum>n \<leftarrow> path. if starts_with (pn_id n) (kind_prefix k) then c else (0 :: 'b :: comm_monoid_add)) =
    (if k \<in> set stages then c else 0)"
proof -
  have "starts_with (pn_id n) (kind_prefix k) \<longleftrightarrow> pn_kind n = k" if "n \<in> set path" for n
    using assms(3) that unfolding wf_node_def by (metis kind_prefix_inj)
  then have "(\<Sum>n \<leftarrow> path. if starts_with (pn_id n) (kind_prefix k) then c else 0) =
      (\<Sum>n \<leftarrow> path. if pn_kind n = k then c else 0)"
    by (intro arg_cong [where f = sum_list] map_cong) auto
  also have "\<dots> = (if k \<in> pn_kind ` set path then c else 0)"
    using assms by (simp add: sum_distinct_hit)
  finally show ?thesis using assms(1) by (metis set_map)
qed

lemma column_total:
  assumes "wf_prepared stages ps" and "k \<in> set stages"
  shows "(\<Sum>(i, n) \<leftarrow> nodeMap color metric ps. if starts_with i (kind_prefix k) then dn_value n else 0) = grandTotal metric ps"
proof -
  have "(\<Sum>n \<leftarrow> pp_path p. if starts_with (pn_id n) (kind_prefix k) then step_value metric p else 0) = step_value metric p"
    if "p \<in> set ps" for p
    using wf_prepared_path [OF assms(1) that] assms by (subst hit_kind [of _ stages]) (auto simp: wf_prepared_def)
  then show ?thesis
    unfolding nodeMap_sum sum_steps_nodes [of "\<lambda>p n. if starts_with (pn_id n) (kind_prefix k) then step_value metric p else 0"]
      grandTotal_def
    by (intro arg_cong [where f = sum_list] map_cong) auto
qed

lemma outflow_total:
  assumes "wf_prepared stages ps" "nul_prepared ps" and "k \<in> set (butlast stages)"
  shows "(\<Sum>(i, l) \<leftarrow> linkMap color metric ps. if starts_with (key_source i) (kind_prefix k) then dl_value l else 0) =
    grandTotal metric ps"
proof -
  have "(\<Sum>(a, b) \<leftarrow> path_pairs (pp_path p). if starts_with (key_source (pathLinkKey a b)) (kind_prefix k)
      then step_value metric p else 0) = step_value metric p" if p: "p \<in> set ps" for p
  proof -
    note w = wf_prepared_path [OF assms(1) p]
    have "(\<Sum>(a, b) \<leftarrow> path_pairs (pp_path p). if starts_with (key_source (pathLinkKey a b)) (kind_prefix k)
        then step_value metric p else 0) =
      (\<Sum>(a, b) \<leftarrow> path_pairs (pp_path p). if starts_with (pn_id a) (kind_prefix k) then step_value metric p else 0)"
      using assms(2) p
      by (intro arg_cong [where f = sum_list] map_cong)
        (auto simp: pathLinkKey_def key_ends nul_prepared_def simp del: append_Cons dest: set_zip_leftD)
    also have "\<dots> = (if k \<in> set (butlast stages) then step_value metric p else 0)"
      unfolding sum_pairs_source
      by (rule hit_kind) (use w assms in \<open>auto simp: wf_prepared_def map_butlast distinct_butlast dest: in_set_butlastD\<close>)
    finally show ?thesis using assms(3) by simp
  qed
  then show ?thesis
    unfolding linkMap_sum grandTotal_def
      sum_steps_links [of "\<lambda>p a b. if starts_with (key_source (pathLinkKey a b)) (kind_prefix k) then step_value metric p else 0"]
    by (intro arg_cong [where f = sum_list] map_cong) auto
qed

text \<open>What one identifier carries: as a node, as the source and as the target of links.\<close>

definition through :: "FlowMetric \<Rightarrow> PreparedFlowPath list \<Rightarrow> jsstr \<Rightarrow> rat" where
  "through metric ps i = (\<Sum>p \<leftarrow> ps. if i \<in> pn_id ` set (pp_path p) then step_value metric p else 0)"

lemma nodeMap_value:
  assumes "wf_prepared stages ps" and "(i, n) \<in> set (nodeMap color metric ps)"
  shows "dn_value n = through metric ps i"
proof -
  have "dn_value n = (\<Sum>(j, n) \<leftarrow> nodeMap color metric ps. if j = i then dn_value n else 0)"
    by (rule sum_entry [OF nodeMap_wf assms(2), symmetric])
  also have "\<dots> = (\<Sum>p \<leftarrow> ps. \<Sum>n \<leftarrow> pp_path p. if pn_id n = i then step_value metric p else 0)"
    unfolding nodeMap_sum [of "\<lambda>j. j = i"] by (rule sum_steps_nodes)
  also have "\<dots> = through metric ps i"
    unfolding through_def using wf_prepared_path(1) [OF assms(1)]
    by (intro arg_cong [where f = sum_list] map_cong) (simp_all add: sum_distinct_hit)
  finally show ?thesis .
qed

lemma butlast_hit:
  assumes "map pn_kind path = stages" "distinct stages" "\<forall>n \<in> set path. wf_node n"
    and "starts_with i (kind_prefix k)" and "k \<in> set (butlast stages)"
  shows "i \<in> pn_id ` set (butlast path) \<longleftrightarrow> i \<in> pn_id ` set path"
proof
  assume "i \<in> pn_id ` set path"
  then obtain n where n: "n \<in> set path" "pn_id n = i" by auto
  then have "pn_kind n = k" using assms(3,4) unfolding wf_node_def by (metis kind_prefix_inj)
  moreover have "path \<noteq> []" using n by auto
  moreover from this have "path = butlast path @ [last path]" by simp
  moreover have "k \<noteq> pn_kind (last path)"
    using assms(1,2,5) \<open>path \<noteq> []\<close>
    by (metis append_butlast_last_id distinct.simps(2) distinct1_rotate last_map list.map_disc_iff rotate1.simps(2)
        not_distinct_conv_prefix butlast.simps(1))
  ultimately have "n \<in> set (butlast path)" using n(1) by (metis in_set_conv_decomp set_ConsD Un_iff set_append empty_set emptyE list.set(2) insert_iff)
  with n show "i \<in> pn_id ` set (butlast path)" by auto
qed (auto dest: in_set_butlastD)

lemma tl_hit:
  assumes "map pn_kind path = stages" "distinct stages" "\<forall>n \<in> set path. wf_node n"
    and "starts_with i (kind_prefix k)" and "k \<in> set (tl stages)"
  shows "i \<in> pn_id ` set (tl path) \<longleftrightarrow> i \<in> pn_id ` set path"
proof (cases path)
  case (Cons r rest)
  have "pn_id r \<noteq> i"
  proof
    assume "pn_id r = i"
    then have "pn_kind r = k" using assms(3,4) Cons unfolding wf_node_def by (metis kind_prefix_inj list.set_intros(1))
    with assms(1,2,5) Cons show False by auto
  qed
  with Cons show ?thesis by auto
qed simp

lemma outflow_node:
  assumes "wf_prepared stages ps" "nul_prepared ps" "starts_with i (kind_prefix k)" "k \<in> set (butlast stages)"
  shows "(\<Sum>(j, l) \<leftarrow> linkMap color metric ps. if key_source j = i then dl_value l else 0) = through metric ps i"
proof -
  have "(\<Sum>(a, b) \<leftarrow> path_pairs (pp_path p). if key_source (pathLinkKey a b) = i then step_value metric p else 0) =
      (if i \<in> pn_id ` set (pp_path p) then step_value metric p else 0)" if p: "p \<in> set ps" for p
  proof -
    note w = wf_prepared_path [OF assms(1) p]
    have "(\<Sum>(a, b) \<leftarrow> path_pairs (pp_path p). if key_source (pathLinkKey a b) = i then step_value metric p else 0) =
      (\<Sum>(a, b) \<leftarrow> path_pairs (pp_path p). if pn_id a = i then step_value metric p else 0)"
      using assms(2) p
      by (intro arg_cong [where f = sum_list] map_cong)
        (auto simp: pathLinkKey_def key_ends nul_prepared_def simp del: append_Cons dest: set_zip_leftD)
    also have "\<dots> = (if i \<in> pn_id ` set (butlast (pp_path p)) then step_value metric p else 0)"
      unfolding sum_pairs_source using w(1) by (intro sum_distinct_hit) (simp add: map_butlast distinct_butlast)
    also have "\<dots> = (if i \<in> pn_id ` set (pp_path p) then step_value metric p else 0)"
      using butlast_hit [OF w(2) _ _ assms(3,4)] w(5) assms(1) by (simp add: wf_prepared_def)
    finally show ?thesis .
  qed
  then show ?thesis
    unfolding linkMap_sum [of "\<lambda>j. key_source j = i"] through_def
      sum_steps_links [of "\<lambda>p a b. if key_source (pathLinkKey a b) = i then step_value metric p else 0"]
    by (intro arg_cong [where f = sum_list] map_cong) auto
qed

lemma inflow_node:
  assumes "wf_prepared stages ps" "nul_prepared ps" "starts_with i (kind_prefix k)" "k \<in> set (tl stages)"
  shows "(\<Sum>(j, l) \<leftarrow> linkMap color metric ps. if key_target j = i then dl_value l else 0) = through metric ps i"
proof -
  have "(\<Sum>(a, b) \<leftarrow> path_pairs (pp_path p). if key_target (pathLinkKey a b) = i then step_value metric p else 0) =
      (if i \<in> pn_id ` set (pp_path p) then step_value metric p else 0)" if p: "p \<in> set ps" for p
  proof -
    note w = wf_prepared_path [OF assms(1) p]
    have "(\<Sum>(a, b) \<leftarrow> path_pairs (pp_path p). if key_target (pathLinkKey a b) = i then step_value metric p else 0) =
      (\<Sum>(a, b) \<leftarrow> path_pairs (pp_path p). if pn_id b = i then step_value metric p else 0)"
      using assms(2) p
      by (intro arg_cong [where f = sum_list] map_cong)
        (auto simp: pathLinkKey_def key_ends nul_prepared_def simp del: append_Cons dest: set_zip_leftD)
    also have "\<dots> = (if i \<in> pn_id ` set (tl (pp_path p)) then step_value metric p else 0)"
      unfolding sum_pairs_target using w(1) by (intro sum_distinct_hit) (simp add: map_tl distinct_tl)
    also have "\<dots> = (if i \<in> pn_id ` set (pp_path p) then step_value metric p else 0)"
      using tl_hit [OF w(2) _ _ assms(3,4)] w(5) assms(1) by (simp add: wf_prepared_def)
    finally show ?thesis .
  qed
  then show ?thesis
    unfolding linkMap_sum [of "\<lambda>j. key_target j = i"] through_def
      sum_steps_links [of "\<lambda>p a b. if key_target (pathLinkKey a b) = i then step_value metric p else 0"]
    by (intro arg_cong [where f = sum_list] map_cong) auto
qed

section \<open>The finished graph\<close>

text \<open>What masking, highlighting, colouring and sorting leave alone.\<close>

definition coreNode :: "DashboardFlowNode \<Rightarrow> DashboardFlowNode" where
  "coreNode n = n\<lparr>dn_label := [], dn_highlighted := None, dn_dimmed := None\<rparr>"

definition coreLink :: "DashboardFlowLink \<Rightarrow> DashboardFlowLink" where
  "coreLink l = l\<lparr>dl_sourceLabel := [], dl_targetLabel := [], dl_linkColor := [], dl_linkAlpha := 0,
     dl_hoverColor := [], dl_share := 0, dl_highlighted := None, dl_dimmed := None\<rparr>"

lemma coreNode_fields [simp]:
  "dn_id (coreNode n) = dn_id n" "dn_kind (coreNode n) = dn_kind n" "dn_value (coreNode n) = dn_value n"
  by (simp_all add: coreNode_def)

lemma coreLink_fields [simp]:
  "dl_source (coreLink l) = dl_source l" "dl_target (coreLink l) = dl_target l" "dl_value (coreLink l) = dl_value l"
  by (simp_all add: coreLink_def)

lemma core_mask:
  "map (\<lambda>(k, n). (k, coreNode n)) (fst (maskFlowGraphLabels nodes links)) = map (\<lambda>(k, n). (k, coreNode n)) nodes"
  "map (\<lambda>(k, l). (k, coreLink l)) (snd (maskFlowGraphLabels nodes links)) = map (\<lambda>(k, l). (k, coreLink l)) links"
  by (auto simp: maskFlowGraphLabels_def Let_def coreNode_def coreLink_def maskLinkLabels_def)

lemma core_highlight:
  "map (\<lambda>(k, n). (k, coreNode n)) (fst (applyFlowHighlights nodes links sets)) = map (\<lambda>(k, n). (k, coreNode n)) nodes"
  "map (\<lambda>(k, l). (k, coreLink l)) (snd (applyFlowHighlights nodes links sets)) = map (\<lambda>(k, l). (k, coreLink l)) links"
  by (auto simp: applyFlowHighlights_def Let_def coreNode_def coreLink_def highlightNode_def highlightLink_def
      split: option.splits)

lemma core_assign: "map coreLink (assignLinkDisplayColors env links) = map coreLink links"
  by (auto simp: assignLinkDisplayColors_def Let_def coreLink_def split: option.splits)

definition markedMaps :: "FlowEnv \<Rightarrow> FlowMetric \<Rightarrow> jsstr list option \<Rightarrow> FlowNodeKind list \<Rightarrow> FlowGraphOptions \<Rightarrow>
    PreparedFlowPath list \<Rightarrow> (jsstr \<times> DashboardFlowNode) list \<times> (jsstr \<times> DashboardFlowLink) list" where
  "markedMaps env metric palette stages options ps =
     (let colors = stableColorMap env (js_sort (env_localeCompare env) (rootIds ps)) palette;
          added = foldl (addPath env colors palette metric) ([], []) ps;
          masked = (if go_maskSensitive options = Some True then maskFlowGraphLabels (fst added) (snd added) else added)
      in applyFlowHighlights (fst masked) (snd masked)
           (buildFlowHighlightSets ps (go_activeNode options) (go_activeLink options) stages))"

definition linkTotal :: "PreparedFlowPath list \<Rightarrow> DashboardFlowLink list \<Rightarrow> rat" where
  "linkTotal ps links = (\<Sum>link \<leftarrow> filter (\<lambda>link. dl_source link \<in> set (rootIds ps)) links. dl_value link)"

abbreviation withShare :: "rat \<Rightarrow> DashboardFlowLink \<Rightarrow> DashboardFlowLink" where
  "withShare t link \<equiv> link\<lparr>dl_share := (if t > 0 then dl_value link / t else 0)\<rparr>"

definition linkOrder :: "FlowEnv \<Rightarrow> DashboardFlowLink cmp" where
  "linkOrder env = cmp_or (cmp_key dl_source (env_localeCompare env)) (cmp_key dl_target (env_localeCompare env))"

lemma buildFlowGraph_eq:
  assumes "stages = resolveVisibleStages role visibleStages" and "ps = preparePaths env rows metric stages ctx options"
    and "marked = markedMaps env metric palette stages options ps"
    and "flowLinks = js_sort (linkOrder env) (map snd (snd marked))"
  shows "buildFlowGraph env rows metric role palette visibleStages ctx options =
    \<lparr>fg_nodes = js_sort (byValueThenLabel env) (map snd (fst marked)),
     fg_links = assignLinkDisplayColors env (map (withShare (linkTotal ps flowLinks)) flowLinks)\<rparr>"
  unfolding assms buildFlowGraph_def markedMaps_def linkTotal_def linkOrder_def Let_def by (simp only: set_set_of)

lemma snd_cores:
  "map (\<lambda>(k, n). (k, f n)) xs = map (\<lambda>(k, n). (k, f n)) ys \<Longrightarrow> map (\<lambda>x. f (snd x)) xs = map (\<lambda>x. f (snd x)) ys"
  by (drule arg_cong [where f = "map snd"]) (simp add: comp_def case_prod_unfold)

lemma marked_core:
  assumes "wf_prepared stages ps"
  obtains color where
    "map (\<lambda>x. coreNode (snd x)) (fst (markedMaps env metric palette stages' options ps)) =
       map (\<lambda>x. coreNode (snd x)) (nodeMap color metric ps)"
    "map (\<lambda>x. coreLink (snd x)) (snd (markedMaps env metric palette stages' options ps)) =
       map (\<lambda>x. coreLink (snd x)) (linkMap color metric ps)"
proof -
  let ?color = "rootColor env (stableColorMap env (js_sort (env_localeCompare env) (rootIds ps)) palette) palette"
  have ne: "\<forall>p \<in> set ps. pp_path p \<noteq> []" using wf_prepared_path(4) [OF assms] by blast
  show ?thesis
    by (rule that [of ?color]; rule snd_cores; simp add: markedMaps_def Let_def added_maps [OF ne] core_highlight core_mask)
qed

lemma mset_core_links:
  "mset (map coreLink (fg_links (buildFlowGraph env rows metric role palette visibleStages ctx options))) =
   mset (map (\<lambda>x. coreLink (snd x)) (snd (markedMaps env metric palette (resolveVisibleStages role visibleStages) options
     (preparePaths env rows metric (resolveVisibleStages role visibleStages) ctx options))))"
proof -
  have share: "map coreLink (map (withShare t) links) = map coreLink links" for t links
    by (simp add: coreLink_def)
  show ?thesis
    unfolding buildFlowGraph_eq [OF refl refl refl refl]
    by (simp only: DashboardFlowGraph.simps core_assign share mset_map mset_js_sort) (simp add: multiset.map_comp comp_def)
qed

lemma mset_core_nodes:
  "mset (map coreNode (fg_nodes (buildFlowGraph env rows metric role palette visibleStages ctx options))) =
   mset (map (\<lambda>x. coreNode (snd x)) (fst (markedMaps env metric palette (resolveVisibleStages role visibleStages) options
     (preparePaths env rows metric (resolveVisibleStages role visibleStages) ctx options))))"
  unfolding buildFlowGraph_eq [OF refl refl refl refl]
  by (simp only: DashboardFlowGraph.simps mset_map mset_js_sort) (simp add: multiset.map_comp comp_def)

text \<open>The nodes and links of the graph, up to display, are the entries of the two loops.\<close>

lemma graph_core:
  assumes "ps = preparePaths env rows metric (resolveVisibleStages role visibleStages) ctx options"
    and "g = buildFlowGraph env rows metric role palette visibleStages ctx options"
  obtains color where
    "mset (map coreNode (fg_nodes g)) = mset (map (\<lambda>x. coreNode (snd x)) (nodeMap color metric ps))"
    "mset (map coreLink (fg_links g)) = mset (map (\<lambda>x. coreLink (snd x)) (linkMap color metric ps))"
proof -
  obtain color where
    color: "map (\<lambda>x. coreNode (snd x)) (fst (markedMaps env metric palette (resolveVisibleStages role visibleStages) options ps)) =
       map (\<lambda>x. coreNode (snd x)) (nodeMap color metric ps)"
    "map (\<lambda>x. coreLink (snd x)) (snd (markedMaps env metric palette (resolveVisibleStages role visibleStages) options ps)) =
       map (\<lambda>x. coreLink (snd x)) (linkMap color metric ps)"
    using marked_core [OF preparePaths_wf] unfolding assms(1) by blast
  show ?thesis
    by (rule that [of color]; unfold assms(2) mset_core_nodes mset_core_links assms(1) [symmetric] color) (rule refl)+
qed

lemma sum_core:
  assumes "mset (map c xs) = mset (map (\<lambda>x. c (snd x)) m)" and "\<And>x. f (c x) = (f x :: 'b :: comm_monoid_add)"
  shows "(\<Sum>x \<leftarrow> xs. f x) = (\<Sum>(k, v) \<leftarrow> m. f v)"
proof -
  have "(\<Sum>x \<leftarrow> xs. f x) = (\<Sum>x \<leftarrow> map c xs. f x)" by (simp add: assms(2) comp_def)
  also have "\<dots> = (\<Sum>x \<leftarrow> map (\<lambda>x. c (snd x)) m. f x)"
    by (simp only: sum_mset_sum_list [symmetric] mset_map [of f] assms(1))
  also have "\<dots> = (\<Sum>(k, v) \<leftarrow> m. f v)" by (simp add: assms(2) comp_def case_prod_unfold)
  finally show ?thesis .
qed

lemma core_member:
  assumes "mset (map c xs) = mset (map (\<lambda>x. c (snd x)) m)" and "x \<in> set xs"
  obtains k v where "(k, v) \<in> set m" "c x = c v"
proof -
  have "c x \<in> set (map (\<lambda>x. c (snd x)) m)" using assms by (metis image_eqI list.set_map set_mset_mset)
  then show ?thesis using that by auto
qed

section \<open>Totals and shares\<close>

lemma preparePaths_nul:
  assumes "\<forall>row \<in> set rows. nul_free row"
  shows "nul_prepared (preparePaths env rows metric stages ctx options)"
  using assms
  by (auto simp: nul_prepared_def preparePaths_eq preparedPath_def flowPathForStages_def limitNode_def
      other_nul builder_nul split: if_splits)

lemma grandTotal_rows:
  assumes "go_overflowMode options \<noteq> Some Hide"
  shows "grandTotal metric (preparePaths env rows metric stages ctx options) = (\<Sum>row \<leftarrow> rows. metricValue (rowMetrics row) metric)"
proof -
  have "overflow_mode options \<noteq> Hide"
    using assms by (auto simp: DEFAULT_FLOW_OVERFLOW_MODE_def split: option.splits)
  then show ?thesis
    by (simp add: grandTotal_def preparePaths_eq keptRow_def [abs_def] preparedPath_def comp_def)
qed

fun summaryValue :: "FlowSummary \<Rightarrow> FlowMetric \<Rightarrow> rat" where
  "summaryValue s MQuota = su_quota s"
| "summaryValue s MTokens = su_tokens s"
| "summaryValue s MRequests = su_requests s"

lemma buildSummary_value: "summaryValue (buildSummary rows) metric = (\<Sum>row \<leftarrow> rows. metricValue (rowMetrics row) metric)"
proof -
  have "summaryValue (foldl (\<lambda>summary row. (let metrics = rowMetrics row in
        \<lparr>su_quota = su_quota summary + fm_quota metrics, su_tokens = su_tokens summary + fm_tokens metrics,
         su_requests = su_requests summary + fm_requests metrics\<rparr>)) s rows) metric =
      summaryValue s metric + (\<Sum>row \<leftarrow> rows. metricValue (rowMetrics row) metric)" for s
    by (induction rows arbitrary: s) (cases metric; simp add: Let_def)+
  then show ?thesis by (cases metric) (simp_all add: buildSummary_def)
qed

lemma rootIds_set:
  assumes "wf_prepared stages ps"
  shows "set (rootIds ps) = root_id ` set ps"
proof -
  have "(case pp_path p of [] \<Rightarrow> None | rt # _ \<Rightarrow> Some (pn_id rt)) = Some (root_id p)" "root_id p \<noteq> []" if "p \<in> set ps" for p
    using wf_prepared_path(4,5) [OF assms that] id_nonempty [of "hd (pp_path p)"] by (auto split: list.split)
  then have "List.map_filter (\<lambda>p. case pp_path p of [] \<Rightarrow> None | rt # _ \<Rightarrow> Some (pn_id rt)) ps = map root_id ps"
    and "\<forall>p \<in> set ps. root_id p \<noteq> []"
    by (induction ps) (auto simp: map_filter_simps)
  then show ?thesis by (auto simp: rootIds_def)
qed

lemma root_source:
  assumes "wf_prepared stages ps" "nul_prepared ps" "(k, l) \<in> set (linkMap color metric ps)"
  shows "dl_source l \<in> set (rootIds ps) \<longleftrightarrow> starts_with (key_source k) (kind_prefix (hd stages))"
proof -
  have src: "dl_source l = key_source k" using linkMap_entry(2) [OF assms(3,2)] by simp
  have "k \<in> set (keys_of (linkMap color metric ps))" using assms(3) by force
  then obtain p a b where p: "p \<in> set ps" "(a, b) \<in> set (path_pairs (pp_path p))" "k = pathLinkKey a b"
    unfolding linkMap_keys by auto
  note w = wf_prepared_path [OF assms(1)]
  have a: "a \<in> set (pp_path p)" "key_source k = pn_id a"
    using p assms(2) by (auto simp: pathLinkKey_def key_ends nul_prepared_def simp del: append_Cons dest: set_zip_leftD)
  have hd_kind: "pn_kind (hd (pp_path q)) = hd stages" "wf_node (hd (pp_path q))" if "q \<in> set ps" for q
    using w(2,4,5) [OF that] by (auto simp: hd_map)
  have "pn_id a \<in> root_id ` set ps" if "starts_with (pn_id a) (kind_prefix (hd stages))"
  proof -
    have "pn_kind a = hd stages" using w(5) [OF p(1) a(1)] that unfolding wf_node_def by (metis kind_prefix_inj)
    then have "a = hd (pp_path p)"
      using w(2,4) [OF p(1)] a(1) hd_kind [OF p(1)] assms(1) unfolding wf_prepared_def
      by (metis distinct_map hd_in_set inj_onD)
    with p(1) show ?thesis by auto
  qed
  moreover have "starts_with (root_id q) (kind_prefix (hd stages))" if "q \<in> set ps" for q
    using hd_kind [OF that] unfolding wf_node_def by simp
  ultimately show ?thesis unfolding src a(2) rootIds_set [OF assms(1)] by auto
qed

lemma sum_entries_cong:
  "(\<And>k v. (k, v) \<in> set m \<Longrightarrow> f k v = g k v) \<Longrightarrow> (\<Sum>(k, v) \<leftarrow> m. f k v) = (\<Sum>(k, v) \<leftarrow> m. g k v)"
  by (intro arg_cong [where f = sum_list] map_cong) auto

lemma sum_filter_if: "(\<Sum>x \<leftarrow> filter P xs. f x) = (\<Sum>x \<leftarrow> xs. if P x then f x else (0 :: 'b :: comm_monoid_add))"
  by (induction xs) simp_all

lemma linkTotal_grand:
  assumes "wf_prepared stages ps" "nul_prepared ps"
    and core: "mset (map coreLink links) = mset (map (\<lambda>x. coreLink (snd x)) (linkMap color metric ps))"
  shows "linkTotal ps links = grandTotal metric ps"
proof -
  have ne: "hd stages \<in> set (butlast stages)"
    using assms(1) by (cases stages) (auto simp: wf_prepared_def)
  have "linkTotal ps links = (\<Sum>(k, l) \<leftarrow> linkMap color metric ps. if dl_source l \<in> set (rootIds ps) then dl_value l else 0)"
    unfolding linkTotal_def sum_filter_if by (rule sum_core [OF core]) simp
  also have "\<dots> = (\<Sum>(k, l) \<leftarrow> linkMap color metric ps. if starts_with (key_source k) (kind_prefix (hd stages)) then dl_value l else 0)"
    by (rule sum_entries_cong) (simp add: root_source [OF assms(1,2)])
  also have "\<dots> = grandTotal metric ps" by (rule outflow_total [OF assms(1,2) ne])
  finally show ?thesis .
qed

lemma mset_map_sorted: "mset (map f (js_sort cmp (map snd m))) = mset (map (\<lambda>x. f (snd x)) m)"
  by (simp add: multiset.map_comp comp_def)

lemma assign_member:
  assumes "l \<in> set (assignLinkDisplayColors env links)"
  obtains x where "x \<in> set links" "dl_share l = dl_share x" "dl_value l = dl_value x" "dl_source l = dl_source x"
    "dl_highlighted l = dl_highlighted x" "dl_dimmed l = dl_dimmed x" "dl_target l = dl_target x"
    "dl_sourceLabel l = dl_sourceLabel x" "dl_targetLabel l = dl_targetLabel x"
  using assms by (auto simp: assignLinkDisplayColors_def Let_def split: option.splits)

lemma graph_share:
  assumes "\<forall>row \<in> set rows. nul_free row"
    and "ps = preparePaths env rows metric (resolveVisibleStages role visibleStages) ctx options"
    and "l \<in> set (fg_links (buildFlowGraph env rows metric role palette visibleStages ctx options))"
  shows "dl_share l = (if grandTotal metric ps > 0 then dl_value l / grandTotal metric ps else 0)"
proof -
  let ?stages = "resolveVisibleStages role visibleStages"
  let ?links = "js_sort (linkOrder env) (map snd (snd (markedMaps env metric palette ?stages options ps)))"
  note wf = preparePaths_wf [of role visibleStages env rows metric ctx options, folded assms(2)]
  obtain color where "map (\<lambda>x. coreLink (snd x)) (snd (markedMaps env metric palette ?stages options ps)) =
       map (\<lambda>x. coreLink (snd x)) (linkMap color metric ps)"
    using marked_core [OF wf] by metis
  then have "mset (map coreLink ?links) = mset (map (\<lambda>x. coreLink (snd x)) (linkMap color metric ps))"
    by (simp only: mset_map_sorted)
  from linkTotal_grand [OF wf _ this] have total: "linkTotal ps ?links = grandTotal metric ps"
    using preparePaths_nul [OF assms(1)] assms(2) by simp
  have "l \<in> set (assignLinkDisplayColors env (map (withShare (linkTotal ps ?links)) ?links))"
    using assms(3) unfolding buildFlowGraph_eq [OF refl refl refl refl] assms(2) by simp
  then show ?thesis unfolding total by (rule assign_member) auto
qed

section \<open>Properties\<close>

abbreviation option_stages :: "FlowBuildOptions \<Rightarrow> FlowNodeKind list" where
  "option_stages options \<equiv> resolveVisibleStages
     (case bo_role options of Some r \<Rightarrow> r | None \<Rightarrow> DEFAULT_FLOW_ROLE) (bo_visibleStages options)"

lemma graph_column:
  assumes "k \<in> set (resolveVisibleStages role visibleStages)"
  shows "(\<Sum>n \<leftarrow> fg_nodes (buildFlowGraph env rows metric role palette visibleStages ctx options).
      if dn_kind n = k then dn_value n else 0) =
    grandTotal metric (preparePaths env rows metric (resolveVisibleStages role visibleStages) ctx options)"
proof -
  let ?ps = "preparePaths env rows metric (resolveVisibleStages role visibleStages) ctx options"
  obtain color where core: "mset (map coreNode (fg_nodes (buildFlowGraph env rows metric role palette visibleStages ctx options))) =
      mset (map (\<lambda>x. coreNode (snd x)) (nodeMap color metric ?ps))"
    using graph_core [OF refl refl] by metis
  have "(\<Sum>n \<leftarrow> fg_nodes (buildFlowGraph env rows metric role palette visibleStages ctx options).
      if dn_kind n = k then dn_value n else 0) = (\<Sum>(i, n) \<leftarrow> nodeMap color metric ?ps. if dn_kind n = k then dn_value n else 0)"
    by (rule sum_core [OF core]) simp
  also have "\<dots> = (\<Sum>(i, n) \<leftarrow> nodeMap color metric ?ps. if starts_with i (kind_prefix k) then dn_value n else 0)"
    by (rule sum_entries_cong) (metis kind_prefix_inj nodeMap_entry(2) [OF preparePaths_wf])
  also have "\<dots> = grandTotal metric ?ps" by (rule column_total [OF preparePaths_wf assms])
  finally show ?thesis .
qed

abbreviation columnSum :: "DashboardFlowGraph \<Rightarrow> FlowNodeKind \<Rightarrow> rat" where
  "columnSum g k \<equiv> \<Sum>n \<leftarrow> fg_nodes g. if dn_kind n = k then dn_value n else 0"

text \<open>
  C9: No consumption is lost or counted twice between the columns of the flow chart: the nodes of
  any two visible columns add up to the same value, whatever the role, the filters, the hidden
  columns, the limit of nodes per column and the masking. Unless the paths over the limit are
  hidden, that value is the selected metric of the summary shown above the chart.
\<close>

theorem flow_columns_carry_summary:
  assumes "k \<in> set (option_stages options)" and "k' \<in> set (option_stages options)"
  shows "columnSum (pf_flow (buildDashboardFlowData env rows metric options)) k =
      columnSum (pf_flow (buildDashboardFlowData env rows metric options)) k' \<and>
    (bo_overflowMode options \<noteq> Some Hide \<longrightarrow>
      columnSum (pf_flow (buildDashboardFlowData env rows metric options)) k =
        summaryValue (pf_summary (buildDashboardFlowData env rows metric options)) metric)"
  using assms
  by (simp add: buildDashboardFlowData_def Let_def graph_column grandTotal_rows buildSummary_value)

definition sampleOptions :: FlowBuildOptions where
  "sampleOptions = \<lparr>bo_role = None, bo_selectedUsers = None, bo_selectedNodes = None, bo_activeNode = None,
     bo_activeLink = None, bo_colorPalette = None, bo_visibleStages = None, bo_topNodeLimit = Some (Fin 1),
     bo_overflowMode = None, bo_maskSensitive = None, bo_deletedTokenLabel = None, bo_otherNodeLabel = None\<rparr>"

theorem flow_columns_carry_summary_witness:
  "(\<Sum>n \<leftarrow> fg_nodes (pf_flow (buildDashboardFlowData sampleEnv
      [sampleRow ''ann'' ''vip'' ''m1'' 3, sampleRow ''bob'' ''vip'' ''m2'' 4] MQuota sampleOptions)).
      if dn_kind n = KModel then dn_value n else 0) = 7"
proof -
  have "summaryValue (pf_summary (buildDashboardFlowData sampleEnv
      [sampleRow ''ann'' ''vip'' ''m1'' 3, sampleRow ''bob'' ''vip'' ''m2'' 4] MQuota sampleOptions)) MQuota = 7"
    by (simp add: buildDashboardFlowData_def sampleOptions_def filterRows_def filterRowsByNodes_def
        normalizeSelectedNodeFilters_def buildSummary_def flow_eval)
  with flow_columns_carry_summary [of KModel sampleOptions KModel sampleEnv
      "[sampleRow ''ann'' ''vip'' ''m1'' 3, sampleRow ''bob'' ''vip'' ''m2'' 4]" MQuota]
  show ?thesis by (simp add: sampleOptions_def resolveVisibleStages_def getFlowStages_def DEFAULT_FLOW_ROLE_def)
qed

text \<open>
  C16: What flows into a node flows out of it: the value of a node equals the sum of the values
  of its outgoing links unless it is in the last column, and of its incoming links unless it
  is in the first, for rows whose names do not contain the separator character U+0000.
\<close>

theorem flow_node_balance:
  assumes "\<forall>row \<in> set rows. nul_free row"
    and "g = buildFlowGraph env rows metric role palette visibleStages ctx options" and "n \<in> set (fg_nodes g)"
  shows "(dn_kind n \<in> set (butlast (resolveVisibleStages role visibleStages)) \<longrightarrow>
      (\<Sum>l \<leftarrow> fg_links g. if dl_source l = dn_id n then dl_value l else 0) = dn_value n) \<and>
    (dn_kind n \<in> set (tl (resolveVisibleStages role visibleStages)) \<longrightarrow>
      (\<Sum>l \<leftarrow> fg_links g. if dl_target l = dn_id n then dl_value l else 0) = dn_value n)"
proof -
  let ?stages = "resolveVisibleStages role visibleStages"
  let ?ps = "preparePaths env rows metric ?stages ctx options"
  obtain color where nodes: "mset (map coreNode (fg_nodes g)) = mset (map (\<lambda>x. coreNode (snd x)) (nodeMap color metric ?ps))"
    and links: "mset (map coreLink (fg_links g)) = mset (map (\<lambda>x. coreLink (snd x)) (linkMap color metric ?ps))"
    using graph_core [OF refl assms(2)] by metis
  obtain i m where m: "(i, m) \<in> set (nodeMap color metric ?ps)" "coreNode n = coreNode m"
    by (rule core_member [OF nodes assms(3)])
  note wf = preparePaths_wf [of role visibleStages env rows metric ctx options]
  note nul = preparePaths_nul [OF assms(1), of env metric ?stages ctx options]
  note entry = nodeMap_entry [OF wf m(1)]
  have n: "dn_id n = i" "dn_kind n = dn_kind m" "dn_value n = through metric ?ps i"
    using arg_cong [OF m(2), of dn_id] arg_cong [OF m(2), of dn_kind] arg_cong [OF m(2), of dn_value]
      entry nodeMap_value [OF wf m(1)] by simp_all
  have "(\<Sum>l \<leftarrow> fg_links g. if dl_source l = i then dl_value l else 0) =
      (\<Sum>(k, l) \<leftarrow> linkMap color metric ?ps. if dl_source l = i then dl_value l else 0)"
    by (rule sum_core [OF links]) simp
  also have "\<dots> = (\<Sum>(k, l) \<leftarrow> linkMap color metric ?ps. if key_source k = i then dl_value l else 0)"
    by (rule sum_entries_cong) (use linkMap_entry(2) [OF _ nul] in auto)
  finally have out: "(\<Sum>l \<leftarrow> fg_links g. if dl_source l = i then dl_value l else 0) = \<dots>" .
  have "(\<Sum>l \<leftarrow> fg_links g. if dl_target l = i then dl_value l else 0) =
      (\<Sum>(k, l) \<leftarrow> linkMap color metric ?ps. if dl_target l = i then dl_value l else 0)"
    by (rule sum_core [OF links]) simp
  also have "\<dots> = (\<Sum>(k, l) \<leftarrow> linkMap color metric ?ps. if key_target k = i then dl_value l else 0)"
    by (rule sum_entries_cong) (use linkMap_entry(2) [OF _ nul] in auto)
  finally show ?thesis
    using out outflow_node [OF wf nul entry(2)] inflow_node [OF wf nul entry(2)] unfolding n by simp
qed

abbreviation sampleGraphOptions :: FlowGraphOptions where
  "sampleGraphOptions \<equiv> \<lparr>go_topNodeLimit = None, go_overflowMode = None, go_otherNodeLabel = None,
     go_activeNode = None, go_activeLink = None, go_maskSensitive = None\<rparr>"

abbreviation sampleGraph :: DashboardFlowGraph where
  "sampleGraph \<equiv> buildFlowGraph sampleEnv [sampleRow ''ann'' ''vip'' ''m1'' 3, sampleRow ''bob'' ''vip'' ''m2'' 4]
     MQuota RoleUser None None None sampleGraphOptions"

lemma sum_if_nonzero: "(\<Sum>x \<leftarrow> xs. if P x then f x else 0) \<noteq> (0 :: rat) \<Longrightarrow> \<exists>x \<in> set xs. P x"
  by (induction xs) (auto split: if_splits)

lemma sampleRow_nul: "0 \<notin> set (js user) \<Longrightarrow> 0 \<notin> set (js grp) \<Longrightarrow> 0 \<notin> set (js model) \<Longrightarrow> nul_free (sampleRow user grp model q)"
  by (simp add: nul_free_def sampleRow_def or_empty_def)

lemma sampleRows_nul: "\<forall>row \<in> set [sampleRow ''ann'' ''vip'' ''m1'' 3, sampleRow ''bob'' ''vip'' ''m2'' 4]. nul_free row"
  by (simp add: sampleRow_nul js_simps)

theorem flow_node_balance_witness:
  "\<exists>n. n \<in> set (fg_nodes sampleGraph) \<and> dn_kind n = KGroup \<and>
     (\<Sum>l \<leftarrow> fg_links sampleGraph. if dl_source l = dn_id n then dl_value l else 0) = dn_value n \<and>
     (\<Sum>l \<leftarrow> fg_links sampleGraph. if dl_target l = dn_id n then dl_value l else 0) = dn_value n"
proof -
  have "(\<Sum>n \<leftarrow> fg_nodes sampleGraph. if dn_kind n = KGroup then dn_value n else 0) = 7"
    by (subst graph_column) (simp_all add: grandTotal_rows flow_eval)
  then obtain n where n: "n \<in> set (fg_nodes sampleGraph)" "dn_kind n = KGroup"
    using sum_if_nonzero [of "\<lambda>n. dn_kind n = KGroup" dn_value "fg_nodes sampleGraph"] by auto
  have "dn_kind n \<in> set (butlast (resolveVisibleStages RoleUser None))"
    "dn_kind n \<in> set (tl (resolveVisibleStages RoleUser None))"
    using n(2) by (simp_all add: resolveVisibleStages_def getFlowStages_def)
  with n flow_node_balance [OF sampleRows_nul refl n(1)] show ?thesis by blast
qed

text \<open>
  The shares of the links are fractions of the whole: when the prepared paths carry a
  positive total, the shares of the links that leave any one column add up to exactly one.
\<close>

lemma flow_shares_sum_one:
  assumes "\<forall>row \<in> set rows. nul_free row"
    and "k \<in> set (butlast (resolveVisibleStages role visibleStages))"
    and "grandTotal metric (preparePaths env rows metric (resolveVisibleStages role visibleStages) ctx options) > 0"
  shows "(\<Sum>l \<leftarrow> fg_links (buildFlowGraph env rows metric role palette visibleStages ctx options).
      if starts_with (dl_source l) (kind_prefix k) then dl_share l else 0) = 1"
proof -
  let ?stages = "resolveVisibleStages role visibleStages"
  let ?ps = "preparePaths env rows metric ?stages ctx options"
  let ?g = "buildFlowGraph env rows metric role palette visibleStages ctx options"
  let ?T = "grandTotal metric ?ps"
  obtain color where links: "mset (map coreLink (fg_links ?g)) = mset (map (\<lambda>x. coreLink (snd x)) (linkMap color metric ?ps))"
    using graph_core [OF refl refl] by metis
  note nul = preparePaths_nul [OF assms(1), of env metric ?stages ctx options]
  have "(\<Sum>l \<leftarrow> fg_links ?g. if starts_with (dl_source l) (kind_prefix k) then dl_share l else 0) =
      (\<Sum>l \<leftarrow> fg_links ?g. (if starts_with (dl_source l) (kind_prefix k) then dl_value l else 0) * (1 / ?T))"
    using graph_share [OF assms(1) refl] assms(3) by (intro arg_cong [where f = sum_list] map_cong) auto
  also have "\<dots> = (\<Sum>l \<leftarrow> fg_links ?g. if starts_with (dl_source l) (kind_prefix k) then dl_value l else 0) * (1 / ?T)"
    by (rule sum_list_mult_const)
  also have "(\<Sum>l \<leftarrow> fg_links ?g. if starts_with (dl_source l) (kind_prefix k) then dl_value l else 0) =
      (\<Sum>(i, l) \<leftarrow> linkMap color metric ?ps. if starts_with (dl_source l) (kind_prefix k) then dl_value l else 0)"
    by (rule sum_core [OF links]) simp
  also have "\<dots> = (\<Sum>(i, l) \<leftarrow> linkMap color metric ?ps. if starts_with (key_source i) (kind_prefix k) then dl_value l else 0)"
    by (rule sum_entries_cong) (use linkMap_entry(2) [OF _ nul] in auto)
  also have "\<dots> = ?T" by (rule outflow_total [OF preparePaths_wf nul assms(2)])
  finally show ?thesis using assms(3) by simp
qed

lemma flow_shares_sum_one_witness:
  "(\<Sum>l \<leftarrow> fg_links sampleGraph. if starts_with (dl_source l) (kind_prefix KToken) then dl_share l else 0) = 1"
  by (rule flow_shares_sum_one [OF sampleRows_nul]) (simp_all add: grandTotal_rows flow_eval)

end
