(* ===== verification/Flow_Display.thy ===== *)
theory Flow_Display
  imports Flow_Balance
begin

text \<open>
  How the flow graph is shown: the limit to the largest nodes of each column, the masking
  of labels and the highlighting of the paths through an active node or link.
\<close>

section \<open>The largest nodes\<close>

abbreviation bump_rank :: "rat \<Rightarrow> FlowNodeRank \<Rightarrow> FlowNodeRank" where
  "bump_rank v \<equiv> (\<lambda>current. current\<lparr>nr_value := nr_value current + v\<rparr>)"

definition columnRanks :: "FlowQuotaDataItem list \<Rightarrow> FlowMetric \<Rightarrow> FlowNodeKind \<Rightarrow> FlowPathContext \<Rightarrow>
    (jsstr \<times> FlowNodeRank) list" where
  "columnRanks rows metric k ctx =
     foldl (\<lambda>st row. upsert (pn_id (NODE_BUILDERS k row ctx)) \<lparr>nr_node = NODE_BUILDERS k row ctx, nr_value = 0\<rparr>
       (bump_rank (metricValue (rowMetrics row) metric)) st) [] rows"

lemma addRank_lookup:
  "map_of (addRank v totals node) k = (if pn_kind node = k
     then map_option (upsert (pn_id node) \<lparr>nr_node = node, nr_value = 0\<rparr> (bump_rank v)) (map_of totals k)
     else map_of totals k)"
  by (auto simp: addRank_def map_of_update split: option.splits)

lemma addRanks_lookup:
  "distinct stages \<Longrightarrow> map_of (foldl (addRank v) totals (flowPathForStages row stages ctx)) k =
     (if k \<in> set stages
      then map_option (upsert (pn_id (NODE_BUILDERS k row ctx)) \<lparr>nr_node = NODE_BUILDERS k row ctx, nr_value = 0\<rparr> (bump_rank v))
        (map_of totals k)
      else map_of totals k)"
  unfolding flowPathForStages_def
  by (induction stages arbitrary: totals) (auto simp: addRank_lookup)

lemma emptyTotals_lookup: "map_of (foldl (\<lambda>m stage. AList.update stage [] m) m stages) k = (if k \<in> set stages then Some [] else map_of m k)"
  by (induction stages arbitrary: m) (auto simp: map_of_update)

lemma rankTotals_lookup:
  assumes "distinct stages"
  shows "map_of (rankTotals rows metric stages ctx) k = (if k \<in> set stages then Some (columnRanks rows metric k ctx) else None)"
proof (induction rows rule: rev_induct)
  case Nil
  then show ?case by (simp add: rankTotals_def columnRanks_def emptyTotals_lookup)
next
  case (snoc row rows)
  then show ?case by (simp add: rankTotals_def columnRanks_def addRanks_lookup [OF assms])
qed

lemma topSets_lookup:
  assumes "distinct stages" and "normalizeTopNodeLimit (go_topNodeLimit options) = Some n"
  shows "n > 0" and "\<exists>sets. topSets env rows metric stages ctx options = Some sets \<and> (\<forall>k. map_of sets k =
    (if k \<in> set stages then Some (set_of (map (\<lambda>rank. pn_id (nr_node rank))
       (take n (js_sort (rankOrder env) (map snd (columnRanks rows metric k ctx)))))) else None))"
proof -
  show n: "n > 0" using assms(2) by (auto simp: normalizeTopNodeLimit_def split: option.splits jsnum.splits if_splits)
  show "\<exists>sets. topSets env rows metric stages ctx options = Some sets \<and> (\<forall>k. map_of sets k =
    (if k \<in> set stages then Some (set_of (map (\<lambda>rank. pn_id (nr_node rank))
       (take n (js_sort (rankOrder env) (map snd (columnRanks rows metric k ctx)))))) else None))"
    using n assms by (simp add: topSets_def buildTopNodeSets_def rankTotals_lookup map_of_map)
qed

lemma length_set_of: "length (set_of xs) \<le> length xs"
  by (metis card_length distinct_card distinct_set_of set_set_of)

text \<open>The identifiers of one kind that prepared paths can meet.\<close>

lemma limited_ids:
  assumes "distinct stages" and "normalizeTopNodeLimit (go_topNodeLimit options) = Some n" and "k \<in> set stages"
  obtains ids where "distinct ids" "length ids \<le> n + (if overflow_mode options = Hide then 0 else 1)"
    "\<And>p x. p \<in> set (preparePaths env rows metric stages ctx options) \<Longrightarrow> x \<in> set (pp_path p) \<Longrightarrow> pn_kind x = k \<Longrightarrow> pn_id x \<in> set ids"
proof -
  define top where "top = set_of (map (\<lambda>rank. pn_id (nr_node rank))
    (take n (js_sort (rankOrder env) (map snd (columnRanks rows metric k ctx)))))"
  obtain sets where sets: "topSets env rows metric stages ctx options = Some sets" and look: "map_of sets k = Some top"
    using topSets_lookup(2) [OF assms(1,2)] assms(3) unfolding top_def by metis
  have len: "length top \<le> n"
    unfolding top_def by (rule order_trans [OF length_set_of]) simp
  have istop: "isTopFlowNode x (Some sets) \<longleftrightarrow> pn_id x \<in> set top" if "pn_kind x = k" for x
    using that look by (simp add: isTopFlowNode_def)
  show ?thesis
  proof (cases "overflow_mode options = Hide")
    case True
    show ?thesis
    proof (rule that [of top])
      show "length top \<le> n + (if overflow_mode options = Hide then 0 else 1)" using len by simp
      fix p x assume p: "p \<in> set (preparePaths env rows metric stages ctx options)" "x \<in> set (pp_path p)" "pn_kind x = k"
      then obtain row y where "keptRow env rows metric stages ctx options row" "y \<in> set (flowPathForStages row stages ctx)"
        and x: "x = limitNode (Some sets) (go_otherNodeLabel options) y"
        by (auto simp: preparePaths_eq preparedPath_def sets)
      then have "isTopFlowNode y (Some sets)" using True by (simp add: keptRow_def sets list_all_iff)
      with x p(3) show "pn_id x \<in> set top" using istop [of y] by (simp add: limitNode_def)
    qed (simp add: top_def)
  next
    case False
    show ?thesis
    proof (rule that [of "set_add top (OTHER_FLOW_NODE_IDS k)"])
      show "length (set_add top (OTHER_FLOW_NODE_IDS k)) \<le> n + (if overflow_mode options = Hide then 0 else 1)"
        using len False by (simp add: set_add_def)
      fix p x assume p: "p \<in> set (preparePaths env rows metric stages ctx options)" "x \<in> set (pp_path p)" "pn_kind x = k"
      then show "pn_id x \<in> set (set_add top (OTHER_FLOW_NODE_IDS k))"
        using istop by (auto simp: preparePaths_eq preparedPath_def sets limitNode_def split: if_splits)
    qed (simp add: top_def)
  qed
qed

lemma filter_core_length:
  assumes "mset (map c xs) = mset (map (\<lambda>x. c (snd x)) m)" and "\<And>x. P (c x) \<longleftrightarrow> P x"
  shows "length (filter P xs) = length (filter (\<lambda>(k, v). P v) m)"
proof -
  have "length (filter P xs) = length (filter P (map c xs))" by (simp add: filter_map comp_def assms(2))
  also have "\<dots> = length (filter P (map (\<lambda>x. c (snd x)) m))"
    by (metis assms(1) mset_filter size_mset)
  also have "\<dots> = length (filter (\<lambda>(k, v). P v) m)" by (simp add: filter_map comp_def assms(2) case_prod_unfold)
  finally show ?thesis .
qed

lemma nodes_distinct_ids:
  assumes "wf_prepared stages ps"
  shows "distinct (map (\<lambda>x. dn_id (snd x)) (nodeMap color metric ps))"
proof -
  have "map (\<lambda>x. dn_id (snd x)) (nodeMap color metric ps) = keys_of (nodeMap color metric ps)"
    using nodeMap_entry(1) [OF assms] by (intro map_cong) auto
  then show ?thesis using nodeMap_wf by metis
qed

lemma nodeMap_origin:
  assumes "wf_prepared stages ps" and "(i, n) \<in> set (nodeMap color metric ps)"
  obtains p x where "p \<in> set ps" "x \<in> set (pp_path p)" "pn_id x = i" "pn_kind x = dn_kind n"
proof -
  have "i \<in> set (keys_of (nodeMap color metric ps))" using assms(2) by force
  then obtain p x where px: "p \<in> set ps" "x \<in> set (pp_path p)" "pn_id x = i" unfolding nodeMap_keys by auto
  moreover have "pn_kind x = dn_kind n"
    using nodeMap_entry(2) [OF assms] wf_prepared_path(5) [OF assms(1) px(1,2)] px(3) unfolding wf_node_def
    by (metis kind_prefix_inj)
  ultimately show ?thesis by (rule that)
qed

text \<open>
  The limit of nodes per column holds: with a limit of n, a column of the graph has at most n
  nodes when overflowing paths are hidden, and at most n nodes and the one that collects the
  others when they are aggregated.
\<close>

lemma flow_top_limit:
  assumes "normalizeTopNodeLimit (go_topNodeLimit options) = Some n"
    and "k \<in> set (resolveVisibleStages role visibleStages)"
  shows "length (filter (\<lambda>x. dn_kind x = k) (fg_nodes (buildFlowGraph env rows metric role palette visibleStages ctx options)))
    \<le> n + (if go_overflowMode options = Some Hide then 0 else 1)"
proof -
  let ?stages = "resolveVisibleStages role visibleStages"
  let ?ps = "preparePaths env rows metric ?stages ctx options"
  note wf = preparePaths_wf [of role visibleStages env rows metric ctx options]
  obtain ids where ids: "distinct ids" "length ids \<le> n + (if overflow_mode options = Hide then 0 else 1)"
    "\<And>p x. p \<in> set ?ps \<Longrightarrow> x \<in> set (pp_path p) \<Longrightarrow> pn_kind x = k \<Longrightarrow> pn_id x \<in> set ids"
    using limited_ids [OF resolve_stages(1) assms(1,2)] by metis
  obtain color where core: "mset (map coreNode (fg_nodes (buildFlowGraph env rows metric role palette visibleStages ctx options))) =
      mset (map (\<lambda>x. coreNode (snd x)) (nodeMap color metric ?ps))"
    using graph_core [OF refl refl] by metis
  let ?col = "filter (\<lambda>(i, v). dn_kind v = k) (nodeMap color metric ?ps)"
  have "distinct (keys_of ?col)" by (rule wf_map_filter [OF nodeMap_wf])
  moreover have "set (keys_of ?col) \<subseteq> set ids"
  proof
    fix i assume "i \<in> set (keys_of ?col)"
    then obtain v where v: "(i, v) \<in> set (nodeMap color metric ?ps)" "dn_kind v = k" by auto
    from v(1) obtain p x where "p \<in> set ?ps" "x \<in> set (pp_path p)" "pn_id x = i" "pn_kind x = dn_kind v"
      by (rule nodeMap_origin [OF wf])
    with ids(3) v(2) show "i \<in> set ids" by auto
  qed
  ultimately have "length ?col \<le> length ids"
    by (metis card_mono distinct_card ids(1) length_map List.finite_set)
  moreover have "overflow_mode options = Hide \<longleftrightarrow> go_overflowMode options = Some Hide"
    by (auto simp: DEFAULT_FLOW_OVERFLOW_MODE_def split: option.splits)
  ultimately show ?thesis
    using ids(2) filter_core_length [OF core, of "\<lambda>x. dn_kind x = k"] by simp
qed

lemma flow_top_limit_witness:
  "length (filter (\<lambda>x. dn_kind x = KModel) (fg_nodes (buildFlowGraph sampleEnv
     [sampleRow ''ann'' ''vip'' ''m1'' 3, sampleRow ''bob'' ''vip'' ''m2'' 4, sampleRow ''cat'' ''vip'' ''m3'' 5] MQuota RoleUser
     None None None (sampleGraphOptions\<lparr>go_topNodeLimit := Some (Fin (3 / 2))\<rparr>)))) \<le> 2"
proof -
  have "\<lfloor>3 / 2 :: rat\<rfloor> = 1" by (simp add: floor_unique)
  then show ?thesis
    using flow_top_limit [of "sampleGraphOptions\<lparr>go_topNodeLimit := Some (Fin (3 / 2))\<rparr>" 1 KModel RoleUser None sampleEnv
        "[sampleRow ''ann'' ''vip'' ''m1'' 3, sampleRow ''bob'' ''vip'' ''m2'' 4, sampleRow ''cat'' ''vip'' ''m3'' 5]" MQuota None None]
    by (simp add: normalizeTopNodeLimit_def resolveVisibleStages_def getFlowStages_def)
qed

definition nodeTotal :: "FlowQuotaDataItem list \<Rightarrow> FlowMetric \<Rightarrow> FlowNodeKind \<Rightarrow> FlowPathContext \<Rightarrow> jsstr \<Rightarrow> rat" where
  "nodeTotal rows metric k ctx i =
     (\<Sum>row \<leftarrow> rows. if pn_id (NODE_BUILDERS k row ctx) = i then metricValue (rowMetrics row) metric else 0)"

lemma columnRanks_entry:
  assumes "(i, rank) \<in> set (columnRanks rows metric k ctx)"
  shows "pn_id (nr_node rank) = i" "nr_value rank = nodeTotal rows metric k ctx i"
proof -
  have "\<forall>(i, rank) \<in> set (columnRanks rows metric k ctx). pn_id (nr_node rank) = i"
    unfolding columnRanks_def by (rule upserts_inv) auto
  with assms show "pn_id (nr_node rank) = i" by auto
  show "nr_value rank = nodeTotal rows metric k ctx i"
    unfolding nodeTotal_def by (rule upserts_entry [OF assms [unfolded columnRanks_def]]) simp_all
qed

lemma columnRanks_complete:
  assumes "row \<in> set rows"
  obtains rank where "(pn_id (NODE_BUILDERS k row ctx), rank) \<in> set (columnRanks rows metric k ctx)"
proof -
  have "pn_id (NODE_BUILDERS k row ctx) \<in> set (keys_of (columnRanks rows metric k ctx))"
    using assms by (simp add: columnRanks_def upserts_keys set_foldl_set_add)
  then show ?thesis using that by auto
qed

lemma rankOrder_consistent:
  "consistent_comparator (env_localeCompare env) \<Longrightarrow> consistent_comparator (rankOrder env)"
  unfolding rankOrder_def by (intro consistent_intros rat_order.consistent_comparator_axioms)

lemma rankOrder_le: "rankOrder env a b \<le> 0 \<Longrightarrow> nr_value b \<le> nr_value a"
  by (auto simp: rankOrder_def cmp_or_def cmp_desc_def cmp_key_def cmp_rat_def split: if_splits)

text \<open>
  The nodes kept under the limit are the largest ones of their column: whenever the node
  of a row is kept and the node of another row is not, the total of the metric over the rows
  of the first is at least that of the second, for any consistent collation.
\<close>

lemma flow_top_are_largest:
  assumes "consistent_comparator (env_localeCompare env)" and "distinct stages" and "k \<in> set stages"
    and "normalizeTopNodeLimit (go_topNodeLimit options) = Some n"
    and "a \<in> set rows" and "isTopFlowNode (NODE_BUILDERS k a ctx) (topSets env rows metric stages ctx options)"
    and "b \<in> set rows" and "\<not> isTopFlowNode (NODE_BUILDERS k b ctx) (topSets env rows metric stages ctx options)"
  shows "nodeTotal rows metric k ctx (pn_id (NODE_BUILDERS k b ctx)) \<le> nodeTotal rows metric k ctx (pn_id (NODE_BUILDERS k a ctx))"
proof -
  let ?sorted = "js_sort (rankOrder env) (map snd (columnRanks rows metric k ctx))"
  have top: "isTopFlowNode (NODE_BUILDERS k r ctx) (topSets env rows metric stages ctx options) \<longleftrightarrow>
      pn_id (NODE_BUILDERS k r ctx) \<in> (\<lambda>rank. pn_id (nr_node rank)) ` set (take n ?sorted)" for r
    using topSets_lookup(2) [OF assms(2,4), of env rows metric ctx] assms(3) by (auto simp: isTopFlowNode_def)
  obtain ra where ra: "ra \<in> set (take n ?sorted)" "pn_id (nr_node ra) = pn_id (NODE_BUILDERS k a ctx)"
    using assms(6) top by auto
  from in_set_takeD [OF ra(1)] obtain i where i: "(i, ra) \<in> set (columnRanks rows metric k ctx)" by auto
  have va: "nr_value ra = nodeTotal rows metric k ctx (pn_id (NODE_BUILDERS k a ctx))"
    using columnRanks_entry [OF i] ra(2) by simp
  obtain rb where rb: "(pn_id (NODE_BUILDERS k b ctx), rb) \<in> set (columnRanks rows metric k ctx)"
    by (rule columnRanks_complete [OF assms(7)])
  then have "rb \<in> set ?sorted" by force
  moreover have "rb \<notin> set (take n ?sorted)"
    using assms(8) top columnRanks_entry(1) [OF rb] by force
  ultimately have "rb \<in> set (drop n ?sorted)" by (metis Un_iff append_take_drop_id set_append)
  moreover have "sorted_wrt (\<lambda>x y. rankOrder env x y \<le> 0) (take n ?sorted @ drop n ?sorted)"
    using consistent_comparator.sorted_js_sort [OF rankOrder_consistent [OF assms(1)]] by simp
  ultimately have "rankOrder env ra rb \<le> 0" using ra(1) by (simp only: sorted_wrt_append)
  then show ?thesis using rankOrder_le va columnRanks_entry(2) [OF rb] by fastforce
qed

lemma flow_top_are_largest_witness:
  "nodeTotal [sampleRow ''ann'' ''vip'' ''m1'' 3, sampleRow ''bob'' ''vip'' ''m2'' 4] MQuota KModel None (js ''model:m1'')
     \<le> nodeTotal [sampleRow ''ann'' ''vip'' ''m1'' 3, sampleRow ''bob'' ''vip'' ''m2'' 4] MQuota KModel None (js ''model:m2'')"
proof -
  let ?rows = "[sampleRow ''ann'' ''vip'' ''m1'' 3, sampleRow ''bob'' ''vip'' ''m2'' 4]"
  let ?o = "sampleGraphOptions\<lparr>go_topNodeLimit := Some (Fin 1)\<rparr>"
  have ids: "pn_id (NODE_BUILDERS KModel (sampleRow u g m q) None) = js ''model:'' @ js m" if "m \<noteq> []" for u g m q
    using that by (simp add: modelNode_def sampleRow_def or_default_def Let_def)
  have sets: "map_of (the (topSets sampleEnv ?rows MQuota [KGroup, KModel] None ?o)) KModel = Some [js ''model:m2'']"
    by (simp add: topSets_def buildTopNodeSets_def normalizeTopNodeLimit_def rankTotals_lookup map_of_map)
      (simp add: columnRanks_def upsert_def rankOrder_def cmp_or_def cmp_desc_def cmp_key_def cmp_rat_def sampleEnv_def
        set_of_def set_add_def flow_eval)
  have ex: "topSets sampleEnv ?rows MQuota [KGroup, KModel] None ?o \<noteq> None"
    by (simp add: topSets_def buildTopNodeSets_def normalizeTopNodeLimit_def)
  have "nodeTotal ?rows MQuota KModel None (pn_id (NODE_BUILDERS KModel (sampleRow ''ann'' ''vip'' ''m1'' 3) None))
      \<le> nodeTotal ?rows MQuota KModel None (pn_id (NODE_BUILDERS KModel (sampleRow ''bob'' ''vip'' ''m2'' 4) None))"
    by (rule flow_top_are_largest [OF sampleEnv_consistent, of "[KGroup, KModel]" _ ?o 1])
      (use ex sets in \<open>auto simp: normalizeTopNodeLimit_def isTopFlowNode_def flow_eval\<close>)
  then show ?thesis by (simp only: ids list.distinct simp_thms) (simp add: js_append [symmetric])
qed

end
