(* ===== verification/Flow_Marks.thy ===== *)
theory Flow_Marks
  imports Flow_Display
begin

text \<open>
  Highlighting and masking of the flow graph. Highlighting marks exactly the nodes and links
  of the paths through the active node or link; masking replaces every label that can
  identify somebody and leaves everything but the labels as it was, up to the order of nodes
  with equal values.
\<close>

section \<open>The marked maps\<close>

definition maskedMaps :: "FlowGraphOptions \<Rightarrow> (jsstr \<times> DashboardFlowNode) list \<times> (jsstr \<times> DashboardFlowLink) list \<Rightarrow>
    (jsstr \<times> DashboardFlowNode) list \<times> (jsstr \<times> DashboardFlowLink) list" where
  "maskedMaps options maps = (if go_maskSensitive options = Some True then maskFlowGraphLabels (fst maps) (snd maps) else maps)"

definition graphColor :: "FlowEnv \<Rightarrow> jsstr list option \<Rightarrow> PreparedFlowPath list \<Rightarrow> jsstr \<Rightarrow> jsstr" where
  "graphColor env palette ps =
     rootColor env (stableColorMap env (js_sort (env_localeCompare env) (rootIds ps)) palette) palette"

abbreviation baseMaps :: "FlowEnv \<Rightarrow> FlowMetric \<Rightarrow> jsstr list option \<Rightarrow> PreparedFlowPath list \<Rightarrow>
    (jsstr \<times> DashboardFlowNode) list \<times> (jsstr \<times> DashboardFlowLink) list" where
  "baseMaps env metric palette ps \<equiv>
     (nodeMap (graphColor env palette ps) metric ps, linkMap (graphColor env palette ps) metric ps)"

lemma markedMaps_eq:
  assumes "wf_prepared stages ps"
  shows "markedMaps env metric palette stages' options ps =
    (let masked = maskedMaps options (baseMaps env metric palette ps) in
     applyFlowHighlights (fst masked) (snd masked)
       (buildFlowHighlightSets ps (go_activeNode options) (go_activeLink options) stages'))"
proof -
  have "\<forall>p \<in> set ps. pp_path p \<noteq> []" using wf_prepared_path(4) [OF assms] by blast
  then show ?thesis by (simp add: markedMaps_def Let_def added_maps maskedMaps_def graphColor_def)
qed

abbreviation graph_paths :: "FlowEnv \<Rightarrow> FlowQuotaDataItem list \<Rightarrow> FlowMetric \<Rightarrow> FlowRole \<Rightarrow> FlowNodeKind list option \<Rightarrow>
    FlowPathContext \<Rightarrow> FlowGraphOptions \<Rightarrow> PreparedFlowPath list" where
  "graph_paths env rows metric role visibleStages ctx options \<equiv>
     preparePaths env rows metric (resolveVisibleStages role visibleStages) ctx options"

text \<open>A node of the graph is an entry of the map of nodes, masked and highlighted.\<close>

lemma graph_node:
  assumes "ps = graph_paths env rows metric role visibleStages ctx options"
    and "n \<in> set (fg_nodes (buildFlowGraph env rows metric role palette visibleStages ctx options))"
  obtains i m where "(i, m) \<in> set (fst (maskedMaps options (baseMaps env metric palette ps)))"
    "n = (case buildFlowHighlightSets ps (go_activeNode options) (go_activeLink options) (resolveVisibleStages role visibleStages)
       of None \<Rightarrow> m | Some sets \<Rightarrow> highlightNode sets m)"
proof -
  note wf = preparePaths_wf [of role visibleStages env rows metric ctx options, folded assms(1)]
  have "n \<in> snd ` set (fst (markedMaps env metric palette (resolveVisibleStages role visibleStages) options ps))"
    using assms(2) unfolding buildFlowGraph_eq [OF refl refl refl refl] assms(1) by simp
  then show ?thesis using that
    by (auto simp: markedMaps_eq [OF wf] Let_def applyFlowHighlights_def split: option.splits)
qed

lemma graph_link:
  assumes "ps = graph_paths env rows metric role visibleStages ctx options"
    and "l \<in> set (fg_links (buildFlowGraph env rows metric role palette visibleStages ctx options))"
  obtains i m m' where "(i, m) \<in> set (snd (maskedMaps options (baseMaps env metric palette ps)))"
    "m' = (case buildFlowHighlightSets ps (go_activeNode options) (go_activeLink options) (resolveVisibleStages role visibleStages)
       of None \<Rightarrow> m | Some sets \<Rightarrow> highlightLink sets m)"
    "dl_source l = dl_source m'" "dl_target l = dl_target m'" "dl_sourceLabel l = dl_sourceLabel m'"
    "dl_targetLabel l = dl_targetLabel m'" "dl_highlighted l = dl_highlighted m'" "dl_dimmed l = dl_dimmed m'"
proof -
  note wf = preparePaths_wf [of role visibleStages env rows metric ctx options, folded assms(1)]
  let ?marked = "markedMaps env metric palette (resolveVisibleStages role visibleStages) options ps"
  obtain t where "l \<in> set (assignLinkDisplayColors env (map (withShare t) (js_sort (linkOrder env) (map snd (snd ?marked)))))"
    using assms(2) unfolding buildFlowGraph_eq [OF refl refl refl refl] assms(1) by auto
  then obtain y where y: "y \<in> withShare t ` snd ` set (snd ?marked)" "dl_source l = dl_source y" "dl_target l = dl_target y"
    "dl_sourceLabel l = dl_sourceLabel y" "dl_targetLabel l = dl_targetLabel y" "dl_highlighted l = dl_highlighted y"
    "dl_dimmed l = dl_dimmed y"
    by (rule assign_member) (simp add: image_image)
  from y(1) obtain x where x1: "x \<in> snd ` set (snd ?marked)" "y = withShare t x" by blast
  have x: "dl_source l = dl_source x" "dl_target l = dl_target x" "dl_sourceLabel l = dl_sourceLabel x"
    "dl_targetLabel l = dl_targetLabel x" "dl_highlighted l = dl_highlighted x" "dl_dimmed l = dl_dimmed x"
    using y x1(2) by simp_all
  from x1(1) obtain i m where m: "(i, m) \<in> set (snd (maskedMaps options (baseMaps env metric palette ps)))"
    "x = (case buildFlowHighlightSets ps (go_activeNode options) (go_activeLink options) (resolveVisibleStages role visibleStages)
       of None \<Rightarrow> m | Some sets \<Rightarrow> highlightLink sets m)"
    by (auto simp: markedMaps_eq [OF wf] Let_def applyFlowHighlights_def split: option.splits)
  show ?thesis by (rule that [OF m x])
qed

lemma masked_node:
  assumes "(i, m) \<in> set (fst (maskedMaps options (nodes, links)))"
  obtains n where "(i, n) \<in> set nodes" "dn_id m = dn_id n" "dn_kind m = dn_kind n"
    "dn_label m = (if go_maskSensitive options = Some True \<and> maskedNode n then maskFlowLabel (dn_label n) else dn_label n)"
  using assms by (auto simp: maskedMaps_def maskFlowGraphLabels_def Let_def split: if_splits)

lemma masked_link:
  assumes "(i, m) \<in> set (snd (maskedMaps options (nodes, links)))"
  obtains l where "(i, l) \<in> set links" "dl_source m = dl_source l" "dl_target m = dl_target l"
    "go_maskSensitive options = Some True \<longrightarrow> m = maskLinkLabels
       (map (\<lambda>(k, node). (dn_id node, maskFlowLabel (dn_label node))) (filter (\<lambda>(k, node). maskedNode node) nodes)) l"
  using assms by (auto simp: maskedMaps_def maskFlowGraphLabels_def Let_def maskLinkLabels_def split: if_splits)

section \<open>Highlighting\<close>

definition onActivePath :: "FlowGraphOptions \<Rightarrow> PreparedFlowPath list \<Rightarrow> jsstr \<Rightarrow> bool" where
  "onActivePath options ps i \<longleftrightarrow>
     (\<exists>p \<in> set ps. matchesPath (go_activeNode options) (go_activeLink options) (pp_path p) \<and> i \<in> pn_id ` set (pp_path p))"

definition linkOnActivePath :: "FlowGraphOptions \<Rightarrow> PreparedFlowPath list \<Rightarrow> jsstr \<Rightarrow> jsstr \<Rightarrow> bool" where
  "linkOnActivePath options ps s t \<longleftrightarrow>
     (\<exists>p \<in> set ps. matchesPath (go_activeNode options) (go_activeLink options) (pp_path p) \<and>
       (s, t) \<in> (\<lambda>(a, b). (pn_id a, pn_id b)) ` set (path_pairs (pp_path p)))"

text \<open>Something is active: a link, or a node of a visible column; and some path runs through it.\<close>

definition activeSelection :: "FlowGraphOptions \<Rightarrow> FlowNodeKind list \<Rightarrow> PreparedFlowPath list \<Rightarrow> bool" where
  "activeSelection options stages ps \<longleftrightarrow>
     (go_activeLink options \<noteq> None \<or> (\<exists>f. go_activeNode options = Some f \<and> nf_kind f \<in> set stages)) \<and>
     (\<exists>p \<in> set ps. matchesPath (go_activeNode options) (go_activeLink options) (pp_path p))"

lemma highlight_sets:
  assumes "wf_prepared stages' ps" and "activeSelection options stages ps"
  obtains sets where "buildFlowHighlightSets ps (go_activeNode options) (go_activeLink options) stages = Some sets"
    "set (hs_nodes sets) = {i. onActivePath options ps i}"
    "set (hs_links sets) = {k. \<exists>p \<in> set ps. matchesPath (go_activeNode options) (go_activeLink options) (pp_path p) \<and>
       k \<in> (\<lambda>(a, b). pathLinkKey a b) ` set (path_pairs (pp_path p))}"
proof -
  let ?matched = "filter (\<lambda>p. matchesPath (go_activeNode options) (go_activeLink options) (pp_path p)) ps"
  obtain p where p: "p \<in> set ?matched" using assms(2) by (auto simp: activeSelection_def)
  with wf_prepared_path(4) [OF assms(1), of p] have ne: "concat (map (\<lambda>p. map pn_id (pp_path p)) ?matched) \<noteq> []"
    by auto
  have act: "(case go_activeNode options of Some node \<Rightarrow> nf_kind node \<in> set stages | None \<Rightarrow> False) \<or> go_activeLink options \<noteq> None"
    using assms(2) by (auto simp: activeSelection_def)
  show ?thesis
  proof (rule that)
    show "buildFlowHighlightSets ps (go_activeNode options) (go_activeLink options) stages =
      Some \<lparr>hs_nodes = set_of (concat (map (\<lambda>p. map pn_id (pp_path p)) ?matched)),
        hs_links = set_of (concat (map (\<lambda>p. map (\<lambda>(a, b). pathLinkKey a b) (path_pairs (pp_path p))) ?matched))\<rparr>"
      using ne act by (auto simp: buildFlowHighlightSets_def Let_def simp del: concat_eq_Nil_conv)
  qed (auto simp: onActivePath_def)
qed

lemma highlight_node:
  assumes "ps = graph_paths env rows metric role visibleStages ctx options"
    and "activeSelection options (resolveVisibleStages role visibleStages) ps"
    and "n \<in> set (fg_nodes (buildFlowGraph env rows metric role palette visibleStages ctx options))"
  shows "dn_highlighted n = Some (onActivePath options ps (dn_id n)) \<and> dn_dimmed n = Some (\<not> onActivePath options ps (dn_id n))"
proof -
  note wf = preparePaths_wf [of role visibleStages env rows metric ctx options, folded assms(1)]
  obtain sets where sets: "buildFlowHighlightSets ps (go_activeNode options) (go_activeLink options)
      (resolveVisibleStages role visibleStages) = Some sets" "set (hs_nodes sets) = {i. onActivePath options ps i}"
    using highlight_sets [OF wf assms(2)] by metis
  obtain m where "n = highlightNode sets m"
    using graph_node [OF assms(1,3)] unfolding sets(1) option.case by metis
  then show ?thesis by (simp add: highlightNode_def Let_def sets(2))
qed

lemma link_key_ends:
  assumes "nul_prepared ps" "p \<in> set ps" "(a, b) \<in> set (path_pairs (pp_path p))" "0 \<notin> set s"
  shows "pathLinkKey a b = s @ [0] @ t \<longleftrightarrow> s = pn_id a \<and> t = pn_id b"
proof -
  have "0 \<notin> set (pn_id a)" using assms by (auto simp: nul_prepared_def dest: set_zip_leftD)
  then show ?thesis using assms(4) unfolding pathLinkKey_def by (metis key_ends)
qed

lemma linkMap_source:
  assumes "(k, l) \<in> set (linkMap color metric ps)"
  shows "dl_source l \<in> (\<Union>p \<in> set ps. pn_id ` set (pp_path p))" "dl_target l \<in> (\<Union>p \<in> set ps. pn_id ` set (pp_path p))"
proof -
  have "\<forall>(k, l) \<in> set (linkMap color metric ps). dl_source l \<in> (\<Union>p \<in> set ps. pn_id ` set (pp_path p)) \<and>
      dl_target l \<in> (\<Union>p \<in> set ps. pn_id ` set (pp_path p))"
    unfolding linkMap_upserts
  proof (rule upserts_inv)
    fix x assume "x \<in> set (linkSteps ps)"
    then have "fst x \<in> set ps" "fst (snd x) \<in> set (pp_path (fst x))" "snd (snd x) \<in> set (pp_path (fst x))"
      by (auto simp: linkSteps_def dest: set_zip_leftD) (metis list.set_sel(2) set_zip_rightD tl_Nil)
    then show "dl_source (bumpLink metric (fst x) (newLink color x)) \<in> (\<Union>p \<in> set ps. pn_id ` set (pp_path p)) \<and>
      dl_target (bumpLink metric (fst x) (newLink color x)) \<in> (\<Union>p \<in> set ps. pn_id ` set (pp_path p))"
      by (auto simp: bumpLink_def newLink_def Let_def)
  qed (simp_all add: bumpLink_def)
  with assms show "dl_source l \<in> (\<Union>p \<in> set ps. pn_id ` set (pp_path p))" "dl_target l \<in> (\<Union>p \<in> set ps. pn_id ` set (pp_path p))"
    by auto
qed

lemma highlight_link:
  assumes "\<forall>row \<in> set rows. nul_free row"
    and "ps = graph_paths env rows metric role visibleStages ctx options"
    and "activeSelection options (resolveVisibleStages role visibleStages) ps"
    and "l \<in> set (fg_links (buildFlowGraph env rows metric role palette visibleStages ctx options))"
  shows "dl_highlighted l = Some (linkOnActivePath options ps (dl_source l) (dl_target l)) \<and>
    dl_dimmed l = Some (\<not> linkOnActivePath options ps (dl_source l) (dl_target l))"
proof -
  note wf = preparePaths_wf [of role visibleStages env rows metric ctx options, folded assms(2)]
  have nul: "nul_prepared ps" unfolding assms(2) by (rule preparePaths_nul [OF assms(1)])
  obtain sets where sets: "buildFlowHighlightSets ps (go_activeNode options) (go_activeLink options)
      (resolveVisibleStages role visibleStages) = Some sets"
    "set (hs_nodes sets) = {i. onActivePath options ps i}"
    and links: "set (hs_links sets) = {k. \<exists>p \<in> set ps. matchesPath (go_activeNode options) (go_activeLink options) (pp_path p) \<and>
       k \<in> (\<lambda>(a, b). pathLinkKey a b) ` set (path_pairs (pp_path p))}"
    by (rule highlight_sets [OF wf assms(3)])
  from assms(2,4) obtain i m m' where m: "(i, m) \<in> set (snd (maskedMaps options (baseMaps env metric palette ps)))"
    "m' = highlightLink sets m" "dl_source l = dl_source m'" "dl_target l = dl_target m'"
    "dl_highlighted l = dl_highlighted m'" "dl_dimmed l = dl_dimmed m'"
    by (rule graph_link) (simp add: sets(1))
  obtain l0 where l0: "(i, l0) \<in> set (linkMap (graphColor env palette ps) metric ps)"
    "dl_source m = dl_source l0" "dl_target m = dl_target l0"
    using m(1) by (rule masked_link)
  have "0 \<notin> set (dl_source m)" using linkMap_source(1) [OF l0(1)] nul l0(2) by (auto simp: nul_prepared_def)
  then have key: "pathLinkKey a b = linkStableKey m \<longleftrightarrow> (dl_source m, dl_target m) = (pn_id a, pn_id b)"
    if "p \<in> set ps" "(a, b) \<in> set (path_pairs (pp_path p))" for p a b
    using link_key_ends [OF nul that] by (simp add: linkStableKey_def)
  have "linkStableKey m \<in> set (hs_links sets) \<longleftrightarrow> linkOnActivePath options ps (dl_source m) (dl_target m)"
    unfolding links linkOnActivePath_def mem_Collect_eq
  proof (intro bex_cong refl conj_cong)
    fix p assume p: "p \<in> set ps"
    have "linkStableKey m \<in> (\<lambda>(a, b). pathLinkKey a b) ` set (path_pairs (pp_path p)) \<longleftrightarrow>
        (\<exists>x \<in> set (path_pairs (pp_path p)). pathLinkKey (fst x) (snd x) = linkStableKey m)"
      by (auto simp: image_iff case_prod_unfold intro: sym)
    also have "\<dots> \<longleftrightarrow> (\<exists>x \<in> set (path_pairs (pp_path p)). (dl_source m, dl_target m) = (pn_id (fst x), pn_id (snd x)))"
      using key [OF p] by (intro bex_cong) auto
    finally show "linkStableKey m \<in> (\<lambda>(a, b). pathLinkKey a b) ` set (path_pairs (pp_path p)) \<longleftrightarrow>
        (dl_source m, dl_target m) \<in> (\<lambda>(a, b). (pn_id a, pn_id b)) ` set (path_pairs (pp_path p))"
      by (simp add: image_iff case_prod_unfold)
  qed
  then show ?thesis using m by (simp add: highlightLink_def Let_def)
qed

text \<open>
  While a node of a visible column or a link is active and some path runs through it, every
  node and link of the graph is either highlighted or dimmed, and it is highlighted exactly
  when it lies on such a path (for rows whose names do not contain U+0000).
\<close>

lemma flow_highlight_exact:
  assumes "\<forall>row \<in> set rows. nul_free row"
    and "activeSelection options (resolveVisibleStages role visibleStages) (graph_paths env rows metric role visibleStages ctx options)"
  shows "(\<forall>n \<in> set (fg_nodes (buildFlowGraph env rows metric role palette visibleStages ctx options)).
      dn_highlighted n = Some (onActivePath options (graph_paths env rows metric role visibleStages ctx options) (dn_id n)) \<and>
      dn_dimmed n = Some (\<not> onActivePath options (graph_paths env rows metric role visibleStages ctx options) (dn_id n))) \<and>
    (\<forall>l \<in> set (fg_links (buildFlowGraph env rows metric role palette visibleStages ctx options)).
      dl_highlighted l = Some (linkOnActivePath options (graph_paths env rows metric role visibleStages ctx options)
        (dl_source l) (dl_target l)) \<and>
      dl_dimmed l = Some (\<not> linkOnActivePath options (graph_paths env rows metric role visibleStages ctx options)
        (dl_source l) (dl_target l)))"
  using highlight_node [OF refl assms(2)] highlight_link [OF assms(1) refl assms(2)] by blast

lemma samplePaths:
  "go_topNodeLimit options = None \<Longrightarrow> preparePaths env rows metric stages ctx options =
     map (\<lambda>row. \<lparr>pp_path = flowPathForStages row stages ctx, pp_metrics = rowMetrics row\<rparr>) rows"
  by (simp add: preparePaths_def normalizeTopNodeLimit_def buildTopNodeSets_def applyTopNodeLimit_def map_filter_def comp_def)

abbreviation sampleActive :: FlowGraphOptions where
  "sampleActive \<equiv> sampleGraphOptions\<lparr>go_activeNode := Some \<lparr>nf_kind = KModel, nf_id = js ''model:m1''\<rparr>\<rparr>"

lemma flow_highlight_exact_witness:
  "list_all (\<lambda>n. dn_highlighted n = Some (dn_id n \<in> {js ''token:ann'', js ''group:vip'', js ''model:m1''}))
     (fg_nodes (buildFlowGraph sampleEnv [sampleRow ''ann'' ''vip'' ''m1'' 3, sampleRow ''bob'' ''vip'' ''m2'' 4]
       MQuota RoleUser None None None sampleActive))"
proof -
  let ?rows = "[sampleRow ''ann'' ''vip'' ''m1'' 3, sampleRow ''bob'' ''vip'' ''m2'' 4]"
  let ?ps = "graph_paths sampleEnv ?rows MQuota RoleUser None None sampleActive"
  have "activeSelection sampleActive (resolveVisibleStages RoleUser None) ?ps"
    by (simp add: activeSelection_def samplePaths matchesPath_def pathContainsFlowNode_def flow_eval)
  moreover have "onActivePath sampleActive ?ps i \<longleftrightarrow> i \<in> {js ''token:ann'', js ''group:vip'', js ''model:m1''}" for i
    by (auto simp: onActivePath_def samplePaths matchesPath_def pathContainsFlowNode_def flow_eval)
  ultimately show ?thesis
    using flow_highlight_exact [OF sampleRows_nul, of sampleActive RoleUser None sampleEnv MQuota None None]
    by (simp add: list_all_iff)
qed

section \<open>Masking\<close>

definition hiddenLabel :: "jsstr \<Rightarrow> bool" where
  "hiddenLabel s \<longleftrightarrow> s = [] \<or> s = FLOW_MASK_TEXT"

lemma hidden_mask [simp]: "hiddenLabel (maskFlowLabel s)"
  by (simp add: maskFlowLabel_def hiddenLabel_def)

definition sensitiveId :: "jsstr \<Rightarrow> bool" where
  "sensitiveId i \<longleftrightarrow> (\<exists>k \<in> set SENSITIVE_FLOW_KINDS. starts_with i (kind_prefix k)) \<and> i \<notin> set OTHER_FLOW_NODE_ID_SET"

lemma sensitive_masked:
  assumes "wf_prepared stages ps" "(i, n) \<in> set (nodeMap color metric ps)"
  shows "maskedNode n \<longleftrightarrow> sensitiveId i"
proof -
  have "(\<exists>k \<in> set SENSITIVE_FLOW_KINDS. starts_with i (kind_prefix k)) \<longleftrightarrow> dn_kind n \<in> set SENSITIVE_FLOW_KINDS"
    using nodeMap_entry(2) [OF assms] kind_prefix_inj by blast
  then show ?thesis using nodeMap_entry(1) [OF assms] by (simp add: maskedNode_def sensitiveId_def)
qed

text \<open>Every end of a link is a node of the graph, so that its label is masked with the node's.\<close>

lemma masked_lookup:
  assumes "wf_prepared stages ps" "s \<in> (\<Union>p \<in> set ps. pn_id ` set (pp_path p))" "sensitiveId s"
  obtains x where "map_of (map (\<lambda>(k, node). (dn_id node, maskFlowLabel (dn_label node)))
    (filter (\<lambda>(k, node). maskedNode node) (nodeMap color metric ps))) s = Some x" "hiddenLabel x"
proof -
  let ?m = "map (\<lambda>(k, node). (dn_id node, maskFlowLabel (dn_label node))) (filter (\<lambda>(k, node). maskedNode node) (nodeMap color metric ps))"
  have "s \<in> set (keys_of (nodeMap color metric ps))" using assms(2) by (simp only: nodeMap_keys)
  then obtain n where n: "(s, n) \<in> set (nodeMap color metric ps)" by auto
  with sensitive_masked [OF assms(1) n] assms(3) have "(s, maskFlowLabel (dn_label n)) \<in> set ?m"
    using nodeMap_entry(1) [OF assms(1) n] 
    unfolding set_map by (intro image_eqI [where x = "(s, n)"]) simp_all
  then obtain x where x: "map_of ?m s = Some x" using weak_map_of_SomeI [of s _ ?m] by blast
  have "hiddenLabel x" using map_of_SomeD [OF x] unfolding set_map by auto
  with x show ?thesis by (rule that)
qed

text \<open>
  C27: With masking on, no label that can identify a user, a node, a token, a group or a channel
  is left in the graph: every such node shows the mask (or an empty label), and so does every
  link at an end of such a kind, except the ones that collect the others.
\<close>

theorem flow_mask_hides:
  assumes "go_maskSensitive options = Some True"
  shows "(\<forall>n \<in> set (fg_nodes (buildFlowGraph env rows metric role palette visibleStages ctx options)).
      dn_kind n \<in> set SENSITIVE_FLOW_KINDS \<longrightarrow> dn_id n \<in> set OTHER_FLOW_NODE_ID_SET \<or> hiddenLabel (dn_label n)) \<and>
    (\<forall>l \<in> set (fg_links (buildFlowGraph env rows metric role palette visibleStages ctx options)).
      (sensitiveId (dl_source l) \<longrightarrow> hiddenLabel (dl_sourceLabel l)) \<and> (sensitiveId (dl_target l) \<longrightarrow> hiddenLabel (dl_targetLabel l)))"
proof -
  let ?ps = "graph_paths env rows metric role visibleStages ctx options"
  note wf = preparePaths_wf [of role visibleStages env rows metric ctx options]
  show ?thesis
  proof (intro conjI ballI)
    fix n assume "n \<in> set (fg_nodes (buildFlowGraph env rows metric role palette visibleStages ctx options))"
    from refl this obtain i m where
      m1: "(i, m) \<in> set (fst (maskedMaps options (baseMaps env metric palette ?ps)))"
        "n = (case buildFlowHighlightSets ?ps (go_activeNode options) (go_activeLink options)
          (resolveVisibleStages role visibleStages) of None \<Rightarrow> m | Some sets \<Rightarrow> highlightNode sets m)"
      by (rule graph_node)
    have m: "dn_id n = dn_id m" "dn_kind n = dn_kind m" "dn_label n = dn_label m"
      unfolding m1(2) by (auto simp: highlightNode_def Let_def split: option.splits)
    from m1(1) obtain v where "dn_id m = dn_id v" "dn_kind m = dn_kind v"
      "dn_label m = (if go_maskSensitive options = Some True \<and> maskedNode v then maskFlowLabel (dn_label v) else dn_label v)"
      by (rule masked_node)
    with m assms
    show "dn_kind n \<in> set SENSITIVE_FLOW_KINDS \<longrightarrow> dn_id n \<in> set OTHER_FLOW_NODE_ID_SET \<or> hiddenLabel (dn_label n)"
      by (auto simp: maskedNode_def)
  next
    fix l assume "l \<in> set (fg_links (buildFlowGraph env rows metric role palette visibleStages ctx options))"
    from refl this obtain i m m' where
      m1: "(i, m) \<in> set (snd (maskedMaps options (baseMaps env metric palette ?ps)))"
        "m' = (case buildFlowHighlightSets ?ps (go_activeNode options) (go_activeLink options)
          (resolveVisibleStages role visibleStages) of None \<Rightarrow> m | Some sets \<Rightarrow> highlightLink sets m)"
        "dl_source l = dl_source m'" "dl_target l = dl_target m'" "dl_sourceLabel l = dl_sourceLabel m'"
        "dl_targetLabel l = dl_targetLabel m'"
      by (rule graph_link)
    have m: "dl_source l = dl_source m" "dl_target l = dl_target m" "dl_sourceLabel l = dl_sourceLabel m"
      "dl_targetLabel l = dl_targetLabel m"
      unfolding m1 by (auto simp: highlightLink_def Let_def split: option.splits)
    from m1(1) obtain l0 where l0: "(i, l0) \<in> set (linkMap (graphColor env palette ?ps) metric ?ps)"
      "dl_source m = dl_source l0" "dl_target m = dl_target l0"
      "go_maskSensitive options = Some True \<longrightarrow> m = maskLinkLabels (map (\<lambda>(k, node). (dn_id node, maskFlowLabel (dn_label node)))
        (filter (\<lambda>(k, node). maskedNode node) (nodeMap (graphColor env palette ?ps) metric ?ps))) l0"
      by (rule masked_link)
    note look = masked_lookup [OF wf, of _ "graphColor env palette ?ps" metric]
    have "hiddenLabel (dl_sourceLabel l)" if s: "sensitiveId (dl_source l0)"
      using linkMap_source(1) [OF l0(1)] s
      by (rule look) (simp add: mp [OF l0(4) assms] m maskLinkLabels_def)
    moreover have "hiddenLabel (dl_targetLabel l)" if s: "sensitiveId (dl_target l0)"
      using linkMap_source(2) [OF l0(1)] s
      by (rule look) (simp add: mp [OF l0(4) assms] m maskLinkLabels_def)
    ultimately show "sensitiveId (dl_source l) \<longrightarrow> hiddenLabel (dl_sourceLabel l)"
      "sensitiveId (dl_target l) \<longrightarrow> hiddenLabel (dl_targetLabel l)"
      using l0(2,3) m by simp_all
  qed
qed

theorem flow_mask_hides_witness:
  "list_all (\<lambda>n. dn_kind n = KModel \<or> dn_id n \<in> set OTHER_FLOW_NODE_ID_SET \<or> hiddenLabel (dn_label n))
     (fg_nodes (buildFlowGraph sampleEnv [sampleRow ''ann'' ''vip'' ''m1'' 3, sampleRow ''bob'' ''vip'' ''m2'' 4]
       MQuota RoleUser None None None (sampleGraphOptions\<lparr>go_maskSensitive := Some True\<rparr>)))"
proof -
  have "k = KModel \<or> k \<in> set SENSITIVE_FLOW_KINDS" for k
    by (cases k) (simp_all add: SENSITIVE_FLOW_KINDS_def)
  then show ?thesis
    using flow_mask_hides [of "sampleGraphOptions\<lparr>go_maskSensitive := Some True\<rparr>" sampleEnv
        "[sampleRow ''ann'' ''vip'' ''m1'' 3, sampleRow ''bob'' ''vip'' ''m2'' 4]" MQuota RoleUser None None None]
    by (fastforce simp: list_all_iff)
qed

text \<open>Everything but the labels: of a node and of a link.\<close>

definition plainNode :: "DashboardFlowNode \<Rightarrow> DashboardFlowNode" where
  "plainNode n = n\<lparr>dn_label := []\<rparr>"

definition plainLink :: "DashboardFlowLink \<Rightarrow> DashboardFlowLink" where
  "plainLink l = l\<lparr>dl_sourceLabel := [], dl_targetLabel := []\<rparr>"

lemma plainLink_fields [simp]:
  "dl_source (plainLink l) = dl_source l" "dl_target (plainLink l) = dl_target l" "dl_value (plainLink l) = dl_value l"
  "dl_color (plainLink l) = dl_color l" "linkStableKey (plainLink l) = linkStableKey l"
  by (simp_all add: plainLink_def linkStableKey_def)

lemma js_sort_map:
  assumes "\<And>a b. cmp (f a) (f b) = cmp' a b"
  shows "js_sort cmp (map f xs) = map f (js_sort cmp' xs)"
proof -
  have "sort_insert cmp (f x) (map f ys) = map f (sort_insert cmp' x ys)" for x ys
    by (induction ys) (auto simp: assms)
  then show ?thesis by (induction xs) simp_all
qed

lemma linksBySource_plain:
  "linksBySource (map plainLink links) = map (\<lambda>(s, ls). (s, map plainLink ls)) (linksBySource links)"
proof -
  have step: "upsert k [] (\<lambda>ls. ls @ [plainLink l]) (map (\<lambda>(s, ls). (s, map plainLink ls)) m) =
      map (\<lambda>(s, ls). (s, map plainLink ls)) (upsert k [] (\<lambda>ls. ls @ [l]) m)" for k l m
    by (auto simp: upsert_def map_of_map update_map [of k "map plainLink", symmetric] split: option.split)
  have "foldl (\<lambda>m link. upsert (dl_source link) [] (\<lambda>ls. ls @ [link]) m) (map (\<lambda>(s, ls). (s, map plainLink ls)) m) (map plainLink links) =
      map (\<lambda>(s, ls). (s, map plainLink ls)) (foldl (\<lambda>m link. upsert (dl_source link) [] (\<lambda>ls. ls @ [link]) m) m links)" for m
    by (induction links arbitrary: m) (simp_all add: step)
  from this [of "[]"] show ?thesis by (simp add: linksBySource_def)
qed

lemma displayColors_plain: "linkDisplayColors env (map plainLink ls) = linkDisplayColors env ls"
proof -
  let ?c = "cmp_or (cmp_desc (cmp_key dl_value cmp_rat)) (cmp_key linkStableKey (env_localeCompare env))"
  have sort: "js_sort ?c (map plainLink ls) = map plainLink (js_sort ?c ls)"
    by (rule js_sort_map) (simp add: cmp_or_def cmp_desc_def cmp_key_def)
  have enum: "enumerate n (map plainLink xs) = map (\<lambda>(i, l). (i, plainLink l)) (enumerate n xs)" for n and xs :: "DashboardFlowLink list"
    by (induction xs arbitrary: n) simp_all
  show ?thesis by (simp add: linkDisplayColors_def Let_def sort enum case_prod_unfold)
qed

lemma assign_plain: "assignLinkDisplayColors env (map plainLink links) = map plainLink (assignLinkDisplayColors env links)"
  by (auto simp: assignLinkDisplayColors_def Let_def linksBySource_plain displayColors_plain comp_def case_prod_unfold
      plainLink_def linkStableKey_def split: option.split)

lemma mask_plain:
  "map (\<lambda>x. plainNode (snd x)) (fst (maskFlowGraphLabels nodes links)) = map (\<lambda>x. plainNode (snd x)) nodes"
  "map (\<lambda>x. plainLink (snd x)) (snd (maskFlowGraphLabels nodes links)) = map (\<lambda>x. plainLink (snd x)) links"
  by (auto simp: maskFlowGraphLabels_def Let_def plainNode_def plainLink_def maskLinkLabels_def)

lemma highlight_plain:
  assumes "map (\<lambda>x. plainNode (snd x)) nodes = map (\<lambda>x. plainNode (snd x)) nodes'"
    and "map (\<lambda>x. plainLink (snd x)) links = map (\<lambda>x. plainLink (snd x)) links'"
  shows "map (\<lambda>x. plainNode (snd x)) (fst (applyFlowHighlights nodes links sets)) =
      map (\<lambda>x. plainNode (snd x)) (fst (applyFlowHighlights nodes' links' sets))"
    "map (\<lambda>x. plainLink (snd x)) (snd (applyFlowHighlights nodes links sets)) =
      map (\<lambda>x. plainLink (snd x)) (snd (applyFlowHighlights nodes' links' sets))"
proof -
  have comm: "plainNode (highlightNode s n) = highlightNode s (plainNode n)" "plainLink (highlightLink s l) = highlightLink s (plainLink l)" for s n l
    by (simp_all add: plainNode_def plainLink_def highlightNode_def highlightLink_def linkStableKey_def Let_def)
  have "map (\<lambda>x. highlightNode s (plainNode (snd x))) nodes = map (\<lambda>x. highlightNode s (plainNode (snd x))) nodes'"
    "map (\<lambda>x. highlightLink s (plainLink (snd x))) links = map (\<lambda>x. highlightLink s (plainLink (snd x))) links'" for s
    using arg_cong [OF assms(1), of "map (highlightNode s)"] arg_cong [OF assms(2), of "map (highlightLink s)"]
    by (simp_all add: comp_def)
  then show "map (\<lambda>x. plainNode (snd x)) (fst (applyFlowHighlights nodes links sets)) =
      map (\<lambda>x. plainNode (snd x)) (fst (applyFlowHighlights nodes' links' sets))"
    "map (\<lambda>x. plainLink (snd x)) (snd (applyFlowHighlights nodes links sets)) =
      map (\<lambda>x. plainLink (snd x)) (snd (applyFlowHighlights nodes' links' sets))"
    using assms by (simp_all add: applyFlowHighlights_def case_prod_unfold comp_def comm split: option.split)
qed

lemma graph_links_plain:
  fixes m m' :: "(jsstr \<times> DashboardFlowLink) list"
  assumes "map (\<lambda>x. plainLink (snd x)) m = map (\<lambda>x. plainLink (snd x)) m'"
  shows "map plainLink (assignLinkDisplayColors env (map (withShare (linkTotal ps (js_sort (linkOrder env) (map snd m))))
      (js_sort (linkOrder env) (map snd m)))) =
    map plainLink (assignLinkDisplayColors env (map (withShare (linkTotal ps (js_sort (linkOrder env) (map snd m'))))
      (js_sort (linkOrder env) (map snd m'))))"
proof -
  have total: "linkTotal ps (map plainLink xs) = linkTotal ps xs" for xs
    by (simp add: linkTotal_def filter_map comp_def)
  have share: "map plainLink (map (withShare t) xs) = map (withShare t) (map plainLink xs)" for t xs
    by (simp add: plainLink_def)
  have sort: "map plainLink (js_sort (linkOrder env) (map snd x)) = js_sort (linkOrder env) (map (\<lambda>x. plainLink (snd x)) x)"
    for x :: "(jsstr \<times> DashboardFlowLink) list"
    by (subst js_sort_map [symmetric, where cmp = "linkOrder env"]) (simp_all add: linkOrder_def cmp_or_def cmp_key_def comp_def)
  have "map plainLink (assignLinkDisplayColors env (map (withShare (linkTotal ps xs)) xs)) =
      assignLinkDisplayColors env (map (withShare (linkTotal ps (map plainLink xs))) (map plainLink xs))" for xs
    by (simp only: assign_plain [symmetric] share total)
  then show ?thesis by (simp only: sort assms)
qed

text \<open>
  Masking changes nothing but labels: the links of the masked graph are those of the plain
  graph in the same order, with the same values, shares, colours and highlighting, and the
  nodes are the same up to their labels and their order.
\<close>

lemma flow_mask_keeps_structure:
  "map plainLink (fg_links (buildFlowGraph env rows metric role palette visibleStages ctx (options\<lparr>go_maskSensitive := Some True\<rparr>))) =
     map plainLink (fg_links (buildFlowGraph env rows metric role palette visibleStages ctx (options\<lparr>go_maskSensitive := None\<rparr>))) \<and>
   mset (map plainNode (fg_nodes (buildFlowGraph env rows metric role palette visibleStages ctx (options\<lparr>go_maskSensitive := Some True\<rparr>)))) =
     mset (map plainNode (fg_nodes (buildFlowGraph env rows metric role palette visibleStages ctx (options\<lparr>go_maskSensitive := None\<rparr>))))"
proof -
  let ?stages = "resolveVisibleStages role visibleStages"
  have same: "preparePaths env rows metric ?stages ctx (options\<lparr>go_maskSensitive := b\<rparr>) = preparePaths env rows metric ?stages ctx options" for b
    by (simp add: preparePaths_def)
  let ?ps = "preparePaths env rows metric ?stages ctx options"
  note wf = preparePaths_wf [of role visibleStages env rows metric ctx options]
  let ?M = "\<lambda>b. markedMaps env metric palette ?stages (options\<lparr>go_maskSensitive := b\<rparr>) ?ps"
  have nodes: "map (\<lambda>x. plainNode (snd x)) (fst (?M (Some True))) = map (\<lambda>x. plainNode (snd x)) (fst (?M None))"
    and links: "map (\<lambda>x. plainLink (snd x)) (snd (?M (Some True))) = map (\<lambda>x. plainLink (snd x)) (snd (?M None))"
    unfolding markedMaps_eq [OF wf] Let_def maskedMaps_def
    by (simp, rule highlight_plain [OF mask_plain])+
  have "mset (map plainNode (js_sort c (map snd (fst (?M (Some True)))))) = mset (map plainNode (js_sort c (map snd (fst (?M None)))))" for c
    unfolding mset_map_sorted nodes ..
  then show ?thesis
    unfolding buildFlowGraph_eq [OF refl refl refl refl] same using graph_links_plain [OF links] by simp
qed

text \<open>
  The order of the nodes is not kept: two users with equal consumption are listed by name
  without masking, and in the order of their rows with masking, where all labels are equal.
\<close>

lemma flow_mask_reorders_ties:
  "map dn_id (fg_nodes (buildFlowGraph sampleEnv [sampleRow ''b'' ''g'' ''m'' 1, sampleRow ''a'' ''g'' ''m'' 1]
      MQuota RoleUser None (Some [KToken, KGroup]) None (sampleGraphOptions\<lparr>go_maskSensitive := None\<rparr>))) =
     [js ''group:g'', js ''token:a'', js ''token:b''] \<and>
   map dn_id (fg_nodes (buildFlowGraph sampleEnv [sampleRow ''b'' ''g'' ''m'' 1, sampleRow ''a'' ''g'' ''m'' 1]
      MQuota RoleUser None (Some [KToken, KGroup]) None (sampleGraphOptions\<lparr>go_maskSensitive := Some True\<rparr>))) =
     [js ''group:g'', js ''token:b'', js ''token:a'']"
proof -
  let ?rows = "[sampleRow ''b'' ''g'' ''m'' 1, sampleRow ''a'' ''g'' ''m'' 1]"
  have stages: "resolveVisibleStages RoleUser (Some [KToken, KGroup]) = [KToken, KGroup]"
    by (simp add: resolveVisibleStages_def getFlowStages_def MIN_FLOW_STAGES_def)
  let ?ps = "preparePaths sampleEnv ?rows MQuota [KToken, KGroup] None sampleGraphOptions"
  have ps: "preparePaths sampleEnv ?rows MQuota [KToken, KGroup] None (sampleGraphOptions\<lparr>go_maskSensitive := b\<rparr>) = ?ps" for b
    by (simp add: preparePaths_def)
  have wf: "wf_prepared [KToken, KGroup] ?ps"
    using preparePaths_wf [of RoleUser "Some [KToken, KGroup]"] unfolding stages .
  have nodes: "map (\<lambda>(i, n). (i, dn_id n, dn_label n, dn_kind n, dn_value n)) (nodeMap c MQuota ?ps) =
    [(js ''token:b'', js ''token:b'', js ''b'', KToken, 1), (js ''group:g'', js ''group:g'', js ''g'', KGroup, 2),
     (js ''token:a'', js ''token:a'', js ''a'', KToken, 1)]" for c
    by (simp add: samplePaths nodeMap_def nodeSteps_def addNode_def upsert_def flow_eval)
  obtain a g b where m: "nodeMap (graphColor sampleEnv None ?ps) MQuota ?ps =
      [(js ''token:b'', b), (js ''group:g'', g), (js ''token:a'', a)]"
    and f: "dn_id b = js ''token:b''" "dn_label b = js ''b''" "dn_kind b = KToken" "dn_value b = 1"
      "dn_id g = js ''group:g''" "dn_label g = js ''g''" "dn_kind g = KGroup" "dn_value g = 2"
      "dn_id a = js ''token:a''" "dn_label a = js ''a''" "dn_kind a = KToken" "dn_value a = 1"
    using nodes [of "graphColor sampleEnv None ?ps"] by (auto simp: map_eq_Cons_conv)
  have masked: "maskedNode b" "maskedNode g" "maskedNode a"
    by (simp_all add: maskedNode_def f SENSITIVE_FLOW_KINDS_def OTHER_FLOW_NODE_ID_SET_def FLOW_NODE_KINDS_def js_simps)
  show ?thesis
    unfolding buildFlowGraph_eq [OF refl refl refl refl] stages ps markedMaps_eq [OF wf]
    by (simp add: m Let_def applyFlowHighlights_def buildFlowHighlightSets_def maskedMaps_def maskFlowGraphLabels_def
        masked byValueThenLabel_def cmp_or_def cmp_desc_def cmp_key_def cmp_rat_def maskFlowLabel_def f)
      (simp add: sampleEnv_def js_simps FLOW_MASK_TEXT_def)
qed

end
