(* ===== verification/Model_Mapping.thy ===== *)
theory Model_Mapping
  imports JS_Json
begin

text \<open>
  The model list and the model mapping of a channel,
  \<open>features/channels/lib/model-mapping-validation.ts\<close>: reading and writing the list, the
  source and target models of the mapping's JSON text, the models missing from the list, the
  targets exposed in it, the validation of the text and the classification for display.
\<close>

definition parseModelsString :: "jsstr \<Rightarrow> jsstr list" where
  "parseModelsString modelsStr =
     (if modelsStr \<noteq> [] then filter (\<lambda>m. m \<noteq> []) (map trim (split_on 44 modelsStr)) else [])"

definition formatModelsArray :: "jsstr list \<Rightarrow> jsstr" where
  "formatModelsArray models = join [44] (set_of models)"

definition normalizeModelName :: "jsstr \<Rightarrow> jsstr" where
  "normalizeModelName model = trim model"

text \<open>The object a text denotes, when it parses to an object that is not an array.\<close>

definition parsedObject :: "jsstr \<Rightarrow> (jsstr \<times> json) list option" where
  "parsedObject s = (case json_parse s of Some (JObj m) \<Rightarrow> Some m | _ \<Rightarrow> None)"

definition extractMappingSourceModels :: "jsstr \<Rightarrow> jsstr list" where
  "extractMappingSourceModels modelMapping =
     (let trimmed = trim modelMapping in
      if trimmed = [] then []
      else case parsedObject trimmed of
          None \<Rightarrow> []
        | Some parsed \<Rightarrow> set_of (filter (\<lambda>k. k \<noteq> []) (map (\<lambda>e. trim (fst e)) (js_entries parsed))))"

definition redirectValue :: "json \<Rightarrow> jsstr option" where
  "redirectValue v = (case v of JStr s \<Rightarrow> if trim s = [] then None else Some (trim s) | _ \<Rightarrow> None)"

definition extractRedirectModels :: "jsstr \<Rightarrow> jsstr list" where
  "extractRedirectModels modelMapping =
     (let trimmed = trim modelMapping in
      if trimmed = [] then []
      else case parsedObject trimmed of
          None \<Rightarrow> []
        | Some parsed \<Rightarrow> set_of (List.map_filter (\<lambda>e. redirectValue (snd e)) (js_entries parsed)))"

fun differentAt :: "jsstr list \<Rightarrow> jsstr list \<Rightarrow> bool" where
  "differentAt (c # cs) (i # is) = (c \<noteq> i \<or> differentAt cs is)"
| "differentAt _ _ = False"

definition hasModelConfigChanged :: "jsstr list \<Rightarrow> jsstr \<Rightarrow> jsstr list \<Rightarrow> jsstr \<Rightarrow> bool" where
  "hasModelConfigChanged currentModels currentModelMapping initialModels initialModelMapping =
     (if length initialModels = 0 \<and> initialModelMapping = [] then True
      else if length currentModels \<noteq> length initialModels then True
      else if differentAt currentModels initialModels then True
      else trim currentModelMapping \<noteq> trim initialModelMapping)"

definition findMissingModelsInMapping :: "jsstr \<Rightarrow> jsstr list \<Rightarrow> jsstr list" where
  "findMissingModelsInMapping modelMapping currentModels =
     (if modelMapping = [] \<or> trim modelMapping = [] then []
      else case parsedObject modelMapping of
          None \<Rightarrow> []
        | Some parsedMapping \<Rightarrow>
            (let modelSet = set_of (map normalizeModelName currentModels);
                 missingModels = filter (\<lambda>key. key \<noteq> [] \<and> key \<notin> set modelSet)
                   (map (\<lambda>e. normalizeModelName (fst e)) (js_entries parsedMapping))
             in set_of missingModels))"

record MappingValidation =
  mv_valid :: bool
  mv_error :: "jsstr option"

definition isJsonString :: "json \<Rightarrow> bool" where
  "isJsonString v = (case v of JStr _ \<Rightarrow> True | _ \<Rightarrow> False)"

definition validateModelMappingJson :: "jsstr \<Rightarrow> MappingValidation" where
  "validateModelMappingJson modelMapping =
     (if modelMapping = [] \<or> trim modelMapping = [] then \<lparr>mv_valid = True, mv_error = None\<rparr>
      else case json_parse modelMapping of
          None \<Rightarrow> \<lparr>mv_valid = False, mv_error = Some (js ''Model mapping must be valid JSON format'')\<rparr>
        | Some (JObj parsed) \<Rightarrow>
            if list_ex (\<lambda>e. \<not> isJsonString (snd e)) (js_entries parsed)
            then \<lparr>mv_valid = False, mv_error = Some (js ''Model mapping values must be strings'')\<rparr>
            else \<lparr>mv_valid = True, mv_error = None\<rparr>
        | Some _ \<Rightarrow> \<lparr>mv_valid = False, mv_error = Some (js ''Model mapping must be a valid JSON object'')\<rparr>)"

definition findExposedTargetModels :: "jsstr \<Rightarrow> jsstr list \<Rightarrow> jsstr list" where
  "findExposedTargetModels modelMapping currentModels =
     (let redirectModels = extractRedirectModels modelMapping in
      if redirectModels = [] then []
      else (let modelSet = set_of (map normalizeModelName currentModels)
            in filter (\<lambda>model. normalizeModelName model \<in> set modelSet) redirectModels))"

record ModelCategories =
  mc_normalizedCurrentModels :: "jsstr list"
  mc_normalizedRedirectModels :: "jsstr list"
  mc_classificationSet :: "jsstr list"
  mc_redirectOnlySet :: "jsstr list"

definition categorizeModelsWithRedirect :: "jsstr list \<Rightarrow> jsstr list \<Rightarrow> ModelCategories" where
  "categorizeModelsWithRedirect currentModels redirectModels =
     (let normalizedCurrentModels = set_of (filter (\<lambda>m. m \<noteq> []) (map normalizeModelName currentModels));
          normalizedRedirectModels = set_of (filter (\<lambda>m. m \<noteq> []) (map normalizeModelName redirectModels))
      in \<lparr>mc_normalizedCurrentModels = normalizedCurrentModels,
          mc_normalizedRedirectModels = normalizedRedirectModels,
          mc_classificationSet = set_of (normalizedCurrentModels @ normalizedRedirectModels),
          mc_redirectOnlySet = set_of (filter (\<lambda>m. m \<notin> set normalizedCurrentModels) normalizedRedirectModels)\<rparr>)"

section \<open>Lemmas\<close>

lemma parsedObject_trim: "parsedObject s = Some m \<Longrightarrow> parsedObject (trim s) = Some m"
  by (auto simp: parsedObject_def json_parse_trim split: option.splits json.splits)

lemma differentAt_iff: "length a = length b \<Longrightarrow> differentAt a b \<longleftrightarrow> a \<noteq> b"
  by (induction a b rule: list_induct2) auto

text \<open>The trimmed keys of a mapping that are not empty.\<close>

definition sourceModels :: "(jsstr \<times> json) list \<Rightarrow> jsstr set" where
  "sourceModels m = trim ` set (keys_of m) - {[]}"

definition targetModels :: "(jsstr \<times> json) list \<Rightarrow> jsstr set" where
  "targetModels m = {t. t \<noteq> [] \<and> (\<exists>e \<in> set m. \<exists>s. snd e = JStr s \<and> trim s = t)}"

lemma missing_set:
  assumes "parsedObject mapping = Some m"
  shows "set (findMissingModelsInMapping mapping models) =
    (if trim mapping = [] then {} else sourceModels m - trim ` set models)"
  using assms by (auto simp: findMissingModelsInMapping_def Let_def sourceModels_def normalizeModelName_def)

lemma json_parse_blank: "trim s = [] \<Longrightarrow> json_parse s = None"
proof -
  assume "trim s = []"
  then have "\<forall>c \<in> set s. is_ws c" by (simp add: trim_eq_Nil)
  then have "tokenize s = None \<or> tokenize s = Some []"
    using ws_not_lexed by (induction s) auto
  then show ?thesis by (auto simp: json_parse_def)
qed

lemma parsedObject_nonblank: "parsedObject s = Some m \<Longrightarrow> trim s \<noteq> []"
  using json_parse_blank by (auto simp: parsedObject_def)

lemma source_set:
  assumes "parsedObject mapping = Some m"
  shows "set (extractMappingSourceModels mapping) = sourceModels m"
  using parsedObject_trim [OF assms] parsedObject_nonblank [OF assms]
  by (auto simp: extractMappingSourceModels_def Let_def sourceModels_def)

lemma set_map_filter: "y \<in> set (List.map_filter f xs) \<longleftrightarrow> (\<exists>x \<in> set xs. f x = Some y)"
  by (induction xs) (auto split: option.split)

lemma redirectValue_iff: "redirectValue v = Some t \<longleftrightarrow> t \<noteq> [] \<and> (\<exists>s. v = JStr s \<and> trim s = t)"
  by (auto simp: redirectValue_def split: json.splits)

lemma target_set:
  assumes "parsedObject mapping = Some m"
  shows "set (extractRedirectModels mapping) = targetModels m"
proof -
  have "extractRedirectModels mapping = set_of (List.map_filter (\<lambda>e. redirectValue (snd e)) (js_entries m))"
    using parsedObject_trim [OF assms] parsedObject_nonblank [OF assms] by (simp add: extractRedirectModels_def)
  then show ?thesis
    by (intro set_eqI)
      (simp only: set_set_of set_map_filter redirectValue_iff targetModels_def mem_Collect_eq set_js_entries, blast)
qed

lemma validate_cases:
  "mv_valid (validateModelMappingJson mapping) \<longleftrightarrow>
     trim mapping = [] \<or> (\<exists>m. parsedObject mapping = Some m \<and> (\<forall>e \<in> set m. isJsonString (snd e)))"
  using json_parse_blank [of mapping]
  by (auto simp: validateModelMappingJson_def parsedObject_def list_ex_iff split: option.splits json.splits)

section \<open>Properties\<close>

text \<open>
  The model list survives saving and loading: for models that are trimmed, not empty and
  without a comma, reading the text written for them gives them back without repetitions, in
  the order of their first occurrence.
\<close>

lemma models_string_roundtrip:
  assumes "\<forall>m \<in> set models. m \<noteq> [] \<and> trim m = m \<and> 44 \<notin> set m"
  shows "parseModelsString (formatModelsArray models) = set_of models"
proof (cases "models = []")
  case False
  then have ne: "set_of models \<noteq> []" by simp
  have "split_on 44 (join [44] (set_of models)) = set_of models"
    using assms ne by (intro split_on_join) auto
  moreover have "join [44] (set_of models) \<noteq> []"
    using assms ne by (cases "set_of models" rule: list.exhaust; cases "tl (set_of models)")
      (auto simp: join_Cons, metis list.set_intros(1) set_set_of)
  moreover have "filter (\<lambda>m. m \<noteq> []) (map trim (set_of models)) = set_of models"
  proof -
    have "map trim (set_of models) = set_of models" by (rule map_idI) (use assms in auto)
    then show ?thesis using assms by (simp add: filter_id_conv)
  qed
  ultimately show ?thesis by (simp add: parseModelsString_def formatModelsArray_def)
qed (simp add: parseModelsString_def formatModelsArray_def)

lemma models_string_roundtrip_witness:
  "parseModelsString (formatModelsArray [js ''gpt-4o'', js ''o3'', js ''gpt-4o'']) = [js ''gpt-4o'', js ''o3'']"
proof -
  have "set_of [js ''gpt-4o'', js ''o3'', js ''gpt-4o''] = [js ''gpt-4o'', js ''o3'']"
    by (simp add: set_of_def set_add_def js_simps)
  moreover have "parseModelsString (formatModelsArray [js ''gpt-4o'', js ''o3'', js ''gpt-4o'']) =
      set_of [js ''gpt-4o'', js ''o3'', js ''gpt-4o'']"
    by (rule models_string_roundtrip) (simp add: js_simps trim_def trim_left_def is_ws_def)
  ultimately show ?thesis by simp
qed

text \<open>
  For a mapping that the validation accepts, the functions that read its text agree on one
  object: the sources are its trimmed keys, the targets its trimmed values, and the missing
  models are exactly the sources that the model list does not have.
\<close>

lemma mapping_readers_agree:
  assumes "mv_valid (validateModelMappingJson mapping)" and "trim mapping \<noteq> []"
  shows "\<exists>m. json_parse mapping = Some (JObj m) \<and>
    set (extractMappingSourceModels mapping) = sourceModels m \<and>
    set (extractRedirectModels mapping) = targetModels m \<and>
    set (findMissingModelsInMapping mapping models) = sourceModels m - trim ` set models"
proof -
  obtain m where m: "parsedObject mapping = Some m" using assms by (auto simp: validate_cases)
  have "json_parse mapping = Some (JObj m)"
    using m by (auto simp: parsedObject_def split: option.splits json.splits)
  then show ?thesis
    using source_set [OF m] target_set [OF m] missing_set [OF m, of models] assms(2) by auto
qed

lemma sampleMapping:
  "json_parse (js ''{ \"a\": \"b\", \" c\": \"a \" }'') =
     Some (JObj [(js ''a'', JStr (js ''b'')), (js '' c'', JStr (js ''a ''))])"
  by (simp add: json_parse_def lex_token_def punctuation_def json_ws_def escape_char_def js_simps)

lemma mapping_readers_agree_witness:
  "\<exists>m. json_parse (js ''{ \"a\": \"b\", \" c\": \"a \" }'') = Some (JObj m) \<and>
     set (findMissingModelsInMapping (js ''{ \"a\": \"b\", \" c\": \"a \" }'') [js ''a'']) = {js ''c''}"
proof -
  let ?t = "js ''{ \"a\": \"b\", \" c\": \"a \" }''"
  have ne: "trim ?t \<noteq> []" by (simp add: trim_eq_Nil is_ws_def js_simps)
  have "mv_valid (validateModelMappingJson ?t)"
    by (simp add: validate_cases parsedObject_def sampleMapping isJsonString_def)
  from mapping_readers_agree [OF this ne, of "[js ''a'']"] obtain m where
    m: "json_parse ?t = Some (JObj m)" "set (findMissingModelsInMapping ?t [js ''a'']) = sourceModels m - trim ` set [js ''a'']"
    by blast
  have "m = [(js ''a'', JStr (js ''b'')), (js '' c'', JStr (js ''a ''))]" using m(1) by (simp add: sampleMapping)
  then have "set (keys_of m) = {js ''a'', js '' c''}" by simp
  moreover have "trim (js ''a'') = js ''a''" "trim (js '' c'') = js ''c''" "js ''a'' \<noteq> js ''c''"
    by (simp_all add: trim_def trim_left_def is_ws_def js_simps)
  ultimately have "sourceModels m - trim ` set [js ''a''] = {js ''c''}" by (simp add: sourceModels_def insert_Diff_if)
  with m show ?thesis by metis
qed

text \<open>
  Completing the model list removes the warning about missing models: after the missing
  models of a mapping are appended to the list, no model of that mapping is missing.
\<close>

lemma missing_models_completed:
  "findMissingModelsInMapping mapping (models @ findMissingModelsInMapping mapping models) = []"
proof (cases "parsedObject mapping")
  case None
  then show ?thesis by (simp add: findMissingModelsInMapping_def)
next
  case (Some m)
  have "trim x = x" if "x \<in> sourceModels m" for x using that by (auto simp: sourceModels_def)
  then have "trim ` (sourceModels m - A) = sourceModels m - A" for A by force
  then have "set (findMissingModelsInMapping mapping (models @ findMissingModelsInMapping mapping models)) = {}"
    by (simp add: missing_set [OF Some] image_Un)
  then show ?thesis by simp
qed

text \<open>
  The classification shown for fetched models is a partition: the current models and the
  models that are only reached by a redirect are disjoint, and together they are all models
  classified, each listed once and none empty.
\<close>

lemma model_categories_partition:
  "let c = categorizeModelsWithRedirect models redirects in
     set (mc_normalizedCurrentModels c) \<inter> set (mc_redirectOnlySet c) = {} \<and>
     set (mc_normalizedCurrentModels c) \<union> set (mc_redirectOnlySet c) = set (mc_classificationSet c) \<and>
     distinct (mc_classificationSet c) \<and> [] \<notin> set (mc_classificationSet c)"
  by (auto simp: categorizeModelsWithRedirect_def Let_def)

text \<open>
  A channel form counts as unchanged exactly when an existing channel still has the same
  list of models and, up to surrounding white space, the same mapping text.
\<close>

lemma config_changed_exact:
  "\<not> hasModelConfigChanged cur curMap init initMap \<longleftrightarrow>
     \<not> (init = [] \<and> initMap = []) \<and> cur = init \<and> trim curMap = trim initMap"
  by (auto simp: hasModelConfigChanged_def differentAt_iff)

end
