(* ===== verification/Playground_Messages.thy ===== *)
theory Playground_Messages
  imports JS_Json
begin

text \<open>
  The messages of the chat playground (\<open>features/playground/lib/message\<close>): their data, the
  separation of reasoning from visible text, the application of stream chunks, completion
  and errors. \<open>Date.now()\<close> and the identifiers of \<open>nanoid\<close> are arguments.
\<close>

section \<open>Messages\<close>

datatype MessageRole = User | Assistant | SystemRole
datatype MessageStatus = Loading | Streaming | Complete | Error

record MessageVersion =
  mv_id :: jsstr
  mv_content :: jsstr

record Reasoning =
  re_content :: jsstr
  re_duration :: int
  re_startedAt :: "int option"
  re_completedAt :: "int option"
  re_durationMs :: "int option"

record Message =
  ms_key :: jsstr
  ms_from :: MessageRole
  ms_versions :: "MessageVersion list"
  ms_createdAt :: "int option"
  ms_startedAt :: "int option"
  ms_completedAt :: "int option"
  ms_durationMs :: "int option"
  ms_sources :: "(jsstr \<times> jsstr) list option"
  ms_reasoning :: "Reasoning option"
  ms_isReasoningStreaming :: bool
  ms_isReasoningComplete :: bool
  ms_isContentComplete :: bool
  ms_status :: "MessageStatus option"
  ms_errorCode :: "jsstr option"

definition createMessageVersion :: "jsstr \<Rightarrow> jsstr \<Rightarrow> MessageVersion" where
  "createMessageVersion nano content = \<lparr>mv_id = nano, mv_content = content\<rparr>"

definition getCurrentVersion :: "Message \<Rightarrow> MessageVersion" where
  "getCurrentVersion message =
     (case ms_versions message of v # _ \<Rightarrow> v | [] \<Rightarrow> \<lparr>mv_id = js ''default'', mv_content = []\<rparr>)"

definition getMessageContent :: "Message \<Rightarrow> jsstr" where
  "getMessageContent message = mv_content (getCurrentVersion message)"

definition hasMessageContent :: "Message \<Rightarrow> bool" where
  "hasMessageContent message \<longleftrightarrow> trim (getMessageContent message) \<noteq> []"

definition updateCurrentVersionContent :: "Message \<Rightarrow> jsstr \<Rightarrow> Message" where
  "updateCurrentVersionContent message content =
     message\<lparr>ms_versions := [(getCurrentVersion message)\<lparr>mv_content := content\<rparr>]\<rparr>"

definition createUserMessage :: "jsstr \<Rightarrow> jsstr \<Rightarrow> jsstr \<Rightarrow> int \<Rightarrow> Message" where
  "createUserMessage key nano content createdAt =
     \<lparr>ms_key = key, ms_from = User, ms_versions = [createMessageVersion nano content], ms_createdAt = Some createdAt,
      ms_startedAt = None, ms_completedAt = None, ms_durationMs = None, ms_sources = None, ms_reasoning = None,
      ms_isReasoningStreaming = False, ms_isReasoningComplete = False, ms_isContentComplete = False,
      ms_status = None, ms_errorCode = None\<rparr>"

definition createLoadingAssistantMessage :: "jsstr \<Rightarrow> jsstr \<Rightarrow> int \<Rightarrow> Message" where
  "createLoadingAssistantMessage key nano startedAt =
     \<lparr>ms_key = key, ms_from = Assistant, ms_versions = [createMessageVersion nano []], ms_createdAt = Some startedAt,
      ms_startedAt = Some startedAt, ms_completedAt = None, ms_durationMs = None, ms_sources = None, ms_reasoning = None,
      ms_isReasoningStreaming = False, ms_isReasoningComplete = False, ms_isContentComplete = False,
      ms_status = Some Loading, ms_errorCode = None\<rparr>"

text \<open>The content sent to the server: a text, or parts when there are images.\<close>

datatype ContentPart = TextPart jsstr | ImagePart jsstr
datatype MessageContent = PlainText jsstr | Parts "ContentPart list"

definition buildMessageContent :: "jsstr \<Rightarrow> jsstr list \<Rightarrow> MessageContent" where
  "buildMessageContent text imageUrls =
     (let validImages = filter (\<lambda>url. trim url \<noteq> []) imageUrls in
      if validImages = [] then PlainText text
      else Parts (TextPart text # map (\<lambda>url. ImagePart (trim url)) validImages))"

definition getTextContent :: "MessageContent \<Rightarrow> jsstr" where
  "getTextContent content =
     (case content of
        PlainText s \<Rightarrow> s
      | Parts ps \<Rightarrow> (case List.find (\<lambda>p. case p of TextPart _ \<Rightarrow> True | ImagePart _ \<Rightarrow> False) ps of
            Some (TextPart s) \<Rightarrow> s | _ \<Rightarrow> []))"

record ChatCompletionMessage =
  cm_role :: MessageRole
  cm_content :: jsstr

definition formatMessageForAPI :: "Message \<Rightarrow> ChatCompletionMessage" where
  "formatMessageForAPI message = \<lparr>cm_role = ms_from message, cm_content = mv_content (getCurrentVersion message)\<rparr>"

definition isValidMessage :: "Message \<Rightarrow> bool" where
  "isValidMessage message \<longleftrightarrow> ms_versions message \<noteq> [] \<and> \<not> (ms_from message = Assistant \<and> \<not> hasMessageContent message)"

section \<open>Timing\<close>

definition completeAssistantTiming :: "Message \<Rightarrow> int \<Rightarrow> Message" where
  "completeAssistantTiming message completedAt =
     (if ms_from message \<noteq> Assistant then message
      else let startedAt = (case ms_startedAt message of Some s \<Rightarrow> s
             | None \<Rightarrow> (case ms_createdAt message of Some c \<Rightarrow> c | None \<Rightarrow> completedAt)) in
      message\<lparr>ms_startedAt := Some startedAt, ms_completedAt := Some completedAt,
        ms_durationMs := Some (max 0 (completedAt - startedAt))\<rparr>)"

definition startReasoningTiming :: "Message \<Rightarrow> int \<Rightarrow> Reasoning" where
  "startReasoningTiming message startedAt =
     (case ms_reasoning message of
        None \<Rightarrow> \<lparr>re_content = [], re_duration = 0, re_startedAt = Some startedAt, re_completedAt = None, re_durationMs = None\<rparr>
      | Some r \<Rightarrow> r\<lparr>re_startedAt := Some (case re_startedAt r of Some s \<Rightarrow> s | None \<Rightarrow> startedAt)\<rparr>)"

text \<open>\<open>Math.ceil(ms / 1000)\<close> for a number of milliseconds.\<close>

definition ceil_seconds :: "int \<Rightarrow> int" where
  "ceil_seconds ms = (ms + 999) div 1000"

definition completeReasoningTiming :: "Message \<Rightarrow> int \<Rightarrow> Message" where
  "completeReasoningTiming message completedAt =
     (case ms_reasoning message of
        None \<Rightarrow> message
      | Some r \<Rightarrow>
          if re_durationMs r \<noteq> None then message
          else let startedAt = (case re_startedAt r of Some s \<Rightarrow> s
                 | None \<Rightarrow> (case ms_startedAt message of Some s \<Rightarrow> s | None \<Rightarrow> completedAt));
               durationMs = max 0 (completedAt - startedAt) in
          message\<lparr>ms_reasoning := Some (r\<lparr>re_startedAt := Some startedAt, re_completedAt := Some completedAt,
            re_durationMs := Some durationMs, re_duration := ceil_seconds durationMs\<rparr>)\<rparr>)"

section \<open>Reasoning in the text\<close>

definition think_open :: jsstr where "think_open = js ''<think>''"
definition think_close :: jsstr where "think_close = js ''</think>''"

text \<open>The text before and after the first occurrence: what \<open>indexOf\<close> and \<open>slice\<close> give.\<close>

fun split_first :: "'a list \<Rightarrow> 'a list \<Rightarrow> ('a list \<times> 'a list) option" where
  "split_first p [] = (if p = [] then Some ([], []) else None)"
| "split_first p (x # s) =
     (if starts_with (x # s) p then Some ([], drop (length p) (x # s))
      else map_option (\<lambda>(b, r). (x # b, r)) (split_first p s))"

lemma split_first_length: "split_first p s = Some (b, r) \<Longrightarrow> length b + length p + length r = length s"
proof (induction s arbitrary: b)
  case (Cons x s)
  show ?case
  proof (cases "starts_with (x # s) p")
    case True
    then have "take (length p) (x # s) = p" by (simp only: starts_with_def)
    then have "length p \<le> length (x # s)" by (metis length_take min.cobounded1)
    moreover have "b = []" "r = drop (length p) (x # s)" using True Cons.prems by simp_all
    ultimately show ?thesis by simp
  next
    case False
    with Cons show ?thesis by auto
  qed
qed (auto split: if_splits)

function thinkLoop :: "jsstr \<Rightarrow> jsstr list \<times> jsstr list \<times> bool" where
  "thinkLoop content =
     (case split_first think_open content of
        None \<Rightarrow> (if content = [] then [] else [content], [], False)
      | Some (before, r) \<Rightarrow>
          (let visible = (if before = [] then [] else [before]) in
           case split_first think_close r of
             None \<Rightarrow> (visible, [r], True)
           | Some (thought, r') \<Rightarrow>
               (let (vs, rs, unclosed) = thinkLoop r' in (visible @ vs, thought # rs, unclosed))))"
  by pat_completeness auto
termination
  by (relation "measure length") (auto dest!: split_first_length simp: think_open_def js_simps)

declare thinkLoop.simps [simp del]

record ParsedThinkTags =
  visibleContent :: jsstr
  reasoning :: jsstr
  hasUnclosedTag :: bool

definition parseThinkTags :: "jsstr \<Rightarrow> ParsedThinkTags" where
  "parseThinkTags content =
     (if \<not> str_includes content think_open
      then \<lparr>visibleContent = content, reasoning = [], hasUnclosedTag = False\<rparr>
      else let (visibleParts, reasoningParts, unclosed) = thinkLoop content in
        \<lparr>visibleContent = trim (concat visibleParts), reasoning = trim (join [10, 10] reasoningParts),
         hasUnclosedTag = unclosed\<rparr>)"

section \<open>Streaming\<close>

datatype StreamChunkType = ReasoningChunk | ContentChunk

definition processStreamingContent :: "Message \<Rightarrow> jsstr \<Rightarrow> int \<Rightarrow> Message" where
  "processStreamingContent message contentChunk now =
     (let fullContent = mv_content (getCurrentVersion message) @ contentChunk in
      if ms_reasoning message = None \<and> \<not> str_includes fullContent think_open
      then (updateCurrentVersionContent message fullContent)\<lparr>ms_isReasoningStreaming := False\<rparr>
      else let parsed = parseThinkTags fullContent;
               finalReasoning = (if reasoning parsed \<noteq> []
                 then Some ((startReasoningTiming message now)\<lparr>re_content := reasoning parsed\<rparr>)
                 else ms_reasoning message) in
        (updateCurrentVersionContent message fullContent)\<lparr>ms_reasoning := finalReasoning,
          ms_isReasoningStreaming := hasUnclosedTag parsed\<rparr>)"

definition getAppendableChunk :: "jsstr \<Rightarrow> jsstr \<Rightarrow> jsstr" where
  "getAppendableChunk currentContent chunk =
     (if currentContent = [] \<or> \<not> starts_with chunk currentContent then chunk
      else drop (length currentContent) chunk)"

definition applyStreamingChunk :: "Message \<Rightarrow> StreamChunkType \<Rightarrow> jsstr \<Rightarrow> int \<Rightarrow> Message" where
  "applyStreamingChunk message type chunk now =
     (if ms_status message = Some Error then message
      else case type of
        ReasoningChunk \<Rightarrow>
          (let r = startReasoningTiming message now in
           message\<lparr>ms_reasoning := Some (r\<lparr>re_content := re_content r @ getAppendableChunk (re_content r) chunk\<rparr>),
             ms_isReasoningStreaming := True, ms_status := Some Streaming\<rparr>)
      | ContentChunk \<Rightarrow>
          (let contentMessage = processStreamingContent message
                 (getAppendableChunk (mv_content (getCurrentVersion message)) chunk) now in
           (if ms_isReasoningStreaming contentMessage then contentMessage
            else completeReasoningTiming contentMessage now)\<lparr>ms_status := Some Streaming\<rparr>))"

text \<open>The first text of a list that is not empty, as \<open>a || b || ''\<close> picks it.\<close>

fun first_text :: "jsstr list \<Rightarrow> jsstr" where
  "first_text [] = []"
| "first_text (s # ss) = (if s \<noteq> [] then s else first_text ss)"

definition finalizeMessage :: "Message \<Rightarrow> jsstr option \<Rightarrow> int \<Rightarrow> Message" where
  "finalizeMessage message apiReasoningContent now =
     (let content = mv_content (getCurrentVersion message);
          parsed = (if str_includes content think_open then Some (parseThinkTags content) else None);
          visible = (case parsed of Some p \<Rightarrow> visibleContent p | None \<Rightarrow> content);
          finalReasoning = first_text [or_empty apiReasoningContent,
            (case ms_reasoning message of Some r \<Rightarrow> re_content r | None \<Rightarrow> []),
            (case parsed of Some p \<Rightarrow> reasoning p | None \<Rightarrow> [])];
          finalized = (updateCurrentVersionContent message visible)
            \<lparr>ms_reasoning := (if finalReasoning \<noteq> []
               then Some ((startReasoningTiming message now)\<lparr>re_content := finalReasoning\<rparr>) else None),
             ms_isReasoningStreaming := False\<rparr> in
      completeReasoningTiming finalized now)"

definition completeAssistantMessage :: "Message \<Rightarrow> int \<Rightarrow> Message" where
  "completeAssistantMessage message now =
     completeAssistantTiming ((finalizeMessage message None now)\<lparr>ms_status := Some Complete\<rparr>) now"

definition isAssistantMessageFinal :: "Message \<Rightarrow> bool" where
  "isAssistantMessageFinal message \<longleftrightarrow> ms_status message = Some Complete \<or> ms_status message = Some Error"

definition isAssistantMessagePending :: "Message \<Rightarrow> bool" where
  "isAssistantMessagePending message \<longleftrightarrow> ms_status message = Some Loading \<or> ms_status message = Some Streaming"

definition isPendingAssistantMessage :: "Message \<Rightarrow> bool" where
  "isPendingAssistantMessage message \<longleftrightarrow> ms_from message = Assistant \<and> isAssistantMessagePending message"

text \<open>The first choice of a completion: its content and its reasoning.\<close>

record ChatCompletionChoice =
  cc_content :: "jsstr option"
  cc_reasoning :: "jsstr option"

definition hasChatCompletionChoice :: "ChatCompletionChoice list \<Rightarrow> bool" where
  "hasChatCompletionChoice choices \<longleftrightarrow> choices \<noteq> []"

definition applyChatCompletionChoice :: "Message \<Rightarrow> ChatCompletionChoice \<Rightarrow> int \<Rightarrow> Message" where
  "applyChatCompletionChoice message choice now =
     completeAssistantTiming ((finalizeMessage (updateCurrentVersionContent message (or_empty (cc_content choice)))
       (cc_reasoning choice) now)\<lparr>ms_status := Some Complete\<rparr>) now"

definition applyChatCompletionResponse :: "Message \<Rightarrow> ChatCompletionChoice list \<Rightarrow> int \<Rightarrow> Message option" where
  "applyChatCompletionResponse message choices now =
     (case choices of [] \<Rightarrow> None | choice # _ \<Rightarrow> Some (applyChatCompletionChoice message choice now))"

section \<open>Updates of the conversation\<close>

definition API_REQUEST_ERROR :: jsstr where "API_REQUEST_ERROR = js ''Request error occurred''"
definition PARSE_ERROR :: jsstr where "PARSE_ERROR = js ''Error parsing response data''"
definition STREAM_START_ERROR :: jsstr where "STREAM_START_ERROR = js ''Error establishing connection''"
definition CONNECTION_CLOSED :: jsstr where "CONNECTION_CLOSED = js ''Connection closed''"
definition INTERRUPTED :: jsstr where "INTERRUPTED = js ''Generation was interrupted''"
definition NETWORK_ERROR :: jsstr where "NETWORK_ERROR = js ''Network connection failed or server not responding''"

definition updateLastAssistantMessage :: "Message list \<Rightarrow> (Message \<Rightarrow> Message) \<Rightarrow> Message list" where
  "updateLastAssistantMessage messages updater =
     (if messages = [] \<or> ms_from (last messages) \<noteq> Assistant then messages
      else butlast messages @ [updater (last messages)])"

definition updateAssistantMessageWithError :: "Message list \<Rightarrow> jsstr \<Rightarrow> jsstr option \<Rightarrow> jsstr \<Rightarrow> int \<Rightarrow> Message list" where
  "updateAssistantMessageWithError messages errorMessage errorCode title now =
     updateLastAssistantMessage messages (\<lambda>message.
       completeAssistantTiming ((updateCurrentVersionContent message (title @ js '': '' @ errorMessage))
         \<lparr>ms_status := Some Error, ms_isReasoningStreaming := False,
          ms_errorCode := (if or_empty errorCode = [] then None else errorCode)\<rparr>) now)"

text \<open>The last pending message of a stored conversation is completed, or marked as interrupted.\<close>

definition sanitizeMessage :: "(jsstr \<Rightarrow> jsstr) \<Rightarrow> Message \<Rightarrow> int \<Rightarrow> Message" where
  "sanitizeMessage tr message now =
     (let finalized = finalizeMessage message None now;
          hasReasoning = (case ms_reasoning finalized of Some r \<Rightarrow> trim (re_content r) \<noteq> [] | None \<Rightarrow> False) in
      if hasMessageContent finalized \<or> hasReasoning
      then completeAssistantTiming (finalized\<lparr>ms_status := Some Complete, ms_isReasoningStreaming := False\<rparr>) now
      else completeAssistantTiming
        ((updateCurrentVersionContent finalized (tr API_REQUEST_ERROR @ js '': '' @ tr INTERRUPTED))
          \<lparr>ms_status := Some Error, ms_isReasoningStreaming := False\<rparr>) now)"

fun sanitizeFromEnd :: "(jsstr \<Rightarrow> jsstr) \<Rightarrow> int \<Rightarrow> Message list \<Rightarrow> Message list" where
  "sanitizeFromEnd tr now [] = []"
| "sanitizeFromEnd tr now (m # ms) =
     (if isPendingAssistantMessage m then sanitizeMessage tr m now # ms else m # sanitizeFromEnd tr now ms)"

definition sanitizeMessagesOnLoad :: "(jsstr \<Rightarrow> jsstr) \<Rightarrow> int \<Rightarrow> Message list \<Rightarrow> Message list" where
  "sanitizeMessagesOnLoad tr now messages = rev (sanitizeFromEnd tr now (rev messages))"

text \<open>The identifiers \<open>nanoid\<close> gives: the keys of two messages and the identifiers of their versions.\<close>

type_synonym fresh_ids = "(jsstr \<times> jsstr) \<times> (jsstr \<times> jsstr)"

definition appendUserMessagePair :: "fresh_ids \<Rightarrow> int \<Rightarrow> Message list \<Rightarrow> jsstr \<Rightarrow> Message list" where
  "appendUserMessagePair ids submittedAt messages content =
     (let ((key1, nano1), (key2, nano2)) = ids in
      messages @ [createUserMessage key1 nano1 content submittedAt, createLoadingAssistantMessage key2 nano2 submittedAt])"

definition createRegeneratedMessages :: "fresh_ids \<Rightarrow> int \<Rightarrow> Message list \<Rightarrow> jsstr \<Rightarrow> Message list option" where
  "createRegeneratedMessages ids now messages messageKey =
     (let loadingMessage = createLoadingAssistantMessage (fst (fst ids)) (snd (fst ids)) now in
      case find_index (\<lambda>m. ms_key m = messageKey) messages of
        None \<Rightarrow> None
      | Some i \<Rightarrow>
          if ms_from (messages ! i) = User then Some (take (i + 1) messages @ [loadingMessage])
          else Some (take i messages @ [loadingMessage]))"

definition removeMessageByKey :: "Message list \<Rightarrow> jsstr \<Rightarrow> Message list" where
  "removeMessageByKey messages messageKey = filter (\<lambda>m. ms_key m \<noteq> messageKey) messages"

definition getPreviousUserMessage :: "Message list \<Rightarrow> nat \<Rightarrow> Message option" where
  "getPreviousUserMessage messages beforeIndex = List.find (\<lambda>m. ms_from m = User) (rev (take beforeIndex messages))"

definition getEditingMessageContent :: "Message list \<Rightarrow> jsstr option \<Rightarrow> jsstr" where
  "getEditingMessageContent messages editingKey =
     (if or_empty editingKey = [] then []
      else case List.find (\<lambda>m. Some (ms_key m) = editingKey) messages of Some m \<Rightarrow> getMessageContent m | None \<Rightarrow> [])"

record ChatMessageRenderState =
  rs_alwaysShowActions :: bool
  rs_content :: jsstr
  rs_isEditing :: bool

definition getChatMessageRenderState :: "Message list \<Rightarrow> Message \<Rightarrow> nat \<Rightarrow> jsstr option \<Rightarrow> ChatMessageRenderState" where
  "getChatMessageRenderState messages message messageIndex editingKey =
     \<lparr>rs_alwaysShowActions = (messageIndex + 1 = length messages \<and> ms_from message = Assistant),
      rs_content = getMessageContent message, rs_isEditing = (editingKey = Some (ms_key message))\<rparr>"

record ApplyMessageEditResult =
  er_messages :: "Message list"
  er_shouldSend :: bool

definition editMessage :: "jsstr \<Rightarrow> jsstr \<Rightarrow> bool \<Rightarrow> int \<Rightarrow> Message \<Rightarrow> Message" where
  "editMessage messageKey content shouldSubmit submittedAt m =
     (if ms_key m = messageKey
      then (updateCurrentVersionContent m content)
        \<lparr>ms_createdAt := (if shouldSubmit then Some submittedAt else ms_createdAt m)\<rparr>
      else m)"

definition applyMessageEdit :: "fresh_ids \<Rightarrow> int \<Rightarrow> Message list \<Rightarrow> jsstr \<Rightarrow> jsstr \<Rightarrow> bool \<Rightarrow> ApplyMessageEditResult option" where
  "applyMessageEdit ids submittedAt messages messageKey content shouldSubmit =
     (let loadingMessage = createLoadingAssistantMessage (fst (fst ids)) (snd (fst ids)) submittedAt in
      case find_index (\<lambda>m. ms_key m = messageKey) messages of
        None \<Rightarrow> None
      | Some i \<Rightarrow>
          (let updatedMessages = map (editMessage messageKey content shouldSubmit submittedAt) messages in
           if \<not> shouldSubmit \<or> ms_from (updatedMessages ! i) \<noteq> User
           then Some \<lparr>er_messages = updatedMessages, er_shouldSend = False\<rparr>
           else Some \<lparr>er_messages = take (i + 1) updatedMessages @ [loadingMessage], er_shouldSend = True\<rparr>))"

end
