(* ===== verification/Playground_Chat.thy ===== *)
theory Playground_Chat
  imports Playground_Messages JS_System
begin

text \<open>
  The chat of the playground as a state machine: the stream of server-sent events
  (\<open>hooks/use-stream-request.ts\<close>, \<open>lib/streaming\<close>), the handler that buffers chunks and
  writes them into the conversation (\<open>hooks/use-chat-handler.ts\<close>) and the user's actions
  (\<open>hooks/use-playground-conversation.ts\<close>). A closed event source gives no more events. The
  translation of texts is the parameter \<open>tr\<close>, the text of a number the parameter \<open>nt\<close>.
\<close>

section \<open>Stream data\<close>

definition STREAM_DONE_MESSAGE :: jsstr where "STREAM_DONE_MESSAGE = js ''[DONE]''"

definition opt_prop :: "json option \<Rightarrow> string \<Rightarrow> json option" where
  "opt_prop v k = (case v of None \<Rightarrow> None | Some JNull \<Rightarrow> None | Some w \<Rightarrow> get_prop w k)"

definition opt_first :: "json option \<Rightarrow> json option" where
  "opt_first v = (case v of
       Some (JArr (x # _)) \<Rightarrow> Some x
     | Some (JStr (c # _)) \<Rightarrow> Some (JStr [c])
     | Some (JObj m) \<Rightarrow> map_of m (js ''0'')
     | _ \<Rightarrow> None)"

record StreamErrorDetails =
  se_errorCode :: "json option"
  se_errorMessage :: json

definition parseStreamErrorDetails :: "jsstr option \<Rightarrow> StreamErrorDetails" where
  "parseStreamErrorDetails data =
     (let fallbackMessage = JStr (or_default data API_REQUEST_ERROR);
          fallback = \<lparr>se_errorCode = None, se_errorMessage = fallbackMessage\<rparr> in
      if or_empty data = [] then fallback
      else case json_parse (or_empty data) of
          None \<Rightarrow> fallback
        | Some parsed \<Rightarrow>
            (let err = opt_prop (Some parsed) ''error'' in
             if \<not> is_truthy err then fallback
             else \<lparr>se_errorCode = (if is_truthy (opt_prop err ''code'') then opt_prop err ''code'' else None),
                   se_errorMessage = (if is_truthy (opt_prop err ''message'') then the (opt_prop err ''message'')
                     else fallbackMessage)\<rparr>))"

text \<open>A failed request: the message of the error and the body of its response.\<close>

record RequestErrorLike =
  rq_message :: "json option"
  rq_data :: "json option"

definition parseRequestErrorDetails :: "RequestErrorLike \<Rightarrow> StreamErrorDetails" where
  "parseRequestErrorDetails error =
     (let code = opt_prop (opt_prop (rq_data error) ''error'') ''code'' in
      \<lparr>se_errorCode = (if is_truthy code then code else None),
       se_errorMessage =
         (if is_truthy (opt_prop (rq_data error) ''message'') then the (opt_prop (rq_data error) ''message'')
          else if is_truthy (rq_message error) then the (rq_message error)
          else JStr API_REQUEST_ERROR)\<rparr>)"

text \<open>The updates of one event; \<open>None\<close> when reading it throws.\<close>

definition parseStreamMessageUpdates :: "jsstr \<Rightarrow> (StreamChunkType \<times> json) list option" where
  "parseStreamMessageUpdates data =
     (case json_parse data of
        None \<Rightarrow> None
      | Some JNull \<Rightarrow> None
      | Some chunk \<Rightarrow>
          (let delta = opt_prop (opt_first (get_prop chunk ''choices'')) ''delta'' in
           if \<not> is_truthy delta then Some []
           else Some ((if is_truthy (opt_prop delta ''reasoning_content'')
                       then [(ReasoningChunk, the (opt_prop delta ''reasoning_content''))] else []) @
                      (if is_truthy (opt_prop delta ''content'')
                       then [(ContentChunk, the (opt_prop delta ''content''))] else []))))"

definition isStreamDoneMessage :: "jsstr \<Rightarrow> bool" where
  "isStreamDoneMessage data \<longleftrightarrow> data = STREAM_DONE_MESSAGE"

definition isStreamClosedReadyState :: "int option \<Rightarrow> bool" where
  "isStreamClosedReadyState readyState \<longleftrightarrow> readyState = Some 2"

definition getStreamReadyStateError :: "int option \<Rightarrow> nat option \<Rightarrow> jsstr option" where
  "getStreamReadyStateError eventReadyState status =
     (case (eventReadyState, status) of
        (Some r, Some s) \<Rightarrow>
          if 2 \<le> r \<and> s \<noteq> 200 then Some (js ''HTTP '' @ show_nat s @ js '': '' @ CONNECTION_CLOSED) else None
      | _ \<Rightarrow> None)"

section \<open>State\<close>

text \<open>
  Event sources and requests are numbered. Of a request in flight the state knows whether
  its abort controller was aborted.
\<close>

record ChatState =
  cs_messages :: "Message list"
  cs_isRequesting :: bool
  cs_isStreaming :: bool
  cs_sseSource :: "nat option"
  cs_sourceCount :: nat
  cs_isStreamComplete :: bool
  cs_pendingContent :: jsstr
  cs_pendingReasoning :: jsstr
  cs_flushTimer :: bool
  cs_requestId :: nat
  cs_abortController :: "nat option"
  cs_fetches :: "(nat \<times> bool) list"
  cs_editingMessageKey :: "jsstr option"

definition isGenerating :: "ChatState \<Rightarrow> bool" where
  "isGenerating st \<longleftrightarrow> cs_isStreaming st \<or> cs_isRequesting st"

section \<open>The handler of chunks\<close>

text \<open>A value that is no string has no \<open>startsWith\<close>: the call throws.\<close>

definition mergePendingStreamChunk :: "(jsstr \<Rightarrow> jsstr) \<Rightarrow> jsstr \<Rightarrow> json \<Rightarrow> jsstr option" where
  "mergePendingStreamChunk nt currentChunk nextChunk =
     (if currentChunk = [] then Some (js_String nt nextChunk)
      else case nextChunk of
          JStr s \<Rightarrow> Some (if \<not> starts_with s currentChunk then currentChunk @ s else s)
        | _ \<Rightarrow> None)"

definition applyPending :: "jsstr \<Rightarrow> jsstr \<Rightarrow> int \<Rightarrow> Message \<Rightarrow> Message" where
  "applyPending pendingReasoning pendingContent now message =
     (let m1 = (if pendingReasoning \<noteq> [] then applyStreamingChunk message ReasoningChunk pendingReasoning now else message) in
      if pendingContent \<noteq> [] then applyStreamingChunk m1 ContentChunk pendingContent now else m1)"

definition flushStreamUpdates :: "int \<Rightarrow> ChatState \<Rightarrow> ChatState" where
  "flushStreamUpdates now st0 =
     (let st = st0\<lparr>cs_flushTimer := False\<rparr> in
      if cs_pendingReasoning st = [] \<and> cs_pendingContent st = [] then st
      else st\<lparr>cs_pendingContent := [], cs_pendingReasoning := [],
        cs_messages := updateLastAssistantMessage (cs_messages st)
          (applyPending (cs_pendingReasoning st) (cs_pendingContent st) now)\<rparr>)"

definition scheduleStreamFlush :: "ChatState \<Rightarrow> ChatState" where
  "scheduleStreamFlush st = st\<lparr>cs_flushTimer := True\<rparr>"

definition handleStreamUpdate :: "(jsstr \<Rightarrow> jsstr) \<Rightarrow> StreamChunkType \<times> json \<Rightarrow> ChatState \<Rightarrow> ChatState option" where
  "handleStreamUpdate nt update st =
     (case update of
        (ReasoningChunk, chunk) \<Rightarrow>
          map_option (\<lambda>p. scheduleStreamFlush (st\<lparr>cs_pendingReasoning := p\<rparr>))
            (mergePendingStreamChunk nt (cs_pendingReasoning st) chunk)
      | (ContentChunk, chunk) \<Rightarrow>
          map_option (\<lambda>p. scheduleStreamFlush (st\<lparr>cs_pendingContent := p\<rparr>))
            (mergePendingStreamChunk nt (cs_pendingContent st) chunk))"

definition KNOWN_ERROR_MESSAGES :: "jsstr list" where
  "KNOWN_ERROR_MESSAGES = [API_REQUEST_ERROR, NETWORK_ERROR, PARSE_ERROR, STREAM_START_ERROR, CONNECTION_CLOSED, INTERRUPTED]"

definition getDisplayError :: "(jsstr \<Rightarrow> jsstr) \<Rightarrow> jsstr \<Rightarrow> jsstr" where
  "getDisplayError tr error =
     (if error \<in> set KNOWN_ERROR_MESSAGES then tr error
      else if ends_with error (js '': '' @ CONNECTION_CLOSED)
      then take (length error - length CONNECTION_CLOSED) error @ tr CONNECTION_CLOSED
      else error)"

definition completeUnlessFinal :: "int \<Rightarrow> Message \<Rightarrow> Message" where
  "completeUnlessFinal now message =
     (if isAssistantMessageFinal message then message else completeAssistantMessage message now)"

definition handleStreamComplete :: "int \<Rightarrow> ChatState \<Rightarrow> ChatState" where
  "handleStreamComplete now st =
     (let st1 = flushStreamUpdates now st in
      st1\<lparr>cs_isRequesting := False,
        cs_messages := updateLastAssistantMessage (cs_messages st1) (completeUnlessFinal now)\<rparr>)"

text \<open>
  The state after an error and whether the handler threw: a message that is no string has no
  \<open>endsWith\<close>.
\<close>

definition handleStreamError :: "(jsstr \<Rightarrow> jsstr) \<Rightarrow> int \<Rightarrow> json \<Rightarrow> jsstr option \<Rightarrow> ChatState \<Rightarrow> ChatState \<times> bool" where
  "handleStreamError tr now error errorCode st =
     (let st1 = (flushStreamUpdates now st)\<lparr>cs_isRequesting := False\<rparr> in
      case error of
        JStr e \<Rightarrow> (st1\<lparr>cs_messages := updateAssistantMessageWithError (cs_messages st1) (getDisplayError tr e) errorCode
            (tr API_REQUEST_ERROR) now\<rparr>, False)
      | _ \<Rightarrow> (st1, True))"

section \<open>The event source\<close>

definition closeActiveStream :: "nat option \<Rightarrow> ChatState \<Rightarrow> ChatState" where
  "closeActiveStream source st =
     (if source = None \<or> cs_sseSource st = source then st\<lparr>cs_sseSource := None, cs_isStreaming := False\<rparr> else st)"

definition handleError :: "(jsstr \<Rightarrow> jsstr) \<Rightarrow> int \<Rightarrow> nat \<Rightarrow> json \<Rightarrow> jsstr option \<Rightarrow> ChatState \<Rightarrow> ChatState" where
  "handleError tr now source error errorCode st =
     (if cs_isStreamComplete st then st
      else case handleStreamError tr now error errorCode st of
          (st1, True) \<Rightarrow> st1
        | (st1, False) \<Rightarrow> closeActiveStream (Some source) st1)"

text \<open>The loop over the updates of an event, and whether one of them threw.\<close>

fun applyUpdates :: "(jsstr \<Rightarrow> jsstr) \<Rightarrow> (StreamChunkType \<times> json) list \<Rightarrow> ChatState \<Rightarrow> ChatState \<times> bool" where
  "applyUpdates nt [] st = (st, False)"
| "applyUpdates nt (u # us) st =
     (case handleStreamUpdate nt u st of None \<Rightarrow> (st, True) | Some st1 \<Rightarrow> applyUpdates nt us st1)"

definition onMessage :: "(jsstr \<Rightarrow> jsstr) \<Rightarrow> (jsstr \<Rightarrow> jsstr) \<Rightarrow> int \<Rightarrow> nat \<Rightarrow> jsstr \<Rightarrow> ChatState \<Rightarrow> ChatState" where
  "onMessage tr nt now source data st =
     (if isStreamDoneMessage data
      then handleStreamComplete now (closeActiveStream (Some source) (st\<lparr>cs_isStreamComplete := True\<rparr>))
      else case parseStreamMessageUpdates data of
          None \<Rightarrow> handleError tr now source (JStr PARSE_ERROR) None st
        | Some updates \<Rightarrow>
            (case applyUpdates nt updates st of
               (st1, False) \<Rightarrow> st1
             | (st1, True) \<Rightarrow> handleError tr now source (JStr PARSE_ERROR) None st1))"

text \<open>The error code is text or missing; other values are turned into text when it is shown.\<close>

definition codeText :: "(jsstr \<Rightarrow> jsstr) \<Rightarrow> json option \<Rightarrow> jsstr option" where
  "codeText nt code = map_option (js_String nt) code"

definition onError :: "(jsstr \<Rightarrow> jsstr) \<Rightarrow> (jsstr \<Rightarrow> jsstr) \<Rightarrow> int \<Rightarrow> nat \<Rightarrow> int option \<Rightarrow> jsstr option \<Rightarrow> ChatState \<Rightarrow> ChatState" where
  "onError tr nt now source readyState data st =
     (if isStreamClosedReadyState readyState then st
      else let details = parseStreamErrorDetails data in
        handleError tr now source (se_errorMessage details) (codeText nt (se_errorCode details)) st)"

definition onReadyStateChange :: "(jsstr \<Rightarrow> jsstr) \<Rightarrow> int \<Rightarrow> nat \<Rightarrow> int option \<Rightarrow> nat option \<Rightarrow> ChatState \<Rightarrow> ChatState" where
  "onReadyStateChange tr now source readyState status st =
     (case getStreamReadyStateError readyState status of
        Some e \<Rightarrow> handleError tr now source (JStr e) None st | None \<Rightarrow> st)"

definition sendStreamRequest :: "(jsstr \<Rightarrow> jsstr) \<Rightarrow> int \<Rightarrow> bool \<Rightarrow> ChatState \<Rightarrow> ChatState" where
  "sendStreamRequest tr now startFails st =
     (let source = cs_sourceCount st;
          st1 = st\<lparr>cs_sourceCount := source + 1, cs_sseSource := Some source, cs_isStreamComplete := False,
            cs_isStreaming := True\<rparr> in
      if startFails
      then closeActiveStream (Some source) (fst (handleStreamError tr now (JStr STREAM_START_ERROR) None st1))
      else st1)"

section \<open>Requests\<close>

definition sendStreamingChat :: "(jsstr \<Rightarrow> jsstr) \<Rightarrow> int \<Rightarrow> bool \<Rightarrow> ChatState \<Rightarrow> ChatState" where
  "sendStreamingChat tr now startFails st = sendStreamRequest tr now startFails (st\<lparr>cs_isRequesting := True\<rparr>)"

definition sendNonStreamingChat :: "ChatState \<Rightarrow> ChatState" where
  "sendNonStreamingChat st =
     (let requestId = cs_requestId st + 1 in
      st\<lparr>cs_requestId := requestId, cs_abortController := Some requestId, cs_isRequesting := True,
        cs_fetches := cs_fetches st @ [(requestId, False)]\<rparr>)"

text \<open>How a request ends: with the choices of a response, or with an error.\<close>

datatype fetch_result = Response "ChatCompletionChoice list" | Failure RequestErrorLike

definition fetchBody :: "(jsstr \<Rightarrow> jsstr) \<Rightarrow> (jsstr \<Rightarrow> jsstr) \<Rightarrow> int \<Rightarrow> fetch_result \<Rightarrow> ChatState \<Rightarrow> ChatState" where
  "fetchBody tr nt now result st =
     (case result of
        Response choices \<Rightarrow>
          if \<not> hasChatCompletionChoice choices
          then fst (handleStreamError tr now (JStr API_REQUEST_ERROR) None st)
          else st\<lparr>cs_messages := updateLastAssistantMessage (cs_messages st)
            (\<lambda>m. case applyChatCompletionResponse m choices now of Some m' \<Rightarrow> m' | None \<Rightarrow> m)\<rparr>
      | Failure error \<Rightarrow>
          (let details = parseRequestErrorDetails error in
           fst (handleStreamError tr now (se_errorMessage details) (codeText nt (se_errorCode details)) st)))"

definition fetchDone :: "(jsstr \<Rightarrow> jsstr) \<Rightarrow> (jsstr \<Rightarrow> jsstr) \<Rightarrow> int \<Rightarrow> nat \<Rightarrow> bool \<Rightarrow> fetch_result \<Rightarrow> ChatState \<Rightarrow> ChatState" where
  "fetchDone tr nt now requestId aborted result st =
     (let st1 = st\<lparr>cs_fetches := remove1 (requestId, aborted) (cs_fetches st)\<rparr>;
          st2 = (if aborted then st1 else fetchBody tr nt now result st1) in
      if cs_requestId st2 = requestId then st2\<lparr>cs_abortController := None, cs_isRequesting := False\<rparr> else st2)"

definition sendChat :: "(jsstr \<Rightarrow> jsstr) \<Rightarrow> int \<Rightarrow> bool \<Rightarrow> bool \<Rightarrow> ChatState \<Rightarrow> ChatState" where
  "sendChat tr now stream startFails st =
     (if stream then sendStreamingChat tr now startFails st else sendNonStreamingChat st)"

definition abortFetch :: "nat option \<Rightarrow> (nat \<times> bool) list \<Rightarrow> (nat \<times> bool) list" where
  "abortFetch controller fetches =
     (case controller of None \<Rightarrow> fetches | Some i \<Rightarrow> map (\<lambda>(j, a). (j, a \<or> j = i)) fetches)"

definition completeIfPending :: "int \<Rightarrow> Message \<Rightarrow> Message" where
  "completeIfPending now message =
     (if isAssistantMessagePending message then completeAssistantMessage message now else message)"

definition stopGeneration :: "int \<Rightarrow> ChatState \<Rightarrow> ChatState" where
  "stopGeneration now st =
     (let st1 = flushStreamUpdates now (closeActiveStream None st) in
      st1\<lparr>cs_fetches := abortFetch (cs_abortController st1) (cs_fetches st1), cs_abortController := None,
        cs_isRequesting := False,
        cs_messages := updateLastAssistantMessage (cs_messages st1) (completeIfPending now)\<rparr>)"

section \<open>User actions\<close>

definition handleSendMessage :: "(jsstr \<Rightarrow> jsstr) \<Rightarrow> fresh_ids \<Rightarrow> int \<Rightarrow> bool \<Rightarrow> bool \<Rightarrow> jsstr \<Rightarrow> ChatState \<Rightarrow> ChatState" where
  "handleSendMessage tr ids now stream startFails text st =
     sendChat tr now stream startFails (st\<lparr>cs_messages := appendUserMessagePair ids now (cs_messages st) text\<rparr>)"

definition handleRegenerateMessage :: "(jsstr \<Rightarrow> jsstr) \<Rightarrow> fresh_ids \<Rightarrow> int \<Rightarrow> bool \<Rightarrow> bool \<Rightarrow> jsstr \<Rightarrow> ChatState \<Rightarrow> ChatState" where
  "handleRegenerateMessage tr ids now stream startFails key st =
     (case createRegeneratedMessages ids now (cs_messages st) key of
        None \<Rightarrow> st
      | Some nextMessages \<Rightarrow> sendChat tr now stream startFails (st\<lparr>cs_messages := nextMessages\<rparr>))"

definition handleEditMessage :: "Message \<Rightarrow> ChatState \<Rightarrow> ChatState" where
  "handleEditMessage message st = st\<lparr>cs_editingMessageKey := Some (ms_key message)\<rparr>"

definition handleEditOpenChange :: "bool \<Rightarrow> ChatState \<Rightarrow> ChatState" where
  "handleEditOpenChange opened st = (if \<not> opened then st\<lparr>cs_editingMessageKey := None\<rparr> else st)"

definition applyEdit :: "(jsstr \<Rightarrow> jsstr) \<Rightarrow> fresh_ids \<Rightarrow> int \<Rightarrow> bool \<Rightarrow> bool \<Rightarrow> jsstr \<Rightarrow> bool \<Rightarrow> ChatState \<Rightarrow> ChatState" where
  "applyEdit tr ids now stream startFails newContent shouldSubmit st =
     (let editingMessageKey = or_empty (cs_editingMessageKey st) in
      if editingMessageKey = [] then st
      else case applyMessageEdit ids now (cs_messages st) editingMessageKey newContent shouldSubmit of
        None \<Rightarrow> st
      | Some r \<Rightarrow>
          (let st1 = st\<lparr>cs_editingMessageKey := None, cs_messages := er_messages r\<rparr> in
           if er_shouldSend r then sendChat tr now stream startFails st1 else st1))"

definition handleDeleteMessage :: "jsstr \<Rightarrow> ChatState \<Rightarrow> ChatState" where
  "handleDeleteMessage key st = st\<lparr>cs_messages := removeMessageByKey (cs_messages st) key\<rparr>"

definition clearMessages :: "ChatState \<Rightarrow> ChatState" where
  "clearMessages st = st\<lparr>cs_messages := []\<rparr>"

section \<open>Steps\<close>

text \<open>
  The input is disabled while a generation runs, and the suggested prompts are shown only in
  an empty conversation. Error messages have the string type the code declares for them.
\<close>

definition is_string :: "json \<Rightarrow> bool" where
  "is_string v = (case v of JStr _ \<Rightarrow> True | _ \<Rightarrow> False)"

definition typed_result :: "fetch_result \<Rightarrow> bool" where
  "typed_result r = (case r of Failure e \<Rightarrow> is_string (se_errorMessage (parseRequestErrorDetails e)) | Response _ \<Rightarrow> True)"

inductive chat_step :: "(jsstr \<Rightarrow> jsstr) \<Rightarrow> (jsstr \<Rightarrow> jsstr) \<Rightarrow> ChatState \<Rightarrow> ChatState \<Rightarrow> bool"
  for tr nt where
  step_send: "\<not> isGenerating st \<or> cs_messages st = [] \<Longrightarrow>
     chat_step tr nt st (handleSendMessage tr ids now stream startFails text st)"
| step_regenerate: "\<not> isGenerating st \<Longrightarrow>
     chat_step tr nt st (handleRegenerateMessage tr ids now stream startFails key st)"
| step_open_editor: "message \<in> set (cs_messages st) \<Longrightarrow> chat_step tr nt st (handleEditMessage message st)"
| step_editor_change: "chat_step tr nt st (handleEditOpenChange opened st)"
| step_edit: "chat_step tr nt st (applyEdit tr ids now stream startFails newContent shouldSubmit st)"
| step_delete: "chat_step tr nt st (handleDeleteMessage key st)"
| step_clear: "chat_step tr nt st (clearMessages st)"
| step_stop: "chat_step tr nt st (stopGeneration now st)"
| step_timer: "cs_flushTimer st \<Longrightarrow> chat_step tr nt st (flushStreamUpdates now st)"
| step_message: "cs_sseSource st = Some source \<Longrightarrow> chat_step tr nt st (onMessage tr nt now source data st)"
| step_error: "cs_sseSource st = Some source \<Longrightarrow> is_string (se_errorMessage (parseStreamErrorDetails data)) \<Longrightarrow>
     chat_step tr nt st (onError tr nt now source readyState data st)"
| step_ready: "cs_sseSource st = Some source \<Longrightarrow>
     chat_step tr nt st (onReadyStateChange tr now source readyState status st)"
| step_fetch: "(requestId, aborted) \<in> set (cs_fetches st) \<Longrightarrow> typed_result result \<Longrightarrow>
     chat_step tr nt st (fetchDone tr nt now requestId aborted result st)"

definition chat_init :: "ChatState \<Rightarrow> bool" where
  "chat_init st \<longleftrightarrow> list_all (\<lambda>m. \<not> isPendingAssistantMessage m) (cs_messages st) \<and> \<not> isGenerating st \<and>
     cs_sseSource st = None \<and> cs_pendingContent st = [] \<and> cs_pendingReasoning st = [] \<and> \<not> cs_flushTimer st \<and>
     cs_abortController st = None \<and> cs_fetches st = []"

end
