(* ===== verification/Playground_Invariant.thy ===== *)
theory Playground_Invariant
  imports Playground_Chat
begin

text \<open>
  The invariant of the chat: only the last message can be pending, and only while a stream or
  a request that may still answer is running; every handler keeps it, and the events that end
  a generation settle the conversation.
\<close>

section \<open>Settled conversations\<close>

abbreviation "settled ms \<equiv> list_all (\<lambda>m. \<not> isPendingAssistantMessage m) ms"

lemma completeAssistantTiming_status [simp]: "ms_status (completeAssistantTiming m t) = ms_status m"
  by (simp add: completeAssistantTiming_def Let_def)

lemma completeAssistant_final [simp]: "ms_status (completeAssistantMessage m now) = Some Complete"
  by (simp add: completeAssistantMessage_def)

lemma choice_final [simp]: "ms_status (applyChatCompletionChoice m choice now) = Some Complete"
  by (simp add: applyChatCompletionChoice_def)

lemma settled_updates:
  "\<not> isPendingAssistantMessage (completeUnlessFinal now m)"
  "\<not> isPendingAssistantMessage (completeIfPending now m)"
  "hasChatCompletionChoice choices \<Longrightarrow>
    \<not> isPendingAssistantMessage (case applyChatCompletionResponse m choices now of Some m' \<Rightarrow> m' | None \<Rightarrow> m)"
  by (auto simp: isPendingAssistantMessage_def isAssistantMessagePending_def completeUnlessFinal_def isAssistantMessageFinal_def
      completeIfPending_def hasChatCompletionChoice_def applyChatCompletionResponse_def split: list.splits)

lemma butlast_update [simp]: "butlast (updateLastAssistantMessage ms f) = butlast ms"
  by (simp add: updateLastAssistantMessage_def butlast_append)

lemma settle_update:
  assumes "settled (butlast ms)" and "\<And>m. \<not> isPendingAssistantMessage (f m)"
  shows "settled (updateLastAssistantMessage ms f)"
proof (cases "ms = []")
  case False
  then have ms: "ms = butlast ms @ [last ms]" by simp
  show ?thesis
  proof (cases "ms_from (last ms) = Assistant")
    case True
    with False assms show ?thesis by (simp add: updateLastAssistantMessage_def)
  next
    case False
    then have "\<not> isPendingAssistantMessage (last ms)" by (simp add: isPendingAssistantMessage_def)
    with assms(1) have "settled (butlast ms @ [last ms])" by simp
    with ms False show ?thesis by (simp add: updateLastAssistantMessage_def)
  qed
qed (simp add: updateLastAssistantMessage_def)

lemma settle_error:
  "settled (butlast ms) \<Longrightarrow> settled (updateAssistantMessageWithError ms e code title now)"
  unfolding updateAssistantMessageWithError_def
  by (rule settle_update) (auto simp: isPendingAssistantMessage_def isAssistantMessagePending_def)

lemma settled_butlast: "settled ms \<Longrightarrow> settled (butlast ms)"
  by (auto simp: list_all_iff dest: in_set_butlastD)

lemma settled_take: "settled (butlast ms) \<Longrightarrow> i < length ms \<Longrightarrow> settled (take i ms)"
proof -
  assume a: "settled (butlast ms)" "i < length ms"
  have "take i (butlast ms) = take i ms" using a(2) by (simp add: butlast_conv_take)
  moreover have "settled (take i (butlast ms))" using a(1) by (auto simp: list_all_iff dest: in_set_takeD)
  ultimately show ?thesis by simp
qed

section \<open>The invariant\<close>

definition awaiting :: "ChatState \<Rightarrow> bool" where
  "awaiting st \<longleftrightarrow> cs_isStreaming st \<or> (cs_isRequesting st \<and> (cs_requestId st, False) \<in> set (cs_fetches st))"

definition chat_inv :: "ChatState \<Rightarrow> bool" where
  "chat_inv st \<longleftrightarrow> settled (butlast (cs_messages st)) \<and>
     (\<not> awaiting st \<longrightarrow> settled (cs_messages st)) \<and>
     (cs_isStreaming st \<longleftrightarrow> cs_sseSource st \<noteq> None) \<and>
     (cs_sseSource st \<noteq> None \<longrightarrow> \<not> cs_isStreamComplete st) \<and>
     (\<not> cs_isStreaming st \<longrightarrow> cs_pendingContent st = [] \<and> cs_pendingReasoning st = []) \<and>
     distinct (map fst (cs_fetches st)) \<and> list_all (\<lambda>i. i \<le> cs_requestId st) (map fst (cs_fetches st))"

text \<open>What flushing changes.\<close>

lemma flush_fields [simp]:
  "cs_isRequesting (flushStreamUpdates now st) = cs_isRequesting st"
  "cs_isStreaming (flushStreamUpdates now st) = cs_isStreaming st"
  "cs_sseSource (flushStreamUpdates now st) = cs_sseSource st"
  "cs_sourceCount (flushStreamUpdates now st) = cs_sourceCount st"
  "cs_isStreamComplete (flushStreamUpdates now st) = cs_isStreamComplete st"
  "cs_pendingContent (flushStreamUpdates now st) = []"
  "cs_pendingReasoning (flushStreamUpdates now st) = []"
  "cs_requestId (flushStreamUpdates now st) = cs_requestId st"
  "cs_abortController (flushStreamUpdates now st) = cs_abortController st"
  "cs_fetches (flushStreamUpdates now st) = cs_fetches st"
  "butlast (cs_messages (flushStreamUpdates now st)) = butlast (cs_messages st)"
  by (simp_all add: flushStreamUpdates_def Let_def)

lemma flush_idle:
  "cs_pendingContent st = [] \<Longrightarrow> cs_pendingReasoning st = [] \<Longrightarrow> cs_messages (flushStreamUpdates now st) = cs_messages st"
  by (simp add: flushStreamUpdates_def)

lemma flush_inv: "chat_inv st \<Longrightarrow> chat_inv (flushStreamUpdates now st)"
  by (cases "cs_isStreaming st") (auto simp: chat_inv_def awaiting_def flush_idle)

lemma close_fields [simp]:
  "cs_isRequesting (closeActiveStream s st) = cs_isRequesting st"
  "cs_isStreamComplete (closeActiveStream s st) = cs_isStreamComplete st"
  "cs_pendingContent (closeActiveStream s st) = cs_pendingContent st"
  "cs_pendingReasoning (closeActiveStream s st) = cs_pendingReasoning st"
  "cs_requestId (closeActiveStream s st) = cs_requestId st"
  "cs_abortController (closeActiveStream s st) = cs_abortController st"
  "cs_fetches (closeActiveStream s st) = cs_fetches st"
  "cs_messages (closeActiveStream s st) = cs_messages st"
  by (simp_all add: closeActiveStream_def)

lemma close_active [simp]:
  "s = None \<or> cs_sseSource st = s \<Longrightarrow> cs_sseSource (closeActiveStream s st) = None \<and> \<not> cs_isStreaming (closeActiveStream s st)"
  by (auto simp: closeActiveStream_def)

text \<open>An error with a text settles the conversation.\<close>

lemma stream_error:
  "snd (handleStreamError tr now (JStr e) code st) = False" "cs_isRequesting (fst (handleStreamError tr now (JStr e) code st)) = False" "cs_isStreaming (fst (handleStreamError tr now (JStr e) code st)) = cs_isStreaming st"
  "cs_sseSource (fst (handleStreamError tr now (JStr e) code st)) = cs_sseSource st" "cs_isStreamComplete (fst (handleStreamError tr now (JStr e) code st)) = cs_isStreamComplete st"
  "cs_pendingContent (fst (handleStreamError tr now (JStr e) code st)) = []" "cs_pendingReasoning (fst (handleStreamError tr now (JStr e) code st)) = []"
  "cs_requestId (fst (handleStreamError tr now (JStr e) code st)) = cs_requestId st" "cs_fetches (fst (handleStreamError tr now (JStr e) code st)) = cs_fetches st"
  "settled (butlast (cs_messages st)) \<Longrightarrow> settled (cs_messages (fst (handleStreamError tr now (JStr e) code st)))"
  by (simp_all add: handleStreamError_def Let_def settle_error)

lemma error_inv: "chat_inv st \<Longrightarrow> chat_inv (fst (handleStreamError tr now (JStr e) code st))"
  by (simp add: chat_inv_def stream_error settled_butlast)

lemma handleError_ends:
  assumes "chat_inv st" "cs_sseSource st = Some source"
  shows "chat_inv (handleError tr now source (JStr e) code st) \<and>
    \<not> isGenerating (handleError tr now source (JStr e) code st) \<and>
    settled (cs_messages (handleError tr now source (JStr e) code st))"
proof -
  have c: "\<not> cs_isStreamComplete st" using assms by (simp add: chat_inv_def)
  obtain st1 where st1: "handleStreamError tr now (JStr e) code st = (st1, False)"
    using stream_error(1) [where tr = tr and now = now and e = e and code = code and st = st] by (metis prod.collapse)
  have f: "cs_isRequesting st1 = False" "cs_sseSource st1 = Some source" "cs_pendingContent st1 = []" "cs_pendingReasoning st1 = []"
    "cs_requestId st1 = cs_requestId st" "cs_fetches st1 = cs_fetches st" "settled (cs_messages st1)"
    using stream_error [where tr = tr and now = now and e = e and code = code and st = st] st1 assms by (simp_all add: chat_inv_def)
  have h: "handleError tr now source (JStr e) code st = closeActiveStream (Some source) st1"
    using c st1 by (simp add: handleError_def)
  show ?thesis
    unfolding h using f assms(1) close_active [of "Some source" st1]
    by (simp add: chat_inv_def isGenerating_def settled_butlast)
qed

lemma done_ends:
  assumes "chat_inv st" "cs_sseSource st = Some source"
  shows "chat_inv (onMessage tr nt now source STREAM_DONE_MESSAGE st) \<and>
    \<not> isGenerating (onMessage tr nt now source STREAM_DONE_MESSAGE st) \<and>
    settled (cs_messages (onMessage tr nt now source STREAM_DONE_MESSAGE st))"
proof -
  let ?c = "closeActiveStream (Some source) (st\<lparr>cs_isStreamComplete := True\<rparr>)"
  have "cs_sseSource ?c = None \<and> \<not> cs_isStreaming ?c" using assms(2) by (intro close_active) simp
  moreover have "settled (updateLastAssistantMessage (cs_messages (flushStreamUpdates now ?c)) (completeUnlessFinal now))"
    using assms(1) by (intro settle_update) (simp_all add: chat_inv_def settled_updates)
  ultimately show ?thesis
    using assms(1) by (simp add: onMessage_def isStreamDoneMessage_def handleStreamComplete_def Let_def chat_inv_def
        isGenerating_def settled_butlast)
qed

lemma abortFetch_keys: "map fst (abortFetch c fs) = map fst fs"
  by (auto simp: abortFetch_def split: option.splits)

lemma stop_ends:
  assumes "chat_inv st"
  shows "chat_inv (stopGeneration now st) \<and> \<not> isGenerating (stopGeneration now st) \<and> settled (cs_messages (stopGeneration now st))"
proof -
  let ?c = "flushStreamUpdates now (closeActiveStream None st)"
  have s: "settled (updateLastAssistantMessage (cs_messages ?c) (completeIfPending now))"
    using assms by (intro settle_update) (simp_all add: chat_inv_def settled_updates)
  show ?thesis
    using s assms close_active [of None st]
    by (simp add: stopGeneration_def Let_def chat_inv_def isGenerating_def settled_butlast abortFetch_keys)
qed

text \<open>Chunks only change the buffers while a source is active.\<close>

lemma update_inv: "chat_inv st \<Longrightarrow> cs_isStreaming st \<Longrightarrow> handleStreamUpdate nt u st = Some st' \<Longrightarrow>
    chat_inv st' \<and> cs_isStreaming st' \<and> cs_sseSource st' = cs_sseSource st"
  by (auto simp: handleStreamUpdate_def scheduleStreamFlush_def chat_inv_def awaiting_def split: prod.splits StreamChunkType.splits)

lemma updates_inv: "chat_inv st \<Longrightarrow> cs_isStreaming st \<Longrightarrow> applyUpdates nt us st = (st', b) \<Longrightarrow>
    chat_inv st' \<and> cs_isStreaming st' \<and> cs_sseSource st' = cs_sseSource st"
proof (induction us arbitrary: st)
  case (Cons u us)
  show ?case
  proof (cases "handleStreamUpdate nt u st")
    case None
    with Cons.prems show ?thesis by simp
  next
    case (Some st1)
    from update_inv [OF Cons.prems(1,2) Some] Cons.IH [of st1] Cons.prems(3) Some show ?thesis by simp
  qed
qed simp

lemma message_inv:
  assumes "chat_inv st" "cs_sseSource st = Some source"
  shows "chat_inv (onMessage tr nt now source data st)"
proof (cases "data = STREAM_DONE_MESSAGE")
  case True
  with done_ends [OF assms] show ?thesis by simp
next
  case False
  have s: "cs_isStreaming st" using assms by (simp add: chat_inv_def)
  show ?thesis
  proof (cases "parseStreamMessageUpdates data")
    case None
    with False handleError_ends [OF assms] show ?thesis by (simp add: onMessage_def isStreamDoneMessage_def)
  next
    case (Some us)
    obtain st1 b where st1: "applyUpdates nt us st = (st1, b)" by force
    have i: "chat_inv st1" "cs_sseSource st1 = Some source" using updates_inv [OF assms(1) s st1] assms(2) by auto
    from handleError_ends [OF i] i False Some st1 show ?thesis
      by (cases b) (simp_all add: onMessage_def isStreamDoneMessage_def)
  qed
qed

text \<open>Sending: the conversation ends in a message that loads, or starting the stream fails.\<close>

lemma send_inv:
  assumes "chat_inv st" "settled (butlast ms)"
  shows "chat_inv (sendChat tr now stream startFails (st\<lparr>cs_messages := ms\<rparr>))"
proof (cases stream)
  case True
  let ?st1 = "st\<lparr>cs_messages := ms, cs_isRequesting := True, cs_sourceCount := cs_sourceCount st + 1,
    cs_sseSource := Some (cs_sourceCount st), cs_isStreamComplete := False, cs_isStreaming := True\<rparr>"
  have i: "chat_inv ?st1" using assms by (simp add: chat_inv_def awaiting_def)
  show ?thesis
  proof (cases startFails)
    case fails: True
    let ?e = "fst (handleStreamError tr now (JStr STREAM_START_ERROR) None ?st1)"
    have e: "cs_isRequesting ?e = False" "cs_sseSource ?e = Some (cs_sourceCount st)" "cs_pendingContent ?e = []"
      "cs_pendingReasoning ?e = []" "cs_requestId ?e = cs_requestId st" "cs_fetches ?e = cs_fetches st" "settled (cs_messages ?e)"
      using assms by (simp_all add: stream_error)
    have "chat_inv (closeActiveStream (Some (cs_sourceCount st)) ?e)"
      using e assms(1) close_active [of "Some (cs_sourceCount st)" ?e] by (simp add: chat_inv_def settled_butlast)
    with True fails show ?thesis by (simp add: sendChat_def sendStreamingChat_def sendStreamRequest_def Let_def)
  next
    case False
    with True i show ?thesis by (simp add: sendChat_def sendStreamingChat_def sendStreamRequest_def Let_def)
  qed
next
  case False
  have le: "list_all (\<lambda>i. i \<le> cs_requestId st) (map fst (cs_fetches st))" using assms(1) by (simp add: chat_inv_def)
  then have "cs_requestId st + 1 \<notin> fst ` set (cs_fetches st)" by (auto simp: list_all_iff)
  moreover have "list_all (\<lambda>i. i \<le> cs_requestId st + 1) (map fst (cs_fetches st))"
    using le by (rule list.pred_mono_strong) simp
  ultimately show ?thesis
    using False assms by (simp add: sendChat_def sendNonStreamingChat_def Let_def chat_inv_def awaiting_def)
qed

lemma fetch_inv:
  assumes i: "chat_inv st" and f: "(requestId, aborted) \<in> set (cs_fetches st)" and t: "typed_result result"
  shows "chat_inv (fetchDone tr nt now requestId aborted result st)"
proof -
  let ?fs = "remove1 (requestId, aborted) (cs_fetches st)"
  let ?st1 = "st\<lparr>cs_fetches := ?fs\<rparr>"
  have d: "distinct (map fst (cs_fetches st))" using i by (simp add: chat_inv_def)
  have sub: "set ?fs \<subseteq> set (cs_fetches st)" by (rule set_remove1_subset)
  with d have fs: "distinct (map fst ?fs)" by (auto simp: distinct_map intro: inj_on_subset)
  have le: "list_all (\<lambda>i. i \<le> cs_requestId st) (map fst ?fs)"
    using i sub by (auto simp: chat_inv_def list_all_iff)
  show ?thesis
  proof (cases aborted)
    case True
    have "(requestId, False) \<notin> set (cs_fetches st)" using d f True eq_key_imp_eq_value by fastforce
    moreover have "(k, False) \<in> set ?fs \<longleftrightarrow> (k, False) \<in> set (cs_fetches st)" for k using True by (simp add: in_set_remove1)
    ultimately show ?thesis
      using i fs le True by (auto simp: fetchDone_def Let_def chat_inv_def awaiting_def)
  next
    case False
    let ?st2 = "fetchBody tr nt now result ?st1"
    have s1: "settled (butlast (cs_messages ?st1))" using i by (simp add: chat_inv_def)
    have b: "cs_isStreaming ?st2 = cs_isStreaming st" "cs_sseSource ?st2 = cs_sseSource st"
      "cs_isStreamComplete ?st2 = cs_isStreamComplete st" "cs_requestId ?st2 = cs_requestId st" "cs_fetches ?st2 = ?fs"
      "settled (cs_messages ?st2)"
      "\<not> cs_isStreaming st \<Longrightarrow> cs_pendingContent ?st2 = [] \<and> cs_pendingReasoning ?st2 = []"
      using t s1 i
      by (auto simp: fetchBody_def typed_result_def is_string_def stream_error chat_inv_def
          intro!: settle_update settled_updates split: fetch_result.splits json.splits)
    show ?thesis
      using b fs le i False by (auto simp: fetchDone_def Let_def chat_inv_def settled_butlast)
  qed
qed

lemma messages_inv:
  assumes "chat_inv st" "settled (butlast ms)" "settled (cs_messages st) \<Longrightarrow> settled ms"
  shows "chat_inv (st\<lparr>cs_messages := ms\<rparr>)"
  using assms by (auto simp: chat_inv_def awaiting_def)

lemma loading_butlast: "settled ms \<Longrightarrow> settled (butlast (ms @ [m]))"
  by simp

lemma take_user_settled:
  assumes "settled (butlast ms)" "i < length ms" "ms_from (ms ! i) = User"
  shows "settled (take (i + 1) ms)"
proof -
  have "\<not> isPendingAssistantMessage (ms ! i)" using assms(3) by (simp add: isPendingAssistantMessage_def)
  with settled_take [OF assms(1,2)] show ?thesis by (simp add: take_Suc_conv_app_nth assms(2))
qed

lemma edit_keeps: "ms_from (editMessage k c b t m) = ms_from m" "ms_status (editMessage k c b t m) = ms_status m"
  by (simp_all add: editMessage_def updateCurrentVersionContent_def)

lemma edit_pending: "isPendingAssistantMessage (editMessage k c b t m) = isPendingAssistantMessage m"
  by (simp add: isPendingAssistantMessage_def isAssistantMessagePending_def edit_keeps)

lemma edit_settled: "settled (map (editMessage k c b t) ms) \<longleftrightarrow> settled ms"
  by (simp add: list_all_iff edit_pending)

lemma filter_settled: "settled (butlast ms) \<Longrightarrow> settled (butlast (filter P ms))"
proof (cases "ms = []")
  case False
  assume s: "settled (butlast ms)"
  have "filter P ms = filter P (butlast ms) @ filter P [last ms]" using False by (metis append_butlast_last_id filter_append)
  moreover have "settled (filter P (butlast ms))" using s by (auto simp: list_all_iff)
  ultimately show ?thesis by (cases "P (last ms)") (simp_all add: settled_butlast)
qed simp

lemma regenerate_inv: "chat_inv st \<Longrightarrow> chat_inv (handleRegenerateMessage tr ids now stream startFails key st)"
proof (cases "find_index (\<lambda>m. ms_key m = key) (cs_messages st)")
  case None
  then show "chat_inv st \<Longrightarrow> ?thesis" by (simp add: handleRegenerateMessage_def createRegeneratedMessages_def)
next
  case (Some i)
  assume i: "chat_inv st"
  have s: "settled (butlast (cs_messages st))" using i by (simp add: chat_inv_def)
  have l: "i < length (cs_messages st)" using find_index_Some [OF Some] by simp
  show ?thesis
    using Some send_inv [OF i] take_user_settled [OF s l] settled_take [OF s l]
    by (auto simp: handleRegenerateMessage_def createRegeneratedMessages_def Let_def)
qed

lemma editor_inv: "chat_inv st \<Longrightarrow> chat_inv (st\<lparr>cs_editingMessageKey := k\<rparr>)"
  by (simp add: chat_inv_def awaiting_def)

lemma edit_inv: "chat_inv st \<Longrightarrow> chat_inv (applyEdit tr ids now stream startFails content submit st)"
proof (cases "find_index (\<lambda>m. ms_key m = or_empty (cs_editingMessageKey st)) (cs_messages st)")
  case None
  then show "chat_inv st \<Longrightarrow> ?thesis" by (simp add: applyEdit_def applyMessageEdit_def Let_def)
next
  case (Some i)
  assume inv: "chat_inv st"
  let ?u = "map (editMessage (or_empty (cs_editingMessageKey st)) content submit now) (cs_messages st)"
  let ?st = "st\<lparr>cs_editingMessageKey := None\<rparr>"
  have inv': "chat_inv ?st" using inv by (rule editor_inv)
  have s: "settled (butlast ?u)" using inv by (simp add: chat_inv_def map_butlast [symmetric] edit_settled)
  have l: "i < length ?u" using find_index_Some [OF Some] by simp
  have "chat_inv (?st\<lparr>cs_messages := ?u\<rparr>)" using s by (intro messages_inv [OF inv']) (simp_all add: edit_settled)
  moreover have "chat_inv (sendChat tr now stream startFails (?st\<lparr>cs_messages := take (i + 1) ?u @ [m]\<rparr>))"
    if "ms_from (?u ! i) = User" for m
    using take_user_settled [OF s l that] by (intro send_inv [OF inv']) simp
  ultimately show ?thesis using Some inv by (cases submit) (simp_all add: applyEdit_def applyMessageEdit_def Let_def)
qed

lemma chat_step_inv:
  assumes "chat_inv st" "chat_step tr nt st st'"
  shows "chat_inv st'"
  using assms(2,1)
proof (induction rule: chat_step.induct)
  case (step_send st ids now stream startFails content)
  have "settled (cs_messages st)"
    using step_send by (auto simp: chat_inv_def isGenerating_def awaiting_def)
  then show ?case using step_send.prems
    by (auto simp: handleSendMessage_def appendUserMessagePair_def createUserMessage_def isPendingAssistantMessage_def
        butlast_append intro!: send_inv split: prod.splits)
next
  case (step_delete st key)
  then have s: "settled (butlast (cs_messages st))" by (simp add: chat_inv_def)
  have "settled (filter P ms)" if "settled ms" for P and ms :: "Message list" using that by (auto simp: list_all_iff)
  with messages_inv [OF step_delete filter_settled [OF s]] show ?case
    by (simp add: handleDeleteMessage_def removeMessageByKey_def)
next
  case (step_clear st)
  then show ?case by (simp add: clearMessages_def messages_inv)
next
  case (step_error st source data now readyState)
  obtain e where "se_errorMessage (parseStreamErrorDetails data) = JStr e"
    using step_error.hyps(2) by (auto simp: is_string_def split: json.splits)
  then show ?case using handleError_ends [OF step_error.prems step_error.hyps(1)] step_error.prems
    by (simp add: onError_def Let_def)
next
  case (step_ready st source now readyState status)
  then show ?case using handleError_ends [OF step_ready.prems step_ready.hyps]
    by (simp add: onReadyStateChange_def split: option.splits)
qed (simp_all add: regenerate_inv edit_inv editor_inv handleEditMessage_def handleEditOpenChange_def stop_ends flush_inv message_inv fetch_inv)

interpretation playground_chat: invariant_system chat_init "chat_step tr nt" chat_inv for tr nt
proof
  show "chat_init st \<Longrightarrow> chat_inv st" for st
    by (simp add: chat_init_def chat_inv_def isGenerating_def settled_butlast)
qed (rule chat_step_inv)


end
