(* ===== verification/Playground_Text.thy ===== *)
theory Playground_Text
  imports Playground_Invariant
begin

text \<open>
  The text a stream leaves in the conversation, whatever the flush timer does between its
  chunks, and the separation of thoughts from visible text.
\<close>

section \<open>The text of a stream\<close>

text \<open>Events of a stream in the order in which they happen: chunks, and runs of the flush timer.\<close>

datatype stream_event = Chunk StreamChunkType jsstr | Tick int

fun runStream :: "(jsstr \<Rightarrow> jsstr) \<Rightarrow> stream_event list \<Rightarrow> ChatState \<Rightarrow> ChatState" where
  "runStream nt [] st = st"
| "runStream nt (Chunk ty s # es) st =
     runStream nt es (case handleStreamUpdate nt (ty, JStr s) st of Some st' \<Rightarrow> st' | None \<Rightarrow> st)"
| "runStream nt (Tick now # es) st = runStream nt es (flushStreamUpdates now st)"

fun contentChunks :: "stream_event list \<Rightarrow> jsstr list" where
  "contentChunks [] = []"
| "contentChunks (Chunk ContentChunk s # es) = s # contentChunks es"
| "contentChunks (_ # es) = contentChunks es"

text \<open>
  No run of chunks is the start of the text of the run after it, so that no chunk looks like
  a repetition of the text so far.
\<close>

definition chunk_block :: "jsstr list \<Rightarrow> nat \<Rightarrow> nat \<Rightarrow> jsstr" where
  "chunk_block ds i j = concat (take (j - i) (drop i ds))"

definition no_replay :: "jsstr list \<Rightarrow> bool" where
  "no_replay ds \<longleftrightarrow> list_all (\<lambda>i. list_all (\<lambda>j. list_all (\<lambda>k.
     chunk_block ds i j = [] \<or> \<not> starts_with (chunk_block ds j k) (chunk_block ds i j))
     [j..<Suc (length ds)]) [i..<Suc (length ds)]) [0..<Suc (length ds)]"

lemma no_replay_blocks:
  assumes "no_replay (as @ bs @ cs @ ds)" "concat bs \<noteq> []"
  shows "\<not> starts_with (concat cs) (concat bs)"
proof -
  let ?l = "as @ bs @ cs @ ds" and ?i = "length as" and ?j = "length as + length bs" and ?k = "length as + length bs + length cs"
  have "chunk_block ?l ?i ?j = concat bs" "chunk_block ?l ?j ?k = concat cs" by (simp_all add: chunk_block_def)
  moreover have "chunk_block ?l ?i ?j = [] \<or> \<not> starts_with (chunk_block ?l ?j ?k) (chunk_block ?l ?i ?j)"
    using assms(1) unfolding no_replay_def list_all_iff
    by (elim ballE [where x = ?i] ballE [where x = ?j] ballE [where x = ?k]) (simp_all del: upt_Suc)
  ultimately show ?thesis using assms(2) by (simp del: concat_eq_Nil_conv)
qed

lemma appendable_Nil [simp]: "getAppendableChunk a [] = []"
  by (simp add: getAppendableChunk_def starts_with_def)

lemma appendable_fresh: "a = [] \<or> \<not> starts_with b a \<Longrightarrow> getAppendableChunk a b = b"
  by (auto simp: getAppendableChunk_def)

lemma reasoning_timing_keeps [simp]: "getMessageContent (completeReasoningTiming m t) = getMessageContent m"
  "ms_from (completeReasoningTiming m t) = ms_from m"
  by (simp_all add: completeReasoningTiming_def getMessageContent_def getCurrentVersion_def Let_def split: option.splits)

lemma update_content [simp]: "getMessageContent (updateCurrentVersionContent m s) = s"
  by (simp add: updateCurrentVersionContent_def getMessageContent_def getCurrentVersion_def)

lemma content_only_versions:
  "getMessageContent (m\<lparr>ms_reasoning := r\<rparr>) = getMessageContent m"
  "getMessageContent (m\<lparr>ms_isReasoningStreaming := b\<rparr>) = getMessageContent m"
  "getMessageContent (m\<lparr>ms_status := s\<rparr>) = getMessageContent m"
  by (simp_all add: getMessageContent_def getCurrentVersion_def)

lemma apply_reasoning:
  assumes "ms_status m \<noteq> Some Error"
  shows "getMessageContent (applyStreamingChunk m ReasoningChunk c now) = getMessageContent m"
    "ms_from (applyStreamingChunk m ReasoningChunk c now) = ms_from m"
    "ms_status (applyStreamingChunk m ReasoningChunk c now) = Some Streaming"
  using assms by (simp_all add: applyStreamingChunk_def Let_def content_only_versions)

lemma apply_content:
  assumes "ms_status m \<noteq> Some Error"
  shows "getMessageContent (applyStreamingChunk m ContentChunk c now) =
      getMessageContent m @ getAppendableChunk (getMessageContent m) c"
    "ms_from (applyStreamingChunk m ContentChunk c now) = ms_from m"
    "ms_status (applyStreamingChunk m ContentChunk c now) = Some Streaming"
proof -
  have p: "getMessageContent (processStreamingContent m s now) = getMessageContent m @ s"
    "ms_from (processStreamingContent m s now) = ms_from m" for s
    by (simp_all add: processStreamingContent_def Let_def content_only_versions updateCurrentVersionContent_def)
      (simp_all add: getMessageContent_def getCurrentVersion_def)
  have c: "mv_content (getCurrentVersion m) = getMessageContent m" by (simp add: getMessageContent_def)
  show "getMessageContent (applyStreamingChunk m ContentChunk c now) =
      getMessageContent m @ getAppendableChunk (getMessageContent m) c"
    "ms_from (applyStreamingChunk m ContentChunk c now) = ms_from m"
    "ms_status (applyStreamingChunk m ContentChunk c now) = Some Streaming"
    using assms by (simp_all add: applyStreamingChunk_def Let_def content_only_versions c p)
qed

text \<open>The last message takes the stream: the assistant's, without an error.\<close>

definition receiving :: "ChatState \<Rightarrow> bool" where
  "receiving st \<longleftrightarrow> cs_messages st \<noteq> [] \<and> ms_from (last (cs_messages st)) = Assistant \<and>
     ms_status (last (cs_messages st)) \<noteq> Some Error"

text \<open>The raw content of the last message, with its think tags.\<close>

definition storedContent :: "ChatState \<Rightarrow> jsstr" where
  "storedContent st = getMessageContent (last (cs_messages st))"

lemma flush_text:
  assumes "receiving st"
  shows "receiving (flushStreamUpdates now st) \<and>
    storedContent (flushStreamUpdates now st) = storedContent st @ getAppendableChunk (storedContent st) (cs_pendingContent st)"
proof -
  let ?m = "last (cs_messages st)" and ?r = "cs_pendingReasoning st" and ?p = "cs_pendingContent st"
  let ?m1 = "if ?r \<noteq> [] then applyStreamingChunk ?m ReasoningChunk ?r now else ?m"
  have m1: "getMessageContent ?m1 = getMessageContent ?m" "ms_from ?m1 = Assistant" "ms_status ?m1 \<noteq> Some Error"
    using assms by (simp_all add: receiving_def apply_reasoning)
  let ?m2 = "applyPending ?r ?p now ?m"
  have m2: "getMessageContent ?m2 = getMessageContent ?m @ getAppendableChunk (getMessageContent ?m) ?p"
    "ms_from ?m2 = Assistant" "ms_status ?m2 \<noteq> Some Error"
    using m1 by (simp_all add: applyPending_def Let_def apply_content getAppendableChunk_def)
  show ?thesis
  proof (cases "?r = [] \<and> ?p = []")
    case True
    with assms show ?thesis by (simp add: flushStreamUpdates_def receiving_def storedContent_def getAppendableChunk_def)
  next
    case False
    with assms m2 show ?thesis
      by (simp add: flushStreamUpdates_def Let_def receiving_def storedContent_def updateLastAssistantMessage_def)
  qed
qed

lemma run_text:
  assumes "receiving st" "storedContent st = concat as" "cs_pendingContent st = concat bs"
    and "no_replay (as @ bs @ contentChunks es)"
  shows "receiving (runStream nt es st) \<and>
    storedContent (flushStreamUpdates now (runStream nt es st)) = concat (as @ bs @ contentChunks es)"
  using assms
proof (induction es arbitrary: st as bs)
  case Nil
  have "concat as = [] \<or> \<not> starts_with (concat bs) (concat as)"
    using no_replay_blocks [of "[]" as bs "[]"] Nil.prems(4) by auto
  with Nil.prems flush_text [OF Nil.prems(1), of now] show ?case by (simp add: appendable_fresh)
next
  case (Cons e es)
  consider s where "e = Chunk ContentChunk s" | s where "e = Chunk ReasoningChunk s" | t where "e = Tick t"
    by (metis stream_event.exhaust StreamChunkType.exhaust)
  then show ?case
  proof cases
    case 1
    have "concat bs = [] \<or> \<not> starts_with s (concat bs)"
      using no_replay_blocks [of as bs "[s]" "contentChunks es"] Cons.prems(4) 1 by auto
    then have h: "handleStreamUpdate nt (ContentChunk, JStr s) st =
        Some (scheduleStreamFlush (st\<lparr>cs_pendingContent := concat (bs @ [s])\<rparr>))"
      using Cons.prems(3) by (cases "concat bs = []") (simp_all add: handleStreamUpdate_def mergePendingStreamChunk_def del: concat_eq_Nil_conv)
    let ?st = "scheduleStreamFlush (st\<lparr>cs_pendingContent := concat (bs @ [s])\<rparr>)"
    have "receiving ?st" "storedContent ?st = concat as" "cs_pendingContent ?st = concat (bs @ [s])"
      using Cons.prems by (simp_all add: scheduleStreamFlush_def receiving_def storedContent_def)
    from Cons.IH [OF this] Cons.prems(4) 1 h show ?thesis by simp
  next
    case 2
    obtain p where h: "handleStreamUpdate nt (ReasoningChunk, JStr s) st =
        Some (scheduleStreamFlush (st\<lparr>cs_pendingReasoning := p\<rparr>))"
      by (cases "cs_pendingReasoning st = []") (simp_all add: handleStreamUpdate_def mergePendingStreamChunk_def)
    let ?st = "scheduleStreamFlush (st\<lparr>cs_pendingReasoning := p\<rparr>)"
    have "receiving ?st" "storedContent ?st = concat as" "cs_pendingContent ?st = concat bs"
      using Cons.prems by (simp_all add: scheduleStreamFlush_def receiving_def storedContent_def)
    from Cons.IH [OF this] Cons.prems(4) 2 h show ?thesis by simp
  next
    case 3
    let ?st = "flushStreamUpdates t st"
    have "concat as = [] \<or> \<not> starts_with (concat bs) (concat as)"
      using no_replay_blocks [of "[]" as bs "contentChunks es"] Cons.prems(4) 3 by auto
    then have "receiving ?st" "storedContent ?st = concat (as @ bs)" "cs_pendingContent ?st = concat []"
      using flush_text [OF Cons.prems(1), of t] Cons.prems by (simp_all add: appendable_fresh)
    from Cons.IH [OF this] Cons.prems(4) 3 show ?thesis by simp
  qed
qed

section \<open>Think tags\<close>

lemma split_first_append:
  assumes "\<not> str_includes v (x # p)" "x \<notin> set p"
  shows "split_first (x # p) (v @ (x # p) @ s) = Some (v, s)"
  using assms(1)
proof (induction v)
  case Nil
  then show ?case by (simp add: starts_with_Cons)
next
  case (Cons y v)
  have "\<not> starts_with (y # v @ (x # p) @ s) (x # p)"
  proof
    assume "starts_with (y # v @ (x # p) @ s) (x # p)"
    then have st: "y = x" "starts_with (v @ (x # p) @ s) p" by (simp_all add: starts_with_Cons)
    show False
    proof (cases "length p \<le> length v")
      case True
      then have "starts_with v p" using st(2) by (simp add: starts_with_def)
      with st(1) Cons.prems show False by (simp add: starts_with_Cons)
    next
      case False
      then have "p ! length v = x" using st(2) by (metis append_Cons nth_append_length nth_take not_le starts_with_def)
      with False assms(2) show False by (metis not_le nth_mem)
    qed
  qed
  with Cons show ?case by simp
qed

lemma split_first_none: "p \<noteq> [] \<Longrightarrow> split_first p s = None \<longleftrightarrow> \<not> str_includes s p"
  by (induction s) auto

lemma think_split:
  "\<not> str_includes v think_open \<Longrightarrow> split_first think_open (v @ think_open @ s) = Some (v, s)"
  "\<not> str_includes v think_close \<Longrightarrow> split_first think_close (v @ think_close @ s) = Some (v, s)"
  using split_first_append [of v 60 "tl think_open" s] split_first_append [of v 60 "tl think_close" s]
  by (simp_all add: think_open_def think_close_def js_simps)

text \<open>Visible text and a closed thought, then visible text, then perhaps a thought that is still open.\<close>

definition think_text :: "(jsstr \<times> jsstr) list \<Rightarrow> jsstr \<Rightarrow> jsstr option \<Rightarrow> jsstr" where
  "think_text ps v u = concat (map (\<lambda>(v, r). v @ think_open @ r @ think_close) ps) @ v @
     (case u of None \<Rightarrow> [] | Some r \<Rightarrow> think_open @ r)"

definition think_ok :: "(jsstr \<times> jsstr) list \<Rightarrow> jsstr \<Rightarrow> jsstr option \<Rightarrow> bool" where
  "think_ok ps v u \<longleftrightarrow> list_all (\<lambda>(v, r). \<not> str_includes v think_open \<and> \<not> str_includes r think_close) ps \<and>
     \<not> str_includes v think_open \<and> (case u of None \<Rightarrow> True | Some r \<Rightarrow> \<not> str_includes r think_close)"

definition thoughts :: "(jsstr \<times> jsstr) list \<Rightarrow> jsstr option \<Rightarrow> jsstr list" where
  "thoughts ps u = map snd ps @ (case u of None \<Rightarrow> [] | Some r \<Rightarrow> [r])"

lemma think_ne: "think_open \<noteq> []" "think_close \<noteq> []"
  by (simp_all add: think_open_def think_close_def)

lemma thinkLoop_text:
  "think_ok ps v u \<Longrightarrow> \<exists>vs. thinkLoop (think_text ps v u) = (vs, thoughts ps u, u \<noteq> None) \<and> concat vs = concat (map fst ps) @ v"
proof (induction ps)
  case Nil
  show ?case
  proof (cases u)
    case None
    then have "split_first think_open v = None" using Nil by (simp add: think_ok_def split_first_none think_ne)
    with None show ?thesis by (subst thinkLoop.simps) (simp add: think_text_def thoughts_def)
  next
    case (Some r)
    then have "split_first think_close r = None" using Nil by (simp add: think_ok_def split_first_none think_ne)
    with Some Nil think_split(1) [of v r] show ?thesis
      by (subst thinkLoop.simps) (simp add: think_text_def thoughts_def think_ok_def)
  qed
next
  case (Cons p ps)
  obtain w r where p: "p = (w, r)" by force
  from Cons obtain vs where vs: "thinkLoop (think_text ps v u) = (vs, thoughts ps u, u \<noteq> None)" "concat vs = concat (map fst ps) @ v"
    by (auto simp: think_ok_def)
  have w: "\<not> str_includes w think_open" "\<not> str_includes r think_close" using Cons.prems p by (simp_all add: think_ok_def)
  have t: "think_text (p # ps) v u = w @ think_open @ r @ think_close @ think_text ps v u" by (simp add: p think_text_def)
  show ?case
    unfolding t using vs think_split(1) [OF w(1)] think_split(2) [OF w(2)]
    by (subst thinkLoop.simps) (simp add: p thoughts_def)
qed

lemma think_included: "ps \<noteq> [] \<or> u \<noteq> None \<Longrightarrow> str_includes (think_text ps v u) think_open"
proof -
  assume a: "ps \<noteq> [] \<or> u \<noteq> None"
  then have "\<exists>x y. think_text ps v u = x @ think_open @ y"
  proof
    assume "ps \<noteq> []"
    then obtain w r qs where "ps = (w, r) # qs" by (metis neq_Nil_conv surj_pair)
    then show ?thesis by (intro exI [of _ w] exI) (simp add: think_text_def)
  next
    assume "u \<noteq> None"
    then obtain r where "u = Some r" by blast
    then show ?thesis
      by (intro exI [of _ "concat (map (\<lambda>(v, r). v @ think_open @ r @ think_close) ps) @ v"] exI [of _ r]) (simp add: think_text_def)
  qed
  then show ?thesis by (simp add: str_includes_iff)
qed

section \<open>Properties\<close>

text \<open>
  C15: in every state the chat can reach, whatever the order of user actions, server events and
  timers, no message before the last one is pending, and when nothing is generating no message
  is pending at all.
\<close>

theorem chat_pending_only_while_generating:
  assumes "reach chat_init (chat_step tr nt) st"
  shows "list_all (\<lambda>m. \<not> isPendingAssistantMessage m) (butlast (cs_messages st)) \<and>
    (\<not> isGenerating st \<longrightarrow> list_all (\<lambda>m. \<not> isPendingAssistantMessage m) (cs_messages st))"
  using playground_chat.reach_inv [OF assms] by (auto simp: chat_inv_def awaiting_def isGenerating_def)

definition emptyChat :: ChatState where
  "emptyChat = \<lparr>cs_messages = [], cs_isRequesting = False, cs_isStreaming = False, cs_sseSource = None, cs_sourceCount = 0,
     cs_isStreamComplete = False, cs_pendingContent = [], cs_pendingReasoning = [], cs_flushTimer = False, cs_requestId = 0,
     cs_abortController = None, cs_fetches = [], cs_editingMessageKey = None\<rparr>"

definition sentChat :: ChatState where
  "sentChat = handleSendMessage id ((js ''k1'', js ''v1''), (js ''k2'', js ''v2'')) 5 True False (js ''hello'') emptyChat"

lemma sentChat_reach: "reach chat_init (chat_step id id) sentChat"
  unfolding sentChat_def
proof (rule reach_step)
  show "reach chat_init (chat_step id id) emptyChat"
    by (rule reach_init) (simp add: chat_init_def emptyChat_def isGenerating_def)
  show "chat_step id id emptyChat (handleSendMessage id ((js ''k1'', js ''v1''), (js ''k2'', js ''v2'')) 5 True False (js ''hello'') emptyChat)"
    by (rule step_send) (simp add: emptyChat_def)
qed

lemma sentChat_state:
  "cs_sseSource sentChat = Some 0" "isGenerating sentChat" "length (cs_messages sentChat) = 2"
  "isPendingAssistantMessage (last (cs_messages sentChat))" "receiving sentChat" "storedContent sentChat = []"
  "cs_pendingContent sentChat = []"
  by (simp_all add: sentChat_def emptyChat_def handleSendMessage_def sendChat_def sendStreamingChat_def sendStreamRequest_def
      appendUserMessagePair_def Let_def isGenerating_def createLoadingAssistantMessage_def isPendingAssistantMessage_def
      isAssistantMessagePending_def receiving_def storedContent_def getMessageContent_def getCurrentVersion_def createMessageVersion_def)

theorem chat_pending_only_while_generating_witness:
  "isPendingAssistantMessage (last (cs_messages sentChat)) \<and>
   list_all (\<lambda>m. \<not> isPendingAssistantMessage m) (butlast (cs_messages sentChat))"
  using chat_pending_only_while_generating [OF sentChat_reach] sentChat_state by simp

text \<open>
  C29: from every state the chat can reach, Stop ends the generation, whether an event source, a
  request without streaming or nothing is under way; while an event source is active, so do its
  end mark and an error it reports with a text. Afterwards nothing is generating and no message is
  left pending.
\<close>

theorem chat_terminal_events_end:
  assumes "reach chat_init (chat_step tr nt) st"
    and "st' = stopGeneration now st \<or>
      (\<exists>source. cs_sseSource st = Some source \<and>
        (st' = onMessage tr nt now source STREAM_DONE_MESSAGE st \<or> st' = handleError tr now source (JStr e) code st))"
  shows "\<not> isGenerating st' \<and> list_all (\<lambda>m. \<not> isPendingAssistantMessage m) (cs_messages st')"
proof -
  note inv = playground_chat.reach_inv [OF assms(1)]
  from assms(2) show ?thesis by (elim disjE exE conjE) (simp_all add: stop_ends [OF inv] done_ends [OF inv] handleError_ends [OF inv])
qed

definition fetchingChat :: ChatState where
  "fetchingChat = handleSendMessage id ((js ''k1'', js ''v1''), (js ''k2'', js ''v2'')) 5 False False (js ''hello'') emptyChat"

lemma fetchingChat_reach: "reach chat_init (chat_step id id) fetchingChat"
  unfolding fetchingChat_def
proof (rule reach_step)
  show "reach chat_init (chat_step id id) emptyChat"
    by (rule reach_init) (simp add: chat_init_def emptyChat_def isGenerating_def)
  show "chat_step id id emptyChat (handleSendMessage id ((js ''k1'', js ''v1''), (js ''k2'', js ''v2'')) 5 False False (js ''hello'') emptyChat)"
    by (rule step_send) (simp add: emptyChat_def)
qed

lemma fetchingChat_state: "cs_sseSource fetchingChat = None" "isGenerating fetchingChat"
  by (simp_all add: fetchingChat_def emptyChat_def handleSendMessage_def sendChat_def sendNonStreamingChat_def
      appendUserMessagePair_def Let_def isGenerating_def)

theorem chat_terminal_events_end_witness:
  "isGenerating fetchingChat \<and> \<not> isGenerating (stopGeneration 9 fetchingChat) \<and>
   \<not> isGenerating (onMessage id id 9 0 STREAM_DONE_MESSAGE sentChat) \<and>
   \<not> isGenerating (handleError id 9 0 (JStr PARSE_ERROR) None sentChat)"
  using chat_terminal_events_end [OF fetchingChat_reach, of _ 9] fetchingChat_state(2)
    chat_terminal_events_end [OF sentChat_reach, of _ 9 PARSE_ERROR None] sentChat_state(1) by auto

text \<open>
  C17: when no chunk repeats the text before it, the content stored in the message after the last
  flush is the text of the content chunks in their order, wherever the flush timer runs between
  them and whatever reasoning comes in between. The view takes think tags out of the stored
  content before it shows it.
\<close>

theorem stream_text_exact:
  assumes "receiving st" and "storedContent st = []" and "cs_pendingContent st = []" and "no_replay (contentChunks es)"
  shows "storedContent (flushStreamUpdates now (runStream nt es st)) = concat (contentChunks es)"
  using run_text [of st "[]" "[]" es nt now] assms by simp

theorem stream_text_exact_witness:
  "storedContent (flushStreamUpdates 9 (runStream id [Chunk ContentChunk (js ''Hel''), Tick 7, Chunk ReasoningChunk (js ''hm''),
     Chunk ContentChunk (js ''lo'')] sentChat)) = js ''Hello''"
proof -
  have "no_replay [js ''Hel'', js ''lo'']"
    by (simp add: no_replay_def chunk_block_def upt_rec starts_with_def js_simps)
  then show ?thesis
    using stream_text_exact [OF sentChat_state(5,6,7), of "[Chunk ContentChunk (js ''Hel''), Tick 7, Chunk ReasoningChunk (js ''hm''),
     Chunk ContentChunk (js ''lo'')]" 9 id] by (simp add: js_simps)
qed

lemma chunk_steps:
  "runStream nt (Chunk ContentChunk s # es) st =
     runStream nt es (scheduleStreamFlush (st\<lparr>cs_pendingContent := (if cs_pendingContent st = [] then s
       else if starts_with s (cs_pendingContent st) then s else cs_pendingContent st @ s)\<rparr>))"
  by (simp add: handleStreamUpdate_def mergePendingStreamChunk_def)

declare runStream.simps(2) [simp del]

lemma buffered_state [simp]:
  "receiving (scheduleStreamFlush (st\<lparr>cs_pendingContent := p\<rparr>)) = receiving st"
  "storedContent (scheduleStreamFlush (st\<lparr>cs_pendingContent := p\<rparr>)) = storedContent st"
  "cs_pendingContent (scheduleStreamFlush (st\<lparr>cs_pendingContent := p\<rparr>)) = p"
  by (simp_all add: scheduleStreamFlush_def receiving_def storedContent_def)

text \<open>
  A chunk that starts with the text before it loses that text: a stream that starts with
  the same chunk twice shows it once. Which text counts depends on the flush timer: the same
  three chunks give two different messages.
\<close>

lemma stream_text_depends_on_timing:
  assumes "receiving st" and "storedContent st = []" and "cs_pendingContent st = []" and "s \<noteq> []"
  shows "storedContent (flushStreamUpdates now (runStream nt [Chunk ContentChunk s, Chunk ContentChunk s] st)) = s \<and>
    storedContent (flushStreamUpdates now (runStream nt [Chunk ContentChunk (js ''x''), Chunk ContentChunk (js ''a''),
      Chunk ContentChunk (js ''ab'')] st)) = js ''xaab'' \<and>
    storedContent (flushStreamUpdates now (runStream nt [Chunk ContentChunk (js ''x''), Tick t, Chunk ContentChunk (js ''a''),
      Chunk ContentChunk (js ''ab'')] st)) = js ''xab''"
proof (intro conjI)
  show "storedContent (flushStreamUpdates now (runStream nt [Chunk ContentChunk s, Chunk ContentChunk s] st)) = s"
    using assms by (simp add: chunk_steps flush_text appendable_fresh starts_with_def)
  show "storedContent (flushStreamUpdates now (runStream nt [Chunk ContentChunk (js ''x''), Chunk ContentChunk (js ''a''),
      Chunk ContentChunk (js ''ab'')] st)) = js ''xaab''"
    using assms by (simp add: chunk_steps flush_text appendable_fresh starts_with_def js_simps)
  show "storedContent (flushStreamUpdates now (runStream nt [Chunk ContentChunk (js ''x''), Tick t, Chunk ContentChunk (js ''a''),
      Chunk ContentChunk (js ''ab'')] st)) = js ''xab''"
    using assms by (simp add: chunk_steps flush_text getAppendableChunk_def starts_with_def js_simps)
qed

lemma stream_text_depends_on_timing_witness:
  "storedContent (flushStreamUpdates 9 (runStream id [Chunk ContentChunk (js ''ha''), Chunk ContentChunk (js ''ha'')] sentChat)) = js ''ha''"
  using stream_text_depends_on_timing [OF sentChat_state(5,6,7), of "js ''ha''" 9 id 7] by (simp add: js_simps)

text \<open>
  A text of visible parts and tagged thoughts is taken apart exactly: the visible text is
  the visible parts, the reasoning the thoughts, and the last thought may be unclosed.
\<close>

lemma think_tags_separated:
  assumes "think_ok ps v u" and "ps \<noteq> [] \<or> u \<noteq> None"
  shows "parseThinkTags (think_text ps v u) =
    \<lparr>visibleContent = trim (concat (map fst ps) @ v), reasoning = trim (join [10, 10] (thoughts ps u)),
     hasUnclosedTag = (u \<noteq> None)\<rparr>"
proof -
  obtain vs where "thinkLoop (think_text ps v u) = (vs, thoughts ps u, u \<noteq> None)" "concat vs = concat (map fst ps) @ v"
    using thinkLoop_text [OF assms(1)] by blast
  with think_included [OF assms(2)] show ?thesis by (simp add: parseThinkTags_def)
qed

lemma think_tags_separated_witness:
  "parseThinkTags (think_text [(js ''a'', js ''b'')] (js ''c'') (Some (js ''d''))) =
    \<lparr>visibleContent = js ''ac'', reasoning = js ''b'' @ [10, 10] @ js ''d'', hasUnclosedTag = True\<rparr>"
proof -
  have ok: "think_ok [(js ''a'', js ''b'')] (js ''c'') (Some (js ''d''))"
    by (simp add: think_ok_def think_open_def think_close_def js_simps starts_with_def)
  show ?thesis
    using think_tags_separated [OF ok] by (simp add: thoughts_def js_simps trim_def trim_left_def is_ws_def)
qed

lemma sanitized_final: "\<not> isPendingAssistantMessage (sanitizeMessage tr m now)"
  by (simp add: sanitizeMessage_def Let_def isPendingAssistantMessage_def isAssistantMessagePending_def)

lemma sanitize_settled: "settled (tl ms) \<Longrightarrow> settled (sanitizeFromEnd tr now ms)"
proof (cases ms)
  case (Cons m ms')
  assume "settled (tl ms)"
  then have s: "settled ms'" using Cons by simp
  then have "sanitizeFromEnd tr now ms' = ms'" by (induction ms') simp_all
  with s Cons show ?thesis by (simp add: sanitized_final)
qed simp

lemma sanitize_load_settled: "settled (butlast ms) \<Longrightarrow> settled (sanitizeMessagesOnLoad tr now ms)"
proof -
  assume "settled (butlast ms)"
  then have "settled (tl (rev ms))" using butlast_rev [of "rev ms"] by simp
  then show ?thesis using sanitize_settled by (simp add: sanitizeMessagesOnLoad_def)
qed

end
