(* ===== verification/Playground_Storage.thy ===== *)
theory Playground_Storage
  imports Playground_Text JS_Regex JS_Collections
begin

text \<open>
  The stored conversation of the playground (\<open>lib/storage/storage.ts\<close>): the limits on count
  and size, the repair of repeated text and of interrupted answers, and the order in which
  loading applies them. The zod schema and the text \<open>JSON.stringify\<close> gives are the parameters
  \<open>schema\<close> and \<open>stringify\<close>; \<open>localStorage\<close> is the text under the key, if any.
\<close>

section \<open>Limits\<close>

definition MAX_STORED_MESSAGES :: nat where "MAX_STORED_MESSAGES = 100"
definition MAX_STORED_MESSAGES_BYTES :: nat where "MAX_STORED_MESSAGES_BYTES = 1024 * 1024"
definition MAX_LOADED_MESSAGES_CHARS :: nat where "MAX_LOADED_MESSAGES_CHARS = 120000"
definition MAX_LOADED_MESSAGE_CHARS :: nat where "MAX_LOADED_MESSAGE_CHARS = 40000"
definition TRUNCATED_CONTENT_SUFFIX :: jsstr where "TRUNCATED_CONTENT_SUFFIX = [10, 10] @ js ''[...]''"
definition MIN_PREFIX_COLLAPSE_LENGTH :: nat where "MIN_PREFIX_COLLAPSE_LENGTH = 2000"
definition MIN_REPEATED_SECTION_COUNT :: nat where "MIN_REPEATED_SECTION_COUNT = 3"

text \<open>\<open>messages.slice(-n)\<close> of a longer list.\<close>

definition trimMessages :: "'a list \<Rightarrow> 'a list" where
  "trimMessages messages =
     (if length messages \<le> MAX_STORED_MESSAGES then messages
      else drop (length messages - MAX_STORED_MESSAGES) messages)"

definition getMessageSize :: "Message \<Rightarrow> nat" where
  "getMessageSize message =
     foldl (\<lambda>total v. total + length (mv_content v)) 0 (ms_versions message) +
     (case ms_reasoning message of Some r \<Rightarrow> length (re_content r) | None \<Rightarrow> 0)"

definition truncateText :: "jsstr \<Rightarrow> nat \<Rightarrow> jsstr" where
  "truncateText s maxLength =
     (if length s \<le> maxLength then s
      else if maxLength \<le> length TRUNCATED_CONTENT_SUFFIX then take maxLength s
      else take (maxLength - length TRUNCATED_CONTENT_SUFFIX) s @ TRUNCATED_CONTENT_SUFFIX)"

fun sizeLoop :: "nat \<Rightarrow> Message list \<Rightarrow> Message list \<Rightarrow> Message list" where
  "sizeLoop totalSize result [] = result"
| "sizeLoop totalSize result (message # messages) =
     (if result \<noteq> [] \<and> totalSize + getMessageSize message > MAX_LOADED_MESSAGES_CHARS then result
      else sizeLoop (totalSize + getMessageSize message) (result @ [message]) messages)"

definition trimMessagesByContentSize :: "Message list \<Rightarrow> Message list" where
  "trimMessagesByContentSize messages = rev (sizeLoop 0 [] (rev messages))"

section \<open>Repeated sections\<close>

text \<open>
  \<open>/^#{2,6}\s+\d+\.\s+.+$/gm\<close>. Group 1 is the heading, group 2 the text after it, which gives
  the index of the match.
\<close>

definition is_line_end :: "code_unit \<Rightarrow> bool" where
  "is_line_end c \<longleftrightarrow> c = 10 \<or> c = 13 \<or> c = 8232 \<or> c = 8233"

definition line_start :: "code_unit option \<Rightarrow> bool" where
  "line_start prev = (case prev of None \<Rightarrow> True | Some c \<Rightarrow> is_line_end c)"

fun rx_line_end :: rx where
  "rx_line_end (c, s) = (if s = [] \<or> is_line_end (hd s) then [(c, s)] else [])"

fun rx_rest :: "nat \<Rightarrow> rx" where
  "rx_rest n (c, s) = [((n, s) # c, s)]"

definition heading_rx :: rx where
  "heading_rx = rx_seq
     [rx_cap 1 (rx_seq [rx_lit (js ''##''), rx_iter 4 (rx_lit (js ''#'')), rx_some is_ws, rx_some is_digit, rx_lit (js ''.''),
        rx_some is_ws, rx_some (\<lambda>c. \<not> is_line_end c), rx_line_end]), rx_rest 2]"

record SectionOccurrence =
  so_heading :: jsstr
  so_index :: nat

definition getSectionOccurrences :: "jsstr \<Rightarrow> SectionOccurrence list" where
  "getSectionOccurrences s =
     map (\<lambda>c. \<lparr>so_heading = capture c 1, so_index = length s - length (capture c 2) - length (capture c 1)\<rparr>)
       (rx_all line_start heading_rx None s)"

definition getHeadingCounts :: "SectionOccurrence list \<Rightarrow> (jsstr \<times> nat) list" where
  "getHeadingCounts occurrences = foldl (\<lambda>counts c. upsert (so_heading c) 0 Suc counts) [] occurrences"

fun lastRepeatedIndexes :: "(jsstr \<times> nat) list \<Rightarrow> jsstr list \<Rightarrow> SectionOccurrence list \<Rightarrow> nat list" where
  "lastRepeatedIndexes counts seenHeadings [] = []"
| "lastRepeatedIndexes counts seenHeadings (c # cs) =
     (let n = (case map_of counts (so_heading c) of Some n \<Rightarrow> n | None \<Rightarrow> 0) in
      if n < MIN_REPEATED_SECTION_COUNT \<or> so_heading c \<in> set seenHeadings
      then lastRepeatedIndexes counts seenHeadings cs
      else so_index c # lastRepeatedIndexes counts (so_heading c # seenHeadings) cs)"

definition findLastRepeatedSectionRunStart :: "jsstr \<Rightarrow> nat option" where
  "findLastRepeatedSectionRunStart s =
     (let occurrences = getSectionOccurrences s;
          indexes = lastRepeatedIndexes (getHeadingCounts occurrences) [] (rev occurrences) in
      case indexes of [] \<Rightarrow> None | i # is \<Rightarrow> Some (foldl min i is))"

definition collapseRepeatedSectionSnapshots :: "jsstr \<Rightarrow> jsstr" where
  "collapseRepeatedSectionSnapshots s =
     (if length s < MIN_PREFIX_COLLAPSE_LENGTH then s
      else case findLastRepeatedSectionRunStart s of None \<Rightarrow> s | Some i \<Rightarrow> drop i s)"

section \<open>Loading and saving\<close>

definition loadedVersion :: "MessageVersion \<Rightarrow> MessageVersion" where
  "loadedVersion v = v\<lparr>mv_content := truncateText (collapseRepeatedSectionSnapshots (mv_content v)) MAX_LOADED_MESSAGE_CHARS\<rparr>"

text \<open>The message with its texts cut; the object is kept when nothing was cut, which is the same value.\<close>

definition cutMessage :: "Message \<Rightarrow> Message" where
  "cutMessage message = message\<lparr>ms_versions := map loadedVersion (ms_versions message),
     ms_reasoning := map_option (\<lambda>r. r\<lparr>re_content := truncateText (re_content r) MAX_LOADED_MESSAGE_CHARS\<rparr>)
       (ms_reasoning message)\<rparr>"

fun first_time :: "int option list \<Rightarrow> int \<Rightarrow> int" where
  "first_time [] now = now"
| "first_time (Some t # ts) now = t"
| "first_time (None # ts) now = first_time ts now"

definition normalizeStoredMessageForLoad :: "int \<Rightarrow> Message \<Rightarrow> Message" where
  "normalizeStoredMessageForLoad now message =
     (let normalized = cutMessage message;
          hasReasoning = (case ms_reasoning normalized of Some r \<Rightarrow> trim (re_content r) \<noteq> [] | None \<Rightarrow> False) in
      if \<not> isAssistantMessagePending normalized then normalized
      else if \<not> hasMessageContent normalized \<and> \<not> hasReasoning then normalized
      else completeAssistantTiming
        ((finalizeMessage normalized None now)\<lparr>ms_status := Some Complete, ms_isReasoningStreaming := False\<rparr>)
        (first_time [ms_completedAt normalized, Option.bind (ms_reasoning normalized) re_completedAt,
           ms_startedAt normalized, ms_createdAt normalized] now))"

definition restoreMessages :: "(jsstr \<Rightarrow> jsstr) \<Rightarrow> int \<Rightarrow> Message list \<Rightarrow> Message list" where
  "restoreMessages tr now parsed =
     sanitizeMessagesOnLoad tr now (trimMessagesByContentSize (trimMessages (map (normalizeStoredMessageForLoad now) parsed)))"

definition unwrapStoredValue :: "json \<Rightarrow> json" where
  "unwrapStoredValue v =
     (case v of
        JObj m \<Rightarrow> (case (map_of m (js ''version''), map_of m (js ''data'')) of (Some _, Some d) \<Rightarrow> d | _ \<Rightarrow> v)
      | _ \<Rightarrow> v)"

text \<open>The parsed value, if any, and the storage afterwards: a text over the limit is removed.\<close>

datatype stored_value = Nothing | Throws | Parsed json

definition readStoredMessagesValue :: "jsstr option \<Rightarrow> stored_value \<times> jsstr option" where
  "readStoredMessagesValue storage =
     (if or_empty storage = [] then (Nothing, storage)
      else if length (or_empty storage) > MAX_STORED_MESSAGES_BYTES then (Nothing, None)
      else (case json_parse (or_empty storage) of None \<Rightarrow> Throws | Some v \<Rightarrow> Parsed v, storage))"

text \<open>
  Of the values the type allows, the schema rejects messages without a version. Writing can
  fail when the storage is full (\<open>fits\<close>); the error is logged and the storage stays as it is.
\<close>

definition saveMessages :: "(Message list \<Rightarrow> jsstr) \<Rightarrow> (jsstr \<Rightarrow> bool) \<Rightarrow> Message list \<Rightarrow> jsstr option \<Rightarrow> jsstr option" where
  "saveMessages stringify fits messages storage =
     (let trimmed = trimMessages messages in
      if list_all (\<lambda>m. ms_versions m \<noteq> []) trimmed \<and> fits (stringify trimmed) then Some (stringify trimmed) else storage)"

text \<open>
  \<open>trimMessagesByContentSize\<close> returns a new array, which is never identical to its argument:
  the test before the save is always true.
\<close>

definition loadMessages :: "(json \<Rightarrow> Message list option) \<Rightarrow> (Message list \<Rightarrow> jsstr) \<Rightarrow> (jsstr \<Rightarrow> bool) \<Rightarrow> (jsstr \<Rightarrow> jsstr) \<Rightarrow> int \<Rightarrow>
    jsstr option \<Rightarrow> Message list option \<times> jsstr option" where
  "loadMessages schema stringify fits tr now storage =
     (case readStoredMessagesValue storage of
        (Parsed saved, storage1) \<Rightarrow>
          if \<not> truthy saved then (None, storage1)
          else (case schema (unwrapStoredValue saved) of
              None \<Rightarrow> (None, storage1)
            | Some parsed \<Rightarrow>
                (let sanitized = restoreMessages tr now parsed in
                 (Some sanitized, saveMessages stringify fits sanitized storage1)))
      | (_, storage1) \<Rightarrow> (None, storage1))"

section \<open>Sizes\<close>

lemma length_join_Cons: "length (join sep (p # ps)) \<le> length p + length sep + length (join sep ps)"
  by (cases ps) simp_all

lemma thinkLoop_size: "length (concat (fst (thinkLoop s))) + length (join [10, 10] (fst (snd (thinkLoop s)))) \<le> length s"
proof (induction s rule: thinkLoop.induct)
  case (1 s)
  show ?case
  proof (cases "split_first think_open s")
    case None
    then show ?thesis by (simp add: thinkLoop.simps [of s])
  next
    case (Some p)
    obtain before r where p: "split_first think_open s = Some (before, r)" using Some by (metis surj_pair)
    have l: "length before + 7 + length r = length s" using split_first_length [OF p] by (simp add: think_open_def js_simps)
    show ?thesis
    proof (cases "split_first think_close r")
      case None
      with p l show ?thesis by (simp add: thinkLoop.simps [of s])
    next
      case (Some q)
      obtain thought r' where q: "split_first think_close r = Some (thought, r')" using Some by (metis surj_pair)
      have l': "length thought + 8 + length r' = length r" using split_first_length [OF q] by (simp add: think_close_def js_simps)
      obtain vs rs u where t: "thinkLoop r' = (vs, rs, u)" by (metis surj_pair)
      have "length (concat vs) + length (join [10, 10] rs) \<le> length r'"
        using 1 [OF p refl refl q refl] t by simp
      with p q l l' t length_join_Cons [of "[10, 10]" thought rs] show ?thesis by (simp add: thinkLoop.simps [of s])
    qed
  qed
qed

lemma parse_size: "length (visibleContent (parseThinkTags s)) + length (reasoning (parseThinkTags s)) \<le> length s"
proof (cases "str_includes s think_open")
  case True
  obtain vs rs u where t: "thinkLoop s = (vs, rs, u)" by (metis surj_pair)
  have "length (concat vs) + length (join [10, 10] rs) \<le> length s" using thinkLoop_size [of s] t by simp
  with True t length_trim [of "concat vs"] length_trim [of "join [10, 10] rs"] show ?thesis
    by (simp add: parseThinkTags_def)
qed (simp add: parseThinkTags_def)

definition reasoningText :: "Message \<Rightarrow> jsstr" where
  "reasoningText m = (case ms_reasoning m of Some r \<Rightarrow> re_content r | None \<Rightarrow> [])"

lemma message_size: "getMessageSize m = (\<Sum>v \<leftarrow> ms_versions m. length (mv_content v)) + length (reasoningText m)"
proof -
  have "foldl (\<lambda>total v. total + length (mv_content v)) a vs = a + (\<Sum>v \<leftarrow> vs. length (mv_content v))" for a and vs :: "MessageVersion list"
    by (induction vs arbitrary: a) simp_all
  then show ?thesis by (simp add: getMessageSize_def reasoningText_def split: option.splits)
qed

lemma timing_keeps [simp]:
  "ms_versions (completeReasoningTiming m t) = ms_versions m" "reasoningText (completeReasoningTiming m t) = reasoningText m"
  "ms_versions (completeAssistantTiming m t) = ms_versions m" "reasoningText (completeAssistantTiming m t) = reasoningText m"
  "ms_key (completeAssistantTiming m t) = ms_key m" "ms_key (completeReasoningTiming m t) = ms_key m"
  "ms_from (completeAssistantTiming m t) = ms_from m"
  by (simp_all add: completeReasoningTiming_def completeAssistantTiming_def reasoningText_def Let_def split: option.splits)

text \<open>Finalising replaces the versions by one and splits its text.\<close>

lemma finalize_texts:
  fixes m now
  defines "c \<equiv> mv_content (getCurrentVersion m)" and "f \<equiv> finalizeMessage m None now"
  shows "\<exists>v. ms_versions f = [v] \<and>
    (length (mv_content v) \<le> length c \<and> reasoningText f = reasoningText m \<or>
     length (mv_content v) + length (reasoningText f) \<le> length c)"
proof -
  let ?p = "parseThinkTags c"
  let ?v = "(getCurrentVersion m)\<lparr>mv_content := (if str_includes c think_open then visibleContent ?p else c)\<rparr>"
  have v: "ms_versions f = [?v]"
    unfolding f_def c_def by (simp add: finalizeMessage_def Let_def updateCurrentVersionContent_def)
  have r: "reasoningText f = (if reasoningText m \<noteq> [] then reasoningText m
      else if str_includes c think_open then reasoning ?p else [])"
    unfolding f_def c_def
    by (simp add: finalizeMessage_def Let_def or_empty_def reasoningText_def [of "_\<lparr>ms_isReasoningStreaming := _\<rparr>"])
      (simp add: reasoningText_def)
  have "length (mv_content ?v) \<le> length c" using parse_size [of c] by simp
  moreover have "length (mv_content ?v) + length (reasoning ?p) \<le> length c" if "str_includes c think_open"
    using that parse_size [of c] by simp
  ultimately show ?thesis unfolding v r by (intro exI [of _ ?v]) auto
qed

lemma current_size: "length (mv_content (getCurrentVersion m)) \<le> (\<Sum>v \<leftarrow> ms_versions m. length (mv_content v))"
  by (simp add: getCurrentVersion_def split: list.splits)

lemma finalize_size: "getMessageSize (finalizeMessage m None now) \<le> getMessageSize m"
  using finalize_texts [of m now] current_size [of m] by (auto simp: message_size)

text \<open>No text of a message is longer than a limit.\<close>

definition capped :: "nat \<Rightarrow> Message \<Rightarrow> bool" where
  "capped n m \<longleftrightarrow> list_all (\<lambda>v. length (mv_content v) \<le> n) (ms_versions m) \<and> length (reasoningText m) \<le> n"

lemma finalize_capped: "capped n m \<Longrightarrow> capped n (finalizeMessage m None now)"
proof -
  assume c: "capped n m"
  then have "length (mv_content (getCurrentVersion m)) \<le> n" by (auto simp: capped_def getCurrentVersion_def split: list.splits)
  with c finalize_texts [of m now] show ?thesis by (auto simp: capped_def)
qed

lemma capped_mono: "capped n m \<Longrightarrow> n \<le> k \<Longrightarrow> capped k m"
  by (auto simp: capped_def list_all_iff)

lemma truncate_length: "length (truncateText s n) \<le> n"
  by (simp add: truncateText_def)

lemma cut_capped: "capped MAX_LOADED_MESSAGE_CHARS (cutMessage m)"
  by (auto simp: capped_def cutMessage_def loadedVersion_def list_all_iff truncate_length reasoningText_def split: option.splits)

lemma update_fields [simp]:
  "reasoningText (m\<lparr>ms_status := s\<rparr>) = reasoningText m" "reasoningText (m\<lparr>ms_isReasoningStreaming := b\<rparr>) = reasoningText m"
  "reasoningText (updateCurrentVersionContent m c) = reasoningText m"
  "ms_key (updateCurrentVersionContent m c) = ms_key m" "ms_from (updateCurrentVersionContent m c) = ms_from m"
  "ms_key (finalizeMessage m a now) = ms_key m" "ms_from (finalizeMessage m a now) = ms_from m"
  by (simp_all add: reasoningText_def updateCurrentVersionContent_def finalizeMessage_def Let_def)

lemma capped_status [simp]: "capped n (m\<lparr>ms_status := s, ms_isReasoningStreaming := b\<rparr>) = capped n m"
  "capped n (completeAssistantTiming m t) = capped n m"
  by (simp_all add: capped_def)

lemma normalize_capped: "capped MAX_LOADED_MESSAGE_CHARS (normalizeStoredMessageForLoad now m)"
  by (simp add: normalizeStoredMessageForLoad_def Let_def cut_capped finalize_capped)

lemma normalize_keeps:
  "ms_key (normalizeStoredMessageForLoad now m) = ms_key m"
  "\<not> isPendingAssistantMessage m \<Longrightarrow> \<not> isPendingAssistantMessage (normalizeStoredMessageForLoad now m)"
  by (auto simp: normalizeStoredMessageForLoad_def Let_def cutMessage_def isPendingAssistantMessage_def isAssistantMessagePending_def)

section \<open>Cutting the list\<close>

lemma sizeLoop_prefix:
  "\<exists>k. sizeLoop n acc ms = acc @ take k ms \<and> k \<le> length ms \<and> (acc = [] \<and> ms \<noteq> [] \<longrightarrow> k \<noteq> 0) \<and>
    (n = (\<Sum>m \<leftarrow> acc. getMessageSize m) \<and> (length acc \<le> 1 \<or> n \<le> MAX_LOADED_MESSAGES_CHARS) \<longrightarrow>
     length (sizeLoop n acc ms) \<le> 1 \<or> (\<Sum>m \<leftarrow> sizeLoop n acc ms. getMessageSize m) \<le> MAX_LOADED_MESSAGES_CHARS) \<and>
    (n = (\<Sum>m \<leftarrow> acc. getMessageSize m) \<longrightarrow>
     k = length ms \<or> (\<Sum>m \<leftarrow> acc @ take (Suc k) ms. getMessageSize m) > MAX_LOADED_MESSAGES_CHARS)"
proof (induction ms arbitrary: n acc)
  case (Cons m ms)
  show ?case
  proof (cases "acc \<noteq> [] \<and> n + getMessageSize m > MAX_LOADED_MESSAGES_CHARS")
    case True
    then show ?thesis by (intro exI [of _ 0]) auto
  next
    case False
    obtain k where "sizeLoop (n + getMessageSize m) (acc @ [m]) ms = (acc @ [m]) @ take k ms" "k \<le> length ms"
      "n + getMessageSize m = (\<Sum>m \<leftarrow> acc @ [m]. getMessageSize m) \<and>
       (length (acc @ [m]) \<le> 1 \<or> n + getMessageSize m \<le> MAX_LOADED_MESSAGES_CHARS) \<longrightarrow>
       length (sizeLoop (n + getMessageSize m) (acc @ [m]) ms) \<le> 1 \<or>
       (\<Sum>m \<leftarrow> sizeLoop (n + getMessageSize m) (acc @ [m]) ms. getMessageSize m) \<le> MAX_LOADED_MESSAGES_CHARS"
      "n + getMessageSize m = (\<Sum>m \<leftarrow> acc @ [m]. getMessageSize m) \<longrightarrow>
       k = length ms \<or> (\<Sum>m \<leftarrow> (acc @ [m]) @ take (Suc k) ms. getMessageSize m) > MAX_LOADED_MESSAGES_CHARS"
      using Cons.IH [of "n + getMessageSize m" "acc @ [m]"] by blast
    with False show ?thesis by (intro exI [of _ "Suc k"]) auto
  qed
qed auto

lemma size_trim:
  "\<exists>k. trimMessagesByContentSize ms = drop k ms \<and> (trimMessagesByContentSize ms = [] \<longleftrightarrow> ms = []) \<and>
    (length (trimMessagesByContentSize ms) \<le> 1 \<or> (\<Sum>m \<leftarrow> trimMessagesByContentSize ms. getMessageSize m) \<le> MAX_LOADED_MESSAGES_CHARS) \<and>
    (k = 0 \<or> (\<Sum>m \<leftarrow> drop (k - 1) ms. getMessageSize m) > MAX_LOADED_MESSAGES_CHARS)"
proof -
  obtain k where k: "sizeLoop 0 [] (rev ms) = take k (rev ms)" "k \<le> length ms" "ms \<noteq> [] \<longrightarrow> k \<noteq> 0"
    "length (sizeLoop 0 [] (rev ms)) \<le> 1 \<or> (\<Sum>m \<leftarrow> sizeLoop 0 [] (rev ms). getMessageSize m) \<le> MAX_LOADED_MESSAGES_CHARS"
    "k = length ms \<or> (\<Sum>m \<leftarrow> take (Suc k) (rev ms). getMessageSize m) > MAX_LOADED_MESSAGES_CHARS"
    using sizeLoop_prefix [of 0 "[]" "rev ms"] by (elim exE conjE) (rule that, simp_all)
  have d: "trimMessagesByContentSize ms = drop (length ms - k) ms"
    by (simp add: trimMessagesByContentSize_def k(1) take_rev)
  have sum: "(\<Sum>m \<leftarrow> rev xs. getMessageSize m) = (\<Sum>m \<leftarrow> xs. getMessageSize m)" for xs
    by (metis rev_map sum_list_rev)
  have "length (trimMessagesByContentSize ms) = length (sizeLoop 0 [] (rev ms))"
    "(\<Sum>m \<leftarrow> trimMessagesByContentSize ms. getMessageSize m) = (\<Sum>m \<leftarrow> sizeLoop 0 [] (rev ms). getMessageSize m)"
    by (simp_all add: trimMessagesByContentSize_def sum)
  moreover have "k = length ms \<or> (\<Sum>m \<leftarrow> drop (length ms - k - 1) ms. getMessageSize m) > MAX_LOADED_MESSAGES_CHARS"
    using k(5) by (simp add: take_rev sum)
  moreover have "trimMessagesByContentSize ms = [] \<longleftrightarrow> ms = []" unfolding d using k(2,3) by auto
  ultimately show ?thesis
    using k(4) d by (intro exI [of _ "length ms - k"]) (intro conjI, simp, simp, metis, metis diff_self_eq_0)
qed

section \<open>Sanitizing\<close>

text \<open>The text of an answer that was interrupted before it had any.\<close>

definition interruptedText :: "(jsstr \<Rightarrow> jsstr) \<Rightarrow> jsstr" where
  "interruptedText tr = tr API_REQUEST_ERROR @ js '': '' @ tr INTERRUPTED"

lemma sanitize_message:
  "ms_key (sanitizeMessage tr m now) = ms_key m"
  "getMessageSize (sanitizeMessage tr m now) \<le> getMessageSize m + length (interruptedText tr)"
  "capped n m \<Longrightarrow> capped (max n (length (interruptedText tr))) (sanitizeMessage tr m now)"
proof -
  let ?f = "finalizeMessage m None now"
  show "ms_key (sanitizeMessage tr m now) = ms_key m" by (simp add: sanitizeMessage_def Let_def)
  have v: "ms_versions (updateCurrentVersionContent ?f s) = [(getCurrentVersion ?f)\<lparr>mv_content := s\<rparr>]" for s
    by (simp add: updateCurrentVersionContent_def)
  have "length (reasoningText ?f) \<le> getMessageSize ?f" by (simp add: message_size)
  with finalize_size [of m now] show "getMessageSize (sanitizeMessage tr m now) \<le> getMessageSize m + length (interruptedText tr)"
    by (simp add: sanitizeMessage_def Let_def message_size v interruptedText_def)
  assume "capped n m"
  then have "capped n ?f" by (rule finalize_capped)
  then show "capped (max n (length (interruptedText tr))) (sanitizeMessage tr m now)"
    using capped_mono [of n ?f] by (simp add: sanitizeMessage_def Let_def) (simp add: capped_def v interruptedText_def)
qed

lemma sanitize_list:
  "map ms_key (sanitizeFromEnd tr now ms) = map ms_key ms"
  "(\<Sum>m \<leftarrow> sanitizeFromEnd tr now ms. getMessageSize m) \<le> (\<Sum>m \<leftarrow> ms. getMessageSize m) + length (interruptedText tr)"
  "list_all (capped n) ms \<Longrightarrow> list_all (capped (max n (length (interruptedText tr)))) (sanitizeFromEnd tr now ms)"
proof -
  show "map ms_key (sanitizeFromEnd tr now ms) = map ms_key ms" by (induction ms) (simp_all add: sanitize_message)
  show "(\<Sum>m \<leftarrow> sanitizeFromEnd tr now ms. getMessageSize m) \<le> (\<Sum>m \<leftarrow> ms. getMessageSize m) + length (interruptedText tr)"
  proof (induction ms)
    case (Cons m ms)
    then show ?case using sanitize_message(2) [of tr m now] by simp
  qed simp
  show "list_all (capped n) ms \<Longrightarrow> list_all (capped (max n (length (interruptedText tr)))) (sanitizeFromEnd tr now ms)"
  proof (induction ms)
    case (Cons m ms)
    have "list_all (capped (max n k)) ms" for k using Cons.prems by (auto simp: list_all_iff intro: capped_mono)
    with Cons show ?case by (auto simp: sanitize_message intro: capped_mono)
  qed simp
qed

lemma sanitize_on_load:
  "map ms_key (sanitizeMessagesOnLoad tr now ms) = map ms_key ms"
  "length (sanitizeMessagesOnLoad tr now ms) = length ms"
  "(\<Sum>m \<leftarrow> sanitizeMessagesOnLoad tr now ms. getMessageSize m) \<le> (\<Sum>m \<leftarrow> ms. getMessageSize m) + length (interruptedText tr)"
  "list_all (capped n) ms \<Longrightarrow> list_all (capped (max n (length (interruptedText tr)))) (sanitizeMessagesOnLoad tr now ms)"
proof -
  show k: "map ms_key (sanitizeMessagesOnLoad tr now ms) = map ms_key ms"
    by (simp add: sanitizeMessagesOnLoad_def rev_map [symmetric] sanitize_list)
  show "length (sanitizeMessagesOnLoad tr now ms) = length ms" using arg_cong [OF k, of length] by simp
  have sum: "(\<Sum>m \<leftarrow> rev xs. getMessageSize m) = (\<Sum>m \<leftarrow> xs. getMessageSize m)" for xs
    by (metis rev_map sum_list_rev)
  show "(\<Sum>m \<leftarrow> sanitizeMessagesOnLoad tr now ms. getMessageSize m) \<le> (\<Sum>m \<leftarrow> ms. getMessageSize m) + length (interruptedText tr)"
    using sanitize_list(2) [of tr now "rev ms"] by (simp add: sanitizeMessagesOnLoad_def sum)
  show "list_all (capped n) ms \<Longrightarrow> list_all (capped (max n (length (interruptedText tr)))) (sanitizeMessagesOnLoad tr now ms)"
    using sanitize_list(3) [of n "rev ms" tr now] by (simp add: sanitizeMessagesOnLoad_def)
qed

lemma trim_messages: "\<exists>k. trimMessages ms = drop k ms \<and> length (trimMessages ms) \<le> MAX_STORED_MESSAGES \<and>
    (trimMessages ms = [] \<longleftrightarrow> ms = [])"
proof (cases "length ms \<le> MAX_STORED_MESSAGES")
  case True
  then show ?thesis by (intro exI [of _ 0]) (simp add: trimMessages_def)
next
  case False
  then show ?thesis by (intro exI [of _ "length ms - MAX_STORED_MESSAGES"]) (auto simp: trimMessages_def MAX_STORED_MESSAGES_def)
qed

section \<open>Properties\<close>

text \<open>
  C30: a conversation stored at any moment, even while an answer is arriving, is restored with
  every message settled, so that the chat starts again in an initial state.
\<close>

theorem restored_chat_settled:
  assumes "reach chat_init (chat_step tr nt) st"
  shows "chat_init (emptyChat\<lparr>cs_messages := restoreMessages tr now (trimMessages (cs_messages st))\<rparr>)"
proof -
  let ?n = "map (normalizeStoredMessageForLoad now) (trimMessages (cs_messages st))"
  have b: "settled (butlast (cs_messages st))" using playground_chat.reach_inv [OF assms] by (simp add: chat_inv_def)
  have drop: "settled (butlast (drop k ms))" if "settled (butlast ms)" for k and ms :: "Message list"
    using that by (auto simp: list_all_iff butlast_drop dest: in_set_dropD)
  have "settled (butlast (trimMessages (cs_messages st)))" using trim_messages [of "cs_messages st"] drop [OF b] by metis
  then have "settled (butlast ?n)" by (simp add: map_butlast [symmetric] list_all_iff normalize_keeps)
  then have "settled (butlast (trimMessagesByContentSize (trimMessages ?n)))"
    using drop trim_messages [of ?n] size_trim [of "trimMessages ?n"] by metis
  then have "settled (restoreMessages tr now (trimMessages (cs_messages st)))"
    unfolding restoreMessages_def by (rule sanitize_load_settled)
  then show ?thesis by (simp add: chat_init_def isGenerating_def emptyChat_def)
qed

theorem restored_chat_settled_witness:
  "chat_init (emptyChat\<lparr>cs_messages := restoreMessages id 9 (trimMessages (cs_messages sentChat))\<rparr>)"
  by (rule restored_chat_settled [OF sentChat_reach])

text \<open>
  Loading keeps the most recent messages in their order: at most a hundred, at least one when
  there was one, none with a text over the limit of a message, and more than one only within the
  limit on the total size. The text that marks an interrupted answer comes on top.
\<close>

lemma restored_history_bounded:
  "(\<exists>k. map ms_key (restoreMessages tr now ms) = drop k (map ms_key ms)) \<and>
   length (restoreMessages tr now ms) \<le> MAX_STORED_MESSAGES \<and>
   (restoreMessages tr now ms = [] \<longleftrightarrow> ms = []) \<and>
   list_all (capped (max MAX_LOADED_MESSAGE_CHARS (length (interruptedText tr)))) (restoreMessages tr now ms) \<and>
   (length (restoreMessages tr now ms) \<le> 1 \<or>
    (\<Sum>m \<leftarrow> restoreMessages tr now ms. getMessageSize m) \<le> MAX_LOADED_MESSAGES_CHARS + length (interruptedText tr))"
proof -
  let ?n = "map (normalizeStoredMessageForLoad now) ms"
  let ?s = "trimMessagesByContentSize (trimMessages ?n)"
  obtain k1 where k1: "trimMessages ?n = drop k1 ?n" "length (trimMessages ?n) \<le> MAX_STORED_MESSAGES" "trimMessages ?n = [] \<longleftrightarrow> ms = []"
    using trim_messages [of ?n] by auto
  obtain k2 where k2: "?s = drop k2 (trimMessages ?n)" "?s = [] \<longleftrightarrow> trimMessages ?n = []"
    "length ?s \<le> 1 \<or> (\<Sum>m \<leftarrow> ?s. getMessageSize m) \<le> MAX_LOADED_MESSAGES_CHARS"
    using size_trim [of "trimMessages ?n"] by blast
  have r: "restoreMessages tr now ms = sanitizeMessagesOnLoad tr now ?s" by (simp add: restoreMessages_def)
  have "map ms_key ?s = drop (k2 + k1) (map ms_key ms)" 
  proof -
    have "map ms_key ?s = map ms_key (drop k2 (drop k1 ?n))" using k1(1) k2(1) by metis
    then show ?thesis by (simp add: drop_map normalize_keeps comp_def)
  qed
  then have "\<exists>k. map ms_key (restoreMessages tr now ms) = drop k (map ms_key ms)" using sanitize_on_load(1) r by metis
  moreover have len: "length (restoreMessages tr now ms) = length ?s" by (simp add: r sanitize_on_load(2))
  moreover have "length ?s \<le> MAX_STORED_MESSAGES" using k1(2) k2(1) by simp
  moreover have "restoreMessages tr now ms = [] \<longleftrightarrow> ms = []" using len k1(3) k2(2) by (metis length_0_conv)
  moreover have "list_all (capped MAX_LOADED_MESSAGE_CHARS) ?s"

  proof -
    have "set ?s \<subseteq> set (trimMessages ?n)" "set (trimMessages ?n) \<subseteq> set ?n"
      using k2(1) k1(1) set_drop_subset by metis+
    then show ?thesis by (auto simp: list_all_iff normalize_capped)
  qed
  then have "list_all (capped (max MAX_LOADED_MESSAGE_CHARS (length (interruptedText tr)))) (restoreMessages tr now ms)"
    unfolding r by (rule sanitize_on_load(4))
  ultimately show ?thesis using k2(3) sanitize_on_load(3) [of tr now ?s] r by auto
qed

end
