(* ===== verification/Playground_Config.thy ===== *)
theory Playground_Config
  imports Playground_Storage JS_Number
begin

text \<open>
  What the playground sends and shows: the request payload built from the conversation and
  the enabled parameters (\<open>lib/streaming/payload-builder.ts\<close>), the ranges of the parameters
  (\<open>lib/parameters\<close>), the fallbacks for models and groups (\<open>lib/options\<close>) and the state the
  message views derive from a message (\<open>lib/message\<close>).
\<close>

section \<open>Configuration\<close>

record PlaygroundConfig =
  pc_model :: jsstr
  pc_group :: jsstr
  pc_temperature :: rat
  pc_top_p :: rat
  pc_max_tokens :: rat
  pc_frequency_penalty :: rat
  pc_presence_penalty :: rat
  pc_seed :: "rat option"
  pc_stream :: bool

record ParameterEnabled =
  pe_temperature :: bool
  pe_top_p :: bool
  pe_max_tokens :: bool
  pe_frequency_penalty :: bool
  pe_presence_penalty :: bool
  pe_seed :: bool

definition DEFAULT_CONFIG :: PlaygroundConfig where
  "DEFAULT_CONFIG = \<lparr>pc_model = js ''gpt-4o'', pc_group = js ''default'', pc_temperature = 7 / 10, pc_top_p = 1,
     pc_max_tokens = 4096, pc_frequency_penalty = 0, pc_presence_penalty = 0, pc_seed = None, pc_stream = True\<rparr>"

definition DEFAULT_PARAMETER_ENABLED :: ParameterEnabled where
  "DEFAULT_PARAMETER_ENABLED = \<lparr>pe_temperature = True, pe_top_p = True, pe_max_tokens = False,
     pe_frequency_penalty = True, pe_presence_penalty = True, pe_seed = False\<rparr>"

record ChatCompletionRequest =
  rq_model :: jsstr
  rq_group :: jsstr
  rq_messages :: "ChatCompletionMessage list"
  rq_stream :: bool
  rq_temperature :: "rat option"
  rq_top_p :: "rat option"
  rq_max_tokens :: "rat option"
  rq_frequency_penalty :: "rat option"
  rq_presence_penalty :: "rat option"
  rq_seed :: "rat option"

definition buildChatCompletionPayload :: "Message list \<Rightarrow> PlaygroundConfig \<Rightarrow> ParameterEnabled \<Rightarrow> ChatCompletionRequest" where
  "buildChatCompletionPayload messages config parameterEnabled =
     \<lparr>rq_model = pc_model config, rq_group = pc_group config,
      rq_messages = map formatMessageForAPI (filter isValidMessage messages), rq_stream = pc_stream config,
      rq_temperature = (if pe_temperature parameterEnabled then Some (pc_temperature config) else None),
      rq_top_p = (if pe_top_p parameterEnabled then Some (pc_top_p config) else None),
      rq_max_tokens = (if pe_max_tokens parameterEnabled then Some (pc_max_tokens config) else None),
      rq_frequency_penalty = (if pe_frequency_penalty parameterEnabled then Some (pc_frequency_penalty config) else None),
      rq_presence_penalty = (if pe_presence_penalty parameterEnabled then Some (pc_presence_penalty config) else None),
      rq_seed = (if pe_seed parameterEnabled then pc_seed config else None)\<rparr>"

section \<open>Parameters\<close>

datatype PlaygroundParameterKey = Temperature | TopP | FrequencyPenalty | PresencePenalty | MaxTokens | Seed

text \<open>The step is kept as the text of the number, whose decimals give the precision.\<close>

record PlaygroundParameterControl =
  ct_key :: PlaygroundParameterKey
  ct_slider :: bool
  ct_min :: rat
  ct_max :: rat
  ct_step :: jsstr

definition PLAYGROUND_PARAMETER_CONTROLS :: "PlaygroundParameterControl list" where
  "PLAYGROUND_PARAMETER_CONTROLS =
     [\<lparr>ct_key = Temperature, ct_slider = True, ct_min = 1 / 10, ct_max = 1, ct_step = js ''0.1''\<rparr>,
      \<lparr>ct_key = TopP, ct_slider = True, ct_min = 1 / 10, ct_max = 1, ct_step = js ''0.1''\<rparr>,
      \<lparr>ct_key = FrequencyPenalty, ct_slider = True, ct_min = - 2, ct_max = 2, ct_step = js ''0.1''\<rparr>,
      \<lparr>ct_key = PresencePenalty, ct_slider = True, ct_min = - 2, ct_max = 2, ct_step = js ''0.1''\<rparr>,
      \<lparr>ct_key = MaxTokens, ct_slider = False, ct_min = 0, ct_max = 200000, ct_step = js ''1''\<rparr>,
      \<lparr>ct_key = Seed, ct_slider = False, ct_min = 0, ct_max = 2147483647, ct_step = js ''1''\<rparr>]"

text \<open>\<open>Math.min(max, Math.max(min, x))\<close> for a number that is not \<open>NaN\<close>, \<open>Math.trunc\<close>, and \<open>toFixed\<close>.\<close>

definition clamp :: "rat \<Rightarrow> rat \<Rightarrow> jsnum \<Rightarrow> rat" where
  "clamp lo hi x = (case x of Fin q \<Rightarrow> min hi (max lo q) | Infinite neg \<Rightarrow> (if neg then lo else hi) | NaN \<Rightarrow> lo)"

definition math_trunc :: "rat \<Rightarrow> rat" where
  "math_trunc q = of_int (if q < 0 then \<lceil>q\<rceil> else \<lfloor>q\<rfloor>)"

definition to_fixed :: "nat \<Rightarrow> rat \<Rightarrow> rat" where
  "to_fixed p q =
     (let half_up = (\<lambda>x. of_int \<lfloor>x * 10 ^ p + 1 / 2\<rfloor> / 10 ^ p) in if q < 0 then - half_up (- q) else half_up q)"

datatype ParameterInput = TextInput jsstr | NumberInput jsnum

definition step_precision :: "jsstr \<Rightarrow> nat" where
  "step_precision step = (case split_on 46 step of _ # decimals # _ \<Rightarrow> length decimals | _ \<Rightarrow> 0)"

definition whole_step :: "jsstr \<Rightarrow> bool" where
  "whole_step step = (case number_of_string step of Fin n \<Rightarrow> 1 \<le> n | _ \<Rightarrow> False)"

definition normalizeParameterNumberValue :: "PlaygroundParameterKey \<Rightarrow> ParameterInput \<Rightarrow> rat option" where
  "normalizeParameterNumberValue key v =
     (let fallback = (if key = Seed then None else Some 0) in
      if v = TextInput [] then fallback
      else let parsed = (case v of NumberInput n \<Rightarrow> n | TextInput s \<Rightarrow> parse_float s) in
      case List.find (\<lambda>c. ct_key c = key) PLAYGROUND_PARAMETER_CONTROLS of
        None \<Rightarrow> fallback
      | Some control \<Rightarrow>
          if parsed = NaN then fallback
          else let clamped = clamp (ct_min control) (ct_max control) parsed in
            if whole_step (ct_step control) then Some (math_trunc clamped)
            else Some (to_fixed (step_precision (ct_step control)) clamped))"

definition getParameterControlValueText :: "(rat \<Rightarrow> jsstr) \<Rightarrow> PlaygroundParameterKey \<Rightarrow> rat option \<Rightarrow> jsstr" where
  "getParameterControlValueText nt key v =
     (case v of None \<Rightarrow> (if key = Seed then js ''Not set'' else js ''null'') | Some n \<Rightarrow> nt n)"

section \<open>Models and groups\<close>

definition getModelFallback :: "jsstr list \<Rightarrow> jsstr \<Rightarrow> jsstr option" where
  "getModelFallback models currentModel =
     (if currentModel \<in> set models \<or> models = [] then None else Some (hd models))"

definition shouldClearModelForGroup :: "jsstr list \<Rightarrow> jsstr \<Rightarrow> bool" where
  "shouldClearModelForGroup models currentModel \<longleftrightarrow> currentModel \<noteq> [] \<and> currentModel \<notin> set models"

definition getGroupFallback :: "jsstr list \<Rightarrow> jsstr \<Rightarrow> jsstr option" where
  "getGroupFallback groups currentGroup =
     (if currentGroup \<in> set groups \<or> groups = [] then None
      else if js ''default'' \<in> set groups then Some (js ''default'') else Some (hd groups))"

section \<open>Message views\<close>

definition MODEL_PRICE_ERROR_CODE :: jsstr where "MODEL_PRICE_ERROR_CODE = js ''model_price_error''"
definition FALLBACK_ERROR_CONTENT :: jsstr where "FALLBACK_ERROR_CONTENT = js ''An unknown error occurred''"

datatype MessageErrorKind = GenericError | ModelPriceError

record MessageErrorState =
  me_content :: jsstr
  me_kind :: MessageErrorKind
  me_showSettingsLink :: bool

definition isAdminRole :: "int option \<Rightarrow> bool" where
  "isAdminRole role = (case role of Some r \<Rightarrow> 10 \<le> r | None \<Rightarrow> False)"

definition isErrorMessage :: "Message \<Rightarrow> bool" where
  "isErrorMessage message \<longleftrightarrow> ms_status message = Some Error"

definition getMessageErrorState :: "Message \<Rightarrow> bool \<Rightarrow> MessageErrorState option" where
  "getMessageErrorState message isAdmin =
     (if \<not> isErrorMessage message then None
      else let content = (if getMessageContent message \<noteq> [] then getMessageContent message else FALLBACK_ERROR_CONTENT);
               isModelPriceError = (ms_errorCode message = Some MODEL_PRICE_ERROR_CODE) in
        Some \<lparr>me_content = content, me_kind = (if isModelPriceError then ModelPriceError else GenericError),
          me_showSettingsLink = (isModelPriceError \<and> isAdmin)\<rparr>)"

record MessageEditorState =
  ed_canSave :: bool
  ed_hasChanged :: bool
  ed_showSaveAndSubmit :: bool

definition getMessageEditorState :: "Message \<Rightarrow> jsstr \<Rightarrow> jsstr \<Rightarrow> MessageEditorState" where
  "getMessageEditorState message editText originalText =
     \<lparr>ed_canSave = (trim editText \<noteq> [] \<and> editText \<noteq> originalText), ed_hasChanged = (editText \<noteq> originalText),
      ed_showSaveAndSubmit = (ms_from message = User)\<rparr>"

record MessageActionState =
  ac_content :: jsstr
  ac_hasContent :: bool
  ac_isAssistant :: bool
  ac_isLoading :: bool
  ac_isUser :: bool

definition getMessageActionState :: "Message \<Rightarrow> MessageActionState" where
  "getMessageActionState message =
     \<lparr>ac_content = getMessageContent message, ac_hasContent = hasMessageContent message,
      ac_isAssistant = (ms_from message = Assistant),
      ac_isLoading = (ms_status message = Some Loading \<or> ms_status message = Some Streaming),
      ac_isUser = (ms_from message = User)\<rparr>"

definition shouldShowMessageLoader :: "Message \<Rightarrow> bool \<Rightarrow> jsstr \<Rightarrow> bool" where
  "shouldShowMessageLoader message isAssistant versionContent \<longleftrightarrow>
     isAssistant \<and> \<not> ms_isReasoningStreaming message \<and>
     (ms_status message = Some Loading \<or> (ms_status message = Some Streaming \<and> versionContent = []))"

definition shouldShowMessageContent :: "Message \<Rightarrow> jsstr \<Rightarrow> bool" where
  "shouldShowMessageContent message versionContent \<longleftrightarrow>
     (ms_from message = User \<or> \<not> ms_isReasoningStreaming message) \<and> 0 < length versionContent"

definition getDisplayContent :: "Message \<Rightarrow> jsstr \<Rightarrow> jsstr" where
  "getDisplayContent message versionContent =
     (if ms_from message \<noteq> Assistant then versionContent
      else if \<not> str_includes versionContent think_open then versionContent
      else visibleContent (parseThinkTags versionContent))"

record MessageContentState =
  mc_displayContent :: jsstr
  mc_hasSources :: bool
  mc_isAssistant :: bool
  mc_showLoader :: bool
  mc_showMessageContent :: bool
  mc_sources :: "(jsstr \<times> jsstr) list"
  mc_reasoningContent :: "jsstr option"

definition getMessageContentState :: "Message \<Rightarrow> jsstr \<Rightarrow> MessageContentState" where
  "getMessageContentState message versionContent =
     (let isAssistant = (ms_from message = Assistant);
          sources = (case ms_sources message of Some ss \<Rightarrow> ss | None \<Rightarrow> []);
          reasoningContent = (if isAssistant then map_option re_content (ms_reasoning message) else None) in
      \<lparr>mc_displayContent = getDisplayContent message versionContent, mc_hasSources = (sources \<noteq> []),
       mc_isAssistant = isAssistant, mc_showLoader = shouldShowMessageLoader message isAssistant versionContent,
       mc_showMessageContent = shouldShowMessageContent message versionContent, mc_sources = sources,
       mc_reasoningContent = (if or_empty reasoningContent \<noteq> [] then reasoningContent else None)\<rparr>)"

section \<open>Ranges\<close>

lemma clamp_bounds: "lo \<le> hi \<Longrightarrow> lo \<le> clamp lo hi x \<and> clamp lo hi x \<le> hi"
  by (simp add: clamp_def split: jsnum.splits)

lemma trunc_bounds: "of_int a \<le> q \<Longrightarrow> q \<le> of_int b \<Longrightarrow> of_int a \<le> math_trunc q \<and> math_trunc q \<le> of_int b"
  by (auto simp: math_trunc_def le_floor_iff ceiling_le_iff floor_le_iff le_ceiling_iff)

text \<open>Rounding to \<open>p\<close> decimals does not leave an interval whose ends have \<open>p\<close> decimals.\<close>

lemma half_up_bounds:
  fixes q :: rat
  assumes "of_int a \<le> q * 10 ^ p" "q * 10 ^ p \<le> of_int b"
  shows "a \<le> \<lfloor>q * 10 ^ p + 1 / 2\<rfloor> \<and> \<lfloor>q * 10 ^ p + 1 / 2\<rfloor> \<le> b"
  using assms by (auto simp: le_floor_iff floor_le_iff)

lemma fixed_bounds:
  fixes q :: rat
  assumes a: "of_int a \<le> q * 10 ^ p" and b: "q * 10 ^ p \<le> of_int b"
  shows "\<exists>n. to_fixed p q = of_int n / 10 ^ p \<and> a \<le> n \<and> n \<le> b"
proof (cases "q < 0")
  case True
  have "of_int (- b) \<le> (- q) * 10 ^ p" "(- q) * 10 ^ p \<le> of_int (- a)" using a b by simp_all
  from half_up_bounds [OF this] True show ?thesis
    by (intro exI [of _ "- \<lfloor>(- q) * 10 ^ p + 1 / 2\<rfloor>"]) (simp add: to_fixed_def Let_def)
next
  case False
  with half_up_bounds [OF a b] show ?thesis
    by (intro exI [of _ "\<lfloor>q * 10 ^ p + 1 / 2\<rfloor>"]) (simp add: to_fixed_def Let_def)
qed

lemma fixed_range:
  assumes "of_int a = lo * 10 ^ p" "of_int b = hi * 10 ^ p" "lo \<le> q" "q \<le> hi"
  shows "lo \<le> to_fixed p q \<and> to_fixed p q \<le> hi \<and> (\<exists>n. to_fixed p q * 10 ^ p = of_int n)"
proof -
  have "of_int a \<le> q * 10 ^ p" "q * 10 ^ p \<le> of_int b" using assms by (simp_all add: mult_right_mono)
  from fixed_bounds [OF this] obtain n where n: "to_fixed p q = of_int n / 10 ^ p" "a \<le> n" "n \<le> b" by blast
  have "lo * 10 ^ p \<le> to_fixed p q * 10 ^ p" "to_fixed p q * 10 ^ p \<le> hi * 10 ^ p"
    using n assms(1,2) by (simp_all flip: assms(1,2))
  then have "lo \<le> to_fixed p q" "to_fixed p q \<le> hi" by (simp_all add: mult_le_cancel_right)
  with n(1) show ?thesis by auto
qed

text \<open>What a control promises of a value.\<close>

definition in_range :: "PlaygroundParameterControl \<Rightarrow> rat \<Rightarrow> bool" where
  "in_range c q \<longleftrightarrow> ct_min c \<le> q \<and> q \<le> ct_max c \<and> (\<exists>n. q * 10 ^ step_precision (ct_step c) = of_int n)"

lemma steps: "step_precision (js ''0.1'') = 1" "step_precision (js ''1'') = 0" "\<not> whole_step (js ''0.1'')" "whole_step (js ''1'')"
  by (simp_all add: step_precision_def whole_step_def number_eval)

lemma control_ends:
  assumes "c \<in> set PLAYGROUND_PARAMETER_CONTROLS"
  obtains a b where "of_int a = ct_min c * 10 ^ step_precision (ct_step c)" "of_int b = ct_max c * 10 ^ step_precision (ct_step c)"
    "ct_min c \<le> ct_max c" "whole_step (ct_step c) \<longleftrightarrow> step_precision (ct_step c) = 0"
proof -
  have "\<exists>a b. of_int a = ct_min c * 10 ^ step_precision (ct_step c) \<and> of_int b = ct_max c * 10 ^ step_precision (ct_step c) \<and>
      ct_min c \<le> ct_max c \<and> (whole_step (ct_step c) \<longleftrightarrow> step_precision (ct_step c) = 0)"
    using assms
    by (auto simp: PLAYGROUND_PARAMETER_CONTROLS_def steps
        intro: exI [of _ "1 :: int"] exI [of _ "10 :: int"] exI [of _ "- 20 :: int"] exI [of _ "20 :: int"] exI [of _ "0 :: int"]
          exI [of _ "200000 :: int"] exI [of _ "2147483647 :: int"])
  then show ?thesis by (elim exE conjE) (rule that)
qed

text \<open>A value that is typed or slid is the fallback, or within the range and on the grid of its control.\<close>

lemma parameter_values_in_range:
  "case normalizeParameterNumberValue key v of None \<Rightarrow> key = Seed
   | Some q \<Rightarrow> q = 0 \<or> list_ex (\<lambda>c. ct_key c = key \<and> in_range c q) PLAYGROUND_PARAMETER_CONTROLS"
proof (cases "List.find (\<lambda>c. ct_key c = key) PLAYGROUND_PARAMETER_CONTROLS")
  case None
  then show ?thesis by (simp add: normalizeParameterNumberValue_def Let_def)
next
  case (Some c)
  then have c: "c \<in> set PLAYGROUND_PARAMETER_CONTROLS" "ct_key c = key" by (auto simp: find_Some_iff)
  obtain a b where ab: "of_int a = ct_min c * 10 ^ step_precision (ct_step c)" "of_int b = ct_max c * 10 ^ step_precision (ct_step c)"
    "ct_min c \<le> ct_max c" "whole_step (ct_step c) \<longleftrightarrow> step_precision (ct_step c) = 0" using control_ends [OF c(1)] .
  have fixed: "in_range c (to_fixed (step_precision (ct_step c)) (clamp (ct_min c) (ct_max c) x))" for x
    using fixed_range [OF ab(1,2)] clamp_bounds [OF ab(3), of x] by (simp add: in_range_def)
  have whole: "in_range c (math_trunc (clamp (ct_min c) (ct_max c) x))" if "step_precision (ct_step c) = 0" for x
    using trunc_bounds [of a "clamp (ct_min c) (ct_max c) x" b] clamp_bounds [OF ab(3), of x] ab(1,2) that
    by (auto simp: in_range_def math_trunc_def)
  show ?thesis
    using Some c fixed whole ab(4) by (auto simp: normalizeParameterNumberValue_def Let_def list_ex_iff)
qed

section \<open>Properties\<close>

lemma loading_invalid: "\<not> isValidMessage (createLoadingAssistantMessage k n t)"
  by (simp add: isValidMessage_def createLoadingAssistantMessage_def hasMessageContent_def getMessageContent_def
      getCurrentVersion_def createMessageVersion_def)

text \<open>
  A submitted prompt is sent as the last message after the history that was valid before
  it, and the placeholder of the answer, which regeneration and editing append too, is never
  sent.
\<close>

lemma submitted_payload_exact:
  "rq_messages (buildChatCompletionPayload (appendUserMessagePair ids now ms s) config enabled) =
     rq_messages (buildChatCompletionPayload ms config enabled) @ [\<lparr>cm_role = User, cm_content = s\<rparr>] \<and>
   buildChatCompletionPayload (ms @ [createLoadingAssistantMessage k n t]) config enabled =
     buildChatCompletionPayload ms config enabled"
proof -
  have u: "isValidMessage (createUserMessage k n s now)"
    "formatMessageForAPI (createUserMessage k n s now) = \<lparr>cm_role = User, cm_content = s\<rparr>" for k n
    by (simp_all add: isValidMessage_def createUserMessage_def formatMessageForAPI_def getCurrentVersion_def createMessageVersion_def)
  show ?thesis
    by (simp add: buildChatCompletionPayload_def appendUserMessagePair_def loading_invalid u split: prod.splits)
qed

text \<open>
  The text of an error counts as an answer: after a failed request the next payload
  contains the error text as a message of the assistant.
\<close>

lemma error_text_is_sent:
  assumes "ms \<noteq> []" and "ms_from (last ms) = Assistant"
  shows "rq_messages (buildChatCompletionPayload (updateAssistantMessageWithError ms e code title now) config enabled) =
    rq_messages (buildChatCompletionPayload (butlast ms) config enabled) @
      [\<lparr>cm_role = Assistant, cm_content = title @ js '': '' @ e\<rparr>]"
proof -
  let ?m = "completeAssistantTiming ((updateCurrentVersionContent (last ms) (title @ js '': '' @ e))
         \<lparr>ms_status := Some Error, ms_isReasoningStreaming := False,
          ms_errorCode := (if or_empty code = [] then None else code)\<rparr>) now"
  have "58 \<in> set (title @ js '': '' @ e)" "\<not> is_ws 58" by (simp_all add: js_simps is_ws_def)
  then have ne: "trim (title @ js '': '' @ e) \<noteq> []" unfolding trim_eq_Nil by blast
  have "ms_versions ?m = [(getCurrentVersion (last ms))\<lparr>mv_content := title @ js '': '' @ e\<rparr>]" "ms_from ?m = Assistant"
    using assms(2) by (simp_all add: updateCurrentVersionContent_def)
  then have "isValidMessage ?m" "formatMessageForAPI ?m = \<lparr>cm_role = Assistant, cm_content = title @ js '': '' @ e\<rparr>"
    using ne by (simp_all add: isValidMessage_def formatMessageForAPI_def hasMessageContent_def getMessageContent_def getCurrentVersion_def)
  then show ?thesis
    using assms by (simp add: updateAssistantMessageWithError_def updateLastAssistantMessage_def buildChatCompletionPayload_def)
qed

lemma error_text_is_sent_witness:
  "rq_messages (buildChatCompletionPayload (updateAssistantMessageWithError (cs_messages sentChat) (js ''timeout'') None
     API_REQUEST_ERROR 9) DEFAULT_CONFIG DEFAULT_PARAMETER_ENABLED) =
   rq_messages (buildChatCompletionPayload (butlast (cs_messages sentChat)) DEFAULT_CONFIG DEFAULT_PARAMETER_ENABLED) @
     [\<lparr>cm_role = Assistant, cm_content = API_REQUEST_ERROR @ js '': '' @ js ''timeout''\<rparr>]"
  by (rule error_text_is_sent) (use sentChat_state(5) in \<open>simp_all add: receiving_def\<close>)

end
