(* ===== verification/JS_Stringify.thy ===== *)
theory JS_Stringify
  imports JS_Json
begin

text \<open>
  \<open>JSON.stringify(v)\<close> and \<open>JSON.stringify(v, null, 2)\<close> of parsed values, by the language
  reference, and the round trip through \<open>JSON.parse\<close>. The text of a number is the parameter
  \<open>nt\<close>. Objects are written in the order of \<open>Object.keys\<close>.
\<close>

section \<open>Printing\<close>

text \<open>The value as it is written: numbers by their text, keys in the order of enumeration.\<close>

fun json_canon :: "(jsstr \<Rightarrow> jsstr) \<Rightarrow> json \<Rightarrow> json" where
  "json_canon nt (JNum n) = JNum (nt n)"
| "json_canon nt (JArr xs) = JArr (map (json_canon nt) xs)"
| "json_canon nt (JObj m) = JObj (js_entries (map (\<lambda>(k, v). (k, json_canon nt v)) m))"
| "json_canon nt v = v"

definition new_line :: "jsstr \<Rightarrow> jsstr \<Rightarrow> jsstr" where
  "new_line gap indent = (if gap = [] then [] else 10 # indent)"

fun json_print :: "jsstr \<Rightarrow> jsstr \<Rightarrow> json \<Rightarrow> jsstr" where
  "json_print gap indent JNull = js ''null''"
| "json_print gap indent (JBool b) = (if b then js ''true'' else js ''false'')"
| "json_print gap indent (JNum n) = n"
| "json_print gap indent (JStr s) = json_quote s"
| "json_print gap indent (JArr xs) =
     (if xs = [] then js ''[]''
      else [91] @ new_line gap (indent @ gap) @
        join ([44] @ new_line gap (indent @ gap)) (map (json_print gap (indent @ gap)) xs) @ new_line gap indent @ [93])"
| "json_print gap indent (JObj m) =
     (if m = [] then js ''{}''
      else [123] @ new_line gap (indent @ gap) @
        join ([44] @ new_line gap (indent @ gap))
          (map (\<lambda>(k, v). json_quote k @ [58] @ (if gap = [] then [] else [32]) @ json_print gap (indent @ gap) v) m) @
        new_line gap indent @ [125])"

definition json_stringify :: "(jsstr \<Rightarrow> jsstr) \<Rightarrow> json \<Rightarrow> jsstr" where
  "json_stringify nt v = json_print [] [] (json_canon nt v)"

definition json_pretty :: "(jsstr \<Rightarrow> jsstr) \<Rightarrow> json \<Rightarrow> jsstr" where
  "json_pretty nt v = json_print [32, 32] [] (json_canon nt v)"

section \<open>The tokens of a value\<close>

fun json_tokens :: "json \<Rightarrow> token list" where
  "json_tokens JNull = [TNull]"
| "json_tokens (JBool b) = [if b then TTrue else TFalse]"
| "json_tokens (JNum n) = [TNum n]"
| "json_tokens (JStr s) = [TStr s]"
| "json_tokens (JArr xs) = TLBrack # join [TComma] (map json_tokens xs) @ [TRBrack]"
| "json_tokens (JObj m) = TLBrace # join [TComma] (map (\<lambda>(k, v). TStr k # TColon # json_tokens v) m) @ [TRBrace]"

text \<open>Values that can be written: every number is a literal, no key is repeated.\<close>

fun printable :: "json \<Rightarrow> bool" where
  "printable (JNum n) = json_number n"
| "printable (JArr xs) = list_all printable xs"
| "printable (JObj m) = (distinct (map fst m) \<and> list_all (\<lambda>(k, v). printable v) m)"
| "printable v = True"

lemma tokens_start: "\<exists>t ts. json_tokens v = t # ts \<and> t \<noteq> TRBrack"
  by (cases v) auto

lemma parse_first: "t \<noteq> TRBrack \<Longrightarrow> parse_tokens (t # ts) st PFirst = parse_tokens (t # ts) st PValue"
  by simp

lemma update_snoc: "k \<notin> set (map fst m) \<Longrightarrow> AList.update k v m = m @ [(k, v)]"
  by (induction m) auto

text \<open>The elements of an array and the members of an object, from the state in which the first is expected.\<close>

lemma parse_elements:
  assumes "xs \<noteq> []" "\<And>x ts st. x \<in> set xs \<Longrightarrow> parse_tokens (json_tokens x @ ts) st PValue = parse_tokens ts st (PDone x)"
  shows "parse_tokens (join [TComma] (map json_tokens xs) @ TRBrack # ts) (FArr acc # st) PValue =
    parse_tokens ts st (PDone (JArr (acc @ xs)))"
  using assms
proof (induction xs arbitrary: acc)
  case (Cons x xs)
  note x = Cons.prems(2) [of x, OF list.set_intros(1)]
  show ?case
  proof (cases "xs = []")
    case True
    then show ?thesis by (simp add: x)
  next
    case False
    have "parse_tokens (join [TComma] (map json_tokens xs) @ TRBrack # ts) (FArr (acc @ [x]) # st) PValue =
        parse_tokens ts st (PDone (JArr ((acc @ [x]) @ xs)))"
      using Cons.IH [OF False] Cons.prems(2) by simp
    with False show ?thesis by (simp add: join_Cons x)
  qed
qed simp

lemma parse_members:
  assumes "m \<noteq> []" "\<And>k v ts st. (k, v) \<in> set m \<Longrightarrow> parse_tokens (json_tokens v @ ts) st PValue = parse_tokens ts st (PDone v)"
    and "distinct (map fst (acc @ m))"
  shows "parse_tokens (join [TComma] (map (\<lambda>(k, v). TStr k # TColon # json_tokens v) m) @ TRBrace # ts) st (PKey acc) =
    parse_tokens ts st (PDone (JObj (acc @ m)))"
  using assms
proof (induction m arbitrary: acc)
  case (Cons e m)
  obtain k v where e: "e = (k, v)" by force
  note v = Cons.prems(2) [of k v]
  have u: "AList.update k v acc = acc @ [(k, v)]" using Cons.prems(3) e by (simp add: update_snoc)
  show ?case
  proof (cases "m = []")
    case True
    then show ?thesis using v by (simp add: e u)
  next
    case False
    have "parse_tokens (join [TComma] (map (\<lambda>(k, v). TStr k # TColon # json_tokens v) m) @ TRBrace # ts) st (PKey (acc @ [e])) =
        parse_tokens ts st (PDone (JObj ((acc @ [e]) @ m)))"
    proof (rule Cons.IH [OF False])
      show "parse_tokens (json_tokens v @ ts) st PValue = parse_tokens ts st (PDone v)" if "(k, v) \<in> set m" for k v ts st
        by (rule Cons.prems(2) [of k]) (simp add: that)
      show "distinct (map fst ((acc @ [e]) @ m))" using Cons.prems(3) by simp
    qed
    with False v show ?thesis by (simp add: join_Cons e u)
  qed
qed simp

lemma parse_key_first: "parse_tokens (TStr k # ts) st PKeyFirst = parse_tokens (TStr k # ts) st (PKey [])"
  by simp

lemma parse_json_tokens: "printable v \<Longrightarrow> parse_tokens (json_tokens v @ ts) st PValue = parse_tokens ts st (PDone v)"
proof (induction v arbitrary: ts st)
  case (JArr xs)
  show ?case
  proof (cases "xs = []")
    case False
    have el: "parse_tokens (json_tokens x @ ts) st PValue = parse_tokens ts st (PDone x)" if "x \<in> set xs" for x ts st
      using JArr that by (auto simp: list_all_iff)
    obtain y ys where xs: "xs = y # ys" using False by (cases xs) auto
    obtain t us where t: "json_tokens y = t # us" "t \<noteq> TRBrack" using tokens_start by blast
    have "\<exists>ws. join [TComma] (map json_tokens xs) = t # ws" using t(1) xs by (cases ys) simp_all
    then obtain ws where ws: "join [TComma] (map json_tokens xs) = t # ws" by blast
    show ?thesis
      using parse_elements [OF False el, of ts "[]" st] t(2) by (simp add: ws)
  qed simp
next
  case (JObj m)
  show ?case
  proof (cases "m = []")
    case False
    have el: "parse_tokens (json_tokens v @ ts) st PValue = parse_tokens ts st (PDone v)" if "(k, v) \<in> set m" for k v ts st
      using JObj that by (force simp: list_all_iff)
    obtain k v ms where m: "m = (k, v) # ms" using False by (cases m) auto
    have "\<exists>ws. join [TComma] (map (\<lambda>(k, v). TStr k # TColon # json_tokens v) m) = TStr k # ws" by (cases ms) (simp_all add: m)
    then obtain ws where ws: "join [TComma] (map (\<lambda>(k, v). TStr k # TColon # json_tokens v) m) = TStr k # ws" by blast
    show ?thesis
      using parse_members [where m = m and acc = "[]" and ts = ts and st = st, OF False el] JObj.prems by (simp add: ws)
  qed simp
qed simp_all

section \<open>The tokens of a text\<close>

lemma tokenize_ws: "list_all json_ws w \<Longrightarrow> tokenize (w @ s) = tokenize s"
  by (induction w) simp_all

lemma new_line_ws: "list_all json_ws gap \<Longrightarrow> list_all json_ws indent \<Longrightarrow> list_all json_ws (new_line gap indent)"
  by (simp add: new_line_def json_ws_def)

definition then_tokens :: "token list \<Rightarrow> jsstr \<Rightarrow> token list option" where
  "then_tokens ts r = map_option ((@) ts) (tokenize r)"

lemma tokenize_lexed:
  "\<not> json_ws c \<Longrightarrow> lex_token c s = Some (t, r) \<Longrightarrow> tokenize (c # s) = then_tokens [t] r"
  by (simp add: then_tokens_def split: option.splits)

lemma then_tokens_append: "tokenize r = then_tokens us q \<Longrightarrow> then_tokens ts r = then_tokens (ts @ us) q"
  by (cases "tokenize q") (simp_all add: then_tokens_def)

lemma tokenize_punctuation:
  "tokenize (91 # r) = then_tokens [TLBrack] r" "tokenize (93 # r) = then_tokens [TRBrack] r"
  "tokenize (123 # r) = then_tokens [TLBrace] r" "tokenize (125 # r) = then_tokens [TRBrace] r"
  "tokenize (58 # r) = then_tokens [TColon] r" "tokenize (44 # r) = then_tokens [TComma] r"
  by (rule tokenize_lexed; simp add: json_ws_def lex_token_def punctuation_def)+

lemma tokenize_quote: "tokenize (json_quote s @ r) = then_tokens [TStr s] r"
proof -
  have "lex_token 34 (quote_units s @ 34 # r) = Some (TStr s, r)"
    using lex_quote_units [of "[]" s r] by (simp add: lex_token_def punctuation_def)
  then show ?thesis by (simp add: json_quote_def tokenize_lexed json_ws_def del: tokenize.simps)
qed

lemma tokenize_words:
  "tokenize (js ''null'' @ r) = then_tokens [TNull] r" "tokenize (js ''true'' @ r) = then_tokens [TTrue] r"
  "tokenize (js ''false'' @ r) = then_tokens [TFalse] r"
  by (simp_all add: js_simps del: tokenize.simps)
    (rule tokenize_lexed; simp add: json_ws_def lex_token_def punctuation_def num_char_def is_digit_def lex_word_def js_simps)+

lemma digits_num_chars: "list_all num_char (takeWhile is_digit s)" "all_digits s \<Longrightarrow> list_all num_char s"
  by (auto simp: list_all_iff num_char_def all_digits_def dest: set_takeWhileD)

lemma json_number_chars: "json_number n \<Longrightarrow> n \<noteq> [] \<and> list_all num_char n"
proof -
  assume n: "json_number n"
  define s1 where "s1 = (if n \<noteq> [] \<and> hd n = 45 then tl n else n)"
  define r1 where "r1 = dropWhile is_digit s1"
  define r2 where "r2 = (if r1 \<noteq> [] \<and> hd r1 = 46 then dropWhile is_digit (tl r1) else r1)"
  have ip: "takeWhile is_digit s1 \<noteq> []"
    and e: "case r2 of [] \<Rightarrow> True | c # e \<Rightarrow> (c = 69 \<or> c = 101) \<and> all_digits (if e \<noteq> [] \<and> (hd e = 43 \<or> hd e = 45) then tl e else e)"
    using n unfolding json_number_def Let_def s1_def [symmetric] r1_def [symmetric] r2_def [symmetric] by blast+
  have "list_all num_char r2"
  proof (cases r2)
    case (Cons c t)
    then have t: "all_digits (if t \<noteq> [] \<and> (hd t = 43 \<or> hd t = 45) then tl t else t)" "c = 69 \<or> c = 101" using e by simp_all
    from digits_num_chars(2) [OF t(1)] have "list_all num_char t" by (cases t) (auto simp: num_char_def split: if_splits)
    with Cons t(2) show ?thesis by (auto simp: num_char_def)
  qed simp
  then have "list_all num_char r1"
  proof (cases "r1 \<noteq> [] \<and> hd r1 = 46")
    case True
    then have "r1 = 46 # takeWhile is_digit (tl r1) @ r2" by (cases r1) (simp_all add: r2_def)
    moreover have "list_all num_char (46 # takeWhile is_digit (tl r1) @ r2)"
      using \<open>list_all num_char r2\<close> digits_num_chars(1) by (simp add: num_char_def)
    ultimately show ?thesis by simp
  next
    case False
    with \<open>list_all num_char r2\<close> show ?thesis by (simp add: r2_def split: if_splits)
  qed
  then have "list_all num_char (takeWhile is_digit s1 @ r1)" using digits_num_chars(1) by simp
  then have "list_all num_char s1" by (simp add: r1_def)
  with ip show ?thesis by (cases n) (auto simp: s1_def num_char_def split: if_splits)
qed

lemma tokenize_number:
  assumes "json_number n" "r = [] \<or> \<not> num_char (hd r)"
  shows "tokenize (n @ r) = then_tokens [TNum n] r"
proof -
  obtain c s where n: "n = c # s" "num_char c" "list_all num_char s"
    using json_number_chars [OF assms(1)] by (cases n) auto
  have t: "takeWhile num_char (n @ r) = n" "dropWhile num_char (n @ r) = r"
    using n assms(2) by (cases r; auto simp: list_all_iff)+
  have "punctuation c = None" "c \<noteq> 34" "\<not> json_ws c"
    using n(2) by (auto simp: num_char_def punctuation_def is_digit_def json_ws_def)
  moreover from this have "lex_token c (s @ r) = Some (TNum n, r)"
    using t n assms(1) by (simp add: lex_token_def Let_def)
  ultimately show ?thesis by (simp add: n(1) tokenize_lexed del: tokenize.simps)
qed

definition ends_number :: "jsstr \<Rightarrow> bool" where
  "ends_number r \<longleftrightarrow> r = [] \<or> \<not> num_char (hd r)"

lemma ends_number_ws: "list_all json_ws w \<Longrightarrow> ends_number r \<Longrightarrow> ends_number (w @ r)"
  by (cases w) (auto simp: ends_number_def json_ws_def num_char_def is_digit_def)

lemma ends_number_punctuation: "ends_number (44 # r)" "ends_number (93 # r)" "ends_number (125 # r)"
  by (simp_all add: ends_number_def num_char_def is_digit_def)

lemma tokenize_join:
  assumes "xs \<noteq> []" "\<And>x r. x \<in> set xs \<Longrightarrow> ends_number r \<Longrightarrow> tokenize (f x @ r) = then_tokens (g x) r"
    and "list_all json_ws w" "ends_number r"
  shows "tokenize (join (44 # w) (map f xs) @ r) = then_tokens (join [TComma] (map g xs)) r"
  using assms(1,2)
proof (induction xs)
  case (Cons x xs)
  show ?case
  proof (cases "xs = []")
    case True
    with Cons.prems(2) [of x] assms(4) show ?thesis by simp
  next
    case False
    have "tokenize (join (44 # w) (map f xs) @ r) = then_tokens (join [TComma] (map g xs)) r"
      using Cons.IH [OF False] Cons.prems(2) by simp
    then have "tokenize (44 # w @ join (44 # w) (map f xs) @ r) = then_tokens (TComma # join [TComma] (map g xs)) r"
      using then_tokens_append [of "w @ join (44 # w) (map f xs) @ r" _ r "[TComma]"]
      by (simp add: tokenize_punctuation tokenize_ws [OF assms(3)] del: tokenize.simps)
    then show ?thesis
      using False Cons.prems(2) [of x "44 # w @ join (44 # w) (map f xs) @ r"]
        then_tokens_append [of "44 # w @ join (44 # w) (map f xs) @ r" "TComma # join [TComma] (map g xs)" r "g x"]
      by (simp add: join_Cons ends_number_punctuation del: tokenize.simps)
  qed
qed simp

lemma tokenize_print:
  assumes "list_all json_ws gap"
  shows "printable v \<Longrightarrow> list_all json_ws indent \<Longrightarrow> ends_number r \<Longrightarrow>
    tokenize (json_print gap indent v @ r) = then_tokens (json_tokens v) r"
proof (induction v arbitrary: indent r)
  case (JArr xs)
  let ?nl = "new_line gap (indent @ gap)" and ?stop = "new_line gap indent @ [93] @ r"
  have ws: "list_all json_ws ?nl" "list_all json_ws (new_line gap indent)" "list_all json_ws (indent @ gap)"
    using assms JArr.prems by (simp_all add: new_line_ws)
  have e: "tokenize ?stop = then_tokens [TRBrack] r" using ws(2) by (simp add: tokenize_ws tokenize_punctuation del: tokenize.simps)
  show ?case
  proof (cases "xs = []")
    case True
    then show ?thesis
      using then_tokens_append [of "93 # r" "[TRBrack]" r "[TLBrack]"] by (simp add: tokenize_punctuation js_simps del: tokenize.simps)
  next
    case False
    have "ends_number ?stop" by (rule ends_number_ws [OF ws(2)]) (simp add: ends_number_punctuation)
    then have "tokenize (join (44 # ?nl) (map (json_print gap (indent @ gap)) xs) @ ?stop) =
        then_tokens (join [TComma] (map json_tokens xs)) ?stop"
      using False ws JArr by (intro tokenize_join) (auto simp: list_all_iff)
    also have "\<dots> = then_tokens (join [TComma] (map json_tokens xs) @ [TRBrack]) r" by (rule then_tokens_append [OF e])
    finally show ?thesis
      using False then_tokens_append [of "?nl @ join (44 # ?nl) (map (json_print gap (indent @ gap)) xs) @ ?stop" _ r "[TLBrack]"]
      by (simp add: tokenize_punctuation tokenize_ws [OF ws(1)] del: tokenize.simps)
  qed
next
  case (JObj m)
  let ?nl = "new_line gap (indent @ gap)" and ?stop = "new_line gap indent @ [125] @ r"
  let ?f = "\<lambda>(k, v). json_quote k @ [58] @ (if gap = [] then [] else [32]) @ json_print gap (indent @ gap) v"
  let ?g = "\<lambda>(k, v). TStr k # TColon # json_tokens v"
  have ws: "list_all json_ws ?nl" "list_all json_ws (new_line gap indent)" "list_all json_ws (indent @ gap)"
    using assms JObj.prems by (simp_all add: new_line_ws)
  have e: "tokenize ?stop = then_tokens [TRBrace] r" using ws(2) by (simp add: tokenize_ws tokenize_punctuation del: tokenize.simps)
  have member: "tokenize (?f x @ q) = then_tokens (?g x) q" if "x \<in> set m" "ends_number q" for x q
  proof -
    obtain k v where x: "x = (k, v)" by force
    have "tokenize (json_print gap (indent @ gap) v @ q) = then_tokens (json_tokens v) q"
      using JObj ws(3) that x by (intro JObj.IH [of x v]) (auto simp: list_all_iff)
    moreover have "tokenize ((if gap = [] then [] else [32]) @ s) = tokenize s" for s by (simp add: json_ws_def)
    ultimately have "tokenize (58 # (if gap = [] then [] else [32]) @ json_print gap (indent @ gap) v @ q) = then_tokens (TColon # json_tokens v) q"
      using then_tokens_append [of "(if gap = [] then [] else [32]) @ json_print gap (indent @ gap) v @ q" "json_tokens v" q "[TColon]"]
      by (simp add: tokenize_punctuation del: tokenize.simps)
    from then_tokens_append [OF this, of "[TStr k]"] show ?thesis by (simp add: x tokenize_quote del: tokenize.simps)
  qed
  show ?case
  proof (cases "m = []")
    case True
    then show ?thesis
      using then_tokens_append [of "125 # r" "[TRBrace]" r "[TLBrace]"] by (simp add: tokenize_punctuation js_simps del: tokenize.simps)
  next
    case False
    have "ends_number ?stop" by (rule ends_number_ws [OF ws(2)]) (simp add: ends_number_punctuation)
    then have "tokenize (join (44 # ?nl) (map ?f m) @ ?stop) = then_tokens (join [TComma] (map ?g m)) ?stop"
      using False ws member by (intro tokenize_join)
    also have "\<dots> = then_tokens (join [TComma] (map ?g m) @ [TRBrace]) r" by (rule then_tokens_append [OF e])
    finally show ?thesis
      using False then_tokens_append [of "?nl @ join (44 # ?nl) (map ?f m) @ ?stop" _ r "[TLBrace]"]
      by (simp add: tokenize_punctuation tokenize_ws [OF ws(1)] del: tokenize.simps)
  qed
qed (auto simp: tokenize_words tokenize_quote tokenize_number ends_number_def simp del: tokenize.simps)

theorem json_parse_print:
  assumes "printable v" "list_all json_ws gap" "list_all json_ws indent"
  shows "json_parse (json_print gap indent v) = Some v"
proof -
  have "tokenize (json_print gap indent v) = then_tokens (json_tokens v) []"
    using tokenize_print [OF assms(2,1,3), of "[]"] by (simp add: ends_number_def)
  then show ?thesis using parse_json_tokens [OF assms(1), of "[]" "[]"] by (simp add: json_parse_def then_tokens_def)
qed

section \<open>Parsed values\<close>

text \<open>Numbers are written as literals.\<close>

definition writes_numbers :: "(jsstr \<Rightarrow> jsstr) \<Rightarrow> bool" where
  "writes_numbers nt \<longleftrightarrow> (\<forall>n. json_number n \<longrightarrow> json_number (nt n))"

lemma distinct_js_entries: "distinct (map fst m) \<Longrightarrow> distinct (map fst (js_entries m))"
  by (metis mset_js_entries mset_eq_imp_distinct_iff mset_map)

lemma canon_printable: "writes_numbers nt \<Longrightarrow> printable v \<Longrightarrow> printable (json_canon nt v)"
proof (induction v)
  case (JObj m)
  have "map fst (map (\<lambda>(k, v). (k, json_canon nt v)) m) = map fst m" by (induction m) auto
  then have "distinct (map fst (js_entries (map (\<lambda>(k, v). (k, json_canon nt v)) m)))"
    using JObj.prems by (intro distinct_js_entries) (simp del: map_map)
  moreover have "printable (json_canon nt v)" if "(k, v) \<in> set m" for k v
    using JObj that by (force simp: list_all_iff)
  ultimately show ?case by (auto simp: list_all_iff)
qed (auto simp: writes_numbers_def list_all_iff)

lemma json_parse_stringify:
  assumes "printable (json_canon nt v)"
  shows "json_parse (json_stringify nt v) = Some (json_canon nt v)" "json_parse (json_pretty nt v) = Some (json_canon nt v)"
  using json_parse_print [OF assms] by (simp_all add: json_stringify_def json_pretty_def json_ws_def)

interpretation json_texts: text_format "json_pretty nt" json_parse "\<lambda>v. printable (json_canon nt v)" "\<lambda>v. Some (json_canon nt v)" for nt
  by unfold_locales (rule json_parse_stringify)

text \<open>What the parser gives can be printed.\<close>

fun printable_frame :: "frame \<Rightarrow> bool" where
  "printable_frame (FArr xs) = list_all printable xs"
| "printable_frame (FObj m k) = printable (JObj m)"

fun printable_mode :: "parse_mode \<Rightarrow> bool" where
  "printable_mode (PKey m) = printable (JObj m)"
| "printable_mode (PColon m k) = printable (JObj m)"
| "printable_mode (PDone v) = printable v"
| "printable_mode _ = True"

definition number_token :: "token \<Rightarrow> bool" where
  "number_token t = (case t of TNum n \<Rightarrow> json_number n | _ \<Rightarrow> True)"

lemma set_update: "e \<in> set (AList.update k v m) \<Longrightarrow> e = (k, v) \<or> e \<in> set m"
  by (induction m) (auto split: if_splits)

lemma printable_update: "printable (JObj m) \<Longrightarrow> printable v \<Longrightarrow> printable (JObj (AList.update k v m))"
  by (auto simp: list_all_iff distinct_update dest!: set_update)

lemma parse_value_printable:
  "number_token t \<Longrightarrow> list_all printable_frame st \<Longrightarrow> parse_value t st = Some (st', md') \<Longrightarrow>
   list_all printable_frame st' \<and> printable_mode md'"
  by (cases t) (auto simp: number_token_def)

lemma parse_step_printable:
  assumes "number_token t" "list_all printable_frame st" "printable_mode md" "parse_step t st md = Some (st', md')"
  shows "list_all printable_frame st' \<and> printable_mode md'"
proof (cases md)
  case (PDone v)
  then show ?thesis
    using assms printable_update [of _ v]
    by (cases st rule: list.exhaust; cases "hd st") (auto split: if_splits simp del: printable.simps(3))
next
  case PFirst
  then show ?thesis using assms parse_value_printable [OF assms(1,2)] by (cases st) (auto split: if_splits)
qed (use assms parse_value_printable [OF assms(1,2)] in \<open>auto split: token.splits if_splits\<close>)

lemma parse_tokens_printable:
  "list_all number_token ts \<Longrightarrow> list_all printable_frame st \<Longrightarrow> printable_mode md \<Longrightarrow> parse_tokens ts st md = Some v \<Longrightarrow> printable v"
proof (induction ts arbitrary: st md)
  case Nil
  then show ?case by (auto split: list.splits parse_mode.splits)
next
  case (Cons t ts)
  obtain st' md' where p: "parse_step t st md = Some (st', md')" "parse_tokens ts st' md' = Some v"
    using Cons.prems(4) by (auto split: option.splits)
  from parse_step_printable [OF _ Cons.prems(2,3) p(1)] Cons.prems(1) have "list_all printable_frame st' \<and> printable_mode md'" by simp
  with Cons.IH [OF _ _ _ p(2)] Cons.prems(1) show ?case by simp
qed

lemma lex_token_number: "lex_token c r = Some (t, r') \<Longrightarrow> number_token t"
  by (auto simp: lex_token_def number_token_def punctuation_def lex_word_def Let_def split: option.splits if_splits)

lemma tokenize_numbers: "tokenize s = Some ts \<Longrightarrow> list_all number_token ts"
proof (induction s arbitrary: ts rule: tokenize.induct)
  case (2 c r)
  show ?case
  proof (cases "json_ws c")
    case False
    then obtain t r1 ts1 where t: "lex_token c r = Some (t, r1)" "tokenize r1 = Some ts1" "ts = t # ts1"
      using "2.prems" by (auto split: option.splits)
    with "2.IH"(2) [OF False t(1) refl] lex_token_number [OF t(1)] show ?thesis by simp
  qed (use 2 in simp)
qed simp

lemma json_parse_printable: "json_parse s = Some v \<Longrightarrow> printable v"
  using parse_tokens_printable [of _ "[]" PValue v] tokenize_numbers by (auto simp: json_parse_def split: option.splits)

end
