(* ===== verification/Channel_Form.thy ===== *)
theory Channel_Form
  imports Advanced_Custom JS_Stringify
begin

text \<open>
  The channel form (\<open>features/channels/lib/channel-form.ts\<close>): the checks of its fields, the
  form values of a stored channel, and the payloads that create and update a channel. Two
  columns of a channel are JSON texts, \<open>setting\<close> and \<open>settings\<close>; the form takes them apart
  into fields and writes them back. A field that is read from such a text with \<open>x || d\<close> keeps
  whatever the text has, so it is a \<open>json\<close>. A field that is \<open>undefined\<close> has its falsy default
  where the code does not tell the two apart, and otherwise the value that the defaults and the
  loading of a channel always give it. \<open>None\<close> as the result of a function that builds a
  text means that it throws.
\<close>

section \<open>Objects\<close>

definition put :: "string \<Rightarrow> json \<Rightarrow> (jsstr \<times> json) list \<Rightarrow> (jsstr \<times> json) list" where
  "put k v m = AList.update (js k) v m"

definition del :: "string \<Rightarrow> (jsstr \<times> json) list \<Rightarrow> (jsstr \<times> json) list" where
  "del k m = AList.delete (js k) m"

definition put_if :: "bool \<Rightarrow> string \<Rightarrow> json \<Rightarrow> (jsstr \<times> json) list \<Rightarrow> (jsstr \<times> json) list" where
  "put_if b k v m = (if b then put k v m else del k m)"

definition put_unless :: "bool \<Rightarrow> string \<Rightarrow> json \<Rightarrow> (jsstr \<times> json) list \<Rightarrow> (jsstr \<times> json) list" where
  "put_unless b k v m = (if b then m else put k v m)"

definition is_array :: "json option \<Rightarrow> bool" where
  "is_array v = (case v of Some (JArr _) \<Rightarrow> True | _ \<Rightarrow> False)"

definition is_number :: "json option \<Rightarrow> bool" where
  "is_number v = (case v of Some (JNum _) \<Rightarrow> True | _ \<Rightarrow> False)"

definition get :: "string \<Rightarrow> (jsstr \<times> json) list \<Rightarrow> json option" where
  "get k m = map_of m (js k)"

text \<open>\<open>v || d\<close>.\<close>

definition or_value :: "json option \<Rightarrow> json \<Rightarrow> json" where
  "or_value v d = (if is_truthy v then the v else d)"

definition jnum :: "int \<Rightarrow> json" where
  "jnum i = JNum (show_int i)"

section \<open>Checks of fields\<close>

text \<open>\<open>Inl ()\<close>: the text is not JSON and the parser throws.\<close>

definition parseOptionalJson :: "jsstr \<Rightarrow> unit + json option" where
  "parseOptionalJson s =
     (if trim s = [] then Inr None else case json_parse s of Some v \<Rightarrow> Inr (Some v) | None \<Rightarrow> Inl ())"

definition isJsonObjectValue :: "json \<Rightarrow> bool" where
  "isJsonObjectValue v = (case v of JObj _ \<Rightarrow> True | _ \<Rightarrow> False)"

definition isOptionalJsonObject :: "jsstr \<Rightarrow> bool" where
  "isOptionalJsonObject s =
     (case parseOptionalJson s of Inl _ \<Rightarrow> False | Inr None \<Rightarrow> True | Inr (Some v) \<Rightarrow> isJsonObjectValue v)"

definition isOptionalModelMapping :: "jsstr \<Rightarrow> bool" where
  "isOptionalModelMapping s =
     (case parseOptionalJson s of
        Inl _ \<Rightarrow> False
      | Inr None \<Rightarrow> True
      | Inr (Some (JObj m)) \<Rightarrow> list_all (\<lambda>(k, v). case v of JStr _ \<Rightarrow> True | _ \<Rightarrow> False) m
      | Inr (Some _) \<Rightarrow> False)"

definition is_status :: "jsnum \<Rightarrow> bool" where
  "is_status x = (case x of Fin q \<Rightarrow> of_int \<lfloor>q\<rfloor> = q \<and> 100 \<le> q \<and> q \<le> 599 | _ \<Rightarrow> False)"

definition isOptionalStatusCodeMapping :: "(jsstr \<Rightarrow> jsstr) \<Rightarrow> jsstr \<Rightarrow> bool" where
  "isOptionalStatusCodeMapping nt s =
     (case parseOptionalJson s of
        Inl _ \<Rightarrow> False
      | Inr None \<Rightarrow> True
      | Inr (Some (JObj m)) \<Rightarrow> list_all (\<lambda>(k, v). is_status (number_of_string k) \<and> is_status (js_Number nt (Some v))) m
      | Inr (Some _) \<Rightarrow> False)"

definition is_nonblank_text :: "json option \<Rightarrow> bool" where
  "is_nonblank_text v = (case v of Some (JStr s) \<Rightarrow> trim s \<noteq> [] | _ \<Rightarrow> False)"

definition isCodexCredential :: "jsstr \<Rightarrow> bool" where
  "isCodexCredential s =
     (case parseOptionalJson s of
        Inl _ \<Rightarrow> False
      | Inr None \<Rightarrow> True
      | Inr (Some v) \<Rightarrow> isJsonObjectValue v \<and> is_nonblank_text (get_prop v ''access_token'') \<and> is_nonblank_text (get_prop v ''account_id''))"

definition isVertexJsonKey :: "jsstr \<Rightarrow> bool" where
  "isVertexJsonKey s =
     (case parseOptionalJson s of
        Inl _ \<Rightarrow> False
      | Inr None \<Rightarrow> True
      | Inr (Some (JArr xs)) \<Rightarrow> list_all isJsonObjectValue xs
      | Inr (Some v) \<Rightarrow> isJsonObjectValue v)"

section \<open>Form values\<close>

definition SYNTHETIC_CLIENT_HEADER_PROFILES :: "jsstr list" where
  "SYNTHETIC_CLIENT_HEADER_PROFILES = map js [''off'', ''claude'', ''openai'', ''codex'', ''gemini'', ''generic'']"

text \<open>The fields kept in the column \<open>setting\<close>.\<close>

record ExtraSettings =
  xs_force_format :: json
  xs_thinking_to_content :: json
  xs_proxy :: json
  xs_pass_through_body_enabled :: json
  xs_responses_reasoning_fallback :: json
  xs_websocket_transport :: json
  xs_synthetic_client_headers :: json
  xs_profile :: jsstr
  xs_cli_version_profile :: jsstr
  xs_tls_fingerprint_enabled :: bool
  xs_tls_fingerprint :: jsstr
  xs_custom_client_identity_enabled :: bool
  xs_client_device_seed :: jsstr
  xs_client_session_seed :: jsstr
  xs_system_prompt :: json
  xs_system_prompt_override :: json

text \<open>The fields kept in the column \<open>settings\<close>.\<close>

record TypeSettings =
  ts_vertex_key_type :: json
  ts_azure_responses_version :: json
  ts_is_enterprise_account :: bool
  ts_aws_key_type :: json
  ts_allow_service_tier :: bool
  ts_disable_store :: bool
  ts_allow_safety_identifier :: bool
  ts_allow_include_obfuscation :: bool
  ts_allow_inference_geo :: bool
  ts_allow_speed :: bool
  ts_claude_beta_query :: bool
  ts_disable_task_polling_sleep :: bool
  ts_update_check_enabled :: bool
  ts_update_auto_sync_enabled :: bool
  ts_update_ignored_models :: jsstr
  ts_keepalive_enabled :: bool
  ts_keepalive_interval :: json
  ts_keepalive_window :: json
  ts_advanced_custom :: jsstr

datatype MultiKeyMode = Single | Batch | MultiToSingle

record ChannelForm =
  cf_name :: jsstr
  cf_type :: int
  cf_base_url :: jsstr
  cf_key :: jsstr
  cf_openai_organization :: jsstr
  cf_models :: jsstr
  cf_group :: "jsstr list"
  cf_model_mapping :: jsstr
  cf_priority :: "int option"
  cf_max_concurrency :: "int option"
  cf_weight :: "int option"
  cf_test_model :: jsstr
  cf_auto_ban :: "int option"
  cf_status :: int
  cf_status_code_mapping :: jsstr
  cf_tag :: jsstr
  cf_remark :: jsstr
  cf_setting :: jsstr
  cf_param_override :: jsstr
  cf_header_override :: jsstr
  cf_settings :: jsstr
  cf_other :: jsstr
  cf_multi_key_mode :: MultiKeyMode
  cf_multi_key_type :: jsstr
  cf_batch_prefix :: bool
  cf_key_append :: bool
  cf_extra :: ExtraSettings
  cf_typed :: TypeSettings

definition defaultExtraSettings :: ExtraSettings where
  "defaultExtraSettings = \<lparr>xs_force_format = JBool False, xs_thinking_to_content = JBool False, xs_proxy = JStr [],
     xs_pass_through_body_enabled = JBool False, xs_responses_reasoning_fallback = JBool False, xs_websocket_transport = JBool False,
     xs_synthetic_client_headers = JBool False, xs_profile = js ''off'', xs_cli_version_profile = [], xs_tls_fingerprint_enabled = False,
     xs_tls_fingerprint = [], xs_custom_client_identity_enabled = False, xs_client_device_seed = [], xs_client_session_seed = [],
     xs_system_prompt = JStr [], xs_system_prompt_override = JBool False\<rparr>"

definition UPSTREAM_KEEPALIVE_DEFAULT_INTERVAL_MINUTES :: json where
  "UPSTREAM_KEEPALIVE_DEFAULT_INTERVAL_MINUTES = JNum (js ''30'')"

definition UPSTREAM_KEEPALIVE_DEFAULT_ACTIVE_WINDOW_MINUTES :: json where
  "UPSTREAM_KEEPALIVE_DEFAULT_ACTIVE_WINDOW_MINUTES = JNum (js ''120'')"

definition defaultTypeSettings :: TypeSettings where
  "defaultTypeSettings = \<lparr>ts_vertex_key_type = JStr (js ''json''), ts_azure_responses_version = JStr [], ts_is_enterprise_account = False,
     ts_aws_key_type = JStr (js ''ak_sk''), ts_allow_service_tier = False, ts_disable_store = False, ts_allow_safety_identifier = False,
     ts_allow_include_obfuscation = False, ts_allow_inference_geo = False, ts_allow_speed = False, ts_claude_beta_query = False,
     ts_disable_task_polling_sleep = False, ts_update_check_enabled = False, ts_update_auto_sync_enabled = False,
     ts_update_ignored_models = [], ts_keepalive_enabled = False, ts_keepalive_interval = UPSTREAM_KEEPALIVE_DEFAULT_INTERVAL_MINUTES,
     ts_keepalive_window = UPSTREAM_KEEPALIVE_DEFAULT_ACTIVE_WINDOW_MINUTES, ts_advanced_custom = []\<rparr>"

definition CHANNEL_FORM_DEFAULT_VALUES :: ChannelForm where
  "CHANNEL_FORM_DEFAULT_VALUES = \<lparr>cf_name = [], cf_type = 1, cf_base_url = [], cf_key = [], cf_openai_organization = [], cf_models = [],
     cf_group = [js ''default''], cf_model_mapping = [], cf_priority = Some 0, cf_max_concurrency = Some 0, cf_weight = Some 0,
     cf_test_model = [], cf_auto_ban = Some 1, cf_status = 1, cf_status_code_mapping = [], cf_tag = [], cf_remark = [], cf_setting = [],
     cf_param_override = [], cf_header_override = [], cf_settings = js ''{}'', cf_other = [], cf_multi_key_mode = Single,
     cf_multi_key_type = js ''random'', cf_batch_prefix = False, cf_key_append = True, cf_extra = defaultExtraSettings,
     cf_typed = defaultTypeSettings\<rparr>"

section \<open>Issues of the form\<close>

definition requiresBaseUrl :: "int \<Rightarrow> bool" where
  "requiresBaseUrl t \<longleftrightarrow> t \<in> {3, 8, 36, 45}"

definition requiresOther :: "int \<Rightarrow> bool" where
  "requiresOther t \<longleftrightarrow> t \<in> {3, 18, 21, 39, 41, 49}"

definition CHANNEL_TYPE_ADVANCED_CUSTOM :: int where
  "CHANNEL_TYPE_ADVANCED_CUSTOM = 58"

definition issue_if :: "bool \<Rightarrow> string \<Rightarrow> jsstr \<Rightarrow> (jsstr \<times> jsstr) list" where
  "issue_if b path message = (if b then [(js path, message)] else [])"

text \<open>
  The checks across fields. \<open>advanced\<close> is what \<open>parseAdvancedCustomConfig\<close> gives for the
  field of that name; \<open>url\<close> is the browser's parser of absolute URLs.
\<close>

definition superRefine :: "(jsstr \<Rightarrow> (jsstr \<times> jsstr) option) \<Rightarrow> AdvancedCustomConfig option \<Rightarrow> ChannelForm \<Rightarrow> (jsstr \<times> jsstr) list" where
  "superRefine url advanced f =
     (let x = cf_extra f; p = xs_profile x; blankUrl = (trim (cf_base_url f) = []) in
      issue_if (truthy (xs_websocket_transport x) \<and> (p = js ''claude'' \<or> p = js ''codex'') \<and>
          starts_with (trim (xs_cli_version_profile x)) (p @ js ''-''))
        ''cli_version_profile'' (js ''CLI version profiles require HTTPS HTTP/1.1; disable WebSocket transport'') @
      issue_if (requiresBaseUrl (cf_type f) \<and> blankUrl) ''base_url'' (js ''Base URL is required for this channel type'') @
      (if cf_type f = CHANNEL_TYPE_ADVANCED_CUSTOM
       then (case validateAdvancedCustomConfig url advanced of None \<Rightarrow> [] | Some e \<Rightarrow> [(js ''advanced_custom'', ve_message e)]) @
         issue_if (advancedCustomConfigUsesRelativeUpstreamPath advanced \<and> blankUrl) ''base_url''
           (js ''Base URL is required when an advanced route uses an upstream path'')
       else []) @
      issue_if (requiresOther (cf_type f) \<and> trim (cf_other f) = []) ''other'' (js ''This channel type requires additional configuration'') @
      (if cf_type f = 57
       then issue_if (cf_multi_key_mode f \<noteq> Single) ''multi_key_mode'' (js ''Codex channels do not support batch creation'') @
         issue_if (trim (cf_key f) \<noteq> [] \<and> \<not> isCodexCredential (cf_key f)) ''key''
           (js ''Codex credential must be a JSON object with access_token and account_id'')
       else []) @
      issue_if (cf_type f = 41 \<and> ts_vertex_key_type (cf_typed f) = JStr (js ''json'') \<and> trim (cf_key f) \<noteq> [] \<and>
          \<not> isVertexJsonKey (cf_key f)) ''key'' (js ''Vertex AI service account key must be valid JSON'') @
      issue_if (cf_type f = 41 \<and> ts_vertex_key_type (cf_typed f) = JStr (js ''api_key'') \<and> cf_multi_key_mode f \<noteq> Single)
        ''multi_key_mode'' (js ''Vertex AI API Key mode does not support batch creation''))"

text \<open>The JSON columns that the schema checks field by field.\<close>

definition columns_ok :: "(jsstr \<Rightarrow> jsstr) \<Rightarrow> ChannelForm \<Rightarrow> bool" where
  "columns_ok nt f \<longleftrightarrow> isOptionalModelMapping (cf_model_mapping f) \<and> isOptionalStatusCodeMapping nt (cf_status_code_mapping f) \<and> isOptionalJsonObject (cf_setting f) \<and>
     isOptionalJsonObject (cf_param_override f) \<and> isOptionalJsonObject (cf_header_override f) \<and> isOptionalJsonObject (cf_settings f)"

section \<open>Advanced routing as JSON\<close>

text \<open>\<open>normalizeAdvancedCustomRoute\<close> on parsed values; \<open>None\<close>: a call of \<open>trim\<close> on what is no string, or a null route.\<close>

definition upstreamPathJson :: "json \<Rightarrow> jsstr option" where
  "upstreamPathJson route =
     (if is_truthy (get_prop route ''upstream_path'')
      then (case get_prop route ''upstream_path'' of Some (JStr s) \<Rightarrow> Some (trim s) | _ \<Rightarrow> None)
      else Some [])"

definition routeModelsJson :: "json \<Rightarrow> jsstr list option" where
  "routeModelsJson route =
     (case get_prop route ''models'' of
        Some (JArr ms) \<Rightarrow>
          if list_all (\<lambda>m. case m of JStr _ \<Rightarrow> True | _ \<Rightarrow> False) ms
          then Some (filter (\<lambda>s. s \<noteq> []) (map (\<lambda>m. case m of JStr s \<Rightarrow> trim s | _ \<Rightarrow> []) ms)) else None
      | _ \<Rightarrow> Some [])"

definition routeAuthJson :: "json \<Rightarrow> (jsstr \<times> json) list" where
  "routeAuthJson auth =
     (case get_prop auth ''type'' of Some t \<Rightarrow> [(js ''type'', t)] | None \<Rightarrow> []) @
     [(js ''name'', or_value (get_prop auth ''name'') (JStr [])), (js ''value'', or_value (get_prop auth ''value'') (JStr []))]"

definition normalizeRouteJson :: "json \<Rightarrow> json option" where
  "normalizeRouteJson route =
     (if route = JNull then None
      else case (upstreamPathJson route, routeModelsJson route) of
        (Some upstream, Some models) \<Rightarrow>
          Some (JObj ([(js ''incoming_path'', or_value (get_prop route ''incoming_path'') (JStr [])), (js ''upstream_path'', JStr upstream),
            (js ''converter'', or_value (get_prop route ''converter'') (JStr (js ''none'')))] @
            (if models \<noteq> [] then [(js ''models'', JArr (map JStr models))] else []) @
            (if is_truthy (get_prop route ''auth'') then [(js ''auth'', JObj (routeAuthJson (the (get_prop route ''auth''))))] else [])))
      | _ \<Rightarrow> None)"

definition normalizeConfigJson :: "json \<Rightarrow> json option" where
  "normalizeConfigJson config =
     map_option (\<lambda>rs. JObj [(js ''advanced_routes'', JArr rs)])
       (case get_prop config ''advanced_routes'' of Some (JArr rs) \<Rightarrow> those (map normalizeRouteJson rs) | _ \<Rightarrow> Some [])"

definition parseAdvancedCustomConfig :: "jsstr \<Rightarrow> json option" where
  "parseAdvancedCustomConfig s =
     (if trim s = [] then None
      else case json_parse s of Some (JObj m) \<Rightarrow> normalizeConfigJson (JObj m) | _ \<Rightarrow> None)"

definition stringifyAdvancedCustomConfig :: "(jsstr \<Rightarrow> jsstr) \<Rightarrow> json \<Rightarrow> jsstr option" where
  "stringifyAdvancedCustomConfig nt config = map_option (json_pretty nt) (normalizeConfigJson config)"

section \<open>Loading a channel\<close>

record Channel =
  ch_name :: jsstr
  ch_type :: int
  ch_base_url :: "jsstr option"
  ch_openai_organization :: "jsstr option"
  ch_models :: jsstr
  ch_group :: jsstr
  ch_model_mapping :: "jsstr option"
  ch_priority :: "int option"
  ch_max_concurrency :: "int option"
  ch_weight :: "int option"
  ch_test_model :: "jsstr option"
  ch_auto_ban :: "int option"
  ch_status :: int
  ch_status_code_mapping :: "jsstr option"
  ch_tag :: "jsstr option"
  ch_remark :: jsstr
  ch_setting :: "jsstr option"
  ch_param_override :: "jsstr option"
  ch_header_override :: "jsstr option"
  ch_settings :: jsstr
  ch_other :: jsstr
  ch_multi_key_mode :: jsstr
  ch_is_multi_key :: bool

definition parseSyntheticClientHeaderProfile :: "json \<Rightarrow> int \<Rightarrow> jsstr" where
  "parseSyntheticClientHeaderProfile parsed channelType =
     (let former =
        (if channelType \<in> {14, 33, 41} then js ''claude''
         else if channelType = 57 then js ''codex''
         else if channelType = 24 then js ''gemini''
         else if channelType \<in> {4, 11, 15, 16, 17, 18, 20, 21, 23, 25, 26, 27, 34, 35, 37, 38, 39, 40, 42, 43, 44, 45, 46, 47, 48, 49, 51, 53, 56, 58}
         then js ''generic'' else js ''openai'') in
      case get_prop parsed ''synthetic_client_headers_profile'' of
        Some (JStr (c # cs)) \<Rightarrow> if c # cs \<in> set SYNTHETIC_CLIENT_HEADER_PROFILES then c # cs else former
      | _ \<Rightarrow> if \<not> is_truthy (get_prop parsed ''synthetic_client_headers'') then js ''off'' else former)"

definition text_of :: "json \<Rightarrow> string \<Rightarrow> jsstr" where
  "text_of v k = (case get_prop v k of Some (JStr s) \<Rightarrow> trim s | _ \<Rightarrow> [])"

definition loadExtraSettings :: "jsstr option \<Rightarrow> int \<Rightarrow> ExtraSettings" where
  "loadExtraSettings setting channelType =
     (case setting of
        None \<Rightarrow> defaultExtraSettings
      | Some s \<Rightarrow>
          if s = [] then defaultExtraSettings
          else case json_parse s of
            None \<Rightarrow> defaultExtraSettings
          | Some JNull \<Rightarrow> defaultExtraSettings
          | Some p \<Rightarrow>
              (let tls = text_of p ''tls_fingerprint''; device = text_of p ''client_device_seed''; session = text_of p ''client_session_seed'';
                   flag = (\<lambda>k. or_value (get_prop p k) (JBool False)) in
               \<lparr>xs_force_format = flag ''force_format'', xs_thinking_to_content = flag ''thinking_to_content'',
                xs_proxy = or_value (get_prop p ''proxy'') (JStr []), xs_pass_through_body_enabled = flag ''pass_through_body_enabled'',
                xs_responses_reasoning_fallback = flag ''responses_reasoning_fallback'', xs_websocket_transport = flag ''websocket_transport'',
                xs_synthetic_client_headers = flag ''synthetic_client_headers'', xs_profile = parseSyntheticClientHeaderProfile p channelType,
                xs_cli_version_profile = text_of p ''cli_version_profile'', xs_tls_fingerprint_enabled = (tls \<noteq> []), xs_tls_fingerprint = tls,
                xs_custom_client_identity_enabled = (device \<noteq> [] \<or> session \<noteq> []), xs_client_device_seed = device,
                xs_client_session_seed = session, xs_system_prompt = or_value (get_prop p ''system_prompt'') (JStr []),
                xs_system_prompt_override = flag ''system_prompt_override''\<rparr>))"

definition positive_number :: "json option \<Rightarrow> bool" where
  "positive_number v = (case v of Some (JNum n) \<Rightarrow> (case number_of_string n of Fin q \<Rightarrow> 0 < q | Infinite neg \<Rightarrow> \<not> neg | NaN \<Rightarrow> False) | _ \<Rightarrow> False)"

definition loadTypeSettings :: "(jsstr \<Rightarrow> jsstr) \<Rightarrow> jsstr \<Rightarrow> TypeSettings" where
  "loadTypeSettings nt settings =
     (if settings = [] then defaultTypeSettings
      else case json_parse settings of
        None \<Rightarrow> defaultTypeSettings
      | Some JNull \<Rightarrow> defaultTypeSettings
      | Some p \<Rightarrow>
          (let yes = (\<lambda>k. get_prop p k = Some (JBool True));
               minutes = (\<lambda>k d. if positive_number (get_prop p k) then the (get_prop p k) else d) in
           \<lparr>ts_vertex_key_type = or_value (get_prop p ''vertex_key_type'') (JStr (js ''json'')),
            ts_azure_responses_version = or_value (get_prop p ''azure_responses_version'') (JStr []),
            ts_is_enterprise_account = yes ''openrouter_enterprise'',
            ts_aws_key_type = or_value (get_prop p ''aws_key_type'') (JStr (js ''ak_sk'')),
            ts_allow_service_tier = yes ''allow_service_tier'', ts_disable_store = yes ''disable_store'',
            ts_allow_safety_identifier = yes ''allow_safety_identifier'', ts_allow_include_obfuscation = yes ''allow_include_obfuscation'',
            ts_allow_inference_geo = yes ''allow_inference_geo'', ts_allow_speed = yes ''allow_speed'',
            ts_claude_beta_query = yes ''claude_beta_query'', ts_disable_task_polling_sleep = yes ''disable_task_polling_sleep'',
            ts_update_check_enabled = yes ''upstream_model_update_check_enabled'',
            ts_update_auto_sync_enabled = yes ''upstream_model_update_auto_sync_enabled'',
            ts_update_ignored_models =
              (case get_prop p ''upstream_model_update_ignored_models'' of Some (JArr xs) \<Rightarrow> js_String nt (JArr xs) | _ \<Rightarrow> []),
            ts_keepalive_enabled = yes ''upstream_keepalive_enabled'',
            ts_keepalive_interval = minutes ''upstream_keepalive_interval_minutes'' UPSTREAM_KEEPALIVE_DEFAULT_INTERVAL_MINUTES,
            ts_keepalive_window = minutes ''upstream_keepalive_active_window_minutes'' UPSTREAM_KEEPALIVE_DEFAULT_ACTIVE_WINDOW_MINUTES,
            ts_advanced_custom =
              (case get_prop p ''advanced_custom'' of
                 Some v \<Rightarrow> if truthy v then (case stringifyAdvancedCustomConfig nt v of Some s \<Rightarrow> s | None \<Rightarrow> []) else []
               | None \<Rightarrow> [])\<rparr>))"

definition parseGroups :: "jsstr \<Rightarrow> jsstr list" where
  "parseGroups groups = (if groups = [] then [] else split_trim 44 groups)"

definition formatGroups :: "jsstr list \<Rightarrow> jsstr" where
  "formatGroups groups = join [44] groups"

definition transformChannelToFormDefaults :: "(jsstr \<Rightarrow> jsstr) \<Rightarrow> Channel \<Rightarrow> ChannelForm" where
  "transformChannelToFormDefaults nt c =
     (let orZero = (\<lambda>v. Some (case v of Some i \<Rightarrow> i | None \<Rightarrow> 0)) in
      \<lparr>cf_name = ch_name c, cf_type = ch_type c, cf_base_url = or_empty (ch_base_url c), cf_key = [],
       cf_openai_organization = or_empty (ch_openai_organization c), cf_models = ch_models c,
       cf_group = parseGroups (if ch_group c = [] then js ''default'' else ch_group c), cf_model_mapping = or_empty (ch_model_mapping c),
       cf_priority = orZero (ch_priority c), cf_max_concurrency = orZero (ch_max_concurrency c), cf_weight = orZero (ch_weight c),
       cf_test_model = or_empty (ch_test_model c), cf_auto_ban = Some (case ch_auto_ban c of Some i \<Rightarrow> i | None \<Rightarrow> 1),
       cf_status = ch_status c, cf_status_code_mapping = or_empty (ch_status_code_mapping c), cf_tag = or_empty (ch_tag c),
       cf_remark = ch_remark c, cf_setting = or_empty (ch_setting c), cf_param_override = or_empty (ch_param_override c),
       cf_header_override = or_empty (ch_header_override c), cf_settings = (if ch_settings c = [] then js ''{}'' else ch_settings c),
       cf_other = ch_other c, cf_multi_key_mode = Single,
       cf_multi_key_type = (if ch_multi_key_mode c = [] then js ''random'' else ch_multi_key_mode c), cf_batch_prefix = False,
       cf_key_append = ch_is_multi_key c, cf_extra = loadExtraSettings (ch_setting c) (ch_type c),
       cf_typed = loadTypeSettings nt (ch_settings c)\<rparr>)"

section \<open>Building the column \<open>setting\<close>\<close>

definition cliVersion :: "ExtraSettings \<Rightarrow> jsstr" where
  "cliVersion x =
     (let selectedVersion = trim (xs_cli_version_profile x) in
      if (xs_profile x = js ''claude'' \<or> xs_profile x = js ''codex'') \<and> starts_with selectedVersion (xs_profile x @ js ''-'')
      then selectedVersion else [])"

definition extraAssignments :: "ExtraSettings \<Rightarrow> (string \<times> json) list" where
  "extraAssignments x =
     (let off = (xs_profile x = js ''off''); customIdentity = (\<not> off \<and> xs_custom_client_identity_enabled x);
          flag = (\<lambda>v. or_value (Some v) (JBool False)) in
      [(''force_format'', flag (xs_force_format x)), (''thinking_to_content'', flag (xs_thinking_to_content x)),
       (''proxy'', or_value (Some (xs_proxy x)) (JStr [])), (''pass_through_body_enabled'', flag (xs_pass_through_body_enabled x)),
       (''responses_reasoning_fallback'', flag (xs_responses_reasoning_fallback x)),
       (''websocket_transport'', flag (xs_websocket_transport x)), (''synthetic_client_headers'', JBool (\<not> off)),
       (''synthetic_client_headers_profile'', JStr (if off then [] else xs_profile x)), (''cli_version_profile'', JStr (cliVersion x)),
       (''tls_fingerprint'', JStr (if cliVersion x = [] \<and> \<not> off \<and> xs_tls_fingerprint_enabled x then trim (xs_tls_fingerprint x) else [])),
       (''client_device_seed'', JStr (if customIdentity then trim (xs_client_device_seed x) else [])),
       (''client_session_seed'', JStr (if customIdentity then trim (xs_client_session_seed x) else [])),
       (''system_prompt'', or_value (Some (xs_system_prompt x)) (JStr [])),
       (''system_prompt_override'', flag (xs_system_prompt_override x))])"

definition settingObj :: "ChannelForm \<Rightarrow> (jsstr \<times> json) list option" where
  "settingObj f =
     (case json_parse (if trim (cf_setting f) = [] then js ''{}'' else trim (cf_setting f)) of
        None \<Rightarrow> None
      | Some v \<Rightarrow> Some (foldl (\<lambda>m (k, x). put k x m) (own_props v) (extraAssignments (cf_extra f))))"

definition buildSettingJSON :: "(jsstr \<Rightarrow> jsstr) \<Rightarrow> ChannelForm \<Rightarrow> jsstr option" where
  "buildSettingJSON nt f = map_option (\<lambda>m. json_stringify nt (JObj m)) (settingObj f)"

section \<open>Building the column \<open>settings\<close>\<close>

definition MODEL_FETCHABLE_TYPES :: "int set" where
  "MODEL_FETCHABLE_TYPES = {1, 4, 14, 17, 20, 23, 24, 25, 26, 27, 31, 34, 35, 40, 42, 43, 47, 48}"

text \<open>
  The fields of a channel type, set for the type and otherwise deleted; \<open>allow_inference_geo\<close> is
  set in two branches of the source, for type 14 after the deletions of the OpenAI fields.
\<close>

definition typeFields :: "int \<Rightarrow> TypeSettings \<Rightarrow> (jsstr \<times> json) list \<Rightarrow> (jsstr \<times> json) list" where
  "typeFields t s m =
     (let m1 = put_if (t = 41) ''vertex_key_type'' (or_value (Some (ts_vertex_key_type s)) (JStr (js ''json''))) m;
          m2 = put_if (t = 3 \<and> truthy (ts_azure_responses_version s)) ''azure_responses_version'' (ts_azure_responses_version s) m1;
          m3 = put_if (t = 20) ''openrouter_enterprise'' (JBool (ts_is_enterprise_account s)) m2;
          m4 = put_if (t = 33) ''aws_key_type'' (or_value (Some (ts_aws_key_type s)) (JStr (js ''ak_sk''))) m3;
          m5 = put_if (t = 1 \<or> t = 14 \<or> t = 57) ''allow_service_tier'' (JBool (ts_allow_service_tier s)) m4;
          openai = (t = 1 \<or> t = 57);
          m6 = put_if openai ''disable_store'' (JBool (ts_disable_store s)) m5;
          m7 = put_if openai ''allow_safety_identifier'' (JBool (ts_allow_safety_identifier s)) m6;
          m8 = put_if openai ''allow_include_obfuscation'' (JBool (ts_allow_include_obfuscation s)) m7;
          m9 = put_if (openai \<or> t = 14) ''allow_inference_geo'' (JBool (ts_allow_inference_geo s)) m8;
          m10 = put_if (t = 14) ''allow_speed'' (JBool (ts_allow_speed s)) m9 in
      put_if (t = 14) ''claude_beta_query'' (JBool (ts_claude_beta_query s)) m10)"

definition updateFields :: "int \<Rightarrow> TypeSettings \<Rightarrow> (jsstr \<times> json) list \<Rightarrow> (jsstr \<times> json) list" where
  "updateFields t s m =
     (if t \<notin> MODEL_FETCHABLE_TYPES then m
      else
        let m1 = put ''upstream_model_update_check_enabled'' (JBool (ts_update_check_enabled s)) m;
            m2 = put ''upstream_model_update_auto_sync_enabled'' (JBool (ts_update_check_enabled s \<and> ts_update_auto_sync_enabled s)) m1;
            m3 = put ''upstream_model_update_ignored_models'' (JArr (map JStr (set_of (split_trim 44 (ts_update_ignored_models s))))) m2;
            m4 = put_unless (is_array (get ''upstream_model_update_last_detected_models'' m3) \<and> ts_update_check_enabled s)
              ''upstream_model_update_last_detected_models'' (JArr []) m3 in
        put_unless (is_number (get ''upstream_model_update_last_check_time'' m4)) ''upstream_model_update_last_check_time'' (JNum (js ''0'')) m4)"

definition keepaliveFields :: "TypeSettings \<Rightarrow> (jsstr \<times> json) list \<Rightarrow> (jsstr \<times> json) list" where
  "keepaliveFields s m =
     put ''upstream_keepalive_active_window_minutes''
       (or_value (Some (ts_keepalive_window s)) UPSTREAM_KEEPALIVE_DEFAULT_ACTIVE_WINDOW_MINUTES)
       (put ''upstream_keepalive_interval_minutes''
         (or_value (Some (ts_keepalive_interval s)) UPSTREAM_KEEPALIVE_DEFAULT_INTERVAL_MINUTES)
         (put ''upstream_keepalive_enabled'' (JBool (ts_keepalive_enabled s)) m))"

definition routingField :: "int \<Rightarrow> TypeSettings \<Rightarrow> (jsstr \<times> json) list \<Rightarrow> (jsstr \<times> json) list" where
  "routingField t s m =
     (if t = CHANNEL_TYPE_ADVANCED_CUSTOM
      then (case parseAdvancedCustomConfig (ts_advanced_custom s) of Some c \<Rightarrow> put ''advanced_custom'' c m | None \<Rightarrow> m)
      else del ''advanced_custom'' m)"

definition mergeSettings :: "int \<Rightarrow> TypeSettings \<Rightarrow> (jsstr \<times> json) list \<Rightarrow> (jsstr \<times> json) list" where
  "mergeSettings t s m =
     del ''websocket_unsupported'' (routingField t s (keepaliveFields s (updateFields t s
       (put ''disable_task_polling_sleep'' (JBool (ts_disable_task_polling_sleep s)) (typeFields t s m)))))"

text \<open>
  An array keeps only its elements when it is written; on another value that is no object the
  first assignment or \<open>in\<close> throws.
\<close>

definition buildSettingsJSON :: "(jsstr \<Rightarrow> jsstr) \<Rightarrow> ChannelForm \<Rightarrow> jsstr option" where
  "buildSettingsJSON nt f =
     (let merge = (\<lambda>m. json_stringify nt (JObj (mergeSettings (cf_type f) (cf_typed f) m))) in
      if cf_settings f = [] \<or> cf_settings f = js ''{}'' then Some (merge [])
      else case json_parse (cf_settings f) of
        None \<Rightarrow> Some (merge [])
      | Some (JObj m) \<Rightarrow> Some (merge m)
      | Some (JArr xs) \<Rightarrow> Some (json_stringify nt (JArr xs))
      | Some _ \<Rightarrow> None)"

section \<open>Payloads\<close>

definition normalizeBaseUrl :: "jsstr \<Rightarrow> jsstr" where
  "normalizeBaseUrl s = rev (dropWhile (\<lambda>c. c = 47) (rev (trim s)))"

definition orNull :: "jsstr \<Rightarrow> json" where
  "orNull s = (if s = [] then JNull else JStr s)"

definition numOrNull :: "int option \<Rightarrow> json" where
  "numOrNull v = (case v of Some i \<Rightarrow> if i = 0 then JNull else jnum i | None \<Rightarrow> JNull)"

definition numOr :: "int \<Rightarrow> int option \<Rightarrow> json" where
  "numOr d v = jnum (case v of Some i \<Rightarrow> i | None \<Rightarrow> d)"

text \<open>The clean-up of empty texts.\<close>

definition emptyToNull :: "(jsstr \<times> json) list \<Rightarrow> (jsstr \<times> json) list" where
  "emptyToNull m = map (\<lambda>(k, v). (k, if v = JStr [] then JNull else v)) m"

record CreatePayload =
  cp_mode :: MultiKeyMode
  cp_multi_key_mode :: "jsstr option"
  cp_batch_prefix :: "bool option"
  cp_channel :: "(jsstr \<times> json) list"

definition createChannel :: "ChannelForm \<Rightarrow> jsstr \<Rightarrow> jsstr \<Rightarrow> (string \<times> json) list" where
  "createChannel f setting settings =
     [(''name'', JStr (cf_name f)), (''type'', jnum (cf_type f)), (''base_url'', orNull (normalizeBaseUrl (cf_base_url f))),
      (''key'', JStr (cf_key f)), (''openai_organization'', orNull (cf_openai_organization f)), (''models'', JStr (cf_models f)),
      (''group'', JStr (formatGroups (cf_group f))), (''model_mapping'', orNull (cf_model_mapping f)), (''priority'', numOrNull (cf_priority f)),
      (''max_concurrency'', numOr 0 (cf_max_concurrency f)), (''weight'', numOrNull (cf_weight f)), (''test_model'', orNull (cf_test_model f)),
      (''auto_ban'', numOr 1 (cf_auto_ban f)), (''status'', jnum (cf_status f)), (''status_code_mapping'', orNull (cf_status_code_mapping f)),
      (''tag'', orNull (cf_tag f)), (''remark'', JStr (cf_remark f)), (''setting'', JStr setting), (''param_override'', orNull (cf_param_override f)),
      (''header_override'', orNull (cf_header_override f)), (''settings'', JStr settings), (''other'', JStr (cf_other f))]"

definition keys_js :: "(string \<times> json) list \<Rightarrow> (jsstr \<times> json) list" where
  "keys_js m = map (\<lambda>(k, v). (js k, v)) m"

definition transformFormDataToCreatePayload :: "(jsstr \<Rightarrow> jsstr) \<Rightarrow> ChannelForm \<Rightarrow> CreatePayload option" where
  "transformFormDataToCreatePayload nt f =
     (case (buildSettingJSON nt f, buildSettingsJSON nt f) of
        (Some setting, Some settings) \<Rightarrow>
          Some \<lparr>cp_mode = cf_multi_key_mode f,
            cp_multi_key_mode = (if cf_multi_key_mode f = MultiToSingle then Some (cf_multi_key_type f) else None),
            cp_batch_prefix = (if cf_multi_key_mode f = Batch then Some (cf_batch_prefix f) else None),
            cp_channel = emptyToNull (keys_js (createChannel f setting settings))\<rparr>
      | _ \<Rightarrow> None)"

definition updateChannel :: "ChannelForm \<Rightarrow> int \<Rightarrow> jsstr \<Rightarrow> jsstr \<Rightarrow> (string \<times> json) list" where
  "updateChannel f channelId setting settings =
     [(''id'', jnum channelId), (''name'', JStr (cf_name f)), (''type'', jnum (cf_type f)),
      (''base_url'', orNull (normalizeBaseUrl (cf_base_url f))), (''openai_organization'', orNull (cf_openai_organization f)),
      (''models'', JStr (cf_models f)), (''group'', JStr (formatGroups (cf_group f))), (''model_mapping'', orNull (cf_model_mapping f)),
      (''priority'', numOr 0 (cf_priority f)), (''max_concurrency'', numOr 0 (cf_max_concurrency f)), (''weight'', numOr 0 (cf_weight f)),
      (''test_model'', orNull (cf_test_model f)), (''auto_ban'', numOr 1 (cf_auto_ban f)),
      (''status_code_mapping'', orNull (cf_status_code_mapping f)), (''tag'', orNull (cf_tag f)), (''remark'', JStr (cf_remark f)),
      (''setting'', JStr setting), (''param_override'', orNull (cf_param_override f)), (''header_override'', orNull (cf_header_override f)),
      (''settings'', JStr settings), (''other'', JStr (cf_other f))]"

definition clearable :: "ChannelForm \<Rightarrow> (string \<times> json) list" where
  "clearable f =
     [(''base_url'', JStr (normalizeBaseUrl (cf_base_url f))), (''openai_organization'', JStr (cf_openai_organization f)),
      (''test_model'', JStr (cf_test_model f)), (''tag'', JStr (cf_tag f)), (''remark'', JStr (cf_remark f)),
      (''model_mapping'', JStr (cf_model_mapping f)), (''status_code_mapping'', JStr (cf_status_code_mapping f)),
      (''param_override'', JStr (cf_param_override f)), (''header_override'', JStr (cf_header_override f))]"

definition transformFormDataToUpdatePayload :: "(jsstr \<Rightarrow> jsstr) \<Rightarrow> ChannelForm \<Rightarrow> int \<Rightarrow> (jsstr \<times> json) list option" where
  "transformFormDataToUpdatePayload nt f channelId =
     (case (buildSettingJSON nt f, buildSettingsJSON nt f) of
        (Some setting, Some settings) \<Rightarrow>
          (let payload = keys_js (updateChannel f channelId setting settings);
               payload1 = (if trim (cf_key f) \<noteq> [] then put ''key'' (JStr (cf_key f)) payload else payload) in
           Some (foldl (\<lambda>m (k, v). put k v m) (emptyToNull payload1) (clearable f)))
      | _ \<Rightarrow> None)"

section \<open>Helpers\<close>

definition validateJSON :: "jsstr \<Rightarrow> bool" where
  "validateJSON s \<longleftrightarrow> trim s = [] \<or> json_parse s \<noteq> None"

definition validateModelMapping :: "jsstr \<Rightarrow> bool" where
  "validateModelMapping s \<longleftrightarrow> trim s = [] \<or> validateJSON s"

definition parseModels :: "jsstr \<Rightarrow> jsstr list" where
  "parseModels models = (if models = [] then [] else split_trim 44 models)"

definition formatModels :: "jsstr list \<Rightarrow> jsstr" where
  "formatModels models = join [44] models"

end
