(* ===== verification/Override_Rules.thy ===== *)
theory Override_Rules
  imports JS_Stringify
begin

text \<open>
  The rules of the parameter override editor
  (\<open>features/channels/components/dialogs/param-override-editor-dialog.tsx\<close>): operations with
  conditions, their reading from and writing to JSON, and their validation. The identifiers
  that \<open>nextLocalId\<close> gives are the values of its counter, which the definitions pass along. A
  value a JSON document can hold is a \<open>json\<close>, \<open>undefined\<close> is \<open>None\<close>. Reading a property of
  \<open>null\<close> throws: the result is then \<open>None\<close>.
\<close>

section \<open>Modes\<close>

definition OPERATION_MODE_OPTIONS :: "(jsstr \<times> jsstr) list" where
  "OPERATION_MODE_OPTIONS = map (\<lambda>(l, v). (js l, js v))
     [(''Set Field'', ''set''), (''Delete Field'', ''delete''), (''Append to End'', ''append''), (''Prepend to Start'', ''prepend''),
      (''Copy Field'', ''copy''), (''Move Field'', ''move''), (''String Replace'', ''replace''), (''Regex Replace'', ''regex_replace''),
      (''Trim Prefix'', ''trim_prefix''), (''Trim Suffix'', ''trim_suffix''), (''Ensure Prefix'', ''ensure_prefix''),
      (''Ensure Suffix'', ''ensure_suffix''), (''Trim Space'', ''trim_space''), (''To Lowercase'', ''to_lower''),
      (''To Uppercase'', ''to_upper''), (''Return Custom Error'', ''return_error''), (''Prune Object Items'', ''prune_objects''),
      (''Pass Through Headers'', ''pass_headers''), (''Sync Fields'', ''sync_fields''), (''Set Request Header'', ''set_header''),
      (''Delete Request Header'', ''delete_header''), (''Copy Request Header'', ''copy_header''), (''Move Request Header'', ''move_header'')]"

definition OPERATION_MODE_VALUES :: "jsstr list" where
  "OPERATION_MODE_VALUES = map snd OPERATION_MODE_OPTIONS"

definition OPERATION_MODE_LABEL_MAP :: "(jsstr \<times> jsstr) list" where
  "OPERATION_MODE_LABEL_MAP = map (\<lambda>(l, v). (v, l)) OPERATION_MODE_OPTIONS"

definition CONDITION_MODE_VALUES :: "jsstr list" where
  "CONDITION_MODE_VALUES = map js [''full'', ''prefix'', ''suffix'', ''contains'', ''gt'', ''gte'', ''lt'', ''lte'']"

text \<open>A flag that is absent is \<open>False\<close>; the view alone tells an absent \<open>to\<close> from a false one.\<close>

record ModeMeta =
  mm_path :: bool
  mm_pathOptional :: bool
  mm_value :: bool
  mm_from :: bool
  mm_to :: bool
  mm_keepOrigin :: bool
  mm_pathAlias :: bool

definition noMeta :: ModeMeta where
  "noMeta = \<lparr>mm_path = False, mm_pathOptional = False, mm_value = False, mm_from = False, mm_to = False,
     mm_keepOrigin = False, mm_pathAlias = False\<rparr>"

definition metaPath :: ModeMeta where "metaPath = noMeta\<lparr>mm_path := True\<rparr>"
definition metaWrite :: ModeMeta where "metaWrite = noMeta\<lparr>mm_path := True, mm_value := True, mm_keepOrigin := True\<rparr>"
definition metaFromTo :: ModeMeta where "metaFromTo = noMeta\<lparr>mm_from := True, mm_to := True\<rparr>"
definition metaReplace :: ModeMeta where "metaReplace = noMeta\<lparr>mm_path := True, mm_from := True\<rparr>"
definition metaPathValue :: ModeMeta where "metaPathValue = noMeta\<lparr>mm_path := True, mm_value := True\<rparr>"
definition metaHeader :: ModeMeta where
  "metaHeader = noMeta\<lparr>mm_from := True, mm_to := True, mm_keepOrigin := True, mm_pathAlias := True\<rparr>"

definition MODE_META :: "(jsstr \<times> ModeMeta) list" where
  "MODE_META = map (\<lambda>(m, x). (js m, x))
     [(''delete'', metaPath), (''set'', metaWrite), (''append'', metaWrite), (''prepend'', metaWrite),
      (''copy'', metaFromTo), (''move'', metaFromTo), (''replace'', metaReplace), (''regex_replace'', metaReplace),
      (''trim_prefix'', metaPathValue), (''trim_suffix'', metaPathValue), (''ensure_prefix'', metaPathValue),
      (''ensure_suffix'', metaPathValue), (''trim_space'', metaPath), (''to_lower'', metaPath), (''to_upper'', metaPath),
      (''return_error'', noMeta\<lparr>mm_value := True\<rparr>), (''prune_objects'', noMeta\<lparr>mm_pathOptional := True, mm_value := True\<rparr>),
      (''pass_headers'', noMeta\<lparr>mm_value := True, mm_keepOrigin := True\<rparr>), (''sync_fields'', metaFromTo),
      (''set_header'', metaWrite), (''delete_header'', metaPath), (''copy_header'', metaHeader), (''move_header'', metaHeader)]"

definition VALUE_REQUIRED_MODES :: "jsstr list" where
  "VALUE_REQUIRED_MODES = map js [''trim_prefix'', ''trim_suffix'', ''ensure_prefix'', ''ensure_suffix'', ''set_header'',
     ''return_error'', ''prune_objects'', ''pass_headers'']"

definition FROM_REQUIRED_MODES :: "jsstr list" where
  "FROM_REQUIRED_MODES = map js [''copy'', ''move'', ''replace'', ''regex_replace'', ''copy_header'', ''move_header'', ''sync_fields'']"

definition TO_REQUIRED_MODES :: "jsstr list" where
  "TO_REQUIRED_MODES = map js [''copy'', ''move'', ''copy_header'', ''move_header'', ''sync_fields'']"

section \<open>Rules\<close>

record ParamOverrideCondition =
  oc_id :: nat
  oc_path :: jsstr
  oc_mode :: jsstr
  oc_value_text :: jsstr
  oc_invert :: bool
  oc_pass_missing_key :: bool

record ParamOverrideOperation =
  op_id :: nat
  op_description :: jsstr
  op_path :: jsstr
  op_mode :: jsstr
  op_from :: jsstr
  op_to :: jsstr
  op_value_text :: jsstr
  op_keep_origin :: bool
  op_logic :: jsstr
  op_conditions :: "ParamOverrideCondition list"

definition toValueText :: "(jsstr \<Rightarrow> jsstr) \<Rightarrow> json option \<Rightarrow> jsstr" where
  "toValueText nt value = (case value of None \<Rightarrow> [] | Some (JStr s) \<Rightarrow> s | Some v \<Rightarrow> json_stringify nt v)"

definition parseLooseValue :: "jsstr \<Rightarrow> json" where
  "parseLooseValue valueText =
     (let raw = trim valueText in
      if raw = [] then JStr [] else case json_parse raw of Some v \<Rightarrow> v | None \<Rightarrow> JStr raw)"

definition verifyJSON :: "jsstr \<Rightarrow> bool" where
  "verifyJSON s \<longleftrightarrow> json_parse s \<noteq> None"

text \<open>\<open>typeof v.k === 'string' ? v.k : ''\<close> and \<open>v.k === true\<close>.\<close>

definition text_prop :: "json \<Rightarrow> string \<Rightarrow> jsstr" where
  "text_prop v k = (case get_prop v k of Some (JStr s) \<Rightarrow> s | _ \<Rightarrow> [])"

definition true_prop :: "json \<Rightarrow> string \<Rightarrow> bool" where
  "true_prop v k \<longleftrightarrow> get_prop v k = Some (JBool True)"

text \<open>The mode when it is one of the known ones, else the default.\<close>

definition mode_prop :: "json \<Rightarrow> jsstr list \<Rightarrow> string \<Rightarrow> jsstr" where
  "mode_prop v modes dflt = (case get_prop v ''mode'' of Some (JStr s) \<Rightarrow> if s \<in> set modes then s else js dflt | _ \<Rightarrow> js dflt)"

text \<open>
  \<open>toUpperCase\<close> and \<open>toLowerCase\<close> where the result is compared with an ASCII word: no other
  letter is mapped to a letter of the words \<open>AND\<close>, \<open>OR\<close> and \<open>header\<close>.
\<close>

definition ascii_upper :: "jsstr \<Rightarrow> jsstr" where
  "ascii_upper s = map (\<lambda>c. if 97 \<le> c \<and> c \<le> 122 then c - 32 else c) s"

definition ascii_lower :: "jsstr \<Rightarrow> jsstr" where
  "ascii_lower s = map (\<lambda>c. if 65 \<le> c \<and> c \<le> 90 then c + 32 else c) s"

text \<open>\<open>String(v.k || d).toUpperCase() === word\<close>.\<close>

definition word_prop :: "(jsstr \<Rightarrow> jsstr) \<Rightarrow> json \<Rightarrow> string \<Rightarrow> string \<Rightarrow> string \<Rightarrow> bool" where
  "word_prop nt v k dflt word \<longleftrightarrow>
     ascii_upper (if is_truthy (get_prop v k) then js_String nt (the (get_prop v k)) else js dflt) = js word"

definition normalizeCondition :: "(jsstr \<Rightarrow> jsstr) \<Rightarrow> json \<Rightarrow> nat \<Rightarrow> (ParamOverrideCondition \<times> nat) option" where
  "normalizeCondition nt v seed =
     (if v = JNull then None
      else Some (\<lparr>oc_id = seed, oc_path = text_prop v ''path'', oc_mode = mode_prop v CONDITION_MODE_VALUES ''full'',
        oc_value_text = toValueText nt (get_prop v ''value''), oc_invert = true_prop v ''invert'',
        oc_pass_missing_key = true_prop v ''pass_missing_key''\<rparr>, seed + 1))"

text \<open>\<open>xs.map(f)\<close> with the counter passed along; \<open>None\<close> when one call throws.\<close>

fun map_fresh :: "('a \<Rightarrow> nat \<Rightarrow> ('b \<times> nat) option) \<Rightarrow> 'a list \<Rightarrow> nat \<Rightarrow> ('b list \<times> nat) option" where
  "map_fresh f [] seed = Some ([], seed)"
| "map_fresh f (x # xs) seed =
     (case f x seed of
        None \<Rightarrow> None
      | Some (y, seed1) \<Rightarrow> (case map_fresh f xs seed1 of None \<Rightarrow> None | Some (ys, seed2) \<Rightarrow> Some (y # ys, seed2)))"

definition normalizeOperation :: "(jsstr \<Rightarrow> jsstr) \<Rightarrow> json \<Rightarrow> nat \<Rightarrow> (ParamOverrideOperation \<times> nat) option" where
  "normalizeOperation nt v seed =
     (if v = JNull then None
      else case map_fresh (normalizeCondition nt) (case get_prop v ''conditions'' of Some (JArr xs) \<Rightarrow> xs | _ \<Rightarrow> []) (seed + 1) of
        None \<Rightarrow> None
      | Some (conditions, seed1) \<Rightarrow>
          Some (\<lparr>op_id = seed, op_description = text_prop v ''description'', op_path = text_prop v ''path'',
            op_mode = mode_prop v OPERATION_MODE_VALUES ''set'', op_from = text_prop v ''from'', op_to = text_prop v ''to'',
            op_value_text = toValueText nt (get_prop v ''value''), op_keep_origin = true_prop v ''keep_origin'',
            op_logic = (if word_prop nt v ''logic'' ''OR'' ''AND'' then js ''AND'' else js ''OR''),
            op_conditions = conditions\<rparr>, seed1))"

text \<open>The default condition and operation: \<open>normalize\<close> of \<open>{}\<close> and of \<open>{ mode: 'set' }\<close>.\<close>

definition createDefaultCondition :: "nat \<Rightarrow> ParamOverrideCondition" where
  "createDefaultCondition seed = \<lparr>oc_id = seed, oc_path = [], oc_mode = js ''full'', oc_value_text = [], oc_invert = False,
     oc_pass_missing_key = False\<rparr>"

definition createDefaultOperation :: "nat \<Rightarrow> ParamOverrideOperation" where
  "createDefaultOperation seed = \<lparr>op_id = seed, op_description = [], op_path = [], op_mode = js ''set'', op_from = [], op_to = [],
     op_value_text = [], op_keep_origin = False, op_logic = js ''OR'', op_conditions = []\<rparr>"

lemma default_condition: "normalizeCondition nt (JObj []) seed = Some (createDefaultCondition seed, seed + 1)"
  by (simp add: normalizeCondition_def createDefaultCondition_def text_prop_def mode_prop_def true_prop_def get_prop_def toValueText_def)

lemma default_operation:
  "normalizeOperation nt (JObj [(js ''mode'', JStr (js ''set''))]) seed = Some (createDefaultOperation seed, seed + 1)"
  by (simp add: normalizeOperation_def createDefaultOperation_def text_prop_def mode_prop_def true_prop_def get_prop_def toValueText_def
      word_prop_def is_truthy_def OPERATION_MODE_VALUES_def OPERATION_MODE_OPTIONS_def ascii_upper_def js_simps)

section \<open>Order and emptiness\<close>

datatype DragPosition = Before | After

definition reorderOperations :: "ParamOverrideOperation list \<Rightarrow> nat option \<Rightarrow> nat option \<Rightarrow> DragPosition \<Rightarrow> ParamOverrideOperation list" where
  "reorderOperations ops sourceId targetId position =
     (if sourceId = None \<or> targetId = None \<or> sourceId = targetId then ops
      else case find_index (\<lambda>x. Some (op_id x) = sourceId) ops of
        None \<Rightarrow> ops
      | Some srcIdx \<Rightarrow>
          (let moved = ops ! srcIdx; next = take srcIdx ops @ drop (srcIdx + 1) ops in
           case find_index (\<lambda>x. Some (op_id x) = targetId) next of
             None \<Rightarrow> ops
           | Some i \<Rightarrow>
               (let insertIdx = (if position = After then i + 1 else i) in
                take insertIdx next @ [moved] @ drop insertIdx next)))"

definition isOperationBlank :: "ParamOverrideOperation \<Rightarrow> bool" where
  "isOperationBlank operation \<longleftrightarrow>
     op_mode operation = js ''set'' \<and> trim (op_path operation) = [] \<and> trim (op_from operation) = [] \<and>
     trim (op_to operation) = [] \<and> trim (op_value_text operation) = [] \<and> \<not> op_keep_origin operation \<and>
     \<not> list_ex (\<lambda>c. trim (oc_path c) \<noteq> [] \<or> trim (oc_value_text c) \<noteq> [] \<or> oc_mode c \<noteq> js ''full'' \<or> oc_invert c \<or>
       oc_pass_missing_key c) (op_conditions operation)"

definition first_nonempty :: "jsstr list \<Rightarrow> jsstr" where
  "first_nonempty ss = (case List.find (\<lambda>s. s \<noteq> []) ss of Some s \<Rightarrow> s | None \<Rightarrow> js ''-'')"

definition getOperationSummary :: "ParamOverrideOperation \<Rightarrow> nat \<Rightarrow> jsstr" where
  "getOperationSummary operation index =
     (let mode = (if op_mode operation = [] then js ''set'' else op_mode operation);
          modeLabel = (case map_of OPERATION_MODE_LABEL_MAP mode of Some l \<Rightarrow> l | None \<Rightarrow> mode);
          from = trim (op_from operation); to = trim (op_to operation); path = trim (op_path operation) in
      show_nat (index + 1) @ js ''. '' @ modeLabel @ [32, 183, 32] @
        (if mode = js ''sync_fields'' then first_nonempty [from, to] else first_nonempty [path, from, to]))"

section \<open>Sync targets\<close>

record SyncTarget =
  st_type :: jsstr
  st_key :: jsstr

definition parseSyncTargetSpec :: "jsstr \<Rightarrow> SyncTarget" where
  "parseSyncTargetSpec spec =
     (let raw = trim spec in
      if raw = [] then \<lparr>st_type = js ''json'', st_key = []\<rparr>
      else case find_index (\<lambda>c. c = 58) raw of
        None \<Rightarrow> \<lparr>st_type = js ''json'', st_key = raw\<rparr>
      | Some idx \<Rightarrow>
          (let prefix = ascii_lower (trim (take idx raw)); key = trim (drop (idx + 1) raw) in
           \<lparr>st_type = (if prefix = js ''header'' then js ''header'' else js ''json''), st_key = key\<rparr>))"

definition buildSyncTargetSpec :: "jsstr \<Rightarrow> jsstr \<Rightarrow> jsstr" where
  "buildSyncTargetSpec type key =
     (let normalizedType = (if type = js ''header'' then js ''header'' else js ''json''); normalizedKey = trim key in
      if normalizedKey = [] then [] else normalizedType @ js '':'' @ normalizedKey)"

section \<open>Header names\<close>

text \<open>\<open>String(i ?? '').trim()\<close> of every item, without the empty ones.\<close>

definition item_texts :: "(jsstr \<Rightarrow> jsstr) \<Rightarrow> json list \<Rightarrow> jsstr list" where
  "item_texts nt xs = filter (\<lambda>s. s \<noteq> []) (map (\<lambda>i. trim (if i = JNull then [] else js_String nt i)) xs)"

definition parsePassHeaderNames :: "(jsstr \<Rightarrow> jsstr) \<Rightarrow> json \<Rightarrow> jsstr list" where
  "parsePassHeaderNames nt rawValue =
     (case rawValue of
        JArr xs \<Rightarrow> item_texts nt xs
      | JObj m \<Rightarrow>
          (case map_of m (js ''headers'') of
             Some (JArr xs) \<Rightarrow> item_texts nt xs
           | _ \<Rightarrow> (case map_of m (js ''header'') of Some v \<Rightarrow> item_texts nt [v] | None \<Rightarrow> []))
      | JStr s \<Rightarrow> filter (\<lambda>s. s \<noteq> []) (map trim (split_on 44 s))
      | _ \<Rightarrow> [])"

section \<open>Validation\<close>

datatype RuleError = MissingPath | MissingSource | MissingTarget | MissingValue | ReturnErrorMessage | PassHeadersNames | PassHeadersFormat
  | PruneConditions

definition modeMeta :: "jsstr \<Rightarrow> ModeMeta" where
  "modeMeta mode = (case map_of MODE_META mode of Some meta \<Rightarrow> meta | None \<Rightarrow> metaWrite)"

definition opMode :: "ParamOverrideOperation \<Rightarrow> jsstr" where
  "opMode operation = (if op_mode operation = [] then js ''set'' else op_mode operation)"

definition returnErrorLacksMessage :: "(jsstr \<Rightarrow> jsstr) \<Rightarrow> jsstr \<Rightarrow> bool" where
  "returnErrorLacksMessage nt raw \<longleftrightarrow>
     (case json_parse raw of
        Some (JObj m) \<Rightarrow>
          (let v = map_of m (js ''message'') in trim (if is_truthy v then js_String nt (the v) else []) = [])
      | _ \<Rightarrow> False)"

definition validateOperation :: "(jsstr \<Rightarrow> jsstr) \<Rightarrow> ParamOverrideOperation \<Rightarrow> RuleError option" where
  "validateOperation nt operation =
     (let mode = opMode operation; meta = modeMeta mode;
          pathValue = trim (op_path operation); fromValue = trim (op_from operation); toValue = trim (op_to operation);
          raw = trim (op_value_text operation) in
      if mm_path meta \<and> pathValue = [] then Some MissingPath
      else if mode \<in> set FROM_REQUIRED_MODES \<and> fromValue = [] \<and> \<not> (mm_pathAlias meta \<and> pathValue \<noteq> []) then Some MissingSource
      else if mode \<in> set TO_REQUIRED_MODES \<and> toValue = [] \<and> \<not> (mm_pathAlias meta \<and> pathValue \<noteq> []) then Some MissingTarget
      else if mode \<in> set VALUE_REQUIRED_MODES \<and> raw = [] then Some MissingValue
      else if mode = js ''return_error'' \<and> raw = [] then Some MissingValue
      else if mode = js ''return_error'' \<and> returnErrorLacksMessage nt raw then Some ReturnErrorMessage
      else if mode = js ''prune_objects'' \<and> raw = [] then Some PruneConditions
      else if mode = js ''pass_headers'' \<and> raw = [] then Some PassHeadersNames
      else if mode = js ''pass_headers'' \<and> parsePassHeaderNames nt (parseLooseValue raw) = [] then Some PassHeadersFormat
      else None)"

fun validateFrom :: "(jsstr \<Rightarrow> jsstr) \<Rightarrow> nat \<Rightarrow> ParamOverrideOperation list \<Rightarrow> (RuleError \<times> nat) option" where
  "validateFrom nt line [] = None"
| "validateFrom nt line (x # xs) =
     (case validateOperation nt x of Some e \<Rightarrow> Some (e, line) | None \<Rightarrow> validateFrom nt (line + 1) xs)"

definition validateOperations :: "(jsstr \<Rightarrow> jsstr) \<Rightarrow> ParamOverrideOperation list \<Rightarrow> (RuleError \<times> nat) option" where
  "validateOperations nt operations = validateFrom nt 1 operations"

section \<open>Building\<close>

text \<open>A payload object: the properties that were assigned, in the order of their first assignment.\<close>

type_synonym payload = "(jsstr \<times> json) list"

definition assign_if :: "bool \<Rightarrow> string \<Rightarrow> json \<Rightarrow> payload \<Rightarrow> payload" where
  "assign_if b k v m = (if b then AList.update (js k) v m else m)"

definition buildConditionPayload :: "ParamOverrideCondition \<Rightarrow> json option" where
  "buildConditionPayload condition =
     (let path = trim (oc_path condition) in
      if path = [] then None
      else Some (JObj (assign_if (oc_pass_missing_key condition) ''pass_missing_key'' (JBool True)
        (assign_if (oc_invert condition) ''invert'' (JBool True)
          [(js ''path'', JStr path), (js ''mode'', JStr (if oc_mode condition = [] then js ''full'' else oc_mode condition)),
           (js ''value'', parseLooseValue (oc_value_text condition))]))))"

definition unset_prop :: "string \<Rightarrow> payload \<Rightarrow> bool" where
  "unset_prop k m \<longleftrightarrow> \<not> is_truthy (map_of m (js k))"

definition buildOperationPayload :: "ParamOverrideOperation \<Rightarrow> json" where
  "buildOperationPayload operation =
     (let mode = opMode operation; meta = modeMeta mode;
          descriptionValue = trim (op_description operation); pathValue = trim (op_path operation);
          fromValue = trim (op_from operation); toValue = trim (op_to operation);
          p1 = [(js ''mode'', JStr mode)];
          p2 = assign_if (descriptionValue \<noteq> []) ''description'' (JStr descriptionValue) p1;
          p3 = assign_if (mm_path meta) ''path'' (JStr pathValue) p2;
          p4 = assign_if (mm_pathOptional meta \<and> pathValue \<noteq> []) ''path'' (JStr pathValue) p3;
          p5 = assign_if (mm_value meta) ''value'' (parseLooseValue (op_value_text operation)) p4;
          p6 = assign_if (mm_keepOrigin meta \<and> op_keep_origin operation) ''keep_origin'' (JBool True) p5;
          p7 = assign_if (mm_from meta) ''from'' (JStr fromValue) p6;
          p8 = assign_if (\<not> mm_to meta \<and> toValue \<noteq> []) ''to'' (JStr toValue) p7;
          p9 = assign_if (mm_to meta) ''to'' (JStr toValue) p8;
          p10 = assign_if (mm_pathAlias meta \<and> unset_prop ''from'' p9 \<and> pathValue \<noteq> []) ''from'' (JStr pathValue) p9;
          p11 = assign_if (mm_pathAlias meta \<and> unset_prop ''to'' p10 \<and> pathValue \<noteq> []) ''to'' (JStr pathValue) p10;
          conditions = List.map_filter buildConditionPayload (op_conditions operation);
          p12 = assign_if (conditions \<noteq> []) ''conditions'' (JArr conditions) p11;
          p13 = assign_if (conditions \<noteq> []) ''logic'' (JStr (if op_logic operation = js ''AND'' then js ''AND'' else js ''OR'')) p12 in
      JObj p13)"

definition operationsDocument :: "ParamOverrideOperation list \<Rightarrow> json" where
  "operationsDocument ops = JObj [(js ''operations'', JArr (map buildOperationPayload ops))]"

definition buildOperationsJson :: "(jsstr \<Rightarrow> jsstr) \<Rightarrow> bool \<Rightarrow> ParamOverrideOperation list \<Rightarrow> (RuleError \<times> nat) + jsstr" where
  "buildOperationsJson nt validate sourceOperations =
     (let filteredOps = filter (\<lambda>x. \<not> isOperationBlank x) sourceOperations in
      if filteredOps = [] then Inr []
      else case (if validate then validateOperations nt filteredOps else None) of
        Some e \<Rightarrow> Inl e
      | None \<Rightarrow> Inr (json_pretty nt (operationsDocument filteredOps)))"

end
