(* ===== verification/Override_Editor.thy ===== *)
theory Override_Editor
  imports Override_Rules
begin

text \<open>
  The parameter override editor as a state machine
  (\<open>param-override-editor-dialog.tsx\<close>): the drafts of the two structured modes, which are
  read from the value text of a rule and written back into it, the initial state, and one
  function per handler. After every handler the effect that keeps the selection valid runs.
\<close>

section \<open>Drafts of custom errors\<close>

record ReturnErrorDraft =
  rd_message :: jsstr
  rd_statusCode :: int
  rd_code :: jsstr
  rd_type :: jsstr
  rd_skipRetry :: bool
  rd_simpleMode :: bool

definition defaultReturnError :: ReturnErrorDraft where
  "defaultReturnError = \<lparr>rd_message = [], rd_statusCode = 400, rd_code = [], rd_type = [], rd_skipRetry = True, rd_simpleMode = True\<rparr>"

definition statusInRange :: "int \<Rightarrow> int" where
  "statusInRange n = (if 100 \<le> n \<and> n \<le> 599 then n else 400)"

definition statusOfNumber :: "jsnum \<Rightarrow> int" where
  "statusOfNumber x = (case x of Fin q \<Rightarrow> (if of_int \<lfloor>q\<rfloor> = q then statusInRange \<lfloor>q\<rfloor> else 400) | _ \<Rightarrow> 400)"

text \<open>\<open>String(v || '').trim()\<close>.\<close>

definition trimmed_text :: "(jsstr \<Rightarrow> jsstr) \<Rightarrow> json option \<Rightarrow> jsstr" where
  "trimmed_text nt v = trim (if is_truthy v then js_String nt (the v) else [])"

definition parseReturnErrorDraft :: "(jsstr \<Rightarrow> jsstr) \<Rightarrow> jsstr \<Rightarrow> ReturnErrorDraft" where
  "parseReturnErrorDraft nt valueText =
     (let raw = trim valueText in
      if raw = [] then defaultReturnError
      else case json_parse raw of
        Some (JObj m) \<Rightarrow>
          (let statusRaw = (case map_of m (js ''status_code'') of Some v \<Rightarrow> Some v | None \<Rightarrow> map_of m (js ''status''));
               message = map_of m (js ''message'') in
           \<lparr>rd_message = trimmed_text nt (if is_truthy message then message else map_of m (js ''msg'')),
            rd_statusCode = statusOfNumber (js_Number nt statusRaw),
            rd_code = trimmed_text nt (map_of m (js ''code'')), rd_type = trimmed_text nt (map_of m (js ''type'')),
            rd_skipRetry = (map_of m (js ''skip_retry'') \<noteq> Some (JBool False)), rd_simpleMode = False\<rparr>)
      | _ \<Rightarrow> defaultReturnError\<lparr>rd_message := raw\<rparr>)"

definition buildReturnErrorValueText :: "(jsstr \<Rightarrow> jsstr) \<Rightarrow> ReturnErrorDraft \<Rightarrow> jsstr" where
  "buildReturnErrorValueText nt draft =
     (let message = trim (rd_message draft); code = trim (rd_code draft); type = trim (rd_type draft) in
      if rd_simpleMode draft then message
      else json_stringify nt (JObj
        (assign_if (\<not> rd_skipRetry draft) ''skip_retry'' (JBool False)
          (assign_if (type \<noteq> []) ''type'' (JStr type)
            (assign_if (code \<noteq> []) ''code'' (JStr code)
              [(js ''message'', JStr message), (js ''status_code'', JNum (show_int (statusInRange (rd_statusCode draft))))])))))"

section \<open>Drafts of prune rules\<close>

type_synonym PruneRule = ParamOverrideCondition

record PruneObjectsDraft =
  pd_simpleMode :: bool
  pd_typeText :: jsstr
  pd_logic :: jsstr
  pd_recursive :: bool
  pd_rules :: "PruneRule list"

definition defaultPrune :: PruneObjectsDraft where
  "defaultPrune = \<lparr>pd_simpleMode = True, pd_typeText = [], pd_logic = js ''AND'', pd_recursive = True, pd_rules = []\<rparr>"

text \<open>The argument is never \<open>null\<close> here, so the call does not throw.\<close>

definition normalizePruneRule :: "(jsstr \<Rightarrow> jsstr) \<Rightarrow> json \<Rightarrow> nat \<Rightarrow> PruneRule" where
  "normalizePruneRule nt v seed = \<lparr>oc_id = seed, oc_path = text_prop v ''path'', oc_mode = mode_prop v CONDITION_MODE_VALUES ''full'',
     oc_value_text = toValueText nt (get_prop v ''value''), oc_invert = true_prop v ''invert'',
     oc_pass_missing_key = true_prop v ''pass_missing_key''\<rparr>"

text \<open>Rules for a list of values, numbered from the counter.\<close>

fun pruneRules :: "(jsstr \<Rightarrow> jsstr) \<Rightarrow> json list \<Rightarrow> nat \<Rightarrow> PruneRule list" where
  "pruneRules nt [] seed = []"
| "pruneRules nt (v # vs) seed = normalizePruneRule nt v seed # pruneRules nt vs (seed + 1)"

definition entryRule :: "jsstr \<times> json \<Rightarrow> json" where
  "entryRule e = JObj [(js ''path'', JStr (fst e)), (js ''mode'', JStr (js ''full'')), (js ''value'', snd e)]"

definition is_object_value :: "json \<Rightarrow> bool" where
  "is_object_value v = (case v of JObj _ \<Rightarrow> True | JArr _ \<Rightarrow> True | _ \<Rightarrow> False)"

definition pruneRuleValues :: "(jsstr \<times> json) list \<Rightarrow> json list" where
  "pruneRuleValues m =
     (case map_of m (js ''where'') of Some (JObj w) \<Rightarrow> map entryRule (js_entries w) | _ \<Rightarrow> []) @
     (case map_of m (js ''conditions'') of
        Some (JArr xs) \<Rightarrow> filter is_object_value xs
      | Some (JObj w) \<Rightarrow> map entryRule (js_entries w)
      | _ \<Rightarrow> [])"

definition parsePruneObjectsDraft :: "(jsstr \<Rightarrow> jsstr) \<Rightarrow> jsstr \<Rightarrow> nat \<Rightarrow> PruneObjectsDraft \<times> nat" where
  "parsePruneObjectsDraft nt valueText seed =
     (let raw = trim valueText in
      if raw = [] then (defaultPrune, seed)
      else case json_parse raw of
        None \<Rightarrow> (defaultPrune\<lparr>pd_typeText := raw\<rparr>, seed)
      | Some (JStr s) \<Rightarrow> (defaultPrune\<lparr>pd_typeText := trim s\<rparr>, seed)
      | Some (JObj m) \<Rightarrow>
          (let vs = pruneRuleValues m;
               has = (\<lambda>k. map_of m (js k) \<noteq> None) in
           (\<lparr>pd_simpleMode = \<not> (has ''logic'' \<or> has ''recursive'' \<or> has ''where'' \<or> has ''conditions''),
             pd_typeText = (case map_of m (js ''type'') of None \<Rightarrow> [] | Some t \<Rightarrow> trim (js_String nt t)),
             pd_logic = (if word_prop nt (JObj m) ''logic'' ''AND'' ''OR'' then js ''OR'' else js ''AND''),
             pd_recursive = (map_of m (js ''recursive'') \<noteq> Some (JBool False)),
             pd_rules = pruneRules nt vs seed\<rparr>, seed + length vs))
      | Some v \<Rightarrow> (defaultPrune\<lparr>pd_typeText := trim (if v = JNull then [] else js_String nt v)\<rparr>, seed))"

definition pruneConditionPayload :: "PruneRule \<Rightarrow> json" where
  "pruneConditionPayload rule =
     JObj (assign_if (oc_pass_missing_key rule) ''pass_missing_key'' (JBool True)
       (assign_if (oc_invert rule) ''invert'' (JBool True)
         (assign_if (trim (oc_value_text rule) \<noteq> []) ''value'' (parseLooseValue (trim (oc_value_text rule)))
           [(js ''path'', JStr (trim (oc_path rule))),
            (js ''mode'', JStr (if oc_mode rule \<in> set CONDITION_MODE_VALUES then oc_mode rule else js ''full''))])))"

definition buildPruneObjectsValueText :: "(jsstr \<Rightarrow> jsstr) \<Rightarrow> PruneObjectsDraft \<Rightarrow> jsstr" where
  "buildPruneObjectsValueText nt draft =
     (let typeText = trim (pd_typeText draft) in
      if pd_simpleMode draft then typeText
      else
        let logic = (if pd_logic draft = [] then js ''AND'' else pd_logic draft);
            conditions = map pruneConditionPayload (filter (\<lambda>rule. trim (oc_path rule) \<noteq> []) (pd_rules draft));
            payload = assign_if (conditions \<noteq> []) ''conditions'' (JArr conditions)
              (assign_if (\<not> pd_recursive draft) ''recursive'' (JBool False)
                (assign_if (ascii_upper logic = js ''OR'') ''logic'' (JStr (js ''OR''))
                  (assign_if (typeText \<noteq> []) ''type'' (JStr typeText) []))) in
        if typeText = [] \<and> conditions = [] then json_stringify nt (JObj [(js ''logic'', JStr (js ''AND''))])
        else json_stringify nt (JObj payload))"

section \<open>State\<close>

text \<open>
  The state of the dialog: the fields of the source's \<open>EditorState\<close>, then the other states the
  component declares and the counter of \<open>nextLocalId\<close>.
\<close>

datatype EditMode = VisualMode | JsonMode
datatype VisualKind = OperationsKind | LegacyKind

datatype EditorError = InvalidJson | MustBeValidJson | LegacyNotObject | NotAnObject | JsonFormat | CannotAppend | RuleProblem RuleError nat

record EditorState =
  es_editMode :: EditMode
  es_visualMode :: VisualKind
  es_legacyValue :: jsstr
  es_operations :: "ParamOverrideOperation list"
  es_jsonText :: jsstr
  es_jsonError :: "EditorError option"
  es_operationSearch :: jsstr
  es_selected :: "nat option"
  es_expanded :: "(nat \<times> bool) list"
  es_dragged :: "nat option"
  es_dragOver :: "nat option"
  es_dragPosition :: DragPosition
  es_template :: jsstr
  es_seed :: nat

definition is_plain_object :: "json \<Rightarrow> bool" where
  "is_plain_object v = (case v of JObj _ \<Rightarrow> True | _ \<Rightarrow> False)"

text \<open>The operations of a document: \<open>None\<close> when it has no such list, and then whether reading them throws.\<close>

definition operationItems :: "json \<Rightarrow> json list option" where
  "operationItems v = (case v of JObj m \<Rightarrow> (case map_of m (js ''operations'') of Some (JArr xs) \<Rightarrow> Some xs | _ \<Rightarrow> None) | _ \<Rightarrow> None)"

definition readOperations :: "(jsstr \<Rightarrow> jsstr) \<Rightarrow> json list \<Rightarrow> nat \<Rightarrow> (ParamOverrideOperation list \<times> nat) option" where
  "readOperations nt xs seed =
     (if xs = [] then Some ([createDefaultOperation seed], seed + 1) else map_fresh (normalizeOperation nt) xs seed)"

definition first_id :: "ParamOverrideOperation list \<Rightarrow> nat option" where
  "first_id ops = (case ops of [] \<Rightarrow> None | x # _ \<Rightarrow> Some (op_id x))"

text \<open>\<open>parseInitialState\<close> together with what the effect that opens the dialog resets.\<close>

definition parseInitialState :: "(jsstr \<Rightarrow> jsstr) \<Rightarrow> jsstr \<Rightarrow> nat \<Rightarrow> EditorState option" where
  "parseInitialState nt rawValue seed =
     (let trimmed = trim rawValue;
          base = \<lparr>es_editMode = VisualMode, es_visualMode = OperationsKind, es_legacyValue = [],
            es_operations = [createDefaultOperation seed], es_jsonText = [], es_jsonError = None, es_operationSearch = [],
            es_selected = Some seed, es_expanded = [], es_dragged = None, es_dragOver = None, es_dragPosition = Before,
            es_template = js ''operations_default'', es_seed = seed + 1\<rparr> in
      if trimmed = [] then Some base
      else case json_parse trimmed of
        None \<Rightarrow> Some (base\<lparr>es_editMode := JsonMode, es_jsonText := rawValue, es_jsonError := Some InvalidJson\<rparr>)
      | Some parsed \<Rightarrow>
          (let pretty = json_pretty nt parsed in
           case operationItems parsed of
             Some xs \<Rightarrow>
               map_option (\<lambda>(ops, seed1). base\<lparr>es_operations := ops, es_jsonText := pretty, es_selected := first_id ops,
                 es_seed := seed1\<rparr>) (readOperations nt xs seed)
           | None \<Rightarrow>
               if is_plain_object parsed
               then Some (base\<lparr>es_visualMode := LegacyKind, es_legacyValue := pretty, es_jsonText := pretty,
                 es_template := js ''legacy_default''\<rparr>)
               else Some (base\<lparr>es_editMode := JsonMode, es_jsonText := pretty\<rparr>)))"

text \<open>The effect that keeps the selection valid.\<close>

definition keepSelected :: "EditorState \<Rightarrow> EditorState" where
  "keepSelected st =
     (if es_operations st = [] then st\<lparr>es_selected := None\<rparr>
      else if \<not> list_ex (\<lambda>x. Some (op_id x) = es_selected st) (es_operations st)
      then st\<lparr>es_selected := first_id (es_operations st)\<rparr> else st)"

section \<open>Rules\<close>

datatype OperationPatch = SetDescription jsstr | SetPath jsstr | SetMode jsstr | SetFrom jsstr | SetTo jsstr | SetValueText jsstr
  | SetKeepOrigin bool | SetLogic jsstr

fun patchOperation :: "ParamOverrideOperation \<Rightarrow> OperationPatch \<Rightarrow> ParamOverrideOperation" where
  "patchOperation x (SetDescription s) = x\<lparr>op_description := s\<rparr>"
| "patchOperation x (SetPath s) = x\<lparr>op_path := s\<rparr>"
| "patchOperation x (SetMode s) = x\<lparr>op_mode := s\<rparr>"
| "patchOperation x (SetFrom s) = x\<lparr>op_from := s\<rparr>"
| "patchOperation x (SetTo s) = x\<lparr>op_to := s\<rparr>"
| "patchOperation x (SetValueText s) = x\<lparr>op_value_text := s\<rparr>"
| "patchOperation x (SetKeepOrigin b) = x\<lparr>op_keep_origin := b\<rparr>"
| "patchOperation x (SetLogic s) = x\<lparr>op_logic := s\<rparr>"

definition mapOperation :: "nat \<Rightarrow> (ParamOverrideOperation \<Rightarrow> ParamOverrideOperation) \<Rightarrow> EditorState \<Rightarrow> EditorState" where
  "mapOperation operationId f st =
     st\<lparr>es_operations := map (\<lambda>x. if op_id x = operationId then f x else x) (es_operations st)\<rparr>"

definition updateOperation :: "nat \<Rightarrow> OperationPatch list \<Rightarrow> EditorState \<Rightarrow> EditorState" where
  "updateOperation operationId patch st = mapOperation operationId (\<lambda>x. foldl patchOperation x patch) st"

definition addOperation :: "EditorState \<Rightarrow> EditorState" where
  "addOperation st = st\<lparr>es_operations := es_operations st @ [createDefaultOperation (es_seed st)],
     es_selected := Some (es_seed st), es_seed := es_seed st + 1\<rparr>"

definition conditionSource :: "ParamOverrideCondition \<Rightarrow> json" where
  "conditionSource c = JObj [(js ''path'', JStr (oc_path c)), (js ''mode'', JStr (oc_mode c)),
     (js ''value'', parseLooseValue (oc_value_text c)), (js ''invert'', JBool (oc_invert c)),
     (js ''pass_missing_key'', JBool (oc_pass_missing_key c))]"

definition operationSource :: "ParamOverrideOperation \<Rightarrow> json" where
  "operationSource x = JObj [(js ''description'', JStr (op_description x)), (js ''path'', JStr (op_path x)),
     (js ''mode'', JStr (op_mode x)), (js ''value'', parseLooseValue (op_value_text x)),
     (js ''keep_origin'', JBool (op_keep_origin x)), (js ''from'', JStr (op_from x)), (js ''to'', JStr (op_to x)),
     (js ''logic'', JStr (op_logic x)), (js ''conditions'', JArr (map conditionSource (op_conditions x)))]"

text \<open>
  The clone is selected when the update ran before the handler went on, which the framework
  does not promise (\<open>eager\<close>).
\<close>

definition duplicateOperation :: "(jsstr \<Rightarrow> jsstr) \<Rightarrow> bool \<Rightarrow> nat \<Rightarrow> EditorState \<Rightarrow> EditorState" where
  "duplicateOperation nt eager operationId st =
     (case find_index (\<lambda>x. op_id x = operationId) (es_operations st) of
        None \<Rightarrow> st
      | Some idx \<Rightarrow>
          (case normalizeOperation nt (operationSource (es_operations st ! idx)) (es_seed st) of
             None \<Rightarrow> st
           | Some (cloned, seed1) \<Rightarrow>
               st\<lparr>es_operations := take (idx + 1) (es_operations st) @ [cloned] @ drop (idx + 1) (es_operations st),
                 es_selected := (if eager then Some (op_id cloned) else es_selected st), es_seed := seed1\<rparr>))"

definition removeOperation :: "nat \<Rightarrow> EditorState \<Rightarrow> EditorState" where
  "removeOperation operationId st =
     (if length (es_operations st) \<le> 1
      then st\<lparr>es_operations := [createDefaultOperation (es_seed st)], es_seed := es_seed st + 1\<rparr>
      else st\<lparr>es_operations := filter (\<lambda>x. op_id x \<noteq> operationId) (es_operations st)\<rparr>)"

section \<open>Conditions\<close>

datatype ConditionPatch = SetConditionPath jsstr | SetConditionMode jsstr | SetConditionValue jsstr | SetInvert bool | SetPassMissing bool

fun patchCondition :: "ParamOverrideCondition \<Rightarrow> ConditionPatch \<Rightarrow> ParamOverrideCondition" where
  "patchCondition c (SetConditionPath s) = c\<lparr>oc_path := s\<rparr>"
| "patchCondition c (SetConditionMode s) = c\<lparr>oc_mode := s\<rparr>"
| "patchCondition c (SetConditionValue s) = c\<lparr>oc_value_text := s\<rparr>"
| "patchCondition c (SetInvert b) = c\<lparr>oc_invert := b\<rparr>"
| "patchCondition c (SetPassMissing b) = c\<lparr>oc_pass_missing_key := b\<rparr>"

definition addCondition :: "nat \<Rightarrow> EditorState \<Rightarrow> EditorState" where
  "addCondition operationId st =
     (let created = createDefaultCondition (es_seed st) in
      (mapOperation operationId (\<lambda>x. x\<lparr>op_conditions := op_conditions x @ [created]\<rparr>) st)
        \<lparr>es_expanded := AList.update (es_seed st) True (es_expanded st), es_seed := es_seed st + 1\<rparr>)"

definition updateCondition :: "nat \<Rightarrow> nat \<Rightarrow> ConditionPatch \<Rightarrow> EditorState \<Rightarrow> EditorState" where
  "updateCondition operationId conditionId patch st =
     mapOperation operationId (\<lambda>x. x\<lparr>op_conditions :=
       map (\<lambda>c. if oc_id c = conditionId then patchCondition c patch else c) (op_conditions x)\<rparr>) st"

definition removeCondition :: "nat \<Rightarrow> nat \<Rightarrow> EditorState \<Rightarrow> EditorState" where
  "removeCondition operationId conditionId st =
     mapOperation operationId (\<lambda>x. x\<lparr>op_conditions := filter (\<lambda>c. oc_id c \<noteq> conditionId) (op_conditions x)\<rparr>) st"

section \<open>Structured values\<close>

definition updateReturnErrorDraft :: "(jsstr \<Rightarrow> jsstr) \<Rightarrow> nat \<Rightarrow> (ReturnErrorDraft \<Rightarrow> ReturnErrorDraft) \<Rightarrow> EditorState \<Rightarrow> EditorState" where
  "updateReturnErrorDraft nt operationId patch st =
     mapOperation operationId (\<lambda>x. x\<lparr>op_value_text :=
       buildReturnErrorValueText nt (patch (parseReturnErrorDraft nt (op_value_text x)))\<rparr>) st"

text \<open>Parsing the draft takes identifiers for its rules; the updater may take more.\<close>

definition applyPruneUpdate :: "(jsstr \<Rightarrow> jsstr) \<Rightarrow> (PruneObjectsDraft \<Rightarrow> nat \<Rightarrow> PruneObjectsDraft \<times> nat) \<Rightarrow>
    ParamOverrideOperation \<Rightarrow> nat \<Rightarrow> ParamOverrideOperation \<times> nat" where
  "applyPruneUpdate nt updater x seed =
     (let (draft, seed1) = parsePruneObjectsDraft nt (op_value_text x) seed; (draft', seed2) = updater draft seed1 in
      (x\<lparr>op_value_text := buildPruneObjectsValueText nt draft'\<rparr>, seed2))"

fun updatePruneIn :: "(jsstr \<Rightarrow> jsstr) \<Rightarrow> nat \<Rightarrow> (PruneObjectsDraft \<Rightarrow> nat \<Rightarrow> PruneObjectsDraft \<times> nat) \<Rightarrow>
    ParamOverrideOperation list \<Rightarrow> nat \<Rightarrow> ParamOverrideOperation list \<times> nat" where
  "updatePruneIn nt operationId updater [] seed = ([], seed)"
| "updatePruneIn nt operationId updater (x # xs) seed =
     (if op_id x \<noteq> operationId then apfst ((#) x) (updatePruneIn nt operationId updater xs seed)
      else let (x', seed1) = applyPruneUpdate nt updater x seed in
        apfst ((#) x') (updatePruneIn nt operationId updater xs seed1))"

definition updatePruneObjectsDraft :: "(jsstr \<Rightarrow> jsstr) \<Rightarrow> nat \<Rightarrow> (PruneObjectsDraft \<Rightarrow> nat \<Rightarrow> PruneObjectsDraft \<times> nat) \<Rightarrow>
    EditorState \<Rightarrow> EditorState" where
  "updatePruneObjectsDraft nt operationId updater st =
     (let (ops, seed1) = updatePruneIn nt operationId updater (es_operations st) (es_seed st) in
      st\<lparr>es_operations := ops, es_seed := seed1\<rparr>)"

definition addPruneRule :: "(jsstr \<Rightarrow> jsstr) \<Rightarrow> nat \<Rightarrow> EditorState \<Rightarrow> EditorState" where
  "addPruneRule nt operationId st =
     updatePruneObjectsDraft nt operationId (\<lambda>draft seed.
       (draft\<lparr>pd_simpleMode := False, pd_rules := pd_rules draft @ [normalizePruneRule nt (JObj []) seed]\<rparr>, seed + 1)) st"

definition updatePruneRule :: "(jsstr \<Rightarrow> jsstr) \<Rightarrow> nat \<Rightarrow> nat \<Rightarrow> ConditionPatch \<Rightarrow> EditorState \<Rightarrow> EditorState" where
  "updatePruneRule nt operationId ruleId patch st =
     updatePruneObjectsDraft nt operationId (\<lambda>draft seed.
       (draft\<lparr>pd_rules := map (\<lambda>r. if oc_id r = ruleId then patchCondition r patch else r) (pd_rules draft)\<rparr>, seed)) st"

definition removePruneRule :: "(jsstr \<Rightarrow> jsstr) \<Rightarrow> nat \<Rightarrow> nat \<Rightarrow> EditorState \<Rightarrow> EditorState" where
  "removePruneRule nt operationId ruleId st =
     updatePruneObjectsDraft nt operationId (\<lambda>draft seed.
       (draft\<lparr>pd_rules := filter (\<lambda>r. oc_id r \<noteq> ruleId) (pd_rules draft)\<rparr>, seed)) st"

end
