(* ===== verification/Override_Screen.thy ===== *)
theory Override_Screen
  imports Override_Editor
begin

text \<open>
  The parameter override editor as a screen (\<open>param-override-editor-dialog.tsx\<close>): the
  templates, what is shown of the rules, dragging, the change between the visual and the JSON
  form, saving, and the relation of all steps. A handler that shows an error and stops gives
  \<open>Toast\<close>; one that throws gives \<open>Thrown\<close>; both leave the state as it was.
\<close>

section \<open>Templates\<close>

definition jobj :: "(string \<times> json) list \<Rightarrow> json" where
  "jobj m = JObj (map (\<lambda>(k, v). (js k, v)) m)"

definition jtext :: "string \<Rightarrow> json" where
  "jtext s = JStr (js s)"

definition conditionOf :: "string \<Rightarrow> string \<Rightarrow> string \<Rightarrow> json" where
  "conditionOf p m v = jobj [(''path'', jtext p), (''mode'', jtext m), (''value'', jtext v)]"

definition LEGACY_TEMPLATE :: "(jsstr \<times> json) list" where
  "LEGACY_TEMPLATE = [(js ''temperature'', JNum (js ''0'')), (js ''max_tokens'', JNum (js ''1000''))]"

definition OPERATION_TEMPLATE :: "json list" where
  "OPERATION_TEMPLATE =
     [jobj [(''description'', jtext ''Set default temperature for openai/* models.''), (''path'', jtext ''temperature''),
        (''mode'', jtext ''set''), (''value'', JNum (js ''0.7'')),
        (''conditions'', JArr [conditionOf ''model'' ''prefix'' ''openai/'']), (''logic'', jtext ''AND'')]]"

definition HEADER_PASSTHROUGH_TEMPLATE :: "json list" where
  "HEADER_PASSTHROUGH_TEMPLATE =
     [jobj [(''description'', jtext ''Pass through X-Request-Id header to upstream.''), (''mode'', jtext ''pass_headers''),
        (''value'', JArr [jtext ''X-Request-Id'']), (''keep_origin'', JBool True)]]"

definition GEMINI_IMAGE_4K_TEMPLATE :: "json list" where
  "GEMINI_IMAGE_4K_TEMPLATE =
     [jobj [(''description'', jtext ''Set imageSize to 4K when model contains gemini/image and ends with 4k.''),
        (''mode'', jtext ''set''), (''path'', jtext ''generationConfig.imageConfig.imageSize''), (''value'', jtext ''4K''),
        (''conditions'', JArr [conditionOf ''original_model'' ''contains'' ''gemini'', conditionOf ''original_model'' ''contains'' ''image'',
           conditionOf ''original_model'' ''suffix'' ''4k'']),
        (''logic'', jtext ''AND'')]]"

definition CODEX_CLI_HEADER_PASSTHROUGH_HEADERS :: "jsstr list" where
  "CODEX_CLI_HEADER_PASSTHROUGH_HEADERS = map js
     [''Originator'', ''Session_id'', ''Thread_id'', ''Session-Id'', ''Thread-Id'', ''X-Client-Request-Id'', ''User-Agent'',
      ''X-Codex-Beta-Features'', ''X-Codex-Turn-State'', ''X-Codex-Turn-Metadata'', ''X-Codex-Window-Id'',
      ''X-Codex-Parent-Thread-Id'', ''X-OpenAI-Subagent'', ''X-OpenAI-Memgen-Request'', ''X-ResponsesAPI-Include-Timing-Metrics'',
      ''X-OpenAI-Internal-Codex-Responses-Lite'']"

definition CLAUDE_CLI_HEADER_PASSTHROUGH_HEADERS :: "jsstr list" where
  "CLAUDE_CLI_HEADER_PASSTHROUGH_HEADERS = map js
     [''X-Stainless-Arch'', ''X-Stainless-Lang'', ''X-Stainless-Os'', ''X-Stainless-Package-Version'', ''X-Stainless-Retry-Count'',
      ''X-Stainless-Runtime'', ''X-Stainless-Runtime-Version'', ''X-Stainless-Timeout'', ''User-Agent'', ''X-App'',
      ''Anthropic-Beta'', ''Anthropic-Dangerous-Direct-Browser-Access'', ''Anthropic-Version'']"

definition buildPassHeadersTemplate :: "jsstr list \<Rightarrow> json list" where
  "buildPassHeadersTemplate headers =
     [jobj [(''mode'', jtext ''pass_headers''), (''value'', JArr (map JStr headers)), (''keep_origin'', JBool True)]]"

definition CODEX_CLI_HEADER_PASSTHROUGH_TEMPLATE :: "json list" where
  "CODEX_CLI_HEADER_PASSTHROUGH_TEMPLATE =
     [jobj [(''mode'', jtext ''pass_headers''), (''value'', JArr (map JStr CODEX_CLI_HEADER_PASSTHROUGH_HEADERS)),
        (''keep_origin'', JBool True)]]"

definition CLAUDE_CLI_HEADER_PASSTHROUGH_TEMPLATE :: "json list" where
  "CLAUDE_CLI_HEADER_PASSTHROUGH_TEMPLATE = buildPassHeadersTemplate CLAUDE_CLI_HEADER_PASSTHROUGH_HEADERS"

definition AWS_BEDROCK_ANTHROPIC_COMPAT_TEMPLATE :: "json list" where
  "AWS_BEDROCK_ANTHROPIC_COMPAT_TEMPLATE =
     [jobj [(''description'', jtext ''Normalize anthropic-beta header tokens for Bedrock compatibility.''),
        (''mode'', jtext ''set_header''), (''path'', jtext ''anthropic-beta''),
        (''value'', jobj
          [(''advanced-tool-use-2025-11-20'', jtext ''tool-search-tool-2025-10-19''), (''bash_20241022'', JNull), (''bash_20250124'', JNull),
           (''code-execution-2025-08-25'', JNull), (''compact-2026-01-12'', jtext ''compact-2026-01-12''),
           (''computer-use-2025-01-24'', jtext ''computer-use-2025-01-24''), (''computer-use-2025-11-24'', jtext ''computer-use-2025-11-24''),
           (''context-1m-2025-08-07'', jtext ''context-1m-2025-08-07''),
           (''context-management-2025-06-27'', jtext ''context-management-2025-06-27''), (''effort-2025-11-24'', JNull),
           (''fast-mode-2026-02-01'', JNull), (''files-api-2025-04-14'', JNull), (''fine-grained-tool-streaming-2025-05-14'', JNull),
           (''interleaved-thinking-2025-05-14'', jtext ''interleaved-thinking-2025-05-14''), (''mcp-client-2025-11-20'', JNull),
           (''mcp-client-2025-04-04'', JNull), (''mcp-servers-2025-12-04'', JNull), (''output-128k-2025-02-19'', JNull),
           (''structured-output-2024-03-01'', JNull), (''prompt-caching-scope-2026-01-05'', JNull), (''skills-2025-10-02'', JNull),
           (''structured-outputs-2025-11-13'', JNull), (''text_editor_20241022'', JNull), (''text_editor_20250124'', JNull),
           (''token-efficient-tools-2025-02-19'', JNull), (''tool-search-tool-2025-10-19'', jtext ''tool-search-tool-2025-10-19''),
           (''web-fetch-2025-09-10'', JNull), (''web-search-2025-03-05'', JNull), (''oauth-2025-04-20'', JNull)])],
      jobj [(''description'', jtext ''Remove all tools[*].custom.input_examples before upstream relay.''), (''mode'', jtext ''delete''),
        (''path'', jtext ''tools.*.custom.input_examples'')]]"

datatype TemplatePreset = OperationsPreset "json list" | LegacyPreset "(jsstr \<times> json) list"

definition TEMPLATE_PRESET_CONFIG :: "(jsstr \<times> TemplatePreset) list" where
  "TEMPLATE_PRESET_CONFIG = map (\<lambda>(k, v). (js k, v))
     [(''operations_default'', OperationsPreset OPERATION_TEMPLATE), (''legacy_default'', LegacyPreset LEGACY_TEMPLATE),
      (''pass_headers_auth'', OperationsPreset HEADER_PASSTHROUGH_TEMPLATE), (''gemini_image_4k'', OperationsPreset GEMINI_IMAGE_4K_TEMPLATE),
      (''claude_cli_headers_passthrough'', OperationsPreset CLAUDE_CLI_HEADER_PASSTHROUGH_TEMPLATE),
      (''codex_cli_headers_passthrough'', OperationsPreset CODEX_CLI_HEADER_PASSTHROUGH_TEMPLATE),
      (''aws_bedrock_anthropic_beta_override'', OperationsPreset AWS_BEDROCK_ANTHROPIC_COMPAT_TEMPLATE)]"

section \<open>What is shown\<close>

definition operationCount :: "EditorState \<Rightarrow> nat" where
  "operationCount st = length (filter (\<lambda>x. \<not> isOperationBlank x) (es_operations st))"

text \<open>\<open>lower\<close> is \<open>toLowerCase\<close>.\<close>

definition filteredOperations :: "(jsstr \<Rightarrow> jsstr) \<Rightarrow> EditorState \<Rightarrow> ParamOverrideOperation list" where
  "filteredOperations lower st =
     (let keyword = lower (trim (es_operationSearch st)) in
      if keyword = [] then es_operations st
      else filter (\<lambda>x. str_includes (lower (join [32] (filter (\<lambda>s. s \<noteq> [])
        [op_description x, op_mode x, op_path x, op_from x, op_to x, op_value_text x]))) keyword) (es_operations st))"

definition selectedOperation :: "EditorState \<Rightarrow> ParamOverrideOperation option" where
  "selectedOperation st = List.find (\<lambda>x. Some (op_id x) = es_selected st) (es_operations st)"

definition selectedOperationIndex :: "EditorState \<Rightarrow> nat option" where
  "selectedOperationIndex st = find_index (\<lambda>x. Some (op_id x) = es_selected st) (es_operations st)"

text \<open>The drafts shown for the selected rule. Rendering the prune rules takes identifiers.\<close>

definition returnErrorDraft :: "(jsstr \<Rightarrow> jsstr) \<Rightarrow> EditorState \<Rightarrow> ReturnErrorDraft option" where
  "returnErrorDraft nt st =
     (case selectedOperation st of
        Some x \<Rightarrow> if op_mode x = js ''return_error'' then Some (parseReturnErrorDraft nt (op_value_text x)) else None
      | None \<Rightarrow> None)"

definition pruneObjectsDraft :: "(jsstr \<Rightarrow> jsstr) \<Rightarrow> EditorState \<Rightarrow> (PruneObjectsDraft \<times> nat) option" where
  "pruneObjectsDraft nt st =
     (case selectedOperation st of
        Some x \<Rightarrow> if op_mode x = js ''prune_objects'' then Some (parsePruneObjectsDraft nt (op_value_text x) (es_seed st)) else None
      | None \<Rightarrow> None)"

definition modeCounts :: "ParamOverrideOperation list \<Rightarrow> (jsstr \<times> int) list" where
  "modeCounts ops = foldl (\<lambda>counts x. upsert (opMode x) 0 (\<lambda>n. n + 1) counts) [] ops"

definition topOperationModes :: "EditorState \<Rightarrow> (jsstr \<times> int) list" where
  "topOperationModes st = take 4 (js_sort (\<lambda>a b. snd b - snd a) (js_entries (modeCounts (es_operations st))))"

section \<open>Dragging\<close>

definition resetDragState :: "EditorState \<Rightarrow> EditorState" where
  "resetDragState st = st\<lparr>es_dragged := None, es_dragOver := None, es_dragPosition := Before\<rparr>"

definition handleDragStart :: "nat \<Rightarrow> EditorState \<Rightarrow> EditorState" where
  "handleDragStart operationId st = st\<lparr>es_dragged := Some operationId, es_selected := Some operationId\<rparr>"

text \<open>\<open>lower_half\<close>: the pointer is below the middle of the row.\<close>

definition handleDragOver :: "nat \<Rightarrow> bool \<Rightarrow> EditorState \<Rightarrow> EditorState" where
  "handleDragOver operationId lower_half st =
     (if es_dragged st = None \<or> es_dragged st = Some operationId then st
      else st\<lparr>es_dragOver := Some operationId, es_dragPosition := (if lower_half then After else Before)\<rparr>)"

text \<open>\<open>transferred\<close>: the identifier the drag carries.\<close>

definition handleDrop :: "nat \<Rightarrow> nat option \<Rightarrow> EditorState \<Rightarrow> EditorState" where
  "handleDrop operationId transferred st =
     (let sourceId = (if es_dragged st = None then transferred else es_dragged st);
          position = (if es_dragOver st = Some operationId then es_dragPosition st else Before) in
      resetDragState
        (if sourceId \<noteq> None \<and> sourceId \<noteq> Some operationId
         then st\<lparr>es_operations := reorderOperations (es_operations st) sourceId (Some operationId) position, es_selected := sourceId\<rparr>
         else st))"

section \<open>The two forms\<close>

datatype 'a outcome = Toast EditorError | Thrown | Done 'a

definition buildVisualJson :: "(jsstr \<Rightarrow> jsstr) \<Rightarrow> EditorState \<Rightarrow> EditorError + jsstr" where
  "buildVisualJson nt st =
     (case es_visualMode st of
        LegacyKind \<Rightarrow>
          (let trimmed = trim (es_legacyValue st) in
           if trimmed = [] then Inr []
           else case json_parse trimmed of
             None \<Rightarrow> Inl MustBeValidJson
           | Some parsed \<Rightarrow> if is_plain_object parsed then Inr (json_pretty nt parsed) else Inl LegacyNotObject)
      | OperationsKind \<Rightarrow>
          (case buildOperationsJson nt True (es_operations st) of Inl (e, line) \<Rightarrow> Inl (RuleProblem e line) | Inr s \<Rightarrow> Inr s))"

definition unvalidatedJson :: "(jsstr \<Rightarrow> jsstr) \<Rightarrow> EditorState \<Rightarrow> jsstr" where
  "unvalidatedJson nt st =
     (case es_visualMode st of
        LegacyKind \<Rightarrow> es_legacyValue st
      | OperationsKind \<Rightarrow> (case buildOperationsJson nt False (es_operations st) of Inl _ \<Rightarrow> [] | Inr s \<Rightarrow> s))"

definition switchToJsonMode :: "(jsstr \<Rightarrow> jsstr) \<Rightarrow> EditorState \<Rightarrow> EditorState" where
  "switchToJsonMode nt st =
     (if es_editMode st = JsonMode then st
      else case buildVisualJson nt st of
        Inr s \<Rightarrow> st\<lparr>es_jsonText := s, es_jsonError := None, es_editMode := JsonMode\<rparr>
      | Inl e \<Rightarrow> st\<lparr>es_jsonText := unvalidatedJson nt st, es_jsonError := Some e, es_editMode := JsonMode\<rparr>)"

definition switchToVisualMode :: "(jsstr \<Rightarrow> jsstr) \<Rightarrow> EditorState \<Rightarrow> EditorState outcome" where
  "switchToVisualMode nt st =
     (if es_editMode st = VisualMode then Done st
      else
        let trimmed = trim (es_jsonText st); fallback = createDefaultOperation (es_seed st);
            shown = st\<lparr>es_visualMode := OperationsKind, es_operations := [fallback], es_selected := Some (op_id fallback),
              es_legacyValue := [], es_jsonError := None, es_editMode := VisualMode, es_seed := es_seed st + 1\<rparr> in
        if trimmed = [] then Done shown
        else case json_parse trimmed of
          None \<Rightarrow> Toast MustBeValidJson
        | Some parsed \<Rightarrow>
            (case operationItems parsed of
               Some xs \<Rightarrow>
                 (case readOperations nt xs (es_seed st) of
                    None \<Rightarrow> Thrown
                  | Some (nextOps, seed1) \<Rightarrow>
                      Done (shown\<lparr>es_operations := nextOps, es_selected := first_id nextOps, es_template := js ''operations_default'',
                        es_seed := seed1\<rparr>))
             | None \<Rightarrow>
                 if is_plain_object parsed
                 then Done (shown\<lparr>es_visualMode := LegacyKind, es_legacyValue := json_pretty nt parsed,
                   es_template := js ''legacy_default''\<rparr>)
                 else Toast NotAnObject))"

datatype FillMode = Fill | Append

text \<open>\<open>{...a, ...v}\<close>.\<close>

definition spread :: "(jsstr \<times> json) list \<Rightarrow> json \<Rightarrow> (jsstr \<times> json) list" where
  "spread m v = foldl (\<lambda>m (k, x). AList.update k x m) m (own_props v)"

definition fillLegacy :: "jsstr \<Rightarrow> EditorState \<Rightarrow> EditorState" where
  "fillLegacy s st = st\<lparr>es_visualMode := LegacyKind, es_legacyValue := s, es_operations := [createDefaultOperation (es_seed st)],
     es_jsonText := s, es_jsonError := None, es_editMode := VisualMode, es_seed := es_seed st + 1\<rparr>"

definition fillTemplate :: "(jsstr \<Rightarrow> jsstr) \<Rightarrow> FillMode \<Rightarrow> EditorState \<Rightarrow> EditorState outcome" where
  "fillTemplate nt mode st =
     (case (case map_of TEMPLATE_PRESET_CONFIG (es_template st) of Some p \<Rightarrow> p | None \<Rightarrow> OperationsPreset OPERATION_TEMPLATE) of
        LegacyPreset payload \<Rightarrow>
          if mode = Append \<and> es_visualMode st = LegacyKind then
            let trimmed = trim (es_legacyValue st) in
            if trimmed = [] then Done (fillLegacy (json_pretty nt (JObj payload)) st)
            else case json_parse trimmed of
              None \<Rightarrow> Toast CannotAppend
            | Some parsedCurrent \<Rightarrow> Done (fillLegacy (json_pretty nt (JObj (spread payload parsedCurrent))) st)
          else Done (fillLegacy (json_pretty nt (JObj payload)) st)
      | OperationsPreset operationsPayload \<Rightarrow>
          (case map_fresh (normalizeOperation nt) operationsPayload (es_seed st) of
             None \<Rightarrow> Thrown
           | Some (loaded, seed1) \<Rightarrow>
               let shown = st\<lparr>es_visualMode := OperationsKind, es_jsonError := None, es_editMode := VisualMode, es_seed := seed1\<rparr> in
               case mode of
                 Append \<Rightarrow>
                   (let existing = (if es_visualMode st = OperationsKind then filter (\<lambda>x. \<not> isOperationBlank x) (es_operations st) else []);
                        nextOps = existing @ loaded in
                    Done (shown\<lparr>es_operations := (if nextOps \<noteq> [] then nextOps else loaded),
                      es_selected := (if first_id nextOps \<noteq> None then first_id nextOps else first_id loaded),
                      es_legacyValue := [], es_jsonText := []\<rparr>))
               | Fill \<Rightarrow>
                   (let finalOps = (if loaded \<noteq> [] then loaded else [createDefaultOperation seed1]) in
                    Done (shown\<lparr>es_operations := finalOps, es_selected := first_id finalOps,
                      es_jsonText := json_pretty nt (JObj [(js ''operations'', JArr operationsPayload)]),
                      es_seed := (if loaded \<noteq> [] then seed1 else seed1 + 1)\<rparr>))))"

definition resetEditorState :: "EditorState \<Rightarrow> EditorState" where
  "resetEditorState st =
     st\<lparr>es_visualMode := OperationsKind, es_legacyValue := [], es_operations := [createDefaultOperation (es_seed st)],
       es_selected := Some (es_seed st), es_jsonText := [], es_jsonError := None, es_template := js ''operations_default'',
       es_editMode := VisualMode, es_seed := es_seed st + 1\<rparr>"

definition handleJsonChange :: "jsstr \<Rightarrow> EditorState \<Rightarrow> EditorState" where
  "handleJsonChange nextValue st =
     (let trimmed = trim nextValue in
      st\<lparr>es_jsonText := nextValue, es_jsonError := (if trimmed = [] \<or> verifyJSON trimmed then None else Some JsonFormat)\<rparr>)"

definition formatJson :: "(jsstr \<Rightarrow> jsstr) \<Rightarrow> EditorState \<Rightarrow> EditorState outcome" where
  "formatJson nt st =
     (let trimmed = trim (es_jsonText st) in
      if trimmed = [] then Done st
      else case json_parse trimmed of
        None \<Rightarrow> Toast MustBeValidJson
      | Some v \<Rightarrow> Done (st\<lparr>es_jsonText := json_pretty nt v, es_jsonError := None\<rparr>))"

definition visualValidationError :: "(jsstr \<Rightarrow> jsstr) \<Rightarrow> EditorState \<Rightarrow> EditorError option" where
  "visualValidationError nt st =
     (if es_editMode st \<noteq> VisualMode then None else case buildVisualJson nt st of Inr _ \<Rightarrow> None | Inl e \<Rightarrow> Some e)"

text \<open>The text handed to \<open>onSave\<close>, or the error shown.\<close>

definition handleSave :: "(jsstr \<Rightarrow> jsstr) \<Rightarrow> EditorState \<Rightarrow> EditorError + jsstr" where
  "handleSave nt st =
     (case es_editMode st of
        JsonMode \<Rightarrow>
          (let trimmed = trim (es_jsonText st) in
           if trimmed = [] then Inr []
           else case json_parse trimmed of None \<Rightarrow> Inl MustBeValidJson | Some v \<Rightarrow> Inr (json_pretty nt v))
      | VisualMode \<Rightarrow> buildVisualJson nt st)"

definition setAllConditions :: "bool \<Rightarrow> EditorState \<Rightarrow> EditorState" where
  "setAllConditions b st =
     (case selectedOperation st of
        None \<Rightarrow> st
      | Some x \<Rightarrow> st\<lparr>es_expanded := foldl (\<lambda>m c. AList.update (oc_id c) b m) (es_expanded st) (op_conditions x)\<rparr>)"

definition expandAllConditions :: "EditorState \<Rightarrow> EditorState" where
  "expandAllConditions st = setAllConditions True st"

definition collapseAllConditions :: "EditorState \<Rightarrow> EditorState" where
  "collapseAllConditions st = setAllConditions False st"

section \<open>Inputs of the rule editor\<close>

text \<open>The button that formats the value of a rule.\<close>

definition formatValueText :: "(jsstr \<Rightarrow> jsstr) \<Rightarrow> ParamOverrideOperation \<Rightarrow> EditorState \<Rightarrow> EditorState" where
  "formatValueText nt operation st =
     (case json_parse (op_value_text operation) of
        Some v \<Rightarrow> updateOperation (op_id operation) [SetValueText (json_pretty nt v)] st
      | None \<Rightarrow> st)"

text \<open>The selects and inputs of a sync rule.\<close>

definition syncFromType :: "ParamOverrideOperation \<Rightarrow> jsstr \<Rightarrow> EditorState \<Rightarrow> EditorState" where
  "syncFromType x v st = updateOperation (op_id x) [SetFrom (buildSyncTargetSpec v (st_key (parseSyncTargetSpec (op_from x))))] st"

definition syncFromKey :: "ParamOverrideOperation \<Rightarrow> jsstr \<Rightarrow> EditorState \<Rightarrow> EditorState" where
  "syncFromKey x v st = updateOperation (op_id x) [SetFrom (buildSyncTargetSpec (st_type (parseSyncTargetSpec (op_from x))) v)] st"

definition syncToType :: "ParamOverrideOperation \<Rightarrow> jsstr \<Rightarrow> EditorState \<Rightarrow> EditorState" where
  "syncToType x v st = updateOperation (op_id x) [SetTo (buildSyncTargetSpec v (st_key (parseSyncTargetSpec (op_to x))))] st"

definition syncToKey :: "ParamOverrideOperation \<Rightarrow> jsstr \<Rightarrow> EditorState \<Rightarrow> EditorState" where
  "syncToKey x v st = updateOperation (op_id x) [SetTo (buildSyncTargetSpec (st_type (parseSyncTargetSpec (op_to x))) v)] st"

text \<open>The modes and the logic come from the options of a select.\<close>

fun patch_offered :: "OperationPatch \<Rightarrow> bool" where
  "patch_offered (SetMode m) = (m \<in> set OPERATION_MODE_VALUES)"
| "patch_offered (SetLogic l) = (l \<in> {js ''AND'', js ''OR''})"
| "patch_offered _ = True"

fun condition_offered :: "ConditionPatch \<Rightarrow> bool" where
  "condition_offered (SetConditionMode m) = (m \<in> set CONDITION_MODE_VALUES)"
| "condition_offered _ = True"

section \<open>Steps\<close>

inductive editor_event :: "(jsstr \<Rightarrow> jsstr) \<Rightarrow> EditorState \<Rightarrow> EditorState \<Rightarrow> bool" for nt where
  reopen: "parseInitialState nt raw (es_seed st) = Some st' \<Longrightarrow> editor_event nt st st'"
| select: "editor_event nt st (st\<lparr>es_selected := Some i\<rparr>)"
| search: "editor_event nt st (st\<lparr>es_operationSearch := s\<rparr>)"
| legacy: "editor_event nt st (st\<lparr>es_legacyValue := s\<rparr>)"
| preset: "editor_event nt st (st\<lparr>es_template := s\<rparr>)"
| expand: "editor_event nt st (st\<lparr>es_expanded := AList.update i b (es_expanded st)\<rparr>)"
| renders: "es_seed st \<le> n \<Longrightarrow> editor_event nt st (st\<lparr>es_seed := n\<rparr>)"
| update: "list_all patch_offered ps \<Longrightarrow> editor_event nt st (updateOperation i ps st)"
| add: "editor_event nt st (addOperation st)"
| duplicate: "editor_event nt st (duplicateOperation nt eager i st)"
| remove: "editor_event nt st (removeOperation i st)"
| add_condition: "editor_event nt st (addCondition i st)"
| update_condition: "condition_offered p \<Longrightarrow> editor_event nt st (updateCondition i j p st)"
| remove_condition: "editor_event nt st (removeCondition i j st)"
| return_error: "editor_event nt st (updateReturnErrorDraft nt i f st)"
| prune_draft: "editor_event nt st (updatePruneObjectsDraft nt i (\<lambda>draft seed. (f draft, seed)) st)"
| add_prune: "editor_event nt st (addPruneRule nt i st)"
| update_prune: "editor_event nt st (updatePruneRule nt i j p st)"
| remove_prune: "editor_event nt st (removePruneRule nt i j st)"
| format_value: "editor_event nt st (formatValueText nt x st)"
| sync_from_type: "editor_event nt st (syncFromType x s st)"
| sync_from_key: "editor_event nt st (syncFromKey x s st)"
| sync_to_type: "editor_event nt st (syncToType x s st)"
| sync_to_key: "editor_event nt st (syncToKey x s st)"
| drag_start: "editor_event nt st (handleDragStart i st)"
| drag_over: "editor_event nt st (handleDragOver i b st)"
| drop_on: "editor_event nt st (handleDrop i transferred st)"
| drag_end: "editor_event nt st (resetDragState st)"
| to_json: "editor_event nt st (switchToJsonMode nt st)"
| to_visual: "switchToVisualMode nt st = Done st' \<Longrightarrow> editor_event nt st st'"
| fill: "fillTemplate nt mode st = Done st' \<Longrightarrow> editor_event nt st st'"
| reset: "editor_event nt st (resetEditorState st)"
| json_change: "es_editMode st = JsonMode \<Longrightarrow> editor_event nt st (handleJsonChange s st)"
| format_json: "es_editMode st = JsonMode \<Longrightarrow> formatJson nt st = Done st' \<Longrightarrow> editor_event nt st st'"
| expand_all: "editor_event nt st (expandAllConditions st)"
| collapse_all: "editor_event nt st (collapseAllConditions st)"

definition editor_init :: "(jsstr \<Rightarrow> jsstr) \<Rightarrow> EditorState \<Rightarrow> bool" where
  "editor_init nt st \<longleftrightarrow> (\<exists>raw seed. parseInitialState nt raw seed = Some st)"

definition editor_step :: "(jsstr \<Rightarrow> jsstr) \<Rightarrow> EditorState \<Rightarrow> EditorState \<Rightarrow> bool" where
  "editor_step nt st st' \<longleftrightarrow> (\<exists>st1. editor_event nt st st1 \<and> st' = keepSelected st1)"

end
