(* ===== verification/Override_Invariant.thy ===== *)
theory Override_Invariant
  imports Override_Screen
begin

text \<open>
  The invariant of the override editor: there is always a rule, the rules and their conditions
  have distinct identifiers below the counter and modes the editor offers, a rule is selected,
  and the JSON form shows no error only for a text that can be saved.
\<close>

section \<open>Fresh identifiers\<close>

text \<open>A reader that numbers what it reads from the counter, and a property of the results that a larger counter keeps.\<close>

locale fresh_reader =
  fixes f :: "'a \<Rightarrow> nat \<Rightarrow> ('b \<times> nat) option"
    and ident :: "'b \<Rightarrow> nat"
    and good :: "nat \<Rightarrow> 'b \<Rightarrow> bool"
  assumes reads: "f x s = Some (y, s1) \<Longrightarrow> ident y = s \<and> s < s1 \<and> good s1 y"
    and good_mono: "good s y \<Longrightarrow> s \<le> s1 \<Longrightarrow> good s1 y"
begin

lemma map_fresh_good:
  "map_fresh f xs s = Some (ys, s1) \<Longrightarrow>
   s \<le> s1 \<and> length ys = length xs \<and> list_all (good s1) ys \<and> distinct (map ident ys) \<and> list_all (\<lambda>y. s \<le> ident y \<and> ident y < s1) ys"
proof (induction xs arbitrary: s ys)
  case (Cons x xs)
  then obtain y t zs where y: "f x s = Some (y, t)" "map_fresh f xs t = Some (zs, s1)" "ys = y # zs"
    by (auto split: option.splits prod.splits)
  note IH = Cons.IH [OF y(2)] and r = reads [OF y(1)]
  have "ident y \<notin> set (map ident zs)" using IH r by (auto simp: list_all_iff)
  moreover have "list_all (\<lambda>y. s \<le> ident y \<and> ident y < s1) zs" using IH r by (auto simp: list_all_iff)
  ultimately show ?case using IH r y(3) good_mono [of t y s1] by simp
qed simp

end

definition condition_ok :: "nat \<Rightarrow> ParamOverrideCondition \<Rightarrow> bool" where
  "condition_ok seed c \<longleftrightarrow> oc_id c < seed \<and> oc_mode c \<in> set CONDITION_MODE_VALUES"

definition rule_ok :: "nat \<Rightarrow> ParamOverrideOperation \<Rightarrow> bool" where
  "rule_ok seed x \<longleftrightarrow> op_id x < seed \<and> op_mode x \<in> set OPERATION_MODE_VALUES \<and> op_logic x \<in> {js ''AND'', js ''OR''} \<and>
     distinct (map oc_id (op_conditions x)) \<and> list_all (condition_ok seed) (op_conditions x)"

lemma default_modes [simp]: "js ''set'' \<in> set OPERATION_MODE_VALUES" "js ''full'' \<in> set CONDITION_MODE_VALUES"
  by (simp_all add: OPERATION_MODE_VALUES_def OPERATION_MODE_OPTIONS_def CONDITION_MODE_VALUES_def)

lemma mode_prop_known: "js d \<in> set ms \<Longrightarrow> mode_prop v ms d \<in> set ms"
  by (auto simp: mode_prop_def split: option.splits json.splits)

lemma condition_ok_mono: "condition_ok s c \<Longrightarrow> s \<le> s1 \<Longrightarrow> condition_ok s1 c"
  by (simp add: condition_ok_def)

lemma rule_ok_mono: "rule_ok s x \<Longrightarrow> s \<le> s1 \<Longrightarrow> rule_ok s1 x"
  by (auto simp: rule_ok_def list_all_iff intro: condition_ok_mono)

interpretation condition_reader: fresh_reader "normalizeCondition nt" oc_id condition_ok for nt
  by unfold_locales
    (auto simp: normalizeCondition_def condition_ok_def mode_prop_known split: if_splits)

lemma normalizeOperation_ok:
  assumes "normalizeOperation nt v s = Some (x, s1)"
  shows "op_id x = s \<and> s < s1 \<and> rule_ok s1 x"
proof -
  obtain cs where cs: "map_fresh (normalizeCondition nt) (case get_prop v ''conditions'' of Some (JArr xs) \<Rightarrow> xs | _ \<Rightarrow> []) (s + 1) = Some (cs, s1)"
    and x: "op_id x = s" "op_mode x = mode_prop v OPERATION_MODE_VALUES ''set''" "op_conditions x = cs" "op_logic x \<in> {js ''AND'', js ''OR''}"
    using assms by (auto simp: normalizeOperation_def split: if_splits option.splits)
  from condition_reader.map_fresh_good [OF cs] x mode_prop_known [of "''set''" OPERATION_MODE_VALUES v] show ?thesis
    by (simp add: rule_ok_def)
qed

interpretation operation_reader: fresh_reader "normalizeOperation nt" op_id rule_ok for nt
  by unfold_locales (use normalizeOperation_ok rule_ok_mono in blast)+

lemma default_operation_ok [simp]: "rule_ok (Suc s) (createDefaultOperation s)" "op_id (createDefaultOperation s) = s"
  by (simp_all add: rule_ok_def createDefaultOperation_def)

lemma default_condition_ok [simp]: "condition_ok (Suc s) (createDefaultCondition s)" "oc_id (createDefaultCondition s) = s"
  by (simp_all add: condition_ok_def createDefaultCondition_def)

text \<open>Lists of rules.\<close>

definition rules_ok :: "nat \<Rightarrow> ParamOverrideOperation list \<Rightarrow> bool" where
  "rules_ok seed ops \<longleftrightarrow> ops \<noteq> [] \<and> distinct (map op_id ops) \<and> list_all (rule_ok seed) ops"

lemma rules_ok_mono: "rules_ok s ops \<Longrightarrow> s \<le> s1 \<Longrightarrow> rules_ok s1 ops"
  by (auto simp: rules_ok_def list_all_iff intro: rule_ok_mono)

lemma rules_ok_default [simp]: "rules_ok (Suc s) [createDefaultOperation s]"
  by (simp add: rules_ok_def)

lemma readOperations_ok: "readOperations nt xs s = Some (ops, s1) \<Longrightarrow> s \<le> s1 \<and> rules_ok s1 ops"
  using operation_reader.map_fresh_good [of nt xs s ops s1] by (auto simp: readOperations_def rules_ok_def split: if_splits)

lemma old_new_distinct:
  assumes "list_all (rule_ok s) ops" "list_all (\<lambda>y. s \<le> op_id y) new"
  shows "set (map op_id ops) \<inter> set (map op_id new) = {}"
  using assms by (force simp: list_all_iff rule_ok_def)

text \<open>An update that keeps the identifiers and the form of the rules.\<close>

lemma rules_ok_map:
  assumes "rules_ok s ops" "\<And>x. rule_ok s x \<Longrightarrow> rule_ok s1 (f x) \<and> op_id (f x) = op_id x"
  shows "rules_ok s1 (map f ops)"
proof -
  have m: "map (op_id \<circ> f) ops = map op_id ops" using assms by (auto simp: rules_ok_def list_all_iff)
  have "distinct (map (op_id \<circ> f) ops)" unfolding m using assms(1) by (simp add: rules_ok_def)
  then show ?thesis using assms by (auto simp: rules_ok_def list_all_iff)
qed

section \<open>The invariant\<close>

definition saveable :: "jsstr \<Rightarrow> bool" where
  "saveable s \<longleftrightarrow> trim s = [] \<or> json_parse (trim s) \<noteq> None"

definition form_ok :: "EditorState \<Rightarrow> bool" where
  "form_ok st \<longleftrightarrow> (if es_editMode st = VisualMode then es_jsonError st = None else es_jsonError st \<noteq> None \<or> saveable (es_jsonText st))"

definition editor_ok :: "EditorState \<Rightarrow> bool" where
  "editor_ok st \<longleftrightarrow> rules_ok (es_seed st) (es_operations st) \<and> form_ok st \<and>
     list_ex (\<lambda>x. Some (op_id x) = es_selected st) (es_operations st)"

definition content_ok :: "EditorState \<Rightarrow> bool" where
  "content_ok st \<longleftrightarrow> rules_ok (es_seed st) (es_operations st) \<and> form_ok st"

lemma keepSelected_ok: "content_ok st \<Longrightarrow> editor_ok (keepSelected st)"
  by (cases "es_operations st")
    (auto simp: content_ok_def editor_ok_def keepSelected_def form_ok_def rules_ok_def first_id_def list_ex_iff)

text \<open>What only touches the rules, and what touches neither them nor the form.\<close>

lemma content_ok_rules:
  assumes "content_ok st" "rules_ok (es_seed st') (es_operations st')" "es_editMode st' = es_editMode st" "es_jsonError st' = es_jsonError st"
    and "es_jsonText st' = es_jsonText st"
  shows "content_ok st'"
  using assms by (auto simp: content_ok_def form_ok_def split: if_splits)

lemma pretty_saveable:
  assumes "writes_numbers nt" "printable v"
  shows "saveable (json_pretty nt v)"
  using json_parse_trim [OF json_parse_stringify(2) [OF canon_printable [OF assms]]] by (simp add: saveable_def)

section \<open>Rules\<close>

lemma mapOperation_ok:
  assumes "content_ok st" "\<And>x. rule_ok (es_seed st) x \<Longrightarrow> rule_ok (es_seed st) (f x) \<and> op_id (f x) = op_id x"
  shows "content_ok (mapOperation i f st)"
  by (rule content_ok_rules [OF assms(1)])
    (use assms in \<open>auto simp: mapOperation_def content_ok_def intro!: rules_ok_map [where s = "es_seed st"]\<close>)

lemma patch_ok: "patch_offered p \<Longrightarrow> rule_ok s x \<Longrightarrow> rule_ok s (patchOperation x p) \<and> op_id (patchOperation x p) = op_id x"
  by (cases p) (auto simp: rule_ok_def)

lemma patches_ok:
  "list_all patch_offered ps \<Longrightarrow> rule_ok s x \<Longrightarrow> rule_ok s (foldl patchOperation x ps) \<and> op_id (foldl patchOperation x ps) = op_id x"
  by (induction ps arbitrary: x) (auto dest: patch_ok)

lemma updateOperation_ok: "content_ok st \<Longrightarrow> list_all patch_offered ps \<Longrightarrow> content_ok (updateOperation i ps st)"
  unfolding updateOperation_def by (rule mapOperation_ok) (auto dest: patches_ok)

lemma addOperation_ok: "content_ok st \<Longrightarrow> content_ok (addOperation st)"
  using old_new_distinct [of "es_seed st" "es_operations st" "[createDefaultOperation (es_seed st)]"]
  by (auto simp: content_ok_def form_ok_def addOperation_def rules_ok_def list_all_iff intro: rule_ok_mono)

lemma insert_rule_ok:
  assumes "rules_ok s ops" "rule_ok s1 x" "op_id x = s" "s < s1"
  shows "rules_ok s1 (take n ops @ [x] @ drop n ops)"
proof -
  have fresh: "s \<notin> set (map op_id ops)" using assms(1) by (auto simp: rules_ok_def list_all_iff rule_ok_def)
  have "distinct (map op_id (take n ops) @ map op_id (drop n ops))"
    using assms(1) unfolding map_append [symmetric] append_take_drop_id by (simp add: rules_ok_def)
  then have "distinct (map op_id (take n ops @ [x] @ drop n ops))"
    using fresh assms(3) by (auto dest: in_set_takeD in_set_dropD)
  moreover have "list_all (rule_ok s1) ops" using rules_ok_mono [OF assms(1), of s1] assms(4) by (simp add: rules_ok_def)
  ultimately show ?thesis using assms(2) by (auto simp: rules_ok_def list_all_iff dest: in_set_takeD in_set_dropD)
qed

lemma duplicateOperation_ok: "content_ok st \<Longrightarrow> content_ok (duplicateOperation nt eager i st)"
  using insert_rule_ok normalizeOperation_ok
  by (fastforce simp: duplicateOperation_def content_ok_def form_ok_def split: option.splits)

lemma removeOperation_ok:
  assumes "content_ok st"
  shows "content_ok (removeOperation i st)"
proof (cases "length (es_operations st) \<le> 1")
  case True
  then show ?thesis using assms by (auto simp: removeOperation_def content_ok_def form_ok_def)
next
  case False
  let ?ops = "filter (\<lambda>x. op_id x \<noteq> i) (es_operations st)"
  obtain a b r where ops: "es_operations st = a # b # r" using False by (cases "es_operations st" rule: list.exhaust; cases "tl (es_operations st)") auto
  then have "op_id a \<noteq> op_id b" using assms by (simp add: content_ok_def rules_ok_def)
  then have "?ops \<noteq> []" by (auto simp: ops)
  moreover have "distinct (map op_id ?ops)" using assms by (auto simp: content_ok_def rules_ok_def intro: distinct_map_filter)
  ultimately have "rules_ok (es_seed st) ?ops" using assms by (auto simp: content_ok_def rules_ok_def list_all_iff)
  with False assms show ?thesis by (auto simp: removeOperation_def content_ok_def form_ok_def split: if_splits)
qed

lemma reorder_mset:
  assumes "i < length xs"
  shows "mset (take k (take i xs @ drop (i + 1) xs) @ [xs ! i] @ drop k (take i xs @ drop (i + 1) xs)) = mset xs"
proof -
  let ?rest = "take i xs @ drop (i + 1) xs"
  have "mset (take k ?rest @ [xs ! i] @ drop k ?rest) = add_mset (xs ! i) (mset (take k ?rest @ drop k ?rest))"
    by (simp only: mset_append) simp
  also have "\<dots> = mset (take i xs @ [xs ! i] @ drop (i + 1) xs)" unfolding append_take_drop_id by simp
  finally show ?thesis using id_take_nth_drop [OF assms] by simp
qed

lemma mset_reorder: "mset (reorderOperations ops s t p) = mset ops"
proof (cases "find_index (\<lambda>x. Some (op_id x) = s) ops")
  case (Some i)
  let ?rest = "take i ops @ drop (i + 1) ops"
  have i: "i < length ops" using find_index_Some [OF Some] by simp
  show ?thesis
  proof (cases "s = None \<or> t = None \<or> s = t")
    case False
    show ?thesis
    proof (cases "find_index (\<lambda>x. Some (op_id x) = t) ?rest")
      case (Some k)
      then show ?thesis
        unfolding reorderOperations_def Let_def \<open>find_index _ ops = Some i\<close> option.case if_not_P [OF False] by (simp only: option.case reorder_mset [OF i])
    qed (simp add: reorderOperations_def Some)
  qed (auto simp: reorderOperations_def)
qed (simp add: reorderOperations_def)

lemma rules_ok_perm: "mset ops = mset ops' \<Longrightarrow> rules_ok s ops \<Longrightarrow> rules_ok s ops'"
  unfolding rules_ok_def list_all_iff
  by (metis mset_eq_setD mset_map mset_eq_imp_distinct_iff set_empty)

lemma handleDrop_ok: "content_ok st \<Longrightarrow> content_ok (handleDrop i tr st)"
  by (auto simp: handleDrop_def resetDragState_def Let_def content_ok_def form_ok_def
      intro: rules_ok_perm [OF mset_reorder [symmetric]] split: if_splits)

section \<open>Conditions\<close>

lemma with_conditions_ok:
  assumes "rule_ok s x" "distinct (map oc_id cs)" "list_all (condition_ok s1) cs" "s \<le> s1"
  shows "rule_ok s1 (x\<lparr>op_conditions := cs\<rparr>)"
  using assms by (auto simp: rule_ok_def)

lemma addCondition_ok:
  assumes "content_ok st"
  shows "content_ok (addCondition i st)"
proof -
  let ?s = "es_seed st"
  let ?f = "\<lambda>x. if op_id x = i then x\<lparr>op_conditions := op_conditions x @ [createDefaultCondition ?s]\<rparr> else x"
  have "rule_ok (Suc ?s) (?f x) \<and> op_id (?f x) = op_id x" if "rule_ok ?s x" for x
  proof -
    have "list_all (condition_ok (Suc ?s)) (op_conditions x)" using rule_ok_mono [OF that, of "Suc ?s"] by (simp add: rule_ok_def)
    moreover have "?s \<notin> oc_id ` set (op_conditions x)" using that by (auto simp: rule_ok_def list_all_iff condition_ok_def)
    ultimately show ?thesis
      using that rule_ok_mono [OF that, of "Suc ?s"] by (auto simp: rule_ok_def)
  qed
  then have "rules_ok (Suc ?s) (map ?f (es_operations st))"
    using assms by (intro rules_ok_map [where s = ?s]) (simp_all add: content_ok_def)
  with assms show ?thesis by (auto simp: addCondition_def mapOperation_def content_ok_def form_ok_def Let_def split: if_splits)
qed

lemma patchCondition_ok: "condition_offered p \<Longrightarrow> condition_ok s c \<Longrightarrow> condition_ok s (patchCondition c p) \<and> oc_id (patchCondition c p) = oc_id c"
  by (cases p) (auto simp: condition_ok_def)

lemma updateCondition_ok:
  assumes "content_ok st" "condition_offered p"
  shows "content_ok (updateCondition i j p st)"
  unfolding updateCondition_def
proof (rule mapOperation_ok [OF assms(1)])
  fix x
  let ?f = "\<lambda>c. if oc_id c = j then patchCondition c p else c"
  assume x: "rule_ok (es_seed st) x"
  then have m: "map (oc_id \<circ> ?f) (op_conditions x) = map oc_id (op_conditions x)"
    using patchCondition_ok [OF assms(2)] by (auto simp: rule_ok_def list_all_iff)
  have "distinct (map oc_id (map ?f (op_conditions x)))" unfolding map_map m using x by (simp add: rule_ok_def)
  moreover have "list_all (condition_ok (es_seed st)) (map ?f (op_conditions x))"
    using x patchCondition_ok [OF assms(2)] by (auto simp: rule_ok_def list_all_iff)
  ultimately show "rule_ok (es_seed st) (x\<lparr>op_conditions := map ?f (op_conditions x)\<rparr>) \<and>
      op_id (x\<lparr>op_conditions := map ?f (op_conditions x)\<rparr>) = op_id x"
    using with_conditions_ok [OF x] by simp
qed

lemma removeCondition_ok: "content_ok st \<Longrightarrow> content_ok (removeCondition i j st)"
  unfolding removeCondition_def
  by (rule mapOperation_ok) (auto simp: rule_ok_def list_all_iff distinct_map_filter)

section \<open>Structured values\<close>

lemma value_text_ok: "rule_ok s x \<Longrightarrow> rule_ok s (x\<lparr>op_value_text := v\<rparr>) \<and> op_id (x\<lparr>op_value_text := v\<rparr>) = op_id x"
  by (simp add: rule_ok_def)

lemma updateReturnErrorDraft_ok: "content_ok st \<Longrightarrow> content_ok (updateReturnErrorDraft nt i f st)"
  unfolding updateReturnErrorDraft_def by (rule mapOperation_ok) (simp_all add: value_text_ok)

text \<open>An updater of drafts takes identifiers from the counter and never gives any back.\<close>

definition takes_ids :: "(PruneObjectsDraft \<Rightarrow> nat \<Rightarrow> PruneObjectsDraft \<times> nat) \<Rightarrow> bool" where
  "takes_ids u \<longleftrightarrow> (\<forall>d s. s \<le> snd (u d s))"

lemma parsePrune_seed: "s \<le> snd (parsePruneObjectsDraft nt v s)"
  by (auto simp: parsePruneObjectsDraft_def Let_def split: option.splits json.splits)

lemma applyPrune_ok:
  assumes "takes_ids u"
  shows "s \<le> snd (applyPruneUpdate nt u x s) \<and> op_id (fst (applyPruneUpdate nt u x s)) = op_id x \<and>
    (rule_ok s1 x \<longrightarrow> rule_ok s1 (fst (applyPruneUpdate nt u x s)))"
proof -
  obtain d t where d: "parsePruneObjectsDraft nt (op_value_text x) s = (d, t)" by force
  obtain d' t' where d': "u d t = (d', t')" by force
  have "s \<le> t" using parsePrune_seed [of s nt "op_value_text x"] by (simp add: d)
  moreover have "t \<le> t'" using assms d' unfolding takes_ids_def by (metis snd_conv)
  ultimately show ?thesis by (simp add: applyPruneUpdate_def d d' value_text_ok)
qed

lemma updatePruneIn_ok:
  assumes "takes_ids u"
  shows "s \<le> snd (updatePruneIn nt i u ops s) \<and> map op_id (fst (updatePruneIn nt i u ops s)) = map op_id ops \<and>
    (list_all (rule_ok s1) ops \<longrightarrow> list_all (rule_ok s1) (fst (updatePruneIn nt i u ops s)))"
proof (induction ops arbitrary: s)
  case (Cons x ops)
  show ?case
  proof (cases "op_id x = i")
    case True
    obtain x' t where x': "applyPruneUpdate nt u x s = (x', t)" by force
    from applyPrune_ok [OF assms, of s nt x s1] x' Cons.IH [of t] True show ?thesis
      by (auto intro: order_trans)
  qed (use Cons.IH [of s] in auto)
qed simp

lemma updatePrune_ok:
  assumes "content_ok st" "takes_ids u"
  shows "content_ok (updatePruneObjectsDraft nt i u st)"
proof -
  obtain ops s1 where u: "updatePruneIn nt i u (es_operations st) (es_seed st) = (ops, s1)" by force
  note p = updatePruneIn_ok [OF assms(2), of "es_seed st" nt i "es_operations st" "es_seed st", unfolded u, simplified]
  have "rules_ok (es_seed st) ops" using p assms(1) by (metis content_ok_def rules_ok_def map_is_Nil_conv)
  then have "rules_ok s1 ops" by (rule rules_ok_mono) (use p in simp)
  with assms(1) show ?thesis by (auto simp: updatePruneObjectsDraft_def u content_ok_def form_ok_def split: if_splits)
qed

section \<open>Documents\<close>

lemma parseLooseValue_printable: "printable (parseLooseValue s)"
  by (auto simp: parseLooseValue_def Let_def intro: json_parse_printable split: option.splits)

lemma printable_assign: "printable (JObj m) \<Longrightarrow> printable v \<Longrightarrow> printable (JObj (assign_if b k v m))"
  by (simp add: assign_if_def printable_update del: printable.simps)

lemma condition_payload_printable: "buildConditionPayload c = Some v \<Longrightarrow> printable v"
  by (auto simp: buildConditionPayload_def Let_def parseLooseValue_printable intro!: printable_assign split: if_splits)
    (simp_all add: parseLooseValue_printable js_simps)

lemma operation_payload_printable: "printable (buildOperationPayload x)"
proof -
  have "list_all printable (List.map_filter buildConditionPayload (op_conditions x))"
    by (auto simp: List.map_filter_def list_all_iff dest: condition_payload_printable)
  then have c: "printable (JArr (List.map_filter buildConditionPayload (op_conditions x)))" by simp
  show ?thesis unfolding buildOperationPayload_def Let_def
    by (intro printable_assign c parseLooseValue_printable) simp_all
qed

lemma operationsDocument_printable: "printable (operationsDocument ops)"
  by (simp add: operationsDocument_def operation_payload_printable list_all_iff)

lemma buildVisualJson_saveable:
  assumes "writes_numbers nt" "buildVisualJson nt st = Inr s"
  shows "saveable s"
proof (cases "s = []")
  case False
  then obtain v where "printable v" "s = json_pretty nt v"
    using assms(2) operationsDocument_printable json_parse_printable [of "trim (es_legacyValue st)"]
    by (auto simp: buildVisualJson_def buildOperationsJson_def Let_def split: VisualKind.splits if_splits option.splits sum.splits)
  with assms(1) show ?thesis by (simp add: pretty_saveable)
qed (simp add: saveable_def)

section \<open>The two forms\<close>

lemma parseInitialState_ok:
  assumes "writes_numbers nt" "parseInitialState nt raw s = Some st"
  shows "content_ok st" "list_ex (\<lambda>x. Some (op_id x) = es_selected st) (es_operations st)" "s \<le> es_seed st"
proof -
  have pretty: "saveable (json_pretty nt v)" if "json_parse t = Some v" for v t
    by (rule pretty_saveable [OF assms(1) json_parse_printable [OF that]])
  have first: "list_ex (\<lambda>x. Some (op_id x) = first_id ops) ops" if "rules_ok s1 ops" for ops s1
    using that by (cases ops) (simp_all add: rules_ok_def first_id_def)
  show "content_ok st" "list_ex (\<lambda>x. Some (op_id x) = es_selected st) (es_operations st)" "s \<le> es_seed st"
    using assms(2) pretty first
    by (auto simp: parseInitialState_def Let_def content_ok_def form_ok_def dest!: readOperations_ok split: if_splits option.splits)
qed

lemma switchToJsonMode_ok: "writes_numbers nt \<Longrightarrow> content_ok st \<Longrightarrow> content_ok (switchToJsonMode nt st)"
  by (auto simp: switchToJsonMode_def content_ok_def form_ok_def dest: buildVisualJson_saveable split: sum.splits)

lemma switchToVisualMode_ok: "content_ok st \<Longrightarrow> switchToVisualMode nt st = Done st' \<Longrightarrow> content_ok st'"
  by (auto simp: switchToVisualMode_def Let_def content_ok_def form_ok_def dest!: readOperations_ok
      split: if_splits option.splits)

lemma fill_operations_ok:
  assumes "rules_ok s ops" "map_fresh (normalizeOperation nt) vs s = Some (new, s1)"
  shows "filter P ops @ new \<noteq> [] \<Longrightarrow> rules_ok s1 (filter P ops @ new)" "new \<noteq> [] \<Longrightarrow> rules_ok s1 new"
proof -
  note n = operation_reader.map_fresh_good [OF assms(2)]
  show "new \<noteq> [] \<Longrightarrow> rules_ok s1 new" using n by (simp add: rules_ok_def)
  have "set (map op_id (filter P ops)) \<inter> set (map op_id new) = {}"
    using assms(1) n by (intro old_new_distinct [where s = s]) (auto simp: rules_ok_def list_all_iff)
  moreover have "list_all (rule_ok s1) (filter P ops)"
    using rules_ok_mono [OF assms(1), of s1] n by (auto simp: rules_ok_def list_all_iff)
  moreover have "distinct (map op_id (filter P ops))" using assms(1) by (simp add: rules_ok_def distinct_map_filter)
  ultimately show "filter P ops @ new \<noteq> [] \<Longrightarrow> rules_ok s1 (filter P ops @ new)" using n by (auto simp: rules_ok_def)
qed

lemma presets_nonempty: "map_of TEMPLATE_PRESET_CONFIG k = Some (OperationsPreset vs) \<Longrightarrow> vs \<noteq> []" "OPERATION_TEMPLATE \<noteq> []"
  by (auto simp: TEMPLATE_PRESET_CONFIG_def OPERATION_TEMPLATE_def HEADER_PASSTHROUGH_TEMPLATE_def GEMINI_IMAGE_4K_TEMPLATE_def
      CLAUDE_CLI_HEADER_PASSTHROUGH_TEMPLATE_def CODEX_CLI_HEADER_PASSTHROUGH_TEMPLATE_def buildPassHeadersTemplate_def
      AWS_BEDROCK_ANTHROPIC_COMPAT_TEMPLATE_def split: if_splits)

lemma fillLegacy_ok: "content_ok (fillLegacy s st)"
  by (simp add: fillLegacy_def content_ok_def form_ok_def)

lemma fillTemplate_ok:
  assumes "content_ok st" "fillTemplate nt mode st = Done st'"
  shows "content_ok st'"
proof -
  define p where "p = (case map_of TEMPLATE_PRESET_CONFIG (es_template st) of Some p \<Rightarrow> p | None \<Rightarrow> OperationsPreset OPERATION_TEMPLATE)"
  show ?thesis
  proof (cases p)
    case (LegacyPreset m)
    then have "\<exists>s. st' = fillLegacy s st"
      using assms(2) unfolding fillTemplate_def p_def [symmetric] by (auto simp: Let_def split: if_splits option.splits)
    then show ?thesis using fillLegacy_ok by blast
  next
    case (OperationsPreset vs)
    then have "vs \<noteq> []" using presets_nonempty by (auto simp: p_def split: option.splits)
    from OperationsPreset obtain new s1 where new: "map_fresh (normalizeOperation nt) vs (es_seed st) = Some (new, s1)"
      using assms(2) unfolding fillTemplate_def p_def [symmetric] by (auto split: option.splits)
    have "new \<noteq> []" using operation_reader.map_fresh_good [OF new] \<open>vs \<noteq> []\<close> by auto
    moreover have "rules_ok (es_seed st) (es_operations st)" using assms(1) by (simp add: content_ok_def)
    note fill_operations_ok [OF this new]
    ultimately show ?thesis
      using assms(2) OperationsPreset unfolding fillTemplate_def p_def [symmetric]
      by (auto simp: new Let_def content_ok_def form_ok_def split: FillMode.splits if_splits)
  qed
qed

section \<open>Steps\<close>

lemma formatJson_ok:
  assumes "writes_numbers nt" "content_ok st" "formatJson nt st = Done st'"
  shows "content_ok st'"
proof -
  have "saveable (json_pretty nt v)" if "json_parse t = Some v" for v t
    by (rule pretty_saveable [OF assms(1) json_parse_printable [OF that]])
  then show ?thesis using assms(2,3) by (auto simp: formatJson_def Let_def content_ok_def form_ok_def split: if_splits option.splits)
qed

lemma handleJsonChange_ok: "content_ok st \<Longrightarrow> es_editMode st = JsonMode \<Longrightarrow> content_ok (handleJsonChange s st)"
  by (simp add: handleJsonChange_def Let_def content_ok_def form_ok_def saveable_def verifyJSON_def)

lemma prune_updaters [simp]: "takes_ids (\<lambda>draft seed. (f draft seed, seed))" "takes_ids (\<lambda>draft seed. (f draft seed, Suc seed))"
  by (simp_all add: takes_ids_def)

lemmas screen_defs = addPruneRule_def updatePruneRule_def removePruneRule_def formatValueText_def syncFromType_def syncFromKey_def
  syncToType_def syncToKey_def handleDragStart_def handleDragOver_def resetDragState_def expandAllConditions_def
  collapseAllConditions_def setAllConditions_def

text \<open>The fields the invariant does not read.\<close>

lemma content_ok_fields [simp]:
  "content_ok (st\<lparr>es_selected := i\<rparr>) = content_ok st" "content_ok (st\<lparr>es_operationSearch := s\<rparr>) = content_ok st"
  "content_ok (st\<lparr>es_legacyValue := s\<rparr>) = content_ok st" "content_ok (st\<lparr>es_template := s\<rparr>) = content_ok st"
  "content_ok (st\<lparr>es_expanded := m\<rparr>) = content_ok st" "content_ok (st\<lparr>es_dragged := i\<rparr>) = content_ok st"
  "content_ok (st\<lparr>es_dragOver := i\<rparr>) = content_ok st" "content_ok (st\<lparr>es_dragPosition := p\<rparr>) = content_ok st"
  by (simp_all add: content_ok_def form_ok_def)

lemma resetEditorState_ok: "content_ok (resetEditorState st)"
  by (simp add: resetEditorState_def content_ok_def form_ok_def)

lemma later_ids_ok: "content_ok st \<Longrightarrow> es_seed st \<le> n \<Longrightarrow> content_ok (st\<lparr>es_seed := n\<rparr>)"
  by (rule content_ok_rules) (auto simp: content_ok_def intro: rules_ok_mono)

lemmas handlers_ok = updateOperation_ok addOperation_ok duplicateOperation_ok removeOperation_ok addCondition_ok updateCondition_ok
  removeCondition_ok updateReturnErrorDraft_ok updatePrune_ok handleDrop_ok switchToJsonMode_ok resetEditorState_ok handleJsonChange_ok
  later_ids_ok

lemma event_ok:
  assumes "writes_numbers nt" "content_ok st" "editor_event nt st st'"
  shows "content_ok st'"
  using assms(3)
proof cases
  case (reopen raw)
  then show ?thesis by (rule parseInitialState_ok(1) [OF assms(1)])
next
  case to_visual
  with assms(2) show ?thesis by (rule switchToVisualMode_ok)
next
  case (fill mode)
  from assms(2) this show ?thesis by (rule fillTemplate_ok)
next
  case format_json
  from assms(1,2) this(2) show ?thesis by (rule formatJson_ok)
qed (simp_all add: screen_defs handlers_ok assms(1,2) split: option.splits)

lemma editor_init_ok: "writes_numbers nt \<Longrightarrow> editor_init nt st \<Longrightarrow> editor_ok st"
  using parseInitialState_ok [of nt _ _ st] unfolding editor_init_def editor_ok_def content_ok_def by blast

lemma editor_step_ok: "writes_numbers nt \<Longrightarrow> editor_ok st \<Longrightarrow> editor_step nt st st' \<Longrightarrow> editor_ok st'"
  using event_ok [of nt st] keepSelected_ok unfolding editor_step_def editor_ok_def content_ok_def by blast

interpretation override_editor: invariant_system "editor_init nt" "editor_step nt" "\<lambda>st. writes_numbers nt \<longrightarrow> editor_ok st" for nt
  by unfold_locales (use editor_init_ok editor_step_ok in blast)+

end
