(* ===== verification/Override_Roundtrip.thy ===== *)
theory Override_Roundtrip
  imports Override_Invariant
begin

text \<open>
  What the override editor saves and what it shows when the saved text is opened again.
\<close>

section \<open>Reading a written object\<close>

lemma map_of_js_entries: "distinct (map fst m) \<Longrightarrow> map_of (js_entries m) = map_of m"
  by (simp add: map_of_inject_set distinct_js_entries)

lemma get_prop_canon:
  assumes "distinct (map fst m)"
  shows "get_prop (json_canon nt (JObj m)) k = map_option (json_canon nt) (map_of m (js k))"
proof -
  let ?m = "map (\<lambda>(k, v). (k, json_canon nt v)) m"
  have "map fst ?m = map fst m" by auto
  then have "distinct (map fst ?m)" using assms by (simp only:)
  then show ?thesis by (simp add: get_prop_def map_of_js_entries map_of_map)
qed

lemma js_eq_iff: "js s = js t \<longleftrightarrow> s = t"
  by (auto simp: js_def inj_on_def dest: map_inj_on)

lemma map_of_assign_if: "map_of (assign_if b k v m) (js k') = (if b \<and> k' = k then Some v else map_of m (js k'))"
  by (auto simp: assign_if_def map_of_update js_eq_iff)

lemma distinct_assign_if [simp]: "distinct (map fst m) \<Longrightarrow> distinct (map fst (assign_if b k v m))"
  by (simp add: assign_if_def distinct_update)

lemma map_fresh_results:
  assumes "\<And>x s. x \<in> set xs \<Longrightarrow> \<exists>y s1. f x s = Some (y, s1) \<and> anon y = g x"
  shows "\<exists>ys s1. map_fresh f xs s = Some (ys, s1) \<and> map anon ys = map g xs"
  using assms
proof (induction xs arbitrary: s)
  case (Cons x xs)
  obtain y s1 where y: "f x s = Some (y, s1)" "anon y = g x" using Cons.prems [of x s] by auto
  obtain ys s2 where ys: "map_fresh f xs s1 = Some (ys, s2)" "map anon ys = map g xs" using Cons.IH [of s1] Cons.prems by auto
  from y ys show ?case by simp
qed simp

lemma map_fresh_map: "map_fresh f (map g xs) s = map_fresh (\<lambda>x. f (g x)) xs s"
  by (induction xs arbitrary: s) (simp_all split: option.splits)

section \<open>What is kept of a rule\<close>

definition anonCondition :: "ParamOverrideCondition \<Rightarrow> ParamOverrideCondition" where
  "anonCondition c = c\<lparr>oc_id := 0\<rparr>"

definition anonRule :: "ParamOverrideOperation \<Rightarrow> ParamOverrideOperation" where
  "anonRule x = x\<lparr>op_id := 0, op_conditions := map anonCondition (op_conditions x)\<rparr>"

text \<open>The text a value is shown as when it is read again.\<close>

definition kept_value :: "(jsstr \<Rightarrow> jsstr) \<Rightarrow> jsstr \<Rightarrow> jsstr" where
  "kept_value nt s = toValueText nt (Some (json_canon nt (parseLooseValue s)))"

definition kept_condition :: "(jsstr \<Rightarrow> jsstr) \<Rightarrow> ParamOverrideCondition \<Rightarrow> ParamOverrideCondition" where
  "kept_condition nt c = c\<lparr>oc_id := 0, oc_path := trim (oc_path c), oc_value_text := kept_value nt (oc_value_text c)\<rparr>"

definition kept_rule :: "(jsstr \<Rightarrow> jsstr) \<Rightarrow> ParamOverrideOperation \<Rightarrow> ParamOverrideOperation" where
  "kept_rule nt x =
     (let meta = modeMeta (op_mode x); path = trim (op_path x); from = trim (op_from x); to = trim (op_to x);
          conditions = map (kept_condition nt) (filter (\<lambda>c. trim (oc_path c) \<noteq> []) (op_conditions x)) in
      \<lparr>op_id = 0, op_description = trim (op_description x), op_path = (if mm_path meta \<or> mm_pathOptional meta then path else []),
       op_mode = op_mode x,
       op_from = (if \<not> mm_from meta then [] else if mm_pathAlias meta \<and> from = [] then path else from),
       op_to = (if mm_pathAlias meta \<and> to = [] then path else to),
       op_value_text = (if mm_value meta then kept_value nt (op_value_text x) else []),
       op_keep_origin = (mm_keepOrigin meta \<and> op_keep_origin x),
       op_logic = (if conditions = [] then js ''OR'' else op_logic x), op_conditions = conditions\<rparr>)"

section \<open>Conditions\<close>

lemma normalize_written_condition:
  assumes "trim (oc_path c) \<noteq> []" "oc_mode c \<in> set CONDITION_MODE_VALUES" "buildConditionPayload c = Some v"
  shows "\<exists>y s1. normalizeCondition nt (json_canon nt v) s = Some (y, s1) \<and> anonCondition y = kept_condition nt c"
proof -
  let ?m = "assign_if (oc_pass_missing_key c) ''pass_missing_key'' (JBool True) (assign_if (oc_invert c) ''invert'' (JBool True)
    [(js ''path'', JStr (trim (oc_path c))), (js ''mode'', JStr (oc_mode c)), (js ''value'', parseLooseValue (oc_value_text c))])"
  have "oc_mode c \<noteq> []" using assms(2) by (auto simp: CONDITION_MODE_VALUES_def js_simps)
  then have v: "v = JObj ?m" using assms(1,3) by (simp add: buildConditionPayload_def Let_def)
  have g: "get_prop (json_canon nt (JObj ?m)) k = map_option (json_canon nt) (map_of ?m (js k))" for k
    by (rule get_prop_canon) (intro distinct_assign_if, simp add: js_eq_iff)
  have "json_canon nt (JObj ?m) \<noteq> JNull" by simp
  then show ?thesis unfolding v normalizeCondition_def
    by (simp add: g text_prop_def mode_prop_def true_prop_def map_of_assign_if anonCondition_def kept_condition_def kept_value_def assms(2) js_eq_iff
        del: json_canon.simps(3))
qed

text \<open>The written conditions are those of \<open>f\<close> for the conditions with a path.\<close>

lemma written_payloads:
  "List.map_filter buildConditionPayload cs = map (the \<circ> buildConditionPayload) (filter (\<lambda>c. trim (oc_path c) \<noteq> []) cs)"
  by (induction cs) (auto simp: List.map_filter_simps buildConditionPayload_def Let_def)

lemma written_conditions:
  assumes "list_all (condition_ok s0) cs"
  shows "\<exists>ys s1. map_fresh (normalizeCondition nt) (map (json_canon nt) (List.map_filter buildConditionPayload cs)) s = Some (ys, s1) \<and>
    map anonCondition ys = map (kept_condition nt) (filter (\<lambda>c. trim (oc_path c) \<noteq> []) cs)"
proof -
  let ?cs = "filter (\<lambda>c. trim (oc_path c) \<noteq> []) cs"
  have "\<exists>ys s1. map_fresh (\<lambda>c. normalizeCondition nt (json_canon nt (the (buildConditionPayload c)))) ?cs s = Some (ys, s1) \<and>
      map anonCondition ys = map (kept_condition nt) ?cs"
  proof (rule map_fresh_results)
    fix c s
    assume c: "c \<in> set ?cs"
    then have "buildConditionPayload c = Some (the (buildConditionPayload c))" by (simp add: buildConditionPayload_def Let_def)
    with c assms show "\<exists>y s1. normalizeCondition nt (json_canon nt (the (buildConditionPayload c))) s = Some (y, s1) \<and>
        anonCondition y = kept_condition nt c"
      by (intro normalize_written_condition) (auto simp: list_all_iff condition_ok_def)
  qed
  then show ?thesis by (simp add: written_payloads comp_def map_fresh_map)
qed

section \<open>Rules\<close>

abbreviation payload_of :: "ParamOverrideOperation \<Rightarrow> payload" where
  "payload_of x \<equiv> (case buildOperationPayload x of JObj m \<Rightarrow> m | _ \<Rightarrow> [])"

lemma payload_distinct: "distinct (map fst (payload_of x))"
  using operation_payload_printable [of x] by (simp add: buildOperationPayload_def Let_def)

lemma known_mode: "op_mode x \<in> set OPERATION_MODE_VALUES \<Longrightarrow> opMode x = op_mode x"
  by (auto simp: opMode_def OPERATION_MODE_VALUES_def OPERATION_MODE_OPTIONS_def js_simps)

lemma meta_all: "list_all P (map snd MODE_META) \<Longrightarrow> P metaWrite \<Longrightarrow> P (modeMeta m)"
  by (force simp: modeMeta_def list_all_iff dest: map_of_SomeD split: option.splits)

lemmas meta_defs = metaPath_def metaWrite_def metaFromTo_def metaReplace_def metaPathValue_def metaHeader_def noMeta_def

lemma alias_modes: "mm_pathAlias (modeMeta m) \<longrightarrow> mm_from (modeMeta m) \<and> mm_to (modeMeta m)"
  by (rule meta_all) (simp_all add: MODE_META_def meta_defs)

lemma payload_props:
  fixes x
  defines "meta \<equiv> modeMeta (opMode x)" and "conditions \<equiv> List.map_filter buildConditionPayload (op_conditions x)"
  shows "map_of (payload_of x) (js ''mode'') = Some (JStr (opMode x))"
    "map_of (payload_of x) (js ''description'') = (if trim (op_description x) \<noteq> [] then Some (JStr (trim (op_description x))) else None)"
    "map_of (payload_of x) (js ''path'') =
       (if mm_path meta \<or> mm_pathOptional meta \<and> trim (op_path x) \<noteq> [] then Some (JStr (trim (op_path x))) else None)"
    "map_of (payload_of x) (js ''value'') = (if mm_value meta then Some (parseLooseValue (op_value_text x)) else None)"
    "map_of (payload_of x) (js ''keep_origin'') = (if mm_keepOrigin meta \<and> op_keep_origin x then Some (JBool True) else None)"
    "map_of (payload_of x) (js ''conditions'') = (if conditions \<noteq> [] then Some (JArr conditions) else None)"
    "map_of (payload_of x) (js ''logic'') =
       (if conditions \<noteq> [] then Some (JStr (if op_logic x = js ''AND'' then js ''AND'' else js ''OR'')) else None)"
    "map_of (payload_of x) (js ''from'') =
       (if mm_from meta then Some (JStr (if mm_pathAlias meta \<and> trim (op_from x) = [] then trim (op_path x) else trim (op_from x))) else None)"
    "map_of (payload_of x) (js ''to'') =
       (if mm_to meta then Some (JStr (if mm_pathAlias meta \<and> trim (op_to x) = [] then trim (op_path x) else trim (op_to x)))
        else if trim (op_to x) \<noteq> [] then Some (JStr (trim (op_to x))) else None)"
  using alias_modes [of "opMode x"]
  by (simp_all add: buildOperationPayload_def Let_def map_of_assign_if meta_def conditions_def js_eq_iff unset_prop_def is_truthy_def)

lemma upper_words: "ascii_upper (js ''AND'') = js ''AND''" "ascii_upper (js ''OR'') = js ''OR''"
  by (simp_all add: ascii_upper_def js_simps)

lemma normalize_written_rule:
  assumes "rule_ok s0 x"
  shows "\<exists>y s1. normalizeOperation nt (json_canon nt (buildOperationPayload x)) s = Some (y, s1) \<and> anonRule y = kept_rule nt x"
proof -
  have m: "opMode x = op_mode x" using assms by (simp add: rule_ok_def known_mode)
  let ?v = "json_canon nt (buildOperationPayload x)"
  let ?cs = "List.map_filter buildConditionPayload (op_conditions x)"
  have obj: "buildOperationPayload x = JObj (payload_of x)" by (simp add: buildOperationPayload_def Let_def)
  have g: "get_prop ?v k = map_option (json_canon nt) (map_of (payload_of x) (js k))" for k
    by (subst obj) (rule get_prop_canon [OF payload_distinct])
  obtain ys s1 where ys: "map_fresh (normalizeCondition nt) (map (json_canon nt) ?cs) (s + 1) = Some (ys, s1)"
    "map anonCondition ys = map (kept_condition nt) (filter (\<lambda>c. trim (oc_path c) \<noteq> []) (op_conditions x))"
    using written_conditions [of s0 "op_conditions x" nt "s + 1"] assms by (auto simp: rule_ok_def)
  have cs: "(case get_prop ?v ''conditions'' of Some (JArr xs) \<Rightarrow> xs | _ \<Rightarrow> []) = map (json_canon nt) ?cs"
    by (simp add: g payload_props)
  have "?v \<noteq> JNull" by (subst obj) simp
  have ne: "?cs = [] \<longleftrightarrow> filter (\<lambda>c. trim (oc_path c) \<noteq> []) (op_conditions x) = []"
    by (simp add: written_payloads)
  have logic: "(if word_prop nt ?v ''logic'' ''OR'' ''AND'' then js ''AND'' else js ''OR'') = (if ?cs = [] then js ''OR'' else op_logic x)"
    using assms by (auto simp: word_prop_def g payload_props is_truthy_def rule_ok_def upper_words js_eq_iff)
  have texts: "text_prop ?v ''description'' = trim (op_description x)"
    "text_prop ?v ''path'' = (if mm_path (modeMeta (op_mode x)) \<or> mm_pathOptional (modeMeta (op_mode x)) then trim (op_path x) else [])"
    by (simp_all add: text_prop_def g payload_props m)
  have ends: "text_prop ?v ''from'' = op_from (kept_rule nt x)" "text_prop ?v ''to'' = op_to (kept_rule nt x)"
    using alias_modes [of "op_mode x"] by (simp_all add: text_prop_def g payload_props m kept_rule_def Let_def)
  have rest: "mode_prop ?v OPERATION_MODE_VALUES ''set'' = op_mode x" "toValueText nt (get_prop ?v ''value'') = op_value_text (kept_rule nt x)"
    "true_prop ?v ''keep_origin'' = op_keep_origin (kept_rule nt x)"
    using assms by (simp_all add: mode_prop_def true_prop_def g payload_props m kept_rule_def kept_value_def rule_ok_def Let_def toValueText_def)
  show ?thesis
    unfolding normalizeOperation_def cs ys(1) if_not_P [OF \<open>?v \<noteq> JNull\<close>] option.case prod.case logic texts ends rest
    by (intro exI conjI, rule refl) (simp add: anonRule_def kept_rule_def ys(2) ne Let_def)
qed

section \<open>Opening what was saved\<close>

text \<open>A rule of which nothing is lost: trimmed texts, nothing in the fields its mode does not have, values in their written form.\<close>

definition clean_condition :: "(jsstr \<Rightarrow> jsstr) \<Rightarrow> ParamOverrideCondition \<Rightarrow> bool" where
  "clean_condition nt c \<longleftrightarrow> oc_path c \<noteq> [] \<and> trim (oc_path c) = oc_path c \<and> kept_value nt (oc_value_text c) = oc_value_text c"

definition clean_rule :: "(jsstr \<Rightarrow> jsstr) \<Rightarrow> ParamOverrideOperation \<Rightarrow> bool" where
  "clean_rule nt x \<longleftrightarrow>
     (let meta = modeMeta (op_mode x) in
      trim (op_description x) = op_description x \<and> trim (op_path x) = op_path x \<and> trim (op_from x) = op_from x \<and>
      trim (op_to x) = op_to x \<and> kept_value nt (op_value_text x) = op_value_text x \<and>
      (mm_path meta \<or> mm_pathOptional meta \<or> op_path x = []) \<and> (mm_from meta \<or> op_from x = []) \<and>
      (mm_value meta \<or> op_value_text x = []) \<and> (mm_keepOrigin meta \<or> \<not> op_keep_origin x) \<and>
      (op_conditions x \<noteq> [] \<or> op_logic x = js ''OR'') \<and> list_all (clean_condition nt) (op_conditions x))"

lemma alias_no_path: "mm_pathAlias (modeMeta m) \<longrightarrow> \<not> mm_path (modeMeta m) \<and> \<not> mm_pathOptional (modeMeta m)"
  by (rule meta_all) (simp_all add: MODE_META_def meta_defs)

lemma clean_conditions:
  "list_all (clean_condition nt) cs \<Longrightarrow> filter (\<lambda>c. trim (oc_path c) \<noteq> []) cs = cs \<and> map (kept_condition nt) cs = map anonCondition cs"
  by (induction cs) (auto simp: clean_condition_def kept_condition_def anonCondition_def)

lemma clean_kept:
  assumes "clean_rule nt x"
  shows "kept_rule nt x = anonRule x"
proof -
  note c = clean_conditions [of nt "op_conditions x"]
  show ?thesis
    using assms c alias_no_path [of "op_mode x"] unfolding kept_rule_def anonRule_def clean_rule_def
    by (cases x) (auto simp: Let_def)
qed

lemma reload_rules:
  assumes "writes_numbers nt" "list_all (rule_ok s0) ops" "buildOperationsJson nt validate ops = Inr s" "s \<noteq> []"
  shows "\<exists>st. parseInitialState nt s seed = Some st \<and> es_editMode st = VisualMode \<and> es_visualMode st = OperationsKind \<and>
    map anonRule (es_operations st) = map (kept_rule nt) (filter (\<lambda>x. \<not> isOperationBlank x) ops)"
proof -
  let ?ops = "filter (\<lambda>x. \<not> isOperationBlank x) ops"
  have ops: "?ops \<noteq> []" "s = json_pretty nt (operationsDocument ?ops)"
    using assms(3,4) by (auto simp: buildOperationsJson_def Let_def split: if_splits option.splits)
  have p: "json_parse (trim s) = Some (json_canon nt (operationsDocument ?ops))"
    unfolding ops(2) by (rule json_parse_trim [OF json_parse_stringify(2) [OF canon_printable [OF assms(1) operationsDocument_printable]]])
  have "trim s \<noteq> []" using p by (auto simp: json_parse_def)
  have items: "operationItems (json_canon nt (operationsDocument ?ops)) = Some (map (json_canon nt \<circ> buildOperationPayload) ?ops)"
    using get_prop_canon [of "[(js ''operations'', JArr (map buildOperationPayload ?ops))]" nt "''operations''"]
    by (simp add: operationItems_def operationsDocument_def get_prop_def)
  have "\<exists>ys s1. map_fresh (\<lambda>x. normalizeOperation nt ((json_canon nt \<circ> buildOperationPayload) x)) ?ops seed = Some (ys, s1) \<and>
      map anonRule ys = map (kept_rule nt) ?ops"
    by (rule map_fresh_results) (use assms(2) normalize_written_rule in \<open>fastforce simp: list_all_iff\<close>)
  then obtain ys s1 where ys: "map_fresh (normalizeOperation nt) (map (json_canon nt \<circ> buildOperationPayload) ?ops) seed = Some (ys, s1)"
    "map anonRule ys = map (kept_rule nt) ?ops"
    by (auto simp: map_fresh_map)
  have r: "readOperations nt (map (json_canon nt \<circ> buildOperationPayload) ?ops) seed = Some (ys, s1)"
    using ops(1) unfolding readOperations_def by (simp only: ys(1) map_is_Nil_conv if_False)
  show ?thesis using \<open>trim s \<noteq> []\<close> ys(2) by (simp add: parseInitialState_def Let_def p items r)
qed

end
