(* ===== verification/Override_Claims.thy ===== *)
theory Override_Claims
  imports Override_Roundtrip
begin

text \<open>
  The properties of the parameter override editor: its invariant, what saving gives and what
  is shown of it later, errors and their lines, the order of rules, and where the editor
  loses what was entered.
\<close>

lemma writes_id: "writes_numbers (\<lambda>n. n)"
  by (simp add: writes_numbers_def)

section \<open>The invariant\<close>

text \<open>
  C6: In every state the override editor can reach there is at least one rule, the rules
  have distinct identifiers below the counter, their modes and the modes of their conditions
  are known, one of the rules is selected; in the visual form no error of the JSON form is
  left, and in the JSON form a text without a shown error can be saved.
\<close>

theorem override_editor_invariant:
  assumes "writes_numbers nt" "reach (editor_init nt) (editor_step nt) st"
  shows "es_operations st \<noteq> [] \<and> distinct (map op_id (es_operations st)) \<and>
    list_all (\<lambda>x. op_id x < es_seed st \<and> op_mode x \<in> set OPERATION_MODE_VALUES \<and> op_logic x \<in> {js ''AND'', js ''OR''} \<and>
      distinct (map oc_id (op_conditions x)) \<and>
      list_all (\<lambda>c. oc_id c < es_seed st \<and> oc_mode c \<in> set CONDITION_MODE_VALUES) (op_conditions x)) (es_operations st) \<and>
    (\<exists>x. selectedOperation st = Some x \<and> x \<in> set (es_operations st)) \<and>
    (if es_editMode st = VisualMode then es_jsonError st = None
     else es_jsonError st \<noteq> None \<or> (\<exists>s. handleSave nt st = Inr s))"
proof -
  have ok: "editor_ok st" using override_editor.reach_inv [OF assms(2)] assms(1) by blast
  from ok obtain y where "y \<in> set (es_operations st)" "Some (op_id y) = es_selected st" by (auto simp: editor_ok_def list_ex_iff)
  then have "\<exists>x. selectedOperation st = Some x \<and> x \<in> set (es_operations st)"
    by (cases "selectedOperation st") (auto simp: selectedOperation_def find_None_iff find_Some_iff)
  moreover have "if es_editMode st = VisualMode then es_jsonError st = None else es_jsonError st \<noteq> None \<or> (\<exists>s. handleSave nt st = Inr s)"
    using ok by (auto simp: editor_ok_def form_ok_def saveable_def handleSave_def Let_def split: EditMode.splits)
  ultimately show ?thesis using ok
    by (auto simp: editor_ok_def rules_ok_def rule_ok_def condition_ok_def list_all_iff)
qed

definition witness_start :: EditorState where
  "witness_start = the (parseInitialState (\<lambda>n. n) [] 0)"

lemma witness_start_state:
  "parseInitialState (\<lambda>n. n) [] 0 = Some witness_start" "es_operations witness_start = [createDefaultOperation 0]" "es_seed witness_start = 1"
  by (simp_all add: witness_start_def parseInitialState_def)

theorem override_editor_invariant_witness:
  "\<exists>x. selectedOperation (keepSelected (addOperation witness_start)) = Some x"
proof -
  have "reach (editor_init (\<lambda>n. n)) (editor_step (\<lambda>n. n)) (keepSelected (addOperation witness_start))"
    by (rule reach_step [OF reach_init]) (auto simp: editor_init_def editor_step_def intro: witness_start_state(1) editor_event.add)
  from override_editor_invariant [OF writes_id this] show ?thesis by blast
qed

section \<open>Saving and opening again\<close>

text \<open>
  C7: What the editor saves from its rules and opens again shows exactly the non-blank rules,
  with trimmed texts, without the fields their mode does not have, a missing end of a header
  rule taken from its path, without the conditions that have no path, and with values in
  their written form (\<open>kept_rule\<close>); rules that are in that form already come back the same.
\<close>

theorem override_rules_roundtrip:
  assumes "writes_numbers nt" "list_all (rule_ok s0) ops" "buildOperationsJson nt True ops = Inr s" "s \<noteq> []"
  shows "\<exists>st. parseInitialState nt s seed = Some st \<and> es_editMode st = VisualMode \<and> es_visualMode st = OperationsKind \<and>
    map anonRule (es_operations st) = map (kept_rule nt) (filter (\<lambda>x. \<not> isOperationBlank x) ops) \<and>
    (list_all (clean_rule nt) ops \<longrightarrow> map anonRule (es_operations st) = map anonRule (filter (\<lambda>x. \<not> isOperationBlank x) ops))"
proof -
  have "map (kept_rule nt) xs = map anonRule xs" if "list_all (clean_rule nt) xs" for xs
    using that by (auto simp: list_all_iff clean_kept)
  moreover have "list_all P ops \<Longrightarrow> list_all P (filter Q ops)" for P Q by (simp add: list_all_iff)
  ultimately show ?thesis using reload_rules [OF assms, of seed] by metis
qed

definition witness_rule :: "nat \<Rightarrow> jsstr \<Rightarrow> jsstr \<Rightarrow> ParamOverrideOperation" where
  "witness_rule i p v = (createDefaultOperation i)\<lparr>op_path := p, op_value_text := v\<rparr>"

lemmas witness_defs = witness_rule_def createDefaultOperation_def isOperationBlank_def validateOperation_def opMode_def modeMeta_def
  MODE_META_def meta_defs FROM_REQUIRED_MODES_def TO_REQUIRED_MODES_def VALUE_REQUIRED_MODES_def

lemma witness_rule_valid:
  "trim p = p \<Longrightarrow> p \<noteq> [] \<Longrightarrow> \<not> isOperationBlank (witness_rule i p v) \<and> validateOperation nt (witness_rule i p v) = None"
  by (simp add: witness_defs js_eq_iff Let_def)

theorem override_rules_roundtrip_witness:
  "\<exists>st s. buildOperationsJson (\<lambda>n. n) True [witness_rule 0 (js ''stop'') []] = Inr s \<and> parseInitialState (\<lambda>n. n) s 5 = Some st \<and>
    map op_path (es_operations st) = [js ''stop'']"
proof -
  let ?x = "witness_rule 0 (js ''stop'') []"
  let ?s = "json_pretty (\<lambda>n. n) (operationsDocument [?x])"
  have t: "trim (js ''stop'') = js ''stop''" by (simp add: js_simps trim_def trim_left_def is_ws_def)
  have s: "buildOperationsJson (\<lambda>n. n) True [?x] = Inr ?s"
    using witness_rule_valid [OF t] by (simp add: buildOperationsJson_def validateOperations_def Let_def)
  have ok: "list_all (rule_ok 1) [?x]" by (simp add: witness_rule_def rule_ok_def createDefaultOperation_def)
  have ne: "?s \<noteq> []" by (simp add: json_pretty_def operationsDocument_def)
  from override_rules_roundtrip [OF writes_id ok s ne, of 5] obtain st where st: "parseInitialState (\<lambda>n. n) ?s 5 = Some st"
    "map anonRule (es_operations st) = map (kept_rule (\<lambda>n. n)) (filter (\<lambda>x. \<not> isOperationBlank x) [?x])" by blast
  then have "map op_path (map anonRule (es_operations st)) = [js ''stop'']"
    using witness_rule_valid [OF t] t by (simp add: kept_rule_def Let_def witness_defs js_eq_iff)
  then have "map op_path (es_operations st) = [js ''stop'']" by (simp add: anonRule_def comp_def)
  with s st(1) show ?thesis by (intro exI [of _ st] exI [of _ ?s] conjI)
qed

section \<open>Errors\<close>

lemma validateFrom_error:
  "validateFrom nt l xs = Some (e, line) \<longleftrightarrow>
   (\<exists>a x b. xs = a @ x # b \<and> list_all (\<lambda>y. validateOperation nt y = None) a \<and> validateOperation nt x = Some e \<and> line = l + length a)"
proof (induction xs arbitrary: l)
  case (Cons y ys)
  show ?case
  proof (cases "validateOperation nt y")
    case None
    have "validateFrom nt l (y # ys) = validateFrom nt (l + 1) ys" by (simp add: None)
    also have "\<dots> = Some (e, line) \<longleftrightarrow> (\<exists>a x b. ys = a @ x # b \<and> list_all (\<lambda>y. validateOperation nt y = None) a \<and>
        validateOperation nt x = Some e \<and> line = (l + 1) + length a)" by (rule Cons.IH)
    also have "\<dots> \<longleftrightarrow> (\<exists>a x b. y # ys = a @ x # b \<and> list_all (\<lambda>y. validateOperation nt y = None) a \<and>
        validateOperation nt x = Some e \<and> line = l + length a)" (is "?L \<longleftrightarrow> ?R")
    proof
      assume ?L
      then obtain a x b where "ys = a @ x # b" "list_all (\<lambda>y. validateOperation nt y = None) a" "validateOperation nt x = Some e"
        "line = (l + 1) + length a" by blast
      then show ?R using None by (intro exI [of _ "y # a"] exI [of _ x] exI [of _ b]) simp
    next
      assume ?R
      then obtain a x b where "y # ys = a @ x # b" "list_all (\<lambda>y. validateOperation nt y = None) a" "validateOperation nt x = Some e"
        "line = l + length a" by blast
      then show ?L using None by (cases a) auto
    qed
    finally show ?thesis .
  next
    case (Some e')
    then show ?thesis by (auto simp: Cons_eq_append_conv list_all_iff)
  qed
qed simp

lemma filter_append_split: "filter P xs = a @ w \<Longrightarrow> \<exists>u v. xs = u @ v \<and> filter P u = a \<and> filter P v = w"
proof (induction xs arbitrary: a)
  case (Cons y ys)
  show ?case
  proof (cases "a = []")
    case True
    with Cons.prems show ?thesis by (intro exI [of _ "[]"] exI [of _ "y # ys"]) simp
  next
    case False
    with Cons.prems have "\<exists>a'. filter P ys = a' @ w \<and> filter P [y] @ a' = a" by (cases a) (auto split: if_splits)
    then obtain a' u v where "filter P [y] @ a' = a" "ys = u @ v" "filter P u = a'" "filter P v = w" using Cons.IH by blast
    then show ?thesis by (intro exI [of _ "y # u"] exI [of _ v]) (auto split: if_splits)
  qed
qed simp

lemma filter_split:
  "filter P xs = a @ x # b \<longleftrightarrow> (\<exists>u v. xs = u @ x # v \<and> P x \<and> filter P u = a \<and> filter P v = b)"
proof
  assume "filter P xs = a @ x # b"
  then obtain u w where w: "xs = u @ w" "filter P u = a" "filter P w = x # b"
    using filter_append_split by blast
  from w(3) obtain u' v where "w = u' @ x # v" "filter P u' = []" "P x" "filter P v = b"
    by (auto simp: filter_eq_Cons_iff filter_empty_conv)
  with w show "\<exists>u v. xs = u @ x # v \<and> P x \<and> filter P u = a \<and> filter P v = b"
    by (intro exI [of _ "u @ u'"] exI [of _ v]) simp
qed auto

text \<open>
  The rules are refused exactly when one of the non-blank rules is not valid, with the
  problem of the first such rule; the line in the message is its place among the non-blank
  rules, so every blank rule before it makes the line smaller than the number the rule is
  listed under.
\<close>

lemma override_error_line:
  "buildOperationsJson nt True ops = Inl (e, line) \<longleftrightarrow>
    (\<exists>a x b. ops = a @ x # b \<and> \<not> isOperationBlank x \<and> validateOperation nt x = Some e \<and>
      list_all (\<lambda>y. isOperationBlank y \<or> validateOperation nt y = None) a \<and>
      line + length (filter isOperationBlank a) = length a + 1)"
proof -
  let ?ops = "filter (\<lambda>x. \<not> isOperationBlank x) ops"
  have n: "length (filter (\<lambda>y. \<not> isOperationBlank y) u) + length (filter isOperationBlank u) = length u" for u
    using sum_length_filter_compl [of isOperationBlank u] by simp
  have line: "line = 1 + length (filter (\<lambda>y. \<not> isOperationBlank y) u) \<longleftrightarrow> line + length (filter isOperationBlank u) = length u + 1" for u
    using n [of u] by arith
  have v: "list_all Q (filter (\<lambda>y. \<not> isOperationBlank y) u) = list_all (\<lambda>y. isOperationBlank y \<or> Q y) u" for Q u
    by (auto simp: list_all_iff)
  have "buildOperationsJson nt True ops = Inl (e, line) \<longleftrightarrow> validateFrom nt 1 ?ops = Some (e, line)"
    by (auto simp: buildOperationsJson_def validateOperations_def Let_def split: option.splits)
  also have "\<dots> \<longleftrightarrow> (\<exists>a x b u v. ops = u @ x # v \<and> \<not> isOperationBlank x \<and> filter (\<lambda>y. \<not> isOperationBlank y) u = a \<and>
      filter (\<lambda>y. \<not> isOperationBlank y) v = b \<and> list_all (\<lambda>y. validateOperation nt y = None) a \<and> validateOperation nt x = Some e \<and>
      line = 1 + length a)"
    unfolding validateFrom_error filter_split by blast
  also have "\<dots> \<longleftrightarrow> (\<exists>u x v. ops = u @ x # v \<and> \<not> isOperationBlank x \<and> validateOperation nt x = Some e \<and>
      list_all (\<lambda>y. isOperationBlank y \<or> validateOperation nt y = None) u \<and> line = 1 + length (filter (\<lambda>y. \<not> isOperationBlank y) u))"
    unfolding v [symmetric] by blast
  also have "\<dots> \<longleftrightarrow> (\<exists>a x b. ops = a @ x # b \<and> \<not> isOperationBlank x \<and> validateOperation nt x = Some e \<and>
      list_all (\<lambda>y. isOperationBlank y \<or> validateOperation nt y = None) a \<and> line + length (filter isOperationBlank a) = length a + 1)"
    unfolding line by (rule refl)
  finally show ?thesis .
qed

section \<open>Order\<close>

text \<open>
  C31: Dropping a rule on another one moves it next to that rule, before or after it, and
  leaves the order of all other rules unchanged.
\<close>

theorem override_reorder_exact:
  assumes "distinct (map op_id ops)" "moved \<in> set ops" "target \<in> set ops" "op_id moved \<noteq> op_id target"
  shows "\<exists>a b. filter (\<lambda>x. op_id x \<noteq> op_id moved) ops = a @ target # b \<and>
    reorderOperations ops (Some (op_id moved)) (Some (op_id target)) position =
      (case position of Before \<Rightarrow> a @ moved # target # b | After \<Rightarrow> a @ target # moved # b)"
proof -
  have split: "find_index (\<lambda>x. Some (op_id x) = Some i) (u @ y # v) = Some (length u)" if "op_id y = i" "i \<notin> op_id ` set u" for i u y v
    using that by (induction u) auto
  obtain u v where ops: "ops = u @ moved # v" using assms(2) by (meson split_list)
  have uv: "op_id moved \<notin> op_id ` set u" "op_id moved \<notin> op_id ` set v" using assms(1) by (auto simp: ops)
  have "filter (\<lambda>x. op_id x \<noteq> op_id moved) w = w" if "op_id moved \<notin> op_id ` set w" for w :: "ParamOverrideOperation list" using that by (induction w) auto
  then have rest: "filter (\<lambda>x. op_id x \<noteq> op_id moved) ops = u @ v" using uv by (simp add: ops)
  have "target \<in> set (u @ v)" using assms(3,4) ops by auto
  then obtain a b where ab: "u @ v = a @ target # b" by (meson split_list)
  have "distinct (map op_id (u @ v))" using assms(1) by (simp add: ops)
  then have t: "op_id target \<notin> op_id ` set a" unfolding ab by auto
  have src: "find_index (\<lambda>x. Some (op_id x) = Some (op_id moved)) ops = Some (length u)" unfolding ops by (rule split) (use uv in simp_all)
  have tgt: "find_index (\<lambda>x. Some (op_id x) = Some (op_id target)) (a @ target # b) = Some (length a)" by (rule split) (use t in simp_all)
  have cut: "take (length u) ops @ drop (length u + 1) ops = a @ target # b" "ops ! length u = moved" by (simp_all add: ops flip: ab)
  show ?thesis
    using assms(4) unfolding reorderOperations_def src option.case Let_def cut tgt rest ab
    by (intro exI [of _ a] exI [of _ b]) (auto split: DragPosition.splits)
qed

theorem override_reorder_exact_witness:
  "\<exists>a b. filter (\<lambda>x. op_id x \<noteq> 1) [createDefaultOperation 1, createDefaultOperation 2] = a @ createDefaultOperation 2 # b \<and>
    reorderOperations [createDefaultOperation 1, createDefaultOperation 2] (Some 1) (Some 2) After =
      a @ createDefaultOperation 2 # createDefaultOperation 1 # b"
  using override_reorder_exact [of "[createDefaultOperation 1, createDefaultOperation 2]" "createDefaultOperation 1" "createDefaultOperation 2" After]
  by (simp add: createDefaultOperation_def)

section \<open>Values\<close>

text \<open>A document with one rule that sets a field, and the rule it is read as.\<close>

definition set_document :: "jsstr \<Rightarrow> json \<Rightarrow> json" where
  "set_document p v = JObj [(js ''operations'', JArr [JObj [(js ''mode'', JStr (js ''set'')), (js ''path'', JStr p), (js ''value'', v)]])]"

lemma set_document_read:
  assumes "writes_numbers nt"
  shows "\<exists>st. parseInitialState nt (json_pretty nt (set_document p (JStr s))) seed = Some st \<and> es_editMode st = VisualMode \<and>
    es_visualMode st = OperationsKind \<and> es_operations st = [witness_rule seed p s]"
proof -
  let ?m = "[(js ''mode'', JStr (js ''set'')), (js ''path'', JStr p), (js ''value'', JStr s)]"
  let ?t = "json_pretty nt (set_document p (JStr s))"
  have d: "distinct (map fst ?m)" by (simp add: js_eq_iff)
  note g = get_prop_canon [OF d, of nt]
  have "printable (set_document p (JStr s))" by (simp add: set_document_def js_eq_iff)
  then have t: "json_parse (trim ?t) = Some (json_canon nt (set_document p (JStr s)))"
    by (rule json_parse_trim [OF json_parse_stringify(2) [OF canon_printable [OF assms]]])
  have items: "operationItems (json_canon nt (set_document p (JStr s))) = Some [json_canon nt (JObj ?m)]"
    using get_prop_canon [of "[(js ''operations'', JArr [JObj ?m])]" nt "''operations''"]
    by (simp add: operationItems_def set_document_def get_prop_def)
  have nn: "json_canon nt (JObj ?m) \<noteq> JNull" by simp
  have n: "normalizeOperation nt (json_canon nt (JObj ?m)) seed = Some (witness_rule seed p s, seed + 1)"
    using default_modes nn
    by (simp add: normalizeOperation_def g js_eq_iff text_prop_def mode_prop_def true_prop_def toValueText_def word_prop_def is_truthy_def
        upper_words witness_rule_def createDefaultOperation_def del: json_canon.simps(3))
  have "readOperations nt [json_canon nt (JObj ?m)] seed = Some ([witness_rule seed p s], seed + 1)"
    by (simp add: readOperations_def n del: json_canon.simps)
  moreover have "trim ?t \<noteq> []" using t by (auto simp: json_parse_def)
  ultimately show ?thesis by (simp add: parseInitialState_def Let_def t items del: json_canon.simps)
qed

text \<open>
  A string value whose text is JSON does not survive the editor: a rule that sets a
  field to such a string is opened and, without any edit, saved as a rule that sets the field
  to the value the text denotes.
\<close>

lemma override_string_values_retyped:
  assumes "writes_numbers nt" "trim p = p" "p \<noteq> []" "json_parse (trim s) = Some v"
  shows "\<exists>st. parseInitialState nt (json_pretty nt (set_document p (JStr s))) seed = Some st \<and>
    handleSave nt st = Inr (json_pretty nt (set_document p v))"
proof -
  obtain st where st: "parseInitialState nt (json_pretty nt (set_document p (JStr s))) seed = Some st" "es_editMode st = VisualMode"
    "es_visualMode st = OperationsKind" "es_operations st = [witness_rule seed p s]"
    using set_document_read [OF assms(1)] by blast
  have "trim s \<noteq> []" using assms(4) by (auto simp: json_parse_def)
  then have "parseLooseValue s = v" using assms(4) by (simp add: parseLooseValue_def Let_def)
  then have "operationsDocument [witness_rule seed p s] = set_document p v"
    using assms(2)
    by (simp add: operationsDocument_def set_document_def buildOperationPayload_def witness_rule_def createDefaultOperation_def opMode_def
        modeMeta_def MODE_META_def meta_defs js_eq_iff assign_if_def List.map_filter_simps Let_def)
  then have "handleSave nt st = Inr (json_pretty nt (set_document p v))"
    using witness_rule_valid [OF assms(2,3)]
    by (simp add: handleSave_def buildVisualJson_def st buildOperationsJson_def validateOperations_def Let_def)
  with st(1) show ?thesis by blast
qed

lemma override_string_values_retyped_witness:
  "\<exists>st. parseInitialState (\<lambda>n. n) (json_pretty (\<lambda>n. n) (set_document (js ''user'') (JStr (js ''true'')))) 0 = Some st \<and>
    handleSave (\<lambda>n. n) st = Inr (json_pretty (\<lambda>n. n) (set_document (js ''user'') (JBool True)))"
proof -
  have "trim (js ''user'') = js ''user''" "trim (js ''true'') = js ''true''" by (simp_all add: js_simps trim_def trim_left_def is_ws_def)
  moreover have "json_parse (js ''true'') = Some (JBool True)"
    using json_parse_print [of "JBool True" "[]" "[]"] by simp
  ultimately show ?thesis by (intro override_string_values_retyped) (simp_all add: writes_id)
qed

section \<open>Drafts\<close>

lemma number_of_show_nat: "number_of_string (show_nat n) = Fin (of_nat n)"
proof -
  obtain c r where s: "show_nat n = c # r" by (cases "show_nat n") simp_all
  have d: "\<forall>x \<in> set (c # r). is_digit x" using show_nat_digits [of n] by (simp add: s)
  then have tw: "takeWhile is_digit (c # r) = c # r" "dropWhile is_digit (c # r) = []" by (simp_all add: takeWhile_eq_all_conv)
  have "r = [] \<or> hd r \<notin> {120, 88, 111, 79, 98, 66}" using d by (cases r) (auto simp: is_digit_def)
  moreover have "c \<noteq> 45" "c \<noteq> 43" "c # r \<noteq> js ''Infinity''" using d by (auto simp: is_digit_def js_simps)
  moreover have "unsigned_decimal (c # r) = Some (of_nat n)"
    using tw parse_show_nat [of n] by (simp add: unsigned_decimal_def s)
  ultimately show ?thesis
    using trim_show_nat [of n] by (auto simp: number_of_string_def signed_decimal_def s Let_def)
qed

lemma show_nat_leading: "n \<noteq> 0 \<Longrightarrow> hd (show_nat n) \<noteq> 48"
proof (induction n rule: show_nat.induct)
  case (1 n)
  show ?case
  proof (cases "n < 10")
    case True
    with "1.prems" show ?thesis by (subst show_nat.simps) simp
  next
    case False
    then have "hd (show_nat (n div 10)) \<noteq> 48" using 1 by simp
    with False show ?thesis by (subst show_nat.simps) simp
  qed
qed

lemma json_show_nat: "json_number (show_nat n)"
proof -
  have d: "takeWhile is_digit (show_nat n) = show_nat n" "dropWhile is_digit (show_nat n) = []"
    using show_nat_digits by (simp_all add: takeWhile_eq_all_conv)
  have "hd (show_nat n) \<noteq> 45" using hd_show_nat [of n] by (auto simp: is_digit_def)
  moreover have "length (show_nat n) = 1 \<or> hd (show_nat n) \<noteq> 48"
    using show_nat_leading [of n] by (cases "n = 0") (simp_all add: show_nat.simps)
  ultimately show ?thesis by (simp add: json_number_def d Let_def show_nat_digits)
qed

text \<open>
  A custom error entered in the advanced form is shown again as it was entered: with
  trimmed texts and a status code from 100 to 599, reading the value text the editor writes
  gives the draft back.
\<close>

lemma return_error_draft_roundtrip:
  assumes "\<not> rd_simpleMode d" "trim (rd_message d) = rd_message d" "trim (rd_code d) = rd_code d" "trim (rd_type d) = rd_type d"
    and "100 \<le> rd_statusCode d" "rd_statusCode d \<le> 599" "nt (show_int (rd_statusCode d)) = show_int (rd_statusCode d)"
  shows "parseReturnErrorDraft nt (buildReturnErrorValueText nt d) = d"
proof -
  let ?m = "assign_if (\<not> rd_skipRetry d) ''skip_retry'' (JBool False) (assign_if (rd_type d \<noteq> []) ''type'' (JStr (rd_type d))
    (assign_if (rd_code d \<noteq> []) ''code'' (JStr (rd_code d)) [(js ''message'', JStr (rd_message d)), (js ''status_code'', JNum (show_int (rd_statusCode d)))]))"
  have b: "buildReturnErrorValueText nt d = json_stringify nt (JObj ?m)"
    using assms by (simp add: buildReturnErrorValueText_def Let_def statusInRange_def)
  have d: "distinct (map fst ?m)" by (intro distinct_assign_if) (simp add: js_eq_iff)
  obtain m where m: "json_canon nt (JObj ?m) = JObj m" by simp
  have g: "map_of m (js k) = map_option (json_canon nt) (map_of ?m (js k))" for k
    using get_prop_canon [OF d, of nt k] by (simp add: m get_prop_def del: json_canon.simps)
  have "printable (json_canon nt (JObj ?m))"
  proof -
    have "list_all (\<lambda>(k, v). printable (json_canon nt v)) ?m"
      using assms(5,7) json_show_nat by (simp add: assign_if_def list_all_iff show_int_def)
    then show ?thesis using distinct_js_entries [of "map (\<lambda>(k, v). (k, json_canon nt v)) ?m"] d
      by (auto simp: list_all_iff comp_def case_prod_unfold)
  qed
  from json_parse_trim [OF json_parse_stringify(1) [OF this]] have p: "json_parse (trim (json_stringify nt (JObj ?m))) = Some (JObj m)"
    by (simp only: m)
  have ne: "trim (json_stringify nt (JObj ?m)) \<noteq> []" using p by (auto simp: json_parse_def)
  have st: "statusOfNumber (number_of_string (show_int (rd_statusCode d))) = rd_statusCode d"
    using assms(5,6) by (simp add: show_int_def number_of_show_nat statusOfNumber_def statusInRange_def)
  show ?thesis
    using assms(1-4,7) st ne unfolding b parseReturnErrorDraft_def Let_def p option.case json.case if_not_P [OF ne]
    by (intro ReturnErrorDraft.equality) (simp_all add: g map_of_assign_if js_eq_iff trimmed_text_def is_truthy_def js_Number_def)
qed

definition witness_draft :: ReturnErrorDraft where
  "witness_draft = \<lparr>rd_message = js ''no'', rd_statusCode = 401, rd_code = [], rd_type = js ''auth'', rd_skipRetry = False, rd_simpleMode = False\<rparr>"

lemma return_error_draft_roundtrip_witness:
  "parseReturnErrorDraft (\<lambda>n. n) (buildReturnErrorValueText (\<lambda>n. n) witness_draft) = witness_draft"
  by (rule return_error_draft_roundtrip)
    (simp_all add: witness_draft_def js_simps trim_def trim_left_def is_ws_def show_int_def show_nat.simps json_number_def is_digit_def)

section \<open>Prune rules\<close>

lemma pruneRules_ids: "list_all (\<lambda>r. s \<le> oc_id r \<and> oc_id r < s + length vs) (pruneRules nt vs s)"
  by (induction vs arbitrary: s) (force simp: normalizePruneRule_def list_all_iff)+

lemma parsePrune_ids:
  "parsePruneObjectsDraft nt v s = (d, t) \<Longrightarrow> list_all (\<lambda>r. s \<le> oc_id r \<and> oc_id r < t) (pd_rules d)"
  using pruneRules_ids
  by (auto simp: parsePruneObjectsDraft_def defaultPrune_def Let_def split: if_splits option.splits json.splits)

text \<open>An updater that leaves every draft as it was read leaves the identity's result.\<close>

lemma updatePruneIn_cong:
  assumes "takes_ids u" "\<And>d t v s'. s \<le> s' \<Longrightarrow> parsePruneObjectsDraft nt v s' = (d, t) \<Longrightarrow> u d t = (d, t)"
  shows "updatePruneIn nt i u ops s = updatePruneIn nt i (\<lambda>d s. (d, s)) ops s"
  using assms(2)
proof (induction ops arbitrary: s)
  case (Cons x ops)
  obtain d t where d: "parsePruneObjectsDraft nt (op_value_text x) s = (d, t)" by force
  have "s \<le> t" using parsePrune_seed [of s nt "op_value_text x"] by (simp add: d)
  then have "updatePruneIn nt i u ops t = updatePruneIn nt i (\<lambda>d s. (d, s)) ops t"
    using Cons.IH [of t] Cons.prems by (meson order_trans)
  moreover have "u d t = (d, t)" by (rule Cons.prems [OF order_refl d])
  ultimately show ?case using Cons.IH [of s] Cons.prems d by (simp add: applyPruneUpdate_def)
qed simp

lemma old_rule_untouched:
  assumes "j < s" "s \<le> s'" "parsePruneObjectsDraft nt v s' = (d, t)"
  shows "map (\<lambda>r. if oc_id r = j then patchCondition r p else r) (pd_rules d) = pd_rules d" "filter (\<lambda>r. oc_id r \<noteq> j) (pd_rules d) = pd_rules d"
  using parsePrune_ids [OF assms(3)] assms(1,2) by (auto simp: list_all_iff filter_id_conv intro!: map_idI)

lemma updatePruneIn_other: "i \<notin> op_id ` set ops \<Longrightarrow> updatePruneIn nt i u ops s = (ops, s)"
  by (induction ops) auto

lemma updatePruneIn_distinct:
  "distinct (map op_id ops) \<Longrightarrow>
   fst (updatePruneIn nt i u ops s) = map (\<lambda>x. if op_id x = i then fst (applyPruneUpdate nt u x s) else x) ops"
proof (induction ops)
  case (Cons x ops)
  show ?case
  proof (cases "op_id x = i")
    case True
    then have "i \<notin> op_id ` set ops" using Cons.prems by auto
    moreover from this have "map (\<lambda>x. if op_id x = i then fst (applyPruneUpdate nt u x s) else x) ops = ops" by (intro map_idI) auto
    ultimately show ?thesis using True by (simp add: updatePruneIn_other case_prod_unfold Let_def)
  qed (use Cons in simp)
qed simp

lemma blank_rule_ignored:
  "buildPruneObjectsValueText nt (d\<lparr>pd_simpleMode := False, pd_rules := pd_rules d @ [normalizePruneRule nt (JObj []) k]\<rparr>) =
   buildPruneObjectsValueText nt (d\<lparr>pd_simpleMode := False\<rparr>)"
  by (simp add: buildPruneObjectsValueText_def normalizePruneRule_def text_prop_def get_prop_def Let_def)

text \<open>
  The conditions of a prune rule cannot be edited. They are shown with identifiers that
  every reading of the value gives anew, so changing or removing a shown condition writes the
  rules back as if nothing had been changed; and a new condition, which is blank, is dropped
  when the value is written, so adding one only leaves the simple form.
\<close>

lemma prune_conditions_not_editable:
  assumes "pruneObjectsDraft nt st = Some (d, n)" "r \<in> set (pd_rules d)" "distinct (map op_id (es_operations st))"
  shows "updatePruneRule nt i (oc_id r) p (st\<lparr>es_seed := n\<rparr>) = updatePruneObjectsDraft nt i (\<lambda>draft seed. (draft, seed)) (st\<lparr>es_seed := n\<rparr>) \<and>
    removePruneRule nt i (oc_id r) (st\<lparr>es_seed := n\<rparr>) = updatePruneObjectsDraft nt i (\<lambda>draft seed. (draft, seed)) (st\<lparr>es_seed := n\<rparr>) \<and>
    es_operations (addPruneRule nt i st) = es_operations (updatePruneObjectsDraft nt i (\<lambda>draft seed. (draft\<lparr>pd_simpleMode := False\<rparr>, seed)) st)"
proof -
  obtain v where "parsePruneObjectsDraft nt v (es_seed st) = (d, n)"
    using assms(1) by (auto simp: pruneObjectsDraft_def split: option.splits if_splits)
  then have j: "oc_id r < n" using parsePrune_ids assms(2) by (auto simp: list_all_iff)
  let ?up = "\<lambda>draft seed. (draft\<lparr>pd_rules := map (\<lambda>x. if oc_id x = oc_id r then patchCondition x p else x) (pd_rules draft)\<rparr>, seed)"
  let ?rm = "\<lambda>draft seed. (draft\<lparr>pd_rules := filter (\<lambda>x. oc_id x \<noteq> oc_id r) (pd_rules draft)\<rparr>, seed)"
  have "updatePruneIn nt i ?up (es_operations st) n = updatePruneIn nt i (\<lambda>d s. (d, s)) (es_operations st) n"
    by (rule updatePruneIn_cong) (use old_rule_untouched(1) [OF j] in \<open>simp_all\<close>)
  moreover have "updatePruneIn nt i ?rm (es_operations st) n = updatePruneIn nt i (\<lambda>d s. (d, s)) (es_operations st) n"
    by (rule updatePruneIn_cong) (use old_rule_untouched(2) [OF j] in \<open>simp_all\<close>)
  moreover have "fst (applyPruneUpdate nt (\<lambda>draft seed. (draft\<lparr>pd_simpleMode := False, pd_rules := pd_rules draft @ [normalizePruneRule nt (JObj []) seed]\<rparr>, seed + 1)) x s)
      = fst (applyPruneUpdate nt (\<lambda>draft seed. (draft\<lparr>pd_simpleMode := False\<rparr>, seed)) x s)" for x s
    by (simp add: applyPruneUpdate_def blank_rule_ignored case_prod_unfold Let_def)
  ultimately show ?thesis
    using updatePruneIn_distinct [OF assms(3)]
    by (simp add: updatePruneRule_def removePruneRule_def addPruneRule_def updatePruneObjectsDraft_def case_prod_unfold Let_def)
qed

definition witness_prune_value :: json where
  "witness_prune_value = JObj [(js ''conditions'', JArr [JObj []])]"

definition witness_prune :: EditorState where
  "witness_prune = witness_start\<lparr>es_operations := [(createDefaultOperation 0)\<lparr>op_mode := js ''prune_objects'',
     op_value_text := json_print [] [] witness_prune_value\<rparr>]\<rparr>"

lemma witness_prune_draft:
  "\<exists>d r. pruneObjectsDraft (\<lambda>n. n) witness_prune = Some (d, 2) \<and> pd_rules d = [r]"
proof -
  have "json_parse (json_print [] [] witness_prune_value) = Some witness_prune_value"
    by (rule json_parse_print) (simp_all add: witness_prune_value_def)
  then have p: "json_parse (trim (json_print [] [] witness_prune_value)) = Some witness_prune_value" by (rule json_parse_trim)
  have ne: "trim (json_print [] [] witness_prune_value) \<noteq> []" using p by (auto simp: json_parse_def)
  have v: "pruneRuleValues [(js ''conditions'', JArr [JObj []])] = [JObj []]"
    by (simp add: pruneRuleValues_def js_eq_iff is_object_value_def)
  show ?thesis
    using p ne v
    by (simp add: pruneObjectsDraft_def selectedOperation_def witness_prune_def witness_start_def parseInitialState_def createDefaultOperation_def
        parsePruneObjectsDraft_def witness_prune_value_def Let_def)
qed

lemma prune_conditions_not_editable_witness:
  "\<exists>d r. pruneObjectsDraft (\<lambda>n. n) witness_prune = Some (d, 2) \<and> pd_rules d = [r] \<and>
    removePruneRule (\<lambda>n. n) 0 (oc_id r) (witness_prune\<lparr>es_seed := 2\<rparr>) =
      updatePruneObjectsDraft (\<lambda>n. n) 0 (\<lambda>draft seed. (draft, seed)) (witness_prune\<lparr>es_seed := 2\<rparr>)"
proof -
  obtain d r where d: "pruneObjectsDraft (\<lambda>n. n) witness_prune = Some (d, 2)" "pd_rules d = [r]" using witness_prune_draft by blast
  have "r \<in> set (pd_rules d)" "distinct (map op_id (es_operations witness_prune))" by (simp_all add: d(2) witness_prune_def)
  from prune_conditions_not_editable [OF d(1) this, of 0] d show ?thesis by blast
qed

end
