(* ===== verification/Channel_Claims.thy ===== *)
theory Channel_Claims
  imports Channel_Form Override_Claims
begin

text \<open>
  The properties of the channel form: what saving keeps and drops of the two JSON columns,
  that a saved column is loaded as it was entered, what the payloads contain, and that what the
  override editor saves from its visual form passes the check of the field.
\<close>

section \<open>Objects\<close>

lemma map_of_put [simp]: "map_of (put k v m) = (map_of m)(js k \<mapsto> v)"
  by (simp add: put_def map_of_update)

lemma map_of_del [simp]: "map_of (del k m) = (map_of m)(js k := None)"
  by (simp add: del_def map_of_delete)

lemma map_of_put_if [simp]: "map_of (put_if b k v m) = (map_of m)(js k := (if b then Some v else None))"
  by (simp add: put_if_def)

lemma printable_put: "printable (JObj m) \<Longrightarrow> printable v \<Longrightarrow> printable (JObj (put k v m))"
  unfolding put_def by (rule printable_update)

lemma printable_del: "printable (JObj m) \<Longrightarrow> printable (JObj (del k m))"
  by (auto simp: del_def AList.delete_eq list_all_iff distinct_map_filter)

lemma printable_put_if: "printable (JObj m) \<Longrightarrow> (b \<Longrightarrow> printable v) \<Longrightarrow> printable (JObj (put_if b k v m))"
  by (simp add: put_if_def printable_put printable_del del: printable.simps)

lemma printable_if: "printable (JObj a) \<Longrightarrow> printable (JObj b) \<Longrightarrow> printable (JObj (if c then a else b))"
  by simp

lemma printable_put_unless: "printable (JObj m) \<Longrightarrow> printable v \<Longrightarrow> printable (JObj (put_unless b k v m))"
  by (simp add: put_unless_def printable_put del: printable.simps)

lemma map_of_put_unless: "x \<noteq> js k \<Longrightarrow> map_of (put_unless b k v m) x = map_of m x"
  by (simp add: put_unless_def)

lemma printable_prop: "printable v \<Longrightarrow> get_prop v k = Some w \<Longrightarrow> printable w"
  by (cases v) (auto simp: get_prop_def list_all_iff dest: map_of_SomeD)

lemma printable_or_value: "(\<And>w. v = Some w \<Longrightarrow> printable w) \<Longrightarrow> printable d \<Longrightarrow> printable (or_value v d)"
  by (auto simp: or_value_def is_truthy_def split: option.splits)

section \<open>Routing tables\<close>

lemma normalizeRouteJson_printable:
  assumes "normalizeRouteJson r = Some v" "printable r"
  shows "printable v"
proof -
  have p: "\<And>k w. get_prop r k = Some w \<Longrightarrow> printable w" using printable_prop [OF assms(2)] by blast
  have v: "printable (or_value (get_prop r k) (JStr d))" for k d by (rule printable_or_value) (use p in auto)
  have a: "printable (JObj (routeAuthJson w))" if "get_prop r ''auth'' = Some w" for w
  proof -
    have w: "\<And>k u. get_prop w k = Some u \<Longrightarrow> printable u" using printable_prop [OF p [OF that]] by blast
    have "printable (or_value (get_prop w k) (JStr d))" for k d by (rule printable_or_value) (use w in auto)
    then show ?thesis using w by (auto simp: routeAuthJson_def js_eq_iff split: option.splits)
  qed
  show ?thesis
    using assms(1) v a
    by (auto simp: normalizeRouteJson_def is_truthy_def js_eq_iff list_all_iff split: if_splits option.splits)
qed

lemma those_printable:
  "those (map normalizeRouteJson rs) = Some vs \<Longrightarrow> list_all printable rs \<Longrightarrow> list_all printable vs"
  by (induction rs arbitrary: vs) (auto split: option.splits dest: normalizeRouteJson_printable)

lemma parseAdvancedCustomConfig_printable: "parseAdvancedCustomConfig s = Some c \<Longrightarrow> printable c"
proof -
  assume c: "parseAdvancedCustomConfig s = Some c"
  then obtain m where m: "json_parse s = Some (JObj m)" "normalizeConfigJson (JObj m) = Some c"
    by (auto simp: parseAdvancedCustomConfig_def split: if_splits option.splits json.splits)
  have "list_all printable rs" if "get_prop (JObj m) ''advanced_routes'' = Some (JArr rs)" for rs
    using printable_prop [OF json_parse_printable [OF m(1)] that] by simp
  then show ?thesis
    using m(2) by (auto simp: normalizeConfigJson_def dest: those_printable split: option.splits json.splits)
qed

section \<open>The column \<open>settings\<close>\<close>

definition typed_printable :: "TypeSettings \<Rightarrow> bool" where
  "typed_printable s \<longleftrightarrow> printable (ts_vertex_key_type s) \<and> printable (ts_azure_responses_version s) \<and> printable (ts_aws_key_type s) \<and>
     printable (ts_keepalive_interval s) \<and> printable (ts_keepalive_window s)"

lemma default_minutes_printable [simp]:
  "printable UPSTREAM_KEEPALIVE_DEFAULT_INTERVAL_MINUTES" "printable UPSTREAM_KEEPALIVE_DEFAULT_ACTIVE_WINDOW_MINUTES" "json_number (js ''0'')"
  by (simp_all add: UPSTREAM_KEEPALIVE_DEFAULT_INTERVAL_MINUTES_def UPSTREAM_KEEPALIVE_DEFAULT_ACTIVE_WINDOW_MINUTES_def
      json_number_def js_simps is_digit_def)

lemma mergeSettings_printable:
  assumes "typed_printable s" "printable (JObj m)"
  shows "printable (JObj (mergeSettings t s m))"
proof -
  have o: "printable (or_value (Some v) d)" if "printable v" "printable d" for v d using that by (auto intro: printable_or_value)
  have f: "printable (JObj (typeFields t s m))"
    unfolding typeFields_def Let_def
    by (intro printable_put_if printable_put printable_del printable_if o) (use assms in \<open>simp_all add: typed_printable_def del: printable.simps(3)\<close>)
  have u: "printable (JObj (updateFields t s m'))" if "printable (JObj m')" for m'
  proof -
    have "printable (JArr (map JStr xs))" for xs by (simp add: list_all_iff)
    then show ?thesis unfolding updateFields_def Let_def
      by (intro printable_if printable_put_unless printable_put that) (simp_all del: printable.simps(3))
  qed
  have r: "printable (JObj (routingField t s m'))" if "printable (JObj m')" for m'
    using printable_put [OF that parseAdvancedCustomConfig_printable] printable_del [OF that] that
    by (auto simp: routingField_def simp del: printable.simps(3) split: option.splits)
  have k: "printable (JObj (keepaliveFields s m'))" if "printable (JObj m')" for m'
    unfolding keepaliveFields_def using assms(1) that by (intro printable_put o) (simp_all add: typed_printable_def)
  show ?thesis unfolding mergeSettings_def
    by (intro printable_del r k u printable_put f) simp_all
qed

text \<open>The keys of the column that the form writes.\<close>

definition SETTINGS_KEYS :: "jsstr list" where
  "SETTINGS_KEYS = map js [''vertex_key_type'', ''azure_responses_version'', ''openrouter_enterprise'', ''aws_key_type'', ''allow_service_tier'',
     ''disable_store'', ''allow_safety_identifier'', ''allow_include_obfuscation'', ''allow_inference_geo'', ''allow_speed'', ''claude_beta_query'',
     ''disable_task_polling_sleep'', ''upstream_model_update_check_enabled'', ''upstream_model_update_auto_sync_enabled'',
     ''upstream_model_update_ignored_models'', ''upstream_model_update_last_detected_models'', ''upstream_model_update_last_check_time'',
     ''upstream_keepalive_enabled'', ''upstream_keepalive_interval_minutes'', ''upstream_keepalive_active_window_minutes'', ''advanced_custom'',
     ''websocket_unsupported'']"

lemma typeFields_other:
  assumes "k \<notin> set SETTINGS_KEYS"
  shows "map_of (typeFields t s m) k = map_of m k"
proof -
  have "k \<noteq> js ''vertex_key_type''" "k \<noteq> js ''azure_responses_version''" "k \<noteq> js ''openrouter_enterprise''" "k \<noteq> js ''aws_key_type''"
    "k \<noteq> js ''allow_service_tier''" "k \<noteq> js ''disable_store''" "k \<noteq> js ''allow_safety_identifier''" "k \<noteq> js ''allow_include_obfuscation''"
    "k \<noteq> js ''allow_inference_geo''" "k \<noteq> js ''allow_speed''" "k \<noteq> js ''claude_beta_query''"
    using assms by (simp_all add: SETTINGS_KEYS_def)
  then show ?thesis by (simp add: typeFields_def Let_def)
qed

lemma mergeSettings_other:
  assumes "k \<notin> set SETTINGS_KEYS"
  shows "map_of (mergeSettings t s m) k = map_of m k"
proof -
  have ne: "k \<noteq> js ''upstream_model_update_check_enabled''" "k \<noteq> js ''upstream_model_update_auto_sync_enabled''"
    "k \<noteq> js ''upstream_model_update_ignored_models''" "k \<noteq> js ''upstream_model_update_last_detected_models''"
    "k \<noteq> js ''upstream_model_update_last_check_time''" "k \<noteq> js ''upstream_keepalive_enabled''"
    "k \<noteq> js ''upstream_keepalive_interval_minutes''" "k \<noteq> js ''upstream_keepalive_active_window_minutes''"
    "k \<noteq> js ''advanced_custom''" "k \<noteq> js ''websocket_unsupported''" "k \<noteq> js ''disable_task_polling_sleep''"
    using assms by (simp_all add: SETTINGS_KEYS_def)
  have "map_of (updateFields t s m') k = map_of m' k" for m' using ne by (simp add: updateFields_def Let_def map_of_put_unless)
  moreover have "map_of (routingField t s m') k = map_of m' k" for m' using ne by (simp add: routingField_def split: option.split)
  ultimately show ?thesis using ne by (simp add: mergeSettings_def keepaliveFields_def typeFields_other [OF assms])
qed

lemma map_of_canon:
  assumes "distinct (map fst m)"
  shows "\<exists>m'. json_canon nt (JObj m) = JObj m' \<and> (\<forall>k. map_of m' k = map_option (json_canon nt) (map_of m k))"
proof -
  let ?m = "map (\<lambda>(k, v). (k, json_canon nt v)) m"
  have "map fst ?m = map fst m" by auto
  then have "distinct (map fst ?m)" using assms by (simp only:)
  then show ?thesis by (simp add: map_of_js_entries map_of_map)
qed

text \<open>The text built from the stored column and what it parses to.\<close>

lemma settings_written:
  assumes "writes_numbers nt" "typed_printable (cf_typed f)" "json_parse (cf_settings f) = Some (JObj m)"
  shows "\<exists>s m'. buildSettingsJSON nt f = Some s \<and> json_parse s = Some (JObj m') \<and>
    (\<forall>k. map_of m' k = map_option (json_canon nt) (map_of (mergeSettings (cf_type f) (cf_typed f) m) k))"
proof -
  let ?m = "mergeSettings (cf_type f) (cf_typed f) m"
  have "json_parse (js ''{}'') = Some (JObj [])" using json_parse_print [of "JObj []" "[]" "[]"] by simp
  then have b: "buildSettingsJSON nt f = Some (json_stringify nt (JObj ?m))"
    using assms(3) by (cases "cf_settings f = js ''{}''") (auto simp: buildSettingsJSON_def Let_def json_parse_def)
  have p: "printable (JObj ?m)" by (rule mergeSettings_printable [OF assms(2) json_parse_printable [OF assms(3)]])
  then obtain m' where m': "json_canon nt (JObj ?m) = JObj m'" "\<forall>k. map_of m' k = map_option (json_canon nt) (map_of ?m k)"
    using map_of_canon [of ?m nt] by auto
  have "json_parse (json_stringify nt (JObj ?m)) = Some (JObj m')"
    using json_parse_stringify(1) [OF canon_printable [OF assms(1) p]] by (simp only: m'(1))
  with b m'(2) show ?thesis by blast
qed

text \<open>
  C8: Saving the form keeps what it does not manage: every key of the stored column
  \<open>settings\<close> that no field of the form stands for has its value in the written column, no other
  key is added, and the flag with which the server gave up the WebSocket transport is dropped.
\<close>

theorem channel_settings_preserved:
  assumes "writes_numbers nt" "typed_printable (cf_typed f)" "json_parse (cf_settings f) = Some (JObj m)"
  shows "\<exists>s m'. buildSettingsJSON nt f = Some s \<and> json_parse s = Some (JObj m') \<and> map_of m' (js ''websocket_unsupported'') = None \<and>
    (\<forall>k. k \<notin> set SETTINGS_KEYS \<longrightarrow> map_of m' k = map_option (json_canon nt) (map_of m k))"
proof -
  obtain s m' where s: "buildSettingsJSON nt f = Some s" "json_parse s = Some (JObj m')"
    "\<forall>k. map_of m' k = map_option (json_canon nt) (map_of (mergeSettings (cf_type f) (cf_typed f) m) k)"
    using settings_written [OF assms] by blast
  moreover have "map_of (mergeSettings (cf_type f) (cf_typed f) m) (js ''websocket_unsupported'') = None" by (simp add: mergeSettings_def)
  ultimately show ?thesis using mergeSettings_other by (intro exI [of _ s] exI [of _ m']) simp
qed

lemma default_typed_printable: "typed_printable defaultTypeSettings"
  by (simp add: typed_printable_def defaultTypeSettings_def)

theorem channel_settings_preserved_witness:
  "\<exists>s m'. buildSettingsJSON (\<lambda>n. n) (CHANNEL_FORM_DEFAULT_VALUES\<lparr>cf_settings := json_print [] [] (JObj [(js ''note'', JStr (js ''x''))])\<rparr>) = Some s \<and>
    json_parse s = Some (JObj m') \<and> map_of m' (js ''note'') = Some (JStr (js ''x''))"
proof -
  let ?f = "CHANNEL_FORM_DEFAULT_VALUES\<lparr>cf_settings := json_print [] [] (JObj [(js ''note'', JStr (js ''x''))])\<rparr>"
  have p: "json_parse (cf_settings ?f) = Some (JObj [(js ''note'', JStr (js ''x''))])" by (simp add: json_parse_print del: json_print.simps)
  have "typed_printable (cf_typed ?f)" by (simp add: CHANNEL_FORM_DEFAULT_VALUES_def default_typed_printable)
  from channel_settings_preserved [OF writes_id this p] obtain s m' where "buildSettingsJSON (\<lambda>n. n) ?f = Some s" "json_parse s = Some (JObj m')"
    "\<forall>k. k \<notin> set SETTINGS_KEYS \<longrightarrow> map_of m' k = map_option (json_canon (\<lambda>n. n)) (map_of [(js ''note'', JStr (js ''x''))] k)" by blast
  moreover have "js ''note'' \<notin> set SETTINGS_KEYS" by (simp add: SETTINGS_KEYS_def js_eq_iff)
  ultimately show ?thesis by (intro exI [of _ s] exI [of _ m']) simp
qed

text \<open>The fields of a type are decided by the type alone.\<close>

lemma merge_typeField:
  assumes "x \<in> {''vertex_key_type'', ''azure_responses_version'', ''openrouter_enterprise'', ''aws_key_type'', ''allow_service_tier'',
    ''disable_store'', ''allow_safety_identifier'', ''allow_include_obfuscation'', ''allow_inference_geo'', ''allow_speed'', ''claude_beta_query''}"
  shows "map_of (mergeSettings t s m) (js x) = map_of (typeFields t s m) (js x)"
proof -
  have ne: "js x \<noteq> js ''upstream_model_update_check_enabled''" "js x \<noteq> js ''upstream_model_update_auto_sync_enabled''"
    "js x \<noteq> js ''upstream_model_update_ignored_models''" "js x \<noteq> js ''upstream_model_update_last_detected_models''"
    "js x \<noteq> js ''upstream_model_update_last_check_time''" "js x \<noteq> js ''upstream_keepalive_enabled''"
    "js x \<noteq> js ''upstream_keepalive_interval_minutes''" "js x \<noteq> js ''upstream_keepalive_active_window_minutes''"
    "js x \<noteq> js ''advanced_custom''" "js x \<noteq> js ''websocket_unsupported''" "js x \<noteq> js ''disable_task_polling_sleep''"
    using assms by (auto simp: js_eq_iff)
  have "map_of (updateFields t s m') (js x) = map_of m' (js x)" for m' using ne by (simp add: updateFields_def Let_def map_of_put_unless)
  moreover have "map_of (routingField t s m') (js x) = map_of m' (js x)" for m' using ne by (simp add: routingField_def split: option.split)
  ultimately show ?thesis using ne by (simp add: mergeSettings_def keepaliveFields_def)
qed

definition typeKeys :: "int \<Rightarrow> TypeSettings \<Rightarrow> (string \<times> bool) list" where
  "typeKeys t s = [(''vertex_key_type'', t = 41), (''azure_responses_version'', t = 3 \<and> truthy (ts_azure_responses_version s)),
     (''openrouter_enterprise'', t = 20), (''aws_key_type'', t = 33), (''allow_service_tier'', t \<in> {1, 14, 57}),
     (''disable_store'', t \<in> {1, 57}), (''allow_safety_identifier'', t \<in> {1, 57}), (''allow_include_obfuscation'', t \<in> {1, 57}),
     (''allow_inference_geo'', t \<in> {1, 14, 57}), (''allow_speed'', t = 14), (''claude_beta_query'', t = 14)]"

text \<open>
  The written column \<open>settings\<close> has the fields of a channel type exactly when the form has
  that type: a stored field of another type is deleted, whatever the column had before.
\<close>

lemma channel_settings_by_type:
  assumes "writes_numbers nt" "typed_printable (cf_typed f)" "json_parse (cf_settings f) = Some (JObj m)"
  shows "\<exists>s m'. buildSettingsJSON nt f = Some s \<and> json_parse s = Some (JObj m') \<and>
    list_all (\<lambda>(k, present). (map_of m' (js k) \<noteq> None) = present) (typeKeys (cf_type f) (cf_typed f))"
proof -
  obtain s m' where s: "buildSettingsJSON nt f = Some s" "json_parse s = Some (JObj m')"
    "\<forall>k. map_of m' k = map_option (json_canon nt) (map_of (mergeSettings (cf_type f) (cf_typed f) m) k)"
    using settings_written [OF assms] by blast
  have "list_all (\<lambda>(k, present). (map_of (typeFields t ts m) (js k) \<noteq> None) = present) (typeKeys t ts)" for t ts
    by (simp add: typeKeys_def typeFields_def Let_def js_eq_iff)
  then have "list_all (\<lambda>(k, present). (map_of (mergeSettings t ts m) (js k) \<noteq> None) = present) (typeKeys t ts)" for t ts
    by (simp add: typeKeys_def merge_typeField)
  then show ?thesis using s by (intro exI [of _ s] exI [of _ m']) simp
qed

lemma channel_settings_by_type_witness:
  "\<exists>s m'. buildSettingsJSON (\<lambda>n. n) (CHANNEL_FORM_DEFAULT_VALUES\<lparr>cf_settings := json_print [] [] (JObj [(js ''aws_key_type'', JStr (js ''x''))])\<rparr>) = Some s \<and>
    json_parse s = Some (JObj m') \<and> map_of m' (js ''aws_key_type'') = None"
proof -
  let ?f = "CHANNEL_FORM_DEFAULT_VALUES\<lparr>cf_settings := json_print [] [] (JObj [(js ''aws_key_type'', JStr (js ''x''))])\<rparr>"
  have p: "json_parse (cf_settings ?f) = Some (JObj [(js ''aws_key_type'', JStr (js ''x''))])" by (simp add: json_parse_print del: json_print.simps)
  have "typed_printable (cf_typed ?f)" "cf_type ?f = 1" by (simp_all add: CHANNEL_FORM_DEFAULT_VALUES_def default_typed_printable)
  from channel_settings_by_type [OF writes_id this(1) p] this(2) obtain s m' where "buildSettingsJSON (\<lambda>n. n) ?f = Some s"
    "json_parse s = Some (JObj m')" "list_all (\<lambda>(k, present). (map_of m' (js k) \<noteq> None) = present) (typeKeys 1 (cf_typed ?f))" by auto
  then show ?thesis by (intro exI [of _ s] exI [of _ m']) (simp add: typeKeys_def)
qed

section \<open>The column \<open>setting\<close>\<close>

lemma map_of_puts_other: "k \<notin> set (map fst kvs) \<Longrightarrow> map_of (foldl (\<lambda>m (k, v). put k v m) m kvs) (js k) = map_of m (js k)"
  by (induction kvs arbitrary: m) (auto simp: js_eq_iff)

lemma map_of_puts:
  "distinct (map fst kvs) \<Longrightarrow> (k, v) \<in> set kvs \<Longrightarrow> map_of (foldl (\<lambda>m (k, v). put k v m) m kvs) (js k) = Some v"
proof (induction kvs arbitrary: m)
  case (Cons e kvs)
  obtain k' v' where e: "e = (k', v')" by force
  show ?case
  proof (cases "k' = k")
    case True
    then have "k \<notin> set (map fst kvs)" "v = v'" using Cons.prems e by force+
    then show ?thesis by (simp add: e True map_of_puts_other)
  qed (use Cons e in auto)
qed simp

lemma printable_puts:
  "printable (JObj m) \<Longrightarrow> list_all (\<lambda>(k, v). printable v) kvs \<Longrightarrow> printable (JObj (foldl (\<lambda>m (k, v). put k v m) m kvs))"
  by (induction kvs arbitrary: m) (auto simp: printable_put simp del: printable.simps(3))

lemma extraAssignments_keys: "distinct (map fst (extraAssignments x))"
  by (simp add: extraAssignments_def Let_def)

fun is_bool_value :: "json \<Rightarrow> bool" where
  "is_bool_value (JBool b) = True"
| "is_bool_value _ = False"

fun is_text_value :: "json \<Rightarrow> bool" where
  "is_text_value (JStr s) = True"
| "is_text_value _ = False"

text \<open>
  Extra settings as the form shows them: flags and texts of their types, a known profile with its
  flag, a version of that profile, a fingerprint only without a version, seeds only with a
  profile, and the two switches on exactly when they have something to switch.
\<close>

definition extra_ok :: "ExtraSettings \<Rightarrow> bool" where
  "extra_ok x \<longleftrightarrow>
     list_all is_bool_value [xs_force_format x, xs_thinking_to_content x, xs_pass_through_body_enabled x, xs_responses_reasoning_fallback x,
       xs_websocket_transport x, xs_system_prompt_override x] \<and>
     is_text_value (xs_proxy x) \<and> is_text_value (xs_system_prompt x) \<and> xs_profile x \<in> set SYNTHETIC_CLIENT_HEADER_PROFILES \<and>
     xs_synthetic_client_headers x = JBool (xs_profile x \<noteq> js ''off'') \<and> cliVersion x = xs_cli_version_profile x \<and>
     trim (xs_tls_fingerprint x) = xs_tls_fingerprint x \<and> trim (xs_client_device_seed x) = xs_client_device_seed x \<and>
     trim (xs_client_session_seed x) = xs_client_session_seed x \<and>
     xs_tls_fingerprint_enabled x = (xs_tls_fingerprint x \<noteq> []) \<and>
     xs_custom_client_identity_enabled x = (xs_client_device_seed x \<noteq> [] \<or> xs_client_session_seed x \<noteq> []) \<and>
     (xs_tls_fingerprint x = [] \<or> xs_profile x \<noteq> js ''off'' \<and> xs_cli_version_profile x = []) \<and>
     (xs_custom_client_identity_enabled x \<longrightarrow> xs_profile x \<noteq> js ''off'')"

lemma cliVersion_trimmed: "trim (cliVersion x) = cliVersion x"
  by (simp add: cliVersion_def Let_def)

lemma bool_value: "is_bool_value v \<Longrightarrow> or_value (Some v) (JBool False) = v \<and> json_canon nt v = v"
  by (cases v) (simp_all add: or_value_def is_truthy_def)

lemma text_value: "is_text_value v \<Longrightarrow> or_value (Some v) (JStr []) = v \<and> json_canon nt v = v"
  by (cases v) (simp_all add: or_value_def is_truthy_def)

lemma value_printable: "is_bool_value v \<or> is_text_value v \<Longrightarrow> printable v"
  by (cases v) simp_all

lemma setting_written:
  assumes "writes_numbers nt" "isOptionalJsonObject (cf_setting f)" "extra_ok (cf_extra f)"
  shows "\<exists>s m. buildSettingJSON nt f = Some s \<and> json_parse s = Some (JObj m) \<and>
    (\<forall>(k, v) \<in> set (extraAssignments (cf_extra f)). map_of m (js k) = Some (json_canon nt v))"
proof -
  have e: "json_parse (js ''{}'') = Some (JObj [])" using json_parse_print [of "JObj []" "[]" "[]"] by simp
  obtain m0 where m0: "json_parse (if trim (cf_setting f) = [] then js ''{}'' else trim (cf_setting f)) = Some (JObj m0)"
    using assms(2) e json_parse_trim [of "cf_setting f"]
    by (auto simp: isOptionalJsonObject_def parseOptionalJson_def isJsonObjectValue_def split: if_splits option.splits json.splits)
  let ?kvs = "extraAssignments (cf_extra f)"
  let ?m = "foldl (\<lambda>m (k, v). put k v m) m0 ?kvs"
  have "list_all (\<lambda>(k, v). printable v) ?kvs"
    using assms(3) bool_value text_value value_printable by (simp add: extraAssignments_def Let_def extra_ok_def)
  then have p: "printable (JObj ?m)" using json_parse_printable [OF m0] by (intro printable_puts)
  then obtain m where m: "json_canon nt (JObj ?m) = JObj m" "\<forall>k. map_of m k = map_option (json_canon nt) (map_of ?m k)"
    using map_of_canon [of ?m nt] by auto
  have "settingObj f = Some ?m" unfolding settingObj_def m0 by (simp add: own_props_def)
  then have "buildSettingJSON nt f = Some (json_stringify nt (JObj ?m))" by (simp add: buildSettingJSON_def)
  moreover have "json_parse (json_stringify nt (JObj ?m)) = Some (JObj m)"
    using json_parse_stringify(1) [OF canon_printable [OF assms(1) p]] by (simp only: m(1))
  moreover have "\<forall>(k, v) \<in> set ?kvs. map_of m (js k) = Some (json_canon nt v)"
    using map_of_puts [OF extraAssignments_keys] m(2) by fastforce
  ultimately show ?thesis by blast
qed

text \<open>
  Extra settings survive a save: what the form writes into the column \<open>setting\<close> is loaded
  as the same values, whatever type the channel has when it is loaded.
\<close>

lemma channel_extra_roundtrip:
  assumes "writes_numbers nt" "isOptionalJsonObject (cf_setting f)" "extra_ok (cf_extra f)"
  shows "\<exists>s. buildSettingJSON nt f = Some s \<and> loadExtraSettings (Some s) channelType = cf_extra f"
proof -
  obtain s m where s: "buildSettingJSON nt f = Some s" "json_parse s = Some (JObj m)"
    and m: "\<forall>(k, v) \<in> set (extraAssignments (cf_extra f)). map_of m (js k) = Some (json_canon nt v)"
    using setting_written [OF assms] by blast
  let ?x = "cf_extra f"
  have "s \<noteq> []" using s(2) by (auto simp: json_parse_def)
  have g: "get_prop (JObj m) k = Some (json_canon nt v)" if "(k, v) \<in> set (extraAssignments ?x)" for k v
    using m that by (auto simp: get_prop_def)
  note props = g [of "''force_format''"] g [of "''thinking_to_content''"] g [of "''proxy''"] g [of "''pass_through_body_enabled''"]
    g [of "''responses_reasoning_fallback''"] g [of "''websocket_transport''"] g [of "''synthetic_client_headers''"]
    g [of "''synthetic_client_headers_profile''"] g [of "''cli_version_profile''"] g [of "''tls_fingerprint''"] g [of "''client_device_seed''"]
    g [of "''client_session_seed''"] g [of "''system_prompt''"] g [of "''system_prompt_override''"]
  have prof: "parseSyntheticClientHeaderProfile (JObj m) channelType = xs_profile ?x"
  proof (cases "xs_profile ?x = js ''off''")
    case True
    then show ?thesis using props(7,8) by (simp add: extraAssignments_def Let_def parseSyntheticClientHeaderProfile_def is_truthy_def)
  next
    case False
    moreover obtain c cs where c: "xs_profile ?x = c # cs"
      using assms(3) by (cases "xs_profile ?x") (auto simp: extra_ok_def SYNTHETIC_CLIENT_HEADER_PROFILES_def js_simps)
    ultimately show ?thesis
      using props(8) assms(3) by (simp add: extraAssignments_def Let_def parseSyntheticClientHeaderProfile_def extra_ok_def)
  qed
  have texts: "text_of (JObj m) ''tls_fingerprint'' = xs_tls_fingerprint ?x" "text_of (JObj m) ''client_device_seed'' = xs_client_device_seed ?x"
    "text_of (JObj m) ''client_session_seed'' = xs_client_session_seed ?x" "text_of (JObj m) ''cli_version_profile'' = xs_cli_version_profile ?x"
    using assms(3) props(9-12) cliVersion_trimmed [of ?x] by (auto simp: text_of_def extraAssignments_def Let_def extra_ok_def)
  have "loadExtraSettings (Some s) channelType = ?x"
    using assms(3) prof \<open>s \<noteq> []\<close> props(1-7,13,14) bool_value text_value
    by (intro ExtraSettings.equality)
      (simp_all add: loadExtraSettings_def s(2) Let_def texts extraAssignments_def extra_ok_def)
  with s(1) show ?thesis by blast
qed

lemma default_extra_ok: "extra_ok defaultExtraSettings"
  by (simp add: extra_ok_def defaultExtraSettings_def SYNTHETIC_CLIENT_HEADER_PROFILES_def cliVersion_def Let_def js_eq_iff)

lemma channel_extra_roundtrip_witness:
  "\<exists>s. buildSettingJSON (\<lambda>n. n) CHANNEL_FORM_DEFAULT_VALUES = Some s \<and> loadExtraSettings (Some s) 57 = defaultExtraSettings"
proof -
  have x: "cf_extra CHANNEL_FORM_DEFAULT_VALUES = defaultExtraSettings" by (simp add: CHANNEL_FORM_DEFAULT_VALUES_def)
  have "isOptionalJsonObject (cf_setting CHANNEL_FORM_DEFAULT_VALUES)"
    by (simp add: CHANNEL_FORM_DEFAULT_VALUES_def isOptionalJsonObject_def parseOptionalJson_def)
  from channel_extra_roundtrip [OF writes_id this, of 57] show ?thesis using default_extra_ok by (simp add: x)
qed

section \<open>Payloads\<close>

lemma builds:
  assumes "columns_ok nt f"
  shows "\<exists>a b. buildSettingJSON nt f = Some a \<and> buildSettingsJSON nt f = Some b"
proof -
  have e: "json_parse (js ''{}'') = Some (JObj [])" using json_parse_print [of "JObj []" "[]" "[]"] by simp
  have "\<exists>v. json_parse (if trim (cf_setting f) = [] then js ''{}'' else trim (cf_setting f)) = Some v"
    using assms e json_parse_trim [of "cf_setting f"]
    by (auto simp: columns_ok_def isOptionalJsonObject_def parseOptionalJson_def split: if_splits option.splits)
  then have "\<exists>a. buildSettingJSON nt f = Some a" by (auto simp: buildSettingJSON_def settingObj_def)
  moreover have "\<exists>b. buildSettingsJSON nt f = Some b"
  proof (cases "json_parse (cf_settings f)")
    case (Some v)
    then have "trim (cf_settings f) \<noteq> []" using json_parse_trim [OF Some] by (auto simp: json_parse_def)
    then obtain m where "v = JObj m"
      using assms Some by (auto simp: columns_ok_def isOptionalJsonObject_def parseOptionalJson_def isJsonObjectValue_def split: json.splits)
    then show ?thesis using Some by (auto simp: buildSettingsJSON_def Let_def)
  qed (simp add: buildSettingsJSON_def Let_def)
  ultimately show ?thesis by blast
qed

text \<open>
  C32: A form whose JSON columns pass the checks is always sent. The payload that creates a
  channel has no empty text; the payload that updates one has the key only when one was entered,
  and the texts that may be cleared always as texts, so that an empty one clears the column.
\<close>

theorem channel_payloads:
  assumes "columns_ok nt f"
  shows "\<exists>p m. transformFormDataToCreatePayload nt f = Some p \<and> transformFormDataToUpdatePayload nt f channelId = Some m \<and>
    list_all (\<lambda>(k, v). v \<noteq> JStr []) (cp_channel p) \<and>
    map_of m (js ''key'') = (if trim (cf_key f) = [] then None else Some (JStr (cf_key f))) \<and>
    list_all (\<lambda>(k, v). map_of m (js k) = Some v) (clearable f)"
proof -
  obtain a b where ab: "buildSettingJSON nt f = Some a" "buildSettingsJSON nt f = Some b" using builds [OF assms] by blast
  have e: "list_all (\<lambda>(k, v). v \<noteq> JStr []) (emptyToNull m)" for m by (auto simp: emptyToNull_def list_all_iff split: if_splits)
  have d: "distinct (map fst (clearable f))" by (simp add: clearable_def)
  have k: "''key'' \<notin> set (map fst (clearable f))" by (simp add: clearable_def)
  have n: "map_of (emptyToNull m) k = map_option (\<lambda>v. if v = JStr [] then JNull else v) (map_of m k)" for m k
    by (simp add: emptyToNull_def map_of_map)
  have none: "map_of (keys_js (updateChannel f channelId a b)) (js ''key'') = None" by (simp add: keys_js_def updateChannel_def js_eq_iff)
  have "cf_key f \<noteq> []" if "trim (cf_key f) \<noteq> []" using that by auto
  then show ?thesis
    using e map_of_puts [OF d] map_of_puts_other [OF k] none
    by (auto simp: transformFormDataToCreatePayload_def transformFormDataToUpdatePayload_def ab Let_def list_all_iff n)
qed

theorem channel_payloads_witness:
  "\<exists>m. transformFormDataToUpdatePayload (\<lambda>n. n) (CHANNEL_FORM_DEFAULT_VALUES\<lparr>cf_settings := []\<rparr>) 7 = Some m \<and>
    map_of m (js ''key'') = None \<and> map_of m (js ''tag'') = Some (JStr [])"
proof -
  let ?f = "CHANNEL_FORM_DEFAULT_VALUES\<lparr>cf_settings := []\<rparr>"
  have "columns_ok (\<lambda>n. n) ?f"
    by (simp add: columns_ok_def CHANNEL_FORM_DEFAULT_VALUES_def isOptionalModelMapping_def isOptionalStatusCodeMapping_def
        isOptionalJsonObject_def parseOptionalJson_def)
  from channel_payloads [OF this, of 7] obtain m where
    "transformFormDataToUpdatePayload (\<lambda>n. n) ?f 7 = Some m" "map_of m (js ''key'') = (if trim (cf_key ?f) = [] then None else Some (JStr (cf_key ?f)))"
    "list_all (\<lambda>(k, v). map_of m (js k) = Some v) (clearable ?f)" by blast
  then show ?thesis by (intro exI [of _ m]) (simp add: clearable_def CHANNEL_FORM_DEFAULT_VALUES_def)
qed

section \<open>The override editor in the form\<close>

lemma pretty_object:
  assumes "writes_numbers nt" "printable v"
  shows "isOptionalJsonObject (json_pretty nt v) \<longleftrightarrow> is_plain_object v"
proof -
  have p: "json_parse (json_pretty nt v) = Some (json_canon nt v)" by (rule json_parse_stringify(2) [OF canon_printable [OF assms]])
  have "trim (json_pretty nt v) \<noteq> []" using json_parse_trim [OF p] by (auto simp: json_parse_def)
  then have "isOptionalJsonObject (json_pretty nt v) = isJsonObjectValue (json_canon nt v)" by (simp add: isOptionalJsonObject_def parseOptionalJson_def p)
  then show ?thesis by (cases v) (simp_all add: isJsonObjectValue_def is_plain_object_def)
qed

text \<open>
  C33: The text the override editor hands to the channel form passes the form's check of the
  field whenever it was saved from the visual form; saved from the JSON form it passes exactly
  when it is empty or denotes an object.
\<close>

theorem override_save_accepted:
  assumes "writes_numbers nt" "handleSave nt st = Inr s"
  shows "isOptionalJsonObject s \<longleftrightarrow>
    es_editMode st = VisualMode \<or> trim (es_jsonText st) = [] \<or> (\<exists>m. json_parse (trim (es_jsonText st)) = Some (JObj m))"
proof -
  have empty: "isOptionalJsonObject []" by (simp add: isOptionalJsonObject_def parseOptionalJson_def)
  have obj: "isOptionalJsonObject (json_pretty nt v) \<longleftrightarrow> is_plain_object v" if "json_parse t = Some v" for t v
    by (rule pretty_object [OF assms(1) json_parse_printable [OF that]])
  have doc: "isOptionalJsonObject (json_pretty nt (operationsDocument ops))" for ops
    using pretty_object [OF assms(1) operationsDocument_printable] by (simp add: is_plain_object_def operationsDocument_def)
  show ?thesis
  proof (cases "es_editMode st")
    case VisualMode
    then show ?thesis
      using assms(2) empty obj doc
      by (auto simp: handleSave_def buildVisualJson_def buildOperationsJson_def Let_def split: VisualKind.splits if_splits option.splits sum.splits)
  next
    case JsonMode
    then show ?thesis
      using assms(2) empty obj
      by (auto simp: handleSave_def Let_def is_plain_object_def split: if_splits option.splits json.splits)
  qed
qed

theorem override_save_accepted_witness:
  "\<exists>s. handleSave (\<lambda>n. n) witness_start = Inr s \<and> isOptionalJsonObject s"
proof -
  have "handleSave (\<lambda>n. n) witness_start = Inr []" "es_editMode witness_start = VisualMode"
    by (simp_all add: handleSave_def witness_start_def parseInitialState_def buildVisualJson_def buildOperationsJson_def isOperationBlank_def
        createDefaultOperation_def)
  with override_save_accepted [OF writes_id this(1)] show ?thesis by simp
qed

end
