(* ===== verification/JS_Double.thy ===== *)
theory JS_Double
  imports JS_Number "HOL-Library.Log_Nat"
begin

text \<open>
  The rounding of arithmetic to double precision: the exact result of an operation is rounded to
  the nearest number with 53 significant bits, ties to an even last bit. The exponent is not
  bounded, so neither overflow nor the loss of bits near zero is part of it. The lemmas bound the
  relative error of one rounding and of a chain of four.
\<close>

section \<open>Rounding\<close>

text \<open>The exponent \<open>e\<close> of a value with \<open>2 ^ e \<le> \<bar>x\<bar> < 2 ^ (e + 1)\<close>.\<close>

definition rat_exponent :: "rat \<Rightarrow> int" where
  "rat_exponent x =
     (let (a, b) = quotient_of \<bar>x\<bar>; e = bitlen a - bitlen b in
      if 2 powi e \<le> \<bar>x\<bar> then e else e - 1)"

text \<open>The nearest integer, of two the even one.\<close>

definition round_even :: "rat \<Rightarrow> int" where
  "round_even y = (let r = \<lfloor>y + 1 / 2\<rfloor> in if of_int r = y + 1 / 2 \<and> odd r then r - 1 else r)"

definition to_double :: "rat \<Rightarrow> rat" where
  "to_double x =
     (if x = 0 then 0
      else let unit = 2 powi (rat_exponent x - 52) in of_int (round_even (x / unit)) * unit)"

fun num_double :: "jsnum \<Rightarrow> jsnum" where
  "num_double (Fin q) = Fin (to_double q)"
| "num_double x = x"

text \<open>The number written \<open>0.1\<close>.\<close>

lemma to_double_tenth: "to_double (1 / 10) = 3602879701896397 / 36028797018963968"
  by code_simp

section \<open>The error of a rounding\<close>

lemma round_even_error: "\<bar>of_int (round_even y) - y\<bar> \<le> 1 / 2"
proof (cases "of_int \<lfloor>y + 1 / 2\<rfloor> = y + 1 / 2 \<and> odd \<lfloor>y + 1 / 2\<rfloor>")
  case True
  then have r: "round_even y = \<lfloor>y + 1 / 2\<rfloor> - 1" unfolding round_even_def Let_def by (simp only: simp_thms if_True)
  have "of_int (round_even y) - y = - (1 / 2)" unfolding r of_int_diff using conjunct1 [OF True] by linarith
  then show ?thesis by simp
next
  case False
  then have "round_even y = \<lfloor>y + 1 / 2\<rfloor>" unfolding round_even_def Let_def by (simp only: if_False)
  then show ?thesis by linarith
qed

lemma bitlen_powi:
  assumes "0 < (a :: int)"
  shows "2 powi (bitlen a - 1) \<le> (of_int a :: rat)" "(of_int a :: rat) < 2 powi bitlen a"
proof -
  have b: "1 \<le> bitlen a" using assms bitlen_eq_zero_iff [of a] bitlen_nonneg [of a] by linarith
  note c = bitlen_bounds [OF assms]
  have "(of_int (2 ^ nat (bitlen a - 1)) :: rat) \<le> of_int a" "(of_int a :: rat) < of_int (2 ^ nat (bitlen a))"
    using c by (simp_all only: of_int_le_iff of_int_less_iff)
  then show "2 powi (bitlen a - 1) \<le> (of_int a :: rat)" "(of_int a :: rat) < 2 powi bitlen a"
    using b by (simp_all add: power_int_def)
qed

lemma rat_exponent_bounds:
  assumes "x \<noteq> 0"
  shows "2 powi rat_exponent x \<le> \<bar>x\<bar>" "\<bar>x\<bar> < 2 powi (rat_exponent x + 1)"
proof -
  obtain a b where q: "quotient_of \<bar>x\<bar> = (a, b)" by force
  have b: "0 < b" using quotient_of_denom_pos [OF q] .
  have x: "\<bar>x\<bar> = of_int a / of_int b" by (rule quotient_of_div [OF q])
  have "0 < \<bar>x\<bar>" using assms by simp
  then have a: "0 < a" using b unfolding x by (simp add: zero_less_divide_iff)
  define e where "e = bitlen a - bitlen b"
  note ba = bitlen_powi [OF a] and bb = bitlen_powi [OF b]
  have "\<bar>x\<bar> < 2 powi bitlen a / of_int b" unfolding x using ba(2) b by (simp add: divide_strict_right_mono)
  also have "\<dots> \<le> 2 powi bitlen a / 2 powi (bitlen b - 1)" using bb(1) by (intro divide_left_mono) (simp_all add: b)
  also have "\<dots> = 2 powi (e + 1)" by (simp add: e_def power_int_diff power_int_add)
  finally have up: "\<bar>x\<bar> < 2 powi (e + 1)" .
  have "2 powi (e - 1) = 2 powi (bitlen a - 1) / (2 powi bitlen b :: rat)" by (simp add: e_def power_int_diff power_int_add)
  also have "\<dots> \<le> of_int a / 2 powi bitlen b" using ba(1) by (intro divide_right_mono) simp_all
  also have "\<dots> \<le> \<bar>x\<bar>" unfolding x using bb(2) a b by (intro divide_left_mono) simp_all
  finally have low: "2 powi (e - 1) \<le> \<bar>x\<bar>" .
  have "rat_exponent x = (if 2 powi e \<le> \<bar>x\<bar> then e else e - 1)" by (simp add: rat_exponent_def q e_def)
  then show "2 powi rat_exponent x \<le> \<bar>x\<bar>" "\<bar>x\<bar> < 2 powi (rat_exponent x + 1)" using up low by auto
qed

lemma to_double_error: "\<bar>to_double x - x\<bar> \<le> \<bar>x\<bar> / 2 ^ 53"
proof (cases "x = 0")
  case False
  define u :: rat where "u = 2 powi (rat_exponent x - 52)"
  have u: "0 < u" by (simp add: u_def)
  have "to_double x - x = (of_int (round_even (x / u)) - x / u) * u"
    using False u by (simp add: to_double_def Let_def u_def [symmetric] algebra_simps)
  then have "\<bar>to_double x - x\<bar> \<le> 1 / 2 * u" using round_even_error [of "x / u"] u by (simp add: abs_mult mult_right_mono)
  also have "1 / 2 * u = 2 powi rat_exponent x / 2 ^ 53" by (simp add: u_def power_int_diff)
  also have "\<dots> \<le> \<bar>x\<bar> / 2 ^ 53" using rat_exponent_bounds(1) [OF False] by (intro divide_right_mono) simp_all
  finally show ?thesis .
qed (simp add: to_double_def)

text \<open>The rounding as a factor close to one.\<close>

lemma to_double_factor: "\<exists>r. to_double x = x * r \<and> 1 - 1 / 2 ^ 53 \<le> r \<and> r \<le> 1 + 1 / 2 ^ 53"
proof (cases "x = 0")
  case True
  then show ?thesis by (intro exI [of _ 1]) (simp add: to_double_def)
next
  case False
  have "to_double x / x - 1 = (to_double x - x) / x" using False by (simp add: diff_divide_distrib)
  then have "\<bar>to_double x / x - 1\<bar> \<le> 1 / 2 ^ 53"
    using to_double_error [of x] False by (simp add: abs_divide divide_le_eq mult.commute)
  then have "1 - 1 / 2 ^ 53 \<le> to_double x / x" "to_double x / x \<le> 1 + 1 / 2 ^ 53" by linarith+
  with False show ?thesis by (intro exI [of _ "to_double x / x"]) simp
qed

text \<open>Four roundings in a row, with exact steps between them that cancel.\<close>

lemma four_factors:
  fixes a b c d :: rat
  assumes "\<forall>r \<in> {a, b, c, d}. 1 - 1 / 2 ^ 53 \<le> r \<and> r \<le> 1 + 1 / 2 ^ 53"
  shows "\<bar>a * b * c * d - 1\<bar> < 1 / 2 ^ 50"
proof -
  let ?l = "1 - 1 / 2 ^ 53 :: rat" and ?u = "1 + 1 / 2 ^ 53 :: rat"
  have p: "0 \<le> ?l" by simp
  have m: "l * ?l \<le> x * r \<and> x * r \<le> u * ?u" if "0 \<le> l" "l \<le> x" "x \<le> u" "?l \<le> r" "r \<le> ?u" for l u x r :: rat
    using that p by (intro conjI mult_mono) linarith+
  have ab: "?l * ?l \<le> a * b \<and> a * b \<le> ?u * ?u" using assms by (intro m) simp_all
  have abc: "?l * ?l * ?l \<le> a * b * c \<and> a * b * c \<le> ?u * ?u * ?u" using assms ab by (intro m) simp_all
  have "?l * ?l * ?l * ?l \<le> a * b * c * d \<and> a * b * c * d \<le> ?u * ?u * ?u * ?u" using assms abc by (intro m) simp_all
  moreover have "1 - 1 / 2 ^ 50 < ?l * ?l * ?l * ?l" "?u * ?u * ?u * ?u < 1 + 1 / 2 ^ 50" by simp_all
  ultimately show ?thesis by linarith
qed

lemma four_roundings:
  fixes n u e :: rat
  assumes "0 < u" "0 < e"
  shows "\<bar>to_double (to_double (to_double (to_double (n / u) * e) / e) * u) - n\<bar> \<le> \<bar>n\<bar> / 2 ^ 50"
proof -
  obtain a where a: "to_double (n / u) = n / u * a" "1 - 1 / 2 ^ 53 \<le> a \<and> a \<le> 1 + 1 / 2 ^ 53" using to_double_factor by blast
  obtain b where b: "to_double (n / u * a * e) = n / u * a * e * b" "1 - 1 / 2 ^ 53 \<le> b \<and> b \<le> 1 + 1 / 2 ^ 53"
    using to_double_factor by blast
  have 1: "n / u * a * e * b / e = n / u * a * b" using assms by simp
  obtain c where c: "to_double (n / u * a * b) = n / u * a * b * c" "1 - 1 / 2 ^ 53 \<le> c \<and> c \<le> 1 + 1 / 2 ^ 53"
    using to_double_factor by blast
  have 2: "n / u * a * b * c * u = n * a * b * c" using assms by simp
  obtain d where d: "to_double (n * a * b * c) = n * a * b * c * d" "1 - 1 / 2 ^ 53 \<le> d \<and> d \<le> 1 + 1 / 2 ^ 53"
    using to_double_factor by blast
  have "to_double (to_double (to_double (to_double (n / u) * e) / e) * u) - n = n * (a * b * c * d - 1)"
    by (simp only: a(1) b(1) 1 c(1) 2 d(1)) (simp add: algebra_simps)
  moreover have "\<bar>a * b * c * d - 1\<bar> < 1 / 2 ^ 50" using a(2) b(2) c(2) d(2) by (intro four_factors) simp
  ultimately show ?thesis using mult_left_mono [of "\<bar>a * b * c * d - 1\<bar>" "1 / 2 ^ 50" "\<bar>n\<bar>"] by (simp add: abs_mult)
qed

end
