(* ===== verification/Currency.thy ===== *)
theory Currency
  imports JS_Json JS_Double
begin

text \<open>
  The amounts the application shows, \<open>lib/currency.ts\<close>, the quota conversions of
  \<open>lib/format.ts\<close> and the currency part of the configuration (\<open>stores/system-config-store.ts\<close>,
  \<open>hooks/use-system-config.ts\<close>): the display configuration, the exact texts of \<open>toFixed\<close>,
  minimal amounts, and the formatting functions. \<open>Intl.NumberFormat\<close> and the text of a number
  are parameters. A call that throws a \<open>RangeError\<close> is the value \<open>None\<close>. Numbers are exact
  rationals without a negative zero, as in \<open>JS_Number\<close>; the conversions between quota and amount,
  where the result depends on it, round every product and quotient to a double.
\<close>

section \<open>Arithmetic of numbers\<close>

text \<open>The sign of an infinity is its flag: \<open>Infinite True\<close> is the negative one.\<close>

fun num_mul :: "jsnum \<Rightarrow> jsnum \<Rightarrow> jsnum" where
  "num_mul (Fin a) (Fin b) = Fin (a * b)"
| "num_mul (Infinite s) (Infinite t) = Infinite (s \<noteq> t)"
| "num_mul (Fin a) (Infinite t) = (if a = 0 then NaN else Infinite ((a < 0) \<noteq> t))"
| "num_mul (Infinite s) (Fin b) = (if b = 0 then NaN else Infinite (s \<noteq> (b < 0)))"
| "num_mul _ _ = NaN"

fun num_div :: "jsnum \<Rightarrow> jsnum \<Rightarrow> jsnum" where
  "num_div (Fin a) (Fin b) = (if b \<noteq> 0 then Fin (a / b) else if a = 0 then NaN else Infinite (a < 0))"
| "num_div (Fin a) (Infinite t) = Fin 0"
| "num_div (Infinite s) (Fin b) = Infinite (s \<noteq> (b < 0))"
| "num_div _ _ = NaN"

fun num_abs :: "jsnum \<Rightarrow> jsnum" where
  "num_abs (Fin a) = Fin \<bar>a\<bar>"
| "num_abs (Infinite _) = Infinite False"
| "num_abs NaN = NaN"

fun num_neg :: "jsnum \<Rightarrow> jsnum" where
  "num_neg (Fin a) = Fin (- a)"
| "num_neg (Infinite s) = Infinite (\<not> s)"
| "num_neg NaN = NaN"

fun num_less :: "jsnum \<Rightarrow> jsnum \<Rightarrow> bool" where
  "num_less (Fin a) (Fin b) = (a < b)"
| "num_less (Fin _) (Infinite t) = (\<not> t)"
| "num_less (Infinite s) (Fin _) = s"
| "num_less (Infinite s) (Infinite t) = (s \<and> \<not> t)"
| "num_less _ _ = False"

definition num_leq :: "jsnum \<Rightarrow> jsnum \<Rightarrow> bool" where
  "num_leq a b \<longleftrightarrow> num_less a b \<or> num_eq a b"

text \<open>\<open>Math.round\<close>: the nearest integer, the larger one of two.\<close>

fun num_round :: "jsnum \<Rightarrow> jsnum" where
  "num_round (Fin a) = Fin (of_int \<lfloor>a + 1 / 2\<rfloor>)"
| "num_round x = x"

section \<open>Texts with a fixed number of digits\<close>

definition pad_zeros :: "nat \<Rightarrow> jsstr \<Rightarrow> jsstr" where
  "pad_zeros d s = replicate (d - length s) 48 @ s"

text \<open>The digits of \<open>n / 10^d\<close>.\<close>

definition fixed_digits :: "nat \<Rightarrow> nat \<Rightarrow> jsstr" where
  "fixed_digits d n =
     show_nat (n div 10 ^ d) @ (if d = 0 then [] else 46 # pad_zeros d (show_nat (n mod 10 ^ d)))"

text \<open>
  \<open>x.toFixed(d)\<close>: the multiple of \<open>10^-d\<close> that is nearest to the absolute value, the larger one
  of two; from \<open>10^21\<close> on the text of the number.
\<close>

definition to_fixed_text :: "(jsnum \<Rightarrow> jsstr) \<Rightarrow> nat \<Rightarrow> jsnum \<Rightarrow> jsstr option" where
  "to_fixed_text nt d x =
     (if 100 < d then None
      else Some (case x of
          Fin q \<Rightarrow>
            if 10 ^ 21 \<le> \<bar>q\<bar> then nt x
            else (if q < 0 then [45] else []) @ fixed_digits d (nat \<lfloor>\<bar>q\<bar> * 10 ^ d + 1 / 2\<rfloor>)
        | _ \<Rightarrow> nt x))"

definition cut_zeros :: "jsstr \<Rightarrow> jsstr" where
  "cut_zeros s = rev (dropWhile (\<lambda>c. c = 48) (rev s))"

text \<open>\<open>str.replace(/(\.[0-9]*?)0+$/, '$1')\<close>: the first point that only digits follow, the last a zero.\<close>

fun drop_fraction_zeros :: "jsstr \<Rightarrow> jsstr" where
  "drop_fraction_zeros [] = []"
| "drop_fraction_zeros (c # s) =
     (if c = 46 \<and> s \<noteq> [] \<and> list_all is_digit s \<and> last s = 48 then c # cut_zeros s
      else c # drop_fraction_zeros s)"

definition drop_last_point :: "jsstr \<Rightarrow> jsstr" where
  "drop_last_point s = (if s \<noteq> [] \<and> last s = 46 then butlast s else s)"

definition removeTrailingZeros :: "jsstr \<Rightarrow> jsstr" where
  "removeTrailingZeros str =
     (if \<not> str_includes str [46] then str else drop_last_point (drop_fraction_zeros str))"

section \<open>The configuration\<close>

record CurrencyConfig =
  cc_displayInCurrency :: bool
  cc_quotaDisplayType :: jsstr
  cc_quotaPerUnit :: jsnum
  cc_usdExchangeRate :: jsnum
  cc_customCurrencySymbol :: jsstr
  cc_customCurrencyExchangeRate :: jsnum

definition DEFAULT_CURRENCY_CONFIG :: CurrencyConfig where
  "DEFAULT_CURRENCY_CONFIG =
     \<lparr>cc_displayInCurrency = True, cc_quotaDisplayType = js ''USD'', cc_quotaPerUnit = Fin 500000,
      cc_usdExchangeRate = Fin 1, cc_customCurrencySymbol = [164], cc_customCurrencyExchangeRate = Fin 1\<rparr>"

record StatusData =
  sd_display_in_currency :: "bool option"
  sd_quota_display_type :: "jsstr option"
  sd_quota_per_unit :: "json option"
  sd_usd_exchange_rate :: "json option"
  sd_custom_currency_symbol :: "jsstr option"
  sd_custom_currency_exchange_rate :: "json option"

definition toNumber :: "json option \<Rightarrow> jsnum \<Rightarrow> jsnum" where
  "toNumber value fallback =
     (case value of
        Some (JNum n) \<Rightarrow> if number_of_string n \<noteq> NaN then number_of_string n else fallback
      | Some (JStr s) \<Rightarrow> if number_of_string s \<noteq> NaN then number_of_string s else fallback
      | _ \<Rightarrow> fallback)"

text \<open>The field \<open>currency\<close> of the mapped configuration; without data there is none.\<close>

definition mapStatusDataToConfig :: "StatusData option \<Rightarrow> CurrencyConfig option" where
  "mapStatusDataToConfig data =
     (case data of
        None \<Rightarrow> None
      | Some d \<Rightarrow> Some
          \<lparr>cc_displayInCurrency = (case sd_display_in_currency d of None \<Rightarrow> cc_displayInCurrency DEFAULT_CURRENCY_CONFIG | Some b \<Rightarrow> b),
           cc_quotaDisplayType = (case sd_quota_display_type d of None \<Rightarrow> cc_quotaDisplayType DEFAULT_CURRENCY_CONFIG | Some t \<Rightarrow> t),
           cc_quotaPerUnit = toNumber (sd_quota_per_unit d) (cc_quotaPerUnit DEFAULT_CURRENCY_CONFIG),
           cc_usdExchangeRate = toNumber (sd_usd_exchange_rate d) (cc_usdExchangeRate DEFAULT_CURRENCY_CONFIG),
           cc_customCurrencySymbol =
             or_default (map_option trim (sd_custom_currency_symbol d)) (cc_customCurrencySymbol DEFAULT_CURRENCY_CONFIG),
           cc_customCurrencyExchangeRate =
             toNumber (sd_custom_currency_exchange_rate d) (cc_customCurrencyExchangeRate DEFAULT_CURRENCY_CONFIG)\<rparr>)"

text \<open>The field \<open>currency\<close> of \<open>setConfig\<close>: every field of the new one replaces the stored one.\<close>

definition setConfig :: "CurrencyConfig option \<Rightarrow> CurrencyConfig option \<Rightarrow> CurrencyConfig option" where
  "setConfig stored newConfig = (case newConfig of None \<Rightarrow> stored | Some c \<Rightarrow> Some c)"

definition positive_or :: "jsnum \<Rightarrow> jsnum \<Rightarrow> jsnum" where
  "positive_or x fallback = (if num_less (Fin 0) x then x else fallback)"

definition getConfig :: "CurrencyConfig option \<Rightarrow> CurrencyConfig" where
  "getConfig stored =
     (let currency = (case stored of None \<Rightarrow> DEFAULT_CURRENCY_CONFIG | Some c \<Rightarrow> c) in
      currency
        \<lparr>cc_quotaPerUnit := positive_or (cc_quotaPerUnit currency) (cc_quotaPerUnit DEFAULT_CURRENCY_CONFIG),
         cc_usdExchangeRate := positive_or (cc_usdExchangeRate currency) (cc_usdExchangeRate DEFAULT_CURRENCY_CONFIG),
         cc_customCurrencyExchangeRate :=
           positive_or (cc_customCurrencyExchangeRate currency) (cc_customCurrencyExchangeRate DEFAULT_CURRENCY_CONFIG),
         cc_customCurrencySymbol :=
           or_default (Some (trim (cc_customCurrencySymbol currency))) (cc_customCurrencySymbol DEFAULT_CURRENCY_CONFIG)\<rparr>)"

datatype DisplayMeta =
    CurrencyMeta jsstr jsstr jsnum
  | CustomMeta jsstr jsnum
  | TokensMeta jsnum

definition isCurrencyDisplayType :: "json option \<Rightarrow> bool" where
  "isCurrencyDisplayType v =
     (case v of Some (JStr s) \<Rightarrow> s \<in> set [js ''USD'', js ''CNY'', js ''TOKENS'', js ''CUSTOM''] | _ \<Rightarrow> False)"

definition parseCurrencyDisplayType :: "json option \<Rightarrow> jsstr \<Rightarrow> jsstr" where
  "parseCurrencyDisplayType v fallback =
     (if isCurrencyDisplayType v then (case v of Some (JStr s) \<Rightarrow> s | _ \<Rightarrow> fallback) else fallback)"

definition usdMeta :: DisplayMeta where
  "usdMeta = CurrencyMeta [36] (js ''USD'') (Fin 1)"

definition getDisplayMeta :: "CurrencyConfig \<Rightarrow> DisplayMeta" where
  "getDisplayMeta config =
     (if cc_quotaDisplayType config = js ''CNY'' then CurrencyMeta [165] (js ''CNY'') (cc_usdExchangeRate config)
      else if cc_quotaDisplayType config = js ''CUSTOM''
        then CustomMeta (cc_customCurrencySymbol config) (cc_customCurrencyExchangeRate config)
      else if cc_quotaDisplayType config = js ''TOKENS'' then TokensMeta (cc_quotaPerUnit config)
      else usdMeta)"

definition getBillingDisplayMeta :: "CurrencyConfig \<Rightarrow> DisplayMeta" where
  "getBillingDisplayMeta config =
     (case getDisplayMeta config of TokensMeta _ \<Rightarrow> usdMeta | meta \<Rightarrow> meta)"

definition getCurrencyDisplay :: "CurrencyConfig option \<Rightarrow> CurrencyConfig \<times> DisplayMeta" where
  "getCurrencyDisplay stored = (let config = getConfig stored in (config, getDisplayMeta config))"

section \<open>Options\<close>

record CurrencyFormatOptions =
  fo_digitsLarge :: "nat option"
  fo_digitsSmall :: "nat option"
  fo_abbreviate :: "bool option"
  fo_minimumNonZero :: "jsnum option"
  fo_compact :: "bool option"
  fo_showSymbol :: "bool option"
  fo_locale :: "jsstr option"

record ResolvedCurrencyFormatOptions =
  ro_digitsLarge :: nat
  ro_digitsSmall :: nat
  ro_abbreviate :: bool
  ro_minimumNonZero :: jsnum
  ro_compact :: bool
  ro_showSymbol :: bool
  ro_locale :: "jsstr option"

definition DEFAULT_FORMAT_OPTIONS :: ResolvedCurrencyFormatOptions where
  "DEFAULT_FORMAT_OPTIONS =
     \<lparr>ro_digitsLarge = 2, ro_digitsSmall = 4, ro_abbreviate = True, ro_minimumNonZero = Fin 0, ro_compact = False,
      ro_showSymbol = True, ro_locale = None\<rparr>"

definition nullish :: "'a option \<Rightarrow> 'a \<Rightarrow> 'a" where
  "nullish x d = (case x of None \<Rightarrow> d | Some v \<Rightarrow> v)"

definition mergeOptions :: "CurrencyFormatOptions option \<Rightarrow> ResolvedCurrencyFormatOptions" where
  "mergeOptions options =
     (case options of
        None \<Rightarrow> DEFAULT_FORMAT_OPTIONS
      | Some opts \<Rightarrow>
          \<lparr>ro_digitsLarge = nullish (fo_digitsLarge opts) (ro_digitsLarge DEFAULT_FORMAT_OPTIONS),
           ro_digitsSmall = nullish (fo_digitsSmall opts) (ro_digitsSmall DEFAULT_FORMAT_OPTIONS),
           ro_abbreviate = nullish (fo_abbreviate opts) (ro_abbreviate DEFAULT_FORMAT_OPTIONS),
           ro_minimumNonZero = nullish (fo_minimumNonZero opts) (ro_minimumNonZero DEFAULT_FORMAT_OPTIONS),
           ro_compact = nullish (fo_compact opts) (ro_compact DEFAULT_FORMAT_OPTIONS),
           ro_showSymbol = nullish (fo_showSymbol opts) (ro_showSymbol DEFAULT_FORMAT_OPTIONS),
           ro_locale = (case fo_locale opts of None \<Rightarrow> ro_locale DEFAULT_FORMAT_OPTIONS | l \<Rightarrow> l)\<rparr>)"

section \<open>Formatting\<close>

text \<open>The options given to \<open>Intl.NumberFormat\<close>, the runtime, and its two parameters.\<close>

record NumberFormatOptions =
  nf_currency :: "jsstr option"
  nf_compact :: bool
  nf_minimumFractionDigits :: "nat option"
  nf_maximumFractionDigits :: nat

record runtime =
  rt_numberText :: "jsnum \<Rightarrow> jsstr"
  rt_numberFormat :: "jsstr option \<Rightarrow> NumberFormatOptions \<Rightarrow> jsnum \<Rightarrow> jsstr option"

definition formatNumberWithSuffix :: "runtime \<Rightarrow> jsnum \<Rightarrow> nat \<Rightarrow> nat \<Rightarrow> bool \<Rightarrow> jsstr option" where
  "formatNumberWithSuffix rt value digitsLarge digitsSmall abbreviate =
     (let abs = num_abs value in
      if abbreviate \<and> num_leq (Fin 1000) abs
      then map_option (\<lambda>s. removeTrailingZeros s @ js ''k'') (to_fixed_text (rt_numberText rt) 1 (num_div value (Fin 1000)))
      else map_option removeTrailingZeros
        (to_fixed_text (rt_numberText rt) (if num_leq (Fin 1) abs then digitsLarge else digitsSmall) value))"

definition adjustForMinimum :: "jsnum \<Rightarrow> nat \<Rightarrow> jsnum \<Rightarrow> jsnum" where
  "adjustForMinimum value digits minimumNonZero =
     (if num_eq value (Fin 0) then value
      else let threshold = (if num_less (Fin 0) minimumNonZero then minimumNonZero else Fin (1 / 10 ^ digits));
               abs = num_abs value in
      if num_less (Fin 0) abs \<and> num_less abs threshold
      then (if num_less (Fin 0) value then threshold else num_neg threshold)
      else value)"

definition compactTokens :: "runtime \<Rightarrow> jsstr option \<Rightarrow> jsnum \<Rightarrow> jsstr option" where
  "compactTokens rt loc value =
     rt_numberFormat rt loc
       \<lparr>nf_currency = None, nf_compact = True, nf_minimumFractionDigits = None, nf_maximumFractionDigits = 1\<rparr> value"

definition formatAmount :: "runtime \<Rightarrow> ResolvedCurrencyFormatOptions \<Rightarrow> jsstr option \<Rightarrow> nat \<Rightarrow> jsnum \<Rightarrow> jsstr option" where
  "formatAmount rt opts code digits adjustedValue =
     rt_numberFormat rt (ro_locale opts)
       \<lparr>nf_currency = code, nf_compact = ro_compact opts, nf_minimumFractionDigits = Some 0,
        nf_maximumFractionDigits = (if ro_compact opts then 1 else digits)\<rparr> adjustedValue"

definition formatCurrencyValue :: "runtime \<Rightarrow> jsnum \<Rightarrow> ResolvedCurrencyFormatOptions \<Rightarrow> DisplayMeta \<Rightarrow> jsstr option" where
  "formatCurrencyValue rt value opts meta =
     (let digits = (if num_leq (Fin 1) (num_abs value) then ro_digitsLarge opts else ro_digitsSmall opts);
          adjustedValue = adjustForMinimum value digits (ro_minimumNonZero opts) in
      case meta of
        TokensMeta _ \<Rightarrow>
          if ro_compact opts then compactTokens rt (ro_locale opts) value
          else formatNumberWithSuffix rt value (ro_digitsLarge opts) (ro_digitsSmall opts) (ro_abbreviate opts)
      | CurrencyMeta _ code _ \<Rightarrow>
          if \<not> ro_showSymbol opts then formatAmount rt opts None digits adjustedValue
          else formatAmount rt opts (Some code) digits adjustedValue
      | CustomMeta symbol _ \<Rightarrow>
          map_option (\<lambda>decimal. if ro_showSymbol opts then symbol @ [32] @ decimal else decimal)
            (formatAmount rt opts None digits adjustedValue))"

definition is_missing :: "jsnum option \<Rightarrow> bool" where
  "is_missing amount \<longleftrightarrow> amount = None \<or> amount = Some NaN"

definition formatCurrencyFromUSD :: "runtime \<Rightarrow> CurrencyConfig option \<Rightarrow> jsnum option \<Rightarrow> CurrencyFormatOptions option \<Rightarrow> jsstr option" where
  "formatCurrencyFromUSD rt stored amountUSD options =
     (if is_missing amountUSD then Some (js ''-'')
      else let (config, meta) = getCurrencyDisplay stored; merged = mergeOptions options; amount = the amountUSD in
      case meta of
        TokensMeta _ \<Rightarrow>
          let tokens = num_mul amount (cc_quotaPerUnit config) in
          if ro_compact merged then compactTokens rt (ro_locale merged) tokens
          else formatNumberWithSuffix rt tokens 0 (ro_digitsSmall merged) (ro_abbreviate merged)
      | CurrencyMeta _ _ rate \<Rightarrow> formatCurrencyValue rt (num_mul amount rate) merged meta
      | CustomMeta _ rate \<Rightarrow> formatCurrencyValue rt (num_mul amount rate) merged meta)"

definition formatBillingCurrencyFromUSD :: "runtime \<Rightarrow> CurrencyConfig option \<Rightarrow> jsnum option \<Rightarrow> CurrencyFormatOptions option \<Rightarrow> jsstr option" where
  "formatBillingCurrencyFromUSD rt stored amountUSD options =
     (if is_missing amountUSD then Some (js ''-'')
      else let meta = getBillingDisplayMeta (fst (getCurrencyDisplay stored)); merged = mergeOptions options;
               amount = the amountUSD;
               value = (case meta of CurrencyMeta _ _ rate \<Rightarrow> num_mul amount rate
                 | CustomMeta _ rate \<Rightarrow> num_mul amount rate | TokensMeta _ \<Rightarrow> amount) in
      formatCurrencyValue rt value merged meta)"

definition formatQuotaWithCurrency :: "runtime \<Rightarrow> CurrencyConfig option \<Rightarrow> jsnum option \<Rightarrow> CurrencyFormatOptions option \<Rightarrow> jsstr option" where
  "formatQuotaWithCurrency rt stored quota options =
     (if is_missing quota then Some (js ''-'')
      else let config = fst (getCurrencyDisplay stored) in
      formatCurrencyFromUSD rt stored (Some (num_div (the quota) (cc_quotaPerUnit config))) options)"

definition getCurrencyLabel :: "CurrencyConfig option \<Rightarrow> jsstr" where
  "getCurrencyLabel stored =
     (let (config, meta) = getCurrencyDisplay stored in
      case meta of
        TokensMeta _ \<Rightarrow> js ''Tokens''
      | _ \<Rightarrow>
          if cc_quotaDisplayType config = js ''CNY'' then js ''CNY''
          else if cc_quotaDisplayType config = js ''CUSTOM''
            then (case meta of CustomMeta symbol _ \<Rightarrow> symbol | _ \<Rightarrow> js ''Custom'')
          else js ''USD'')"

definition isCurrencyDisplayEnabled :: "CurrencyConfig option \<Rightarrow> bool" where
  "isCurrencyDisplayEnabled stored = (case snd (getCurrencyDisplay stored) of TokensMeta _ \<Rightarrow> False | _ \<Rightarrow> True)"

definition formatLocalCurrencyAmount :: "runtime \<Rightarrow> CurrencyConfig option \<Rightarrow> jsnum option \<Rightarrow> CurrencyFormatOptions option \<Rightarrow> jsstr option" where
  "formatLocalCurrencyAmount rt stored amount options =
     (if is_missing amount then Some (js ''-'')
      else formatCurrencyValue rt (the amount) (mergeOptions options)
        (getBillingDisplayMeta (fst (getCurrencyDisplay stored))))"

section \<open>Quota in \<open>lib/format.ts\<close>\<close>

definition someOptions :: "nat \<Rightarrow> nat \<Rightarrow> bool \<Rightarrow> CurrencyFormatOptions option" where
  "someOptions large small abbreviate = Some
     \<lparr>fo_digitsLarge = Some large, fo_digitsSmall = Some small, fo_abbreviate = Some abbreviate,
      fo_minimumNonZero = None, fo_compact = None, fo_showSymbol = None, fo_locale = None\<rparr>"

definition formatQuota :: "runtime \<Rightarrow> CurrencyConfig option \<Rightarrow> jsnum \<Rightarrow> jsstr option" where
  "formatQuota rt stored quota = formatQuotaWithCurrency rt stored (Some quota) (someOptions 2 4 True)"

definition formatLogQuota :: "runtime \<Rightarrow> CurrencyConfig option \<Rightarrow> jsnum \<Rightarrow> jsstr option" where
  "formatLogQuota rt stored quota = formatQuotaWithCurrency rt stored (Some quota) (someOptions 4 6 False)"

fun metaRate :: "DisplayMeta \<Rightarrow> jsnum" where
  "metaRate (CurrencyMeta _ _ rate) = rate"
| "metaRate (CustomMeta _ rate) = rate"
| "metaRate (TokensMeta _) = Fin 1"

definition parseQuotaFromDollars :: "CurrencyConfig option \<Rightarrow> jsnum \<Rightarrow> jsnum" where
  "parseQuotaFromDollars stored amount =
     (if \<not> is_finite amount then Fin 0
      else let (config, meta) = getCurrencyDisplay stored in
      case meta of
        TokensMeta _ \<Rightarrow> num_round amount
      | _ \<Rightarrow>
          let exchangeRate = metaRate meta;
              usdAmount = (if num_less (Fin 0) exchangeRate then num_double (num_div amount exchangeRate) else amount) in
          num_round (num_double (num_mul usdAmount (cc_quotaPerUnit config))))"

definition quotaUnitsToDollars :: "CurrencyConfig option \<Rightarrow> jsnum \<Rightarrow> jsnum" where
  "quotaUnitsToDollars stored units =
     (let (config, meta) = getCurrencyDisplay stored in
      case meta of
        TokensMeta _ \<Rightarrow> units
      | _ \<Rightarrow> num_double (num_mul (num_double (num_div units (cc_quotaPerUnit config))) (metaRate meta)))"

text \<open>\<open>formatTokens\<close>: counts with the suffixes \<open>K\<close> and \<open>M\<close>.\<close>

definition formatTokens :: "runtime \<Rightarrow> jsnum \<Rightarrow> jsstr option" where
  "formatTokens rt tokens =
     (if num_eq tokens (Fin 0) then Some (js ''-'')
      else if num_less tokens (Fin 1000) then Some (rt_numberText rt tokens)
      else if num_less tokens (Fin 1000000)
        then map_option (\<lambda>s. s @ js ''K'') (to_fixed_text (rt_numberText rt) 1 (num_div tokens (Fin 1000)))
      else map_option (\<lambda>s. s @ js ''M'') (to_fixed_text (rt_numberText rt) 2 (num_div tokens (Fin 1000000))))"

end
