(* ===== verification/Pricing_Panel.thy ===== *)
theory Pricing_Panel
  imports Currency Request_Rules
begin

text \<open>
  The price editor of one model: the numbers it shows (\<open>pricing-format.ts\<close>), the conversion
  between ratios and prices (\<open>model-pricing-core.ts\<close>) and the panel with its handlers
  (\<open>model-pricing-sheet.tsx\<close>), all in \<open>features/system-settings/models\<close>. The panel is a state
  with one function per handler and a step relation whose guards are the disabled inputs of the
  page. \<open>nt\<close> is the text of a number. An optional text that is absent is the empty text, as
  every use of it in the sources treats both alike.
\<close>

section \<open>Numbers\<close>

definition DISPLAY_DECIMALS :: nat where "DISPLAY_DECIMALS = 12"
definition SNAP_DECIMALS :: nat where "SNAP_DECIMALS = 8"
definition SNAP_EPSILON :: rat where "SNAP_EPSILON = 1 / 10 ^ 12"

text \<open>The value of a field: \<open>null\<close> for the empty text and for what is no finite number.\<close>

definition toNumberOrNull :: "jsstr \<Rightarrow> rat option" where
  "toNumberOrNull value =
     (if value = [] then None else case number_of_string value of Fin q \<Rightarrow> Some q | _ \<Rightarrow> None)"

definition roundToDecimals :: "rat \<Rightarrow> nat \<Rightarrow> rat" where
  "roundToDecimals value decimals = of_int \<lfloor>value * 10 ^ decimals + 1 / 2\<rfloor> / 10 ^ decimals"

text \<open>\<open>Number.EPSILON\<close> is \<open>2^-52\<close>.\<close>

definition snapTolerance :: "rat \<Rightarrow> rat" where
  "snapTolerance value = max SNAP_EPSILON (\<bar>value\<bar> * (1 / 2 ^ 52) * 8)"

definition snapFloatDrift :: "rat \<Rightarrow> rat" where
  "snapFloatDrift value =
     (case List.find (\<lambda>d. \<bar>value - roundToDecimals value d\<bar> \<le> snapTolerance value) [0..<Suc SNAP_DECIMALS] of
        Some d \<Rightarrow> roundToDecimals value d
      | None \<Rightarrow> value)"

definition formatPricingNumber :: "(jsnum \<Rightarrow> jsstr) \<Rightarrow> rat \<Rightarrow> jsstr" where
  "formatPricingNumber nt num =
     nt (parse_float (the (to_fixed_text nt DISPLAY_DECIMALS (Fin (snapFloatDrift num)))))"

section \<open>Lanes\<close>

datatype PricingMode = PerToken | PerRequest | TieredExpr

datatype LaneKey = LaneCompletion | LaneCache | LaneCreateCache | LaneImage | LaneAudioInput | LaneAudioOutput

text \<open>The lanes in the order of \<open>laneConfigs\<close>.\<close>

definition laneConfigs :: "LaneKey list" where
  "laneConfigs = [LaneCompletion, LaneCache, LaneCreateCache, LaneImage, LaneAudioInput, LaneAudioOutput]"

text \<open>
  The data of a model and the fields of the form; the six ratios that \<open>ratioFieldByLane\<close> assigns
  to the lanes are one function of the lane.
\<close>

record ModelRatioData =
  md_name :: jsstr
  md_price :: jsstr
  md_ratio :: jsstr
  md_laneRatio :: "LaneKey \<Rightarrow> jsstr"
  md_billingMode :: "PricingMode option"
  md_billingExpr :: jsstr
  md_requestRuleExpr :: jsstr

record ModelPricingFormValues =
  fv_name :: jsstr
  fv_price :: jsstr
  fv_ratio :: jsstr
  fv_laneRatio :: "LaneKey \<Rightarrow> jsstr"

text \<open>\<open>/^(\d+(\.\d*)?|\.\d*)?$/\<close>.\<close>

definition numericDraft :: "jsstr \<Rightarrow> bool" where
  "numericDraft s = (let r = dropWhile is_digit s in r = [] \<or> hd r = 46 \<and> list_all is_digit (tl r))"

definition hasValue :: "jsstr \<Rightarrow> bool" where
  "hasValue value \<longleftrightarrow> value \<noteq> []"

definition ratioToBasePrice :: "(jsnum \<Rightarrow> jsstr) \<Rightarrow> jsstr \<Rightarrow> jsstr" where
  "ratioToBasePrice nt ratio = (case toNumberOrNull ratio of None \<Rightarrow> [] | Some n \<Rightarrow> formatPricingNumber nt (n * 2))"

definition deriveLanePrice :: "(jsnum \<Rightarrow> jsstr) \<Rightarrow> jsstr \<Rightarrow> jsstr \<Rightarrow> jsstr" where
  "deriveLanePrice nt ratio denominator =
     (case (toNumberOrNull ratio, toNumberOrNull denominator) of
        (Some r, Some d) \<Rightarrow> formatPricingNumber nt (r * d)
      | _ \<Rightarrow> [])"

record LaneState =
  ls_promptPrice :: jsstr
  ls_prices :: "LaneKey \<Rightarrow> jsstr"
  ls_enabled :: "LaneKey \<Rightarrow> bool"

definition createInitialLaneState :: "(jsnum \<Rightarrow> jsstr) \<Rightarrow> ModelRatioData option \<Rightarrow> LaneState" where
  "createInitialLaneState nt data =
     (case data of
        None \<Rightarrow> \<lparr>ls_promptPrice = [], ls_prices = (\<lambda>_. []), ls_enabled = (\<lambda>_. False)\<rparr>
      | Some d \<Rightarrow>
          let promptPrice = ratioToBasePrice nt (md_ratio d);
              audioInputPrice = deriveLanePrice nt (md_laneRatio d LaneAudioInput) promptPrice in
          \<lparr>ls_promptPrice = promptPrice,
           ls_prices = (\<lambda>lane. case lane of
               LaneAudioInput \<Rightarrow> audioInputPrice
             | LaneAudioOutput \<Rightarrow> deriveLanePrice nt (md_laneRatio d LaneAudioOutput) audioInputPrice
             | _ \<Rightarrow> deriveLanePrice nt (md_laneRatio d lane) promptPrice),
           ls_enabled = (\<lambda>lane. hasValue (md_laneRatio d lane))\<rparr>)"

section \<open>The panel\<close>

record PanelState =
  ps_editData :: "ModelRatioData option"
  ps_mode :: PricingMode
  ps_promptPrice :: jsstr
  ps_prices :: "LaneKey \<Rightarrow> jsstr"
  ps_enabled :: "LaneKey \<Rightarrow> bool"
  ps_billingExpr :: jsstr
  ps_requestRuleExpr :: jsstr
  ps_values :: ModelPricingFormValues

text \<open>The fields after \<open>form.reset\<close> and the state after the effect that loads a model.\<close>

definition initialValues :: "ModelRatioData option \<Rightarrow> ModelPricingFormValues" where
  "initialValues data =
     (case data of
        None \<Rightarrow> \<lparr>fv_name = [], fv_price = [], fv_ratio = [], fv_laneRatio = (\<lambda>_. [])\<rparr>
      | Some d \<Rightarrow> \<lparr>fv_name = md_name d, fv_price = md_price d, fv_ratio = md_ratio d, fv_laneRatio = md_laneRatio d\<rparr>)"

definition loadPanel :: "(jsnum \<Rightarrow> jsstr) \<Rightarrow> ModelRatioData option \<Rightarrow> PanelState" where
  "loadPanel nt data =
     (let lanes = createInitialLaneState nt data in
      \<lparr>ps_editData = data,
       ps_mode = (case data of
           None \<Rightarrow> PerToken
         | Some d \<Rightarrow> if md_billingMode d = Some TieredExpr then TieredExpr else if md_price d \<noteq> [] then PerRequest else PerToken),
       ps_promptPrice = ls_promptPrice lanes, ps_prices = ls_prices lanes, ps_enabled = ls_enabled lanes,
       ps_billingExpr = (case data of None \<Rightarrow> [] | Some d \<Rightarrow> md_billingExpr d),
       ps_requestRuleExpr = (case data of None \<Rightarrow> [] | Some d \<Rightarrow> md_requestRuleExpr d),
       ps_values = initialValues data\<rparr>)"

text \<open>The quotient of two prices as a text; without both prices, or over zero, there is none.\<close>

definition quotientText :: "(jsnum \<Rightarrow> jsstr) \<Rightarrow> jsstr \<Rightarrow> jsstr \<Rightarrow> jsstr" where
  "quotientText nt price base =
     (case (toNumberOrNull price, toNumberOrNull base) of
        (Some p, Some b) \<Rightarrow> if b = 0 then [] else formatPricingNumber nt (p / b)
      | _ \<Rightarrow> [])"

definition deriveLaneRatio :: "(jsnum \<Rightarrow> jsstr) \<Rightarrow> LaneKey \<Rightarrow> jsstr \<Rightarrow> jsstr \<Rightarrow> (LaneKey \<Rightarrow> jsstr) \<Rightarrow> jsstr" where
  "deriveLaneRatio nt lane price promptPrice prices =
     (if lane = LaneAudioOutput then quotientText nt price (prices LaneAudioInput) else quotientText nt price promptPrice)"

definition setLaneRatio :: "LaneKey \<Rightarrow> jsstr \<Rightarrow> PanelState \<Rightarrow> PanelState" where
  "setLaneRatio lane v st =
     st\<lparr>ps_values := (ps_values st)\<lparr>fv_laneRatio := (fv_laneRatio (ps_values st))(lane := v)\<rparr>\<rparr>"

definition setRatio :: "jsstr \<Rightarrow> PanelState \<Rightarrow> PanelState" where
  "setRatio v st = st\<lparr>ps_values := (ps_values st)\<lparr>fv_ratio := v\<rparr>\<rparr>"

definition baseRatio :: "(jsnum \<Rightarrow> jsstr) \<Rightarrow> jsstr \<Rightarrow> jsstr" where
  "baseRatio nt promptPrice = (case toNumberOrNull promptPrice of None \<Rightarrow> [] | Some p \<Rightarrow> formatPricingNumber nt (p / 2))"

definition syncLaneRatios :: "(jsnum \<Rightarrow> jsstr) \<Rightarrow> jsstr \<Rightarrow> PanelState \<Rightarrow> PanelState" where
  "syncLaneRatios nt promptPrice st =
     foldl (\<lambda>s lane. setLaneRatio lane
         (if \<not> ps_enabled st lane then [] else deriveLaneRatio nt lane (ps_prices st lane) promptPrice (ps_prices st)) s)
       (setRatio (baseRatio nt promptPrice) st) laneConfigs"

definition handlePromptPriceChange :: "(jsnum \<Rightarrow> jsstr) \<Rightarrow> jsstr \<Rightarrow> PanelState \<Rightarrow> PanelState" where
  "handlePromptPriceChange nt v st =
     (if \<not> numericDraft v then st else syncLaneRatios nt v (st\<lparr>ps_promptPrice := v\<rparr>))"

definition handleLanePriceChange :: "(jsnum \<Rightarrow> jsstr) \<Rightarrow> LaneKey \<Rightarrow> jsstr \<Rightarrow> PanelState \<Rightarrow> PanelState" where
  "handleLanePriceChange nt lane v st =
     (if \<not> numericDraft v then st
      else let nextLanePrices = (ps_prices st)(lane := v);
               st1 = st\<lparr>ps_prices := nextLanePrices\<rparr>;
               st2 = (if ps_enabled st lane
                      then setLaneRatio lane (deriveLaneRatio nt lane v (ps_promptPrice st) nextLanePrices) st1 else st1) in
      if lane = LaneAudioInput \<and> ps_enabled st LaneAudioOutput
      then setLaneRatio LaneAudioOutput
        (deriveLaneRatio nt LaneAudioOutput (nextLanePrices LaneAudioOutput) (ps_promptPrice st) nextLanePrices) st2
      else st2)"

definition handleLaneToggle :: "(jsnum \<Rightarrow> jsstr) \<Rightarrow> LaneKey \<Rightarrow> bool \<Rightarrow> PanelState \<Rightarrow> PanelState" where
  "handleLaneToggle nt lane checked st =
     (let enabled1 = (ps_enabled st)(lane := checked) in
      if \<not> checked then
        let prices1 = (ps_prices st)(lane := []); st1 = setLaneRatio lane [] st in
        if lane = LaneAudioInput
        then (setLaneRatio LaneAudioOutput [] st1)
          \<lparr>ps_enabled := enabled1(LaneAudioOutput := False), ps_prices := prices1(LaneAudioOutput := [])\<rparr>
        else st1\<lparr>ps_enabled := enabled1, ps_prices := prices1\<rparr>
      else setLaneRatio lane (deriveLaneRatio nt lane (ps_prices st lane) (ps_promptPrice st) (ps_prices st))
        (st\<lparr>ps_enabled := enabled1\<rparr>))"

definition defaultExpr :: jsstr where
  "defaultExpr = js ''tier(\"base\", p * 0 + c * 0)''"

definition handleModeChange :: "PricingMode \<Rightarrow> PanelState \<Rightarrow> PanelState" where
  "handleModeChange nextMode st =
     (if nextMode = TieredExpr \<and> ps_billingExpr st = []
      then st\<lparr>ps_mode := nextMode, ps_billingExpr := defaultExpr\<rparr> else st\<lparr>ps_mode := nextMode\<rparr>)"

text \<open>The field of the fixed price, the name (read-only for an existing model), the expression editor.\<close>

definition handlePriceField :: "jsstr \<Rightarrow> PanelState \<Rightarrow> PanelState" where
  "handlePriceField v st = (if numericDraft v then st\<lparr>ps_values := (ps_values st)\<lparr>fv_price := v\<rparr>\<rparr> else st)"

definition handleNameField :: "jsstr \<Rightarrow> PanelState \<Rightarrow> PanelState" where
  "handleNameField v st = st\<lparr>ps_values := (ps_values st)\<lparr>fv_name := v\<rparr>\<rparr>"

text \<open>The lane of audio output needs one of audio input.\<close>

definition laneDisabled :: "PanelState \<Rightarrow> LaneKey \<Rightarrow> bool" where
  "laneDisabled st lane \<longleftrightarrow>
     lane = LaneAudioOutput \<and> (\<not> ps_enabled st LaneAudioInput \<or> \<not> hasValue (ps_prices st LaneAudioInput))"

section \<open>Warnings, validation and submission\<close>

datatype PanelWarning = ConflictWarning | InputPriceRequired | AudioInputRequired

definition inputPriceMissing :: "PanelState \<Rightarrow> bool" where
  "inputPriceMissing st \<longleftrightarrow> ps_mode st = PerToken \<and> toNumberOrNull (ps_promptPrice st) = None \<and>
     list_ex (\<lambda>key. ps_enabled st key \<and> hasValue (ps_prices st key)) laneConfigs"

definition audioInputMissing :: "PanelState \<Rightarrow> bool" where
  "audioInputMissing st \<longleftrightarrow> ps_mode st = PerToken \<and> ps_enabled st LaneAudioOutput \<and> \<not> hasValue (ps_prices st LaneAudioInput)"

definition warnings :: "PanelState \<Rightarrow> PanelWarning list" where
  "warnings st =
     (case ps_editData st of
        Some d \<Rightarrow> if md_price d \<noteq> [] \<and> (hasValue (md_ratio d) \<or> list_ex (\<lambda>key. hasValue (md_laneRatio d key)) laneConfigs)
          then [ConflictWarning] else []
      | None \<Rightarrow> []) @
     (if inputPriceMissing st then [InputPriceRequired] else []) @ (if audioInputMissing st then [AudioInputRequired] else [])"

text \<open>The error a rejected draft sets, if any.\<close>

definition validatePricingValues :: "PanelState \<Rightarrow> PanelWarning option" where
  "validatePricingValues st =
     (if inputPriceMissing st then Some InputPriceRequired
      else if audioInputMissing st then Some AudioInputRequired else None)"

definition buildSubmitData :: "PanelState \<Rightarrow> ModelRatioData" where
  "buildSubmitData st =
     (let v = ps_values st in
      \<lparr>md_name = trim (fv_name v), md_price = fv_price v, md_ratio = fv_ratio v, md_laneRatio = fv_laneRatio v,
       md_billingMode = Some (ps_mode st),
       md_billingExpr = (if ps_mode st = TieredExpr then ps_billingExpr st else []),
       md_requestRuleExpr = (if ps_mode st = TieredExpr then ps_requestRuleExpr st else [])\<rparr>)"

text \<open>\<open>form.trigger\<close> checks the schema: the name is not empty.\<close>

definition commitDraft :: "PanelState \<Rightarrow> ModelRatioData option" where
  "commitDraft st =
     (if fv_name (ps_values st) = [] \<or> validatePricingValues st \<noteq> None then None else Some (buildSubmitData st))"

record PreviewRow =
  pr_key :: jsstr
  pr_label :: jsstr
  pr_value :: jsstr
  pr_multiline :: bool

definition previewLane :: "(jsstr \<Rightarrow> jsstr) \<Rightarrow> string \<Rightarrow> string \<Rightarrow> bool \<Rightarrow> jsstr \<Rightarrow> PreviewRow" where
  "previewLane tr key label enabled price =
     \<lparr>pr_key = js key, pr_label = tr (js label),
      pr_value = (if enabled \<and> price \<noteq> [] then [36] @ price else tr (js ''Empty'')), pr_multiline = False\<rparr>"

definition buildPreviewRows :: "(jsstr \<Rightarrow> jsstr) \<Rightarrow> PanelState \<Rightarrow> PreviewRow list" where
  "buildPreviewRows tr st =
     (case ps_mode st of
        TieredExpr \<Rightarrow>
          [\<lparr>pr_key = js ''mode'', pr_label = js ''BillingMode'', pr_value = js ''tiered_expr'', pr_multiline = False\<rparr>,
           \<lparr>pr_key = js ''expr'', pr_label = tr (js ''Expression''),
            pr_value = (let e = combineBillingExpr (ps_billingExpr st) (ps_requestRuleExpr st) in if e \<noteq> [] then e else tr (js ''Empty'')),
            pr_multiline = True\<rparr>]
      | PerRequest \<Rightarrow>
          [\<lparr>pr_key = js ''price'', pr_label = js ''ModelPrice'',
            pr_value = (if fv_price (ps_values st) \<noteq> [] then fv_price (ps_values st) else tr (js ''Empty'')), pr_multiline = False\<rparr>]
      | PerToken \<Rightarrow>
          [previewLane tr ''inputPrice'' ''Input price'' True (ps_promptPrice st),
           previewLane tr ''completion'' ''Completion price'' (ps_enabled st LaneCompletion) (ps_prices st LaneCompletion),
           previewLane tr ''cache'' ''Cache read price'' (ps_enabled st LaneCache) (ps_prices st LaneCache),
           previewLane tr ''createCache'' ''Cache write price'' (ps_enabled st LaneCreateCache) (ps_prices st LaneCreateCache),
           previewLane tr ''image'' ''Image input price'' (ps_enabled st LaneImage) (ps_prices st LaneImage),
           previewLane tr ''audio'' ''Audio input price'' (ps_enabled st LaneAudioInput) (ps_prices st LaneAudioInput),
           previewLane tr ''audioCompletion'' ''Audio output price'' (ps_enabled st LaneAudioOutput) (ps_prices st LaneAudioOutput)])"

section \<open>The panel as a step relation\<close>

datatype panel_event =
    OpenModel "ModelRatioData option"
  | PromptPrice jsstr
  | LanePrice LaneKey jsstr
  | LaneToggle LaneKey bool
  | ModeChange PricingMode
  | PriceField jsstr
  | NameField jsstr
  | ExprChange jsstr
  | RuleExprChange jsstr

text \<open>A disabled input raises no event.\<close>

fun panel_enabled :: "PanelState \<Rightarrow> panel_event \<Rightarrow> bool" where
  "panel_enabled st (LanePrice lane v) = (ps_enabled st lane \<and> \<not> laneDisabled st lane)"
| "panel_enabled st (LaneToggle lane checked) = (\<not> laneDisabled st lane)"
| "panel_enabled st (NameField v) = (ps_editData st = None)"
| "panel_enabled st _ = True"

fun panel_apply :: "(jsnum \<Rightarrow> jsstr) \<Rightarrow> panel_event \<Rightarrow> PanelState \<Rightarrow> PanelState" where
  "panel_apply nt (OpenModel data) st = loadPanel nt data"
| "panel_apply nt (PromptPrice v) st = handlePromptPriceChange nt v st"
| "panel_apply nt (LanePrice lane v) st = handleLanePriceChange nt lane v st"
| "panel_apply nt (LaneToggle lane checked) st = handleLaneToggle nt lane checked st"
| "panel_apply nt (ModeChange m) st = handleModeChange m st"
| "panel_apply nt (PriceField v) st = handlePriceField v st"
| "panel_apply nt (NameField v) st = handleNameField v st"
| "panel_apply nt (ExprChange v) st = st\<lparr>ps_billingExpr := v\<rparr>"
| "panel_apply nt (RuleExprChange v) st = st\<lparr>ps_requestRuleExpr := v\<rparr>"

inductive panel_step :: "(jsnum \<Rightarrow> jsstr) \<Rightarrow> PanelState \<Rightarrow> PanelState \<Rightarrow> bool" for nt where
  panel_step: "panel_enabled st e \<Longrightarrow> panel_step nt st (panel_apply nt e st)"

inductive_cases panel_stepE: "panel_step nt st st'"

definition panel_init :: "(jsnum \<Rightarrow> jsstr) \<Rightarrow> PanelState \<Rightarrow> bool" where
  "panel_init nt st \<longleftrightarrow> (\<exists>data. st = loadPanel nt data)"

section \<open>The saved ratios are those of the shown prices\<close>

text \<open>
  A field of the form is either still the loaded one, next to unchanged prices, or computed from
  the prices that are shown; a lane that is switched off has no ratio.
\<close>

definition lane_untouched :: "(jsnum \<Rightarrow> jsstr) \<Rightarrow> PanelState \<Rightarrow> LaneKey \<Rightarrow> bool" where
  "lane_untouched nt st lane \<longleftrightarrow>
     (let lanes = createInitialLaneState nt (ps_editData st) in
      fv_laneRatio (ps_values st) lane = fv_laneRatio (initialValues (ps_editData st)) lane \<and>
      ps_prices st lane = ls_prices lanes lane \<and>
      (if lane = LaneAudioOutput then ps_prices st LaneAudioInput = ls_prices lanes LaneAudioInput
       else ps_promptPrice st = ls_promptPrice lanes))"

definition ratio_untouched :: "(jsnum \<Rightarrow> jsstr) \<Rightarrow> PanelState \<Rightarrow> bool" where
  "ratio_untouched nt st \<longleftrightarrow> fv_ratio (ps_values st) = fv_ratio (initialValues (ps_editData st)) \<and>
     ps_promptPrice st = ls_promptPrice (createInitialLaneState nt (ps_editData st))"

definition lane_consistent :: "(jsnum \<Rightarrow> jsstr) \<Rightarrow> PanelState \<Rightarrow> LaneKey \<Rightarrow> bool" where
  "lane_consistent nt st lane \<longleftrightarrow>
     (if ps_enabled st lane
      then fv_laneRatio (ps_values st) lane = deriveLaneRatio nt lane (ps_prices st lane) (ps_promptPrice st) (ps_prices st) \<or>
        lane_untouched nt st lane
      else fv_laneRatio (ps_values st) lane = [] \<and> ps_prices st lane = [])"

definition panel_inv :: "(jsnum \<Rightarrow> jsstr) \<Rightarrow> PanelState \<Rightarrow> bool" where
  "panel_inv nt st \<longleftrightarrow> (\<forall>lane. lane_consistent nt st lane) \<and>
     (fv_ratio (ps_values st) = baseRatio nt (ps_promptPrice st) \<or> ratio_untouched nt st)"

lemma panel_inv_load: "panel_inv nt (loadPanel nt data)"
  by (cases data) (auto simp: panel_inv_def lane_consistent_def lane_untouched_def ratio_untouched_def loadPanel_def
      initialValues_def createInitialLaneState_def hasValue_def Let_def deriveLanePrice_def toNumberOrNull_def split: LaneKey.split)

lemma all_lanes: "set laneConfigs = UNIV"
  by (auto simp: laneConfigs_def intro: LaneKey.exhaust)

lemma set_lanes:
  "foldl (\<lambda>s lane. setLaneRatio lane (g lane) s) st lanes =
     st\<lparr>ps_values := (ps_values st)\<lparr>fv_laneRatio := (\<lambda>lane. if lane \<in> set lanes then g lane else fv_laneRatio (ps_values st) lane)\<rparr>\<rparr>"
proof (induction lanes rule: rev_induct)
  case (snoc x xs)
  have "(\<lambda>lane. if lane \<in> set xs then g lane else fv_laneRatio (ps_values st) lane)(x := g x) =
    (\<lambda>lane. if lane \<in> set (xs @ [x]) then g lane else fv_laneRatio (ps_values st) lane)" by auto
  with snoc show ?case by (simp add: setLaneRatio_def)
qed simp

lemma sync_values:
  "syncLaneRatios nt p st = st\<lparr>ps_values := (ps_values st)\<lparr>fv_ratio := baseRatio nt p,
     fv_laneRatio := (\<lambda>lane. if ps_enabled st lane then deriveLaneRatio nt lane (ps_prices st lane) p (ps_prices st) else [])\<rparr>\<rparr>"
proof -
  have "(\<lambda>lane. if \<not> ps_enabled st lane then [] else deriveLaneRatio nt lane (ps_prices st lane) p (ps_prices st)) =
    (\<lambda>lane. if ps_enabled st lane then deriveLaneRatio nt lane (ps_prices st lane) p (ps_prices st) else [])" by auto
  then show ?thesis unfolding syncLaneRatios_def set_lanes all_lanes by (simp add: setRatio_def)
qed

text \<open>Consistency of a lane only looks at its own fields and at the price it is relative to.\<close>

definition laneBase :: "PanelState \<Rightarrow> LaneKey \<Rightarrow> jsstr" where
  "laneBase st lane = (if lane = LaneAudioOutput then ps_prices st LaneAudioInput else ps_promptPrice st)"

definition sameLane :: "PanelState \<Rightarrow> PanelState \<Rightarrow> LaneKey \<Rightarrow> bool" where
  "sameLane st st' lane \<longleftrightarrow> ps_editData st' = ps_editData st \<and> ps_enabled st' lane = ps_enabled st lane \<and>
     ps_prices st' lane = ps_prices st lane \<and> fv_laneRatio (ps_values st') lane = fv_laneRatio (ps_values st) lane \<and>
     laneBase st' lane = laneBase st lane"

lemma lane_consistent_same: "lane_consistent nt st lane \<Longrightarrow> sameLane st st' lane \<Longrightarrow> lane_consistent nt st' lane"
  by (cases "lane = LaneAudioOutput"; cases "ps_enabled st lane")
    (simp_all add: lane_consistent_def sameLane_def laneBase_def lane_untouched_def deriveLaneRatio_def Let_def)

lemma lane_consistent_derived:
  "ps_enabled st lane \<Longrightarrow>
    fv_laneRatio (ps_values st) lane = deriveLaneRatio nt lane (ps_prices st lane) (ps_promptPrice st) (ps_prices st) \<Longrightarrow>
    lane_consistent nt st lane"
  by (simp add: lane_consistent_def)

lemma ratio_same:
  assumes "fv_ratio (ps_values st) = baseRatio nt (ps_promptPrice st) \<or> ratio_untouched nt st"
    and "ps_editData st' = ps_editData st" "ps_promptPrice st' = ps_promptPrice st" "fv_ratio (ps_values st') = fv_ratio (ps_values st)"
  shows "fv_ratio (ps_values st') = baseRatio nt (ps_promptPrice st') \<or> ratio_untouched nt st'"
  using assms by (simp add: ratio_untouched_def)

lemma panel_inv_prompt: "panel_inv nt st \<Longrightarrow> panel_inv nt (handlePromptPriceChange nt v st)"
  by (simp add: panel_inv_def lane_consistent_def handlePromptPriceChange_def sync_values)

lemma panel_inv_lane_price:
  assumes "panel_inv nt st" "ps_enabled st lane"
  shows "panel_inv nt (handleLanePriceChange nt lane v st)"
proof (cases "numericDraft v")
  case True
  let ?t = "handleLanePriceChange nt lane v st"
  have "lane_consistent nt ?t k" for k
  proof (cases "k = lane \<or> (lane = LaneAudioInput \<and> k = LaneAudioOutput \<and> ps_enabled st k)")
    case k: True
    then show ?thesis
      using True assms(2) by (intro lane_consistent_derived)
        (auto simp: handleLanePriceChange_def setLaneRatio_def deriveLaneRatio_def Let_def)
  next
    case False
    have c: "lane_consistent nt st k" using assms(1) by (simp add: panel_inv_def)
    show ?thesis
    proof (cases "lane = LaneAudioInput \<and> k = LaneAudioOutput")
      case True
      with c False show ?thesis by (auto simp: lane_consistent_def handleLanePriceChange_def setLaneRatio_def Let_def)
    next
      case k: False
      with c False True assms(2) show ?thesis
        by (intro lane_consistent_same [OF c])
          (auto simp: sameLane_def laneBase_def handleLanePriceChange_def setLaneRatio_def Let_def)
    qed
  qed
  moreover have "fv_ratio (ps_values ?t) = baseRatio nt (ps_promptPrice ?t) \<or> ratio_untouched nt ?t"
    by (rule ratio_same [of st]) (use assms(1) True in \<open>simp_all add: panel_inv_def handleLanePriceChange_def setLaneRatio_def Let_def\<close>)
  ultimately show ?thesis by (simp add: panel_inv_def)
qed (use assms in \<open>simp add: handleLanePriceChange_def\<close>)

lemma panel_inv_toggle:
  assumes "panel_inv nt st"
  shows "panel_inv nt (handleLaneToggle nt lane checked st)"
proof -
  let ?t = "handleLaneToggle nt lane checked st"
  have c: "lane_consistent nt st k" for k using assms by (simp add: panel_inv_def)
  have "lane_consistent nt ?t k" for k
  proof (cases checked)
    case True
    show ?thesis
    proof (cases "k = lane")
      case k: True
      with True show ?thesis
        by (intro lane_consistent_derived) (simp_all add: handleLaneToggle_def setLaneRatio_def deriveLaneRatio_def Let_def)
    next
      case False
      with True show ?thesis
        by (intro lane_consistent_same [OF c]) (simp add: sameLane_def laneBase_def handleLaneToggle_def setLaneRatio_def Let_def)
    qed
  next
    case False
    show ?thesis
    proof (cases "k = lane \<or> (lane = LaneAudioInput \<and> k = LaneAudioOutput)")
      case True
      with False show ?thesis by (auto simp: lane_consistent_def handleLaneToggle_def setLaneRatio_def Let_def)
    next
      case k: False
      with False show ?thesis
        by (intro lane_consistent_same [OF c]) (auto simp: sameLane_def laneBase_def handleLaneToggle_def setLaneRatio_def Let_def)
    qed
  qed
  moreover have "fv_ratio (ps_values ?t) = baseRatio nt (ps_promptPrice ?t) \<or> ratio_untouched nt ?t"
    by (rule ratio_same [of st]) (use assms in \<open>simp_all add: panel_inv_def handleLaneToggle_def setLaneRatio_def Let_def\<close>)
  ultimately show ?thesis by (simp add: panel_inv_def)
qed

lemma panel_inv_same:
  assumes "panel_inv nt st" "\<And>lane. sameLane st st' lane" "ps_promptPrice st' = ps_promptPrice st" "fv_ratio (ps_values st') = fv_ratio (ps_values st)"
  shows "panel_inv nt st'"
  using assms lane_consistent_same ratio_same [of st nt st'] unfolding panel_inv_def sameLane_def by blast

lemma panel_inv_other:
  assumes "panel_inv nt st"
  shows "panel_inv nt (handleModeChange m st)" "panel_inv nt (handlePriceField v st)" "panel_inv nt (handleNameField v st)"
    "panel_inv nt (st\<lparr>ps_billingExpr := v\<rparr>)" "panel_inv nt (st\<lparr>ps_requestRuleExpr := v\<rparr>)"
  by (rule panel_inv_same [OF assms]; simp add: sameLane_def laneBase_def handleModeChange_def handlePriceField_def handleNameField_def)+

interpretation price_panel: invariant_system "panel_init nt" "panel_step nt" "panel_inv nt" for nt
proof
  show "panel_init nt s \<Longrightarrow> panel_inv nt s" for s by (auto simp: panel_init_def panel_inv_load)
  show "panel_inv nt s \<Longrightarrow> panel_step nt s t \<Longrightarrow> panel_inv nt t" for s t
  proof (elim panel_stepE)
    fix e
    assume "panel_inv nt s" "panel_enabled s e" "t = panel_apply nt e s"
    then show "panel_inv nt t"
      by (cases e) (simp_all add: panel_inv_load panel_inv_prompt panel_inv_lane_price panel_inv_toggle panel_inv_other)
  qed
qed

end
