(* ===== verification/Pricing_Table.thy ===== *)
theory Pricing_Table
  imports Pricing_Panel JS_Stringify
begin

text \<open>
  The table of model prices of \<open>features/system-settings/models\<close>: the ten stored options are
  JSON texts that map a model to a number or a text. \<open>model-pricing-snapshots.ts\<close> reads them
  into one snapshot per model; \<open>model-ratio-visual-editor.tsx\<close> compares saved and edited
  options, opens the price editor of a model, deletes a model, writes what the editor submits
  back into the ten texts and copies it to other models; \<open>ratio-settings-card.tsx\<close> sends the
  options that changed. The page is the one of a wide screen, where the editor stands next to
  the table. A model name is not one of the inherited members of every object, such as
  \<open>constructor\<close>.
\<close>

section \<open>The ten options\<close>

text \<open>Every option but three holds the ratio of one lane of the price editor.\<close>

datatype PriceOption = ModelPrice | ModelRatio | LaneOption LaneKey | BillingModeOption | BillingExprOption

definition priceOptions :: "PriceOption list" where
  "priceOptions = [ModelPrice, ModelRatio, LaneOption LaneCache, LaneOption LaneCreateCache, LaneOption LaneCompletion,
     LaneOption LaneImage, LaneOption LaneAudioInput, LaneOption LaneAudioOutput, BillingModeOption, BillingExprOption]"

lemma set_priceOptions [simp]: "set priceOptions = UNIV"
proof -
  have "x \<in> set priceOptions" for x
    by (cases x; (cases "case x of LaneOption l \<Rightarrow> l | _ \<Rightarrow> LaneCache")?) (auto simp: priceOptions_def)
  then show ?thesis by blast
qed

type_synonym OptionTexts = "PriceOption \<Rightarrow> jsstr"
type_synonym Documents = "PriceOption \<Rightarrow> (jsstr \<times> json) list"

text \<open>
  What reading throws: keys of \<open>null\<close>, \<open>trim\<close> of a billing expression that is no text, the
  error of the rule reader. OptionTexts that hold some other value than an object are not followed.
\<close>

datatype table_error = NullDocument | NotAnObject | NotAText | RuleFailure rule_error

definition safeJsonParse :: "jsstr \<Rightarrow> json \<Rightarrow> json" where
  "safeJsonParse value fallback =
     (if trim value = [] then fallback else case json_parse (trim value) of Some v \<Rightarrow> v | None \<Rightarrow> fallback)"

definition documentOf :: "jsstr \<Rightarrow> table_error + (jsstr \<times> json) list" where
  "documentOf text =
     (case safeJsonParse text (JObj []) of JObj m \<Rightarrow> Inr m | JNull \<Rightarrow> Inl NullDocument | _ \<Rightarrow> Inl NotAnObject)"

definition readDocuments :: "OptionTexts \<Rightarrow> table_error + Documents" where
  "readDocuments opts =
     (case List.find (\<lambda>x. isl (documentOf (opts x))) priceOptions of
        Some x \<Rightarrow> Inl (projl (documentOf (opts x)))
      | None \<Rightarrow> Inr (\<lambda>x. projr (documentOf (opts x))))"

section \<open>Snapshots\<close>

record ModelPricingSnapshot =
  sn_name :: jsstr
  sn_price :: jsstr
  sn_ratio :: jsstr
  sn_laneRatio :: "LaneKey \<Rightarrow> jsstr"
  sn_billingMode :: PricingMode
  sn_billingExpr :: jsstr
  sn_requestRuleExpr :: jsstr
  sn_hasConflict :: bool

definition hasPricingValue :: "jsstr \<Rightarrow> bool" where
  "hasPricingValue value \<longleftrightarrow> value \<noteq> []"

definition isBasePricingUnset :: "ModelPricingSnapshot option \<Rightarrow> bool" where
  "isBasePricingUnset snapshot =
     (case snapshot of
        None \<Rightarrow> True
      | Some s \<Rightarrow> sn_billingMode s \<noteq> TieredExpr \<and> \<not> hasPricingValue (sn_price s) \<and> \<not> hasPricingValue (sn_ratio s))"

definition ratioToPrice :: "(jsnum \<Rightarrow> jsstr) \<Rightarrow> jsstr \<Rightarrow> jsstr \<Rightarrow> jsstr" where
  "ratioToPrice nt ratio denominator =
     (case (toNumberOrNull ratio, if denominator \<noteq> [] then toNumberOrNull denominator else Some 2) of
        (Some r, Some d) \<Rightarrow> formatPricingNumber nt (r * d)
      | _ \<Rightarrow> [])"

definition getModeLabel :: "PricingMode \<Rightarrow> jsstr" where
  "getModeLabel mode = (case mode of PerRequest \<Rightarrow> js ''Per-request'' | TieredExpr \<Rightarrow> js ''Expression'' | PerToken \<Rightarrow> js ''Per-token'')"

datatype BadgeVariant = BadgeWarning | BadgeInfo | BadgeSuccess

definition getModeVariant :: "PricingMode \<Rightarrow> BadgeVariant" where
  "getModeVariant mode = (case mode of PerRequest \<Rightarrow> BadgeWarning | TieredExpr \<Rightarrow> BadgeInfo | PerToken \<Rightarrow> BadgeSuccess)"

text \<open>The number of matches of \<open>/tier\(/g\<close>; two of them cannot overlap.\<close>

fun tierCount :: "jsstr \<Rightarrow> nat" where
  "tierCount [] = 0"
| "tierCount (c # s) = (if starts_with (c # s) (js ''tier('') then 1 else 0) + tierCount s"

abbreviation "dotSep \<equiv> [32, 183, 32]"

definition getExpressionSummary :: "(jsstr \<Rightarrow> jsstr) \<Rightarrow> ModelPricingSnapshot \<Rightarrow> jsstr" where
  "getExpressionSummary tr row =
     (let n = tierCount (sn_billingExpr row) in
      if n > 0 then tr (js ''Tiered pricing'') @ dotSep @ show_nat n @ [32] @ tr (js ''tiers'') else tr (js ''Expression pricing''))"

definition laneFields :: "LaneKey list" where
  "laneFields = [LaneCompletion, LaneCache, LaneCreateCache, LaneImage, LaneAudioInput, LaneAudioOutput]"

definition getPriceSummary :: "(jsnum \<Rightarrow> jsstr) \<Rightarrow> (jsstr \<Rightarrow> jsstr) \<Rightarrow> ModelPricingSnapshot \<Rightarrow> jsstr" where
  "getPriceSummary nt tr row =
     (case sn_billingMode row of
        TieredExpr \<Rightarrow> getExpressionSummary tr row
      | PerRequest \<Rightarrow> if sn_price row \<noteq> [] then [36] @ sn_price row @ js '' / '' @ tr (js ''request'') else tr (js ''Unset price'')
      | PerToken \<Rightarrow>
          let inputPrice = ratioToPrice nt (sn_ratio row) [];
              extraCount = length (filter (\<lambda>lane. hasPricingValue (sn_laneRatio row lane)) laneFields) in
          if inputPrice = [] then tr (js ''Unset price'')
          else if extraCount > 0
          then tr (js ''Input'') @ js '' $'' @ inputPrice @ dotSep @ show_nat extraCount @ [32] @ tr (js ''extras'')
          else tr (js ''Input'') @ js '' $'' @ inputPrice)"

definition getPriceDetail :: "(jsnum \<Rightarrow> jsstr) \<Rightarrow> (jsstr \<Rightarrow> jsstr) \<Rightarrow> ModelPricingSnapshot \<Rightarrow> jsstr" where
  "getPriceDetail nt tr row =
     (case sn_billingMode row of
        TieredExpr \<Rightarrow> if sn_requestRuleExpr row \<noteq> [] then tr (js ''Includes request rules'') else tr (js ''Expression based'')
      | PerRequest \<Rightarrow> tr (js ''Fixed request price'')
      | PerToken \<Rightarrow>
          let inputPrice = ratioToPrice nt (sn_ratio row) [];
              detail = (\<lambda>(lane, label). tr (js label) @ js '' $'' @ ratioToPrice nt (sn_laneRatio row lane) inputPrice);
              details = take 2 (map detail (filter (\<lambda>(lane, label). sn_laneRatio row lane \<noteq> [])
                [(LaneCompletion, ''Output''), (LaneCache, ''Cache''), (LaneCreateCache, ''Cache write'')])) in
          if inputPrice = [] then tr (js ''No base input price'')
          else if details \<noteq> [] then join dotSep details else tr (js ''Base input price only''))"

text \<open>The text of the number a literal denotes, and \<open>map[name]?.toString() || ''\<close>.\<close>

definition lit :: "(jsnum \<Rightarrow> jsstr) \<Rightarrow> jsstr \<Rightarrow> jsstr" where
  "lit nt n = nt (number_of_string n)"

definition storedText :: "(jsnum \<Rightarrow> jsstr) \<Rightarrow> (jsstr \<times> json) list \<Rightarrow> jsstr \<Rightarrow> jsstr" where
  "storedText nt m name =
     (case map_of m name of None \<Rightarrow> [] | Some JNull \<Rightarrow> [] | Some v \<Rightarrow> js_String (lit nt) v)"

definition storedExpr :: "(jsstr \<times> json) list \<Rightarrow> jsstr \<Rightarrow> table_error + jsstr" where
  "storedExpr m name =
     (case map_of m name of
        None \<Rightarrow> Inr []
      | Some v \<Rightarrow> if \<not> truthy v then Inr [] else case v of JStr s \<Rightarrow> Inr s | _ \<Rightarrow> Inl NotAText)"

abbreviation "tieredText \<equiv> js ''tiered_expr''"

definition priceSnapshot :: "(jsnum \<Rightarrow> jsstr) \<Rightarrow> Documents \<Rightarrow> jsstr \<Rightarrow> ModelPricingSnapshot" where
  "priceSnapshot nt docs name =
     (let price = storedText nt (docs ModelPrice) name; ratio = storedText nt (docs ModelRatio) name;
          lanes = (\<lambda>lane. storedText nt (docs (LaneOption lane)) name) in
      \<lparr>sn_name = name, sn_price = price, sn_ratio = ratio, sn_laneRatio = lanes,
       sn_billingMode = (if price \<noteq> [] then PerRequest else PerToken), sn_billingExpr = [], sn_requestRuleExpr = [],
       sn_hasConflict = (price \<noteq> [] \<and> (ratio \<noteq> [] \<or> list_ex (\<lambda>lane. lanes lane \<noteq> []) laneFields))\<rparr>)"

definition expressionSnapshot :: "(jsnum \<Rightarrow> jsstr) \<Rightarrow> ModelPricingSnapshot \<Rightarrow> jsstr \<Rightarrow> table_error + ModelPricingSnapshot" where
  "expressionSnapshot nt s fullExpr =
     (case splitBillingExprAndRequestRules (lit nt) fullExpr of
        Inl e \<Rightarrow> Inl (RuleFailure e)
      | Inr p \<Rightarrow> Inr (s\<lparr>sn_billingMode := TieredExpr, sn_billingExpr := billingExpr p,
          sn_requestRuleExpr := requestRuleExpr p, sn_hasConflict := False\<rparr>))"

definition modelSnapshot :: "(jsnum \<Rightarrow> jsstr) \<Rightarrow> Documents \<Rightarrow> jsstr \<Rightarrow> table_error + ModelPricingSnapshot" where
  "modelSnapshot nt docs name =
     (if map_of (docs BillingModeOption) name = Some (JStr tieredText)
      then (case storedExpr (docs BillingExprOption) name of
          Inl e \<Rightarrow> Inl e
        | Inr fullExpr \<Rightarrow> expressionSnapshot nt (priceSnapshot nt docs name) fullExpr)
      else Inr (priceSnapshot nt docs name))"

fun collect :: "('a \<Rightarrow> 'e + 'b) \<Rightarrow> 'a list \<Rightarrow> 'e + 'b list" where
  "collect f [] = Inr []"
| "collect f (x # xs) =
     (case f x of Inl e \<Rightarrow> Inl e | Inr y \<Rightarrow> case collect f xs of Inl e \<Rightarrow> Inl e | Inr ys \<Rightarrow> Inr (y # ys))"

definition modelNames :: "Documents \<Rightarrow> jsstr list" where
  "modelNames docs = set_of (concat (map (\<lambda>x. keys_of (js_entries (docs x))) priceOptions))"

definition buildModelSnapshots :: "(jsnum \<Rightarrow> jsstr) \<Rightarrow> OptionTexts \<Rightarrow> table_error + ModelPricingSnapshot list" where
  "buildModelSnapshots nt opts =
     (case readDocuments opts of Inl e \<Rightarrow> Inl e | Inr docs \<Rightarrow> collect (modelSnapshot nt docs) (modelNames docs))"

definition modeText :: "PricingMode \<Rightarrow> jsstr" where
  "modeText mode = (case mode of PerToken \<Rightarrow> js ''per-token'' | PerRequest \<Rightarrow> js ''per-request'' | TieredExpr \<Rightarrow> tieredText)"

definition signatureFields :: "ModelPricingSnapshot \<Rightarrow> (jsstr \<times> json) list" where
  "signatureFields s =
     [(js ''price'', JStr (sn_price s)), (js ''ratio'', JStr (sn_ratio s)),
      (js ''cacheRatio'', JStr (sn_laneRatio s LaneCache)), (js ''createCacheRatio'', JStr (sn_laneRatio s LaneCreateCache)),
      (js ''completionRatio'', JStr (sn_laneRatio s LaneCompletion)), (js ''imageRatio'', JStr (sn_laneRatio s LaneImage)),
      (js ''audioRatio'', JStr (sn_laneRatio s LaneAudioInput)), (js ''audioCompletionRatio'', JStr (sn_laneRatio s LaneAudioOutput)),
      (js ''billingMode'', JStr (modeText (sn_billingMode s))), (js ''billingExpr'', JStr (sn_billingExpr s)),
      (js ''requestRuleExpr'', JStr (sn_requestRuleExpr s))]"

definition getSnapshotSignature :: "(jsnum \<Rightarrow> jsstr) \<Rightarrow> ModelPricingSnapshot option \<Rightarrow> jsstr" where
  "getSnapshotSignature nt snapshot = (case snapshot of None \<Rightarrow> [] | Some s \<Rightarrow> json_stringify (lit nt) (JObj (signatureFields s)))"

section \<open>The rows of the table\<close>

record ModelRow =
  row_displayed :: ModelPricingSnapshot
  row_saved :: "ModelPricingSnapshot option"
  row_draft :: "ModelPricingSnapshot option"
  row_isDraftChanged :: bool
  row_isDraftDeleted :: bool
  row_isDraftNew :: bool

datatype FilterMode = FilterAll | FilterUnset

definition byName :: "ModelPricingSnapshot list \<Rightarrow> (jsstr \<times> ModelPricingSnapshot) list" where
  "byName rows = foldl (\<lambda>m row. AList.update (sn_name row) row m) [] rows"

definition emptySnapshot :: "jsstr \<Rightarrow> ModelPricingSnapshot" where
  "emptySnapshot name = \<lparr>sn_name = name, sn_price = [], sn_ratio = [], sn_laneRatio = (\<lambda>_. []), sn_billingMode = PerToken,
     sn_billingExpr = [], sn_requestRuleExpr = [], sn_hasConflict = False\<rparr>"

definition modelRow :: "(jsnum \<Rightarrow> jsstr) \<Rightarrow> ModelPricingSnapshot option \<Rightarrow> ModelPricingSnapshot option \<Rightarrow> jsstr \<Rightarrow> ModelRow" where
  "modelRow nt saved draft name =
     \<lparr>row_displayed = (case saved of Some s \<Rightarrow> s | None \<Rightarrow> case draft of Some d \<Rightarrow> d | None \<Rightarrow> emptySnapshot name),
      row_saved = saved, row_draft = draft,
      row_isDraftChanged = (getSnapshotSignature nt saved \<noteq> getSnapshotSignature nt draft),
      row_isDraftDeleted = (saved \<noteq> None \<and> draft = None), row_isDraftNew = (saved = None \<and> draft \<noteq> None)\<rparr>"

text \<open>\<open>collate\<close> is \<open>localeCompare\<close>, whose order depends on the locale.\<close>

definition models :: "(jsnum \<Rightarrow> jsstr) \<Rightarrow> jsstr cmp \<Rightarrow> FilterMode \<Rightarrow> jsstr list \<Rightarrow> OptionTexts \<Rightarrow> OptionTexts \<Rightarrow> table_error + ModelRow list" where
  "models nt collate filterMode candidateModelNames savedOpts opts =
     (case buildModelSnapshots nt savedOpts of
        Inl e \<Rightarrow> Inl e
      | Inr savedRows \<Rightarrow>
         (case buildModelSnapshots nt opts of
            Inl e \<Rightarrow> Inl e
          | Inr draftRows \<Rightarrow>
              let savedByName = byName savedRows; draftByName = byName draftRows;
                  names = (if filterMode = FilterUnset then set_of candidateModelNames
                    else set_of (keys_of savedByName @ keys_of draftByName)) in
              Inr (js_sort (cmp_key (\<lambda>row. sn_name (row_displayed row)) collate)
                (filter (\<lambda>row. filterMode \<noteq> FilterUnset \<or> isBasePricingUnset (row_saved row))
                  (filter (\<lambda>row. \<not> row_isDraftDeleted row)
                    (map (\<lambda>name. modelRow nt (map_of savedByName name) (map_of draftByName name) name) names))))))"

definition tableModeCounts :: "ModelRow list \<Rightarrow> PricingMode \<Rightarrow> nat" where
  "tableModeCounts rows = foldl (\<lambda>acc row. let mode = sn_billingMode (row_displayed row) in acc(mode := acc mode + 1)) (\<lambda>_. 0) rows"

section \<open>Writing the options\<close>

definition setIfPresent :: "(jsnum \<Rightarrow> jsstr) \<Rightarrow> jsstr \<Rightarrow> jsstr \<Rightarrow> (jsstr \<times> json) list \<Rightarrow> (jsstr \<times> json) list" where
  "setIfPresent nt name value target =
     (if value = [] then target
      else case parse_float value of Fin q \<Rightarrow> AList.update name (JNum (nt (Fin q))) target | _ \<Rightarrow> target)"

definition deleteModel :: "jsstr \<Rightarrow> Documents \<Rightarrow> Documents" where
  "deleteModel name docs = (\<lambda>x. AList.delete name (docs x))"

definition setRatios :: "(jsnum \<Rightarrow> jsstr) \<Rightarrow> ModelRatioData \<Rightarrow> jsstr \<Rightarrow> Documents \<Rightarrow> Documents" where
  "setRatios nt data name docs = (\<lambda>x. case x of
       ModelRatio \<Rightarrow> setIfPresent nt name (md_ratio data) (docs x)
     | LaneOption lane \<Rightarrow> setIfPresent nt name (md_laneRatio data lane) (docs x)
     | _ \<Rightarrow> docs x)"

definition setPrice :: "(jsnum \<Rightarrow> jsstr) \<Rightarrow> ModelRatioData \<Rightarrow> jsstr \<Rightarrow> Documents \<Rightarrow> Documents" where
  "setPrice nt data name docs = docs(ModelPrice := setIfPresent nt name (md_price data) (docs ModelPrice))"

definition setExpression :: "jsstr \<Rightarrow> jsstr \<Rightarrow> Documents \<Rightarrow> Documents" where
  "setExpression combined name docs =
     (if combined = [] then docs
      else docs(BillingModeOption := AList.update name (JStr tieredText) (docs BillingModeOption),
                BillingExprOption := AList.update name (JStr combined) (docs BillingExprOption)))"

text \<open>The body of the loop over the target names in \<open>persistPricingData\<close>.\<close>

definition persistModel :: "(jsnum \<Rightarrow> jsstr) \<Rightarrow> ModelRatioData \<Rightarrow> Documents \<Rightarrow> jsstr \<Rightarrow> Documents" where
  "persistModel nt data docs name =
     (let cleared = deleteModel name docs in
      if md_billingMode data = Some TieredExpr
      then setRatios nt data name (setPrice nt data name
        (setExpression (combineBillingExpr (md_billingExpr data) (md_requestRuleExpr data)) name cleared))
      else if md_price data \<noteq> [] then setPrice nt data name cleared
      else setRatios nt data name cleared)"

definition writeDocuments :: "(jsnum \<Rightarrow> jsstr) \<Rightarrow> Documents \<Rightarrow> OptionTexts" where
  "writeDocuments nt docs = (\<lambda>x. json_pretty (lit nt) (JObj (docs x)))"

definition persistPricingData :: "(jsnum \<Rightarrow> jsstr) \<Rightarrow> ModelRatioData \<Rightarrow> jsstr list \<Rightarrow> OptionTexts \<Rightarrow> table_error + OptionTexts" where
  "persistPricingData nt data targetNames opts =
     (case readDocuments opts of
        Inl e \<Rightarrow> Inl e
      | Inr docs \<Rightarrow> Inr (writeDocuments nt (foldl (persistModel nt data) docs targetNames)))"

section \<open>The page\<close>

record TableState =
  ts_options :: OptionTexts
  ts_editData :: "ModelRatioData option"
  ts_editorOpen :: bool
  ts_globalFilter :: jsstr
  ts_panel :: PanelState

text \<open>The panel loads its fields when the edited model changes and when it appears.\<close>

definition setEditData :: "(jsnum \<Rightarrow> jsstr) \<Rightarrow> ModelRatioData \<Rightarrow> TableState \<Rightarrow> TableState" where
  "setEditData nt data st = st\<lparr>ts_editData := Some data, ts_panel := loadPanel nt (Some data)\<rparr>"

definition closeEditor :: "TableState \<Rightarrow> TableState" where
  "closeEditor st = st\<lparr>ts_editData := None, ts_editorOpen := False\<rparr>"

definition editableData :: "ModelPricingSnapshot \<Rightarrow> ModelRatioData" where
  "editableData s =
     \<lparr>md_name = sn_name s, md_price = sn_price s, md_ratio = sn_ratio s, md_laneRatio = sn_laneRatio s,
      md_billingMode = Some (if sn_billingMode s = TieredExpr then TieredExpr else if sn_price s \<noteq> [] then PerRequest else PerToken),
      md_billingExpr = sn_billingExpr s, md_requestRuleExpr = sn_requestRuleExpr s\<rparr>"

definition handleEdit :: "(jsnum \<Rightarrow> jsstr) \<Rightarrow> ModelRow \<Rightarrow> TableState \<Rightarrow> TableState" where
  "handleEdit nt row st =
     (let editableModel = (case row_draft row of Some d \<Rightarrow> d | None \<Rightarrow>
        case row_saved row of Some s \<Rightarrow> s | None \<Rightarrow> row_displayed row) in
      (setEditData nt (editableData editableModel) st)\<lparr>ts_editorOpen := True\<rparr>)"

definition handleAdd :: "(jsnum \<Rightarrow> jsstr) \<Rightarrow> TableState \<Rightarrow> TableState" where
  "handleAdd nt st =
     (if ts_editorOpen st \<and> ts_editData st = None then st
      else st\<lparr>ts_editData := None, ts_editorOpen := True, ts_panel := loadPanel nt None\<rparr>)"

definition handleGlobalFilterChange :: "jsstr \<Rightarrow> TableState \<Rightarrow> TableState" where
  "handleGlobalFilterChange nextFilter st =
     (if nextFilter \<noteq> ts_globalFilter st then (closeEditor st)\<lparr>ts_globalFilter := nextFilter\<rparr> else st)"

definition globalFilterFn :: "(jsstr \<Rightarrow> jsstr) \<Rightarrow> ModelRow \<Rightarrow> jsstr \<Rightarrow> bool" where
  "globalFilterFn lower row filterValue \<longleftrightarrow> str_includes (lower (sn_name (row_displayed row))) (lower filterValue)"

definition handleDelete :: "(jsnum \<Rightarrow> jsstr) \<Rightarrow> jsstr \<Rightarrow> TableState \<Rightarrow> table_error + TableState" where
  "handleDelete nt name st =
     (case readDocuments (ts_options st) of
        Inl e \<Rightarrow> Inl e
      | Inr docs \<Rightarrow>
          let st1 = st\<lparr>ts_options := writeDocuments nt (deleteModel name docs)\<rparr> in
          Inr (if map_option md_name (ts_editData st) = Some name then closeEditor st1 else st1))"

definition persistTo :: "(jsnum \<Rightarrow> jsstr) \<Rightarrow> ModelRatioData \<Rightarrow> jsstr list \<Rightarrow> TableState \<Rightarrow> table_error + TableState" where
  "persistTo nt data names st =
     map_sum id (\<lambda>opts. st\<lparr>ts_options := opts\<rparr>) (persistPricingData nt data names (ts_options st))"

text \<open>The flag is whether the page may be saved.\<close>

definition commitOpenEditor :: "(jsnum \<Rightarrow> jsstr) \<Rightarrow> TableState \<Rightarrow> table_error + (bool \<times> TableState)" where
  "commitOpenEditor nt st =
     (if \<not> ts_editorOpen st then Inr (True, st)
      else case commitDraft (ts_panel st) of
          None \<Rightarrow> Inr (False, st)
        | Some data \<Rightarrow> map_sum id (\<lambda>st1. (True, setEditData nt data st1)) (persistTo nt data [md_name data] st))"

datatype CopyOutcome = NoSource | DraftRejected | NoTarget | CopiedTo nat

definition handleBatchCopy :: "(jsnum \<Rightarrow> jsstr) \<Rightarrow> jsstr list \<Rightarrow> TableState \<Rightarrow> table_error + (CopyOutcome \<times> TableState)" where
  "handleBatchCopy nt targetNames st =
     (case ts_editData st of
        None \<Rightarrow> Inr (NoSource, st)
      | Some editData \<Rightarrow>
          (case (if ts_editorOpen st then commitDraft (ts_panel st) else Some editData) of
             None \<Rightarrow> Inr (DraftRejected, st)
           | Some sourceData \<Rightarrow>
               let st1 = (if ts_editorOpen st then setEditData nt sourceData st else st) in
               if targetNames = [] then Inr (NoTarget, st1)
               else map_sum id (Pair (CopiedTo (length targetNames)))
                 (persistTo nt sourceData (set_of (md_name sourceData # targetNames)) st1)))"

end
