(* ===== verification/Pricing_Stored.thy ===== *)
theory Pricing_Stored
  imports Pricing_Table
begin

text \<open>
  What the ten option texts hold for a model: the options are read as one map of values per
  option, writing and reading them keeps what every model stores, and one write of the editor
  replaces the entries of its target models only.
\<close>

section \<open>Texts of numbers\<close>

text \<open>
  Number to text is stable: a number is written as a literal that is written the same again and
  is zero only for zero.
\<close>

definition stable_numbers :: "(jsnum \<Rightarrow> jsstr) \<Rightarrow> bool" where
  "stable_numbers nt \<longleftrightarrow> writes_numbers (lit nt) \<and>
     (\<forall>n. json_number n \<longrightarrow> lit nt (lit nt n) = lit nt n \<and> (number_of_string (lit nt n) = Fin 0 \<longleftrightarrow> number_of_string n = Fin 0))"

text \<open>A field that is empty or the text of the number it denotes.\<close>

definition own_text :: "(jsnum \<Rightarrow> jsstr) \<Rightarrow> jsstr \<Rightarrow> bool" where
  "own_text nt v \<longleftrightarrow> v = [] \<or> json_number v \<and> is_finite (parse_float v) \<and> number_of_string v = parse_float v \<and> lit nt v = v"

definition own_texts :: "(jsnum \<Rightarrow> jsstr) \<Rightarrow> ModelRatioData \<Rightarrow> bool" where
  "own_texts nt data \<longleftrightarrow> own_text nt (md_price data) \<and> own_text nt (md_ratio data) \<and> (\<forall>lane. own_text nt (md_laneRatio data lane))"

lemma setIfPresent_own:
  "own_text nt v \<Longrightarrow> setIfPresent nt name v m = (if v = [] then m else AList.update name (JNum v) m)"
  by (auto simp: setIfPresent_def own_text_def lit_def elim: is_finite.elims)

section \<open>Reading and writing\<close>

lemma documentOf_printable: "documentOf t = Inr m \<Longrightarrow> printable (JObj m)"
  by (auto simp: documentOf_def safeJsonParse_def split: if_splits option.splits json.splits dest!: json_parse_printable)

lemma readDocuments_Inr: "readDocuments opts = Inr docs \<longleftrightarrow> (\<forall>x. documentOf (opts x) = Inr (docs x))"
proof (cases "List.find (\<lambda>x. isl (documentOf (opts x))) priceOptions")
  case None
  then have "\<not> isl (documentOf (opts x))" for x by (simp add: find_None_iff)
  then have "documentOf (opts x) = Inr (projr (documentOf (opts x)))" for x by (metis sum.collapse(2))
  with None show ?thesis by (auto simp: readDocuments_def fun_eq_iff)
next
  case (Some x)
  then have "isl (documentOf (opts x))" by (auto simp: find_Some_iff)
  then have "documentOf (opts x) \<noteq> Inr (docs x)" by (auto simp: isl_def)
  with Some show ?thesis by (auto simp: readDocuments_def)
qed

definition canonDoc :: "(jsnum \<Rightarrow> jsstr) \<Rightarrow> (jsstr \<times> json) list \<Rightarrow> (jsstr \<times> json) list" where
  "canonDoc nt m = js_entries (map (\<lambda>(k, v). (k, json_canon (lit nt) v)) m)"

lemma documentOf_pretty:
  assumes "writes_numbers (lit nt)" "printable (JObj m)"
  shows "documentOf (json_pretty (lit nt) (JObj m)) = Inr (canonDoc nt m)"
proof -
  have "json_parse (json_pretty (lit nt) (JObj m)) = Some (JObj (canonDoc nt m))"
    using json_parse_stringify(2) [OF canon_printable [OF assms]] by (simp add: canonDoc_def)
  then have "json_parse (trim (json_pretty (lit nt) (JObj m))) = Some (JObj (canonDoc nt m))" by (rule json_parse_trim)
  moreover from this have "trim (json_pretty (lit nt) (JObj m)) \<noteq> []" by (auto simp: json_parse_def)
  ultimately show ?thesis by (simp add: documentOf_def safeJsonParse_def)
qed

lemma map_of_canonDoc:
  assumes "wf_map m"
  shows "map_of (canonDoc nt m) k = map_option (json_canon (lit nt)) (map_of m k)"
proof -
  let ?m = "map (\<lambda>(k, v). (k, json_canon (lit nt) v)) m"
  have d: "wf_map ?m" using assms by (simp add: comp_def case_prod_unfold)
  then have "map_of (js_entries ?m) = map_of ?m" using distinct_js_entries [OF d] by (simp add: map_of_inject_set)
  then show ?thesis by (simp add: canonDoc_def map_of_map)
qed

lemma js_String_canon:
  "stable_numbers nt \<Longrightarrow> printable v \<Longrightarrow> js_String (lit nt) (json_canon (lit nt) v) = js_String (lit nt) v"
proof (induction v)
  case (JArr xs)
  have "json_canon (lit nt) v = JNull \<longleftrightarrow> v = JNull" for v by (cases v) auto
  with JArr show ?case by (auto simp: list_all_iff intro!: arg_cong [of _ _ "join _"])
qed (simp_all add: stable_numbers_def)

lemma storedText_canon:
  assumes "stable_numbers nt" "printable (JObj m)"
  shows "storedText nt (canonDoc nt m) k = storedText nt m k"
proof (cases "map_of m k")
  case (Some v)
  then have "printable v" using assms(2) by (auto dest: map_of_SomeD simp: list_all_iff)
  then have "js_String (lit nt) (json_canon (lit nt) v) = js_String (lit nt) v" using js_String_canon assms(1) by blast
  with Some assms(2) show ?thesis by (cases v) (simp_all add: storedText_def map_of_canonDoc)
qed (use assms in \<open>simp add: storedText_def map_of_canonDoc\<close>)

lemma storedExpr_canon:
  assumes "stable_numbers nt" "printable (JObj m)"
  shows "storedExpr (canonDoc nt m) k = storedExpr m k"
proof (cases "map_of m k")
  case (Some v)
  then have "printable v" using assms(2) by (auto dest: map_of_SomeD simp: list_all_iff)
  with Some assms show ?thesis by (cases v) (simp_all add: storedExpr_def map_of_canonDoc stable_numbers_def)
qed (use assms in \<open>simp add: storedExpr_def map_of_canonDoc\<close>)

lemma modelSnapshot_canon:
  assumes "stable_numbers nt" "\<And>x. printable (JObj (docs x))"
  shows "modelSnapshot nt (\<lambda>x. canonDoc nt (docs x)) k = modelSnapshot nt docs k"
proof -
  have "json_canon (lit nt) v = JStr s \<longleftrightarrow> v = JStr s" for v s by (cases v) auto
  then have "map_of (canonDoc nt (docs x)) k = Some (JStr s) \<longleftrightarrow> map_of (docs x) k = Some (JStr s)" for x s
    using assms(2) [of x] by (simp add: map_of_canonDoc)
  moreover have price: "priceSnapshot nt (\<lambda>x. canonDoc nt (docs x)) k = priceSnapshot nt docs k"
    by (simp add: priceSnapshot_def storedText_canon [OF assms])
  ultimately show ?thesis unfolding modelSnapshot_def storedExpr_canon [OF assms] price by simp
qed

text \<open>The snapshot of one model; the list of snapshots has one per name.\<close>

definition snapshotOf :: "(jsnum \<Rightarrow> jsstr) \<Rightarrow> OptionTexts \<Rightarrow> jsstr \<Rightarrow> table_error + ModelPricingSnapshot" where
  "snapshotOf nt opts name = (case readDocuments opts of Inl e \<Rightarrow> Inl e | Inr docs \<Rightarrow> modelSnapshot nt docs name)"

lemma read_written:
  assumes "writes_numbers (lit nt)" "\<And>x. printable (JObj (docs x))"
  shows "readDocuments (writeDocuments nt docs) = Inr (\<lambda>x. canonDoc nt (docs x))"
  using assms by (simp add: readDocuments_Inr writeDocuments_def documentOf_pretty)

interpretation option_texts: text_format "writeDocuments nt" readDocuments
  "\<lambda>docs. writes_numbers (lit nt) \<and> (\<forall>x. printable (JObj (docs x)))" "\<lambda>docs. Inr (\<lambda>x. canonDoc nt (docs x))" for nt
  by unfold_locales (simp add: read_written del: printable.simps(3))

lemma snapshot_written:
  assumes "stable_numbers nt" "\<And>x. printable (JObj (docs x))"
  shows "snapshotOf nt (writeDocuments nt docs) k = modelSnapshot nt docs k"
  using assms read_written [of nt docs] by (simp add: snapshotOf_def modelSnapshot_canon stable_numbers_def)

text \<open>A snapshot reads the entries of its model only.\<close>

lemma modelSnapshot_entries:
  assumes "\<And>x. map_of (docs x) k = map_of (docs' x) k"
  shows "modelSnapshot nt docs k = modelSnapshot nt docs' k"
proof -
  have "priceSnapshot nt docs k = priceSnapshot nt docs' k" by (simp add: priceSnapshot_def storedText_def assms)
  then show ?thesis unfolding modelSnapshot_def storedExpr_def by (simp only: assms)
qed

section \<open>What the editor stores\<close>

text \<open>The entry of a target model in every option after a write.\<close>

definition numberEntry :: "jsstr \<Rightarrow> json option" where
  "numberEntry v = (if v = [] then None else Some (JNum v))"

definition optionEntry :: "ModelRatioData \<Rightarrow> PriceOption \<Rightarrow> json option" where
  "optionEntry data x =
     (let tiered = (md_billingMode data = Some TieredExpr); fixed = (\<not> tiered \<and> md_price data \<noteq> []);
          combined = combineBillingExpr (md_billingExpr data) (md_requestRuleExpr data) in
      case x of
        ModelPrice \<Rightarrow> numberEntry (md_price data)
      | ModelRatio \<Rightarrow> if fixed then None else numberEntry (md_ratio data)
      | LaneOption lane \<Rightarrow> if fixed then None else numberEntry (md_laneRatio data lane)
      | BillingModeOption \<Rightarrow> if tiered \<and> combined \<noteq> [] then Some (JStr tieredText) else None
      | BillingExprOption \<Rightarrow> if tiered \<and> combined \<noteq> [] then Some (JStr combined) else None)"

lemma setIfPresent_Nil [simp]: "setIfPresent nt name [] m = m"
  by (simp add: setIfPresent_def)

lemma setIfPresent_entry:
  "own_text nt v \<Longrightarrow> map_of (setIfPresent nt name v m) k = (if k = name \<and> v \<noteq> [] then Some (JNum v) else map_of m k)"
  by (simp add: setIfPresent_own map_of_update)

lemma persistModel_entry:
  assumes "own_texts nt data"
  shows "map_of (persistModel nt data docs name x) k = (if k = name then optionEntry data x else map_of (docs x) k)"
proof -
  have o: "own_text nt (md_price data)" "own_text nt (md_ratio data)" "own_text nt (md_laneRatio data lane)" for lane
    using assms by (simp_all add: own_texts_def)
  show ?thesis
    by (cases x) (auto simp: persistModel_def optionEntry_def numberEntry_def setRatios_def setPrice_def setExpression_def deleteModel_def
        Let_def setIfPresent_entry [OF o(1)] setIfPresent_entry [OF o(2)] setIfPresent_entry [OF o(3)] map_of_update map_of_delete)
qed

lemma persist_entries:
  assumes "own_texts nt data"
  shows "map_of (foldl (persistModel nt data) docs names x) k = (if k \<in> set names then optionEntry data x else map_of (docs x) k)"
  by (induction names arbitrary: docs) (auto simp: persistModel_entry [OF assms])

lemma setIfPresent_printable: "own_text nt v \<Longrightarrow> printable (JObj m) \<Longrightarrow> printable (JObj (setIfPresent nt name v m))"
  using printable_update [of m "JNum v" name] by (simp add: setIfPresent_own own_text_def del: printable.simps(3)) auto

lemma delete_printable: "printable (JObj m) \<Longrightarrow> printable (JObj (AList.delete k m))"
  using wf_map_delete [of m k] by (auto simp: list_all_iff AList.delete_eq)

lemma persistModel_printable:
  assumes "own_texts nt data" "\<And>x. printable (JObj (docs x))"
  shows "printable (JObj (persistModel nt data docs name x))"
proof -
  have o: "own_text nt (md_price data)" "own_text nt (md_ratio data)" "own_text nt (md_laneRatio data lane)" for lane
    using assms by (simp_all add: own_texts_def)
  have d: "printable (JObj (deleteModel name docs y))" for y unfolding deleteModel_def by (rule delete_printable [OF assms(2)])
  have e: "printable (JObj (setExpression c name (deleteModel name docs) y))" for c y
    using d printable_update [OF d, of "JStr s" for s] by (simp add: setExpression_def del: printable.simps(3))
  have p: "printable (JObj (setPrice nt data name D y))" if "\<And>y. printable (JObj (D y))" for D y
    using that setIfPresent_printable [OF o(1) that] by (simp add: setPrice_def del: printable.simps(3))
  have r: "printable (JObj (setRatios nt data name D y))" if "\<And>y. printable (JObj (D y))" for D y
    using that setIfPresent_printable [OF o(2) that] setIfPresent_printable [OF o(3) that]
    by (cases y) (simp_all add: setRatios_def del: printable.simps(3))
  show ?thesis unfolding persistModel_def Let_def using d e p r by presburger
qed

lemma persist_printable:
  assumes "own_texts nt data"
  shows "(\<And>x. printable (JObj (docs x))) \<Longrightarrow> printable (JObj (foldl (persistModel nt data) docs names x))"
  by (induction names arbitrary: docs) (auto intro!: persistModel_printable [OF assms] simp del: printable.simps(3))

section \<open>Edits of the options\<close>

text \<open>
  A store of values by key whose edits each replace the values of some keys: after any sequence
  of edits a key has the value of the last edit that names it.
\<close>

locale keyed_store =
  fixes ok :: "'s \<Rightarrow> bool"
    and look :: "'s \<Rightarrow> 'k \<Rightarrow> 'v"
    and fits :: "'e \<Rightarrow> bool"
    and edit :: "'e \<Rightarrow> 's \<Rightarrow> 's"
    and names :: "'e \<Rightarrow> 'k list"
    and val :: "'e \<Rightarrow> 'k \<Rightarrow> 'v"
  assumes edit_ok: "ok s \<Longrightarrow> fits e \<Longrightarrow> ok (edit e s)"
    and look_edit: "ok s \<Longrightarrow> fits e \<Longrightarrow> look (edit e s) k = (if k \<in> set (names e) then val e k else look s k)"
begin

lemma edits_ok: "ok s \<Longrightarrow> list_all fits es \<Longrightarrow> ok (foldl (\<lambda>s e. edit e s) s es)"
  by (induction es arbitrary: s) (simp_all add: edit_ok)

lemma look_edits:
  "ok s \<Longrightarrow> list_all fits es \<Longrightarrow> look (foldl (\<lambda>s e. edit e s) s es) k =
    (case List.find (\<lambda>e. k \<in> set (names e)) (rev es) of Some e \<Rightarrow> val e k | None \<Rightarrow> look s k)"
proof (induction es rule: rev_induct)
  case (snoc e es)
  then show ?case by (simp add: look_edit edits_ok)
qed simp

lemma edit_twice: "ok s \<Longrightarrow> fits e \<Longrightarrow> look (edit e (edit e s)) k = look (edit e s) k"
  by (simp add: look_edit edit_ok)

end

text \<open>An edit of the page writes a submitted model to its targets or deletes a model.\<close>

datatype tableEdit = WriteEdit ModelRatioData "jsstr list" | DeleteEdit jsstr

definition deletePricing :: "(jsnum \<Rightarrow> jsstr) \<Rightarrow> jsstr \<Rightarrow> OptionTexts \<Rightarrow> table_error + OptionTexts" where
  "deletePricing nt name opts = map_sum id (\<lambda>docs. writeDocuments nt (deleteModel name docs)) (readDocuments opts)"

fun applyPriceEdit :: "(jsnum \<Rightarrow> jsstr) \<Rightarrow> tableEdit \<Rightarrow> table_error + OptionTexts \<Rightarrow> table_error + OptionTexts" where
  "applyPriceEdit nt e (Inl err) = Inl err"
| "applyPriceEdit nt (WriteEdit data names) (Inr opts) = persistPricingData nt data names opts"
| "applyPriceEdit nt (DeleteEdit name) (Inr opts) = deletePricing nt name opts"

fun editTargets :: "tableEdit \<Rightarrow> jsstr list" where
  "editTargets (WriteEdit data names) = names"
| "editTargets (DeleteEdit name) = [name]"

fun editFits :: "(jsnum \<Rightarrow> jsstr) \<Rightarrow> tableEdit \<Rightarrow> bool" where
  "editFits nt (WriteEdit data names) = own_texts nt data"
| "editFits nt (DeleteEdit name) = True"

text \<open>
  The snapshot of a model after it was written, field by field from the submitted data. Writing
  keeps one kind of price: of a draft with a fixed price the ratios are dropped, and a tiered draft
  keeps its mode only with an expression.
\<close>

definition writtenSnapshot :: "(jsnum \<Rightarrow> jsstr) \<Rightarrow> ModelRatioData \<Rightarrow> jsstr \<Rightarrow> table_error + ModelPricingSnapshot" where
  "writtenSnapshot nt data name =
     (let tiered = (md_billingMode data = Some TieredExpr); fixed = (\<not> tiered \<and> md_price data \<noteq> []);
          combined = combineBillingExpr (md_billingExpr data) (md_requestRuleExpr data);
          ratio = (if fixed then [] else md_ratio data);
          lanes = (\<lambda>lane. if fixed then [] else md_laneRatio data lane);
          base = \<lparr>sn_name = name, sn_price = md_price data, sn_ratio = ratio, sn_laneRatio = lanes,
            sn_billingMode = (if md_price data \<noteq> [] then PerRequest else PerToken), sn_billingExpr = [], sn_requestRuleExpr = [],
            sn_hasConflict = (md_price data \<noteq> [] \<and> (ratio \<noteq> [] \<or> list_ex (\<lambda>lane. lanes lane \<noteq> []) laneFields))\<rparr> in
      if tiered \<and> combined \<noteq> [] then expressionSnapshot nt base combined else Inr base)"

fun editResult :: "(jsnum \<Rightarrow> jsstr) \<Rightarrow> tableEdit \<Rightarrow> jsstr \<Rightarrow> table_error + ModelPricingSnapshot" where
  "editResult nt (WriteEdit data names) k = writtenSnapshot nt data k"
| "editResult nt (DeleteEdit name) k = Inr (emptySnapshot k)"

lemma storedText_entry:
  "map_of m k = numberEntry v \<Longrightarrow> own_text nt v \<Longrightarrow> storedText nt m k = v" "map_of m k = None \<Longrightarrow> storedText nt m k = []"
  by (auto simp: storedText_def numberEntry_def own_text_def)

lemma snapshot_entries:
  assumes "own_texts nt data" "\<And>x. map_of (docs x) k = optionEntry data x"
  shows "modelSnapshot nt docs k = writtenSnapshot nt data k"
proof -
  have o: "own_text nt (md_price data)" "own_text nt (md_ratio data)" "own_text nt (md_laneRatio data lane)" for lane
    using assms(1) by (simp_all add: own_texts_def)
  define fixed where "fixed \<longleftrightarrow> md_billingMode data \<noteq> Some TieredExpr \<and> md_price data \<noteq> []"
  have "storedText nt (docs ModelPrice) k = md_price data"
    by (rule storedText_entry(1) [OF _ o(1)]) (simp add: assms(2) optionEntry_def Let_def)
  moreover have "storedText nt (docs ModelRatio) k = (if fixed then [] else md_ratio data)"
    using storedText_entry(1) [OF _ o(2), of "docs ModelRatio" k] storedText_entry(2) [of "docs ModelRatio" k nt] assms(2) [of ModelRatio]
    by (auto simp: optionEntry_def Let_def fixed_def)
  moreover have "storedText nt (docs (LaneOption l)) k = (if fixed then [] else md_laneRatio data l)" for l
    using storedText_entry(1) [OF _ o(3), of "docs (LaneOption l)" k l] storedText_entry(2) [of "docs (LaneOption l)" k nt]
      assms(2) [of "LaneOption l"] by (auto simp: optionEntry_def Let_def fixed_def)
  ultimately show ?thesis
    by (cases "md_billingMode data = Some TieredExpr"; cases "md_price data = []")
      (simp_all add: modelSnapshot_def priceSnapshot_def writtenSnapshot_def assms(2) storedExpr_def fixed_def optionEntry_def Let_def)
qed

lemma snapshot_none: "(\<And>x. map_of (docs x) k = None) \<Longrightarrow> modelSnapshot nt docs k = Inr (emptySnapshot k)"
  by (simp add: modelSnapshot_def priceSnapshot_def storedText_def emptySnapshot_def Let_def)

definition readable :: "table_error + OptionTexts \<Rightarrow> bool" where
  "readable s \<longleftrightarrow> (case s of Inl e \<Rightarrow> False | Inr opts \<Rightarrow> \<not> isl (readDocuments opts))"

definition lookSnapshot :: "(jsnum \<Rightarrow> jsstr) \<Rightarrow> table_error + OptionTexts \<Rightarrow> jsstr \<Rightarrow> table_error + ModelPricingSnapshot" where
  "lookSnapshot nt s k = (case s of Inl e \<Rightarrow> Inl e | Inr opts \<Rightarrow> snapshotOf nt opts k)"

lemma readable_Inr: "readable s \<Longrightarrow> \<exists>opts docs. s = Inr opts \<and> readDocuments opts = Inr docs"
  unfolding readable_def by (cases s; cases "readDocuments (projr s)") simp_all

lemma read_printable: "readDocuments opts = Inr docs \<Longrightarrow> printable (JObj (docs x))"
  using documentOf_printable readDocuments_Inr by blast

text \<open>The documents an edit writes.\<close>

fun editDocuments :: "(jsnum \<Rightarrow> jsstr) \<Rightarrow> tableEdit \<Rightarrow> Documents \<Rightarrow> Documents" where
  "editDocuments nt (WriteEdit data names) docs = foldl (persistModel nt data) docs names"
| "editDocuments nt (DeleteEdit name) docs = deleteModel name docs"

lemma applyPriceEdit_documents:
  "readDocuments opts = Inr docs \<Longrightarrow> applyPriceEdit nt e (Inr opts) = Inr (writeDocuments nt (editDocuments nt e docs))"
  by (cases e) (simp_all add: persistPricingData_def deletePricing_def)

lemma editDocuments_printable:
  "editFits nt e \<Longrightarrow> (\<And>x. printable (JObj (docs x))) \<Longrightarrow> printable (JObj (editDocuments nt e docs x))"
  by (cases e) (simp_all add: persist_printable deleteModel_def delete_printable del: printable.simps(3))

lemma editDocuments_snapshot:
  assumes "editFits nt e"
  shows "modelSnapshot nt (editDocuments nt e docs) k = (if k \<in> set (editTargets e) then editResult nt e k else modelSnapshot nt docs k)"
proof (cases e)
  case (WriteEdit data names)
  show ?thesis
  proof (cases "k \<in> set names")
    case True
    with WriteEdit assms show ?thesis by (simp add: snapshot_entries persist_entries)
  next
    case False
    with WriteEdit assms show ?thesis by (simp add: persist_entries cong: modelSnapshot_entries)
  qed
next
  case (DeleteEdit name)
  show ?thesis
  proof (cases "k = name")
    case True
    with DeleteEdit show ?thesis by (simp add: snapshot_none deleteModel_def map_of_delete)
  next
    case False
    with DeleteEdit show ?thesis using modelSnapshot_entries [of "deleteModel name docs" k docs nt] by (simp add: deleteModel_def map_of_delete)
  qed
qed

lemma store_edit_ok:
  assumes "stable_numbers nt" "readable s" "editFits nt e"
  shows "readable (applyPriceEdit nt e s)"
proof -
  obtain opts docs where s: "s = Inr opts" "readDocuments opts = Inr docs" using readable_Inr [OF assms(2)] by blast
  have "writes_numbers (lit nt)" using assms(1) by (simp add: stable_numbers_def)
  from read_written [OF this editDocuments_printable [OF assms(3) read_printable [OF s(2)]]] show ?thesis
    by (simp add: s applyPriceEdit_documents readable_def)
qed

lemma store_look_edit:
  assumes "stable_numbers nt" "readable s" "editFits nt e"
  shows "lookSnapshot nt (applyPriceEdit nt e s) k = (if k \<in> set (editTargets e) then editResult nt e k else lookSnapshot nt s k)"
proof -
  obtain opts docs where s: "s = Inr opts" "readDocuments opts = Inr docs" using readable_Inr [OF assms(2)] by blast
  show ?thesis
    using snapshot_written [OF assms(1) editDocuments_printable [OF assms(3) read_printable [OF s(2)]], where k = k]
      editDocuments_snapshot [OF assms(3), of docs k]
    by (simp add: s applyPriceEdit_documents lookSnapshot_def snapshotOf_def [of nt opts])
qed

text \<open>The store of the model's options; a store that does not read is not edited.\<close>

interpretation price_store: keyed_store
  "\<lambda>s. stable_numbers nt \<and> readable s" "lookSnapshot nt" "editFits nt" "applyPriceEdit nt" editTargets "editResult nt" for nt
  by unfold_locales (simp_all add: store_edit_ok store_look_edit)

section \<open>Number texts for the examples\<close>

definition sampleTexts :: "(rat \<times> jsstr) list" where
  "sampleTexts = [(0, js ''0''), (2, js ''2''), (3, js ''3''), (6, js ''6''), (166666666667 / 1000000000000, js ''0.166666666667''),
     (500000000001 / 500000000000, js ''1.000000000002'')]"

definition samplePriceText :: "jsnum \<Rightarrow> jsstr" where
  "samplePriceText v = (case v of Fin q \<Rightarrow> (case map_of sampleTexts q of Some t \<Rightarrow> t | None \<Rightarrow> js ''1'') | _ \<Rightarrow> js ''1'')"

lemma samplePriceText_eval:
  "samplePriceText (Fin 0) = js ''0''" "samplePriceText (Fin 2) = js ''2''" "samplePriceText (Fin 3) = js ''3''"
  "samplePriceText (Fin 6) = js ''6''" "samplePriceText (Fin (166666666667 / 1000000000000)) = js ''0.166666666667''"
  "samplePriceText (Fin (500000000001 / 500000000000)) = js ''1.000000000002''" "samplePriceText (Fin 1) = js ''1''"
  by (simp_all add: samplePriceText_def sampleTexts_def)

lemma samplePriceText_range: "samplePriceText v \<in> {js ''0'', js ''1''} \<or> v \<noteq> Fin 0 \<and> samplePriceText v \<in> js ` {''2'', ''3'', ''6'', ''0.166666666667'', ''1.000000000002''}"
  by (auto simp: samplePriceText_def sampleTexts_def split: jsnum.split)

lemma sample_literals:
  "number_of_string (js ''0'') = Fin 0" "number_of_string (js ''1'') = Fin 1" "number_of_string (js ''2'') = Fin 2"
  "number_of_string (js ''3'') = Fin 3" "number_of_string (js ''6'') = Fin 6"
  "number_of_string (js ''0.166666666667'') = Fin (166666666667 / 1000000000000)"
  "number_of_string (js ''1.000000000002'') = Fin (500000000001 / 500000000000)"
  by (simp_all add: number_eval)

lemma sample_json_numbers:
  "json_number (js ''0'')" "json_number (js ''1'')" "json_number (js ''2'')" "json_number (js ''3'')" "json_number (js ''6'')"
  "json_number (js ''0.166666666667'')" "json_number (js ''1.000000000002'')"
  by (simp_all add: json_number_def Let_def js_simps is_digit_def)

lemma samplePriceText_zero: "samplePriceText v = js ''0'' \<longleftrightarrow> v = Fin 0"
  by (auto simp: samplePriceText_def sampleTexts_def js_simps split: jsnum.split)

lemma sample_differ:
  "js ''0'' \<noteq> js ''1''" "js ''0'' \<noteq> js ''2''" "js ''0'' \<noteq> js ''3''" "js ''0'' \<noteq> js ''6''"
  "js ''0'' \<noteq> js ''0.166666666667''" "js ''0'' \<noteq> js ''1.000000000002''"
  by (simp_all add: js_simps)

lemma sample_stable: "stable_numbers samplePriceText"
proof -
  have "json_number (samplePriceText v) \<and> lit samplePriceText (samplePriceText v) = samplePriceText v \<and>
    (number_of_string (samplePriceText v) = Fin 0 \<longleftrightarrow> samplePriceText v = js ''0'')" for v
    using samplePriceText_range [of v]
    by (auto simp: lit_def sample_literals samplePriceText_eval sample_json_numbers sample_differ sample_differ [THEN not_sym])
  then show ?thesis by (simp add: stable_numbers_def writes_numbers_def lit_def samplePriceText_zero)
qed

definition samplePriced :: ModelRatioData where
  "samplePriced = \<lparr>md_name = js ''m'', md_price = js ''2'', md_ratio = [], md_laneRatio = (\<lambda>_. []), md_billingMode = Some PerRequest,
     md_billingExpr = [], md_requestRuleExpr = []\<rparr>"

definition emptyOptions :: OptionTexts where
  "emptyOptions = (\<lambda>_. [])"

lemma read_emptyOptions: "readDocuments emptyOptions = Inr (\<lambda>_. [])"
  by (simp add: readDocuments_Inr emptyOptions_def documentOf_def safeJsonParse_def)

definition sampleDocs :: Documents where
  "sampleDocs = (\<lambda>_. [])(ModelRatio := [(js ''m'', JNum (js ''3''))])"

definition samplePriceOptions :: OptionTexts where
  "samplePriceOptions = writeDocuments samplePriceText sampleDocs"

lemma read_samplePriceOptions: "readDocuments samplePriceOptions = Inr sampleDocs"
proof -
  have "printable (JObj (sampleDocs x))" for x by (simp add: sampleDocs_def sample_json_numbers)
  moreover have "(\<lambda>x. canonDoc samplePriceText (sampleDocs x)) = sampleDocs"
    by (auto simp: fun_eq_iff sampleDocs_def canonDoc_def js_entries_def lit_def sample_literals samplePriceText_eval js_sort_def)
  ultimately show ?thesis using read_written [of samplePriceText sampleDocs] sample_stable
    by (simp add: samplePriceOptions_def stable_numbers_def)
qed

end
