(* ===== verification/Pricing_Save.thy ===== *)
theory Pricing_Save
  imports Pricing_Stored JS_Regex
begin

text \<open>
  Saving the price settings: the JSON texts of the forms (\<open>utils.ts\<close> of
  \<open>features/system-settings/models\<close> and \<open>json-parser.ts\<close> of \<open>features/system-settings/utils\<close>), the
  schemas and the two save handlers of \<open>ratio-settings-card.tsx\<close>, the button of
  \<open>model-ratio-form.tsx\<close> and the update of one option (\<open>use-update-option.ts\<close>). The message of a
  failed \<open>JSON.parse\<close> belongs to the engine and is the parameter \<open>errorText\<close>; what the server
  answers to a request is the parameter \<open>reply\<close>.
\<close>

section \<open>JSON texts\<close>

definition formatJsonForTextarea :: "(jsnum \<Rightarrow> jsstr) \<Rightarrow> jsstr \<Rightarrow> jsstr" where
  "formatJsonForTextarea nt value =
     (if trim value = [] then [] else case json_parse value of Some v \<Rightarrow> json_pretty (lit nt) v | None \<Rightarrow> value)"

definition normalizeJsonString :: "(jsnum \<Rightarrow> jsstr) \<Rightarrow> jsstr \<Rightarrow> jsstr" where
  "normalizeJsonString nt value =
     (let trimmed = trim value in
      if trimmed = [] then [] else case json_parse trimmed of Some v \<Rightarrow> json_stringify (lit nt) v | None \<Rightarrow> trimmed)"

record JsonErrorPosition =
  ep_line :: "nat option"
  ep_column :: "nat option"
  ep_position :: "nat option"

definition noPosition :: JsonErrorPosition where
  "noPosition = \<lparr>ep_line = None, ep_column = None, ep_position = None\<rparr>"

text \<open>A literal under the flag \<open>i\<close>: letters of either case.\<close>

definition either_case :: "char \<Rightarrow> code_unit \<Rightarrow> bool" where
  "either_case c u \<longleftrightarrow> u = of_char c \<or> (97 \<le> u \<and> u \<le> 122 \<and> u - 32 = of_char c) \<or> (65 \<le> u \<and> u \<le> 90 \<and> u + 32 = of_char c)"

definition rx_nocase :: "string \<Rightarrow> rx list" where
  "rx_nocase l = map (\<lambda>c. rx_one (either_case c)) l"

text \<open>\<open>/at position (\d+)/i\<close> and \<open>/at line (\d+) column (\d+)/i\<close>.\<close>

definition positionMatch :: "jsstr \<Rightarrow> captures option" where
  "positionMatch message =
     (case rx_all (\<lambda>_. True) (rx_seq (rx_nocase ''at position '' @ [rx_cap 1 (rx_some is_digit)])) None message of
        [] \<Rightarrow> None | c # _ \<Rightarrow> Some c)"

definition lineColMatch :: "jsstr \<Rightarrow> captures option" where
  "lineColMatch message =
     (case rx_all (\<lambda>_. True) (rx_seq (rx_nocase ''at line '' @ [rx_cap 1 (rx_some is_digit)] @ rx_nocase '' column '' @
         [rx_cap 2 (rx_some is_digit)])) None message of
        [] \<Rightarrow> None | c # _ \<Rightarrow> Some c)"

definition getLineAndColumn :: "jsstr \<Rightarrow> nat \<Rightarrow> nat \<times> nat" where
  "getLineAndColumn text position =
     (let lines = split_on 10 (take position text) in (length lines, length (last lines) + 1))"

definition extractErrorPosition :: "jsstr \<Rightarrow> jsstr \<Rightarrow> JsonErrorPosition" where
  "extractErrorPosition message jsonString =
     (case positionMatch message of
        Some c \<Rightarrow>
          let position = parse_digits (capture c 1); (line, column) = getLineAndColumn jsonString position in
          \<lparr>ep_line = Some line, ep_column = Some column, ep_position = Some position\<rparr>
      | None \<Rightarrow>
          (case lineColMatch message of
             Some c \<Rightarrow> \<lparr>ep_line = Some (parse_digits (capture c 1)), ep_column = Some (parse_digits (capture c 2)), ep_position = None\<rparr>
           | None \<Rightarrow> noPosition))"

definition isMissingCommaError :: "jsstr \<Rightarrow> bool" where
  "isMissingCommaError message \<longleftrightarrow> str_includes message (js ''Expected '' @ [39, 44, 39]) \<or>
     str_includes message (js ''Expected property name'') \<or> str_includes message (js ''Unexpected string'')"

datatype JsonErrorType = ErrRequired | ErrStructure | ErrSyntax

record JsonValidationError =
  ve_type :: JsonErrorType
  ve_at :: JsonErrorPosition
  ve_missingCommaLine :: "nat option"

definition buildSyntaxError :: "jsstr \<Rightarrow> jsstr \<Rightarrow> JsonValidationError" where
  "buildSyntaxError message jsonString =
     (let position = extractErrorPosition message jsonString in
      \<lparr>ve_type = ErrSyntax, ve_at = position,
       ve_missingCommaLine = (case ep_line position of
           Some line \<Rightarrow> if isMissingCommaError message \<and> line > 1 then Some (line - 1) else None
         | None \<Rightarrow> None)\<rparr>)"

text \<open>A line or column of zero counts as absent.\<close>

definition lineColumn :: "JsonErrorPosition \<Rightarrow> (nat \<times> nat) option" where
  "lineColumn p = (case (ep_line p, ep_column p) of
       (Some l, Some c) \<Rightarrow> if l \<noteq> 0 \<and> c \<noteq> 0 then Some (l, c) else None | _ \<Rightarrow> None)"

definition formatErrorMessage :: "jsstr \<Rightarrow> jsstr \<Rightarrow> jsstr" where
  "formatErrorMessage message jsonString =
     (let position = extractErrorPosition message jsonString in
      case lineColumn position of
        Some (line, column) \<Rightarrow>
          js ''Error at line '' @ show_nat line @ js '', column '' @ show_nat column @ js '': '' @ message @
          (case ve_missingCommaLine (buildSyntaxError message jsonString) of
             Some l \<Rightarrow> js '' (check line '' @ show_nat l @ js '' for missing comma)'' | None \<Rightarrow> [])
      | None \<Rightarrow>
          (case ep_position position of
             Some p \<Rightarrow> js ''Error at position '' @ show_nat p @ js '': '' @ message
           | None \<Rightarrow> message))"

record ValidationResult =
  vr_valid :: bool
  vr_message :: "jsstr option"
  vr_error :: "JsonValidationError option"

definition plainError :: "JsonErrorType \<Rightarrow> JsonValidationError" where
  "plainError ty = \<lparr>ve_type = ty, ve_at = noPosition, ve_missingCommaLine = None\<rparr>"

definition validateJsonString :: "(jsstr \<Rightarrow> jsstr) \<Rightarrow> bool \<Rightarrow> (json \<Rightarrow> bool) option \<Rightarrow> jsstr \<Rightarrow> jsstr \<Rightarrow> ValidationResult" where
  "validateJsonString errorText allowEmpty predicate predicateMessage value =
     (let trimmed = trim value in
      if trimmed = [] then
        \<lparr>vr_valid = allowEmpty, vr_message = (if allowEmpty then None else Some (js ''Value is required'')),
         vr_error = (if allowEmpty then None else Some (plainError ErrRequired))\<rparr>
      else case json_parse trimmed of
          Some parsed \<Rightarrow>
            if (case predicate of Some p \<Rightarrow> \<not> p parsed | None \<Rightarrow> False)
            then \<lparr>vr_valid = False,
              vr_message = Some (if predicateMessage \<noteq> [] then predicateMessage else js ''JSON structure is invalid''),
              vr_error = Some (plainError ErrStructure)\<rparr>
            else \<lparr>vr_valid = True, vr_message = None, vr_error = None\<rparr>
        | None \<Rightarrow> \<lparr>vr_valid = False, vr_message = Some (formatErrorMessage (errorText trimmed) trimmed),
            vr_error = Some (buildSyntaxError (errorText trimmed) trimmed)\<rparr>)"

text \<open>\<open>tr2\<close> fills the placeholders of a translated text.\<close>

definition formatJsonValidationError :: "(jsstr \<Rightarrow> jsstr) \<Rightarrow> (jsstr \<Rightarrow> (jsstr \<times> nat) list \<Rightarrow> jsstr) \<Rightarrow>
    JsonValidationError option \<Rightarrow> jsstr \<Rightarrow> jsstr" where
  "formatJsonValidationError tr tr2 err fallback =
     (case err of
        None \<Rightarrow> tr fallback
      | Some e \<Rightarrow>
          (case ve_type e of
             ErrRequired \<Rightarrow> tr (js ''Value is required'')
           | ErrStructure \<Rightarrow> tr (if fallback = js ''Invalid JSON'' then js ''JSON structure is invalid'' else fallback)
           | ErrSyntax \<Rightarrow>
               join [32] ([case lineColumn (ve_at e) of
                   Some (line, column) \<Rightarrow> tr2 (js ''JSON is invalid at line {{line}}, column {{column}}.'')
                     [(js ''line'', line), (js ''column'', column)]
                 | None \<Rightarrow>
                     (case ep_position (ve_at e) of
                        Some p \<Rightarrow> tr2 (js ''JSON is invalid at position {{position}}.'') [(js ''position'', p)]
                      | None \<Rightarrow> tr (js ''JSON is invalid. Please check the syntax.''))] @
                 (case ve_missingCommaLine e of
                    Some l \<Rightarrow> if l \<noteq> 0 then [tr2 (js ''Check line {{line}} for a missing comma.'') [(js ''line'', l)]] else []
                  | None \<Rightarrow> []))))"

section \<open>The forms\<close>

datatype SaveKey = OptionKey PriceOption | ExposeKey

datatype SaveValue = TextValue jsstr | FlagValue bool

record ModelFormValues =
  mv_options :: OptionTexts
  mv_expose :: bool

definition saveOrder :: "SaveKey list" where
  "saveOrder = map OptionKey (take 8 priceOptions) @ [ExposeKey] @ map OptionKey (drop 8 priceOptions)"

fun valueOf :: "ModelFormValues \<Rightarrow> SaveKey \<Rightarrow> SaveValue" where
  "valueOf v (OptionKey x) = TextValue (mv_options v x)"
| "valueOf v ExposeKey = FlagValue (mv_expose v)"

fun laneOptionName :: "LaneKey \<Rightarrow> string" where
  "laneOptionName LaneCache = ''CacheRatio''"
| "laneOptionName LaneCreateCache = ''CreateCacheRatio''"
| "laneOptionName LaneCompletion = ''CompletionRatio''"
| "laneOptionName LaneImage = ''ImageRatio''"
| "laneOptionName LaneAudioInput = ''AudioRatio''"
| "laneOptionName LaneAudioOutput = ''AudioCompletionRatio''"

fun apiKey :: "SaveKey \<Rightarrow> jsstr" where
  "apiKey (OptionKey ModelPrice) = js ''ModelPrice''"
| "apiKey (OptionKey ModelRatio) = js ''ModelRatio''"
| "apiKey (OptionKey (LaneOption lane)) = js (laneOptionName lane)"
| "apiKey (OptionKey BillingModeOption) = js ''billing_setting.billing_mode''"
| "apiKey (OptionKey BillingExprOption) = js ''billing_setting.billing_expr''"
| "apiKey ExposeKey = js ''ExposeRatioEnabled''"

definition normalizeModelValues :: "(jsnum \<Rightarrow> jsstr) \<Rightarrow> ModelFormValues \<Rightarrow> ModelFormValues" where
  "normalizeModelValues nt v = v\<lparr>mv_options := (\<lambda>x. normalizeJsonString nt (mv_options v x))\<rparr>"

definition modelFormDefaults :: "(jsnum \<Rightarrow> jsstr) \<Rightarrow> ModelFormValues \<Rightarrow> ModelFormValues" where
  "modelFormDefaults nt v = v\<lparr>mv_options := (\<lambda>x. formatJsonForTextarea nt (mv_options v x))\<rparr>"

definition modelSchemaValid :: "(jsstr \<Rightarrow> jsstr) \<Rightarrow> ModelFormValues \<Rightarrow> bool" where
  "modelSchemaValid errorText v \<longleftrightarrow> list_all (\<lambda>x. vr_valid (validateJsonString errorText True None [] (mv_options v x))) priceOptions"

section \<open>Requests\<close>

text \<open>The server accepts an option, refuses it in a regular answer, or the request fails.\<close>

datatype Reply = Accepted | Refused | Failed

type_synonym Request = "jsstr \<times> SaveValue"

definition STATUS_RELATED_KEYS :: "jsstr list" where
  "STATUS_RELATED_KEYS = map js [''theme.frontend'', ''HeaderNavModules'', ''SidebarModulesAdmin'', ''Notice'', ''LogConsumeEnabled'',
     ''QuotaPerUnit'', ''USDExchangeRate'', ''DisplayInCurrencyEnabled'', ''DisplayTokenStatEnabled'',
     ''general_setting.quota_display_type'', ''general_setting.custom_currency_symbol'', ''general_setting.custom_currency_exchange_rate'']"

datatype UpdateEffect = ReloadOptions | ReloadStatus | ForgetStatus | ToastUpdated | ToastError

definition updateOption :: "(Request \<Rightarrow> Reply) \<Rightarrow> Request \<Rightarrow> UpdateEffect list" where
  "updateOption reply req =
     (case reply req of
        Accepted \<Rightarrow> [ReloadOptions] @ (if fst req \<in> set STATUS_RELATED_KEYS then [ReloadStatus, ForgetStatus] else []) @ [ToastUpdated]
      | Refused \<Rightarrow> [ToastError]
      | Failed \<Rightarrow> [ToastError])"

text \<open>The loop that awaits one request per key; only a failed request leaves it.\<close>

fun sendUpdates :: "(Request \<Rightarrow> Reply) \<Rightarrow> Request list \<Rightarrow> Request list \<times> bool" where
  "sendUpdates reply [] = ([], True)"
| "sendUpdates reply (req # reqs) =
     (if reply req = Failed then ([req], False)
      else (req # fst (sendUpdates reply reqs), snd (sendUpdates reply reqs)))"

datatype SaveOutcome = NothingToSave | SaveFailed | SaveDone

definition changedRequests :: "ModelFormValues \<Rightarrow> ModelFormValues \<Rightarrow> Request list" where
  "changedRequests normalized defaults =
     map (\<lambda>k. (apiKey k, valueOf normalized k)) (filter (\<lambda>k. valueOf normalized k \<noteq> valueOf defaults k) saveOrder)"

text \<open>The values of the form and those that count as saved (\<open>modelNormalizedDefaults\<close>).\<close>

record ModelForm =
  mf_values :: ModelFormValues
  mf_saved :: ModelFormValues

text \<open>The page when it opens on the options of the server.\<close>

definition openModelForm :: "(jsnum \<Rightarrow> jsstr) \<Rightarrow> ModelFormValues \<Rightarrow> ModelForm" where
  "openModelForm nt modelDefaults = \<lparr>mf_values = modelFormDefaults nt modelDefaults, mf_saved = normalizeModelValues nt modelDefaults\<rparr>"

text \<open>The effect that follows options that arrive from the server: both are set again.\<close>

definition followModelDefaults :: "(jsnum \<Rightarrow> jsstr) \<Rightarrow> ModelForm \<Rightarrow> ModelFormValues \<Rightarrow> ModelForm" where
  "followModelDefaults nt form modelDefaults =
     form\<lparr>mf_saved := normalizeModelValues nt modelDefaults, mf_values := modelFormDefaults nt modelDefaults\<rparr>"

text \<open>
  The outcome, the requests in order and the form afterwards. An accepted option makes the page
  load the options again; \<open>arrivals req\<close> are the options that arrive while the request \<open>req\<close> is
  under way, in their order. They do not change what is sent, which was decided before the loop.
\<close>

definition saveModelRatios :: "(jsnum \<Rightarrow> jsstr) \<Rightarrow> (Request \<Rightarrow> Reply) \<Rightarrow> (Request \<Rightarrow> ModelFormValues list) \<Rightarrow> ModelFormValues \<Rightarrow>
    ModelForm \<Rightarrow> SaveOutcome \<times> Request list \<times> ModelForm" where
  "saveModelRatios nt reply arrivals values form =
     (let normalized = normalizeModelValues nt values; updates = changedRequests normalized (mf_saved form) in
      if updates = [] then (NothingToSave, [], form)
      else let (sent, ok) = sendUpdates reply updates;
               form1 = foldl (followModelDefaults nt) form (concat (map arrivals sent)) in
        if ok then (SaveDone, sent, form1\<lparr>mf_saved := normalized\<rparr>) else (SaveFailed, sent, form1))"

datatype GroupField = GroupRatio | TopupGroupRatio | UserUsableGroups | GroupGroupRatio | AutoGroups | GroupSpecialUsableGroup

record GroupFormValues =
  gv_texts :: "GroupField \<Rightarrow> jsstr"
  gv_defaultUseAutoGroup :: bool

definition groupRequests :: "(jsnum \<Rightarrow> jsstr) \<Rightarrow> GroupFormValues \<Rightarrow> (jsstr \<times> SaveValue) list" where
  "groupRequests nt v =
     (let text = (\<lambda>f. TextValue (normalizeJsonString nt (gv_texts v f))) in
      [(js ''GroupRatio'', text GroupRatio), (js ''TopupGroupRatio'', text TopupGroupRatio),
       (js ''UserUsableGroups'', text UserUsableGroups), (js ''GroupGroupRatio'', text GroupGroupRatio),
       (js ''AutoGroups'', text AutoGroups), (js ''DefaultUseAutoGroup'', FlagValue (gv_defaultUseAutoGroup v)),
       (js ''group_ratio_setting.group_special_usable_group'', text GroupSpecialUsableGroup)])"

definition saveGroupRatios :: "(jsnum \<Rightarrow> jsstr) \<Rightarrow> (Request \<Rightarrow> Reply) \<Rightarrow> GroupFormValues \<Rightarrow> GroupFormValues \<Rightarrow> Request list \<times> bool" where
  "saveGroupRatios nt reply values defaults =
     sendUpdates reply (map fst (filter (\<lambda>(new, old). new \<noteq> old) (zip (groupRequests nt values) (groupRequests nt defaults))))"

definition isGroupList :: "json \<Rightarrow> bool" where
  "isGroupList parsed = (case parsed of JArr xs \<Rightarrow> list_all (\<lambda>v. case v of JStr s \<Rightarrow> True | _ \<Rightarrow> False) xs | _ \<Rightarrow> False)"

definition groupSchemaValid :: "(jsstr \<Rightarrow> jsstr) \<Rightarrow> GroupFormValues \<Rightarrow> bool" where
  "groupSchemaValid errorText v \<longleftrightarrow>
     list_all (\<lambda>f. vr_valid (validateJsonString errorText True None [] (gv_texts v f)))
       [GroupRatio, TopupGroupRatio, UserUsableGroups, GroupGroupRatio, GroupSpecialUsableGroup] \<and>
     vr_valid (validateJsonString errorText True (Some isGroupList) (js ''Expected a JSON array of group identifiers'') (gv_texts v AutoGroups))"

section \<open>The save button\<close>

record PricePage =
  pp_visual :: bool
  pp_table :: TableState
  pp_expose :: bool
  pp_defaults :: ModelFormValues

definition toggleEditMode :: "PricePage \<Rightarrow> PricePage" where
  "toggleEditMode p = p\<lparr>pp_visual := \<not> pp_visual p\<rparr>"

definition pageValues :: "PricePage \<Rightarrow> ModelFormValues" where
  "pageValues p = \<lparr>mv_options = ts_options (pp_table p), mv_expose = pp_expose p\<rparr>"

text \<open>\<open>form.handleSubmit(onSave)\<close> saves what the schema accepts.\<close>

definition submitPage :: "(jsnum \<Rightarrow> jsstr) \<Rightarrow> (jsstr \<Rightarrow> jsstr) \<Rightarrow> (Request \<Rightarrow> Reply) \<Rightarrow> (Request \<Rightarrow> ModelFormValues list) \<Rightarrow> PricePage \<Rightarrow>
    Request list \<times> PricePage" where
  "submitPage nt errorText reply arrivals p =
     (if \<not> modelSchemaValid errorText (pageValues p) then ([], p)
      else case saveModelRatios nt reply arrivals (pageValues p) \<lparr>mf_values = pageValues p, mf_saved = pp_defaults p\<rparr> of
          (_, sent, form) \<Rightarrow>
            (sent, p\<lparr>pp_table := (pp_table p)\<lparr>ts_options := mv_options (mf_values form)\<rparr>, pp_expose := mv_expose (mf_values form),
              pp_defaults := mf_saved form\<rparr>))"

definition handleSavePage :: "(jsnum \<Rightarrow> jsstr) \<Rightarrow> (jsstr \<Rightarrow> jsstr) \<Rightarrow> (Request \<Rightarrow> Reply) \<Rightarrow> (Request \<Rightarrow> ModelFormValues list) \<Rightarrow>
    PricePage \<Rightarrow> table_error + (Request list \<times> PricePage)" where
  "handleSavePage nt errorText reply arrivals p =
     (if pp_visual p
      then (case commitOpenEditor nt (pp_table p) of
          Inl e \<Rightarrow> Inl e
        | Inr (committed, table) \<Rightarrow>
            if \<not> committed then Inr ([], p) else Inr (submitPage nt errorText reply arrivals (p\<lparr>pp_table := table\<rparr>)))
      else Inr (submitPage nt errorText reply arrivals p))"

end
