(* ===== verification/Price_Display.thy ===== *)
theory Price_Display
  imports Currency Billing_Tiers Request_Rules
begin

text \<open>
  The price page, \<open>features/pricing\<close>: the models it lists (\<open>hooks/use-pricing-data.ts\<close>), the
  group ratios (\<open>lib/model-helpers.ts\<close>), the prices of token and request models (\<open>lib/price.ts\<close>),
  of tiered models (\<open>lib/dynamic-price.ts\<close>), and the filters, tags and orders of the list
  (\<open>lib/filters.ts\<close>). Lower-casing and the collation of texts are parameters.
\<close>

section \<open>Models\<close>

record PricingVendor =
  pv_id :: int
  pv_name :: jsstr
  pv_icon :: "jsstr option"
  pv_description :: "jsstr option"

text \<open>A list of groups that is not an array is \<open>None\<close>; so is an absent or null ratio.\<close>

record PricingModel =
  pm_model_name :: jsstr
  pm_description :: "jsstr option"
  pm_vendor_id :: "int option"
  pm_vendor_name :: "jsstr option"
  pm_vendor_icon :: "jsstr option"
  pm_vendor_description :: "jsstr option"
  pm_quota_type :: int
  pm_model_ratio :: jsnum
  pm_completion_ratio :: jsnum
  pm_model_price :: "jsnum option"
  pm_cache_ratio :: "jsnum option"
  pm_create_cache_ratio :: "jsnum option"
  pm_image_ratio :: "jsnum option"
  pm_audio_ratio :: "jsnum option"
  pm_audio_completion_ratio :: "jsnum option"
  pm_enable_groups :: "jsstr list option"
  pm_tags :: "jsstr option"
  pm_supported_endpoint_types :: "jsstr list option"
  pm_key :: "jsstr option"
  pm_group_ratio :: "(jsstr \<times> jsnum) list option"
  pm_billing_mode :: "jsstr option"
  pm_billing_expr :: "jsstr option"

record PricingData =
  pd_data :: "PricingModel list option"
  pd_vendors :: "PricingVendor list option"
  pd_group_ratio :: "(jsstr \<times> jsnum) list option"

fun js_max :: "jsnum \<Rightarrow> jsnum \<Rightarrow> jsnum" where
  "js_max NaN _ = NaN"
| "js_max _ NaN = NaN"
| "js_max a b = (if num_less a b then b else a)"

definition priceRate :: "jsnum option \<Rightarrow> jsnum" where
  "priceRate price = js_max (nullish price (Fin 1)) (Fin (1 / 1000))"

definition usdExchangeRate :: "jsnum option \<Rightarrow> jsnum option \<Rightarrow> jsnum" where
  "usdExchangeRate price usd_exchange_rate = js_max (nullish usd_exchange_rate (priceRate price)) (Fin (1 / 1000))"

text \<open>The map of vendors: of two vendors with an identifier the later one stands.\<close>

definition vendorMap :: "PricingVendor list \<Rightarrow> (int \<times> PricingVendor) list" where
  "vendorMap vendors = foldl (\<lambda>m v. AList.update (pv_id v) v m) [] vendors"

definition listedModel :: "PricingData \<Rightarrow> (int \<times> PricingVendor) list \<Rightarrow> PricingModel \<Rightarrow> PricingModel" where
  "listedModel data vmap model =
     (let vendor = (case pm_vendor_id model of None \<Rightarrow> None | Some i \<Rightarrow> if i = 0 then None else map_of vmap i) in
      model\<lparr>pm_key := Some (pm_model_name model), pm_vendor_name := map_option pv_name vendor,
        pm_vendor_icon := (case vendor of None \<Rightarrow> None | Some v \<Rightarrow> pv_icon v),
        pm_vendor_description := (case vendor of None \<Rightarrow> None | Some v \<Rightarrow> pv_description v),
        pm_group_ratio := pd_group_ratio data\<rparr>)"

definition pricingModels :: "PricingData option \<Rightarrow> PricingModel list" where
  "pricingModels data =
     (case data of
        None \<Rightarrow> []
      | Some d \<Rightarrow>
          (case (pd_data d, pd_vendors d) of
             (Some models, Some vendors) \<Rightarrow> map (listedModel d (vendorMap vendors)) models
           | _ \<Rightarrow> []))"

section \<open>Group ratios\<close>

definition FILTER_ALL :: jsstr where "FILTER_ALL = js ''all''"

definition EXCLUDED_GROUPS :: "jsstr list" where "EXCLUDED_GROUPS = [[], js ''auto'']"

definition QUOTA_TOKEN :: int where "QUOTA_TOKEN = 0"
definition QUOTA_REQUEST :: int where "QUOTA_REQUEST = 1"

definition enabledGroups :: "PricingModel \<Rightarrow> jsstr list" where
  "enabledGroups model = nullish (pm_enable_groups model) []"

definition getAvailableGroups :: "PricingModel \<Rightarrow> jsstr list \<Rightarrow> jsstr list" where
  "getAvailableGroups model usableGroups =
     filter (\<lambda>g. g \<in> set (enabledGroups model)) (filter (\<lambda>g. g \<notin> set EXCLUDED_GROUPS) usableGroups)"

definition getConfiguredGroupRatio :: "(jsstr \<times> jsnum) list \<Rightarrow> jsstr \<Rightarrow> jsnum" where
  "getConfiguredGroupRatio groupRatio grp =
     (case map_of groupRatio grp of Some r \<Rightarrow> if is_finite r then r else Fin 1 | None \<Rightarrow> Fin 1)"

definition lowerRatio :: "(jsstr \<times> jsnum) list \<Rightarrow> jsnum \<Rightarrow> jsstr \<Rightarrow> jsnum" where
  "lowerRatio groupRatio minRatio grp =
     (case map_of groupRatio grp of
        Some r \<Rightarrow> if is_finite r \<and> num_less r minRatio then r else minRatio
      | None \<Rightarrow> minRatio)"

definition getDisplayGroupRatio :: "PricingModel \<Rightarrow> jsstr option \<Rightarrow> jsnum" where
  "getDisplayGroupRatio model selectedGroup =
     (let modelEnableGroups = enabledGroups model; groupRatio = nullish (pm_group_ratio model) []; selected = or_empty selectedGroup in
      if selected \<noteq> [] \<and> selected \<noteq> FILTER_ALL \<and> selected \<in> set modelEnableGroups
      then getConfiguredGroupRatio groupRatio selected
      else if modelEnableGroups = [] then Fin 1
      else let minRatio = foldl (lowerRatio groupRatio) (Infinite False) modelEnableGroups in
      if num_eq minRatio (Infinite False) then Fin 1 else minRatio)"

definition isTokenBasedModel :: "PricingModel \<Rightarrow> bool" where
  "isTokenBasedModel model \<longleftrightarrow> pm_quota_type model = QUOTA_TOKEN"

section \<open>Prices by ratio and by request\<close>

datatype TokenUnit = Unit_M | Unit_K

fun TOKEN_UNIT_DIVISORS :: "TokenUnit \<Rightarrow> jsnum" where
  "TOKEN_UNIT_DIVISORS Unit_M = Fin 1"
| "TOKEN_UNIT_DIVISORS Unit_K = Fin 1000"

datatype PriceType = Pt_input | Pt_output | Pt_cache | Pt_create_cache | Pt_image | Pt_audio_input | Pt_audio_output

definition hasRatio :: "jsnum option \<Rightarrow> bool" where
  "hasRatio value = (case value of None \<Rightarrow> False | Some r \<Rightarrow> is_finite r)"

definition timesRatio :: "jsnum \<Rightarrow> jsnum option \<Rightarrow> jsnum" where
  "timesRatio base ratio = (if hasRatio ratio then num_mul base (the ratio) else NaN)"

definition calculateTokenPrice :: "PricingModel \<Rightarrow> PriceType \<Rightarrow> jsnum \<Rightarrow> jsnum" where
  "calculateTokenPrice model type ratio =
     (let base = num_mul (num_mul (pm_model_ratio model) (Fin 2)) ratio in
      case type of
        Pt_input \<Rightarrow> base
      | Pt_output \<Rightarrow> num_mul base (pm_completion_ratio model)
      | Pt_cache \<Rightarrow> timesRatio base (pm_cache_ratio model)
      | Pt_create_cache \<Rightarrow> timesRatio base (pm_create_cache_ratio model)
      | Pt_image \<Rightarrow> timesRatio base (pm_image_ratio model)
      | Pt_audio_input \<Rightarrow> timesRatio base (pm_audio_ratio model)
      | Pt_audio_output \<Rightarrow>
          if hasRatio (pm_audio_ratio model) \<and> hasRatio (pm_audio_completion_ratio model)
          then num_mul (num_mul base (the (pm_audio_ratio model))) (the (pm_audio_completion_ratio model)) else NaN)"

definition applyRechargeRate :: "jsnum \<Rightarrow> bool \<Rightarrow> jsnum \<Rightarrow> jsnum \<Rightarrow> jsnum" where
  "applyRechargeRate price showWithRecharge rate exchange =
     (if \<not> showWithRecharge then price else num_div (num_mul price rate) exchange)"

definition unitPriceText :: "runtime \<Rightarrow> CurrencyConfig option \<Rightarrow> jsnum \<Rightarrow> TokenUnit \<Rightarrow> bool \<Rightarrow> jsnum \<Rightarrow> jsnum \<Rightarrow> jsstr option" where
  "unitPriceText rt stored priceInUSD tokenUnit showWithRecharge rate exchange =
     formatCurrencyFromUSD rt stored
       (Some (num_div (applyRechargeRate priceInUSD showWithRecharge rate exchange) (TOKEN_UNIT_DIVISORS tokenUnit)))
       (someOptions 4 6 False)"

definition formatPrice :: "runtime \<Rightarrow> CurrencyConfig option \<Rightarrow> PricingModel \<Rightarrow> PriceType \<Rightarrow> TokenUnit \<Rightarrow> bool \<Rightarrow> jsnum \<Rightarrow> jsnum
    \<Rightarrow> jsstr option \<Rightarrow> jsstr option" where
  "formatPrice rt stored model type tokenUnit showWithRecharge rate exchange selectedGroup =
     (if pm_quota_type model = QUOTA_REQUEST then Some (js ''-'')
      else unitPriceText rt stored (calculateTokenPrice model type (getDisplayGroupRatio model selectedGroup))
        tokenUnit showWithRecharge rate exchange)"

definition formatGroupPrice :: "runtime \<Rightarrow> CurrencyConfig option \<Rightarrow> PricingModel \<Rightarrow> jsstr \<Rightarrow> PriceType \<Rightarrow> TokenUnit \<Rightarrow> bool \<Rightarrow> jsnum
    \<Rightarrow> jsnum \<Rightarrow> (jsstr \<times> jsnum) list \<Rightarrow> jsstr option" where
  "formatGroupPrice rt stored model grp type tokenUnit showWithRecharge rate exchange groupRatio =
     (if pm_quota_type model = QUOTA_REQUEST then Some (js ''-'')
      else unitPriceText rt stored (calculateTokenPrice model type (getConfiguredGroupRatio groupRatio grp))
        tokenUnit showWithRecharge rate exchange)"

definition requestPriceText :: "runtime \<Rightarrow> CurrencyConfig option \<Rightarrow> PricingModel \<Rightarrow> jsnum \<Rightarrow> bool \<Rightarrow> jsnum \<Rightarrow> jsnum \<Rightarrow> jsstr option" where
  "requestPriceText rt stored model ratio showWithRecharge rate exchange =
     formatCurrencyFromUSD rt stored
       (Some (applyRechargeRate (num_mul (num_or_zero (pm_model_price model)) ratio) showWithRecharge rate exchange))
       (someOptions 4 4 False)"

definition formatFixedPrice :: "runtime \<Rightarrow> CurrencyConfig option \<Rightarrow> PricingModel \<Rightarrow> jsstr \<Rightarrow> bool \<Rightarrow> jsnum \<Rightarrow> jsnum
    \<Rightarrow> (jsstr \<times> jsnum) list \<Rightarrow> jsstr option" where
  "formatFixedPrice rt stored model grp showWithRecharge rate exchange groupRatio =
     (if pm_quota_type model \<noteq> QUOTA_REQUEST then Some (js ''-'')
      else requestPriceText rt stored model (getConfiguredGroupRatio groupRatio grp) showWithRecharge rate exchange)"

definition formatRequestPrice :: "runtime \<Rightarrow> CurrencyConfig option \<Rightarrow> PricingModel \<Rightarrow> bool \<Rightarrow> jsnum \<Rightarrow> jsnum \<Rightarrow> jsstr option
    \<Rightarrow> jsstr option" where
  "formatRequestPrice rt stored model showWithRecharge rate exchange selectedGroup =
     (if pm_quota_type model \<noteq> QUOTA_REQUEST then Some (js ''-'')
      else requestPriceText rt stored model (getDisplayGroupRatio model selectedGroup) showWithRecharge rate exchange)"

section \<open>Stripping zeros of a price text\<close>

definition price_rx :: "rx list" where
  "price_rx = [rx_cap 1 (rx_many (\<lambda>c. \<not> is_digit c \<and> c \<noteq> 45)),
     rx_cap 2 (rx_seq [rx_some (\<lambda>c. c = 45 \<or> is_digit c \<or> c = 44), rx_opt (rx_lit [46]), rx_many is_digit]),
     rx_cap 3 (rx_opt (rx_lit (js ''k'')))]"

text \<open>\<open>s.replace(/\.?0+$/, '')\<close>.\<close>

definition drop_zero_tail :: "jsstr \<Rightarrow> jsstr" where
  "drop_zero_tail s = (if s \<noteq> [] \<and> last s = 48 then drop_last_point (cut_zeros s) else s)"

definition stripTrailingZeros :: "(jsnum \<Rightarrow> jsstr) \<Rightarrow> jsstr \<Rightarrow> jsstr option" where
  "stripTrailingZeros nt formatted =
     (case rx_match price_rx formatted of
        None \<Rightarrow> Some formatted
      | Some m \<Rightarrow>
          let symbol = capture m 1; suffix = capture m 3; parsed = parse_float (filter (\<lambda>c. c \<noteq> 44) (capture m 2)) in
          if parsed = NaN then Some formatted
          else map_option (\<lambda>result. symbol @ result @ suffix)
            (if str_includes (nt parsed) (js ''e'') then map_option drop_zero_tail (to_fixed_text nt 20 parsed) else Some (nt parsed)))"

section \<open>Tiered models\<close>

record DynamicPriceOptions =
  dp_tokenUnit :: TokenUnit
  dp_showRechargePrice :: "bool option"
  dp_priceRate :: "jsnum option"
  dp_usdExchangeRate :: "jsnum option"
  dp_groupRatioMultiplier :: "jsnum option"

record DynamicPriceEntry =
  de_key :: jsstr
  de_field :: jsstr
  de_label :: jsstr
  de_shortLabel :: jsstr
  de_value :: jsnum
  de_formatted :: jsstr
  de_variable :: BillingVar

record DynamicPricingSummary =
  ds_tiers :: "ParsedTier list"
  ds_tier :: "ParsedTier option"
  ds_tierCount :: nat
  ds_hasRequestRules :: bool
  ds_isSpecialExpression :: bool
  ds_rawExpression :: jsstr
  ds_entries :: "DynamicPriceEntry list"
  ds_primaryEntries :: "DynamicPriceEntry list"
  ds_secondaryEntries :: "DynamicPriceEntry list"

datatype price_error = BadRule rule_error | BadRange

definition PRIMARY_DYNAMIC_FIELDS :: "jsstr list" where
  "PRIMARY_DYNAMIC_FIELDS = [js ''inputPrice'', js ''outputPrice'']"

definition isDynamicPricingModel :: "PricingModel \<Rightarrow> bool" where
  "isDynamicPricingModel model \<longleftrightarrow> pm_billing_mode model = Some (js ''tiered_expr'') \<and> or_empty (pm_billing_expr model) \<noteq> []"

definition formatDynamicUnitPrice :: "runtime \<Rightarrow> CurrencyConfig option \<Rightarrow> jsnum \<Rightarrow> DynamicPriceOptions \<Rightarrow> jsstr option" where
  "formatDynamicUnitPrice rt stored valuePerMillionTokens options =
     (let groupRatio = nullish (dp_groupRatioMultiplier options) (Fin 1);
          rate = nullish (dp_priceRate options) (Fin 1);
          exchange = nullish (dp_usdExchangeRate options) (Fin 1);
          priceUSD = num_div (num_mul valuePerMillionTokens groupRatio) (TOKEN_UNIT_DIVISORS (dp_tokenUnit options));
          displayPrice = applyRechargeRate priceUSD (nullish (dp_showRechargePrice options) False) rate exchange in
      formatBillingCurrencyFromUSD rt stored (Some displayPrice) (someOptions 4 6 False))"

definition getDynamicPricingTiers :: "(jsstr \<Rightarrow> jsstr) \<Rightarrow> PricingModel \<Rightarrow> rule_error + ParsedTier list" where
  "getDynamicPricingTiers nt model =
     (if \<not> isDynamicPricingModel model then Inr []
      else case splitBillingExprAndRequestRules nt (or_empty (pm_billing_expr model)) of
          Inl e \<Rightarrow> Inl e
        | Inr split \<Rightarrow> Inr (parseTiersFromExpr (billingExpr split)))"

definition hasDynamicRequestRules :: "(jsstr \<Rightarrow> jsstr) \<Rightarrow> PricingModel \<Rightarrow> rule_error + bool" where
  "hasDynamicRequestRules nt model =
     (if \<not> isDynamicPricingModel model then Inr False
      else case splitBillingExprAndRequestRules nt (or_empty (pm_billing_expr model)) of
          Inl e \<Rightarrow> Inl e
        | Inr split \<Rightarrow>
            (case tryParseRequestRuleExpr nt (requestRuleExpr split) of
               Inl e \<Rightarrow> Inl e
             | Inr parsed \<Rightarrow> Inr (parsed \<noteq> None \<and> parsed \<noteq> Some [])))"

text \<open>The callback of \<open>flatMap\<close>: no entry, or one whose text may fail.\<close>

definition priceEntry :: "runtime \<Rightarrow> CurrencyConfig option \<Rightarrow> ParsedTier \<Rightarrow> DynamicPriceOptions \<Rightarrow> BillingVar \<Rightarrow> DynamicPriceEntry option option" where
  "priceEntry rt stored tier options variable =
     (case bv_field variable of
        None \<Rightarrow> None
      | Some field \<Rightarrow>
          let value = nullish (map_of (pt_prices tier) field) NaN in
          if field = [] \<or> \<not> is_finite value \<or> num_leq value (Fin 0) then None
          else Some (map_option (\<lambda>text.
            \<lparr>de_key = bv_key variable, de_field = field, de_label = bv_label variable, de_shortLabel = bv_shortLabel variable,
             de_value = value, de_formatted = text, de_variable = variable\<rparr>) (formatDynamicUnitPrice rt stored value options)))"

definition isPrimary :: "DynamicPriceEntry \<Rightarrow> bool" where
  "isPrimary entry \<longleftrightarrow> de_field entry \<in> set PRIMARY_DYNAMIC_FIELDS"

definition primaryFirst :: "DynamicPriceEntry cmp" where
  "primaryFirst a b = (if isPrimary a \<noteq> isPrimary b then (if isPrimary a then - 1 else 1) else 0)"

definition getDynamicPriceEntries :: "runtime \<Rightarrow> CurrencyConfig option \<Rightarrow> ParsedTier option \<Rightarrow> DynamicPriceOptions
    \<Rightarrow> DynamicPriceEntry list option" where
  "getDynamicPriceEntries rt stored tier options =
     (case tier of
        None \<Rightarrow> Some []
      | Some t \<Rightarrow> map_option (js_sort primaryFirst) (those (List.map_filter (priceEntry rt stored t options) BILLING_PRICING_VARS)))"

definition getDynamicPricingSummary :: "runtime \<Rightarrow> (jsstr \<Rightarrow> jsstr) \<Rightarrow> CurrencyConfig option \<Rightarrow> PricingModel \<Rightarrow> DynamicPriceOptions
    \<Rightarrow> price_error + DynamicPricingSummary option" where
  "getDynamicPricingSummary rt nt stored model options =
     (if \<not> isDynamicPricingModel model then Inr None
      else case getDynamicPricingTiers nt model of
          Inl e \<Rightarrow> Inl (BadRule e)
        | Inr tiers \<Rightarrow>
            let tier = (case tiers of [] \<Rightarrow> None | t # _ \<Rightarrow> Some t); rawExpression = or_empty (pm_billing_expr model) in
            (case getDynamicPriceEntries rt stored tier options of
               None \<Rightarrow> Inl BadRange
             | Some entries \<Rightarrow>
                 (case hasDynamicRequestRules nt model of
                    Inl e \<Rightarrow> Inl (BadRule e)
                  | Inr rules \<Rightarrow> Inr (Some
                      \<lparr>ds_tiers = tiers, ds_tier = tier, ds_tierCount = length tiers, ds_hasRequestRules = rules,
                       ds_isSpecialExpression = (trim rawExpression \<noteq> [] \<and> length tiers = 0), ds_rawExpression = rawExpression,
                       ds_entries = entries, ds_primaryEntries = filter isPrimary entries,
                       ds_secondaryEntries = filter (\<lambda>e. \<not> isPrimary e) entries\<rparr>))))"

section \<open>Filters and orders\<close>

definition contains_lower :: "(jsstr \<Rightarrow> jsstr) \<Rightarrow> jsstr \<Rightarrow> jsstr option \<Rightarrow> bool" where
  "contains_lower lower q field = (case field of None \<Rightarrow> False | Some s \<Rightarrow> str_includes (lower s) q)"

definition filterBySearch :: "(jsstr \<Rightarrow> jsstr) \<Rightarrow> PricingModel list \<Rightarrow> jsstr \<Rightarrow> PricingModel list" where
  "filterBySearch lower models query =
     (if query = [] then models
      else let lowerQuery = lower query in
      filter (\<lambda>m. contains_lower lower lowerQuery (Some (pm_model_name m)) \<or> contains_lower lower lowerQuery (pm_description m) \<or>
        contains_lower lower lowerQuery (pm_tags m) \<or> contains_lower lower lowerQuery (pm_vendor_name m)) models)"

definition filterByVendor :: "PricingModel list \<Rightarrow> jsstr \<Rightarrow> PricingModel list" where
  "filterByVendor models vendor = (if vendor = FILTER_ALL then models else filter (\<lambda>m. pm_vendor_name m = Some vendor) models)"

definition filterByGroup :: "PricingModel list \<Rightarrow> jsstr \<Rightarrow> PricingModel list" where
  "filterByGroup models grp = (if grp = FILTER_ALL then models else filter (\<lambda>m. grp \<in> set (enabledGroups m)) models)"

definition filterByQuotaType :: "PricingModel list \<Rightarrow> jsstr \<Rightarrow> PricingModel list" where
  "filterByQuotaType models quotaType =
     (if quotaType = js ''all'' then models
      else let targetType = (if quotaType = js ''token'' then QUOTA_TOKEN else QUOTA_REQUEST) in
      filter (\<lambda>m. pm_quota_type m = targetType) models)"

definition filterByEndpointType :: "PricingModel list \<Rightarrow> jsstr \<Rightarrow> PricingModel list" where
  "filterByEndpointType models endpointType =
     (if endpointType = js ''all'' then models
      else filter (\<lambda>m. endpointType \<in> set (nullish (pm_supported_endpoint_types m) [])) models)"

definition getModelPrice :: "PricingModel \<Rightarrow> jsnum" where
  "getModelPrice model = (if pm_quota_type model = 0 then pm_model_ratio model else num_or_zero (pm_model_price model))"

text \<open>The sign of a difference of numbers; \<open>NaN\<close> counts as zero.\<close>

definition cmp_jsnum :: "jsnum cmp" where
  "cmp_jsnum a b = (if num_less a b then - 1 else if num_less b a then 1 else 0)"

definition sortModels :: "jsstr cmp \<Rightarrow> PricingModel list \<Rightarrow> jsstr \<Rightarrow> PricingModel list" where
  "sortModels localeCompare models sortBy =
     (if sortBy = js ''name'' then js_sort (cmp_key pm_model_name localeCompare) models
      else if sortBy = js ''price-low'' then js_sort (cmp_key getModelPrice cmp_jsnum) models
      else if sortBy = js ''price-high'' then js_sort (cmp_desc (cmp_key getModelPrice cmp_jsnum)) models
      else models)"

definition tag_separator :: "code_unit \<Rightarrow> bool" where
  "tag_separator c \<longleftrightarrow> c \<in> {44, 59, 124} \<or> is_ws c"

definition parseTags :: "jsstr option \<Rightarrow> jsstr list" where
  "parseTags tagsString =
     (if or_empty tagsString = [] then []
      else filter (\<lambda>t. t \<noteq> []) (map trim (rx_split (rx_some tag_separator) [] (or_empty tagsString))))"

definition extractAllTags :: "(jsstr \<Rightarrow> jsstr) \<Rightarrow> jsstr cmp \<Rightarrow> PricingModel list \<Rightarrow> jsstr list" where
  "extractAllTags lower localeCompare models =
     js_sort localeCompare (set_of (concat (map (\<lambda>m. if or_empty (pm_tags m) = [] then [] else map lower (parseTags (pm_tags m))) models)))"

definition filterByTag :: "(jsstr \<Rightarrow> jsstr) \<Rightarrow> PricingModel list \<Rightarrow> jsstr \<Rightarrow> PricingModel list" where
  "filterByTag lower models tag =
     (if tag = FILTER_ALL then models
      else filter (\<lambda>m. or_empty (pm_tags m) \<noteq> [] \<and> lower tag \<in> set (map lower (parseTags (pm_tags m)))) models)"

record ModelFilters =
  mf_search :: jsstr
  mf_vendor :: jsstr
  mf_group :: jsstr
  mf_quotaType :: jsstr
  mf_endpointType :: jsstr
  mf_tag :: jsstr
  mf_sortBy :: jsstr

definition filterAndSortModels :: "(jsstr \<Rightarrow> jsstr) \<Rightarrow> jsstr cmp \<Rightarrow> PricingModel list \<Rightarrow> ModelFilters \<Rightarrow> PricingModel list" where
  "filterAndSortModels lower localeCompare models f =
     (let result = filterBySearch lower models (mf_search f);
          result = filterByVendor result (mf_vendor f);
          result = filterByGroup result (mf_group f);
          result = filterByQuotaType result (mf_quotaType f);
          result = filterByEndpointType result (mf_endpointType f);
          result = filterByTag lower result (mf_tag f) in
      sortModels localeCompare result (mf_sortBy f))"

end
