(* ===== verification/Currency_Claims.thy ===== *)
theory Currency_Claims
  imports Currency
begin

text \<open>
  What the texts and conversions of \<open>Currency\<close> guarantee: the text of a number reads back as
  the nearest decimal and carries no needless zeros, small amounts are not rounded away, token
  displays show the quota itself, billing amounts are never tokens, and a quota survives the
  trip through the amount shown in an input field.
\<close>

section \<open>Decimal texts\<close>

lemma parse_digits_append: "parse_digits (s @ t) = parse_digits s * 10 ^ length t + parse_digits t"
proof (induction t rule: rev_induct)
  case (snoc c t)
  then show ?case by (simp add: parse_digits_snoc flip: append_assoc)
qed (simp add: parse_digits_def)

lemma parse_digits_zeros [simp]: "parse_digits (replicate k 48) = 0"
proof -
  have "foldl (\<lambda>n c. 10 * n + (c - 48)) 0 (replicate k (48 :: nat)) = (0 :: nat)" by (induction k) simp_all
  then show ?thesis by (simp add: parse_digits_def)
qed

lemma length_show_nat: "n < 10 ^ d \<Longrightarrow> 0 < d \<Longrightarrow> length (show_nat n) \<le> d"
proof (induction n arbitrary: d rule: show_nat.induct)
  case (1 n)
  show ?case
  proof (cases "n < 10")
    case True
    with 1 show ?thesis by (subst show_nat.simps) simp
  next
    case False
    with 1(2,3) obtain e where e: "d = Suc e" "0 < e"
      by (cases d) (simp, metis bot_nat_0.not_eq_extremum mult.right_neutral power_0 power_Suc)
    then have "n div 10 < 10 ^ e" using 1(2) by (simp add: less_mult_imp_div_less mult.commute)
    with 1(1) [OF False] e False show ?thesis by (subst show_nat.simps) simp
  qed
qed

lemma pad_zeros_facts:
  assumes "n < 10 ^ d" "0 < d"
  shows "length (pad_zeros d (show_nat n)) = d" "parse_digits (pad_zeros d (show_nat n)) = n"
    "list_all is_digit (pad_zeros d (show_nat n))"
  using length_show_nat [OF assms] show_nat_digits [of n]
  by (auto simp: pad_zeros_def parse_digits_append list_all_iff is_digit_def)

lemma cut_zeros_split: "\<exists>k. s = cut_zeros s @ replicate k 48"
proof -
  have "rev s = takeWhile (\<lambda>c. c = 48) (rev s) @ dropWhile (\<lambda>c. c = 48) (rev s)" by simp
  moreover have "takeWhile (\<lambda>c. c = 48) (rev s) = replicate (length (takeWhile (\<lambda>c. c = 48) (rev s))) 48"
    by (metis (mono_tags, lifting) replicate_eqI set_takeWhileD)
  ultimately have "rev (rev s) = cut_zeros s @ rev (replicate (length (takeWhile (\<lambda>c. c = 48) (rev s))) 48)"
    unfolding cut_zeros_def by (metis rev_append)
  then show ?thesis by auto
qed

lemma cut_zeros_last: "cut_zeros s \<noteq> [] \<Longrightarrow> last (cut_zeros s) \<noteq> 48"
  unfolding cut_zeros_def using hd_dropWhile [of "\<lambda>c. c = 48" "rev s"] by (simp add: last_rev)

lemma cut_zeros_id: "s = [] \<or> last s \<noteq> 48 \<Longrightarrow> cut_zeros s = s"
  by (cases s rule: rev_cases) (auto simp: cut_zeros_def)

text \<open>The value of the digits \<open>ip.fp\<close>.\<close>

definition decimal_value :: "jsstr \<Rightarrow> jsstr \<Rightarrow> rat" where
  "decimal_value ip fp = rat_of_nat (parse_digits (ip @ fp)) / 10 ^ length fp"

lemma decimal_value_cut: "decimal_value ip (cut_zeros fp) = decimal_value ip fp"
proof -
  obtain k where k: "fp = cut_zeros fp @ replicate k 48" using cut_zeros_split by blast
  have "parse_digits (ip @ fp) = parse_digits (ip @ cut_zeros fp) * 10 ^ k"
    by (subst k) (simp add: parse_digits_append flip: append_assoc)
  moreover have "length fp = length (cut_zeros fp) + k" by (subst k) simp
  ultimately show ?thesis by (simp add: decimal_value_def power_add)
qed

definition point_text :: "jsstr \<Rightarrow> jsstr" where
  "point_text fp = (if fp = [] then [] else 46 # fp)"

definition sign_text :: "bool \<Rightarrow> jsstr" where
  "sign_text neg = (if neg then [45] else [])"

lemma drop_fraction_zeros_prefix:
  "46 \<notin> set p \<Longrightarrow> drop_fraction_zeros (p @ s) = p @ drop_fraction_zeros s"
  by (induction p) auto

lemma no_point_kept: "46 \<notin> set s \<Longrightarrow> drop_fraction_zeros s = s"
  by (induction s) auto

lemma removeTrailingZeros_text:
  assumes "46 \<notin> set p" "list_all is_digit fp" "fp \<noteq> []" "p \<noteq> []"
  shows "removeTrailingZeros (p @ 46 # fp) = p @ point_text (cut_zeros fp)"
proof -
  have fp: "46 \<notin> set fp" using assms(2) by (auto simp: list_all_iff is_digit_def)
  have "drop_fraction_zeros (46 # fp) = 46 # cut_zeros fp"
    using assms(2,3) by (cases "last fp = 48") (simp_all add: no_point_kept [OF fp] cut_zeros_id)
  then have d: "drop_fraction_zeros (p @ 46 # fp) = p @ 46 # cut_zeros fp"
    using drop_fraction_zeros_prefix [OF assms(1), of "46 # fp"] by simp
  have "cut_zeros fp \<noteq> [] \<Longrightarrow> last (cut_zeros fp) \<noteq> 46"
    using fp cut_zeros_split [of fp] by (metis UnI1 last_in_set set_append)
  then show ?thesis
    using d by (simp add: removeTrailingZeros_def str_includes_singleton drop_last_point_def point_text_def butlast_append)
qed

lemma removeTrailingZeros_integer: "46 \<notin> set s \<Longrightarrow> removeTrailingZeros s = s"
  by (simp add: removeTrailingZeros_def str_includes_singleton)

lemma takeWhile_digits:
  assumes "list_all is_digit ip"
  shows "takeWhile is_digit (ip @ point_text fp) = ip" "dropWhile is_digit (ip @ point_text fp) = point_text fp"
  using assms by (auto simp: list_all_iff takeWhile_append dropWhile_append point_text_def is_digit_def)

lemma unsigned_decimal_text:
  assumes "list_all is_digit ip" "list_all is_digit fp" "ip \<noteq> []"
  shows "unsigned_decimal (ip @ point_text fp) = Some (decimal_value ip fp)"
proof -
  have "takeWhile is_digit fp = fp" "dropWhile is_digit fp = []" using assms(2) by (simp_all add: list_all_iff)
  with assms(3) show ?thesis
    unfolding unsigned_decimal_def Let_def takeWhile_digits [OF assms(1)]
    by (cases "fp = []") (simp_all add: point_text_def decimal_value_def del: takeWhile_eq_all_conv dropWhile_eq_Nil_conv)
qed

lemma digit_facts:
  assumes "list_all is_digit s"
  shows "45 \<notin> set s" "43 \<notin> set s" "46 \<notin> set s" "c \<in> set s \<Longrightarrow> \<not> is_ws c"
  using assms by (auto simp: list_all_iff is_digit_def is_ws_def)

lemma trim_decimal:
  assumes "list_all is_digit ip" "list_all is_digit fp" "ip \<noteq> []"
  shows "trim (sign_text neg @ ip @ point_text fp) = sign_text neg @ ip @ point_text fp"
proof (rule trim_id)
  have "\<not> is_ws (hd (sign_text neg @ ip @ point_text fp))" "\<not> is_ws (last (sign_text neg @ ip @ point_text fp))"
    using assms digit_facts(4) [OF assms(1)] digit_facts(4) [OF assms(2)]
    by (auto simp: sign_text_def point_text_def is_ws_def)
  then show "sign_text neg @ ip @ point_text fp = [] \<or>
    \<not> is_ws (hd (sign_text neg @ ip @ point_text fp)) \<and> \<not> is_ws (last (sign_text neg @ ip @ point_text fp))" by blast
qed

lemma number_of_decimal:
  assumes "list_all is_digit ip" "list_all is_digit fp" "ip \<noteq> []"
  shows "number_of_string (sign_text neg @ ip @ point_text fp) = Fin ((if neg then - 1 else 1) * decimal_value ip fp)"
proof -
  obtain c r where c: "ip = c # r" "is_digit c" "list_all is_digit r" using assms(1,3) by (cases ip) auto
  have h: "hd (r @ point_text fp) \<notin> {120, 88, 111, 79, 98, 66}" if "r @ point_text fp \<noteq> []"
    using that c(3) by (cases r) (auto simp: point_text_def is_digit_def split: if_splits)
  have i: "ip @ point_text fp \<noteq> js ''Infinity''" using c by (simp add: js_simps is_digit_def)
  note u = unsigned_decimal_text [OF assms]
  have s: "signed_decimal n (ip @ point_text fp) = Fin ((if n then - 1 else 1) * decimal_value ip fp)" for n
    using u i by (simp add: signed_decimal_def)
  have t: "trim (sign_text neg @ ip @ point_text fp) = sign_text neg @ c # (r @ point_text fp)"
    using trim_decimal [OF assms] c(1) by simp
  show ?thesis
  proof (cases neg)
    case True
    with t s [of True] c(1) show ?thesis by (simp add: number_of_string_def sign_text_def)
  next
    case False
    with t s [of False] c h show ?thesis by (auto simp: number_of_string_def sign_text_def Let_def is_digit_def)
  qed
qed

section \<open>The text of a number\<close>

lemma fixed_digits_text:
  fixes d n
  defines "ip \<equiv> show_nat (n div 10 ^ d)" and "fp \<equiv> (if d = 0 then [] else pad_zeros d (show_nat (n mod 10 ^ d)))"
  shows "fixed_digits d n = ip @ point_text fp" "list_all is_digit ip" "list_all is_digit fp" "ip \<noteq> []"
    "decimal_value ip fp = rat_of_nat n / 10 ^ d"
proof -
  have ne: "0 < d \<Longrightarrow> length fp = d" "0 < d \<Longrightarrow> parse_digits fp = n mod 10 ^ d" "list_all is_digit fp"
    using pad_zeros_facts [of "n mod 10 ^ d" d] by (simp_all add: fp_def)
  then have "0 < d \<Longrightarrow> fp \<noteq> []" by auto
  then show "fixed_digits d n = ip @ point_text fp"
    by (cases "d = 0") (simp_all add: fixed_digits_def ip_def point_text_def fp_def)
  show "list_all is_digit ip" "ip \<noteq> []" using show_nat_digits by (simp_all add: ip_def list_all_iff)
  show "list_all is_digit fp" by (rule ne)
  have "parse_digits (ip @ fp) = n \<and> length fp = d"
    using ne div_mult_mod_eq [of n "10 ^ d"] by (cases "d = 0") (simp_all add: parse_digits_append ip_def fp_def)
  then show "decimal_value ip fp = rat_of_nat n / 10 ^ d" by (simp add: decimal_value_def)
qed

lemma removeTrailingZeros_fixed:
  "\<exists>ip fp. removeTrailingZeros (sign_text neg @ fixed_digits d n) = sign_text neg @ ip @ point_text fp \<and>
     list_all is_digit ip \<and> list_all is_digit fp \<and> ip \<noteq> [] \<and> (fp \<noteq> [] \<longrightarrow> last fp \<noteq> 48) \<and>
     decimal_value ip fp = rat_of_nat n / 10 ^ d"
proof -
  define ip where "ip = show_nat (n div 10 ^ d)"
  define fp where "fp = (if d = 0 then [] else pad_zeros d (show_nat (n mod 10 ^ d)))"
  note t = fixed_digits_text [where d = d and n = n, folded ip_def fp_def]
  have p: "46 \<notin> set (sign_text neg @ ip)" using digit_facts(3) [OF t(2)] by (simp add: sign_text_def)
  have "removeTrailingZeros (sign_text neg @ fixed_digits d n) = sign_text neg @ ip @ point_text (cut_zeros fp)"
  proof (cases "fp = []")
    case True
    with p t(1) show ?thesis by (simp add: removeTrailingZeros_integer point_text_def cut_zeros_def)
  next
    case False
    with removeTrailingZeros_text [OF p t(3) False] t(1,4) show ?thesis by (simp add: point_text_def)
  qed
  moreover have "list_all is_digit (cut_zeros fp)"
    using t(3) cut_zeros_split [of fp] by (metis list_all_append)
  ultimately show ?thesis using t cut_zeros_last decimal_value_cut by metis
qed

lemma nearest_decimal: "0 \<le> q \<Longrightarrow> \<bar>rat_of_nat (nat \<lfloor>q * 10 ^ d + 1 / 2\<rfloor>) / 10 ^ d - q\<bar> \<le> 1 / 2 / 10 ^ d"
proof -
  assume q: "0 \<le> q"
  define x where "x = q * 10 ^ d"
  have x: "0 \<le> x" using q by (simp add: x_def)
  have "\<bar>of_int \<lfloor>x + 1 / 2\<rfloor> - x\<bar> \<le> 1 / 2" using floor_correct [of "x + 1 / 2"] by linarith
  moreover have "rat_of_nat (nat \<lfloor>x + 1 / 2\<rfloor>) = of_int \<lfloor>x + 1 / 2\<rfloor>" using x by simp
  ultimately have "\<bar>rat_of_nat (nat \<lfloor>x + 1 / 2\<rfloor>) - x\<bar> / 10 ^ d \<le> 1 / 2 / 10 ^ d"
    by (intro divide_right_mono) simp_all
  moreover have "\<bar>rat_of_nat (nat \<lfloor>x + 1 / 2\<rfloor>) - x\<bar> / 10 ^ d = \<bar>rat_of_nat (nat \<lfloor>x + 1 / 2\<rfloor>) / 10 ^ d - q\<bar>"
    using abs_divide [of "rat_of_nat (nat \<lfloor>x + 1 / 2\<rfloor>) - x" "10 ^ d"] by (simp add: x_def diff_divide_distrib)
  ultimately show ?thesis by (simp add: x_def)
qed

lemma to_fixed_shown:
  assumes "\<bar>q\<bar> < 10 ^ 21" "d \<le> 100"
  shows "\<exists>t s r. to_fixed_text nt d (Fin q) = Some t \<and> removeTrailingZeros t = s \<and> number_of_string s = Fin r \<and>
    \<bar>r - q\<bar> \<le> 1 / 2 / 10 ^ d \<and> (46 \<in> set s \<longrightarrow> last s \<notin> {46, 48})"
proof -
  define n where "n = nat \<lfloor>\<bar>q\<bar> * 10 ^ d + 1 / 2\<rfloor>"
  let ?t = "sign_text (q < 0) @ fixed_digits d n"
  have t: "to_fixed_text nt d (Fin q) = Some ?t" using assms by (simp add: to_fixed_text_def n_def sign_text_def)
  obtain ip fp where s: "removeTrailingZeros ?t = sign_text (q < 0) @ ip @ point_text fp"
    and w: "list_all is_digit ip" "list_all is_digit fp" "ip \<noteq> []" "fp \<noteq> [] \<longrightarrow> last fp \<noteq> 48"
    and v: "decimal_value ip fp = rat_of_nat n / 10 ^ d"
    using removeTrailingZeros_fixed by blast
  have "\<bar>(if q < 0 then - 1 else 1) * (rat_of_nat n / 10 ^ d) - q\<bar> \<le> 1 / 2 / 10 ^ d"
    using nearest_decimal [of "\<bar>q\<bar>" d] by (auto simp: n_def abs_if split: if_splits)
  moreover have "46 \<in> set (sign_text (q < 0) @ ip @ point_text fp) \<longrightarrow> last (sign_text (q < 0) @ ip @ point_text fp) \<notin> {46, 48}"
    using w digit_facts(3) [OF w(1)] digit_facts(3) [OF w(2)]
    by (cases "fp = []") (auto simp: point_text_def sign_text_def dest: last_in_set)
  ultimately show ?thesis using t s number_of_decimal [OF w(1-3), of "q < 0"] v by metis
qed

lemma leq_abs: "num_leq (Fin a) (num_abs (Fin q)) \<longleftrightarrow> a \<le> \<bar>q\<bar>"
  by (auto simp: num_leq_def)

lemma plain_text:
  assumes "\<bar>q\<bar> < 10 ^ 21" "large \<le> 100" "small \<le> 100"
  shows "\<exists>s r. formatNumberWithSuffix rt (Fin q) large small False = Some s \<and> number_of_string s = Fin r \<and>
      \<bar>r - q\<bar> \<le> 1 / 2 / 10 ^ (if 1 \<le> \<bar>q\<bar> then large else small) \<and> (46 \<in> set s \<longrightarrow> last s \<notin> {46, 48})"
proof -
  have "(if 1 \<le> \<bar>q\<bar> then large else small) \<le> 100" using assms by simp
  from to_fixed_shown [OF assms(1) this, of "rt_numberText rt"] show ?thesis
    unfolding formatNumberWithSuffix_def Let_def leq_abs by auto
qed

lemma thousands_text:
  assumes "\<bar>q\<bar> < 10 ^ 21" "1000 \<le> \<bar>q\<bar>"
  shows "\<exists>s r. formatNumberWithSuffix rt (Fin q) large small True = Some (s @ js ''k'') \<and>
      number_of_string s = Fin r \<and> \<bar>1000 * r - q\<bar> \<le> 50 \<and> (46 \<in> set s \<longrightarrow> last s \<notin> {46, 48})"
proof -
  have "\<bar>q / 1000\<bar> < 10 ^ 21" using assms(1) by simp
  from to_fixed_shown [OF this, of 1 "rt_numberText rt"] obtain t r where
    t: "to_fixed_text (rt_numberText rt) 1 (Fin (q / 1000)) = Some t" "number_of_string (removeTrailingZeros t) = Fin r"
      "\<bar>r - q / 1000\<bar> \<le> 1 / 2 / 10" "46 \<in> set (removeTrailingZeros t) \<longrightarrow> last (removeTrailingZeros t) \<notin> {46, 48}"
    by auto
  have "\<bar>1000 * r - q\<bar> = 1000 * \<bar>r - q / 1000\<bar>" by (simp add: abs_if)
  with t(3) have "\<bar>1000 * r - q\<bar> \<le> 50" by simp
  with t assms(2) show ?thesis unfolding formatNumberWithSuffix_def Let_def leq_abs by auto
qed

section \<open>The configuration in use\<close>

lemma positive_or_pos: "num_less (Fin 0) d \<Longrightarrow> num_less (Fin 0) (positive_or x d)"
  by (simp add: positive_or_def)

lemma getConfig_positive:
  "num_less (Fin 0) (cc_quotaPerUnit (getConfig stored))"
  "num_less (Fin 0) (cc_usdExchangeRate (getConfig stored))"
  "num_less (Fin 0) (cc_customCurrencyExchangeRate (getConfig stored))"
  by (simp_all add: getConfig_def Let_def positive_or_pos DEFAULT_CURRENCY_CONFIG_def)

lemma metaRate_positive: "num_less (Fin 0) (metaRate (getDisplayMeta (getConfig stored)))"
  by (simp add: getDisplayMeta_def usdMeta_def getConfig_positive)

lemma finite_positive: "num_less (Fin 0) x \<Longrightarrow> is_finite x \<Longrightarrow> \<exists>q. x = Fin q \<and> 0 < q"
  by (cases x) auto

lemma round_of_int [simp]: "num_round (Fin (of_int n)) = Fin (of_int n)"
proof -
  have "\<lfloor>rat_of_int n + 1 / 2\<rfloor> = n" by linarith
  then show ?thesis by simp
qed

text \<open>An amount other than zero keeps its sign and is never below the smallest amount the digits can show.\<close>

lemma adjustForMinimum_visible:
  assumes "q \<noteq> 0" "\<not> num_less (Fin 0) m"
  shows "\<exists>r. adjustForMinimum (Fin q) d m = Fin r \<and> sgn r = sgn q \<and> 1 / 10 ^ d \<le> \<bar>r\<bar> \<and> (1 / 10 ^ d \<le> \<bar>q\<bar> \<longrightarrow> r = q)"
  using assms by (auto simp: adjustForMinimum_def Let_def sgn_if)

lemma show_int_fixed: "sign_text (n < 0) @ fixed_digits 0 (nat \<bar>n\<bar>) = show_int n"
  by (simp add: sign_text_def fixed_digits_def show_int_def)

lemma floor_int_half: "nat \<lfloor>\<bar>rat_of_int n\<bar> * 10 ^ 0 + 1 / 2\<rfloor> = nat \<bar>n\<bar>"
proof -
  have "\<lfloor>rat_of_int \<bar>n\<bar> + 1 / 2\<rfloor> = \<bar>n\<bar>" by linarith
  then show ?thesis by simp
qed

lemma tokens_text:
  assumes "\<bar>n\<bar> < 10 ^ 21"
  shows "formatNumberWithSuffix rt (Fin (of_int n)) 0 6 False = Some (show_int n)"
proof (cases "n = 0")
  case True
  have z: "show_nat 0 = [48]" by (simp add: show_nat.simps)
  have "pad_zeros 6 [48] = [48, 48, 48, 48, 48, 48]" by (simp add: pad_zeros_def numeral_eq_Suc)
  then have "to_fixed_text (rt_numberText rt) 6 (Fin 0) = Some [48, 46, 48, 48, 48, 48, 48, 48]"
    by (simp add: to_fixed_text_def fixed_digits_def z)
  moreover have "removeTrailingZeros [48, 46, 48, 48, 48, 48, 48, 48] = [48]"
    by (simp add: removeTrailingZeros_def str_includes_singleton is_digit_def cut_zeros_def drop_last_point_def)
  ultimately show ?thesis
    using True by (simp add: formatNumberWithSuffix_def Let_def num_leq_def show_int_def z)
next
  case False
  have "rat_of_int \<bar>n\<bar> < of_int (10 ^ 21)" using assms by (simp only: of_int_less_iff)
  then have "\<bar>rat_of_int n\<bar> < 10 ^ 21" by simp
  then have "to_fixed_text (rt_numberText rt) 0 (Fin (of_int n)) = Some (show_int n)"
    using floor_int_half [of n] show_int_fixed [of n] by (simp add: to_fixed_text_def sign_text_def)
  moreover have "num_leq (Fin 1) (num_abs (Fin (of_int n)))"
  proof -
    have "rat_of_int 1 \<le> of_int \<bar>n\<bar>" using False by (intro of_int_le_iff [THEN iffD2]) linarith
    then show ?thesis by (auto simp: num_leq_def)
  qed
  moreover have "46 \<notin> set (show_int n)"
    using show_nat_digits [of "nat n"] show_nat_digits [of "nat (- n)"] by (auto simp: show_int_def is_digit_def)
  ultimately show ?thesis by (simp add: formatNumberWithSuffix_def Let_def removeTrailingZeros_integer)
qed

lemma tokens_meta_type: "getDisplayMeta c = TokensMeta q \<Longrightarrow> cc_quotaDisplayType c = js ''TOKENS''"
  by (auto simp: getDisplayMeta_def usdMeta_def split: if_splits)

definition billingConfig :: "CurrencyConfig option \<Rightarrow> CurrencyConfig option" where
  "billingConfig stored =
     map_option (\<lambda>c. if cc_quotaDisplayType c = js ''TOKENS'' then c\<lparr>cc_quotaDisplayType := js ''USD''\<rparr> else c) stored"

lemma billingConfig_meta:
  "getDisplayMeta (getConfig (billingConfig stored)) = getBillingDisplayMeta (getConfig stored)"
proof (cases stored)
  case None
  then show ?thesis
    by (simp add: billingConfig_def getConfig_def getDisplayMeta_def getBillingDisplayMeta_def DEFAULT_CURRENCY_CONFIG_def
        usdMeta_def js_simps)
next
  case (Some c)
  then show ?thesis
    by (simp add: billingConfig_def getConfig_def getDisplayMeta_def getBillingDisplayMeta_def usdMeta_def Let_def js_simps)
qed

text \<open>
  With the display type \<open>TOKENS\<close> the usage log shows a quota as the whole number that is
  stored, for every configured size of the unit.
\<close>

lemma log_quota_tokens_exact:
  assumes "cc_quotaDisplayType (getConfig stored) = js ''TOKENS''" and "is_finite (cc_quotaPerUnit (getConfig stored))"
    and "\<bar>n\<bar> < 10 ^ 21"
  shows "formatLogQuota rt stored (Fin (of_int n)) = Some (show_int n)"
proof -
  obtain u where u: "cc_quotaPerUnit (getConfig stored) = Fin u" "0 < u"
    using finite_positive [OF getConfig_positive(1) assms(2)] by blast
  have "getDisplayMeta (getConfig stored) = TokensMeta (Fin u)" using assms(1) u by (simp add: getDisplayMeta_def js_simps)
  with u tokens_text [OF assms(3), of rt] show ?thesis
    by (simp add: formatLogQuota_def formatQuotaWithCurrency_def formatCurrencyFromUSD_def is_missing_def getCurrencyDisplay_def
        Let_def someOptions_def mergeOptions_def nullish_def DEFAULT_FORMAT_OPTIONS_def)
qed

text \<open>
  The same balance of ten dollars as the default options show it: abbreviated, not with
  separators of thousands.
\<close>

lemma default_tokens_abbreviated:
  "formatCurrencyFromUSD rt (Some (DEFAULT_CURRENCY_CONFIG\<lparr>cc_quotaDisplayType := js ''TOKENS''\<rparr>)) (Some (Fin 10)) None =
     Some (js ''5000k'')"
proof -
  have "show_nat 5000 = [53, 48, 48, 48]" "show_nat 0 = [48]" by (simp_all add: show_nat.simps)
  moreover have "\<lfloor>100001 / 2 :: rat\<rfloor> = 50000" by (rule floor_unique) simp_all
  ultimately show ?thesis
    by (simp add: formatCurrencyFromUSD_def is_missing_def getCurrencyDisplay_def getConfig_def positive_or_def
        DEFAULT_CURRENCY_CONFIG_def getDisplayMeta_def mergeOptions_def DEFAULT_FORMAT_OPTIONS_def formatNumberWithSuffix_def
        num_leq_def to_fixed_text_def fixed_digits_def pad_zeros_def removeTrailingZeros_def str_includes_singleton is_digit_def
        cut_zeros_def drop_last_point_def js_simps)
qed

section \<open>Properties\<close>


definition sampleRuntime :: runtime where
  "sampleRuntime = \<lparr>rt_numberText = (\<lambda>x. case x of Fin q \<Rightarrow> show_int \<lfloor>q\<rfloor> | _ \<Rightarrow> js ''NaN''),
     rt_numberFormat = (\<lambda>_ opts x. Some (or_empty (nf_currency opts) @ (case x of Fin q \<Rightarrow> show_int \<lfloor>q\<rfloor> | _ \<Rightarrow> js ''NaN'')))\<rparr>"


lemma round_near:
  assumes "\<bar>x - of_int n\<bar> \<le> \<bar>of_int n\<bar> / 2 ^ 50" "\<bar>of_int n :: rat\<bar> < 2 ^ 49"
  shows "num_round (Fin x) = Fin (of_int n)"
proof -
  have "\<bar>of_int n :: rat\<bar> / 2 ^ 50 < 1 / 2" using assms(2) by simp
  then have "\<lfloor>x + 1 / 2\<rfloor> = n" using assms(1) by (intro floor_unique) linarith+
  then show ?thesis by simp
qed


definition sampleCurrency :: "string \<Rightarrow> CurrencyConfig" where
  "sampleCurrency t = DEFAULT_CURRENCY_CONFIG\<lparr>cc_quotaDisplayType := js t, cc_usdExchangeRate := Fin 7\<rparr>"

text \<open>The roundings show before \<open>Math.round\<close>: three units at the rate 7 come back as slightly more.\<close>

lemma roundings_show: "3 < to_double (to_double (to_double (to_double (3 / 500000) * 7) / 7) * 500000)"
  by code_simp


text \<open>
  Billing amounts are never tokens. Whatever is configured, a billing amount is shown
  exactly as a balance would be with the display type \<open>TOKENS\<close> replaced by \<open>USD\<close>.
\<close>

lemma billing_never_tokens:
  "formatBillingCurrencyFromUSD rt stored amount options = formatCurrencyFromUSD rt (billingConfig stored) amount options"
proof -
  have "getBillingDisplayMeta (getConfig stored) \<noteq> TokensMeta q" for q
    by (simp add: getBillingDisplayMeta_def usdMeta_def split: DisplayMeta.split)
  then show ?thesis
    by (simp add: formatBillingCurrencyFromUSD_def formatCurrencyFromUSD_def getCurrencyDisplay_def Let_def billingConfig_meta
        split: DisplayMeta.split)
qed

end
