(* ===== verification/Price_Claims.thy ===== *)
theory Price_Claims
  imports Price_Display Currency_Claims Tier_Roundtrip Rule_Roundtrip
begin

text \<open>
  The price page as a whole: a billing expression saved by the tier and rule editors is
  summarised as configured, the ratio shown is the best one open to the viewer, and what the
  two formatters of prices do with the display type and with the text of a price.
\<close>

section \<open>Generated expressions\<close>

lemma generated_text:
  assumes "list_all (tier_ok nt) cfg" "cfg \<noteq> []"
  shows "\<exists>ps t. generateExprFromVisualConfig nt (Some cfg) = join (js '' : '') (map part_text ps) @ t \<and>
    list_all part_ok ps \<and> ps \<noteq> [] \<and> t \<in> {[], js '' : p * 0 + c * 0''}"
proof (cases "length cfg = 1")
  case True
  then obtain tier where c: "cfg = [tier]" by (cases cfg) auto
  then have ok: "tier_ok nt tier" "34 \<notin> set (vt_label tier)" "list_all cond_ok (conds_of nt tier)"
    using assms(1) by (simp_all add: tier_ok_def)
  let ?label = "or_default (Some (vt_label tier)) (js ''default'')"
  have "34 \<notin> set ?label" by (rule label_quote) (simp_all add: ok js_simps)
  from part_of_ok(1) [OF ok(1) this, of "conds_of nt tier"]
  have "part_ok (part_of nt ?label (conds_of nt tier) tier)" by simp
  moreover have "generateExprFromVisualConfig nt (Some cfg) = part_text (part_of nt ?label (conds_of nt tier) tier) @
      (if conds_of nt tier = [] then [] else js '' : p * 0 + c * 0'')"
    using conds_join_Nil [OF ok(3)]
    by (simp add: c generateExprFromVisualConfig_def Let_def buildConditionStr_text tierCall_def tier_text_def part_of_def)
  ultimately show ?thesis
    by (intro exI [of _ "[part_of nt ?label (conds_of nt tier) tier]"]
        exI [of _ "if conds_of nt tier = [] then [] else js '' : p * 0 + c * 0''"]) simp
next
  case False
  then obtain t u ts where c: "cfg = t # u # ts" using assms(2) by (cases cfg; cases "tl cfg") auto
  have "generateExprFromVisualConfig nt (Some cfg) = join (js '' : '') (map part_text (parts_from nt 0 cfg)) @ []"
    using tierParts_text [OF assms(1), of 0] by (simp add: generateExprFromVisualConfig_def c del: tierParts.simps parts_from.simps)
  with parts_from_ok [OF assms(1), of 0] parts_from_Nil [of nt 0 cfg] assms(2) show ?thesis by blast
qed

lemma part_text_ends:
  assumes "part_ok p"
  shows "part_text p \<noteq> []" "\<not> is_ws (hd (part_text p))" "hd (part_text p) \<noteq> 40" "last (part_text p) = 41"
proof -
  obtain ks l b where p: "p = (ks, l, b)" by (cases p)
  show "part_text p \<noteq> []" by (rule part_ne)
  show "last (part_text p) = 41" by (simp add: p tier_text_def js_simps)
  have "\<not> is_ws (hd (part_text p)) \<and> hd (part_text p) \<noteq> 40"
  proof (cases ks)
    case Nil
    then show ?thesis by (simp add: p tier_text_def js_simps is_ws_def)
  next
    case (Cons k ks')
    then have k: "cond_ok k" using assms p by simp
    then have "hd (cond_text k) \<noteq> 40" by (cases k) (auto simp: cond_vars_def js_simps)
    with k Cons join_and [of ks "js '' && ''" cond_text] cond_text_hd [of k] show ?thesis by (simp add: p)
  qed
  then show "\<not> is_ws (hd (part_text p))" "hd (part_text p) \<noteq> 40" by simp_all
qed

lemma join_ends:
  assumes "ps \<noteq> []" "\<And>p. p \<in> set ps \<Longrightarrow> p \<noteq> []"
  shows "join sep ps \<noteq> [] \<and> hd (join sep ps) = hd (hd ps) \<and> last (join sep ps) = last (last ps)"
  using assms
proof (induction ps)
  case (Cons p ps)
  then show ?case by (cases "ps = []") (auto simp: join_Cons)
qed simp

lemma generated_ends:
  assumes "list_all (tier_ok nt) cfg" "cfg \<noteq> []"
  defines "base \<equiv> generateExprFromVisualConfig nt (Some cfg)"
  shows "base \<noteq> []" "trim base = base" "hd base \<noteq> 40" "last base \<in> {41, 48}"
proof -
  obtain ps t where g: "base = join (js '' : '') (map part_text ps) @ t" "list_all part_ok ps" "ps \<noteq> []"
    "t \<in> {[], js '' : p * 0 + c * 0''}"
    using generated_text [OF assms(1,2)] unfolding base_def by blast
  have ok: "part_ok (hd ps)" "part_ok (last ps)" using g(2,3) by (simp_all add: list_all_iff)
  have ne: "x \<noteq> []" if "x \<in> set (map part_text ps)" for x using that part_ne by auto
  have j: "join (js '' : '') (map part_text ps) \<noteq> []" "hd (join (js '' : '') (map part_text ps)) = hd (part_text (hd ps))"
    "last (join (js '' : '') (map part_text ps)) = last (part_text (last ps))"
    using join_ends [of "map part_text ps" "js '' : ''", OF _ ne] g(3) by (auto simp: hd_map last_map)
  show b: "base \<noteq> []" using g(1) j(1) by simp
  have h: "hd base = hd (part_text (hd ps))" using g(1) j by simp
  show "hd base \<noteq> 40" using part_text_ends [OF ok(1)] h by simp
  show l: "last base \<in> {41, 48}" using g(1,4) j(1,3) part_text_ends(4) [OF ok(2)] by (auto simp: js_simps simp del: part_text.simps)
  have "\<not> is_ws (hd base)" using part_text_ends(2) [OF ok(1)] h by simp
  moreover have "\<not> is_ws (last base)" using l by (auto simp: is_ws_def)
  ultimately show "trim base = base" by (simp add: trim_id)
qed

text \<open>A text in parentheses that does not end in \<open>: 1)\<close> is no factor of a rule.\<close>

lemma factor_suffix: "rx_match factor_rx s \<noteq> None \<Longrightarrow> \<exists>a. s = a @ js '' : 1)''"
proof -
  assume "rx_match factor_rx s \<noteq> None"
  then obtain c t where m: "(c, t) \<in> set (rx_seq (factor_rx @ [rx_end]) ([], s))"
    by (auto simp: rx_match_def split: list.splits)
  let ?a = "[rx_lit (js ''(''), rx_cap 1 (rx_some (\<lambda>_. True)), rx_lit (js '' ? ''), rx_cap 2 (rx_some num_char)]"
  have f: "factor_rx @ [rx_end] = ?a @ [rx_lit (js '' : 1)''), rx_end]" by (simp add: factor_rx_def)
  from m obtain d u where du: "(d, u) \<in> set (rx_seq ?a ([], s))" "(c, t) \<in> set (rx_seq [rx_lit (js '' : 1)''), rx_end] (d, u))"
    unfolding f rx_seq_append by auto
  have "reads (\<lambda>_. True) (rx_seq ?a)" by (intro reads_intros) (simp_all add: list_all_iff)
  with du(1) obtain a where "s = a @ u" unfolding reads_def by blast
  moreover have "u = js '' : 1)''" using du(2) by (auto simp: rx_seq.simps starts_with_iff split: if_splits)
  ultimately show ?thesis by blast
qed

lemma parenthesised_no_rule:
  assumes "nested_from 0 base" "base \<noteq> []" "last base \<noteq> 49"
  shows "tryParseRequestRuleExpr nt (js ''('' @ base @ js '')'') = Inr None"
proof -
  let ?p = "js ''('' @ base @ js '')''"
  have t: "trim ?p = ?p" by (rule trim_id) (simp add: js_simps is_ws_def)
  have "splitTopLevelMultiply ?p = [?p]"
    using splitLoop_parenthesised [OF assms(1), of "[]"] t by (simp add: splitTopLevelMultiply_def js_simps)
  moreover have "rx_match factor_rx ?p = None"
  proof (rule ccontr)
    assume "rx_match factor_rx ?p \<noteq> None"
    from factor_suffix [OF this] obtain a where "?p = a @ js '' : 1)''" by blast
    then have "js ''('' @ base = a @ js '' : 1''" by (simp add: js_simps)
    then have "last (js ''('' @ base) = 49" by (simp add: js_simps)
    with assms(2,3) show False by simp
  qed
  ultimately show ?thesis using t by (simp add: tryParseRequestRuleExpr_def Let_def tryParseRuleGroupFactor_def js_simps)
qed

lemma unwrap_plain: "trim s = s \<Longrightarrow> hd s \<noteq> 40 \<Longrightarrow> s \<noteq> [] \<Longrightarrow> unwrapOuterParens s = s"
  by (cases s) (simp_all add: unwrapOuterParens_def unwrapLoop.simps hasFullOuterParens_def js_simps)

section \<open>The entries of a tier\<close>

text \<open>A runtime whose number formats do not throw.\<close>

definition formats :: "runtime \<Rightarrow> bool" where
  "formats rt \<longleftrightarrow> (\<forall>loc opts x. rt_numberFormat rt loc opts x \<noteq> None)"

interpretation entry_order: consistent_comparator primaryFirst
  by unfold_locales (auto simp: primaryFirst_def split: if_splits)

lemma entries_partition: "js_sort primaryFirst xs = filter isPrimary xs @ filter (\<lambda>e. \<not> isPrimary e) xs"
proof (rule sym, rule entry_order.js_sort_unique)
  show "sorted_wrt (\<lambda>a b. primaryFirst a b \<le> 0) (filter isPrimary xs @ filter (\<lambda>e. \<not> isPrimary e) xs)"
  proof -
    have "sorted_wrt (\<lambda>a b. primaryFirst a b \<le> 0) (filter P xs)" if "\<And>a b. P a \<Longrightarrow> P b \<Longrightarrow> primaryFirst a b \<le> 0" for P
      by (induction xs) (auto simp: that)
    then show ?thesis by (auto simp: sorted_wrt_append primaryFirst_def)
  qed
  show "filter (\<lambda>y. primaryFirst a y = 0) (filter isPrimary xs @ filter (\<lambda>e. \<not> isPrimary e) xs) =
    filter (\<lambda>y. primaryFirst a y = 0) xs" for a
  proof -
    have "primaryFirst a y = 0 \<longleftrightarrow> isPrimary y = isPrimary a" for y by (auto simp: primaryFirst_def)
    then show ?thesis by (cases "isPrimary a") (simp_all add: filter_filter cong: conj_cong)
  qed
qed simp

lemma those_map_Some: "those (map (\<lambda>x. Some (f x)) xs) = Some (map f xs)"
  by (induction xs) auto

lemma billing_total: "formats rt \<Longrightarrow> formatBillingCurrencyFromUSD rt stored amount options \<noteq> None"
  by (auto simp: formatBillingCurrencyFromUSD_def Let_def formatCurrencyValue_def formatAmount_def formats_def
      getBillingDisplayMeta_def usdMeta_def split: DisplayMeta.split)

definition entryOf :: "runtime \<Rightarrow> CurrencyConfig option \<Rightarrow> DynamicPriceOptions \<Rightarrow> ParsedTier \<Rightarrow> BillingVar \<Rightarrow> DynamicPriceEntry" where
  "entryOf rt stored options tier v =
     (let value = nullish (map_of (pt_prices tier) (or_empty (bv_field v))) NaN in
      \<lparr>de_key = bv_key v, de_field = or_empty (bv_field v), de_label = bv_label v, de_shortLabel = bv_shortLabel v,
       de_value = value, de_formatted = the (formatDynamicUnitPrice rt stored value options), de_variable = v\<rparr>)"

definition priced_in :: "ParsedTier \<Rightarrow> BillingVar \<Rightarrow> bool" where
  "priced_in tier v \<longleftrightarrow> (\<exists>q > 0. map_of (pt_prices tier) (or_empty (bv_field v)) = Some (Fin q))"

lemma priceEntry_eq:
  assumes "formats rt" "bv_field v \<noteq> None" "bv_field v \<noteq> Some []"
  shows "priceEntry rt stored tier options v = (if priced_in tier v then Some (Some (entryOf rt stored options tier v)) else None)"
proof -
  obtain f where f: "bv_field v = Some f" "f \<noteq> []" using assms(2,3) by (cases "bv_field v") auto
  have t: "formatDynamicUnitPrice rt stored x options \<noteq> None" for x
    using billing_total [OF assms(1)] by (simp add: formatDynamicUnitPrice_def Let_def)
  have p: "priced_in tier v \<longleftrightarrow> \<not> (\<not> is_finite (nullish (map_of (pt_prices tier) f) NaN) \<or> num_leq (nullish (map_of (pt_prices tier) f) NaN) (Fin 0))"
    by (cases "map_of (pt_prices tier) f" rule: option.exhaust; cases "the (map_of (pt_prices tier) f)")
      (auto simp: priced_in_def f nullish_def num_leq_def)
  show ?thesis
    using t [of "nullish (map_of (pt_prices tier) f) NaN"] unfolding p
    by (auto simp: priceEntry_def f Let_def entryOf_def)
qed

lemma pricing_fields:
  "v \<in> set BILLING_PRICING_VARS \<Longrightarrow> bv_field v \<noteq> None \<and> bv_field v \<noteq> Some []"
  by (auto simp: BILLING_PRICING_VARS_def BILLING_VARS_def priced_def)

lemma entries_primary_first:
  fixes rt stored options tier
  defines "entries \<equiv> map (entryOf rt stored options tier) (filter (priced_in tier) BILLING_PRICING_VARS)"
  shows "entries = filter isPrimary entries @ filter (\<lambda>e. \<not> isPrimary e) entries"
proof -
  let ?P = "\<lambda>v. or_empty (bv_field v) \<in> set PRIMARY_DYNAMIC_FIELDS"
  have "isPrimary (entryOf rt stored options tier v) \<longleftrightarrow> ?P v" for v by (simp add: isPrimary_def entryOf_def Let_def)
  moreover have "filter ?P (filter Q BILLING_PRICING_VARS) @ filter (\<lambda>v. \<not> ?P v) (filter Q BILLING_PRICING_VARS) = filter Q BILLING_PRICING_VARS" for Q
    by (simp add: BILLING_PRICING_VARS_def BILLING_VARS_def priced_def PRIMARY_DYNAMIC_FIELDS_def js_simps)
  ultimately show ?thesis by (simp add: entries_def filter_map comp_def flip: map_append)
qed

lemma entries_eq:
  assumes "formats rt"
  shows "getDynamicPriceEntries rt stored (Some tier) options =
    Some (map (entryOf rt stored options tier) (filter (priced_in tier) BILLING_PRICING_VARS))"
proof -
  have mf: "List.map_filter (priceEntry rt stored tier options) vs =
      map (\<lambda>v. Some (entryOf rt stored options tier v)) (filter (priced_in tier) vs)"
    if "set vs \<subseteq> set BILLING_PRICING_VARS" for vs
    using that by (induction vs) (simp_all add: List.map_filter_simps priceEntry_eq [OF assms] pricing_fields)
  show ?thesis
    by (simp add: getDynamicPriceEntries_def mf those_map_Some entries_partition flip: entries_primary_first)
qed

lemma key_field_of:
  "v \<in> set BILLING_PRICING_VARS \<Longrightarrow> map_of (shownPrices tier) (or_empty (bv_field v)) = Some (unitCost tier (bv_key v))"
  by (auto simp: shownPrices_def BILLING_VAR_KEY_TO_FIELD_def BILLING_PRICING_VARS_def BILLING_VARS_def priced_def js_simps)

lemma hd_shownTiers: "cfg \<noteq> [] \<Longrightarrow> \<exists>l ks ts. shownTiers nt cfg = shownTier l ks (hd cfg) # ts"
  by (cases cfg) (auto simp: shownTiers_def split: list.splits)

lemma length_shownTiers: "length (shownTiers nt cfg) = length cfg"
proof -
  have "length (shownFrom nt i ts) = length ts" for i ts by (induction ts arbitrary: i) simp_all
  then show ?thesis by (auto simp: shownTiers_def split: list.split)
qed

lemma entry_values:
  "map (\<lambda>e. (de_key e, de_value e)) (map (entryOf rt stored options (shownTier l ks tier)) (filter (priced_in (shownTier l ks tier)) BILLING_PRICING_VARS)) =
     filter (\<lambda>(k, x). \<exists>q > 0. x = Fin q) (map (\<lambda>k. (k, unitCost tier k)) pricing_keys)"
proof -
  have "map (\<lambda>e. (de_key e, de_value e)) (map (entryOf rt stored options (shownTier l ks tier)) (filter (priced_in (shownTier l ks tier)) vs)) =
     filter (\<lambda>(k, x). \<exists>q > 0. x = Fin q) (map (\<lambda>v. (bv_key v, unitCost tier (bv_key v))) vs)"
    if "set vs \<subseteq> set BILLING_PRICING_VARS" for vs
    using that by (induction vs) (auto simp: entryOf_def priced_in_def shownTier_def key_field_of nullish_def Let_def)
  from this [of BILLING_PRICING_VARS] show ?thesis by (simp add: comp_def flip: pricing_keys)
qed

section \<open>The best ratio\<close>

definition ratiosOf :: "(jsstr \<times> jsnum) list \<Rightarrow> jsstr list \<Rightarrow> rat set" where
  "ratiosOf gr gs = {q. \<exists>g \<in> set gs. map_of gr g = Some (Fin q)}"

definition openRatios :: "PricingModel \<Rightarrow> rat set" where
  "openRatios model = ratiosOf (nullish (pm_group_ratio model) []) (enabledGroups model)"

lemma ratiosOf_Nil: "ratiosOf gr [] = {}"
  by (simp add: ratiosOf_def)

lemma ratiosOf_Cons:
  "ratiosOf gr (g # gs) = (case map_of gr g of Some (Fin q) \<Rightarrow> insert q (ratiosOf gr gs) | _ \<Rightarrow> ratiosOf gr gs)"
  by (auto simp: ratiosOf_def split: option.split jsnum.split)

lemma finite_ratiosOf: "finite (ratiosOf gr gs)"
  by (induction gs) (simp_all add: ratiosOf_Nil ratiosOf_Cons split: option.split jsnum.split)

lemma lowerRatio_finite: "foldl (lowerRatio gr) (Fin x) gs = Fin (Min (insert x (ratiosOf gr gs)))"
proof (induction gs arbitrary: x)
  case (Cons g gs)
  have "Min (insert x (insert q (ratiosOf gr gs))) = Min (insert (if q < x then q else x) (ratiosOf gr gs))" for q
    using finite_ratiosOf [of gr gs] by (cases "ratiosOf gr gs = {}") (auto simp: min_def)
  with Cons show ?case by (simp add: lowerRatio_def ratiosOf_Cons split: option.split jsnum.split)
qed (simp add: ratiosOf_Nil)

lemma lowerRatio_infinite:
  "foldl (lowerRatio gr) (Infinite False) gs = (if ratiosOf gr gs = {} then Infinite False else Fin (Min (ratiosOf gr gs)))"
proof (induction gs)
  case (Cons g gs)
  have "lowerRatio gr (Infinite False) g = (case map_of gr g of Some (Fin q) \<Rightarrow> Fin q | _ \<Rightarrow> Infinite False)"
    by (auto simp: lowerRatio_def split: option.split jsnum.split)
  with Cons show ?case by (simp add: ratiosOf_Cons lowerRatio_finite split: option.split jsnum.split)
qed (simp add: ratiosOf_Nil)

section \<open>The list of models\<close>

definition matches_search :: "(jsstr \<Rightarrow> jsstr) \<Rightarrow> jsstr \<Rightarrow> PricingModel \<Rightarrow> bool" where
  "matches_search lower query m \<longleftrightarrow> query = [] \<or> (\<exists>s \<in> {Some (pm_model_name m), pm_description m, pm_tags m, pm_vendor_name m}.
     \<exists>t. s = Some t \<and> str_includes (lower t) (lower query))"

definition passes_filters :: "(jsstr \<Rightarrow> jsstr) \<Rightarrow> ModelFilters \<Rightarrow> PricingModel \<Rightarrow> bool" where
  "passes_filters lower f m \<longleftrightarrow> matches_search lower (mf_search f) m \<and>
     (mf_vendor f = FILTER_ALL \<or> pm_vendor_name m = Some (mf_vendor f)) \<and>
     (mf_group f = FILTER_ALL \<or> mf_group f \<in> set (enabledGroups m)) \<and>
     (mf_quotaType f = FILTER_ALL \<or> pm_quota_type m = (if mf_quotaType f = js ''token'' then QUOTA_TOKEN else QUOTA_REQUEST)) \<and>
     (mf_endpointType f = FILTER_ALL \<or> mf_endpointType f \<in> set (nullish (pm_supported_endpoint_types m) [])) \<and>
     (mf_tag f = FILTER_ALL \<or> lower (mf_tag f) \<in> lower ` set (parseTags (pm_tags m)))"

lemma sortModels_perm: "mset (sortModels lc models sortBy) = mset models"
  by (simp add: sortModels_def)

text \<open>The list shows exactly the models that pass every filter, each as often as it is listed.\<close>

lemma filter_models_exact:
  "mset (filterAndSortModels lower lc models f) = mset (filter (passes_filters lower f) models)"
proof -
  have "filterByTag lower (filterByEndpointType (filterByQuotaType (filterByGroup (filterByVendor (filterBySearch lower models (mf_search f))
      (mf_vendor f)) (mf_group f)) (mf_quotaType f)) (mf_endpointType f)) (mf_tag f) = filter (passes_filters lower f) models"
  proof -
    have s: "filterBySearch lower models q = filter (matches_search lower q) models" for q
      by (auto simp: filterBySearch_def matches_search_def contains_lower_def Let_def intro!: filter_cong split: option.splits)
    have t: "filterByTag lower ms tag = filter (\<lambda>m. tag = FILTER_ALL \<or> lower tag \<in> lower ` set (parseTags (pm_tags m))) ms" for ms tag
      by (auto simp: filterByTag_def parseTags_def intro!: filter_cong)
    show ?thesis
      by (auto simp: s t filterByVendor_def filterByGroup_def filterByQuotaType_def filterByEndpointType_def passes_filters_def
          FILTER_ALL_def Let_def intro!: filter_cong)
  qed
  then show ?thesis by (simp add: filterAndSortModels_def Let_def sortModels_perm)
qed

section \<open>The text of a price\<close>

definition symbol_char :: "code_unit \<Rightarrow> bool" where
  "symbol_char c \<longleftrightarrow> \<not> is_digit c \<and> c \<noteq> 45"

definition number_rx :: "rx list" where
  "number_rx = [rx_some (\<lambda>c. c = 45 \<or> is_digit c \<or> c = 44), rx_opt (rx_lit [46]), rx_many is_digit]"

lemma number_first:
  assumes "list_all is_digit a" "a \<noteq> []" "list_all is_digit b"
  shows "rx_first (rx_seq number_rx) (c, a @ 46 # b) (c, [])" "rx_first (rx_seq number_rx) (c, a @ 44 # b) (c, [])"
proof -
  let ?Q = "\<lambda>c. c = 45 \<or> is_digit c \<or> c = 44"
  have Q: "list_all ?Q a" "list_all ?Q b" using assms by (auto simp: list_all_iff)
  have p: "rx_first (rx_some ?Q) (c, a @ 46 # b) (c, 46 # b)" "rx_first (rx_opt (rx_lit [46])) (c, 46 # b) (c, b)"
    "rx_first (rx_many is_digit) (c, b) (c, [])"
    using first_some [OF Q(1) assms(2), of "46 # b" c] first_opt [OF first_lit [of "[46]" c b]] first_many [of is_digit b "[]" c] assms(3)
    by (simp_all add: is_digit_def)
  show "rx_first (rx_seq number_rx) (c, a @ 46 # b) (c, [])"
    unfolding number_rx_def by (rule first_seq_Cons [OF p(1) first_seq_Cons [OF p(2) first_seq_Cons [OF p(3) first_seq_Nil]]])
  have q: "rx_first (rx_some ?Q) (c, a @ 44 # b) (c, [])" "rx_first (rx_opt (rx_lit [46])) (c, []) (c, [])"
    "rx_first (rx_many is_digit) (c, []) (c, [])"
    using first_some [of ?Q "a @ 44 # b" "[]" c] Q first_opt_skip [of "rx_lit [46]" "(c, [])"] first_many [of is_digit "[]" "[]" c]
    by simp_all
  show "rx_first (rx_seq number_rx) (c, a @ 44 # b) (c, [])"
    unfolding number_rx_def by (rule first_seq_Cons [OF q(1) first_seq_Cons [OF q(2) first_seq_Cons [OF q(3) first_seq_Nil]]])
qed

lemma price_match:
  assumes "list_all symbol_char cur" "n \<noteq> []" "\<not> symbol_char (hd n)"
    and "\<And>c. rx_first (rx_seq number_rx) (c, n) (c, [])"
  shows "rx_match price_rx (cur @ n) = Some [(3, []), (2, n), (1, cur)]"
proof -
  let ?c = "[(3, []), (2, n), (1, cur)] :: captures"
  have k: "rx_first (rx_cap 3 (rx_opt (rx_lit (js ''k'')))) ([(2, n), (1, cur)], []) (?c, [])"
    by (simp add: rx_first_def rx_cap_def rx_opt_def js_simps)
  have r: "rx_first (rx_cap 1 (rx_many symbol_char)) ([], cur @ n) ([(1, cur)], n)"
    "rx_first (rx_cap 2 (rx_seq number_rx)) ([(1, cur)], n) ([(2, n), (1, cur)], [])"
    "rx_first rx_end (?c, []) (?c, [])"
    using first_cap [OF first_many [OF assms(1), of n "[]"], of 1] first_cap [of "rx_seq number_rx" "[(1, cur)]" n "[]" "[(1, cur)]" 2] assms(3,4)
    by (simp_all add: rx_first_def)
  have "rx_first (rx_seq [rx_cap 1 (rx_many symbol_char), rx_cap 2 (rx_seq number_rx), rx_cap 3 (rx_opt (rx_lit (js ''k''))), rx_end])
      ([], cur @ n) (?c, [])"
    by (rule first_seq_Cons [OF r(1) first_seq_Cons [OF r(2) first_seq_Cons [OF k first_seq_Cons [OF r(3) first_seq_Nil]]]])
  moreover have e: "price_rx @ [rx_end] =
      [rx_cap 1 (rx_many symbol_char), rx_cap 2 (rx_seq number_rx), rx_cap 3 (rx_opt (rx_lit (js ''k''))), rx_end]"
    by (simp add: price_rx_def number_rx_def symbol_char_def [abs_def])
  ultimately show ?thesis unfolding rx_match_def e rx_first_def by auto
qed

lemma parse_float_whole:
  assumes "list_all is_digit ip" "list_all is_digit fp" "ip \<noteq> []"
  shows "parse_float (ip @ point_text fp) = Fin (decimal_value ip fp)"
proof -
  let ?t = "ip @ point_text fp"
  obtain c r where c: "ip = c # r" "is_digit c" using assms(1,3) by (cases ip) auto
  have "trim_left ?t = ?t" using c digit_not_ws by (intro trim_left_id) simp
  moreover have "sign_split ?t = (False, ?t)" using c by (simp add: sign_split_def is_digit_def)
  moreover have "signed_decimal False ?t = Fin (decimal_value ip fp)"
    using unsigned_decimal_text [OF assms] c by (simp add: signed_decimal_def js_simps is_digit_def)
  moreover have "map (\<lambda>n. take n ?t) (rev [0..<Suc (length ?t)]) = ?t # map (\<lambda>n. take n ?t) (rev [0..<length ?t])" by simp
  ultimately show ?thesis unfolding parse_float_def Let_def by (simp del: upt_Suc)
qed

lemma parse_float_point:
  assumes "list_all is_digit a" "a \<noteq> []" "list_all is_digit b" "b \<noteq> []"
  shows "parse_float (a @ 46 # b) = Fin (decimal_value a b)" "parse_float (a @ b) = Fin (rat_of_nat (parse_digits (a @ b)))"
  using parse_float_whole [OF assms(1,3,2)] parse_float_whole [of "a @ b" "[]"] assms
  by (simp_all add: point_text_def decimal_value_def)

section \<open>Properties\<close>

text \<open>
  C4: the price page summarises what the editors saved. Take a tier configuration whose labels have
  no quote and no unmatched parenthesis and whose numbers are represented by their texts, and at
  least one rule group, all with readable conditions. A model with the combined expression is
  summarised without an error: its tiers are the configured ones (of several tiers the last one
  without its conditions), it is marked as having rules and not as a special expression, and the
  entries are the positive unit costs of the first tier, input and output price first.
\<close>

theorem configured_prices_summarised:
  assumes "list_all (tier_ok nt) cfg" and "cfg \<noteq> []" and "list_all readable_group gs" and "gs \<noteq> []"
    and "nested_from 0 (generateExprFromVisualConfig nt (Some cfg))"
    and "pm_billing_mode model = Some (js ''tiered_expr'')"
    and "pm_billing_expr model = Some (combineBillingExpr (generateExprFromVisualConfig nt (Some cfg)) (buildRequestRuleExpr gs))"
    and "formats rt"
  shows "\<exists>summary. getDynamicPricingSummary rt lit stored model options = Inr (Some summary) \<and>
    ds_tiers summary = withoutLastConditions (configuredTiers nt cfg) \<and> ds_tierCount summary = length cfg \<and> ds_hasRequestRules summary \<and>
    \<not> ds_isSpecialExpression summary \<and> ds_entries summary = ds_primaryEntries summary @ ds_secondaryEntries summary \<and>
    map (\<lambda>e. (de_key e, de_value e)) (ds_entries summary) =
      filter (\<lambda>(k, x). \<exists>q > 0. x = Fin q) (map (\<lambda>k. (k, unitCost (hd cfg) k)) pricing_keys)"
proof -
  let ?base = "generateExprFromVisualConfig nt (Some cfg)" and ?rules = "buildRequestRuleExpr gs"
  let ?expr = "combineBillingExpr ?base ?rules"
  note g = generated_ends [OF assms(1,2)]
  have "tryParseRequestRuleExpr lit (js ''('' @ trim ?base @ js '')'') = Inr None"
    using parenthesised_no_rule [OF assms(5) g(1)] g(2,4) by auto
  with split_combine [OF assms(5) _ assms(3,4), of lit] unwrap_plain [OF g(2,3,1)] g(1,2)
  have split: "splitBillingExprAndRequestRules lit ?expr = Inr \<lparr>billingExpr = ?base, requestRuleExpr = ?rules\<rparr>" by simp
  have ne: "trim ?expr \<noteq> []" "?expr \<noteq> []"
    using combined_parts [OF assms(5) g(2,1) assms(3,4)] by (auto simp: splitTopLevelMultiply_def)
  then have dyn: "isDynamicPricingModel model" using assms(6,7) by (simp add: isDynamicPricingModel_def)
  have tiers: "getDynamicPricingTiers lit model = Inr (shownTiers nt cfg)"
    using dyn split assms(7) parsed_configuration [OF assms(1,2)] by (simp add: getDynamicPricingTiers_def)
  have rules: "hasDynamicRequestRules lit model = Inr True"
    using dyn split assms(4,7) rules_read_back [OF assms(3), of lit] by (simp add: hasDynamicRequestRules_def)
  obtain l ks ts where h: "shownTiers nt cfg = shownTier l ks (hd cfg) # ts" using hd_shownTiers [OF assms(2)] by blast
  let ?tier = "shownTier l ks (hd cfg)" and ?entry = "entryOf rt stored options (shownTier l ks (hd cfg))"
  let ?entries = "map ?entry (filter (priced_in ?tier) BILLING_PRICING_VARS)"
  note e = entries_eq [OF assms(8), of stored ?tier options]
  have "getDynamicPricingSummary rt lit stored model options = Inr (Some
      \<lparr>ds_tiers = shownTiers nt cfg, ds_tier = Some ?tier, ds_tierCount = length (shownTiers nt cfg), ds_hasRequestRules = True,
       ds_isSpecialExpression = False, ds_rawExpression = ?expr, ds_entries = ?entries,
       ds_primaryEntries = filter isPrimary ?entries, ds_secondaryEntries = filter (\<lambda>e. \<not> isPrimary e) ?entries\<rparr>)"
    using dyn tiers rules e assms(7) by (simp add: getDynamicPricingSummary_def h)
  moreover have "?entries = filter isPrimary ?entries @ filter (\<lambda>e. \<not> isPrimary e) ?entries"
    by (rule entries_primary_first)
  ultimately show ?thesis using entry_values [of rt stored options l ks "hd cfg"] length_shownTiers [of nt cfg]
    unfolding shownTiers_configured [OF assms(2)] by auto
qed

definition plainModel :: PricingModel where
  "plainModel = \<lparr>pm_model_name = js ''m'', pm_description = None, pm_vendor_id = None, pm_vendor_name = None, pm_vendor_icon = None,
     pm_vendor_description = None, pm_quota_type = 0, pm_model_ratio = Fin 1, pm_completion_ratio = Fin 3, pm_model_price = None,
     pm_cache_ratio = None, pm_create_cache_ratio = None, pm_image_ratio = None, pm_audio_ratio = None,
     pm_audio_completion_ratio = None, pm_enable_groups = None, pm_tags = None, pm_supported_endpoint_types = None, pm_key = None,
     pm_group_ratio = None, pm_billing_mode = None, pm_billing_expr = None\<rparr>"

definition tieredModel :: PricingModel where
  "tieredModel = plainModel\<lparr>pm_billing_mode := Some (js ''tiered_expr''),
     pm_billing_expr := Some (combineBillingExpr (generateExprFromVisualConfig sampleText (Some sampleConfig)) (buildRequestRuleExpr sampleGroups))\<rparr>"

definition perMillion :: DynamicPriceOptions where
  "perMillion = \<lparr>dp_tokenUnit = Unit_M, dp_showRechargePrice = None, dp_priceRate = None, dp_usdExchangeRate = None,
     dp_groupRatioMultiplier = None\<rparr>"

lemma sample_nested: "nested_from 0 (generateExprFromVisualConfig sampleText (Some sampleConfig))"
  by (simp add: sampleConfig_def generateExprFromVisualConfig_def sampleTier_def sampleCondition_def buildConditionStr_def
      conditionFilled_def tierCall_def buildTierBodyExpr_def num_or_zero_def BILLING_CACHE_VAR_MAP_def BILLING_EXTRA_VARS_def
      BILLING_VARS_def priced_def List.map_filter_simps Let_def or_default_def sampleText_def show_nat.simps paren_depth_def js_simps)

theorem configured_prices_summarised_witness:
  "\<exists>summary. getDynamicPricingSummary sampleRuntime id None tieredModel perMillion = Inr (Some summary) \<and>
     ds_tiers summary = configuredTiers sampleText sampleConfig \<and> ds_tierCount summary = 2 \<and> ds_hasRequestRules summary"
proof -
  have "formats sampleRuntime" by (simp add: formats_def sampleRuntime_def)
  from configured_prices_summarised [OF sampleConfig_ok _ sampleGroups_readable _ sample_nested _ _ this,
      of tieredModel id None perMillion]
  show ?thesis using fallback_tier_kept [of sampleConfig sampleText]
    by (auto simp: tieredModel_def sampleConfig_def sampleGroups_def conds_of_def sampleTier_def)
qed

text \<open>
  C35: without a chosen group the ratio shown is the smallest finite ratio among the groups the
  model is enabled for, and one when none has a ratio; a chosen group that is enabled shows its
  own ratio, also when it is zero, and one when it has none.
\<close>

theorem display_group_ratio_best:
  "getDisplayGroupRatio model selected =
     (if or_empty selected \<notin> {[], FILTER_ALL} \<and> or_empty selected \<in> set (enabledGroups model)
      then (case map_of (nullish (pm_group_ratio model) []) (or_empty selected) of Some (Fin q) \<Rightarrow> Fin q | _ \<Rightarrow> Fin 1)
      else if openRatios model = {} then Fin 1 else Fin (Min (openRatios model)))"
proof -
  have c: "getConfiguredGroupRatio gr g = (case map_of gr g of Some (Fin q) \<Rightarrow> Fin q | _ \<Rightarrow> Fin 1)" for gr g
    by (auto simp: getConfiguredGroupRatio_def split: option.split jsnum.split)
  show ?thesis
    by (simp add: getDisplayGroupRatio_def Let_def c lowerRatio_infinite openRatios_def ratiosOf_Nil)
qed

text \<open>
  With the display type \<open>TOKENS\<close> the price of a model billed by ratio is shown as a number
  of tokens, while the same price of a tiered model is shown in dollars.
\<close>

lemma ratio_price_shown_as_tokens:
  assumes "cc_quotaDisplayType (getConfig stored) = js ''TOKENS''" and "cc_quotaPerUnit (getConfig stored) = Fin u"
    and "pm_quota_type model = QUOTA_TOKEN" and "calculateTokenPrice model type (getDisplayGroupRatio model selected) = Fin p"
  shows "formatPrice rt stored model type Unit_M False rate exchange selected = formatNumberWithSuffix rt (Fin (p * u)) 0 6 False \<and>
    formatDynamicUnitPrice rt stored (Fin p) \<lparr>dp_tokenUnit = Unit_M, dp_showRechargePrice = None, dp_priceRate = Some rate,
      dp_usdExchangeRate = Some exchange, dp_groupRatioMultiplier = None\<rparr> =
      formatCurrencyValue rt (Fin p) (mergeOptions (someOptions 4 6 False)) (CurrencyMeta [36] (js ''USD'') (Fin 1))"
  using assms by (simp add: formatPrice_def unitPriceText_def formatDynamicUnitPrice_def Let_def nullish_def applyRechargeRate_def
      formatCurrencyFromUSD_def formatBillingCurrencyFromUSD_def is_missing_def getCurrencyDisplay_def getBillingDisplayMeta_def
      getDisplayMeta_def usdMeta_def mergeOptions_def someOptions_def DEFAULT_FORMAT_OPTIONS_def QUOTA_TOKEN_def QUOTA_REQUEST_def
      js_simps)

lemma ratio_price_shown_as_tokens_witness:
  "formatPrice sampleRuntime (Some (sampleCurrency ''TOKENS'')) plainModel Pt_output Unit_M False (Fin 1) (Fin 7) None =
     formatNumberWithSuffix sampleRuntime (Fin 3000000) 0 6 False"
  using ratio_price_shown_as_tokens [of "Some (sampleCurrency ''TOKENS'')" 500000 plainModel Pt_output None 6 sampleRuntime "Fin 1" "Fin 7"]
  by (simp add: sampleCurrency_def DEFAULT_CURRENCY_CONFIG_def getConfig_def positive_or_def plainModel_def QUOTA_TOKEN_def
      calculateTokenPrice_def getDisplayGroupRatio_def enabledGroups_def nullish_def)

text \<open>
  C36: stripping the zeros of a price takes a point for the decimal point and drops commas. A
  price that the locale writes with a decimal comma is shown without it: the digits stay and
  the amount is multiplied by ten for every digit after the comma.
\<close>

theorem price_with_decimal_comma:
  assumes "list_all symbol_char cur" and "list_all is_digit a" and "a \<noteq> []" and "list_all is_digit b" and "b \<noteq> []"
    and "101 \<notin> set (nt (Fin (decimal_value a b)))" and "101 \<notin> set (nt (Fin (10 ^ length b * decimal_value a b)))"
  shows "stripTrailingZeros nt (cur @ a @ [46] @ b) = Some (cur @ nt (Fin (decimal_value a b))) \<and>
    stripTrailingZeros nt (cur @ a @ [44] @ b) = Some (cur @ nt (Fin (10 ^ length b * decimal_value a b)))"
proof -
  have h: "\<not> symbol_char (hd (a @ x))" for x using assms(2,3) by (cases a) (simp_all add: symbol_char_def)
  have f: "filter (\<lambda>c. c \<noteq> 44) a = a" "filter (\<lambda>c. c \<noteq> 44) b = b"
    using assms(2,4) by (auto simp: filter_id_conv list_all_iff is_digit_def)
  have "rat_of_nat (parse_digits (a @ b)) = 10 ^ length b * decimal_value a b" by (simp add: decimal_value_def)
  then show ?thesis
    using price_match [OF assms(1) _ h number_first(1) [OF assms(2,3,4)]] price_match [OF assms(1) _ h number_first(2) [OF assms(2,3,4)]]
      parse_float_point [OF assms(2,3,4,5)] f assms(6,7)
    by (simp add: stripTrailingZeros_def Let_def str_includes_singleton js_simps)
qed

theorem price_with_decimal_comma_witness:
  "stripTrailingZeros (\<lambda>x. if x = Fin 5 then js ''5'' else js ''0.5'') (js ''$ 0,5'') = Some (js ''$ 5'')"
  using price_with_decimal_comma [of "js ''$ ''" "js ''0''" "js ''5''" "\<lambda>x. if x = Fin 5 then js ''5'' else js ''0.5''"]
  by (simp add: symbol_char_def is_digit_def decimal_value_def parse_digits_def js_simps)

end
