(* ===== verification/Pricing_Claims.thy ===== *)
theory Pricing_Claims
  imports Pricing_Save Price_Claims
begin

text \<open>
  The properties of the price editor, of the table of model prices and of saving them: what is
  submitted is what is shown, any sequence of edits leaves every model with the last edit that
  names it, the rows are exactly the edited models, and only what changed is sent; and where the
  screens lose a price.
\<close>

section \<open>Formatted numbers\<close>

lemma formatPricingNumber_value:
  assumes "0 \<le> snapFloatDrift q" "snapFloatDrift q < 10 ^ 21"
  shows "formatPricingNumber nt q = nt (Fin (rat_of_nat (nat \<lfloor>snapFloatDrift q * 10 ^ 12 + 1 / 2\<rfloor>) / 10 ^ 12))"
proof -
  let ?n = "nat \<lfloor>snapFloatDrift q * 10 ^ 12 + 1 / 2\<rfloor>"
  have "to_fixed_text nt DISPLAY_DECIMALS (Fin (snapFloatDrift q)) = Some (fixed_digits 12 ?n)"
    using assms by (simp add: to_fixed_text_def DISPLAY_DECIMALS_def)
  moreover have "parse_float (fixed_digits 12 ?n) = Fin (rat_of_nat ?n / 10 ^ 12)"
    using parse_float_whole [OF fixed_digits_text(2,3,4) [where d = 12 and n = ?n]] fixed_digits_text(1,5) [where d = 12 and n = ?n] by simp
  ultimately show ?thesis by (simp add: formatPricingNumber_def)
qed

lemma snap_near: "\<bar>snapFloatDrift q - q\<bar> \<le> snapTolerance q"
proof (cases "List.find (\<lambda>d. \<bar>q - roundToDecimals q d\<bar> \<le> snapTolerance q) [0..<Suc SNAP_DECIMALS]")
  case None
  then show ?thesis by (simp add: snapFloatDrift_def snapTolerance_def SNAP_EPSILON_def)
next
  case (Some d)
  then have "\<bar>q - roundToDecimals q d\<bar> \<le> snapTolerance q" by (auto simp: find_Some_iff)
  with Some show ?thesis by (simp add: snapFloatDrift_def abs_minus_commute)
qed

lemma floor_half: "\<lfloor>rat_of_int n + 1 / 2\<rfloor> = n"
  by linarith

lemma snap_int: "snapFloatDrift (of_int i) = of_int i"
proof -
  have "roundToDecimals (of_int i) 0 = of_int i" by (simp only: roundToDecimals_def power_0 mult_1_right div_by_1 floor_half)
  moreover have "0 \<le> snapTolerance (of_int i)" by (simp add: snapTolerance_def SNAP_EPSILON_def)
  ultimately show ?thesis by (simp add: snapFloatDrift_def upt_conv_Cons SNAP_DECIMALS_def)
qed

lemma format_int:
  assumes "i < 10 ^ 21"
  shows "formatPricingNumber nt (rat_of_nat i) = nt (Fin (rat_of_nat i))"
proof -
  have s: "snapFloatDrift (rat_of_nat i) = rat_of_nat i" using snap_int [of "int i"] by simp
  have "rat_of_nat i < 10 ^ 21" using assms by (metis of_nat_less_iff of_nat_numeral of_nat_power)
  moreover have "\<lfloor>rat_of_nat i * 10 ^ 12 + 1 / 2\<rfloor> = int i * 10 ^ 12" using floor_half [of "int i * 10 ^ 12"] by simp
  ultimately show ?thesis using formatPricingNumber_value [of "rat_of_nat i" nt] by (simp add: s nat_mult_distrib nat_power_eq)
qed

lemma format_value:
  "formatPricingNumber nt 3 = nt (Fin 3)" "formatPricingNumber nt 6 = nt (Fin 6)"
  using format_int [of 3 nt] format_int [of 6 nt] by simp_all

section \<open>The editor\<close>

text \<open>
  C3: whatever is typed, toggled and opened in any order, a committed draft holds for every lane
  that is switched on the ratio of the price that is shown to the price it is relative to, or the
  loaded ratio while the prices are still the loaded ones; a lane that is off has no ratio, and
  the same holds for the base ratio and the input price.
\<close>

theorem submitted_ratios_match_prices:
  assumes "reach (panel_init nt) (panel_step nt) st" and "commitDraft st = Some data"
  shows "(\<forall>lane. if ps_enabled st lane
      then md_laneRatio data lane = deriveLaneRatio nt lane (ps_prices st lane) (ps_promptPrice st) (ps_prices st) \<or>
        lane_untouched nt st lane
      else md_laneRatio data lane = [] \<and> ps_prices st lane = []) \<and>
    (md_ratio data = baseRatio nt (ps_promptPrice st) \<or> ratio_untouched nt st)"
proof -
  have "panel_inv nt st" by (rule price_panel.reach_inv [OF assms(1)])
  moreover have "md_laneRatio data = fv_laneRatio (ps_values st)" "md_ratio data = fv_ratio (ps_values st)"
    using assms(2) by (auto simp: commitDraft_def buildSubmitData_def Let_def split: if_splits)
  ultimately show ?thesis by (simp add: panel_inv_def lane_consistent_def)
qed

theorem submitted_ratios_match_prices_witness:
  "\<exists>data. commitDraft (loadPanel samplePriceText (Some samplePriced)) = Some data \<and> md_laneRatio data LaneImage = []"
proof -
  let ?st = "loadPanel samplePriceText (Some samplePriced)"
  have "\<exists>data. commitDraft ?st = Some data"
    by (simp add: commitDraft_def validatePricingValues_def inputPriceMissing_def audioInputMissing_def loadPanel_def samplePriced_def
        initialValues_def createInitialLaneState_def Let_def hasValue_def laneConfigs_def)
  then obtain data where c: "commitDraft ?st = Some data" ..
  moreover have "reach (panel_init samplePriceText) (panel_step samplePriceText) ?st" by (rule reach_init) (auto simp: panel_init_def)
  moreover have "\<not> ps_enabled ?st LaneImage"
    by (simp add: loadPanel_def createInitialLaneState_def samplePriced_def hasValue_def Let_def)
  ultimately show ?thesis using submitted_ratios_match_prices by metis
qed

text \<open>
  C38: an input price of zero passes the check of the draft, and every price that depends on it
  is dropped without a message: the submitted data have no ratio for any lane but audio output,
  and the lanes are off when the model is opened again, whatever prices were shown.
\<close>

theorem zero_input_price_drops_lanes:
  assumes "ps_mode st = PerToken" and "fv_name (ps_values st) \<noteq> []" and "\<not> audioInputMissing st"
    and "numericDraft v" and "toNumberOrNull v = Some 0" and "lane \<noteq> LaneAudioOutput"
  shows "\<exists>data. commitDraft (handlePromptPriceChange nt v st) = Some data \<and> md_laneRatio data lane = [] \<and>
    \<not> ps_enabled (loadPanel nt (Some data)) lane \<and>
    (ps_enabled st lane \<longrightarrow> ps_enabled (handlePromptPriceChange nt v st) lane \<and>
      ps_prices (handlePromptPriceChange nt v st) lane = ps_prices st lane)"
proof -
  have q: "quotientText nt x v = []" for x using assms(5) by (simp add: quotientText_def split: option.split)
  have t: "handlePromptPriceChange nt v st = syncLaneRatios nt v (st\<lparr>ps_promptPrice := v\<rparr>)"
    using assms(4) by (simp add: handlePromptPriceChange_def)
  have "validatePricingValues (handlePromptPriceChange nt v st) = None"
    using assms(3,5) by (simp add: t sync_values validatePricingValues_def inputPriceMissing_def audioInputMissing_def)
  then show ?thesis
    using assms(2,6) q by (simp add: commitDraft_def t sync_values buildSubmitData_def Let_def deriveLaneRatio_def
        loadPanel_def createInitialLaneState_def hasValue_def)
qed

definition typedPanel :: "(jsnum \<Rightarrow> jsstr) \<Rightarrow> jsstr \<Rightarrow> jsstr \<Rightarrow> PanelState" where
  "typedPanel nt inputPrice outputPrice =
     handleLanePriceChange nt LaneCompletion outputPrice (handleLaneToggle nt LaneCompletion True
       (handlePromptPriceChange nt inputPrice (handleNameField (js ''m'') (loadPanel nt None))))"

lemmas typed_eval = typedPanel_def handleLanePriceChange_def handleLaneToggle_def handlePromptPriceChange_def handleNameField_def
  loadPanel_def initialValues_def createInitialLaneState_def setLaneRatio_def sync_values Let_def

lemma typed_draft:
  assumes "numericDraft a" "numericDraft b"
  shows "ps_mode (typedPanel nt a b) = PerToken" "fv_name (ps_values (typedPanel nt a b)) = js ''m''"
    "\<not> audioInputMissing (typedPanel nt a b)" "ps_enabled (typedPanel nt a b) = (\<lambda>_. False)(LaneCompletion := True)"
    "ps_prices (typedPanel nt a b) = (\<lambda>_. [])(LaneCompletion := b)"
    "ps_promptPrice (typedPanel nt a b) = a" "fv_ratio (ps_values (typedPanel nt a b)) = baseRatio nt a"
    "fv_laneRatio (ps_values (typedPanel nt a b)) LaneCompletion = quotientText nt b a"
  using assms by (simp_all add: typed_eval audioInputMissing_def deriveLaneRatio_def)

lemma sample_texts:
  "numericDraft (js ''0'')" "numericDraft (js ''1'')" "numericDraft (js ''6'')" "toNumberOrNull (js ''0'') = Some 0"
  "toNumberOrNull (js ''1'') = Some 1" "toNumberOrNull (js ''6'') = Some 6"
  by (simp_all add: numericDraft_def toNumberOrNull_def number_eval)

theorem zero_input_price_drops_lanes_witness:
  "\<exists>data. commitDraft (handlePromptPriceChange samplePriceText (js ''0'') (typedPanel samplePriceText (js ''6'') (js ''1''))) = Some data \<and>
    md_laneRatio data LaneCompletion = [] \<and>
    ps_prices (handlePromptPriceChange samplePriceText (js ''0'') (typedPanel samplePriceText (js ''6'') (js ''1''))) LaneCompletion = js ''1''"
proof -
  note f = typed_draft [OF sample_texts(3,2), of samplePriceText]
  have "fv_name (ps_values (typedPanel samplePriceText (js ''6'') (js ''1''))) \<noteq> []" by (simp add: f)
  from zero_input_price_drops_lanes [OF f(1) this f(3) sample_texts(1,4), of LaneCompletion samplePriceText] show ?thesis
    by (auto simp: f)
qed

section \<open>The table\<close>

text \<open>A draft of which writing drops nothing: not tiered, with a fixed price or with ratios, not both.\<close>

definition keptWhole :: "ModelRatioData \<Rightarrow> bool" where
  "keptWhole data \<longleftrightarrow> md_billingMode data \<noteq> Some TieredExpr \<and> (md_price data = [] \<or> md_ratio data = [] \<and> md_laneRatio data = (\<lambda>_. []))"

lemma written_whole:
  "keptWhole data \<Longrightarrow> \<exists>s. writtenSnapshot nt data k = Inr s \<and> sn_price s = md_price data \<and> sn_ratio s = md_ratio data \<and>
    sn_laneRatio s = md_laneRatio data"
  by (auto simp: keptWhole_def writtenSnapshot_def Let_def fun_eq_iff)

text \<open>
  C2: after any sequence of writes (of one model or copied to several) and deletions the ten
  option texts read without an error, and every model shows what writing the last edit that names
  it leaves, whatever was stored or written before; a model no edit names shows what it showed
  before. Of a draft that is not tiered and does not have both a fixed price and ratios, that is
  every submitted price and ratio; of a draft with both the fixed price alone is left. The numbers
  of the drafts are given in the text the runtime writes for them.
\<close>

theorem price_edits_last_wins:
  assumes "stable_numbers nt" and "readDocuments opts = Inr docs" and "list_all (editFits nt) es"
  shows "\<exists>opts'. foldl (\<lambda>s e. applyPriceEdit nt e s) (Inr opts) es = Inr opts' \<and>
    (\<forall>k. snapshotOf nt opts' k =
      (case List.find (\<lambda>e. k \<in> set (editTargets e)) (rev es) of Some e \<Rightarrow> editResult nt e k | None \<Rightarrow> snapshotOf nt opts k)) \<and>
    (\<forall>k data names. List.find (\<lambda>e. k \<in> set (editTargets e)) (rev es) = Some (WriteEdit data names) \<and> keptWhole data \<longrightarrow>
      (\<exists>s. snapshotOf nt opts' k = Inr s \<and> sn_price s = md_price data \<and> sn_ratio s = md_ratio data \<and> sn_laneRatio s = md_laneRatio data))"
proof -
  have ok: "stable_numbers nt \<and> readable (Inr opts)" using assms(1,2) by (simp add: readable_def)
  obtain opts' where o: "foldl (\<lambda>s e. applyPriceEdit nt e s) (Inr opts) es = Inr opts'"
    using price_store.edits_ok [OF ok assms(3)] readable_Inr by blast
  have l: "lookSnapshot nt (Inr x) = snapshotOf nt x" for x by (simp add: fun_eq_iff lookSnapshot_def)
  have look: "\<forall>k. snapshotOf nt opts' k =
      (case List.find (\<lambda>e. k \<in> set (editTargets e)) (rev es) of Some e \<Rightarrow> editResult nt e k | None \<Rightarrow> snapshotOf nt opts k)"
    using price_store.look_edits [OF ok assms(3)] unfolding o l by blast
  then have "snapshotOf nt opts' k = writtenSnapshot nt data k"
    if "List.find (\<lambda>e. k \<in> set (editTargets e)) (rev es) = Some (WriteEdit data names)" for k data names
    using that by simp
  with o look written_whole show ?thesis by fastforce
qed

lemma sample_own:
  "own_text samplePriceText (js ''2'')" "own_text samplePriceText (js ''3'')" "own_text nt []"
proof -
  have "parse_float (js ''2'') = Fin 2" "parse_float (js ''3'') = Fin 3"
    using parse_float_whole [of "js ''2''" "[]"] parse_float_whole [of "js ''3''" "[]"]
    by (simp_all add: point_text_def decimal_value_def is_digit_def parse_digits_def js_simps)
  then show "own_text samplePriceText (js ''2'')" "own_text samplePriceText (js ''3'')" "own_text nt []"
    by (simp_all add: own_text_def sample_json_numbers sample_literals lit_def samplePriceText_eval)
qed

lemma samplePriced_own: "own_texts samplePriceText samplePriced"
  by (simp add: own_texts_def samplePriced_def sample_own)

theorem price_edits_last_wins_witness:
  "\<exists>opts'. foldl (\<lambda>s e. applyPriceEdit samplePriceText e s) (Inr emptyOptions)
      [WriteEdit samplePriced [js ''a'', js ''b''], DeleteEdit (js ''b'')] = Inr opts' \<and>
    snapshotOf samplePriceText opts' (js ''a'') = writtenSnapshot samplePriceText samplePriced (js ''a'') \<and>
    snapshotOf samplePriceText opts' (js ''b'') = Inr (emptySnapshot (js ''b''))"
proof -
  have "list_all (editFits samplePriceText) [WriteEdit samplePriced [js ''a'', js ''b''], DeleteEdit (js ''b'')]"
    using samplePriced_own by simp
  from price_edits_last_wins [OF sample_stable read_emptyOptions this] obtain opts' where
    "foldl (\<lambda>s e. applyPriceEdit samplePriceText e s) (Inr emptyOptions)
      [WriteEdit samplePriced [js ''a'', js ''b''], DeleteEdit (js ''b'')] = Inr opts'"
    "\<And>k. snapshotOf samplePriceText opts' k =
      (case List.find (\<lambda>e. k \<in> set (editTargets e)) (rev [WriteEdit samplePriced [js ''a'', js ''b''], DeleteEdit (js ''b'')]) of
         Some e \<Rightarrow> editResult samplePriceText e k | None \<Rightarrow> snapshotOf samplePriceText emptyOptions k)" by blast
  then show ?thesis by (intro exI [of _ opts']) (simp add: js_simps)
qed

text \<open>
  C37: a model with a fixed price that is switched to prices per token keeps the fixed price and
  loses the typed prices. The draft is committed in the mode per token with the ratio of the
  typed price, but writing it stores the old fixed price and no ratio, so that the table and the
  editor show the model in the mode per request again.
\<close>

theorem fixed_price_survives_token_mode:
  assumes "stable_numbers nt" and "readDocuments opts = Inr docs"
    and "md_price d \<noteq> []" and "own_text nt (md_price d)" and "md_laneRatio d = (\<lambda>_. [])" and "trim (md_name d) \<noteq> []"
    and "numericDraft v" and "toNumberOrNull v = Some p" and "own_text nt (baseRatio nt v)"
  shows "\<exists>data opts' s.
    commitDraft (handlePromptPriceChange nt v (handleModeChange PerToken (loadPanel nt (Some d)))) = Some data \<and>
    md_billingMode data = Some PerToken \<and> md_ratio data = baseRatio nt v \<and>
    persistPricingData nt data [md_name data] opts = Inr opts' \<and>
    snapshotOf nt opts' (md_name data) = Inr s \<and> sn_billingMode s = PerRequest \<and> sn_price s = md_price d \<and> sn_ratio s = []"
proof -
  define data where "data = \<lparr>md_name = trim (md_name d), md_price = md_price d, md_ratio = baseRatio nt v, md_laneRatio = (\<lambda>_. []),
    md_billingMode = Some PerToken, md_billingExpr = [], md_requestRuleExpr = []\<rparr>"
  have "md_name d \<noteq> []" using assms(6) by auto
  then have c: "commitDraft (handlePromptPriceChange nt v (handleModeChange PerToken (loadPanel nt (Some d)))) = Some data"
    using assms(5,7,8) by (simp add: data_def commitDraft_def handleModeChange_def handlePromptPriceChange_def sync_values loadPanel_def
        initialValues_def createInitialLaneState_def validatePricingValues_def inputPriceMissing_def audioInputMissing_def
        buildSubmitData_def hasValue_def Let_def deriveLaneRatio_def)
  have fits: "list_all (editFits nt) [WriteEdit data [md_name data]]" using assms(4,9) by (simp add: data_def own_texts_def own_text_def)
  have ok: "stable_numbers nt \<and> readable (Inr opts)" using assms(1,2) by (simp add: readable_def)
  obtain opts' where o: "persistPricingData nt data [md_name data] opts = Inr opts'" by (simp add: persistPricingData_def assms(2))
  then have "snapshotOf nt opts' (md_name data) = writtenSnapshot nt data (md_name data)"
    using price_store.look_edits [OF ok fits, of "md_name data"] by (simp add: lookSnapshot_def)
  with c o show ?thesis using assms(3) by (auto simp: data_def writtenSnapshot_def Let_def)
qed

theorem fixed_price_survives_token_mode_witness:
  "\<exists>data opts' s.
    commitDraft (handlePromptPriceChange samplePriceText (js ''6'')
      (handleModeChange PerToken (loadPanel samplePriceText (Some samplePriced)))) = Some data \<and> md_ratio data = js ''3'' \<and>
    persistPricingData samplePriceText data [md_name data] emptyOptions = Inr opts' \<and>
    snapshotOf samplePriceText opts' (md_name data) = Inr s \<and> sn_price s = js ''2'' \<and> sn_ratio s = []"
proof -
  have "baseRatio samplePriceText (js ''6'') = js ''3''"
    by (simp add: baseRatio_def sample_texts format_value samplePriceText_eval)
  moreover from this have "own_text samplePriceText (baseRatio samplePriceText (js ''6''))" by (simp add: sample_own)
  moreover have "md_price samplePriced \<noteq> []" "own_text samplePriceText (md_price samplePriced)" "md_laneRatio samplePriced = (\<lambda>_. [])"
    "md_price samplePriced = js ''2''"
    by (simp_all add: samplePriced_def sample_own)
  moreover have "trim (md_name samplePriced) \<noteq> []" by (simp add: samplePriced_def trim_def trim_left_def is_ws_def js_simps)
  ultimately show ?thesis
    using fixed_price_survives_token_mode [OF sample_stable read_emptyOptions, of samplePriced "js ''6''" 6] sample_texts by metis
qed

section \<open>The rows\<close>

text \<open>The signature determines every field it lists.\<close>

definition sameFields :: "ModelPricingSnapshot \<Rightarrow> ModelPricingSnapshot \<Rightarrow> bool" where
  "sameFields a b \<longleftrightarrow> sn_price a = sn_price b \<and> sn_ratio a = sn_ratio b \<and> sn_laneRatio a = sn_laneRatio b \<and>
     sn_billingMode a = sn_billingMode b \<and> sn_billingExpr a = sn_billingExpr b \<and> sn_requestRuleExpr a = sn_requestRuleExpr b"

lemma modeText_inj: "modeText a = modeText b \<longleftrightarrow> a = b"
  by (cases a; cases b) (simp_all add: modeText_def js_simps)

lemma all_lanes_eq:
  "f = g \<longleftrightarrow> f LaneCache = g LaneCache \<and> f LaneCreateCache = g LaneCreateCache \<and> f LaneCompletion = g LaneCompletion \<and>
    f LaneImage = g LaneImage \<and> f LaneAudioInput = g LaneAudioInput \<and> f LaneAudioOutput = g LaneAudioOutput"
  by (auto simp: fun_eq_iff) (metis LaneKey.exhaust)

lemma signature_fields: "signatureFields a = signatureFields b \<longleftrightarrow> sameFields a b"
  by (auto simp: signatureFields_def sameFields_def modeText_inj all_lanes_eq)

lemma signature_canon: "json_canon nt (JObj (signatureFields s)) = JObj (signatureFields s)"
  by (simp add: signatureFields_def js_entries_def is_index_def is_digit_def js_simps)

lemma signature_parse: "json_parse (json_stringify nt (JObj (signatureFields s))) = Some (JObj (signatureFields s))"
proof -
  have "printable (json_canon nt (JObj (signatureFields s)))"
    unfolding signature_canon by (simp add: signatureFields_def js_simps)
  from json_parse_stringify(1) [OF this] show ?thesis by (simp only: signature_canon)
qed

interpretation signature_texts: text_format "\<lambda>s. json_stringify nt (JObj (signatureFields s))" json_parse "\<lambda>_. True"
  "\<lambda>s. Some (JObj (signatureFields s))" for nt
  by unfold_locales (rule signature_parse)

lemma signature_eq:
  "getSnapshotSignature nt a = getSnapshotSignature nt b \<longleftrightarrow>
    (case (a, b) of (None, None) \<Rightarrow> True | (Some s, Some t) \<Rightarrow> sameFields s t | _ \<Rightarrow> False)"
proof -
  have ne: "json_stringify (lit nt) (JObj (signatureFields s)) \<noteq> []" for s
    using signature_parse [of "lit nt" s] by (auto simp: json_parse_def)
  have "json_stringify (lit nt) (JObj (signatureFields s)) = json_stringify (lit nt) (JObj (signatureFields t)) \<longleftrightarrow> sameFields s t" for s t
    using signature_texts.print_distinct [of s t "lit nt"] signature_fields [of s t] by auto
  with ne ne [symmetric] show ?thesis by (simp add: getSnapshotSignature_def split: option.split)
qed

text \<open>The other two fields follow from the name and from those.\<close>

lemma modelSnapshot_shape:
  assumes "modelSnapshot nt docs k = Inr s"
  shows "sn_name s = k"
    "sn_hasConflict s \<longleftrightarrow> sn_billingMode s \<noteq> TieredExpr \<and> sn_price s \<noteq> [] \<and>
      (sn_ratio s \<noteq> [] \<or> list_ex (\<lambda>lane. sn_laneRatio s lane \<noteq> []) laneFields)"
  using assms by (auto simp: modelSnapshot_def expressionSnapshot_def priceSnapshot_def Let_def split: if_splits sum.splits)

lemma same_snapshot:
  assumes "modelSnapshot nt docs k = Inr s" "modelSnapshot nt docs' k = Inr t" "sameFields s t"
  shows "s = t"
  using modelSnapshot_shape [OF assms(1)] modelSnapshot_shape [OF assms(2)] assms(3) unfolding sameFields_def
  by (intro ModelPricingSnapshot.equality) simp_all

lemma collect_Inr: "collect f xs = Inr ys \<longleftrightarrow> map f xs = map Inr ys"
proof (induction xs arbitrary: ys)
  case (Cons x xs)
  show ?case using Cons.IH [of "tl ys"] by (cases ys; cases "f x"; cases "collect f xs") auto
qed auto

lemma byName_distinct: "distinct (map sn_name rows) \<Longrightarrow> byName rows = map (\<lambda>r. (sn_name r, r)) rows"
proof (induction rows rule: rev_induct)
  case (snoc r rows)
  then have "sn_name r \<notin> set (keys_of (map (\<lambda>r. (sn_name r, r)) rows))" by auto
  with snoc show ?case by (simp add: byName_def update_new)
qed (simp add: byName_def)

lemma snapshots_by_name:
  assumes "buildModelSnapshots nt opts = Inr rows"
  shows "\<exists>docs. readDocuments opts = Inr docs \<and> keys_of (byName rows) = modelNames docs \<and>
    (\<forall>k. map_of (byName rows) k = (if k \<in> set (modelNames docs) then Some (projr (modelSnapshot nt docs k)) else None) \<and>
      (k \<in> set (modelNames docs) \<longrightarrow> modelSnapshot nt docs k = Inr (projr (modelSnapshot nt docs k))))"
proof -
  obtain docs where d: "readDocuments opts = Inr docs" "collect (modelSnapshot nt docs) (modelNames docs) = Inr rows"
    using assms by (auto simp: buildModelSnapshots_def split: sum.splits)
  then have m: "map (modelSnapshot nt docs) (modelNames docs) = map Inr rows" by (simp add: collect_Inr)
  then have rows: "rows = map (\<lambda>k. projr (modelSnapshot nt docs k)) (modelNames docs)"
    by (metis (no_types, lifting) list.map_comp comp_apply sum.sel(2) map_idI map_cong)
  have i: "modelSnapshot nt docs k = Inr (projr (modelSnapshot nt docs k))" if "k \<in> set (modelNames docs)" for k
  proof -
    have "modelSnapshot nt docs k \<in> set (map Inr rows)" using that m by (metis image_eqI list.set_map)
    then show ?thesis by auto
  qed
  have names: "map sn_name rows = modelNames docs"
    using modelSnapshot_shape(1) [OF i] by (simp add: rows cong: map_cong)
  moreover have "distinct (modelNames docs)" by (simp add: modelNames_def)
  ultimately have b: "byName rows = map (\<lambda>k. (k, projr (modelSnapshot nt docs k))) (modelNames docs)"
    using byName_distinct [of rows] modelSnapshot_shape(1) [OF i] by (simp add: rows cong: map_cong)
  have "map_of (byName rows) k = (if k \<in> set (modelNames docs) then Some (projr (modelSnapshot nt docs k)) else None)" for k
    unfolding b by (simp add: map_of_map_restrict restrict_map_def)
  moreover have "keys_of (byName rows) = modelNames docs" unfolding b by (simp add: comp_def)
  ultimately show ?thesis using d(1) i by blast
qed

text \<open>
  C20: the table without filter has exactly one row for every model of the edited options, deleted
  models have none. Each row carries the snapshots of its model in the saved and in the edited
  options, and it is marked as changed exactly when the two differ, although only texts of the
  fields are compared; it is marked as new exactly when the saved options do not have the model.
\<close>

theorem table_rows_exact:
  assumes "models nt collate FilterAll candidates savedOpts opts = Inr rows"
    and "readDocuments opts = Inr docs" and "readDocuments savedOpts = Inr savedDocs"
  shows "distinct (map (\<lambda>row. sn_name (row_displayed row)) rows) \<and>
    set (map (\<lambda>row. sn_name (row_displayed row)) rows) = set (modelNames docs) \<and>
    list_all (\<lambda>row. let k = sn_name (row_displayed row) in
      (\<exists>s. row_draft row = Some s \<and> snapshotOf nt opts k = Inr s) \<and>
      (row_isDraftNew row \<longleftrightarrow> k \<notin> set (modelNames savedDocs)) \<and>
      (row_isDraftChanged row \<longleftrightarrow> row_saved row \<noteq> row_draft row)) rows"
proof -
  obtain savedRows draftRows where b: "buildModelSnapshots nt savedOpts = Inr savedRows" "buildModelSnapshots nt opts = Inr draftRows"
    using assms(1) by (auto simp: models_def split: sum.splits)
  let ?S = "modelNames savedDocs" and ?D = "modelNames docs"
  have s: "keys_of (byName savedRows) = ?S" "\<And>k. map_of (byName savedRows) k = (if k \<in> set ?S then Some (projr (modelSnapshot nt savedDocs k)) else None)"
    "\<And>k. k \<in> set ?S \<Longrightarrow> modelSnapshot nt savedDocs k = Inr (projr (modelSnapshot nt savedDocs k))"
    using snapshots_by_name [OF b(1)] assms(3) by auto
  have d: "keys_of (byName draftRows) = ?D" "\<And>k. map_of (byName draftRows) k = (if k \<in> set ?D then Some (projr (modelSnapshot nt docs k)) else None)"
    "\<And>k. k \<in> set ?D \<Longrightarrow> modelSnapshot nt docs k = Inr (projr (modelSnapshot nt docs k))"
    using snapshots_by_name [OF b(2)] assms(2) by auto
  define row where "row = (\<lambda>k. modelRow nt (map_of (byName savedRows) k) (map_of (byName draftRows) k) k)"
  have name: "sn_name (row_displayed (row k)) = k" for k
    using modelSnapshot_shape(1) [OF s(3)] modelSnapshot_shape(1) [OF d(3)]
    by (simp add: row_def modelRow_def s(2) d(2) emptySnapshot_def)
  have "rows = js_sort (cmp_key (\<lambda>r. sn_name (row_displayed r)) collate)
      (filter (\<lambda>r. \<not> row_isDraftDeleted r) (map row (set_of (?S @ ?D))))"
    using assms(1) by (simp add: models_def b s(1) d(1) Let_def row_def)
  moreover have "filter (\<lambda>r. \<not> row_isDraftDeleted r) (map row (set_of (?S @ ?D))) = map row (filter (\<lambda>k. k \<in> set ?D) (set_of (?S @ ?D)))"
    by (auto simp: filter_map comp_def row_def modelRow_def s(2) d(2) intro!: arg_cong [of _ _ "map _"] filter_cong)
  ultimately have rows: "rows = js_sort (cmp_key (\<lambda>r. sn_name (row_displayed r)) collate) (map row (filter (\<lambda>k. k \<in> set ?D) (set_of (?S @ ?D))))"
    by simp
  let ?ns = "filter (\<lambda>k. k \<in> set ?D) (set_of (?S @ ?D))"
  have "mset (map (\<lambda>r. sn_name (row_displayed r)) rows) = mset (map (\<lambda>r. sn_name (row_displayed r)) (map row ?ns))"
    unfolding rows by (simp only: mset_map mset_js_sort)
  also have "map (\<lambda>r. sn_name (row_displayed r)) (map row ?ns) = ?ns" by (simp add: name comp_def)
  finally have m: "mset (map (\<lambda>r. sn_name (row_displayed r)) rows) = mset ?ns" .
  have "distinct (map (\<lambda>r. sn_name (row_displayed r)) rows)" using mset_eq_imp_distinct_iff [OF m] by simp
  moreover have "set (map (\<lambda>r. sn_name (row_displayed r)) rows) = set ?D" using mset_eq_setD [OF m] by auto
  moreover have "row_isDraftChanged (row k) \<longleftrightarrow> row_saved (row k) \<noteq> row_draft (row k)" for k
    using same_snapshot [OF s(3) d(3), of k] by (auto simp: row_def modelRow_def signature_eq s(2) d(2) sameFields_def)
  then have "list_all (\<lambda>row. let k = sn_name (row_displayed row) in
      (\<exists>s. row_draft row = Some s \<and> snapshotOf nt opts k = Inr s) \<and>
      (row_isDraftNew row \<longleftrightarrow> k \<notin> set (modelNames savedDocs)) \<and>
      (row_isDraftChanged row \<longleftrightarrow> row_saved row \<noteq> row_draft row)) rows"
    using d(3) by (auto simp: list_all_iff rows name Let_def snapshotOf_def assms(2)) (auto simp: row_def modelRow_def s(2) d(2))
  ultimately show ?thesis by simp
qed

lemma sample_models: "\<exists>rows. models samplePriceText cmp_str FilterAll [] emptyOptions samplePriceOptions = Inr rows"
proof -
  have "collect (modelSnapshot samplePriceText sampleDocs) ks = Inr (map (priceSnapshot samplePriceText sampleDocs) ks)" for ks
    by (induction ks) (simp_all add: modelSnapshot_def sampleDocs_def)
  then obtain rows where "buildModelSnapshots samplePriceText samplePriceOptions = Inr rows"
    by (simp add: buildModelSnapshots_def read_samplePriceOptions)
  moreover have "buildModelSnapshots samplePriceText emptyOptions = Inr []"
    by (simp add: buildModelSnapshots_def read_emptyOptions modelNames_def js_entries_def priceOptions_def)
  ultimately show ?thesis by (simp add: models_def Let_def)
qed

theorem table_rows_exact_witness:
  "\<exists>rows. models samplePriceText cmp_str FilterAll [] emptyOptions samplePriceOptions = Inr rows \<and>
    set (map (\<lambda>row. sn_name (row_displayed row)) rows) = {js ''m''} \<and> list_all row_isDraftNew rows"
proof -
  obtain rows where r: "models samplePriceText cmp_str FilterAll [] emptyOptions samplePriceOptions = Inr rows" using sample_models ..
  have "set (modelNames sampleDocs) = {js ''m''}" by (auto simp: modelNames_def sampleDocs_def)
  moreover have "modelNames (\<lambda>_. []) = ([] :: jsstr list)" by (simp add: modelNames_def js_entries_def)
  ultimately show ?thesis
    using table_rows_exact [OF r read_samplePriceOptions read_emptyOptions] r by (auto simp: list_all_iff Let_def)
qed

section \<open>Rounding\<close>

lemma snap_far:
  assumes "\<And>m. snapTolerance q * 10 ^ 8 < \<bar>q * 10 ^ 8 - rat_of_int m\<bar>"
  shows "snapFloatDrift q = q"
proof -
  have "\<not> \<bar>q - roundToDecimals q d\<bar> \<le> snapTolerance q" if "d \<le> 8" for d
  proof -
    define k where "k = \<lfloor>q * 10 ^ d + 1 / 2\<rfloor>"
    have "(10 :: rat) ^ 8 = 10 ^ d * 10 ^ (8 - d)" using that by (simp flip: power_add)
    then have "(q - roundToDecimals q d) * 10 ^ 8 = q * 10 ^ 8 - rat_of_int (k * 10 ^ (8 - d))"
      by (simp add: roundToDecimals_def k_def field_simps)
    then have "\<bar>q - roundToDecimals q d\<bar> * 10 ^ 8 = \<bar>q * 10 ^ 8 - rat_of_int (k * 10 ^ (8 - d))\<bar>"
      by (metis abs_mult abs_of_pos zero_less_power zero_less_numeral)
    with assms [of "k * 10 ^ (8 - d)"] show ?thesis by simp
  qed
  then have "List.find (\<lambda>d. \<bar>q - roundToDecimals q d\<bar> \<le> snapTolerance q) [0..<Suc SNAP_DECIMALS] = None"
    by (auto simp: find_None_iff SNAP_DECIMALS_def)
  then show ?thesis by (simp add: snapFloatDrift_def)
qed

lemma fraction_far:
  assumes "\<not> b dvd a" "0 < b"
  shows "1 / rat_of_int b \<le> \<bar>rat_of_int a / rat_of_int b - rat_of_int m\<bar>"
proof -
  have "a - b * m \<noteq> 0" using assms(1) by auto
  then have "1 \<le> \<bar>rat_of_int (a - b * m)\<bar>" by linarith
  moreover have "rat_of_int a / rat_of_int b - rat_of_int m = rat_of_int (a - b * m) / rat_of_int b" using assms(2) by (simp add: field_simps)
  ultimately show ?thesis using assms(2) by (simp add: divide_right_mono)
qed

lemma snap_examples: "snapFloatDrift (1 / 6) = 1 / 6" "snapFloatDrift (500000000001 / 500000000000) = 500000000001 / 500000000000"
proof -
  have "snapTolerance (1 / 6) * 10 ^ 8 < 1 / 3" by (simp add: snapTolerance_def SNAP_EPSILON_def)
  moreover have "1 / 3 \<le> \<bar>1 / 6 * 10 ^ 8 - rat_of_int m\<bar>" for m using fraction_far [of 3 50000000 m] by simp
  ultimately have "snapTolerance (1 / 6) * 10 ^ 8 < \<bar>1 / 6 * 10 ^ 8 - rat_of_int m\<bar>" for m by (rule order.strict_trans2)
  then show "snapFloatDrift (1 / 6) = 1 / 6" by (rule snap_far)
  let ?q = "500000000001 / 500000000000 :: rat"
  have "snapTolerance ?q * 10 ^ 8 < 1 / 5000" by (simp add: snapTolerance_def SNAP_EPSILON_def)
  moreover have "1 / 5000 \<le> \<bar>?q * 10 ^ 8 - rat_of_int m\<bar>" for m using fraction_far [of 5000 500000000001 m] by simp
  ultimately have "snapTolerance ?q * 10 ^ 8 < \<bar>?q * 10 ^ 8 - rat_of_int m\<bar>" for m by (rule order.strict_trans2)
  then show "snapFloatDrift (500000000001 / 500000000000) = 500000000001 / 500000000000" by (rule snap_far)
qed

lemma format_examples:
  "formatPricingNumber nt (1 / 6) = nt (Fin (166666666667 / 1000000000000))"
  "formatPricingNumber nt (500000000001 / 500000000000) = nt (Fin (500000000001 / 500000000000))"
proof -
  have "\<lfloor>1000000000003 / 6 :: rat\<rfloor> = 166666666667" "\<lfloor>2000000000005 / 2 :: rat\<rfloor> = 1000000000002" by (simp_all add: floor_eq_iff)
  then show "formatPricingNumber nt (1 / 6) = nt (Fin (166666666667 / 1000000000000))"
    "formatPricingNumber nt (500000000001 / 500000000000) = nt (Fin (500000000001 / 500000000000))"
    using formatPricingNumber_value [of "1 / 6" nt] formatPricingNumber_value [of "500000000001 / 500000000000" nt]
    by (simp_all add: snap_examples)
qed

text \<open>
  A saved price can come back changed. With an input price of 6 and an output price of 1 the
  editor submits the ratio rounded to twelve decimals, and the model opens with an output price of
  1.000000000002: the error of the ratio is multiplied by the input price, which carries it beyond
  the tolerance of \<open>snapFloatDrift\<close>, here \<open>10^-12\<close>.
\<close>

lemma reopened_price_drifts:
  assumes "nt (Fin 3) = js ''3''" and "nt (Fin 6) = js ''6''" and "nt (Fin (166666666667 / 1000000000000)) = js ''0.166666666667''"
    and "nt (Fin (500000000001 / 500000000000)) = js ''1.000000000002''"
  shows "ps_prices (typedPanel nt (js ''6'') (js ''1'')) LaneCompletion = js ''1'' \<and>
    (\<exists>data. commitDraft (typedPanel nt (js ''6'') (js ''1'')) = Some data \<and>
      md_laneRatio data LaneCompletion = js ''0.166666666667'' \<and>
      ps_promptPrice (loadPanel nt (Some data)) = js ''6'' \<and>
      ps_prices (loadPanel nt (Some data)) LaneCompletion = js ''1.000000000002'')"
proof -
  let ?st = "typedPanel nt (js ''6'') (js ''1'')"
  note f = typed_draft [OF sample_texts(3,2), of nt]
  have n: "toNumberOrNull (js ''3'') = Some 3" "toNumberOrNull (js ''0.166666666667'') = Some (166666666667 / 1000000000000)"
    by (simp_all add: toNumberOrNull_def sample_literals)
  have r: "fv_ratio (ps_values ?st) = js ''3''" by (simp add: f baseRatio_def sample_texts format_value assms)
  have q: "fv_laneRatio (ps_values ?st) LaneCompletion = js ''0.166666666667''"
    by (simp add: f quotientText_def sample_texts format_examples assms)
  have "commitDraft ?st = Some (buildSubmitData ?st)"
    using f(3) by (simp add: commitDraft_def validatePricingValues_def inputPriceMissing_def f sample_texts)
  moreover have "ps_promptPrice (loadPanel nt (Some (buildSubmitData ?st))) = js ''6''"
    by (simp add: loadPanel_def createInitialLaneState_def Let_def buildSubmitData_def r ratioToBasePrice_def n format_value assms)
  moreover have "ps_prices (loadPanel nt (Some (buildSubmitData ?st))) LaneCompletion = js ''1.000000000002''"
    by (simp add: loadPanel_def createInitialLaneState_def Let_def buildSubmitData_def r q ratioToBasePrice_def deriveLanePrice_def n
        format_value format_examples sample_texts assms)
  moreover have "md_laneRatio (buildSubmitData ?st) LaneCompletion = js ''0.166666666667''" by (simp add: buildSubmitData_def Let_def q)
  ultimately show ?thesis using f(5) by (intro conjI exI [of _ "buildSubmitData ?st"]) simp_all
qed

lemma reopened_price_drifts_witness:
  "\<exists>data. commitDraft (typedPanel samplePriceText (js ''6'') (js ''1'')) = Some data \<and>
    ps_prices (loadPanel samplePriceText (Some data)) LaneCompletion = js ''1.000000000002''"
  using reopened_price_drifts [OF samplePriceText_eval(3,4,5,6)] by blast

lemma snap_nonneg: "0 \<le> q \<Longrightarrow> 0 \<le> snapFloatDrift q"
proof -
  assume "0 \<le> q"
  then have "0 \<le> roundToDecimals q d" for d by (simp add: roundToDecimals_def add_increasing)
  with \<open>0 \<le> q\<close> show ?thesis by (simp add: snapFloatDrift_def split: option.split)
qed

text \<open>
  The number the editor writes is close to the one it computed: for every price or ratio below
  \<open>10^20\<close> it writes a multiple of \<open>10^-12\<close> that differs by no more than the tolerance of
  \<open>snapFloatDrift\<close> and half a unit of the last digit.
\<close>

lemma formatted_price_close:
  assumes "0 \<le> q" and "q < 10 ^ 20"
  shows "\<exists>n. formatPricingNumber nt q = nt (Fin (of_int n / 10 ^ 12)) \<and>
    \<bar>of_int n / 10 ^ 12 - q\<bar> \<le> snapTolerance q + 1 / 2 / 10 ^ 12"
proof -
  let ?s = "snapFloatDrift q"
  have t: "snapTolerance q \<le> 1 + q" using assms(1) by (auto simp: snapTolerance_def SNAP_EPSILON_def)
  have "0 \<le> ?s" by (rule snap_nonneg [OF assms(1)])
  moreover have "?s < 10 ^ 21" using snap_near [of q] t assms by (simp add: abs_le_iff)
  ultimately have "formatPricingNumber nt q = nt (Fin (rat_of_nat (nat \<lfloor>?s * 10 ^ 12 + 1 / 2\<rfloor>) / 10 ^ 12))"
    by (rule formatPricingNumber_value)
  moreover have "\<bar>rat_of_nat (nat \<lfloor>?s * 10 ^ 12 + 1 / 2\<rfloor>) / 10 ^ 12 - ?s\<bar> \<le> 1 / 2 / 10 ^ 12"
    by (rule nearest_decimal [OF \<open>0 \<le> ?s\<close>])
  moreover from this have "\<bar>rat_of_nat (nat \<lfloor>?s * 10 ^ 12 + 1 / 2\<rfloor>) / 10 ^ 12 - q\<bar> \<le> snapTolerance q + 1 / 2 / 10 ^ 12"
    using snap_near [of q] by (auto simp only: abs_le_iff)
  ultimately show ?thesis by (intro exI [of _ "int (nat \<lfloor>?s * 10 ^ 12 + 1 / 2\<rfloor>)"] conjI) (simp_all only: of_int_of_nat_eq)
qed

lemma formatted_price_close_witness:
  "\<exists>n. formatPricingNumber samplePriceText 3 = samplePriceText (Fin (of_int n / 10 ^ 12)) \<and>
    \<bar>of_int n / 10 ^ 12 - 3\<bar> \<le> snapTolerance 3 + 1 / 2 / 10 ^ 12"
  by (rule formatted_price_close) simp_all

end
