(* ===== verification/Group_Ratios.thy ===== *)
theory Group_Ratios
  imports Pricing_Stored
begin

text \<open>
  The settings of user groups in \<open>features/system-settings/models\<close>: the pricing table of groups,
  the ratio overrides between groups, the order of automatic assignment and the sheet with the
  details of a group (\<open>group-ratio-visual-editor.tsx\<close>), and the rules that show or hide groups
  (\<open>group-special-usable-editor.tsx\<close>). Every part edits JSON texts of the form. A counter gives the
  identifiers of rows and rules. A group name is not one of the inherited members of every object.
\<close>

section \<open>The pricing table\<close>

record GroupPricingRow =
  gp_id :: nat
  gp_name :: jsstr
  gp_ratio :: jsstr
  gp_topupRatio :: jsstr
  gp_selectable :: bool
  gp_description :: jsstr

text \<open>The texts \<open>groupRatio\<close>, \<open>userUsableGroups\<close> and \<open>topupGroupRatio\<close>.\<close>

record GroupTexts =
  gt_groupRatio :: jsstr
  gt_userUsableGroups :: jsstr
  gt_topupGroupRatio :: jsstr

record GroupMaps =
  gm_ratio :: "(jsstr \<times> json) list"
  gm_usable :: "(jsstr \<times> json) list"
  gm_topup :: "(jsstr \<times> json) list"

definition parseGroupMaps :: "GroupTexts \<Rightarrow> table_error + GroupMaps" where
  "parseGroupMaps t =
     (case documentOf (gt_groupRatio t) of
        Inl e \<Rightarrow> Inl e
      | Inr r \<Rightarrow>
         (case documentOf (gt_userUsableGroups t) of
            Inl e \<Rightarrow> Inl e
          | Inr u \<Rightarrow>
             (case documentOf (gt_topupGroupRatio t) of
                Inl e \<Rightarrow> Inl e
              | Inr p \<Rightarrow> Inr \<lparr>gm_ratio = r, gm_usable = u, gm_topup = p\<rparr>)))"

definition finiteOr1 :: "jsnum \<Rightarrow> rat" where
  "finiteOr1 parsed = (case parsed of Fin q \<Rightarrow> q | _ \<Rightarrow> 1)"

definition normalizeRatio :: "(jsnum \<Rightarrow> jsstr) \<Rightarrow> json option \<Rightarrow> rat" where
  "normalizeRatio nt value = finiteOr1 (js_Number (lit nt) value)"

definition groupNames :: "GroupMaps \<Rightarrow> jsstr list" where
  "groupNames m = set_of (keys_of (js_entries (gm_ratio m)) @ keys_of (js_entries (gm_usable m)) @ keys_of (js_entries (gm_topup m)))"

text \<open>\<open>String(map[name] ?? '')\<close>.\<close>

definition textOrEmpty :: "(jsnum \<Rightarrow> jsstr) \<Rightarrow> json option \<Rightarrow> jsstr" where
  "textOrEmpty nt v = (case v of None \<Rightarrow> [] | Some JNull \<Rightarrow> [] | Some w \<Rightarrow> js_String (lit nt) w)"

definition groupRow :: "(jsnum \<Rightarrow> jsstr) \<Rightarrow> GroupMaps \<Rightarrow> nat \<Rightarrow> jsstr \<Rightarrow> GroupPricingRow" where
  "groupRow nt m rowId name =
     \<lparr>gp_id = rowId, gp_name = name, gp_ratio = nt (Fin (normalizeRatio nt (map_of (gm_ratio m) name))),
      gp_topupRatio = (case map_of (gm_topup m) name of Some v \<Rightarrow> js_String (lit nt) v | None \<Rightarrow> []),
      gp_selectable = (map_of (gm_usable m) name \<noteq> None),
      gp_description = textOrEmpty nt (map_of (gm_usable m) name)\<rparr>"

text \<open>The rows and the counter after them.\<close>

definition buildGroupPricingRows :: "(jsnum \<Rightarrow> jsstr) \<Rightarrow> nat \<Rightarrow> GroupTexts \<Rightarrow> table_error + (GroupPricingRow list \<times> nat)" where
  "buildGroupPricingRows nt counter t =
     (case parseGroupMaps t of
        Inl e \<Rightarrow> Inl e
      | Inr m \<Rightarrow>
          let names = groupNames m in
          Inr (map (\<lambda>(i, name). groupRow nt m i name) (zip [Suc counter..<Suc counter + length names] names), counter + length names))"

definition emptyMaps :: GroupMaps where
  "emptyMaps = \<lparr>gm_ratio = [], gm_usable = [], gm_topup = []\<rparr>"

text \<open>The body of the loop over the rows in \<open>serializeGroupPricingRows\<close>.\<close>

definition serializeRow :: "(jsnum \<Rightarrow> jsstr) \<Rightarrow> GroupMaps \<Rightarrow> GroupPricingRow \<Rightarrow> GroupMaps" where
  "serializeRow nt m row =
     (let name = trim (gp_name row); topup = trim (gp_topupRatio row) in
      if name = [] then m
      else m\<lparr>gm_ratio := AList.update name (JNum (nt (Fin (finiteOr1 (number_of_string (gp_ratio row)))))) (gm_ratio m),
        gm_usable := (if gp_selectable row then AList.update name (JStr (gp_description row)) (gm_usable m) else gm_usable m),
        gm_topup := (case number_of_string topup of
            Fin q \<Rightarrow> if topup \<noteq> [] then AList.update name (JNum (nt (Fin q))) (gm_topup m) else gm_topup m
          | _ \<Rightarrow> gm_topup m)\<rparr>)"

definition groupMapsOf :: "(jsnum \<Rightarrow> jsstr) \<Rightarrow> GroupPricingRow list \<Rightarrow> GroupMaps" where
  "groupMapsOf nt rows = foldl (serializeRow nt) emptyMaps rows"

definition serializeGroupPricingRows :: "(jsnum \<Rightarrow> jsstr) \<Rightarrow> GroupPricingRow list \<Rightarrow> GroupTexts" where
  "serializeGroupPricingRows nt rows =
     (let m = groupMapsOf nt rows in
      \<lparr>gt_groupRatio = json_pretty (lit nt) (JObj (gm_ratio m)), gt_userUsableGroups = json_pretty (lit nt) (JObj (gm_usable m)),
       gt_topupGroupRatio = json_pretty (lit nt) (JObj (gm_topup m))\<rparr>)"

definition sourceGroupPricingSignature :: "(jsnum \<Rightarrow> jsstr) \<Rightarrow> GroupTexts \<Rightarrow> jsstr" where
  "sourceGroupPricingSignature nt t =
     json_stringify (lit nt) (JObj
       [(js ''groupRatio'', safeJsonParse (gt_groupRatio t) (JObj [])),
        (js ''userUsableGroups'', safeJsonParse (gt_userUsableGroups t) (JObj [])),
        (js ''topupGroupRatio'', safeJsonParse (gt_topupGroupRatio t) (JObj []))])"

definition groupPricingSignature :: "(jsnum \<Rightarrow> jsstr) \<Rightarrow> GroupPricingRow list \<Rightarrow> jsstr" where
  "groupPricingSignature nt rows = sourceGroupPricingSignature nt (serializeGroupPricingRows nt rows)"

record GroupTable =
  gs_rows :: "GroupPricingRow list"
  gs_counter :: nat
  gs_texts :: GroupTexts

text \<open>The effect that follows new texts: rows that stand for them stay as they are.\<close>

definition followTexts :: "(jsnum \<Rightarrow> jsstr) \<Rightarrow> GroupTable \<Rightarrow> table_error + GroupTable" where
  "followTexts nt st =
     (if groupPricingSignature nt (gs_rows st) = sourceGroupPricingSignature nt (gs_texts st) then Inr st
      else map_sum id (\<lambda>(rows, counter). st\<lparr>gs_rows := rows, gs_counter := counter\<rparr>)
        (buildGroupPricingRows nt (gs_counter st) (gs_texts st)))"

definition emitRows :: "(jsnum \<Rightarrow> jsstr) \<Rightarrow> GroupPricingRow list \<Rightarrow> GroupTable \<Rightarrow> GroupTable" where
  "emitRows nt nextRows st = st\<lparr>gs_rows := nextRows, gs_texts := serializeGroupPricingRows nt nextRows\<rparr>"

datatype RowField = RowName jsstr | RowRatio jsstr | RowTopup jsstr | RowSelectable bool | RowDescription jsstr

fun setRowField :: "RowField \<Rightarrow> GroupPricingRow \<Rightarrow> GroupPricingRow" where
  "setRowField (RowName v) row = row\<lparr>gp_name := v\<rparr>"
| "setRowField (RowRatio v) row = row\<lparr>gp_ratio := v\<rparr>"
| "setRowField (RowTopup v) row = row\<lparr>gp_topupRatio := v\<rparr>"
| "setRowField (RowSelectable b) row = row\<lparr>gp_selectable := b\<rparr>"
| "setRowField (RowDescription v) row = row\<lparr>gp_description := v\<rparr>"

definition updateRow :: "(jsnum \<Rightarrow> jsstr) \<Rightarrow> nat \<Rightarrow> RowField \<Rightarrow> GroupTable \<Rightarrow> GroupTable" where
  "updateRow nt rowId field st = emitRows nt (map (\<lambda>row. if gp_id row = rowId then setRowField field row else row) (gs_rows st)) st"

definition group_name :: "nat \<Rightarrow> jsstr" where
  "group_name index = js ''group_'' @ show_nat index"

lemma group_name_inj: "group_name a = group_name b \<longleftrightarrow> a = b"
  by (simp add: group_name_def)

text \<open>
  The loop that looks for an unused name. It ends because every step passes one of the finitely
  many names in use.
\<close>

function freshIndex :: "jsstr list \<Rightarrow> nat \<Rightarrow> nat" where
  "freshIndex existingNames index =
     (if group_name index \<in> set existingNames then freshIndex existingNames (Suc index) else index)"
  by pat_completeness auto
termination
proof (relation "measure (\<lambda>(names, index). card {n. index \<le> n \<and> group_name n \<in> set names})")
  fix names :: "jsstr list" and index
  assume used: "group_name index \<in> set names"
  have "finite {n. index \<le> n \<and> group_name n \<in> set names}"
    by (rule finite_subset [of _ "group_name -` set names"]) (auto intro: finite_vimageI simp: inj_def group_name_inj)
  moreover have "{n. Suc index \<le> n \<and> group_name n \<in> set names} \<subset> {n. index \<le> n \<and> group_name n \<in> set names}"
  proof
    have "index \<in> {n. index \<le> n \<and> group_name n \<in> set names}" "index \<notin> {n. Suc index \<le> n \<and> group_name n \<in> set names}"
      using used by simp_all
    then show "{n. Suc index \<le> n \<and> group_name n \<in> set names} \<noteq> {n. index \<le> n \<and> group_name n \<in> set names}" by metis
  qed auto
  ultimately show "((names, Suc index), names, index) \<in> measure (\<lambda>(names, index). card {n. index \<le> n \<and> group_name n \<in> set names})"
    by (simp add: psubset_card_mono)
qed simp

declare freshIndex.simps [simp del]

definition addRow :: "(jsnum \<Rightarrow> jsstr) \<Rightarrow> GroupTable \<Rightarrow> GroupTable" where
  "addRow nt st =
     (let name = group_name (freshIndex (map gp_name (gs_rows st)) 1); rowId = Suc (gs_counter st) in
      emitRows nt (gs_rows st @ [\<lparr>gp_id = rowId, gp_name = name, gp_ratio = js ''1'', gp_topupRatio = [],
        gp_selectable = True, gp_description = []\<rparr>]) (st\<lparr>gs_counter := rowId\<rparr>))"

definition removeRow :: "(jsnum \<Rightarrow> jsstr) \<Rightarrow> nat \<Rightarrow> GroupTable \<Rightarrow> GroupTable" where
  "removeRow nt rowId st = emitRows nt (filter (\<lambda>row. gp_id row \<noteq> rowId) (gs_rows st)) st"

definition duplicateNames :: "GroupPricingRow list \<Rightarrow> jsstr list" where
  "duplicateNames rows =
     (let counts = foldl (\<lambda>m row. let name = trim (gp_name row) in
        if name = [] then m else upsert name 0 (\<lambda>n. n + 1) m) [] rows in
      map fst (filter (\<lambda>(name, count). count > (1 :: nat)) counts))"

section \<open>Registry and automatic assignment\<close>

record RegistryEntry =
  re_name :: jsstr
  re_ratio :: rat

definition registry :: "(jsnum \<Rightarrow> jsstr) \<Rightarrow> GroupMaps \<Rightarrow> RegistryEntry list" where
  "registry nt m = map (\<lambda>name. \<lparr>re_name = name, re_ratio = normalizeRatio nt (map_of (gm_ratio m) name)\<rparr>) (groupNames m)"

definition autoGroupsList :: "jsstr \<Rightarrow> table_error + json list" where
  "autoGroupsList autoGroups =
     (case safeJsonParse autoGroups (JArr []) of JArr xs \<Rightarrow> Inr xs | JNull \<Rightarrow> Inl NullDocument | _ \<Rightarrow> Inl NotAnObject)"

definition handleAutoGroupAdd :: "jsstr \<Rightarrow> json list \<Rightarrow> json list" where
  "handleAutoGroupAdd name gs = (if JStr name \<in> set gs then gs else gs @ [JStr name])"

definition handleAutoGroupDelete :: "nat \<Rightarrow> json list \<Rightarrow> json list" where
  "handleAutoGroupDelete index gs = map snd (filter (\<lambda>(i, x). i \<noteq> index) (zip [0..<length gs] gs))"

datatype MoveDirection = MoveUp | MoveDown

definition handleAutoGroupMove :: "nat \<Rightarrow> MoveDirection \<Rightarrow> json list \<Rightarrow> json list" where
  "handleAutoGroupMove index direction gs =
     (if direction = MoveUp \<and> index = 0 then gs
      else let newIndex = (if direction = MoveUp then index - 1 else index + 1) in
      if newIndex \<ge> length gs then gs else gs[index := gs ! newIndex, newIndex := gs ! index])"

definition autoGroupCandidates :: "jsstr list \<Rightarrow> json list \<Rightarrow> jsstr list" where
  "autoGroupCandidates registryNames gs = filter (\<lambda>name. JStr name \<notin> set gs) registryNames"

definition nameSelectOptions :: "jsstr \<Rightarrow> jsstr list \<Rightarrow> jsstr list" where
  "nameSelectOptions value opts = (if value \<noteq> [] \<and> value \<notin> set opts then value # opts else opts)"

section \<open>Ratio overrides\<close>

text \<open>The inner object of a user group; a missing one counts as empty.\<close>

definition innerMap :: "(jsstr \<times> json) list \<Rightarrow> jsstr \<Rightarrow> table_error + (jsstr \<times> json) list" where
  "innerMap m userGroup =
     (case map_of m userGroup of
        None \<Rightarrow> Inr []
      | Some v \<Rightarrow> if \<not> truthy v then Inr [] else case v of JObj inner \<Rightarrow> Inr inner | _ \<Rightarrow> Inl NotAnObject)"

definition handleUserGroupSave :: "jsstr \<Rightarrow> (jsstr \<times> json) list \<Rightarrow> (jsstr \<times> json) list" where
  "handleUserGroupSave userGroupInput m =
     (if userGroupInput = [] then m
      else if is_truthy (map_of m userGroupInput) then m else AList.update userGroupInput (JObj []) m)"

definition handleUserGroupDelete :: "jsstr \<Rightarrow> (jsstr \<times> json) list \<Rightarrow> (jsstr \<times> json) list" where
  "handleUserGroupDelete userGroup m = AList.delete userGroup m"

text \<open>A number in a JSON text: infinities and \<open>NaN\<close> are written as \<open>null\<close>.\<close>

definition numberJson :: "(jsnum \<Rightarrow> jsstr) \<Rightarrow> jsnum \<Rightarrow> json" where
  "numberJson nt x = (case x of Fin q \<Rightarrow> JNum (nt (Fin q)) | _ \<Rightarrow> JNull)"

definition handleOverrideSave :: "(jsnum \<Rightarrow> jsstr) \<Rightarrow> jsstr \<Rightarrow> jsstr \<Rightarrow> jsnum \<Rightarrow> jsstr \<Rightarrow> (jsstr \<times> json) list \<Rightarrow> table_error + (jsstr \<times> json) list" where
  "handleOverrideSave nt userGroup targetGroup ratio oldTargetGroup m =
     (if userGroup = [] then Inr m
      else case innerMap m userGroup of
          Inl e \<Rightarrow> Inl e
        | Inr inner \<Rightarrow>
            let inner1 = (if oldTargetGroup \<noteq> [] \<and> oldTargetGroup \<noteq> targetGroup then AList.delete oldTargetGroup inner else inner) in
            Inr (AList.update userGroup (JObj (AList.update targetGroup (numberJson nt ratio) inner1)) m))"

definition handleOverrideDelete :: "jsstr \<Rightarrow> jsstr \<Rightarrow> (jsstr \<times> json) list \<Rightarrow> table_error + (jsstr \<times> json) list" where
  "handleOverrideDelete userGroup targetGroup m =
     (if \<not> is_truthy (map_of m userGroup) then Inr m
      else case innerMap m userGroup of
          Inl e \<Rightarrow> Inl e
        | Inr inner \<Rightarrow>
            let inner1 = AList.delete targetGroup inner in
            Inr (if inner1 = [] then AList.delete userGroup m else AList.update userGroup (JObj inner1) m))"

text \<open>The dialog: what it accepts while typing and what it hands on.\<close>

definition ratioInputAccepts :: "jsstr \<Rightarrow> bool" where
  "ratioInputAccepts v \<longleftrightarrow> v = [] \<or> parse_float v \<noteq> NaN"

definition overrideDialogSave :: "jsstr \<Rightarrow> jsstr \<Rightarrow> (jsstr \<times> jsnum) option" where
  "overrideDialogSave targetGroup ratio =
     (if targetGroup = [] \<or> trim ratio = [] then None
      else let parsedRatio = parse_float ratio in if parsedRatio = NaN then None else Some (targetGroup, parsedRatio))"

section \<open>Details of a group\<close>

definition parseSpecialGroupKey :: "jsstr \<Rightarrow> bool \<times> jsstr" where
  "parseSpecialGroupKey rawKey =
     (if starts_with rawKey (js ''-:'') then (False, drop 2 rawKey)
      else if starts_with rawKey (js ''+:'') then (True, drop 2 rawKey) else (True, rawKey))"

record VisibilityRule =
  vr_userGroup :: jsstr
  vr_visible :: bool
  vr_description :: jsstr

record GroupDetail =
  gd_ratio :: "rat option"
  gd_topupRatio :: "jsstr option"
  gd_selectable :: bool
  gd_description :: jsstr
  gd_incoming :: "(jsstr \<times> json) list"
  gd_outgoing :: "(jsstr \<times> json) list"
  gd_visibility :: "VisibilityRule list"
  gd_autoIndex :: "nat option"

definition is_object :: "json \<Rightarrow> bool" where
  "is_object v = (case v of JObj m \<Rightarrow> True | JArr xs \<Rightarrow> True | _ \<Rightarrow> False)"

definition visibilityRules :: "jsstr \<Rightarrow> (jsstr \<times> json) list \<Rightarrow> VisibilityRule list" where
  "visibilityRules name specialMap =
     concat (map (\<lambda>(userGroup, inner).
       if \<not> is_object inner then []
       else List.map_filter (\<lambda>(rawKey, desc).
         case parseSpecialGroupKey rawKey of (visible, groupName) \<Rightarrow>
           if groupName \<noteq> name then None
           else Some \<lparr>vr_userGroup = userGroup, vr_visible = visible,
             vr_description = (case desc of JStr s \<Rightarrow> s | _ \<Rightarrow> [])\<rparr>) (js_entries (own_props inner))) (js_entries specialMap))"

definition groupDetail :: "(jsnum \<Rightarrow> jsstr) \<Rightarrow> GroupMaps \<Rightarrow> (jsstr \<times> json) list \<Rightarrow> (jsstr \<times> json) list \<Rightarrow> json list \<Rightarrow> jsstr \<Rightarrow>
    table_error + GroupDetail" where
  "groupDetail nt m overrideMap specialMap autoGroups name =
     (if JNull \<in> set (map snd overrideMap) then Inl NullDocument
      else Inr \<lparr>gd_ratio = map_option re_ratio (List.find (\<lambda>e. re_name e = name) (registry nt m)),
        gd_topupRatio = map_option (js_String (lit nt)) (map_of (gm_topup m) name),
        gd_selectable = (map_of (gm_usable m) name \<noteq> None), gd_description = textOrEmpty nt (map_of (gm_usable m) name),
        gd_incoming = List.map_filter (\<lambda>(userGroup, overrides).
          map_option (Pair userGroup) (map_of (own_props overrides) name)) (js_entries overrideMap),
        gd_outgoing = (case map_of overrideMap name of None \<Rightarrow> [] | Some v \<Rightarrow> js_entries (own_props v)),
        gd_visibility = visibilityRules name specialMap,
        gd_autoIndex = find_index (\<lambda>v. v = JStr name) autoGroups\<rparr>)"

section \<open>Rules that show or hide groups\<close>

record UsableRule =
  ur_id :: nat
  ur_userGroup :: jsstr
  ur_visible :: bool
  ur_targetGroup :: jsstr
  ur_description :: jsstr

definition toRawKey :: "bool \<Rightarrow> jsstr \<Rightarrow> jsstr" where
  "toRawKey visible groupName = (if visible then js ''+:'' @ groupName else js ''-:'' @ groupName)"

definition safeParseJson :: "jsstr \<Rightarrow> json" where
  "safeParseJson str = (if trim str = [] then JObj [] else case json_parse str of Some v \<Rightarrow> v | None \<Rightarrow> JObj [])"

definition removeText :: jsstr where
  "removeText = js ''remove''"

definition flatRule :: "jsstr \<Rightarrow> jsstr \<times> json \<Rightarrow> nat \<Rightarrow> UsableRule" where
  "flatRule userGroup entry ruleId =
     (case (parseSpecialGroupKey (fst entry), snd entry) of ((visible, groupName), desc) \<Rightarrow>
        \<lparr>ur_id = ruleId, ur_userGroup = userGroup, ur_visible = visible, ur_targetGroup = groupName,
         ur_description = (if \<not> visible then removeText else case desc of JStr s \<Rightarrow> s | _ \<Rightarrow> [])\<rparr>)"

definition flatEntries :: "(jsstr \<times> json) list \<Rightarrow> (jsstr \<times> jsstr \<times> json) list" where
  "flatEntries nested =
     concat (map (\<lambda>(userGroup, inner). if is_object inner then map (Pair userGroup) (js_entries (own_props inner)) else [])
       (js_entries nested))"

definition flattenRules :: "nat \<Rightarrow> json \<Rightarrow> table_error + UsableRule list" where
  "flattenRules counter nested =
     (case nested of
        JNull \<Rightarrow> Inl NullDocument
      | v \<Rightarrow> let es = flatEntries (own_props v) in
          Inr (map (\<lambda>((g, e), i). flatRule g e i) (zip es [Suc counter..<Suc counter + length es])))"

definition putRule :: "(jsstr \<times> (jsstr \<times> json) list) list \<Rightarrow> UsableRule \<Rightarrow> (jsstr \<times> (jsstr \<times> json) list) list" where
  "putRule m r =
     (if ur_userGroup r = [] \<or> ur_targetGroup r = [] then m
      else upsert (ur_userGroup r) [] (AList.update (toRawKey (ur_visible r) (ur_targetGroup r)) (JStr (ur_description r))) m)"

definition serializeRules :: "(jsnum \<Rightarrow> jsstr) \<Rightarrow> UsableRule list \<Rightarrow> jsstr" where
  "serializeRules nt rules =
     (let result = foldl putRule [] rules in
      if result = [] then js ''{}'' else json_pretty (lit nt) (JObj (map (\<lambda>(g, inner). (g, JObj inner)) result)))"

record UsableEditor =
  ue_rules :: "UsableRule list"
  ue_counter :: nat
  ue_text :: jsstr

definition emitChange :: "(jsnum \<Rightarrow> jsstr) \<Rightarrow> UsableRule list \<Rightarrow> UsableEditor \<Rightarrow> UsableEditor" where
  "emitChange nt newRules st = st\<lparr>ue_rules := newRules, ue_text := serializeRules nt newRules\<rparr>"

datatype RuleField = RuleVisible bool | RuleTarget jsstr | RuleDescription jsstr

fun setRuleField :: "RuleField \<Rightarrow> UsableRule \<Rightarrow> UsableRule" where
  "setRuleField (RuleVisible v) r =
     (if \<not> v then r\<lparr>ur_visible := False, ur_description := removeText\<rparr>
      else if \<not> ur_visible r \<and> ur_description r = removeText then r\<lparr>ur_visible := True, ur_description := []\<rparr>
      else r\<lparr>ur_visible := True\<rparr>)"
| "setRuleField (RuleTarget v) r = r\<lparr>ur_targetGroup := v\<rparr>"
| "setRuleField (RuleDescription v) r = r\<lparr>ur_description := v\<rparr>"

definition updateRule :: "(jsnum \<Rightarrow> jsstr) \<Rightarrow> nat \<Rightarrow> RuleField \<Rightarrow> UsableEditor \<Rightarrow> UsableEditor" where
  "updateRule nt ruleId field st = emitChange nt (map (\<lambda>r. if ur_id r \<noteq> ruleId then r else setRuleField field r) (ue_rules st)) st"

definition removeRule :: "(jsnum \<Rightarrow> jsstr) \<Rightarrow> nat \<Rightarrow> UsableEditor \<Rightarrow> UsableEditor" where
  "removeRule nt ruleId st = emitChange nt (filter (\<lambda>r. ur_id r \<noteq> ruleId) (ue_rules st)) st"

definition removeGroup :: "(jsnum \<Rightarrow> jsstr) \<Rightarrow> jsstr \<Rightarrow> UsableEditor \<Rightarrow> UsableEditor" where
  "removeGroup nt groupName st = emitChange nt (filter (\<lambda>r. ur_userGroup r \<noteq> groupName) (ue_rules st)) st"

definition addRuleToGroup :: "(jsnum \<Rightarrow> jsstr) \<Rightarrow> jsstr \<Rightarrow> UsableEditor \<Rightarrow> UsableEditor" where
  "addRuleToGroup nt groupName st =
     emitChange nt (ue_rules st @ [\<lparr>ur_id = Suc (ue_counter st), ur_userGroup = groupName, ur_visible = True, ur_targetGroup = [],
       ur_description = []\<rparr>]) (st\<lparr>ue_counter := Suc (ue_counter st)\<rparr>)"

definition groupedRules :: "UsableRule list \<Rightarrow> (jsstr \<times> UsableRule list) list" where
  "groupedRules rules =
     foldl (\<lambda>m r. if ur_userGroup r = [] then m else upsert (ur_userGroup r) [] (\<lambda>rs. rs @ [r]) m) [] rules"

definition newGroupCandidates :: "jsstr list \<Rightarrow> UsableRule list \<Rightarrow> jsstr list" where
  "newGroupCandidates groupOptions rules = filter (\<lambda>name. name \<notin> set (keys_of (groupedRules rules))) groupOptions"

end
