(* ===== verification/Save_Claims.thy ===== *)
theory Save_Claims
  imports Pricing_Save
begin

text \<open>
  The properties of saving the price settings: a page that nobody edited sends nothing, a save
  sends exactly the options that changed, what the options that arrive during a save do to the form,
  and where a refused option counts as saved.
\<close>

section \<open>Normal forms\<close>

text \<open>The order of keys does not depend on the values, and enumerating twice changes nothing.\<close>

lemma sort_insert_map:
  "sort_insert cmp (f x) (map f xs) = map f (sort_insert (\<lambda>a b. cmp (f a) (f b)) x xs)"
  by (induction xs) simp_all

lemma js_sort_map_keys: "js_sort cmp (map f xs) = map f (js_sort (\<lambda>a b. cmp (f a) (f b)) xs)"
  by (induction xs) (simp_all add: sort_insert_map)

lemma js_entries_map: "js_entries (map (\<lambda>(k, v). (k, g v)) m) = map (\<lambda>(k, v). (k, g v)) (js_entries m)"
  by (simp add: js_entries_def filter_map comp_def case_prod_unfold js_sort_map_keys cmp_key_def [abs_def])

lemma index_order: "consistent_comparator (cmp_key (\<lambda>e. int (parse_digits (fst e))) cmp_num :: (jsstr \<times> 'a) cmp)"
  by (intro consistent_intros)

lemma js_entries_idem: "js_entries (js_entries m) = js_entries m"
proof -
  let ?cmp = "cmp_key (\<lambda>e. int (parse_digits (fst e))) cmp_num :: (jsstr \<times> 'a) cmp"
  have s: "js_sort ?cmp (js_sort ?cmp xs) = js_sort ?cmp xs" for xs :: "(jsstr \<times> 'a) list"
    by (rule consistent_comparator.js_sort_unique [OF index_order, symmetric])
      (simp_all add: consistent_comparator.sorted_js_sort [OF index_order])
  have "filter (\<lambda>e. is_index (fst e)) (js_sort ?cmp (filter (\<lambda>e. is_index (fst e)) m)) = js_sort ?cmp (filter (\<lambda>e. is_index (fst e)) m)"
    "filter (\<lambda>e. \<not> is_index (fst e)) (js_sort ?cmp (filter (\<lambda>e. is_index (fst e)) m)) = []"
    by (auto simp: filter_id_conv filter_empty_conv)
  then show ?thesis by (simp add: js_entries_def s)
qed

lemma json_canon_idem:
  "stable_numbers nt \<Longrightarrow> printable v \<Longrightarrow> json_canon (lit nt) (json_canon (lit nt) v) = json_canon (lit nt) v"
proof (induction v)
  case (JObj m)
  have "map (\<lambda>(k, v). (k, json_canon (lit nt) v)) (map (\<lambda>(k, v). (k, json_canon (lit nt) v)) m) =
    map (\<lambda>(k, v). (k, json_canon (lit nt) v)) m"
    using JObj by (force simp: list_all_iff)
  then show ?case by (simp only: json_canon.simps js_entries_map [symmetric] js_entries_idem)
qed (auto simp: stable_numbers_def list_all_iff)

text \<open>The text of the form and the stored text have the same normal form.\<close>

lemma normalize_formatted:
  assumes "stable_numbers nt"
  shows "normalizeJsonString nt (formatJsonForTextarea nt s) = normalizeJsonString nt s"
proof (cases "trim s = [] \<or> json_parse s = None")
  case False
  then obtain v where v: "json_parse s = Some v" by auto
  have p: "printable v" by (rule json_parse_printable [OF v])
  have w: "writes_numbers (lit nt)" using assms by (simp add: stable_numbers_def)
  have "json_parse (json_pretty (lit nt) v) = Some (json_canon (lit nt) v)" by (rule json_parse_stringify(2) [OF canon_printable [OF w p]])
  then have t: "json_parse (trim (json_pretty (lit nt) v)) = Some (json_canon (lit nt) v)" by (rule json_parse_trim)
  then have ne: "trim (json_pretty (lit nt) v) \<noteq> []" by (auto simp: json_parse_def)
  have "json_stringify (lit nt) (json_canon (lit nt) v) = json_stringify (lit nt) v"
    by (simp add: json_stringify_def json_canon_idem [OF assms p])
  with False v t ne json_parse_trim [OF v] show ?thesis by (simp add: formatJsonForTextarea_def normalizeJsonString_def)
qed (auto simp: formatJsonForTextarea_def normalizeJsonString_def)

section \<open>Requests\<close>

lemma valueOf_eq: "(\<And>x. mv_options a x = mv_options b x) \<Longrightarrow> mv_expose a = mv_expose b \<Longrightarrow> valueOf a k = valueOf b k"
  by (cases k) simp_all

lemma normalized_defaults:
  "stable_numbers nt \<Longrightarrow> valueOf (normalizeModelValues nt (modelFormDefaults nt v)) k = valueOf (normalizeModelValues nt v) k"
  by (rule valueOf_eq) (simp_all add: normalizeModelValues_def modelFormDefaults_def normalize_formatted)

lemma sendUpdates_all: "list_all (\<lambda>req. reply req \<noteq> Failed) reqs \<Longrightarrow> sendUpdates reply reqs = (reqs, True)"
  by (induction reqs) simp_all

lemma sendUpdates_failed:
  "\<not> list_all (\<lambda>req. reply req \<noteq> Failed) reqs \<Longrightarrow>
    \<exists>before req after. reqs = before @ req # after \<and> sendUpdates reply reqs = (before @ [req], False) \<and>
      list_all (\<lambda>r. reply r \<noteq> Failed) before \<and> reply req = Failed"
proof (induction reqs)
  case (Cons r reqs)
  show ?case
  proof (cases "reply r = Failed")
    case True
    then have "sendUpdates reply (r # reqs) = ([] @ [r], False)" by simp
    with True show ?thesis by (intro exI [of _ "[]"] exI [of _ r] exI [of _ reqs]) simp
  next
    case False
    with Cons obtain before req after where "reqs = before @ req # after" "sendUpdates reply reqs = (before @ [req], False)"
      "list_all (\<lambda>r. reply r \<noteq> Failed) before" "reply req = Failed" by auto
    with False show ?thesis by (intro exI [of _ "r # before"] exI [of _ req] exI [of _ after]) simp
  qed
qed simp

lemma nothing_changed: "changedRequests v v = []"
  by (simp add: changedRequests_def)

lemma follow_last:
  "foldl (followModelDefaults nt) form ds = (if ds = [] then form else openModelForm nt (last ds))"
  by (induction ds rule: rev_induct) (simp_all add: followModelDefaults_def openModelForm_def)

lemma opened_form_saves_nothing:
  assumes "stable_numbers nt"
  shows "saveModelRatios nt reply arrivals (mf_values (openModelForm nt stored)) (openModelForm nt stored) =
    (NothingToSave, [], openModelForm nt stored)"
proof -
  have "changedRequests (normalizeModelValues nt (modelFormDefaults nt stored)) (normalizeModelValues nt stored) = []"
    by (simp add: changedRequests_def normalized_defaults [OF assms])
  then show ?thesis by (simp add: saveModelRatios_def openModelForm_def)
qed

text \<open>
  C21: opening the page and saving without an edit sends nothing, whatever the stored texts look
  like: the form shows them indented, and the text of the form and the stored text have the same
  normal form.
\<close>

theorem untouched_page_sends_nothing:
  assumes "stable_numbers nt"
  shows "saveModelRatios nt reply arrivals (modelFormDefaults nt stored) (openModelForm nt stored) =
    (NothingToSave, [], openModelForm nt stored)"
  using opened_form_saves_nothing [OF assms, of reply arrivals stored] by (simp add: openModelForm_def)

theorem untouched_page_sends_nothing_witness:
  "saveModelRatios samplePriceText (\<lambda>_. Accepted) (\<lambda>_. [])
      (modelFormDefaults samplePriceText \<lparr>mv_options = samplePriceOptions, mv_expose = True\<rparr>)
      (openModelForm samplePriceText \<lparr>mv_options = samplePriceOptions, mv_expose = True\<rparr>) =
    (NothingToSave, [], openModelForm samplePriceText \<lparr>mv_options = samplePriceOptions, mv_expose = True\<rparr>)"
  by (rule untouched_page_sends_nothing [OF sample_stable])

text \<open>
  C22: a save sends one request for every option whose normal form differs from the saved one, in
  the order of the options and with the normal form as its value, whatever options arrive from the
  server meanwhile. When no request fails, all are sent and the new values count as saved. When one
  fails, exactly the requests up to it were sent. If no options arrived until then, the form and
  the saved values are as before; otherwise both are those of the options that arrived last, so
  that the edits of the options that were not yet sent are gone and saving again sends nothing.
\<close>

theorem save_sends_changes:
  assumes "stable_numbers nt" and "changedRequests (normalizeModelValues nt v) (mf_saved form) = reqs" and "reqs \<noteq> []"
  shows "if list_all (\<lambda>r. reply r \<noteq> Failed) reqs
    then \<exists>form'. saveModelRatios nt reply arrivals v form = (SaveDone, reqs, form') \<and> mf_saved form' = normalizeModelValues nt v
    else \<exists>before req after form'. reqs = before @ req # after \<and> list_all (\<lambda>r. reply r \<noteq> Failed) before \<and> reply req = Failed \<and>
      saveModelRatios nt reply arrivals v form = (SaveFailed, before @ [req], form') \<and>
      (let arrived = concat (map arrivals (before @ [req])) in
       if arrived = [] then form' = form
       else form' = openModelForm nt (last arrived) \<and>
         saveModelRatios nt reply' arrivals' (mf_values form') form' = (NothingToSave, [], form'))"
proof (cases "list_all (\<lambda>r. reply r \<noteq> Failed) reqs")
  case True
  then show ?thesis using assms(2,3) sendUpdates_all [of reply reqs] by (auto simp: saveModelRatios_def Let_def)
next
  case False
  then obtain before req after where s: "reqs = before @ req # after" "sendUpdates reply reqs = (before @ [req], False)"
      "list_all (\<lambda>r. reply r \<noteq> Failed) before" "reply req = Failed"
    using sendUpdates_failed by blast
  define form' where "form' = foldl (followModelDefaults nt) form (concat (map arrivals (before @ [req])))"
  have "saveModelRatios nt reply arrivals v form = (SaveFailed, before @ [req], form')"
    using assms(2,3) s(2) by (simp add: saveModelRatios_def Let_def form'_def)
  moreover have "let arrived = concat (map arrivals (before @ [req])) in
       if arrived = [] then form' = form
       else form' = openModelForm nt (last arrived) \<and>
         saveModelRatios nt reply' arrivals' (mf_values form') form' = (NothingToSave, [], form')"
    using opened_form_saves_nothing [OF assms(1)] unfolding Let_def form'_def follow_last by (simp del: concat_eq_Nil_conv)
  ultimately show ?thesis using False s by (simp only: if_False) blast
qed

text \<open>
  C39: an option the server refuses counts as saved. The answer with \<open>success: false\<close> does not end
  the loop, the refused value becomes the one the next save compares with, and saving the same
  values again, with a server that would accept them, sends nothing.
\<close>

theorem refused_option_counts_as_saved:
  assumes "changedRequests (normalizeModelValues nt v) (mf_saved form) \<noteq> []"
    and "saveModelRatios nt (\<lambda>_. Refused) arrivals v form = (outcome, sent, form')"
  shows "outcome = SaveDone \<and> sent = changedRequests (normalizeModelValues nt v) (mf_saved form) \<and>
    list_all (\<lambda>req. updateOption (\<lambda>_. Refused) req = [ToastError]) sent \<and>
    saveModelRatios nt (\<lambda>_. Accepted) arrivals' v form' = (NothingToSave, [], form')"
proof -
  have "sendUpdates (\<lambda>_. Refused) reqs = (reqs, True)" for reqs by (simp add: sendUpdates_all list_all_iff)
  then have "outcome = SaveDone" "sent = changedRequests (normalizeModelValues nt v) (mf_saved form)" "mf_saved form' = normalizeModelValues nt v"
    using assms by (auto simp: saveModelRatios_def Let_def)
  then show ?thesis by (simp add: saveModelRatios_def nothing_changed updateOption_def list_all_iff)
qed

definition sampleChange :: "ModelFormValues \<times> ModelForm" where
  "sampleChange = (\<lparr>mv_options = emptyOptions, mv_expose = True\<rparr>,
     \<lparr>mf_values = \<lparr>mv_options = emptyOptions, mv_expose = True\<rparr>, mf_saved = \<lparr>mv_options = emptyOptions, mv_expose = False\<rparr>\<rparr>)"

lemma sample_change:
  "changedRequests (normalizeModelValues nt (fst sampleChange)) (mf_saved (snd sampleChange)) = [(js ''ExposeRatioEnabled'', FlagValue True)]"
  by (simp add: changedRequests_def sampleChange_def normalizeModelValues_def emptyOptions_def normalizeJsonString_def saveOrder_def
      priceOptions_def)

theorem save_sends_changes_witness:
  "saveModelRatios samplePriceText (\<lambda>_. Failed) (\<lambda>_. []) (fst sampleChange) (snd sampleChange) =
    (SaveFailed, [(js ''ExposeRatioEnabled'', FlagValue True)], snd sampleChange)"
  using save_sends_changes [OF sample_stable sample_change, of "\<lambda>_. Failed" "\<lambda>_. []"] by (auto simp: Cons_eq_append_conv)

theorem refused_option_counts_as_saved_witness:
  "\<exists>form'. saveModelRatios samplePriceText (\<lambda>_. Refused) (\<lambda>_. []) (fst sampleChange) (snd sampleChange) =
      (SaveDone, [(js ''ExposeRatioEnabled'', FlagValue True)], form') \<and>
    saveModelRatios samplePriceText (\<lambda>_. Accepted) (\<lambda>_. []) (fst sampleChange) form' = (NothingToSave, [], form')"
  using refused_option_counts_as_saved [of samplePriceText "fst sampleChange" "snd sampleChange" "\<lambda>_. []"] sample_change [of samplePriceText]
  by (cases "saveModelRatios samplePriceText (\<lambda>_. Refused) (\<lambda>_. []) (fst sampleChange) (snd sampleChange)") auto

section \<open>Positions\<close>

text \<open>
  The line and the column that are shown for an error give its position back: the lengths of the
  lines before, one line feed after each, and the characters before the column.
\<close>

lemma length_join: "ls \<noteq> [] \<Longrightarrow> length (join [c] ls) = sum_list (map length (butlast ls)) + (length ls - 1) + length (last ls)"
  by (induction "[c]" ls rule: join.induct) auto

lemma error_position_exact:
  assumes "position \<le> length s"
  shows "position = sum_list (map length (butlast (split_on 10 (take position s)))) +
    (fst (getLineAndColumn s position) - 1) + (snd (getLineAndColumn s position) - 1)"
  using length_join [OF split_on_ne, of 10 10 "take position s"] assms by (simp add: getLineAndColumn_def Let_def join_split_on)

lemma missing_comma_before: "ve_missingCommaLine (buildSyntaxError m s) = Some l \<Longrightarrow> ep_line (extractErrorPosition m s) = Some (Suc l) \<and> 0 < l"
  by (auto simp: buildSyntaxError_def Let_def split: option.splits if_splits)

end
