(* ===== verification/Group_Claims.thy ===== *)
theory Group_Claims
  imports Group_Ratios Save_Claims
begin

text \<open>
  The properties of the group settings: the pricing table and the rules that show or hide groups
  are read back as they were written, a new group gets an unused name after a bounded search, and
  a ratio that is left blank makes the group free of charge.
\<close>

section \<open>The pricing table\<close>

text \<open>A row as the table shows it after loading: trimmed, numbers by their own text.\<close>

definition row_ok :: "(jsnum \<Rightarrow> jsstr) \<Rightarrow> GroupPricingRow \<Rightarrow> bool" where
  "row_ok nt row \<longleftrightarrow> gp_name row \<noteq> [] \<and> trim (gp_name row) = gp_name row \<and> gp_ratio row \<noteq> [] \<and> own_text nt (gp_ratio row) \<and>
     own_text nt (gp_topupRatio row) \<and> trim (gp_topupRatio row) = gp_topupRatio row \<and> (gp_selectable row \<or> gp_description row = [])"

definition rowFields :: "GroupPricingRow \<Rightarrow> jsstr \<times> jsstr \<times> jsstr \<times> bool \<times> jsstr" where
  "rowFields row = (gp_name row, gp_ratio row, gp_topupRatio row, gp_selectable row, gp_description row)"

lemma own_number:
  "own_text nt v \<Longrightarrow> v \<noteq> [] \<Longrightarrow> \<exists>q. number_of_string v = Fin q \<and> nt (Fin q) = v"
  by (cases "parse_float v") (auto simp: own_text_def lit_def)

text \<open>What rows with different names are written as.\<close>

definition ratioEntries :: "GroupPricingRow list \<Rightarrow> (jsstr \<times> json) list" where
  "ratioEntries rows = map (\<lambda>r. (gp_name r, JNum (gp_ratio r))) rows"

definition usableEntries :: "GroupPricingRow list \<Rightarrow> (jsstr \<times> json) list" where
  "usableEntries rows = map (\<lambda>r. (gp_name r, JStr (gp_description r))) (filter gp_selectable rows)"

definition topupEntries :: "GroupPricingRow list \<Rightarrow> (jsstr \<times> json) list" where
  "topupEntries rows = map (\<lambda>r. (gp_name r, JNum (gp_topupRatio r))) (filter (\<lambda>r. gp_topupRatio r \<noteq> []) rows)"

lemmas entries_defs = ratioEntries_def usableEntries_def topupEntries_def

lemma serializeRow_ok:
  assumes "row_ok nt row" "gp_name row \<notin> set (map gp_name rows)"
  shows "serializeRow nt \<lparr>gm_ratio = ratioEntries rows, gm_usable = usableEntries rows, gm_topup = topupEntries rows\<rparr> row =
    \<lparr>gm_ratio = ratioEntries (rows @ [row]), gm_usable = usableEntries (rows @ [row]), gm_topup = topupEntries (rows @ [row])\<rparr>"
proof -
  have k: "gp_name row \<notin> set (keys_of (ratioEntries rows))" "gp_name row \<notin> set (keys_of (usableEntries rows))"
    "gp_name row \<notin> set (keys_of (topupEntries rows))" using assms(2) by (auto simp: entries_defs)
  obtain q where q: "number_of_string (gp_ratio row) = Fin q" "nt (Fin q) = gp_ratio row"
    using own_number assms(1) by (auto simp: row_ok_def)
  have "gp_topupRatio row \<noteq> [] \<Longrightarrow> \<exists>p. number_of_string (gp_topupRatio row) = Fin p \<and> nt (Fin p) = gp_topupRatio row"
    using own_number assms(1) by (auto simp: row_ok_def)
  moreover have "trim (gp_name row) = gp_name row" "gp_name row \<noteq> []" "trim (gp_topupRatio row) = gp_topupRatio row"
    using assms(1) by (simp_all add: row_ok_def)
  ultimately show ?thesis
    by (cases "gp_topupRatio row = []") (auto simp: serializeRow_def Let_def q finiteOr1_def update_new [OF k(1)] update_new [OF k(2)]
        update_new [OF k(3)] entries_defs [of "rows @ [row]"] entries_defs [of rows, symmetric] split: jsnum.split)
qed

lemma groupMapsOf_ok:
  "list_all (row_ok nt) rows \<Longrightarrow> distinct (map gp_name rows) \<Longrightarrow>
    groupMapsOf nt rows = \<lparr>gm_ratio = ratioEntries rows, gm_usable = usableEntries rows, gm_topup = topupEntries rows\<rparr>"
proof (induction rows rule: rev_induct)
  case (snoc row rows)
  then show ?case using serializeRow_ok [of nt row rows] by (simp add: groupMapsOf_def)
qed (simp add: groupMapsOf_def emptyMaps_def entries_defs)

text \<open>Entries that are written as they are come back in the order of enumeration.\<close>

definition plain_entry :: "(jsnum \<Rightarrow> jsstr) \<Rightarrow> json \<Rightarrow> bool" where
  "plain_entry nt v = (case v of JNum n \<Rightarrow> json_number n \<and> lit nt n = n | JStr s \<Rightarrow> True | _ \<Rightarrow> False)"

lemma plain_canon: "plain_entry nt v \<Longrightarrow> json_canon (lit nt) v = v" "plain_entry nt v \<Longrightarrow> printable v"
  by (cases v; simp add: plain_entry_def)+

lemma read_plain:
  assumes "writes_numbers (lit nt)" "wf_map m" "list_all (plain_entry nt \<circ> snd) m"
  shows "documentOf (json_pretty (lit nt) (JObj m)) = Inr (js_entries m)"
proof -
  have "printable (JObj m)" using assms(2,3) by (force simp: list_all_iff intro: plain_canon)
  moreover have "map (\<lambda>(k, v). (k, json_canon (lit nt) v)) m = m" using assms(3) by (auto simp: list_all_iff plain_canon intro!: map_idI)
  ultimately show ?thesis using documentOf_pretty [OF assms(1)] by (simp add: canonDoc_def)
qed

lemma map_of_entries: "wf_map m \<Longrightarrow> map_of (js_entries m) = map_of m"
  by (simp add: map_of_inject_set distinct_js_entries)

lemma set_of_absorb: "distinct xs \<Longrightarrow> set ys \<subseteq> set xs \<Longrightarrow> set_of (xs @ ys) = xs"
proof -
  have "foldl set_add xs ys = xs" if "set ys \<subseteq> set xs" using that by (induction ys) (simp_all add: set_add_def)
  moreover assume "distinct xs" "set ys \<subseteq> set xs"
  ultimately show ?thesis using set_of_distinct [of xs] by (simp add: set_of_def)
qed

lemma written_maps:
  assumes "stable_numbers nt" "list_all (row_ok nt) rows" "distinct (map gp_name rows)"
  shows "parseGroupMaps (serializeGroupPricingRows nt rows) =
    Inr \<lparr>gm_ratio = js_entries (ratioEntries rows), gm_usable = js_entries (usableEntries rows), gm_topup = js_entries (topupEntries rows)\<rparr>"
proof -
  have w: "writes_numbers (lit nt)" using assms(1) by (simp add: stable_numbers_def)
  have d: "wf_map (ratioEntries rows)" "wf_map (usableEntries rows)" "wf_map (topupEntries rows)"
    using assms(3) by (simp_all add: entries_defs comp_def distinct_map_filter)
  have "list_all (plain_entry nt \<circ> snd) (ratioEntries rows)" "list_all (plain_entry nt \<circ> snd) (usableEntries rows)"
    "list_all (plain_entry nt \<circ> snd) (topupEntries rows)"
    using assms(2) by (auto simp: entries_defs list_all_iff plain_entry_def row_ok_def own_text_def)
  then show ?thesis
    using read_plain [OF w d(1)] read_plain [OF w d(2)] read_plain [OF w d(3)]
    by (simp add: parseGroupMaps_def serializeGroupPricingRows_def groupMapsOf_ok [OF assms(2,3)] Let_def)
qed

lemma row_read:
  assumes "list_all (row_ok nt) rows" "distinct (map gp_name rows)" "row \<in> set rows"
  shows "rowFields (groupRow nt \<lparr>gm_ratio = js_entries (ratioEntries rows), gm_usable = js_entries (usableEntries rows),
    gm_topup = js_entries (topupEntries rows)\<rparr> i (gp_name row)) = rowFields row"
proof -
  have ok: "row_ok nt row" using assms(1,3) by (auto simp: list_all_iff)
  have d: "wf_map (ratioEntries rows)" "wf_map (usableEntries rows)" "wf_map (topupEntries rows)"
    using assms(2) by (simp_all add: entries_defs comp_def distinct_map_filter)
  have same: "r = row" if "r \<in> set rows" "gp_name r = gp_name row" for r
    using that assms(2,3) by (meson distinct_map inj_onD)
  have "map_of (ratioEntries rows) (gp_name row) = Some (JNum (gp_ratio row))"
    by (rule map_of_is_SomeI [OF d(1)]) (use assms(3) in \<open>auto simp: ratioEntries_def\<close>)
  moreover have "map_of (usableEntries rows) (gp_name row) = (if gp_selectable row then Some (JStr (gp_description row)) else None)"
  proof (cases "gp_selectable row")
    case True
    then have "(gp_name row, JStr (gp_description row)) \<in> set (usableEntries rows)" using assms(3) by (auto simp: usableEntries_def)
    from map_of_is_SomeI [OF d(2) this] True show ?thesis by simp
  next
    case False
    then have "gp_name row \<notin> fst ` set (usableEntries rows)" using same by (auto simp: usableEntries_def)
    with False show ?thesis by (simp add: map_of_eq_None_iff)
  qed
  moreover have "map_of (topupEntries rows) (gp_name row) = (if gp_topupRatio row \<noteq> [] then Some (JNum (gp_topupRatio row)) else None)"
  proof (cases "gp_topupRatio row = []")
    case False
    then have "(gp_name row, JNum (gp_topupRatio row)) \<in> set (topupEntries rows)" using assms(3) by (auto simp: topupEntries_def)
    from map_of_is_SomeI [OF d(3) this] False show ?thesis by simp
  next
    case True
    then have "gp_name row \<notin> fst ` set (topupEntries rows)" using same by (auto simp: topupEntries_def)
    with True show ?thesis by (simp add: map_of_eq_None_iff)
  qed
  moreover obtain q where "number_of_string (gp_ratio row) = Fin q" "nt (Fin q) = gp_ratio row"
    using own_number ok by (auto simp: row_ok_def)
  moreover have "gp_topupRatio row \<noteq> [] \<Longrightarrow> lit nt (gp_topupRatio row) = gp_topupRatio row" "\<not> gp_selectable row \<Longrightarrow> gp_description row = []"
    using ok by (auto simp: row_ok_def own_text_def)
  ultimately show ?thesis
    by (simp add: rowFields_def groupRow_def map_of_entries [OF d(1)] map_of_entries [OF d(2)] map_of_entries [OF d(3)]
        normalizeRatio_def js_Number_def finiteOr1_def textOrEmpty_def)
qed

lemma map_zip_row:
  "(\<And>i x. h (f i x) = g x) \<Longrightarrow> length is = length xs \<Longrightarrow> map h (map (\<lambda>(i, x). f i x) (zip is xs)) = map g xs"
  by (induction "is" xs rule: list_induct2') auto

text \<open>
  C23: the pricing table of groups is read back as it was written. Rows with different trimmed
  names, a ratio and an optional top-up ratio in the text the runtime gives them, and a description
  only where the group is visible, are written into three texts and built again from them: the same
  rows with the same name, ratio, top-up ratio, visibility and description, in some order (names
  that are array indices move to the front), numbered without a gap after the counter, so that no
  identifier was given out before.
\<close>

theorem group_table_roundtrip:
  assumes "stable_numbers nt" and "list_all (row_ok nt) rows" and "distinct (map gp_name rows)"
  shows "\<exists>rows' counter'. buildGroupPricingRows nt counter (serializeGroupPricingRows nt rows) = Inr (rows', counter') \<and>
    mset (map rowFields rows') = mset (map rowFields rows) \<and> map gp_id rows' = [counter + 1..<counter' + 1] \<and>
    counter' = counter + length rows"
proof -
  let ?m = "\<lparr>gm_ratio = js_entries (ratioEntries rows), gm_usable = js_entries (usableEntries rows), gm_topup = js_entries (topupEntries rows)\<rparr>"
  let ?names = "keys_of (js_entries (ratioEntries rows))"
  have d: "distinct ?names" using distinct_js_entries [of "ratioEntries rows"] assms(3) by (simp add: ratioEntries_def comp_def)
  have names: "groupNames ?m = ?names"
    unfolding groupNames_def by (simp only: GroupMaps.simps js_entries_idem, rule set_of_absorb [OF d]) (force simp: entries_defs)
  have "mset ?names = mset (keys_of (ratioEntries rows))" by (simp only: mset_map mset_js_entries)
  then have m: "mset ?names = mset (map gp_name rows)" by (simp add: ratioEntries_def comp_def)
  define rows' where "rows' = map (\<lambda>(i, name). groupRow nt ?m i name) (zip [Suc counter..<Suc counter + length ?names] ?names)"
  have len: "length (js_entries (ratioEntries rows)) = length rows" using arg_cong [OF m, of size] by simp
  have b: "buildGroupPricingRows nt counter (serializeGroupPricingRows nt rows) = Inr (rows', counter + length rows)"
    by (simp add: buildGroupPricingRows_def written_maps [OF assms] names rows'_def Let_def len)
  have "map rowFields rows' = map (\<lambda>name. rowFields (groupRow nt ?m 0 name)) ?names"
    unfolding rows'_def
  proof (rule map_zip_row)
    show "rowFields (groupRow nt ?m i x) = rowFields (groupRow nt ?m 0 x)" for i x by (simp add: rowFields_def groupRow_def)
    show "length [Suc counter..<Suc counter + length ?names] = length ?names" by (simp only: length_upt diff_add_inverse)
  qed
  then have "mset (map rowFields rows') = image_mset (\<lambda>name. rowFields (groupRow nt ?m 0 name)) (mset (map gp_name rows))"
    using m by (simp only: mset_map)
  also have "\<dots> = mset (map rowFields rows)"
    using row_read [OF assms(2,3)] by (auto simp flip: mset_map intro!: arg_cong [of _ _ mset])
  finally have f: "mset (map rowFields rows') = mset (map rowFields rows)" .
  have "map gp_id rows' = [Suc counter..<Suc counter + length ?names]"
    by (simp add: rows'_def groupRow_def comp_def case_prod_unfold map_fst_zip [unfolded comp_def])
  then have "map gp_id rows' = [counter + 1..<counter + length rows + 1]" using len by simp
  with b f show ?thesis by blast
qed

definition sampleRows :: "GroupPricingRow list" where
  "sampleRows = [\<lparr>gp_id = 1, gp_name = js ''default'', gp_ratio = js ''2'', gp_topupRatio = [], gp_selectable = True, gp_description = js ''all''\<rparr>,
     \<lparr>gp_id = 2, gp_name = js ''vip'', gp_ratio = js ''3'', gp_topupRatio = js ''2'', gp_selectable = False, gp_description = []\<rparr>]"

lemma sample_own_texts: "own_text samplePriceText (js ''2'')" "own_text samplePriceText (js ''3'')"
proof -
  have "parse_float (js ''2'') = Fin 2" "parse_float (js ''3'') = Fin 3"
    by (simp_all add: parse_float_def sign_split_def signed_decimal_def unsigned_decimal_def is_digit_def parse_digits_def Let_def
        js_simps trim_left_def is_ws_def)
  then show "own_text samplePriceText (js ''2'')" "own_text samplePriceText (js ''3'')"
    by (simp_all add: own_text_def sample_json_numbers sample_literals lit_def samplePriceText_eval)
qed

lemma sampleRows_ok: "list_all (row_ok samplePriceText) sampleRows" "distinct (map gp_name sampleRows)"
proof -
  have "trim (js ''default'') = js ''default''" "trim (js ''vip'') = js ''vip''" "trim (js ''2'') = js ''2''" "js ''default'' \<noteq> js ''vip''"
    by (simp_all add: trim_def trim_left_def is_ws_def js_simps)
  then show "list_all (row_ok samplePriceText) sampleRows" "distinct (map gp_name sampleRows)"
    using sample_own_texts by (simp_all add: sampleRows_def row_ok_def own_text_def [of _ "[]"])
qed

theorem group_table_roundtrip_witness:
  "\<exists>rows' counter'. buildGroupPricingRows samplePriceText 7 (serializeGroupPricingRows samplePriceText sampleRows) = Inr (rows', counter') \<and>
    mset (map rowFields rows') = mset (map rowFields sampleRows) \<and> map gp_id rows' = [8, 9] \<and> counter' = 9"
  using group_table_roundtrip [OF sample_stable sampleRows_ok, of 7] by (auto simp: sampleRows_def upt_rec)

text \<open>After an edit of its own the table keeps its rows when the new texts arrive.\<close>

lemma own_edit_kept: "followTexts nt (emitRows nt rows st) = Inr (emitRows nt rows st)"
  by (simp add: followTexts_def emitRows_def groupPricingSignature_def)

lemma freshIndex_spec:
  "group_name (freshIndex names i) \<notin> set names \<and> i \<le> freshIndex names i \<and>
    (\<forall>j \<in> {i..<freshIndex names i}. group_name j \<in> set names)"
proof (induction names i rule: freshIndex.induct)
  case (1 names i)
  show ?case
  proof (cases "group_name i \<in> set names")
    case True
    then have e: "freshIndex names i = freshIndex names (Suc i)" by (simp add: freshIndex.simps [of names i])
    show ?thesis using 1 [OF True] True unfolding e by (auto simp: Ball_def) (metis Suc_leI le_neq_implies_less)
  qed (simp add: freshIndex.simps [of names i])
qed

lemma freshIndex_bound: "freshIndex names i \<le> i + length names"
proof -
  have "group_name ` {i..<freshIndex names i} \<subseteq> set names" using freshIndex_spec by blast
  then have "card (group_name ` {i..<freshIndex names i}) \<le> card (set names)" by (rule card_mono [rotated]) simp
  moreover have "card (group_name ` {i..<freshIndex names i}) = freshIndex names i - i"
    by (subst card_image) (simp_all add: inj_on_def group_name_inj)
  ultimately show ?thesis using card_length [of names] by linarith
qed

text \<open>
  C25: adding a group always ends: the search for a name takes at most one step per row, the new
  row stands last under the first unused name \<open>group_1\<close>, \<open>group_2\<close>, ..., with a new identifier,
  and the rows before it are unchanged.
\<close>

theorem added_group_is_new:
  "\<exists>i row. gs_rows (addRow nt st) = gs_rows st @ [row] \<and> gp_name row = group_name i \<and> gp_id row = Suc (gs_counter st) \<and>
    group_name i \<notin> set (map gp_name (gs_rows st)) \<and> {group_name j |j. 1 \<le> j \<and> j < i} \<subseteq> set (map gp_name (gs_rows st)) \<and>
    i \<le> Suc (length (gs_rows st))"
proof -
  let ?names = "map gp_name (gs_rows st)"
  have "freshIndex ?names 1 \<le> Suc (length (gs_rows st))" using freshIndex_bound [of ?names 1] by simp
  moreover have "{group_name j |j. 1 \<le> j \<and> j < freshIndex ?names 1} \<subseteq> set ?names" using freshIndex_spec [of ?names 1] by auto
  ultimately show ?thesis using freshIndex_spec [of ?names 1]
    by (intro exI [of _ "freshIndex ?names 1"]) (simp add: addRow_def emitRows_def Let_def)
qed

text \<open>Of several rows with one name the last is written.\<close>

lemma written_ratio:
  "map_of (gm_ratio (groupMapsOf nt rows)) k =
    (case List.find (\<lambda>r. trim (gp_name r) = k \<and> k \<noteq> []) (rev rows) of
       Some r \<Rightarrow> Some (JNum (nt (Fin (finiteOr1 (number_of_string (gp_ratio r)))))) | None \<Rightarrow> None)"
proof (induction rows rule: rev_induct)
  case (snoc row rows)
  then show ?case by (auto simp: groupMapsOf_def serializeRow_def Let_def map_of_update)
qed (simp add: groupMapsOf_def emptyMaps_def)

text \<open>
  C40: a ratio field that is cleared makes the group free of charge. While the field is blank the
  written ratio of the group is zero; a text that is no number would count as one. The table keeps
  showing the blank field, because its rows still stand for the written texts.
\<close>

theorem blank_ratio_is_free:
  assumes "row \<in> set (gs_rows st)" and "gp_id row = i" and "trim (gp_name row) \<noteq> []"
    and "distinct (map (\<lambda>r. trim (gp_name r)) (gs_rows st))"
  shows "map_of (gm_ratio (groupMapsOf nt (gs_rows (updateRow nt i (RowRatio v) st)))) (trim (gp_name row)) =
    Some (JNum (nt (Fin (if trim v = [] then 0 else finiteOr1 (number_of_string v))))) \<and>
    followTexts nt (updateRow nt i (RowRatio v) st) = Inr (updateRow nt i (RowRatio v) st) \<and>
    row\<lparr>gp_ratio := v\<rparr> \<in> set (gs_rows (updateRow nt i (RowRatio v) st))"
proof -
  define rows where "rows = map (\<lambda>r. if gp_id r = i then r\<lparr>gp_ratio := v\<rparr> else r) (gs_rows st)"
  define changed where "changed = row\<lparr>gp_ratio := v\<rparr>"
  have u: "updateRow nt i (RowRatio v) st = emitRows nt rows st" unfolding updateRow_def rows_def setRowField.simps ..
  have mem: "changed \<in> set rows" using assms(1,2) by (force simp: rows_def changed_def)
  have "map (\<lambda>r. trim (gp_name r)) rows = map (\<lambda>r. trim (gp_name r)) (gs_rows st)" by (simp add: rows_def)
  then have "distinct (map (\<lambda>r. trim (gp_name r)) rows)" using assms(4) by (simp only:)
  then have inj: "inj_on (\<lambda>r. trim (gp_name r)) (set rows)" unfolding distinct_map by (rule conjunct2)
  let ?P = "\<lambda>r. trim (gp_name r) = trim (gp_name row) \<and> trim (gp_name row) \<noteq> []"
  have P: "?P changed" using assms(3) by (simp add: changed_def)
  have find: "List.find ?P (rev rows) = Some changed"
  proof (cases "List.find ?P (rev rows)")
    case None
    with mem P show ?thesis by (auto simp: find_None_iff)
  next
    case (Some r)
    then have "r \<in> set rows" "?P r" by (auto simp: find_Some_iff) (metis nth_mem set_rev length_rev)
    then have "r = changed" using inj_onD [OF inj _ _ mem, of r] P by simp
    with Some show ?thesis by simp
  qed
  have "finiteOr1 (number_of_string v) = 0" if "trim v = []" using that by (simp add: number_of_string_def finiteOr1_def)
  moreover have "gp_ratio changed = v" "gs_rows (emitRows nt rows st) = rows" by (simp_all add: changed_def emitRows_def)
  ultimately show ?thesis
    using mem own_edit_kept [of nt rows st] unfolding u written_ratio by (simp add: find changed_def [symmetric])
qed

theorem blank_ratio_is_free_witness:
  "map_of (gm_ratio (groupMapsOf samplePriceText (gs_rows (updateRow samplePriceText 2 (RowRatio [])
      \<lparr>gs_rows = sampleRows, gs_counter = 2, gs_texts = serializeGroupPricingRows samplePriceText sampleRows\<rparr>)))) (js ''vip'') =
    Some (JNum (js ''0''))"
proof -
  let ?st = "\<lparr>gs_rows = sampleRows, gs_counter = 2, gs_texts = serializeGroupPricingRows samplePriceText sampleRows\<rparr>"
  have t: "trim (js ''default'') = js ''default''" "trim (js ''vip'') = js ''vip''" "js ''default'' \<noteq> js ''vip''"
    by (simp_all add: trim_def trim_left_def is_ws_def js_simps)
  have "sampleRows ! 1 \<in> set (gs_rows ?st)" "gp_id (sampleRows ! 1) = 2" "gp_name (sampleRows ! 1) = js ''vip''"
    by (simp_all add: sampleRows_def)
  moreover have "distinct (map (\<lambda>r. trim (gp_name r)) (gs_rows ?st))" using t by (simp add: sampleRows_def)
  ultimately show ?thesis
    using blank_ratio_is_free [of "sampleRows ! 1" ?st 2 samplePriceText "[]"] t by (simp add: samplePriceText_eval)
qed

section \<open>Rules that show or hide groups\<close>

definition rule_entry :: "UsableRule \<Rightarrow> jsstr \<times> jsstr \<times> json" where
  "rule_entry r = (ur_userGroup r, toRawKey (ur_visible r) (ur_targetGroup r), JStr (ur_description r))"

definition ruleFields :: "UsableRule \<Rightarrow> jsstr \<times> bool \<times> jsstr \<times> jsstr" where
  "ruleFields r = (ur_userGroup r, ur_visible r, ur_targetGroup r, ur_description r)"

text \<open>A rule as the editor holds it: complete, a hidden group with the fixed description.\<close>

definition rule_complete :: "UsableRule \<Rightarrow> bool" where
  "rule_complete r \<longleftrightarrow> ur_userGroup r \<noteq> [] \<and> ur_targetGroup r \<noteq> [] \<and> (ur_visible r \<or> ur_description r = removeText)"

lemma raw_key: "parseSpecialGroupKey (toRawKey visible name) = (visible, name)"
  by (simp add: parseSpecialGroupKey_def toRawKey_def starts_with_def js_simps)

lemma flatRule_entry: "rule_complete r \<Longrightarrow> ruleFields (case rule_entry r of (g, e) \<Rightarrow> flatRule g e i) = ruleFields r"
  by (auto simp: rule_entry_def flatRule_def raw_key ruleFields_def rule_complete_def)

text \<open>The entries of the nested map.\<close>

definition nestedEntries :: "(jsstr \<times> (jsstr \<times> json) list) list \<Rightarrow> (jsstr \<times> jsstr \<times> json) list" where
  "nestedEntries m = concat (map (\<lambda>(g, inner). map (Pair g) inner) m)"

lemma putRule_entries:
  assumes "rule_complete r" "(fst (rule_entry r), fst (snd (rule_entry r))) \<notin> (\<lambda>(g, k, v). (g, k)) ` set (nestedEntries m)"
  shows "mset (nestedEntries (putRule m r)) = add_mset (rule_entry r) (mset (nestedEntries m))"
proof -
  let ?k = "toRawKey (ur_visible r) (ur_targetGroup r)" and ?v = "JStr (ur_description r)"
  have p: "putRule m r = upsert (ur_userGroup r) [] (AList.update ?k ?v) m"
    using assms(1) by (simp add: putRule_def rule_complete_def)
  show ?thesis
  proof (cases rule: upsert_cases [of "ur_userGroup r" m "[]" "AList.update ?k ?v"])
    case new
    then show ?thesis by (simp add: p nestedEntries_def rule_entry_def)
  next
    case (old a inner b)
    have "?k \<notin> set (keys_of inner)"
      using assms(2) by (force simp: old(1) nestedEntries_def rule_entry_def)
    moreover have "putRule m r = a @ (ur_userGroup r, AList.update ?k ?v inner) # b" using p old(3) by simp
    ultimately show ?thesis unfolding old(1) nestedEntries_def by (simp add: rule_entry_def update_new)
  qed
qed

lemma rules_entries:
  "list_all rule_complete rules \<Longrightarrow> distinct (map (\<lambda>r. (ur_userGroup r, toRawKey (ur_visible r) (ur_targetGroup r))) rules) \<Longrightarrow>
    mset (nestedEntries (foldl putRule [] rules)) = mset (map rule_entry rules)"
proof (induction rules rule: rev_induct)
  case (snoc r rules)
  let ?m = "foldl putRule [] rules"
  have IH: "mset (nestedEntries ?m) = mset (map rule_entry rules)" using snoc by simp
  then have "set (nestedEntries ?m) = rule_entry ` set rules" by (metis mset_eq_setD list.set_map)
  then have "(fst (rule_entry r), fst (snd (rule_entry r))) \<notin> (\<lambda>(g, k, v). (g, k)) ` set (nestedEntries ?m)"
    using snoc.prems(2) by (auto simp: rule_entry_def)
  from putRule_entries [OF _ this] IH snoc.prems(1) show ?case by simp
qed (simp add: nestedEntries_def)

definition text_map :: "(jsstr \<times> json) list \<Rightarrow> bool" where
  "text_map inner \<longleftrightarrow> wf_map inner \<and> list_all (\<lambda>(k, v). v \<in> range JStr) inner"

lemma text_map_update: "text_map inner \<Longrightarrow> text_map (AList.update k (JStr s) inner)"
  by (auto simp: text_map_def wf_map_update list_all_iff dest: set_update)

lemma putRule_wf:
  assumes "wf_map m" "\<forall>(g, inner) \<in> set m. text_map inner"
  shows "wf_map (putRule m r)" "\<forall>(g, inner) \<in> set (putRule m r). text_map inner"
proof -
  let ?f = "AList.update (toRawKey (ur_visible r) (ur_targetGroup r)) (JStr (ur_description r))"
  have "\<forall>(g, inner) \<in> set (upsert (ur_userGroup r) [] ?f m). text_map inner"
    by (rule upsert_inv [OF assms(2)]) (simp add: text_map_def, simp add: text_map_update)
  with assms(2) show "\<forall>(g, inner) \<in> set (putRule m r). text_map inner" by (simp add: putRule_def)
  show "wf_map (putRule m r)" using assms(1) by (simp add: putRule_def)
qed

lemma rules_wf: "wf_map (foldl putRule [] rules) \<and> (\<forall>(g, inner) \<in> set (foldl putRule [] rules). text_map inner)"
proof (induction rules rule: rev_induct)
  case (snoc r rules)
  then show ?case using putRule_wf [of "foldl putRule [] rules" r] by simp
qed simp

text \<open>What is written is read back as the nested map in the order of enumeration.\<close>

definition nestedJson :: "(jsstr \<times> (jsstr \<times> json) list) list \<Rightarrow> (jsstr \<times> json) list" where
  "nestedJson m = map (\<lambda>(g, inner). (g, JObj inner)) m"

lemma text_map_canon: "text_map inner \<Longrightarrow> json_canon nt (JObj inner) = JObj (js_entries inner)" "text_map inner \<Longrightarrow> printable (JObj inner)"
proof -
  assume i: "text_map inner"
  then have "map (\<lambda>(k, v). (k, json_canon nt v)) inner = inner" by (auto simp: text_map_def list_all_iff intro!: map_idI)
  then show "json_canon nt (JObj inner) = JObj (js_entries inner)" by simp
  show "printable (JObj inner)" using i by (auto simp: text_map_def list_all_iff)
qed

lemma nested_canon:
  assumes "\<forall>(g, inner) \<in> set m. text_map inner"
  shows "json_canon nt (JObj (nestedJson m)) = JObj (js_entries (nestedJson (map (\<lambda>(g, inner). (g, js_entries inner)) m)))"
proof -
  have "map (\<lambda>(k, v). (k, json_canon nt v)) (nestedJson m) = nestedJson (map (\<lambda>(g, inner). (g, js_entries inner)) m)"
    using assms by (auto simp: nestedJson_def text_map_canon simp del: json_canon.simps(3))
  then show ?thesis by simp
qed

lemma nested_printable:
  assumes "wf_map m" "\<forall>(g, inner) \<in> set m. text_map inner"
  shows "printable (JObj (nestedJson m))"
  using assms text_map_canon(2) by (auto simp: nestedJson_def list_all_iff comp_def case_prod_unfold simp del: printable.simps(3) intro!: printable.simps(3) [THEN iffD2])

lemma mset_flat:
  "mset (flatEntries (js_entries (nestedJson (map (\<lambda>(g, inner). (g, js_entries inner)) m)))) = mset (nestedEntries m)"
proof -
  have "mset (concat (map f (js_entries xs))) = mset (concat (map f xs))" for f :: "jsstr \<times> json \<Rightarrow> (jsstr \<times> jsstr \<times> json) list" and xs
    by (simp only: mset_concat mset_map [symmetric] map_map sum_mset_sum_list [symmetric] mset_js_entries) (simp add: mset_js_entries)
  then show ?thesis
    by (simp add: flatEntries_def nestedEntries_def nestedJson_def is_object_def own_props_def mset_concat comp_def case_prod_unfold mset_js_entries)
qed

lemma parse_rules:
  assumes "writes_numbers (lit nt)"
  shows "\<exists>es. safeParseJson (serializeRules nt rules) = JObj es \<and> mset (flatEntries es) = mset (nestedEntries (foldl putRule [] rules))"
proof (cases "foldl putRule [] rules = []")
  case True
  then have "serializeRules nt rules = json_pretty (lit nt) (JObj [])" by (simp add: serializeRules_def json_pretty_def js_entries_def)
  moreover have "json_parse (json_pretty (lit nt) (JObj [])) = Some (JObj [])"
    using json_parse_stringify(2) [of "lit nt" "JObj []"] by (simp add: js_entries_def)
  ultimately have "safeParseJson (serializeRules nt rules) = JObj []" by (simp add: safeParseJson_def)
  with True show ?thesis by (simp add: flatEntries_def nestedEntries_def js_entries_def)
next
  case False
  let ?m = "foldl putRule [] rules"
  let ?es = "js_entries (nestedJson (map (\<lambda>(g, inner). (g, js_entries inner)) ?m))"
  have w: "wf_map ?m" "\<forall>(g, inner) \<in> set ?m. text_map inner" using rules_wf by auto
  have s: "serializeRules nt rules = json_pretty (lit nt) (JObj (nestedJson ?m))" using False by (simp add: serializeRules_def nestedJson_def)
  have p: "json_parse (json_pretty (lit nt) (JObj (nestedJson ?m))) = Some (JObj ?es)"
    using json_parse_stringify(2) [OF canon_printable [OF assms nested_printable [OF w]]] nested_canon [OF w(2)] by simp
  have "trim (json_pretty (lit nt) (JObj (nestedJson ?m))) \<noteq> []" using json_parse_trim [OF p] by (auto simp: json_parse_def)
  with s p have "safeParseJson (serializeRules nt rules) = JObj ?es" by (simp add: safeParseJson_def)
  then show ?thesis using mset_flat by blast
qed

text \<open>
  C24: the rules that show or hide groups are read back as they were written. Complete rules for
  different groups, targets and directions are written into one nested text and flattened again:
  the same rules in some order with new identifiers, all different.
\<close>

theorem usable_rules_roundtrip:
  assumes "writes_numbers (lit nt)" and "list_all rule_complete rules"
    and "distinct (map (\<lambda>r. (ur_userGroup r, ur_visible r, ur_targetGroup r)) rules)"
  shows "\<exists>rules'. flattenRules counter (safeParseJson (serializeRules nt rules)) = Inr rules' \<and>
    mset (map ruleFields rules') = mset (map ruleFields rules) \<and> distinct (map ur_id rules')"
proof -
  obtain es where es: "safeParseJson (serializeRules nt rules) = JObj es" "mset (flatEntries es) = mset (nestedEntries (foldl putRule [] rules))"
    using parse_rules [OF assms(1)] by blast
  have "inj (\<lambda>(g, v, x). (g, toRawKey v x))" by (auto simp: inj_def toRawKey_def js_simps)
  then have "distinct (map (\<lambda>(g, v, x). (g, toRawKey v x)) (map (\<lambda>r. (ur_userGroup r, ur_visible r, ur_targetGroup r)) rules))"
    using assms(3) by (simp only: distinct_map [of "\<lambda>(g, v, x). (g, toRawKey v x)"]) (auto intro: inj_on_subset)
  then have m: "mset (flatEntries es) = mset (map rule_entry rules)"
    using rules_entries [OF assms(2)] es(2) by (simp add: comp_def case_prod_unfold)
  let ?fs = "flatEntries es" and ?is = "[Suc counter..<Suc counter + length (flatEntries es)]"
  define rules' where "rules' = map (\<lambda>((g, e), i). flatRule g e i) (zip ?fs ?is)"
  have f: "flattenRules counter (safeParseJson (serializeRules nt rules)) = Inr rules'"
    by (simp add: flattenRules_def es(1) own_props_def rules'_def Let_def)
  have len: "length ?is = length ?fs" by (simp only: length_upt diff_add_inverse)
  have "map ruleFields rules' = map (\<lambda>(g, e). ruleFields (flatRule g e 0)) ?fs"
    using len by (auto simp: rules'_def ruleFields_def flatRule_def case_prod_unfold map_fst_zip intro!: nth_equalityI)
  then have "mset (map ruleFields rules') = image_mset (\<lambda>(g, e). ruleFields (flatRule g e 0)) (mset ?fs)" by (simp only: mset_map)
  also have "\<dots> = image_mset (\<lambda>(g, e). ruleFields (flatRule g e 0)) (mset (map rule_entry rules))" unfolding m ..
  also have "\<dots> = mset (map ruleFields rules)"
    using assms(2) flatRule_entry by (auto simp: list_all_iff rule_entry_def simp flip: mset_map intro!: arg_cong [of _ _ mset])
  finally have g: "mset (map ruleFields rules') = mset (map ruleFields rules)" .
  have "map ur_id rules' = ?is"
    using len by (auto simp: rules'_def flatRule_def case_prod_unfold intro!: nth_equalityI)
  then have "distinct (map ur_id rules')" by simp
  with f g show ?thesis by blast
qed

definition sampleRules :: "UsableRule list" where
  "sampleRules = [\<lparr>ur_id = 1, ur_userGroup = js ''vip'', ur_visible = True, ur_targetGroup = js ''fast'', ur_description = js ''quick''\<rparr>,
     \<lparr>ur_id = 2, ur_userGroup = js ''vip'', ur_visible = False, ur_targetGroup = js ''slow'', ur_description = removeText\<rparr>]"

theorem usable_rules_roundtrip_witness:
  "\<exists>rules'. flattenRules 2 (safeParseJson (serializeRules samplePriceText sampleRules)) = Inr rules' \<and>
    mset (map ruleFields rules') = mset (map ruleFields sampleRules)"
proof -
  have "writes_numbers (lit samplePriceText)" using sample_stable by (simp add: stable_numbers_def)
  moreover have "list_all rule_complete sampleRules" by (simp add: sampleRules_def rule_complete_def)
  moreover have "distinct (map (\<lambda>r. (ur_userGroup r, ur_visible r, ur_targetGroup r)) sampleRules)" by (simp add: sampleRules_def)
  ultimately show ?thesis using usable_rules_roundtrip [of samplePriceText sampleRules 2] by blast
qed

text \<open>Moving a group of the automatic assignment up or down exchanges two neighbours.\<close>

lemma auto_move_permutes: "mset (handleAutoGroupMove i d gs) = mset gs" if "i < length gs"
  using that by (auto simp: handleAutoGroupMove_def Let_def mset_swap)

lemma auto_move_back:
  "Suc i < length gs \<Longrightarrow> handleAutoGroupMove (Suc i) MoveUp (handleAutoGroupMove i MoveDown gs) = gs"
  by (simp add: handleAutoGroupMove_def Let_def nth_list_update list_update_swap [of i])

end
