(* ===== verification/Tool_Prices.thy ===== *)
theory Tool_Prices
  imports Group_Ratios Pricing_Save JS_System
begin

text \<open>
  The prices of tool calls (\<open>features/system-settings/models/tool-price-settings.tsx\<close>): a table of
  rows and a JSON text that are edited in turn, and the button that saves them. The states are those
  reached by the handlers in any order; in each of them the two forms would save the same prices. A
  tool name is not one of the inherited members of every object.
\<close>

section \<open>Rows and objects\<close>

definition OPTION_KEY :: jsstr where
  "OPTION_KEY = js ''tool_price_setting.prices''"

definition DEFAULT_PRICES :: "(jsstr \<times> jsnum) list" where
  "DEFAULT_PRICES =
     [(js ''web_search'', Fin 10), (js ''web_search_preview'', Fin 10), (js ''web_search_preview:gpt-4o*'', Fin 25),
      (js ''web_search_preview:gpt-4.1*'', Fin 25), (js ''web_search_preview:gpt-4o-mini*'', Fin 25),
      (js ''web_search_preview:gpt-4.1-mini*'', Fin 25), (js ''file_search'', Fin (5 / 2)), (js ''google_search'', Fin 14)]"

record ToolPriceRow =
  tr_id :: nat
  tr_key :: jsstr
  tr_price :: jsnum

text \<open>\<open>Number(v) || 0\<close>, after the conversion.\<close>

definition orZero :: "jsnum \<Rightarrow> jsnum" where
  "orZero x = (if x = NaN then Fin 0 else x)"

text \<open>The body of the loop in \<open>rowsToObject\<close>.\<close>

definition putPrice :: "(jsstr \<times> jsnum) list \<Rightarrow> ToolPriceRow \<Rightarrow> (jsstr \<times> jsnum) list" where
  "putPrice prices row = (let k = trim (tr_key row) in if k = [] then prices else AList.update k (orZero (tr_price row)) prices)"

definition rowsToObject :: "ToolPriceRow list \<Rightarrow> (jsstr \<times> jsnum) list" where
  "rowsToObject rows = foldl putPrice [] rows"

text \<open>The values are numbers for the defaults and whatever was parsed otherwise.\<close>

definition objectToRows :: "('v \<Rightarrow> jsnum) \<Rightarrow> (jsstr \<times> 'v) list \<Rightarrow> ToolPriceRow list" where
  "objectToRows number prices =
     map (\<lambda>(index, key, price). \<lparr>tr_id = index + 1, tr_key = key, tr_price = orZero (number price)\<rparr>) (enumerate 0 (js_entries prices))"

definition parsedNumber :: "(jsnum \<Rightarrow> jsstr) \<Rightarrow> json \<Rightarrow> jsnum" where
  "parsedNumber nt v = js_Number (lit nt) (Some v)"

definition pricesJson :: "(jsnum \<Rightarrow> jsstr) \<Rightarrow> (jsstr \<times> jsnum) list \<Rightarrow> json" where
  "pricesJson nt prices = JObj (map (\<lambda>(k, x). (k, numberJson nt x)) prices)"

datatype InitialPrices = DefaultPrices | StoredPrices "(jsstr \<times> json) list"

definition parseInitialPrices :: "jsstr \<Rightarrow> InitialPrices" where
  "parseInitialPrices rawValue =
     (if rawValue = [] then DefaultPrices
      else case json_parse rawValue of
          Some (JObj m) \<Rightarrow> if m \<noteq> [] then StoredPrices m else DefaultPrices
        | _ \<Rightarrow> DefaultPrices)"

section \<open>The page\<close>

datatype ToolMode = VisualPrices | JsonPrices

datatype ToolJsonError = MustBeObject | InvalidJson

record ToolPage =
  to_editMode :: ToolMode
  to_rows :: "ToolPriceRow list"
  to_jsonText :: jsstr
  to_jsonError :: "ToolJsonError option"
  to_nextRowId :: nat

definition blankToolPage :: ToolPage where
  "blankToolPage = \<lparr>to_editMode = VisualPrices, to_rows = [], to_jsonText = [], to_jsonError = None, to_nextRowId = 1\<rparr>"

definition showPrices :: "ToolPriceRow list \<Rightarrow> jsstr \<Rightarrow> ToolPage \<Rightarrow> ToolPage" where
  "showPrices rows text st = st\<lparr>to_rows := rows, to_jsonText := text, to_jsonError := None, to_nextRowId := length rows + 1\<rparr>"

definition resetToDefault :: "(jsnum \<Rightarrow> jsstr) \<Rightarrow> ToolPage \<Rightarrow> ToolPage" where
  "resetToDefault nt st = showPrices (objectToRows id DEFAULT_PRICES) (json_pretty (lit nt) (pricesJson nt DEFAULT_PRICES)) st"

text \<open>The effect that follows a new value of the option.\<close>

definition loadPrices :: "(jsnum \<Rightarrow> jsstr) \<Rightarrow> jsstr \<Rightarrow> ToolPage \<Rightarrow> ToolPage" where
  "loadPrices nt defaultValue st =
     (case parseInitialPrices defaultValue of
        DefaultPrices \<Rightarrow> resetToDefault nt st
      | StoredPrices m \<Rightarrow> showPrices (objectToRows (parsedNumber nt) m) (json_pretty (lit nt) (JObj m)) st)"

definition syncFromRows :: "(jsnum \<Rightarrow> jsstr) \<Rightarrow> ToolPriceRow list \<Rightarrow> ToolPage \<Rightarrow> ToolPage" where
  "syncFromRows nt nextRows st =
     st\<lparr>to_rows := nextRows, to_jsonText := json_pretty (lit nt) (pricesJson nt (rowsToObject nextRows)), to_jsonError := None\<rparr>"

definition changeToolJson :: "(jsnum \<Rightarrow> jsstr) \<Rightarrow> jsstr \<Rightarrow> ToolPage \<Rightarrow> ToolPage" where
  "changeToolJson nt text st =
     (case json_parse text of
        None \<Rightarrow> st\<lparr>to_jsonText := text, to_jsonError := Some InvalidJson\<rparr>
      | Some (JObj m) \<Rightarrow> showPrices (objectToRows (parsedNumber nt) m) text st
      | Some _ \<Rightarrow> st\<lparr>to_jsonText := text, to_jsonError := Some MustBeObject\<rparr>)"

datatype ToolField = ToolKey jsstr | ToolPrice jsnum

fun setToolField :: "ToolField \<Rightarrow> ToolPriceRow \<Rightarrow> ToolPriceRow" where
  "setToolField (ToolKey k) row = row\<lparr>tr_key := k\<rparr>"
| "setToolField (ToolPrice x) row = row\<lparr>tr_price := x\<rparr>"

definition updateToolRow :: "(jsnum \<Rightarrow> jsstr) \<Rightarrow> nat \<Rightarrow> ToolField \<Rightarrow> ToolPage \<Rightarrow> ToolPage" where
  "updateToolRow nt rowId field st = syncFromRows nt (map (\<lambda>r. if tr_id r = rowId then setToolField field r else r) (to_rows st)) st"

text \<open>The price field of a row passes on \<open>Number(e.target.value) || 0\<close>.\<close>

definition typeToolPrice :: "(jsnum \<Rightarrow> jsstr) \<Rightarrow> nat \<Rightarrow> jsstr \<Rightarrow> ToolPage \<Rightarrow> ToolPage" where
  "typeToolPrice nt rowId value st = updateToolRow nt rowId (ToolPrice (orZero (number_of_string value))) st"

definition addToolRow :: "(jsnum \<Rightarrow> jsstr) \<Rightarrow> ToolPage \<Rightarrow> ToolPage" where
  "addToolRow nt st =
     (let newRow = \<lparr>tr_id = to_nextRowId st, tr_key = [], tr_price = Fin 0\<rparr> in
      syncFromRows nt (to_rows st @ [newRow]) (st\<lparr>to_nextRowId := to_nextRowId st + 1\<rparr>))"

definition removeToolRow :: "(jsnum \<Rightarrow> jsstr) \<Rightarrow> nat \<Rightarrow> ToolPage \<Rightarrow> ToolPage" where
  "removeToolRow nt rowId st = syncFromRows nt (filter (\<lambda>r. tr_id r \<noteq> rowId) (to_rows st)) st"

definition toggleToolMode :: "ToolPage \<Rightarrow> ToolPage" where
  "toggleToolMode st = st\<lparr>to_editMode := (if to_editMode st = VisualPrices then JsonPrices else VisualPrices)\<rparr>"

definition sentPrices :: "(jsnum \<Rightarrow> jsstr) \<Rightarrow> ToolPriceRow list \<Rightarrow> jsstr" where
  "sentPrices nt rows = json_stringify (lit nt) (pricesJson nt (rowsToObject rows))"

datatype ToolSave = FixJsonFirst | PricesSent Request "UpdateEffect list"

definition saveToolPrices :: "(jsnum \<Rightarrow> jsstr) \<Rightarrow> (Request \<Rightarrow> Reply) \<Rightarrow> ToolPage \<Rightarrow> ToolSave" where
  "saveToolPrices nt reply st =
     (if to_editMode st = JsonPrices \<and> to_jsonError st \<noteq> None then FixJsonFirst
      else let request = (OPTION_KEY, TextValue (sentPrices nt (to_rows st))) in PricesSent request (updateOption reply request))"

section \<open>The states of the page\<close>

inductive tool_step :: "(jsnum \<Rightarrow> jsstr) \<Rightarrow> ToolPage \<Rightarrow> ToolPage \<Rightarrow> bool" for nt where
  tool_load: "tool_step nt st (loadPrices nt raw st)"
| tool_json: "tool_step nt st (changeToolJson nt text st)"
| tool_key: "tool_step nt st (updateToolRow nt rowId (ToolKey k) st)"
| tool_price: "tool_step nt st (typeToolPrice nt rowId value st)"
| tool_add: "tool_step nt st (addToolRow nt st)"
| tool_remove: "tool_step nt st (removeToolRow nt rowId st)"
| tool_reset: "tool_step nt st (resetToDefault nt st)"
| tool_toggle: "tool_step nt st (toggleToolMode st)"

inductive_cases tool_stepE: "tool_step nt st st'"

definition tool_init :: "(jsnum \<Rightarrow> jsstr) \<Rightarrow> ToolPage \<Rightarrow> bool" where
  "tool_init nt st \<longleftrightarrow> (\<exists>raw. st = loadPrices nt raw blankToolPage)"

end
