(* ===== verification/Tool_Claims.thy ===== *)
theory Tool_Claims
  imports Tool_Prices Save_Claims
begin

text \<open>
  The properties of the tool prices: in every state the rows have identifiers of their own, and the
  JSON text would save what the rows save; saved prices are loaded again, and an emptied table is
  loaded as the default prices.
\<close>

section \<open>Numbers in documents\<close>

text \<open>Every finite number is written as a literal that is written the same again.\<close>

definition price_texts :: "(jsnum \<Rightarrow> jsstr) \<Rightarrow> bool" where
  "price_texts nt \<longleftrightarrow> stable_numbers nt \<and> (\<forall>q. json_number (nt (Fin q)) \<and> lit nt (nt (Fin q)) = nt (Fin q))"

lemma num_char_not_ws: "num_char c \<Longrightarrow> \<not> is_ws c"
  by (auto simp: num_char_def is_digit_def is_ws_def)

lemma json_number_decimal:
  assumes "json_number n"
  defines "s \<equiv> if n \<noteq> [] \<and> hd n = 45 then tl n else n"
  shows "\<exists>q. unsigned_decimal s = Some q"
proof -
  define r1 where "r1 = dropWhile is_digit s"
  define r2 where "r2 = (if r1 \<noteq> [] \<and> hd r1 = 46 then dropWhile is_digit (tl r1) else r1)"
  have ip: "takeWhile is_digit s \<noteq> []"
    and e: "case r2 of [] \<Rightarrow> True | c # e \<Rightarrow> (c = 69 \<or> c = 101) \<and> all_digits (if e \<noteq> [] \<and> (hd e = 43 \<or> hd e = 45) then tl e else e)"
    using assms(1) unfolding json_number_def Let_def s_def [symmetric] r1_def [symmetric] r2_def [symmetric] by blast+
  have x: "\<exists>x. exponent_of e = Some x" if "all_digits (if e \<noteq> [] \<and> (hd e = 43 \<or> hd e = 45) then tl e else e)" for e
    using that by (cases e) (auto simp: exponent_of_def all_digits_def split: if_splits)
  show ?thesis
    using ip e x unfolding unsigned_decimal_def Let_def r1_def [symmetric] r2_def [symmetric]
    by (cases r2) auto
qed

lemma json_number_finite:
  assumes "json_number n"
  shows "\<exists>q. number_of_string n = Fin q"
proof -
  obtain c r where n: "n = c # r" and chars: "list_all num_char n" using json_number_chars [OF assms] by (cases n) auto
  have "\<not> is_ws (hd n)" "\<not> is_ws (last n)" using chars n num_char_not_ws by (simp_all add: list_all_iff)
  then have t: "trim n = n" by (intro trim_id) simp
  obtain q where q: "unsigned_decimal (if c = 45 then r else n) = Some q" using json_number_decimal [OF assms] n by (auto split: if_splits)
  have inf: "s \<noteq> js ''Infinity''" if "list_all num_char s" for s
    using that by (auto simp: js_simps num_char_def is_digit_def)
  have sd: "\<exists>p. signed_decimal neg (if c = 45 then r else n) = Fin p" for neg
    using inf [of n] inf [of r] chars n by (auto simp: signed_decimal_def q [simplified] split: if_splits)
  have "c \<noteq> 43" using assms n by (auto simp: json_number_def Let_def is_digit_def)
  moreover have "hd r \<notin> {120, 88, 111, 79, 98, 66}" if "r \<noteq> []"
    using chars n that by (cases r) (auto simp: num_char_def is_digit_def)
  ultimately have "number_of_string n = signed_decimal (c = 45) (if c = 45 then r else n)"
    unfolding number_of_string_def Let_def n t [unfolded n] by auto
  with sd show ?thesis by metis
qed

text \<open>What a value of the document is saved as.\<close>

definition savedNumber :: "(jsnum \<Rightarrow> jsstr) \<Rightarrow> jsnum \<Rightarrow> json" where
  "savedNumber nt x = numberJson nt (orZero x)"

lemma orZero_idem [simp]: "orZero (orZero x) = orZero x" "orZero x \<noteq> NaN"
  by (simp_all add: orZero_def)

lemma canon_number: "price_texts nt \<Longrightarrow> json_canon (lit nt) (numberJson nt x) = numberJson nt x"
  by (simp add: numberJson_def price_texts_def split: jsnum.split)

lemma saved_text:
  assumes "price_texts nt" "json_number n"
  shows "savedNumber nt (number_of_string n) = JNum (lit nt n)"
  using json_number_finite [OF assms(2)] by (auto simp: savedNumber_def numberJson_def orZero_def lit_def)

lemma saved_canon:
  assumes "price_texts nt" "printable v"
  shows "savedNumber nt (parsedNumber nt (json_canon (lit nt) v)) = savedNumber nt (parsedNumber nt v)"
proof (cases v)
  case (JNum n)
  then have "json_number n" "json_number (lit nt n)" "lit nt (lit nt n) = lit nt n"
    using assms by (simp_all add: price_texts_def stable_numbers_def writes_numbers_def)
  with JNum show ?thesis by (simp add: parsedNumber_def js_Number_def saved_text [OF assms(1)])
next
  case (JArr xs)
  then show ?thesis using js_String_canon [of nt v] assms by (simp add: parsedNumber_def js_Number_def price_texts_def del: js_String.simps)
qed (simp_all add: parsedNumber_def js_Number_def)

section \<open>What rows are saved as\<close>

definition priceDoc :: "(jsnum \<Rightarrow> jsstr) \<Rightarrow> ToolPriceRow list \<Rightarrow> (jsstr \<times> json) list" where
  "priceDoc nt rows = map (\<lambda>(k, x). (k, numberJson nt x)) (rowsToObject rows)"

definition rowEntries :: "(jsnum \<Rightarrow> jsstr) \<Rightarrow> ToolPriceRow list \<Rightarrow> (jsstr \<times> json) list" where
  "rowEntries nt rows = map (\<lambda>r. (trim (tr_key r), savedNumber nt (tr_price r))) rows"

definition putEntry :: "(jsstr \<times> json) list \<Rightarrow> jsstr \<times> json \<Rightarrow> (jsstr \<times> json) list" where
  "putEntry m e = (if fst e = [] then m else AList.update (fst e) (snd e) m)"

lemma priceDoc_entries: "priceDoc nt rows = foldl putEntry [] (rowEntries nt rows)"
proof (induction rows rule: rev_induct)
  case (snoc row rows)
  then show ?case by (simp add: priceDoc_def rowEntries_def rowsToObject_def putPrice_def putEntry_def savedNumber_def Let_def update_map [symmetric])
qed (simp add: priceDoc_def rowEntries_def rowsToObject_def)

lemma put_distinct:
  "wf_map es \<Longrightarrow> [] \<notin> set (keys_of es) \<Longrightarrow> foldl putEntry [] es = es"
proof (induction es rule: rev_induct)
  case (snoc e es)
  then have "fst e \<notin> set (keys_of es)" "fst e \<noteq> []" by auto
  with snoc show ?case by (simp add: putEntry_def update_new)
qed simp

lemma canon_prices:
  "price_texts nt \<Longrightarrow> json_canon (lit nt) (pricesJson nt (rowsToObject rows)) = JObj (js_entries (priceDoc nt rows))"
  by (simp add: pricesJson_def priceDoc_def comp_def case_prod_unfold canon_number)

lemma sent_cong:
  assumes "price_texts nt" "rowEntries nt rows = rowEntries nt rows'"
  shows "sentPrices nt rows = sentPrices nt rows'"
  by (simp add: sentPrices_def json_stringify_def canon_prices [OF assms(1)] priceDoc_entries assms(2))

lemma rowEntries_object:
  "rowEntries nt (objectToRows number m) = map (\<lambda>(k, v). (trim k, savedNumber nt (number v))) (js_entries m)"
proof -
  have "map (\<lambda>r. (trim (tr_key r), savedNumber nt (tr_price r)))
      (map (\<lambda>(index, key, price). \<lparr>tr_id = index + 1, tr_key = key, tr_price = orZero (number price)\<rparr>) (enumerate i es)) =
    map (\<lambda>(k, v). (trim k, savedNumber nt (number v))) es" for i es
    by (induction es arbitrary: i) (auto simp: savedNumber_def)
  then show ?thesis by (simp only: rowEntries_def objectToRows_def)
qed

lemma priceDoc_keys: "wf_map (priceDoc nt rows)" "k \<in> set (keys_of (priceDoc nt rows)) \<Longrightarrow> k \<noteq> [] \<and> trim k = k"
proof -
  have k: "keys_of (priceDoc nt rows) = keys_of (rowsToObject rows)" by (simp add: priceDoc_def comp_def case_prod_unfold)
  have "wf_map (rowsToObject rows) \<and> set (keys_of (rowsToObject rows)) \<subseteq> {k. k \<noteq> [] \<and> trim k = k}"
    by (induction rows rule: rev_induct) (simp_all add: rowsToObject_def putPrice_def Let_def wf_map_update keys_update del: set_map)
  with k show "wf_map (priceDoc nt rows)" "k \<in> set (keys_of (priceDoc nt rows)) \<Longrightarrow> k \<noteq> [] \<and> trim k = k" by auto
qed

section \<open>Reading what was written\<close>

abbreviation finite_prices :: "ToolPriceRow list \<Rightarrow> bool" where
  "finite_prices rows \<equiv> list_all (\<lambda>r. is_finite (tr_price r)) rows"

lemma entry_update: "(k, v) \<in> set (AList.update k' x m) \<Longrightarrow> v = x \<or> (k, v) \<in> set m"
  by (induction m) (auto split: if_splits)

lemma priceDoc_values:
  "finite_prices rows \<Longrightarrow> (k, v) \<in> set (priceDoc nt rows) \<Longrightarrow> \<exists>q. v = JNum (nt (Fin q))"
proof (induction rows arbitrary: k v rule: rev_induct)
  case (snoc row rows)
  obtain q where q: "tr_price row = Fin q" using snoc.prems(1) by (cases "tr_price row") auto
  define m where "m = priceDoc nt rows"
  have "priceDoc nt (rows @ [row]) = (if trim (tr_key row) = [] then m else AList.update (trim (tr_key row)) (JNum (nt (Fin q))) m)"
    by (simp add: priceDoc_entries rowEntries_def putEntry_def m_def savedNumber_def numberJson_def orZero_def q)
  then have "v = JNum (nt (Fin q)) \<or> (k, v) \<in> set m" using snoc.prems(2) entry_update by (metis (full_types))
  then show ?case using snoc.IH snoc.prems(1) unfolding m_def by auto
qed (simp add: priceDoc_def rowsToObject_def)

lemma written_prices:
  assumes "price_texts nt" "finite_prices rows"
  defines "m \<equiv> js_entries (priceDoc nt rows)"
  shows "json_parse (json_pretty (lit nt) (pricesJson nt (rowsToObject rows))) = Some (JObj m)"
    "json_parse (sentPrices nt rows) = Some (JObj m)"
    "sentPrices nt (objectToRows (parsedNumber nt) m) = sentPrices nt rows"
proof -
  have v: "\<exists>q. v = JNum (nt (Fin q))" if "(k, v) \<in> set m" for k v
    using that priceDoc_values [OF assms(2)] by (auto simp: m_def)
  have d: "wf_map m" using distinct_js_entries [OF priceDoc_keys(1)] by (simp add: m_def)
  have k: "set (keys_of m) \<subseteq> {k. k \<noteq> [] \<and> trim k = k}" using priceDoc_keys(2) [of _ nt rows] by (auto simp: m_def)
  have c: "json_canon (lit nt) (pricesJson nt (rowsToObject rows)) = JObj m" by (simp add: canon_prices [OF assms(1)] m_def)
  have "printable (JObj m)" using d v assms(1) by (force simp: list_all_iff price_texts_def)
  then show "json_parse (json_pretty (lit nt) (pricesJson nt (rowsToObject rows))) = Some (JObj m)" "json_parse (sentPrices nt rows) = Some (JObj m)"
    using json_parse_stringify [of "lit nt" "pricesJson nt (rowsToObject rows)"] by (simp_all add: c sentPrices_def)
  have "savedNumber nt (parsedNumber nt w) = w" if "(k, w) \<in> set m" for k w
    using v [OF that] assms(1) by (auto simp: parsedNumber_def js_Number_def saved_text price_texts_def)
  then have "rowEntries nt (objectToRows (parsedNumber nt) m) = m"
    using k by (force simp: rowEntries_object m_def js_entries_idem intro!: map_idI)
  then have "priceDoc nt (objectToRows (parsedNumber nt) m) = m" using put_distinct [OF d] k by (auto simp: priceDoc_entries)
  then show "sentPrices nt (objectToRows (parsedNumber nt) m) = sentPrices nt rows"
    by (simp only: sentPrices_def json_stringify_def canon_prices [OF assms(1)] m_def js_entries_idem)
qed

lemma stored_prices:
  assumes "price_texts nt" "printable (JObj m)"
  shows "json_parse (json_pretty (lit nt) (JObj m)) = Some (JObj (canonDoc nt m))"
    "sentPrices nt (objectToRows (parsedNumber nt) (canonDoc nt m)) = sentPrices nt (objectToRows (parsedNumber nt) m)"
proof -
  have w: "writes_numbers (lit nt)" using assms(1) by (simp add: price_texts_def stable_numbers_def)
  show "json_parse (json_pretty (lit nt) (JObj m)) = Some (JObj (canonDoc nt m))"
    using json_parse_stringify(2) [OF canon_printable [OF w assms(2)]] by (simp add: canonDoc_def)
  have "js_entries (canonDoc nt m) = map (\<lambda>(k, v). (k, json_canon (lit nt) v)) (js_entries m)"
    by (simp only: canonDoc_def js_entries_idem js_entries_map)
  then have "rowEntries nt (objectToRows (parsedNumber nt) (canonDoc nt m)) = rowEntries nt (objectToRows (parsedNumber nt) m)"
    using assms(2) saved_canon [OF assms(1)] by (auto simp: rowEntries_object list_all_iff)
  then show "sentPrices nt (objectToRows (parsedNumber nt) (canonDoc nt m)) = sentPrices nt (objectToRows (parsedNumber nt) m)"
    by (rule sent_cong [OF assms(1)])
qed

text \<open>Rows with names of their own are written as they are.\<close>

lemma rowsToObject_distinct:
  "distinct (map tr_key rows) \<Longrightarrow> list_all (\<lambda>r. tr_key r \<noteq> [] \<and> trim (tr_key r) = tr_key r \<and> tr_price r \<noteq> NaN) rows \<Longrightarrow>
    rowsToObject rows = map (\<lambda>r. (tr_key r, tr_price r)) rows"
proof (induction rows rule: rev_induct)
  case (snoc row rows)
  then have "tr_key row \<notin> set (keys_of (map (\<lambda>r. (tr_key r, tr_price r)) rows))" by auto
  with snoc show ?case by (simp add: rowsToObject_def putPrice_def orZero_def update_new)
qed (simp add: rowsToObject_def)

lemma default_entries: "js_entries DEFAULT_PRICES = DEFAULT_PRICES"
  by (simp add: js_entries_def DEFAULT_PRICES_def is_index_def is_digit_def js_simps)

lemma default_keys:
  "distinct (keys_of DEFAULT_PRICES)" "list_all (\<lambda>k. k \<noteq> [] \<and> trim k = k) (keys_of DEFAULT_PRICES)"
  by (simp_all add: DEFAULT_PRICES_def js_simps trim_def trim_left_def is_ws_def)

lemma default_rows:
  "rowsToObject (objectToRows id DEFAULT_PRICES) = DEFAULT_PRICES" "finite_prices (objectToRows id DEFAULT_PRICES)"
proof -
  let ?rows = "objectToRows id DEFAULT_PRICES"
  have e: "map tr_key ?rows = keys_of DEFAULT_PRICES" "map tr_price ?rows = map snd DEFAULT_PRICES"
    "map (\<lambda>r. (tr_key r, tr_price r)) ?rows = DEFAULT_PRICES"
    by (simp_all add: objectToRows_def default_entries) (simp_all add: DEFAULT_PRICES_def orZero_def)
  have "list_all is_finite (map tr_price ?rows)" unfolding e(2) by (simp add: DEFAULT_PRICES_def)
  then show f: "finite_prices ?rows" by (simp add: list_all_iff)
  have "list_all (\<lambda>k. k \<noteq> [] \<and> trim k = k) (map tr_key ?rows)" using default_keys(2) by (simp only: e(1))
  with f have "list_all (\<lambda>r. tr_key r \<noteq> [] \<and> trim (tr_key r) = tr_key r \<and> tr_price r \<noteq> NaN) ?rows" by (auto simp: list_all_iff)
  then show "rowsToObject ?rows = DEFAULT_PRICES" using rowsToObject_distinct [of ?rows] default_keys(1) by (simp only: e)
qed

text \<open>Saved prices are loaded again, but an emptied table comes back as the default prices.\<close>

lemma saved_prices_loaded:
  assumes "price_texts nt" "finite_prices rows" "rowsToObject rows \<noteq> []"
  shows "sentPrices nt (to_rows (loadPrices nt (sentPrices nt rows) st)) = sentPrices nt rows"
proof -
  have "priceDoc nt rows \<noteq> []" using assms(3) by (simp add: priceDoc_def)
  then have "js_entries (priceDoc nt rows) \<noteq> []" by (metis set_js_entries set_empty2)
  moreover have "sentPrices nt rows \<noteq> []" using written_prices(2) [OF assms(1,2)] by (auto simp: json_parse_def)
  ultimately show ?thesis
    using written_prices(2,3) [OF assms(1,2)] by (simp add: loadPrices_def parseInitialPrices_def showPrices_def)
qed

lemma emptied_prices_load_defaults: "to_rows (loadPrices nt (sentPrices nt []) st) = objectToRows id DEFAULT_PRICES"
proof -
  have "json_parse (json_stringify (lit nt) (JObj [])) = Some (JObj [])"
    using json_parse_stringify(1) [of "lit nt" "JObj []"] by (simp add: js_entries_def)
  then have "parseInitialPrices (sentPrices nt []) = DefaultPrices"
    by (simp add: parseInitialPrices_def sentPrices_def pricesJson_def rowsToObject_def)
  then show ?thesis by (simp add: loadPrices_def resetToDefault_def showPrices_def)
qed

section \<open>The two forms\<close>

definition rows_ok :: "nat \<Rightarrow> ToolPriceRow list \<Rightarrow> bool" where
  "rows_ok next rows \<longleftrightarrow> distinct (map tr_id rows) \<and> list_all (\<lambda>r. tr_id r < next \<and> tr_price r \<noteq> NaN) rows"

definition forms_agree :: "(jsnum \<Rightarrow> jsstr) \<Rightarrow> ToolPage \<Rightarrow> bool" where
  "forms_agree nt st \<longleftrightarrow>
     (case json_parse (to_jsonText st) of
        Some (JObj m) \<Rightarrow> sentPrices nt (objectToRows (parsedNumber nt) m) = sentPrices nt (to_rows st)
      | _ \<Rightarrow> False)"

definition page_ok :: "(jsnum \<Rightarrow> jsstr) \<Rightarrow> ToolPage \<Rightarrow> bool" where
  "page_ok nt st \<longleftrightarrow> rows_ok (to_nextRowId st) (to_rows st) \<and>
     (to_jsonError st = None \<longrightarrow> finite_prices (to_rows st) \<longrightarrow> forms_agree nt st)"

lemma objectToRows_ok: "rows_ok (length (objectToRows number m) + 1) (objectToRows number m)"
proof -
  have "map tr_id (map (\<lambda>(index, key, price). \<lparr>tr_id = index + 1, tr_key = key, tr_price = orZero (number price)\<rparr>) (enumerate i es)) =
    [i + 1..<i + length es + 1]" for i es
    by (induction es arbitrary: i) (simp_all add: upt_rec case_prod_unfold)
  then have ids: "map tr_id (objectToRows number m) = [1..<length (objectToRows number m) + 1]" by (simp add: objectToRows_def)
  have "tr_id r < length (objectToRows number m) + 1" if "r \<in> set (objectToRows number m)" for r
  proof -
    have "tr_id r \<in> set (map tr_id (objectToRows number m))" using that by simp
    then show ?thesis unfolding ids by simp linarith
  qed
  moreover have "distinct (map tr_id (objectToRows number m))" unfolding ids by (rule distinct_upt)
  moreover have "list_all (\<lambda>r. tr_price r \<noteq> NaN) (objectToRows number m)" by (auto simp: objectToRows_def list_all_iff)
  ultimately show ?thesis by (simp add: rows_ok_def list_all_iff)
qed

lemma showPrices_ok:
  assumes "json_parse text = Some (JObj m')"
    and "sentPrices nt (objectToRows (parsedNumber nt) m') = sentPrices nt (objectToRows number m)"
  shows "page_ok nt (showPrices (objectToRows number m) text st)"
  using assms objectToRows_ok [of number m] by (simp add: page_ok_def showPrices_def forms_agree_def)

lemma syncFromRows_ok:
  "price_texts nt \<Longrightarrow> rows_ok (to_nextRowId st) rows \<Longrightarrow> page_ok nt (syncFromRows nt rows st)"
  using written_prices(1,3) [of nt rows] by (auto simp: page_ok_def syncFromRows_def forms_agree_def)

lemma resetToDefault_ok: "price_texts nt \<Longrightarrow> page_ok nt (resetToDefault nt st)"
  using written_prices(1,3) [of nt "objectToRows id DEFAULT_PRICES"] default_rows
  by (auto simp: resetToDefault_def intro!: showPrices_ok)

lemma loadPrices_ok: "price_texts nt \<Longrightarrow> page_ok nt (loadPrices nt raw st)"
proof (cases "parseInitialPrices raw")
  case (StoredPrices m)
  moreover assume t: "price_texts nt"
  moreover have "printable (JObj m)"
    using StoredPrices by (auto simp: parseInitialPrices_def split: if_splits option.splits json.splits dest!: json_parse_printable)
  ultimately show ?thesis using stored_prices by (auto simp: loadPrices_def intro!: showPrices_ok)
qed (simp add: loadPrices_def resetToDefault_ok)

lemma changeToolJson_ok: "page_ok nt st \<Longrightarrow> page_ok nt (changeToolJson nt text st)"
  by (auto simp: changeToolJson_def page_ok_def [of nt "_\<lparr>to_jsonText := _, to_jsonError := _\<rparr>"] page_ok_def [of nt st]
      split: option.splits json.splits intro!: showPrices_ok)

lemma updateToolRow_ok:
  assumes "price_texts nt" "page_ok nt st" "\<And>x. field = ToolPrice x \<Longrightarrow> x \<noteq> NaN"
  shows "page_ok nt (updateToolRow nt rowId field st)"
proof -
  define f where "f = (\<lambda>r. if tr_id r = rowId then setToolField field r else r)"
  have id: "tr_id (f r) = tr_id r" for r by (cases field) (auto simp: f_def)
  have "tr_price r \<noteq> NaN \<Longrightarrow> tr_price (f r) \<noteq> NaN" for r using assms(3) by (cases field) (auto simp: f_def)
  then have "rows_ok (to_nextRowId st) (map f (to_rows st))"
    using assms(2) id by (auto simp: page_ok_def rows_ok_def list_all_iff comp_def)
  then show ?thesis unfolding updateToolRow_def f_def by (rule syncFromRows_ok [OF assms(1)])
qed

lemma addToolRow_ok:
  assumes "price_texts nt" "page_ok nt st"
  shows "page_ok nt (addToolRow nt st)"
  using assms(2) unfolding addToolRow_def Let_def
  by (intro syncFromRows_ok [OF assms(1)]) (fastforce simp: page_ok_def rows_ok_def list_all_iff)

lemma removeToolRow_ok:
  "price_texts nt \<Longrightarrow> page_ok nt st \<Longrightarrow> page_ok nt (removeToolRow nt rowId st)"
  unfolding removeToolRow_def
  by (rule syncFromRows_ok) (auto simp: page_ok_def rows_ok_def list_all_iff distinct_map_filter)

lemma toggleToolMode_ok: "page_ok nt st \<Longrightarrow> page_ok nt (toggleToolMode st)"
  by (auto simp: page_ok_def toggleToolMode_def forms_agree_def split: option.splits json.splits)

lemma tool_step_ok:
  assumes "price_texts nt" "page_ok nt st" "tool_step nt st st'"
  shows "page_ok nt st'"
  using assms(3,1,2)
  by (elim tool_stepE) (auto simp: typeToolPrice_def intro: loadPrices_ok changeToolJson_ok updateToolRow_ok addToolRow_ok removeToolRow_ok
      resetToDefault_ok toggleToolMode_ok)

interpretation tool_page: invariant_system "tool_init nt" "tool_step nt" "\<lambda>st. price_texts nt \<longrightarrow> page_ok nt st" for nt
  by unfold_locales (auto simp: tool_init_def intro: loadPrices_ok tool_step_ok)

text \<open>
  C26: the two forms of the tool prices agree. Whatever sequence of loads, edits of rows and edits of
  the text led here, the rows have identifiers of their own, below the next one, and no price is
  missing; when no error is shown and no price is infinite, reading the JSON text again gives no
  error and rows that save exactly what the present rows save.
\<close>

theorem tool_forms_agree:
  assumes "price_texts nt" and "reach (tool_init nt) (tool_step nt) st"
  shows "distinct (map tr_id (to_rows st)) \<and> list_all (\<lambda>r. tr_id r < to_nextRowId st \<and> tr_price r \<noteq> NaN) (to_rows st) \<and>
    (to_jsonError st = None \<and> list_all (\<lambda>r. is_finite (tr_price r)) (to_rows st) \<longrightarrow>
      (let again = changeToolJson nt (to_jsonText st) st in
       to_jsonError again = None \<and> sentPrices nt (to_rows again) = sentPrices nt (to_rows st)))"
proof -
  have "page_ok nt st" using tool_page.reach_inv [OF assms(2)] assms(1) by simp
  then show ?thesis
    by (auto simp: page_ok_def rows_ok_def forms_agree_def changeToolJson_def showPrices_def Let_def split: option.splits json.splits)
qed

lemma sample_price_texts: "price_texts samplePriceText"
proof -
  have "json_number (samplePriceText v) \<and> lit samplePriceText (samplePriceText v) = samplePriceText v" for v
    using samplePriceText_range [of v] by (auto simp: lit_def sample_literals samplePriceText_eval sample_json_numbers)
  then show ?thesis using sample_stable by (simp add: price_texts_def)
qed

definition samplePage :: ToolPage where
  "samplePage =
     (let page = changeToolJson samplePriceText (js ''{}'') (loadPrices samplePriceText [] blankToolPage) in
      typeToolPrice samplePriceText 1 (js ''2'') (updateToolRow samplePriceText 1 (ToolKey (js ''x'')) (addToolRow samplePriceText page)))"

lemma tool_reach:
  assumes "reach (tool_init nt) (tool_step nt) st"
  shows "reach (tool_init nt) (tool_step nt) (changeToolJson nt text st)"
    "reach (tool_init nt) (tool_step nt) (addToolRow nt st)"
    "reach (tool_init nt) (tool_step nt) (updateToolRow nt rowId (ToolKey k) st)"
    "reach (tool_init nt) (tool_step nt) (typeToolPrice nt rowId v st)"
  by (rule reach_step [OF assms], rule tool_step.intros)+

lemma samplePage_reached: "reach (tool_init samplePriceText) (tool_step samplePriceText) samplePage"
  unfolding samplePage_def Let_def by (intro tool_reach reach_init) (auto simp: tool_init_def)

lemma samplePage_rows: "to_rows samplePage = [\<lparr>tr_id = 1, tr_key = js ''x'', tr_price = Fin 2\<rparr>]" "to_jsonError samplePage = None"
proof -
  have "json_parse (js ''{}'') = Some (JObj [])"
    using json_parse_stringify(1) [of "lit samplePriceText" "JObj []"] by (simp add: js_entries_def json_stringify_def)
  then show "to_rows samplePage = [\<lparr>tr_id = 1, tr_key = js ''x'', tr_price = Fin 2\<rparr>]" "to_jsonError samplePage = None"
    by (simp_all add: samplePage_def changeToolJson_def showPrices_def objectToRows_def js_entries_def addToolRow_def updateToolRow_def
        typeToolPrice_def syncFromRows_def orZero_def sample_literals Let_def)
qed

theorem tool_forms_agree_witness:
  "to_rows samplePage = [\<lparr>tr_id = 1, tr_key = js ''x'', tr_price = Fin 2\<rparr>] \<and>
    sentPrices samplePriceText (to_rows (changeToolJson samplePriceText (to_jsonText samplePage) samplePage)) =
      sentPrices samplePriceText (to_rows samplePage)"
  using tool_forms_agree [OF sample_price_texts samplePage_reached] samplePage_rows by (simp add: Let_def)

end
