(* ===== verification/Spec2Isabelle.thy ===== *)
theory Spec2Isabelle
  imports Rule_Roundtrip Tier_Roundtrip Status_Codes Sync_Screen Advanced_Custom Flow_Marks Model_Mapping Playground_Config
    Channel_Claims Pricing_Claims Group_Claims Tool_Claims
begin

text \<open>
  Verification of the logic of the new-api web console.

  The program. The repository is an API gateway: a server in Go and a console in TypeScript
  (\<open>src/web/default/src\<close>). The development is about the console, and there about the code
  that decides something: what an administrator's settings mean, which prices are written to
  the server, what a chart shows, what a chat contains. File names below are relative to
  \<open>src/web/default/src\<close>.

  \<^bold>\<open>Parts, theories and sources.\<close>

  \<^item> The language. \<open>JS_Prelude\<close> has strings as lists of UTF-16 code units, \<open>JS_Number\<close> the
    numbers, \<open>JS_Double\<close> the rounding to doubles with its relative error, \<open>JS_Collections\<close> the ordered \<open>Set\<close>, \<open>Map\<close> and object and the stable sort
    with a contract for comparison functions (locale \<open>consistent_comparator\<close>, interpreted on
    the comparisons of the sources), \<open>JS_Json\<close> \<open>JSON.parse\<close> and the quoting of strings,
    \<open>JS_Stringify\<close> \<open>JSON.stringify\<close> with and without indentation and the proof that what it
    writes is parsed back, \<open>JS_Regex\<close> a backtracking matcher for the patterns the sources use,
    \<open>JS_System\<close> the states reached by handlers in any order (locale \<open>invariant_system\<close>,
    interpreted on the screens with state) and the contract of a written form that can be
    read back (locale \<open>text_format\<close>, interpreted on JSON texts, request rules, the option texts
    of model prices and the signatures of their rows).
  \<^item> HTTP status code rules (\<open>lib/http-status-code-rules.ts\<close>): \<open>Status_Codes\<close>. The parser and
    the merge of ranges; exactness of the merge, canonical form, round trip, errors.
  \<^item> Upstream price sync (\<open>features/system-settings/models/upstream-ratio-sync-helpers.ts\<close> and
    \<open>upstream-ratio-sync.tsx\<close>): \<open>Ratio_Sync\<close> has the picks of upstream values, \<open>Sync_Screen\<close>
    the screen as a step relation and the options a sync stores, which refine a specification
    given field by field. No reachable state mixes a fixed price with ratios.
  \<^item> Advanced custom routing (\<open>features/channels/lib/advanced-custom.ts\<close>): \<open>Advanced_Custom\<close>.
    Converters, templates, normalisation, and the validation loop, which accepts exactly the
    tables that are sound by a declarative statement.
  \<^item> Channel form (\<open>features/channels/lib/channel-form.ts\<close>): \<open>Channel_Form\<close> has the checks of
    the fields, the loading of a stored channel, the two JSON columns the form writes and the
    payloads; \<open>Channel_Claims\<close> shows what a save keeps, drops and loads again, that a checked form
    is always sent, and that the visual override editor only saves what the form accepts.
  \<^item> Parameter override editor (\<open>features/channels/components/dialogs/param-override-editor-dialog.tsx\<close>):
    \<open>Override_Rules\<close> has the rules, their JSON and their validation, \<open>Override_Editor\<close> the
    drafts, the state and the handlers of rules and conditions, \<open>Override_Screen\<close> the templates,
    dragging, the two forms, saving and the step relation \<open>editor_step\<close>. \<open>Override_Invariant\<close>
    proves its invariant over fresh identifiers (locale \<open>fresh_reader\<close>, interpreted on the readers
    of conditions and of rules), \<open>Override_Roundtrip\<close> what is shown of saved rules, and
    \<open>Override_Claims\<close> the properties: errors and their lines, the order of rules, drafts, and
    where the editor loses what was entered.
  \<^item> Model list and mapping (\<open>features/channels/lib/model-mapping-validation.ts\<close>):
    \<open>Model_Mapping\<close>, over \<open>JSON.parse\<close>.
  \<^item> Consumption flow chart (\<open>features/dashboard/lib/flow.ts\<close>): \<open>Flow_Data\<close> (rows, stages,
    colours), \<open>Flow_Filter\<close> (filters and facetted options), \<open>Flow_Graph\<close> (nodes and links
    accumulated over paths), then \<open>Flow_Balance\<close> (every column carries the total, what enters
    a node leaves it), \<open>Flow_Display\<close> (the limit to the largest nodes) and \<open>Flow_Marks\<close>
    (highlighting and masking).
  \<^item> Billing expressions (\<open>features/pricing/lib/billing-expr.ts\<close>): \<open>Billing_Tiers\<close> and
    \<open>Request_Rules\<close> have the definitions, \<open>Rule_Texts\<close> and \<open>Rule_Roundtrip\<close> the proofs that
    rules are read back as they were written, that a combined expression splits again, and for
    which rules reading fails.
  \<^item> Visual tier editor (\<open>features/pricing/lib/tier-expr.ts\<close>): \<open>Tier_Editor\<close>, \<open>Tier_Texts\<close>,
    \<open>Tier_Roundtrip\<close>. The price page shows the tiers that were configured, of several tiers the
    last one without its conditions.
  \<^item> Amounts (\<open>lib/currency.ts\<close>, the quota part of \<open>lib/format.ts\<close>, the currency part of
    \<open>stores/system-config-store.ts\<close> and \<open>hooks/use-system-config.ts\<close>): \<open>Currency\<close> has the
    configuration, the texts with a fixed number of digits and the formatting functions,
    \<open>Currency_Claims\<close> the accuracy of the texts, the round trip of a quota through an input field
    and that billing amounts are never tokens.
  \<^item> Price display (\<open>features/pricing/lib/price.ts\<close>, \<open>dynamic-price.ts\<close>, \<open>model-helpers.ts\<close>,
    \<open>filters.ts\<close>, \<open>hooks/use-pricing-data.ts\<close>): \<open>Price_Display\<close> has the group ratios, prices,
    summaries of tiered models and the list with its filters. \<open>Price_Claims\<close> joins it with the
    editors: what they save is summarised as configured; the ratio shown is the best one; prices
    that are shown as tokens or with a lost decimal comma.
  \<^item> Model price settings (\<open>features/system-settings/models\<close>): \<open>Pricing_Panel\<close> has the editor of
    one model (\<open>pricing-format.ts\<close>, \<open>model-pricing-core.ts\<close>, \<open>model-pricing-sheet.tsx\<close>) as the step
    relation \<open>panel_step\<close> with the invariant that links ratios and shown prices; \<open>Pricing_Table\<close> the
    snapshots, rows and handlers of the table (\<open>model-pricing-snapshots.ts\<close>,
    \<open>model-ratio-visual-editor.tsx\<close>); \<open>Pricing_Stored\<close> what the ten option texts hold for a model,
    with the contract of a store whose edits name the keys they replace (locale \<open>keyed_store\<close>,
    interpreted on writes and deletions of the table); \<open>Pricing_Save\<close> the JSON texts of the forms,
    their checks and the requests of a save (\<open>utils.ts\<close>, \<open>ratio-settings-card.tsx\<close>,
    \<open>model-ratio-form.tsx\<close>, \<open>hooks/use-update-option.ts\<close>). \<open>Pricing_Claims\<close> and \<open>Save_Claims\<close> show
    that what is submitted is what is shown, that a sequence of edits leaves every model with the
    last edit that names it, that the rows are the edited models, that only changes are sent and what
    the options that arrive during a save do to the form, how far a written price is from the computed one, and where a price or an option is lost.
  \<^item> Group settings (\<open>group-ratio-visual-editor.tsx\<close>, \<open>group-special-usable-editor.tsx\<close> of the same
    directory): \<open>Group_Ratios\<close> has the pricing table of groups, the ratio overrides, automatic
    assignment, the details of a group and the rules that show or hide groups; \<open>Group_Claims\<close> shows
    that table and rules are read back as they were written, that adding a group ends with an unused
    name after one step per row at most, and that a blank ratio is written as zero.
  \<^item> Tool prices (\<open>tool-price-settings.tsx\<close> of the same directory): \<open>Tool_Prices\<close> has the rows, the
    JSON text and the handlers of both as the step relation \<open>tool_step\<close>; \<open>Tool_Claims\<close> shows that in
    every state both forms would save the same prices, that saved prices are loaded again and that
    an emptied table comes back as the default prices.
  \<^item> Playground (\<open>features/playground\<close>): \<open>Playground_Messages\<close> has the messages
    (\<open>lib/message\<close>), \<open>Playground_Chat\<close> the event source, the buffering of chunks, requests and
    user actions (\<open>hooks\<close>, \<open>lib/streaming\<close>) as the step relation \<open>chat_step\<close> over all
    interleavings, \<open>Playground_Invariant\<close> its invariant, \<open>Playground_Text\<close> the text a stream
    leaves and the think tags, \<open>Playground_Storage\<close> the stored conversation (\<open>lib/storage\<close>),
    \<open>Playground_Config\<close> the request payload, the parameter ranges and the state of the views.

  \<^bold>\<open>How the code is represented.\<close> A component's state is a record, a handler a function on it, an
  exception a branch of a sum or option. Objects and maps are association lists in insertion
  order. Numbers that are prices, shares or metrics are exact rationals with the infinities
  and \<open>NaN\<close>, so rounding of doubles is not part of the statements, except in the conversions
  between quota and amount, which round every product and quotient (\<open>JS_Double\<close>); counters, identifiers and
  times are integers below the range where doubles lose exactness. Mutation of shared objects
  is a returned new value; where the identity of an object matters (the messages that loading
  compares) the text of the definition says how it shows in values. Loops are recursion with
  a measure; there is no fuel: the repetition of a group in a pattern is bounded by the length
  of the text, and each iteration reads at least one character, so the bound is never met.

  \<^bold>\<open>Parameters.\<close> Code that is not in the repository is an argument: the \<open>URL\<close> constructor, the
  colour schemes of the chart library, \<open>localeCompare\<close> and \<open>Intl.NumberFormat\<close> of the browser, the
  translation \<open>tr\<close>, the text of a number \<open>nt\<close> (theorems about written JSON assume that it is a
  JSON number, \<open>writes_numbers\<close>, those about stored prices also that writing it twice changes
  nothing, \<open>stable_numbers\<close> and \<open>price_texts\<close>), the message of a failed \<open>JSON.parse\<close>, the answers of the server, lower-casing where the result is not compared with a fixed
  ASCII word, the zod schema and \<open>JSON.stringify\<close> of the stored conversation, the identifiers of \<open>nanoid\<close>, the clock. What a
  theorem needs of them is a hypothesis of the theorem. Event sources and requests of the
  playground give events in any order until they are closed or settled; the events that closing
  a source may itself raise are not modelled, nor is a second click before the page is drawn
  again.

  \<^bold>\<open>Not modelled.\<close> The server (\<open>src/controller\<close>, \<open>relay\<close>, \<open>service\<close>, \<open>model\<close> and the other Go
  packages), the desktop shell (\<open>src/electron\<close>), views, routes and translations: they draw or
  transport what the modelled code computes. Of the modelled files: \<open>evalExprLocally\<close>, which
  hands a text to the \<open>Function\<close> constructor; the chart specification of the flow chart; labels and
  placeholders of the override editor; toasts and cleanup of the playground and the
  storage of its configuration. An object whose own \<open>toString\<close> makes \<open>String(v)\<close> throw is
  treated like any other object. Of the price page the placeholder statistics
  (\<open>lib/mock-stats.ts\<close>) and the path template of endpoints. Of the price settings the reset of all
  prices, paging and column order of the table, the sheet of small screens, and options that hold other JSON values than objects
  and \<open>null\<close>. Of the channels the helpers of the table (\<open>channel-utils.ts\<close>,
  \<open>upstream-update-utils.ts\<close>, \<open>status-code-risk-guard.ts\<close>), which choose labels and requests. Of the system settings the editor of tiered prices with its
  presets (\<open>tiered-pricing-editor.tsx\<close>), which draws the tiers and rules modelled above, and the other
  pages.
\<close>

end
